(* ===== verification/Prelude.thy ===== *)
theory Prelude
  imports Main "HOL-Library.Char_ord" "HOL-Library.List_Lexorder" "HOL-Library.Product_Lexorder"
    "HOL-Library.Code_Target_Nat"
begin

text \<open>
  What every component of the development shares: Rust's \<open>Result\<close>, the string
  operations of Rust's standard library that the sources call, and the lemmas about them.

  Text is a list of bytes (\<open>string\<close>, one \<open>char\<close> per byte of the UTF-8 encoding).
  Searching for an ASCII delimiter, slicing at it and comparing are then byte for byte what
  Rust does. Of the Unicode \<open>White_Space\<close> property the model keeps the six ASCII
  characters; text that uses the others (U+0085, U+00A0, U+2003, ...) as blanks is outside it.
\<close>

named_theorems str_simps \<open>rewrite rules for the string operations\<close>

section \<open>Results\<close>

text \<open>\<open>std::result::Result\<close>, and \<open>anyhow::Error\<close> as its chain of contexts with the
  outermost first: \<open>to_string()\<close> prints the head, \<open>with_context\<close> conses.\<close>

datatype ('e, 'a) result = Ok (ok_val: 'a) | Err (err_val: 'e)

type_synonym anyhow = "string list"

fun bind_r :: "('e, 'a) result \<Rightarrow> ('a \<Rightarrow> ('e, 'b) result) \<Rightarrow> ('e, 'b) result" where
  "bind_r (Ok a) f = f a"
| "bind_r (Err e) f = Err e"

fun is_ok :: "('e, 'a) result \<Rightarrow> bool" where
  "is_ok (Ok _) = True"
| "is_ok (Err _) = False"

fun map_err :: "('e \<Rightarrow> 'f) \<Rightarrow> ('e, 'a) result \<Rightarrow> ('f, 'a) result" where
  "map_err f (Ok a) = Ok a"
| "map_err f (Err e) = Err (f e)"

definition ok_or :: "'e \<Rightarrow> 'a option \<Rightarrow> ('e, 'a) result" where
  "ok_or e x = (case x of Some a \<Rightarrow> Ok a | None \<Rightarrow> Err e)"

abbreviation bail :: "string \<Rightarrow> (anyhow, 'a) result" where
  "bail msg \<equiv> Err [msg]"

definition with_context :: "string \<Rightarrow> (anyhow, 'a) result \<Rightarrow> (anyhow, 'a) result" where
  "with_context ctx r = map_err (\<lambda>e. ctx # e) r"

definition err_to_string :: "anyhow \<Rightarrow> string" where
  "err_to_string e = (case e of [] \<Rightarrow> [] | m # _ \<Rightarrow> m)"

lemma bind_r_Ok_iff [simp]: "bind_r r f = Ok b \<longleftrightarrow> (\<exists>a. r = Ok a \<and> f a = Ok b)"
  by (cases r) auto

lemma bind_r_Err_iff: "bind_r r f = Err e \<longleftrightarrow> r = Err e \<or> (\<exists>a. r = Ok a \<and> f a = Err e)"
  by (cases r) auto

lemma bind_r_assoc: "bind_r (bind_r r f) g = bind_r r (\<lambda>a. bind_r (f a) g)"
  by (cases r) auto

lemma is_ok_iff: "is_ok r \<longleftrightarrow> (\<exists>a. r = Ok a)"
  by (cases r) auto

lemma ok_or_Ok [simp]: "ok_or e x = Ok a \<longleftrightarrow> x = Some a"
  by (auto simp: ok_or_def split: option.splits)

lemma ok_or_Err: "ok_or e x = Err e' \<longleftrightarrow> x = None \<and> e' = e"
  by (auto simp: ok_or_def split: option.splits)

lemma map_err_Ok_iff [simp]: "map_err f r = Ok a \<longleftrightarrow> r = Ok a"
  by (cases r) auto

lemma with_context_simps [simp]:
  "with_context c (Ok a) = Ok a"
  "with_context c (Err e) = Err (c # e)"
  "with_context c r = Ok b \<longleftrightarrow> r = Ok b"
  by (auto simp: with_context_def)

section \<open>Character classes\<close>

abbreviation NL :: char where "NL \<equiv> CHR 0x0A"
abbreviation CR :: char where "CR \<equiv> CHR 0x0D"

definition is_ascii_digit :: "char \<Rightarrow> bool" where
  "is_ascii_digit c \<longleftrightarrow> 48 \<le> (of_char c :: nat) \<and> (of_char c :: nat) \<le> 57"

definition is_ascii_uppercase :: "char \<Rightarrow> bool" where
  "is_ascii_uppercase c \<longleftrightarrow> 65 \<le> (of_char c :: nat) \<and> (of_char c :: nat) \<le> 90"

definition is_ascii_lowercase :: "char \<Rightarrow> bool" where
  "is_ascii_lowercase c \<longleftrightarrow> 97 \<le> (of_char c :: nat) \<and> (of_char c :: nat) \<le> 122"

definition is_ascii_alphabetic :: "char \<Rightarrow> bool" where
  "is_ascii_alphabetic c \<longleftrightarrow> is_ascii_uppercase c \<or> is_ascii_lowercase c"

definition is_ascii_alphanumeric :: "char \<Rightarrow> bool" where
  "is_ascii_alphanumeric c \<longleftrightarrow> is_ascii_alphabetic c \<or> is_ascii_digit c"

definition is_ascii_hexdigit :: "char \<Rightarrow> bool" where
  "is_ascii_hexdigit c \<longleftrightarrow> is_ascii_digit c
     \<or> (65 \<le> (of_char c :: nat) \<and> (of_char c :: nat) \<le> 70)
     \<or> (97 \<le> (of_char c :: nat) \<and> (of_char c :: nat) \<le> 102)"

text \<open>\<open>char::is_whitespace\<close> on ASCII: tab, line feed, vertical tab, form feed, carriage
  return, space. \<open>u8::is_ascii_whitespace\<close> leaves the vertical tab out.\<close>

definition is_whitespace :: "char \<Rightarrow> bool" where
  "is_whitespace c \<longleftrightarrow> (of_char c :: nat) \<in> {9, 10, 11, 12, 13, 32}"

definition is_ascii_whitespace :: "char \<Rightarrow> bool" where
  "is_ascii_whitespace c \<longleftrightarrow> (of_char c :: nat) \<in> {9, 10, 12, 13, 32}"

definition to_ascii_lower_char :: "char \<Rightarrow> char" where
  "to_ascii_lower_char c = (if is_ascii_uppercase c then char_of ((of_char c :: nat) + 32) else c)"

definition to_ascii_lowercase :: "string \<Rightarrow> string" where
  "to_ascii_lowercase = map to_ascii_lower_char"

lemmas char_class_defs = is_ascii_digit_def is_ascii_uppercase_def is_ascii_lowercase_def
  is_ascii_alphabetic_def is_ascii_alphanumeric_def is_ascii_hexdigit_def
  is_whitespace_def is_ascii_whitespace_def

lemma ascii_alphanumeric_not_whitespace: "is_ascii_alphanumeric c \<Longrightarrow> \<not> is_whitespace c"
  by (auto simp: char_class_defs)

lemma ascii_digit_alphanumeric: "is_ascii_digit c \<Longrightarrow> is_ascii_alphanumeric c"
  by (simp add: is_ascii_alphanumeric_def)

section \<open>Trimming, prefixes, searching\<close>

definition trim_start :: "string \<Rightarrow> string" where
  "trim_start = dropWhile is_whitespace"

definition trim_end :: "string \<Rightarrow> string" where
  "trim_end s = rev (dropWhile is_whitespace (rev s))"

definition trim :: "string \<Rightarrow> string" where
  "trim s = trim_end (trim_start s)"

definition trim_end_matches :: "char \<Rightarrow> string \<Rightarrow> string" where
  "trim_end_matches c s = rev (dropWhile (\<lambda>x. x = c) (rev s))"

fun strip_prefix :: "string \<Rightarrow> string \<Rightarrow> string option" where
  "strip_prefix [] s = Some s"
| "strip_prefix (p # ps) [] = None"
| "strip_prefix (p # ps) (c # cs) = (if p = c then strip_prefix ps cs else None)"

definition starts_with :: "string \<Rightarrow> string \<Rightarrow> bool" where
  "starts_with p s \<longleftrightarrow> strip_prefix p s \<noteq> None"

definition ends_with :: "string \<Rightarrow> string \<Rightarrow> bool" where
  "ends_with p s \<longleftrightarrow> starts_with (rev p) (rev s)"

definition strip_suffix :: "string \<Rightarrow> string \<Rightarrow> string option" where
  "strip_suffix p s = map_option rev (strip_prefix (rev p) (rev s))"

fun contains :: "string \<Rightarrow> string \<Rightarrow> bool" where
  "contains p [] = (p = [])"
| "contains p (c # cs) = (starts_with p (c # cs) \<or> contains p cs)"

text \<open>\<open>s.find(c)\<close> with the two slices around the match, i.e. \<open>split_once\<close>; and the
  search from the right.\<close>

fun split_once :: "char \<Rightarrow> string \<Rightarrow> (string \<times> string) option" where
  "split_once c [] = None"
| "split_once c (x # xs) =
     (if x = c then Some ([], xs) else map_option (\<lambda>(a, b). (x # a, b)) (split_once c xs))"

definition rsplit_once :: "char \<Rightarrow> string \<Rightarrow> (string \<times> string) option" where
  "rsplit_once c s = map_option (\<lambda>(a, b). (rev b, rev a)) (split_once c (rev s))"

fun split_on :: "char \<Rightarrow> string \<Rightarrow> string list" where
  "split_on c [] = [[]]"
| "split_on c (x # xs) =
     (if x = c then [] # split_on c xs
      else (case split_on c xs of p # ps \<Rightarrow> (x # p) # ps | [] \<Rightarrow> [[x]]))"

fun split_ws_acc :: "string \<Rightarrow> string \<Rightarrow> string list" where
  "split_ws_acc acc [] = (if acc = [] then [] else [rev acc])"
| "split_ws_acc acc (c # cs) =
     (if is_whitespace c then (if acc = [] then split_ws_acc [] cs else rev acc # split_ws_acc [] cs)
      else split_ws_acc (c # acc) cs)"

definition split_whitespace :: "string \<Rightarrow> string list" where
  "split_whitespace s = split_ws_acc [] s"

text \<open>\<open>str::lines\<close>: a line ends at a line feed, which takes one carriage return before it
  along; an unterminated last line is kept as it is, and an empty one is not a line.\<close>

definition strip_cr :: "string \<Rightarrow> string" where
  "strip_cr s = (if s \<noteq> [] \<and> last s = CR then butlast s else s)"

fun lines_acc :: "string \<Rightarrow> string \<Rightarrow> string list" where
  "lines_acc acc [] = (if acc = [] then [] else [rev acc])"
| "lines_acc acc (c # cs) =
     (if c = NL then strip_cr (rev acc) # lines_acc [] cs else lines_acc (c # acc) cs)"

definition lines :: "string \<Rightarrow> string list" where
  "lines s = lines_acc [] s"

fun join :: "string \<Rightarrow> string list \<Rightarrow> string" where
  "join sep [] = []"
| "join sep [x] = x"
| "join sep (x # y # zs) = x @ sep @ join sep (y # zs)"

section \<open>Numbers as text\<close>

definition digit_val :: "char \<Rightarrow> nat" where
  "digit_val c = of_char c - 48"

definition digit_char :: "nat \<Rightarrow> char" where
  "digit_char n = ''0123456789'' ! n"

definition digits_val :: "string \<Rightarrow> nat" where
  "digits_val ds = foldl (\<lambda>a c. 10 * a + digit_val c) 0 ds"

fun show_nat :: "nat \<Rightarrow> string" where
  "show_nat n = (if n < 10 then [digit_char n] else show_nat (n div 10) @ [digit_char (n mod 10)])"

declare show_nat.simps [simp del]

text \<open>\<open>str::parse\<close> for an unsigned type with the given largest value: one optional \<open>+\<close>,
  then at least one decimal digit, no overflow.\<close>

definition parse_uint :: "nat \<Rightarrow> string \<Rightarrow> nat option" where
  "parse_uint mx s =
     (let ds = (case s of [] \<Rightarrow> [] | c # cs \<Rightarrow> if c = CHR ''+'' then cs else s) in
      if ds = [] \<or> \<not> list_all is_ascii_digit ds then None
      else if digits_val ds \<le> mx then Some (digits_val ds) else None)"

definition U16_MAX :: nat where "U16_MAX = 65535"
definition U32_MAX :: nat where "U32_MAX = 4294967295"

abbreviation parse_u16 :: "string \<Rightarrow> nat option" where "parse_u16 \<equiv> parse_uint U16_MAX"
abbreviation parse_u32 :: "string \<Rightarrow> nat option" where "parse_u32 \<equiv> parse_uint U32_MAX"

text \<open>\<open>u32::saturating_add\<close>.\<close>

definition sat_add_u32 :: "nat \<Rightarrow> nat \<Rightarrow> nat" where
  "sat_add_u32 a b = min (a + b) U32_MAX"

text \<open>\<open>x.filter(|s| !s.is_empty())\<close> and \<open>x.or(y)\<close>.\<close>

definition filled :: "string option \<Rightarrow> string option" where
  "filled x = (case x of Some s \<Rightarrow> if s = [] then None else Some s | None \<Rightarrow> None)"

definition or_opt :: "'a option \<Rightarrow> 'a option \<Rightarrow> 'a option" where
  "or_opt x y = (case x of Some a \<Rightarrow> Some a | None \<Rightarrow> y)"

definition unwrap_or :: "'a option \<Rightarrow> 'a \<Rightarrow> 'a" where
  "unwrap_or x d = (case x of Some a \<Rightarrow> a | None \<Rightarrow> d)"

text \<open>Lines, each with its line feed.\<close>

definition unlines :: "string list \<Rightarrow> string" where
  "unlines ls = concat (map (\<lambda>l. l @ [NL]) ls)"

text \<open>\<open>Path::join\<close> with a relative path, and the dash of the messages.\<close>

definition path_join :: "string \<Rightarrow> string \<Rightarrow> string" where
  "path_join p q = (if p = [] then q else if ends_with ''/'' p then p @ q else p @ ''/'' @ q)"

definition EM_DASH :: string where "EM_DASH = [CHR 0xE2, CHR 0x80, CHR 0x94]"

text \<open>The \<open>{:?}\<close> of a string. Control characters are escaped; of the bytes above 127 the model
  keeps all, as Rust keeps printable characters.\<close>

definition hex_char :: "nat \<Rightarrow> char" where
  "hex_char n = ''0123456789abcdef'' ! n"

definition debug_char :: "char \<Rightarrow> string" where
  "debug_char c =
     (let n = (of_char c :: nat) in
      if n = 34 then [CHR 0x5C, c]
      else if n = 92 then [c, c]
      else if n = 9 then [CHR 0x5C] @ ''t''
      else if n = 10 then [CHR 0x5C] @ ''n''
      else if n = 13 then [CHR 0x5C] @ ''r''
      else if n = 0 then [CHR 0x5C] @ ''0''
      else if n < 16 then [CHR 0x5C] @ ''u{'' @ [hex_char n] @ ''}''
      else if n < 32 \<or> n = 127 then [CHR 0x5C] @ ''u{'' @ [hex_char (n div 16), hex_char (n mod 16)] @ ''}''
      else [c])"

definition debug_str :: "string \<Rightarrow> string" where
  "debug_str s = [CHR 0x22] @ concat (map debug_char s) @ [CHR 0x22]"

section \<open>Lemmas on the string operations\<close>

lemma trim_start_Nil [simp]: "trim_start [] = []"
  by (simp add: trim_start_def)

lemma trim_end_Nil [simp]: "trim_end [] = []"
  by (simp add: trim_end_def)

lemma trim_start_hd: "trim_start s = c # cs \<Longrightarrow> \<not> is_whitespace c"
  by (metis dropWhile_eq_Cons_conv trim_start_def)

lemma trim_start_idem [simp]: "trim_start (trim_start s) = trim_start s"
  by (simp add: trim_start_def dropWhile_idem)

lemma trim_start_id: "s = [] \<or> \<not> is_whitespace (hd s) \<Longrightarrow> trim_start s = s"
  by (cases s) (auto simp: trim_start_def)

lemma trim_start_length: "length (trim_start s) \<le> length s"
  by (simp add: trim_start_def length_dropWhile_le)

lemma trim_end_id: "s = [] \<or> \<not> is_whitespace (last s) \<Longrightarrow> trim_end s = s"
  by (cases s rule: rev_cases) (auto simp: trim_end_def)

lemma trim_id: "list_all (\<lambda>c. \<not> is_whitespace c) s \<Longrightarrow> trim s = s"
proof (cases "s = []")
  case False
  assume "list_all (\<lambda>c. \<not> is_whitespace c) s"
  with False have "\<not> is_whitespace (hd s)" "\<not> is_whitespace (last s)"
    by (auto simp: list_all_iff)
  then show ?thesis by (simp add: trim_def trim_start_id trim_end_id)
qed (simp add: trim_def)

lemma strip_prefix_Some: "strip_prefix p s = Some r \<longleftrightarrow> s = p @ r"
  by (induction p s rule: strip_prefix.induct) auto

lemma strip_prefix_append [simp]: "strip_prefix p (p @ r) = Some r"
  by (simp add: strip_prefix_Some)

lemma starts_with_iff: "starts_with p s \<longleftrightarrow> (\<exists>r. s = p @ r)"
  by (auto simp: starts_with_def strip_prefix_Some)

lemma starts_with_single_append: "a \<noteq> [] \<Longrightarrow> starts_with [c] (a @ b) = starts_with [c] a"
  by (cases a) (auto simp: starts_with_def)

lemma ends_with_iff: "ends_with p s \<longleftrightarrow> (\<exists>r. s = r @ p)"
  unfolding ends_with_def starts_with_iff by (metis rev_append rev_rev_ident)

lemma contains_iff: "contains p s \<longleftrightarrow> (\<exists>a b. s = a @ p @ b)"
proof (induction s)
  case Nil
  show ?case by auto
next
  case (Cons c cs)
  have "(\<exists>a b. c # cs = a @ p @ b) \<longleftrightarrow> (\<exists>b. c # cs = p @ b) \<or> (\<exists>a b. cs = a @ p @ b)"
    by (auto simp: Cons_eq_append_conv)
  with Cons.IH show ?case by (simp add: starts_with_iff)
qed

lemma contains_single [simp]: "contains [c] s \<longleftrightarrow> c \<in> set s"
  by (auto simp: contains_iff in_set_conv_decomp)

lemma split_once_Some: "split_once c s = Some (a, b) \<longleftrightarrow> s = a @ c # b \<and> c \<notin> set a"
proof (induction s arbitrary: a)
  case Nil
  show ?case by simp
next
  case (Cons x xs)
  show ?case
    by (cases "x = c") (auto simp: Cons.IH Cons_eq_append_conv)
qed

lemma split_once_None: "split_once c s = None \<longleftrightarrow> c \<notin> set s"
  by (induction s) auto

lemma split_once_append [simp]: "c \<notin> set a \<Longrightarrow> split_once c (a @ c # b) = Some (a, b)"
  by (simp add: split_once_Some)

lemma rsplit_once_Some: "rsplit_once c s = Some (a, b) \<longleftrightarrow> s = a @ c # b \<and> c \<notin> set b"
proof -
  have "rsplit_once c s = Some (a, b) \<longleftrightarrow> split_once c (rev s) = Some (rev b, rev a)"
    by (auto simp: rsplit_once_def)
  then show ?thesis
    by (simp add: split_once_Some) (metis append.assoc append_Cons append_Nil rev.simps(2)
        rev_append rev_rev_ident)
qed

lemma rsplit_once_None: "rsplit_once c s = None \<longleftrightarrow> c \<notin> set s"
  by (simp add: rsplit_once_def split_once_None)

lemma split_on_nonempty [simp]: "split_on c s \<noteq> []"
  by (induction s) (auto split: list.splits)

lemma split_on_join: "join [c] (split_on c s) = s"
proof (induction s)
  case Nil
  show ?case by simp
next
  case (Cons x xs)
  obtain p ps where "split_on c xs = p # ps"
    by (cases "split_on c xs") auto
  with Cons.IH show ?case by (cases ps) auto
qed

lemma split_on_sep_free: "p \<in> set (split_on c s) \<Longrightarrow> c \<notin> set p"
proof (induction s arbitrary: p)
  case Nil
  then show ?case by simp
next
  case (Cons x xs)
  obtain q qs where "split_on c xs = q # qs"
    by (cases "split_on c xs") auto
  with Cons show ?case by (auto split: if_splits)
qed

lemma split_ws_acc_props:
  "list_all (\<lambda>c. \<not> is_whitespace c) acc \<Longrightarrow> w \<in> set (split_ws_acc acc s) \<Longrightarrow>
     w \<noteq> [] \<and> list_all (\<lambda>c. \<not> is_whitespace c) w"
proof (induction acc s rule: split_ws_acc.induct)
  case (1 acc)
  then show ?case by (simp split: if_splits)
next
  case (2 acc c cs)
  then show ?case by (cases "is_whitespace c"; cases "acc = []") auto
qed

lemma split_whitespace_words:
  "w \<in> set (split_whitespace s) \<Longrightarrow> w \<noteq> [] \<and> list_all (\<lambda>c. \<not> is_whitespace c) w"
  using split_ws_acc_props [of "[]" w s] by (simp add: split_whitespace_def)

lemma split_ws_acc_word:
  "list_all (\<lambda>c. \<not> is_whitespace c) a \<Longrightarrow> split_ws_acc acc (a @ s) = split_ws_acc (rev a @ acc) s"
  by (induction a arbitrary: acc) auto

lemma strip_cr_id: "l = [] \<or> last l \<noteq> CR \<Longrightarrow> strip_cr l = l"
  by (auto simp: strip_cr_def)

lemma strip_cr_set: "set (strip_cr l) \<subseteq> set l"
  by (auto simp: strip_cr_def dest: in_set_butlastD)

lemma lines_acc_no_nl: "NL \<notin> set acc \<Longrightarrow> l \<in> set (lines_acc acc s) \<Longrightarrow> NL \<notin> set l"
proof (induction acc s rule: lines_acc.induct)
  case (1 acc)
  then show ?case by (auto split: if_splits)
next
  case (2 acc c cs)
  then show ?case using strip_cr_set [of "rev acc"] by (auto split: if_splits)
qed

lemma lines_no_nl: "l \<in> set (lines s) \<Longrightarrow> NL \<notin> set l"
  by (simp add: lines_def lines_acc_no_nl [of "[]"])

lemma lines_acc_step: "NL \<notin> set l \<Longrightarrow> lines_acc acc (l @ s) = lines_acc (rev l @ acc) s"
  by (induction l arbitrary: acc) auto

lemma lines_cons: "NL \<notin> set l \<Longrightarrow> lines (l @ NL # s) = strip_cr l # lines s"
  by (simp add: lines_def lines_acc_step)

text \<open>Splitting into lines undoes writing the lines, one line feed after each.\<close>

lemma lines_concat:
  assumes "\<And>l. l \<in> set ls \<Longrightarrow> NL \<notin> set l \<and> (l = [] \<or> last l \<noteq> CR)"
  shows "lines (concat (map (\<lambda>l. l @ [NL]) ls)) = ls"
  using assms
proof (induction ls)
  case Nil
  show ?case by (simp add: lines_def)
next
  case (Cons l ls)
  then have "lines (l @ NL # concat (map (\<lambda>l. l @ [NL]) ls)) = l # ls"
    by (simp add: lines_cons strip_cr_id)
  then show ?case by simp
qed

section \<open>Lemmas on numbers as text\<close>

lemma digit_char_cases:
  assumes "n < 10"
  shows "is_ascii_digit (digit_char n) \<and> digit_val (digit_char n) = n"
proof -
  from assms have "n \<in> {0, 1, 2, 3, 4, 5, 6, 7, 8, 9}" by auto
  then show ?thesis
    by (auto simp: digit_char_def digit_val_def is_ascii_digit_def)
qed

lemma show_nat_digits: "list_all is_ascii_digit (show_nat n)"
proof (induction n rule: show_nat.induct)
  case (1 n)
  then show ?case
    by (subst show_nat.simps) (auto simp: digit_char_cases)
qed

lemma show_nat_nonempty [simp]: "show_nat n \<noteq> []"
  by (subst show_nat.simps) simp

lemma digits_val_snoc [simp]: "digits_val (ds @ [d]) = 10 * digits_val ds + digit_val d"
  by (simp add: digits_val_def)

lemma digits_val_show_nat [simp]: "digits_val (show_nat n) = n"
proof (induction n rule: show_nat.induct)
  case (1 n)
  show ?case
  proof (cases "n < 10")
    case True
    then show ?thesis
      by (subst show_nat.simps) (simp add: digits_val_def digit_char_cases)
  next
    case False
    with 1 have "digits_val (show_nat (n div 10)) = n div 10" by simp
    with False show ?thesis
      by (subst show_nat.simps) (simp add: digit_char_cases)
  qed
qed

lemma digit_not_plus: "is_ascii_digit c \<Longrightarrow> c \<noteq> CHR ''+''"
  by (auto simp: is_ascii_digit_def)

lemma show_nat_set: "c \<in> set (show_nat n) \<Longrightarrow> is_ascii_digit c"
  using show_nat_digits by (auto simp: list_all_iff)

lemma parse_uint_digits:
  assumes "ds \<noteq> []" "list_all is_ascii_digit ds"
  shows "parse_uint mx ds = (if digits_val ds \<le> mx then Some (digits_val ds) else None)"
  using assms by (cases ds) (auto simp: parse_uint_def dest: digit_not_plus)

lemma parse_show_nat [simp]: "parse_uint mx (show_nat n) = (if n \<le> mx then Some n else None)"
  by (simp add: parse_uint_digits show_nat_digits)

lemma parse_uint_bound: "parse_uint mx s = Some n \<Longrightarrow> n \<le> mx"
  by (auto simp: parse_uint_def Let_def split: if_splits)

lemma parse_uint_Nil [simp]: "parse_uint mx [] = None"
  by (simp add: parse_uint_def)

lemma sat_add_u32_bound: "sat_add_u32 a b \<le> U32_MAX"
  by (simp add: sat_add_u32_def)

lemma sat_add_u32_progress: "a < t \<Longrightarrow> t \<le> U32_MAX \<Longrightarrow> 0 < b \<Longrightarrow> a < sat_add_u32 a b"
  by (simp add: sat_add_u32_def)

lemma split_on_free: "c \<notin> set a \<Longrightarrow> split_on c a = [a]"
  by (induction a) auto

lemma split_on_append: "c \<notin> set a \<Longrightarrow> split_on c (a @ c # b) = a # split_on c b"
  by (induction a) auto

lemma split_on_replicate: "split_on c (replicate k c) = replicate (Suc k) []"
  by (induction k) auto

lemma trim_end_matches_replicate:
  "x = [] \<or> last x \<noteq> c \<Longrightarrow> trim_end_matches c (x @ replicate k c) = x"
proof -
  assume "x = [] \<or> last x \<noteq> c"
  moreover have "dropWhile (\<lambda>y. y = c) (replicate k c @ rev x) = dropWhile (\<lambda>y. y = c) (rev x)"
    by (induction k) auto
  ultimately show ?thesis
    by (cases x rule: rev_cases) (auto simp: trim_end_matches_def)
qed

lemma show_nat_length: "n < 1000 \<Longrightarrow> length (show_nat n) \<le> 3"
  by (subst show_nat.simps, subst show_nat.simps, subst show_nat.simps) auto

lemma show_nat_hd: "0 < n \<Longrightarrow> hd (show_nat n) \<noteq> CHR ''0''"
proof (induction n rule: show_nat.induct)
  case (1 n)
  show ?case
  proof (cases "n < 10")
    case True
    then have "n \<in> {0, 1, 2, 3, 4, 5, 6, 7, 8, 9}" by auto
    with 1 True show ?thesis by (subst show_nat.simps) (auto simp: digit_char_def)
  next
    case False
    with 1 have "hd (show_nat (n div 10)) \<noteq> CHR ''0''" by auto
    with False show ?thesis by (subst show_nat.simps) simp
  qed
qed

lemma digit_char_val: "is_ascii_digit c \<Longrightarrow> digit_val c < 10 \<and> digit_char (digit_val c) = c"
proof -
  assume d: "is_ascii_digit c"
  define k where "k = digit_val c"
  from d have k: "of_char c = 48 + k" "k < 10"
    by (auto simp: k_def digit_val_def is_ascii_digit_def)
  from k(2) have "k \<in> {0, 1, 2, 3, 4, 5, 6, 7, 8, 9}" by auto
  then have "(of_char (digit_char k) :: nat) = 48 + k" by (auto simp: digit_char_def)
  with k(1) have "(of_char (digit_char k) :: nat) = of_char c" by simp
  then have "digit_char k = c" by (simp only: of_char_eq_iff)
  with k show ?thesis by (simp add: k_def)
qed

lemma show_nat_digits_val:
  "s \<noteq> [] \<Longrightarrow> list_all is_ascii_digit s \<Longrightarrow> (length s > 1 \<longrightarrow> hd s \<noteq> CHR ''0'') \<Longrightarrow> show_nat (digits_val s) = s"
proof (induction s rule: rev_induct)
  case (snoc c s)
  then have c: "digit_val c < 10" "digit_char (digit_val c) = c"
    using digit_char_val [of c] by auto
  show ?case
  proof (cases "s = []")
    case True
    with c show ?thesis by (simp add: digits_val_def show_nat.simps)
  next
    case False
    with snoc have IH: "show_nat (digits_val s) = s" by (cases s) auto
    have "digits_val s \<noteq> 0"
    proof
      assume "digits_val s = 0"
      with IH have "s = ''0''" by (simp add: show_nat.simps digit_char_def)
      with snoc show False by simp
    qed
    with c IH show ?thesis by (subst show_nat.simps) simp
  qed
qed simp

lemma split_on_eq_join: "split_on c s = ps \<Longrightarrow> s = join [c] ps"
  using split_on_join by metis

end
