(* ===== verification/Config.thy ===== *)
theory Config
  imports Prelude "HOL-Library.Multiset"
begin

text \<open>
  The crate \<open>hbird-config\<close>: the typed parser for \<open>cluster.local.conf\<close>
  (\<open>src/rust/crates/hbird-config/src\<close>: \<open>error.rs\<close>, \<open>parser.rs\<close>, \<open>lib.rs\<close>).
  First the data and the operations in the order of \<open>parser.rs\<close>, then the lemmas: the
  tokenizer reads back what a printer of assignments wrote, every diagnostic points at the
  line it quotes, later assignments win, the assembled configuration takes each known key
  once, and what is left over is reported as warnings in a total order.
\<close>

section \<open>Data\<close>

datatype conf_value = Scalar string | Array "string list"

datatype conf_error =
    Io string string
  | UnrecognizedLine nat string
  | UnterminatedArray string nat
  | UnterminatedQuote nat string
  | MissingRequired string string
  | InvalidInteger string nat string
  | InvalidBool string nat string
  | TrailingContent nat string
  | TypeMismatch string string string nat

datatype conf_warning = UnknownKey (warn_key: string) (warn_line: nat)

text \<open>\<open>HashMap<String, (usize, Value)>\<close> as an association list without duplicate keys. Its
  order stands for the iteration order of the hash map, which the code must not depend on.\<close>

type_synonym raw_map = "(string \<times> nat \<times> conf_value) list"

definition raw_insert :: "string \<Rightarrow> nat \<times> conf_value \<Rightarrow> raw_map \<Rightarrow> raw_map" where
  "raw_insert k v m = (k, v) # filter (\<lambda>(k', _). k' \<noteq> k) m"

definition raw_remove :: "string \<Rightarrow> raw_map \<Rightarrow> raw_map" where
  "raw_remove k m = filter (\<lambda>(k', _). k' \<noteq> k) m"

abbreviation raw_get :: "raw_map \<Rightarrow> string \<Rightarrow> (nat \<times> conf_value) option" where
  "raw_get m k \<equiv> map_of m k"

record cluster_config =
  cp_name :: string
  ssh_pubkey_file :: string
  kvm_host :: "string option"
  image_source :: string
  ghcr_tag :: string
  enable_cloud_init :: nat
  auto_update_cp :: bool
  switch_to_ghcr :: bool
  cp_memory :: nat
  cp_vcpus :: nat
  worker_memory :: nat
  worker_vcpus :: nat
  pool_dir :: string
  run_verify :: bool
  bootc_update_schedule :: "string option"
  bootc_update_repo_k8s :: "string option"
  bootc_update_repo_worker :: "string option"
  worker_names :: "string list option"
  cp_ip :: "string option"
  worker_ips :: "string list option"
  pod_cidr :: "string option"
  service_cidr :: "string option"
  cp_mac :: "string option"
  worker_macs :: "string list option"
  extra_network :: "string option"
  extra_net_cp_mac :: "string option"
  extra_net_cp_ip :: "string option"
  extra_net_worker_macs :: "string list option"
  extra_net_worker_ips :: "string list option"
  warnings :: "conf_warning list"

section \<open>Tokenizer\<close>

definition MAX_KEY_LEN :: nat where "MAX_KEY_LEN = 128"

fun is_valid_key :: "string \<Rightarrow> bool" where
  "is_valid_key [] = False"
| "is_valid_key (c # cs) =
     (length (c # cs) \<le> MAX_KEY_LEN \<and> (is_ascii_alphabetic c \<or> c = CHR ''_'')
      \<and> list_all (\<lambda>x. is_ascii_alphanumeric x \<or> x = CHR ''_'') cs)"

definition check_trailing_after_quote :: "string \<Rightarrow> nat \<Rightarrow> string \<Rightarrow> (conf_error, unit) result" where
  "check_trailing_after_quote after line_no raw_line =
     (let tail = trim_start after in
      if tail = [] \<or> starts_with ''#'' tail then Ok () else Err (TrailingContent line_no raw_line))"

text \<open>The byte loop: the first \<open>#\<close> at the start or after ASCII white space ends the value.\<close>

fun strip_comment_loop :: "bool \<Rightarrow> string \<Rightarrow> string" where
  "strip_comment_loop boundary [] = []"
| "strip_comment_loop boundary (c # cs) =
     (if c = CHR ''#'' \<and> boundary then [] else c # strip_comment_loop (is_ascii_whitespace c) cs)"

definition strip_trailing_comment :: "string \<Rightarrow> string" where
  "strip_trailing_comment s = strip_comment_loop True s"

abbreviation DQ :: char where "DQ \<equiv> CHR 0x22"
abbreviation SQ :: char where "SQ \<equiv> CHR 0x27"

definition parse_quoted :: "char \<Rightarrow> nat \<Rightarrow> string \<Rightarrow> string \<Rightarrow> (conf_error, string) result" where
  "parse_quoted q line_no raw_line rest =
     (case split_once q rest of
        Some (v, after) \<Rightarrow> bind_r (check_trailing_after_quote after line_no raw_line) (\<lambda>_. Ok v)
      | None \<Rightarrow> Err (UnterminatedQuote line_no raw_line))"

definition parse_scalar :: "nat \<Rightarrow> string \<Rightarrow> string \<Rightarrow> (conf_error, string) result" where
  "parse_scalar line_no raw_line rhs =
     (let trimmed = trim_start rhs in
      case strip_prefix [DQ] trimmed of
        Some rest \<Rightarrow> parse_quoted DQ line_no raw_line rest
      | None \<Rightarrow>
          (case strip_prefix [SQ] trimmed of
             Some rest \<Rightarrow> parse_quoted SQ line_no raw_line rest
           | None \<Rightarrow> Ok (trim_end (strip_trailing_comment trimmed))))"

text \<open>The peekable character loop over an array body; \<open>body\<close> is kept for the diagnostic.\<close>

function tokenize_body_loop :: "string \<Rightarrow> nat \<Rightarrow> string \<Rightarrow> (conf_error, string list) result" where
  "tokenize_body_loop body line_no [] = Ok []"
| "tokenize_body_loop body line_no (c # cs) =
     (if is_whitespace c then tokenize_body_loop body line_no cs
      else if c = DQ \<or> c = SQ then
        (case split_once c cs of
           Some (el, rest) \<Rightarrow>
             bind_r (tokenize_body_loop body line_no rest) (\<lambda>els. Ok (el # els))
         | None \<Rightarrow> Err (UnterminatedQuote line_no body))
      else
        bind_r (tokenize_body_loop body line_no (dropWhile (\<lambda>x. \<not> is_whitespace x) cs))
          (\<lambda>els. Ok ((c # takeWhile (\<lambda>x. \<not> is_whitespace x) cs) # els)))"
  by pat_completeness auto
termination
  by (relation "measure (\<lambda>(b, l, s). length s)")
    (auto simp: split_once_Some le_imp_less_Suc length_dropWhile_le)

definition tokenize_array_body :: "string \<Rightarrow> nat \<Rightarrow> (conf_error, string list) result" where
  "tokenize_array_body body line_no = tokenize_body_loop body line_no body"

fun parse_array_lines ::
  "string \<Rightarrow> nat \<Rightarrow> nat \<Rightarrow> string \<Rightarrow> string list \<Rightarrow> (conf_error, string list \<times> nat) result" where
  "parse_array_lines key open_line extra body [] = Err (UnterminatedArray key open_line)"
| "parse_array_lines key open_line extra body (line # rest) =
     (let extra = extra + 1; line_no = open_line + extra in
      case split_once (CHR '')'') line of
        Some (inner, _) \<Rightarrow>
          bind_r (tokenize_array_body (body @ inner) line_no) (\<lambda>els. Ok (els, extra))
      | None \<Rightarrow>
          (let trimmed = trim_start line in
           if trimmed = [] \<or> starts_with ''#'' trimmed
           then parse_array_lines key open_line extra body rest
           else parse_array_lines key open_line extra (body @ line @ '' '') rest))"

definition parse_array ::
  "string \<Rightarrow> nat \<Rightarrow> string \<Rightarrow> string list \<Rightarrow> (conf_error, string list \<times> nat) result" where
  "parse_array key open_line first_line_rest rest_lines =
     (case split_once (CHR '')'') first_line_rest of
        Some (inner, _) \<Rightarrow> bind_r (tokenize_array_body inner open_line) (\<lambda>els. Ok (els, 0))
      | None \<Rightarrow> parse_array_lines key open_line 0 (first_line_rest @ '' '') rest_lines)"

text \<open>The \<open>while idx < lines.len()\<close> loop: \<open>line_no\<close> is \<open>idx + 1\<close> and the list holds
  the lines from \<open>idx\<close> on.\<close>

fun tokenize_loop :: "nat \<Rightarrow> string list \<Rightarrow> raw_map \<Rightarrow> (conf_error, raw_map) result" where
  "tokenize_loop line_no [] out = Ok out"
| "tokenize_loop line_no (raw # rest) out =
     (let trimmed = trim_start raw in
      if trimmed = [] \<or> starts_with ''#'' trimmed then tokenize_loop (line_no + 1) rest out
      else
        (case split_once (CHR ''='') trimmed of
           None \<Rightarrow> Err (UnrecognizedLine line_no raw)
         | Some (key, rhs) \<Rightarrow>
             if \<not> is_valid_key key then Err (UnrecognizedLine line_no raw)
             else
               (case strip_prefix ''('' rhs of
                  Some body \<Rightarrow>
                    (case parse_array key line_no body rest of
                       Err e \<Rightarrow> Err e
                     | Ok (els, extra) \<Rightarrow>
                         tokenize_loop (line_no + 1 + extra) (drop extra rest)
                           (raw_insert key (line_no, Array els) out))
                | None \<Rightarrow>
                    (case parse_scalar line_no raw rhs of
                       Err e \<Rightarrow> Err e
                     | Ok s \<Rightarrow>
                         tokenize_loop (line_no + 1) rest
                           (raw_insert key (line_no, Scalar s) out)))))"

definition tokenize :: "string \<Rightarrow> (conf_error, raw_map) result" where
  "tokenize input = tokenize_loop 1 (lines input) []"

section \<open>Field assembly\<close>

fun shape_label :: "conf_value \<Rightarrow> string" where
  "shape_label (Scalar _) = ''scalar''"
| "shape_label (Array _) = ''array''"

definition mismatch :: "string \<Rightarrow> string \<Rightarrow> conf_value \<Rightarrow> nat \<Rightarrow> conf_error" where
  "mismatch field expected observed line_no =
     TypeMismatch field expected (shape_label observed) line_no"

definition take_required_scalar ::
  "raw_map \<Rightarrow> string \<Rightarrow> string \<Rightarrow> (conf_error, string \<times> raw_map) result" where
  "take_required_scalar raw key source_path =
     (case raw_get raw key of
        Some (_, Scalar v) \<Rightarrow>
          if v \<noteq> [] then Ok (v, raw_remove key raw) else Err (MissingRequired key source_path)
      | None \<Rightarrow> Err (MissingRequired key source_path)
      | Some (line_no, Array els) \<Rightarrow> Err (mismatch key ''scalar'' (Array els) line_no))"

definition take_optional_scalar ::
  "raw_map \<Rightarrow> string \<Rightarrow> (conf_error, string option \<times> raw_map) result" where
  "take_optional_scalar raw key =
     (case raw_get raw key of
        Some (_, Scalar v) \<Rightarrow> Ok (Some v, raw_remove key raw)
      | Some (line_no, Array els) \<Rightarrow> Err (mismatch key ''scalar'' (Array els) line_no)
      | None \<Rightarrow> Ok (None, raw_remove key raw))"

definition take_scalar_or_default ::
  "raw_map \<Rightarrow> string \<Rightarrow> string \<Rightarrow> (conf_error, string \<times> raw_map) result" where
  "take_scalar_or_default raw key dflt =
     (case raw_get raw key of
        Some (_, Scalar v) \<Rightarrow> Ok (if v \<noteq> [] then v else dflt, raw_remove key raw)
      | None \<Rightarrow> Ok (dflt, raw_remove key raw)
      | Some (line_no, Array els) \<Rightarrow> Err (mismatch key ''scalar'' (Array els) line_no))"

definition take_u32_or_default ::
  "raw_map \<Rightarrow> string \<Rightarrow> nat \<Rightarrow> (conf_error, nat \<times> raw_map) result" where
  "take_u32_or_default raw key dflt =
     (case raw_get raw key of
        Some (line_no, Scalar v) \<Rightarrow>
          if v \<noteq> [] then
            (case parse_u32 v of
               Some n \<Rightarrow> Ok (n, raw_remove key raw)
             | None \<Rightarrow> Err (InvalidInteger key line_no v))
          else Ok (dflt, raw_remove key raw)
      | None \<Rightarrow> Ok (dflt, raw_remove key raw)
      | Some (line_no, Array els) \<Rightarrow> Err (mismatch key ''scalar'' (Array els) line_no))"

definition lenient_bool :: "bool \<Rightarrow> string \<Rightarrow> bool" where
  "lenient_bool dflt v =
     (let l = to_ascii_lowercase v in
      if l \<in> set [''true'', ''1'', ''yes'', ''on''] then True
      else if l \<in> set [''false'', ''0'', ''no'', ''off''] then False
      else dflt)"

definition take_bool_or_default ::
  "raw_map \<Rightarrow> string \<Rightarrow> bool \<Rightarrow> (conf_error, bool \<times> raw_map) result" where
  "take_bool_or_default raw key dflt =
     (case raw_get raw key of
        Some (_, Scalar v) \<Rightarrow> Ok (lenient_bool dflt v, raw_remove key raw)
      | Some (line_no, Array els) \<Rightarrow> Err (mismatch key ''scalar'' (Array els) line_no)
      | None \<Rightarrow> Ok (dflt, raw_remove key raw))"

definition take_bool_strict_or_default ::
  "raw_map \<Rightarrow> string \<Rightarrow> bool \<Rightarrow> (conf_error, bool \<times> raw_map) result" where
  "take_bool_strict_or_default raw key dflt =
     (case raw_get raw key of
        Some (line_no, Scalar v) \<Rightarrow>
          if v = ''true'' then Ok (True, raw_remove key raw)
          else if v = ''false'' then Ok (False, raw_remove key raw)
          else if v = [] then Ok (dflt, raw_remove key raw)
          else Err (InvalidBool key line_no v)
      | Some (line_no, Array els) \<Rightarrow> Err (mismatch key ''scalar'' (Array els) line_no)
      | None \<Rightarrow> Ok (dflt, raw_remove key raw))"

definition take_optional_array ::
  "raw_map \<Rightarrow> string \<Rightarrow> (conf_error, string list option \<times> raw_map) result" where
  "take_optional_array raw key =
     (case raw_get raw key of
        Some (_, Array v) \<Rightarrow> Ok (Some v, raw_remove key raw)
      | Some (line_no, Scalar s) \<Rightarrow> Err (mismatch key ''array'' (Scalar s) line_no)
      | None \<Rightarrow> Ok (None, raw_remove key raw))"

text \<open>The keys nobody took become warnings, ordered by \<open>(line_no, key)\<close>.\<close>

definition leftover_warnings :: "raw_map \<Rightarrow> conf_warning list" where
  "leftover_warnings raw =
     sort_key (\<lambda>w. (warn_line w, warn_key w)) (map (\<lambda>(key, line_no, _). UnknownKey key line_no) raw)"

definition build_config :: "raw_map \<Rightarrow> string \<Rightarrow> (conf_error, cluster_config) result" where
  "build_config raw source_path =
     bind_r (take_required_scalar raw ''CP_NAME'' source_path) (\<lambda>(v_cp_name, raw).
     bind_r (take_required_scalar raw ''SSH_PUBKEY_FILE'' source_path) (\<lambda>(v_ssh_pubkey_file, raw).
     bind_r (take_optional_scalar raw ''KVM_HOST'') (\<lambda>(v_kvm_host, raw).
     bind_r (take_scalar_or_default raw ''IMAGE_SOURCE'' ''ghcr'') (\<lambda>(v_image_source, raw).
     bind_r (take_scalar_or_default raw ''GHCR_TAG'' ''latest'') (\<lambda>(v_ghcr_tag, raw).
     bind_r (take_u32_or_default raw ''ENABLE_CLOUD_INIT'' 0) (\<lambda>(v_enable_cloud_init, raw).
     bind_r (take_bool_strict_or_default raw ''AUTO_UPDATE_CP'' True) (\<lambda>(v_auto_update_cp, raw).
     bind_r (take_bool_strict_or_default raw ''SWITCH_TO_GHCR'' True) (\<lambda>(v_switch_to_ghcr, raw).
     bind_r (take_u32_or_default raw ''CP_MEMORY'' 8192) (\<lambda>(v_cp_memory, raw).
     bind_r (take_u32_or_default raw ''CP_VCPUS'' 4) (\<lambda>(v_cp_vcpus, raw).
     bind_r (take_u32_or_default raw ''WORKER_MEMORY'' 4096) (\<lambda>(v_worker_memory, raw).
     bind_r (take_u32_or_default raw ''WORKER_VCPUS'' 2) (\<lambda>(v_worker_vcpus, raw).
     bind_r (take_scalar_or_default raw ''POOL_DIR'' ''/var/lib/libvirt/images'') (\<lambda>(v_pool_dir, raw).
     bind_r (take_bool_or_default raw ''RUN_VERIFY'' False) (\<lambda>(v_run_verify, raw).
     bind_r (take_optional_scalar raw ''BOOTC_UPDATE_SCHEDULE'') (\<lambda>(v_schedule, raw).
     bind_r (take_optional_scalar raw ''BOOTC_UPDATE_REPO_K8S'') (\<lambda>(v_repo_k8s, raw).
     bind_r (take_optional_scalar raw ''BOOTC_UPDATE_REPO_WORKER'') (\<lambda>(v_repo_worker, raw).
     bind_r (take_optional_array raw ''WORKER_NAMES'') (\<lambda>(v_worker_names, raw).
     bind_r (take_optional_scalar raw ''CP_IP'') (\<lambda>(v_cp_ip, raw).
     bind_r (take_optional_array raw ''WORKER_IPS'') (\<lambda>(v_worker_ips, raw).
     bind_r (take_optional_scalar raw ''POD_CIDR'') (\<lambda>(v_pod_cidr, raw).
     bind_r (take_optional_scalar raw ''SERVICE_CIDR'') (\<lambda>(v_service_cidr, raw).
     bind_r (take_optional_scalar raw ''CP_MAC'') (\<lambda>(v_cp_mac, raw).
     bind_r (take_optional_array raw ''WORKER_MACS'') (\<lambda>(v_worker_macs, raw).
     bind_r (take_optional_scalar raw ''EXTRA_NETWORK'') (\<lambda>(v_extra_network, raw).
     bind_r (take_optional_scalar raw ''EXTRA_NET_CP_MAC'') (\<lambda>(v_extra_cp_mac, raw).
     bind_r (take_optional_scalar raw ''EXTRA_NET_CP_IP'') (\<lambda>(v_extra_cp_ip, raw).
     bind_r (take_optional_array raw ''EXTRA_NET_WORKER_MACS'') (\<lambda>(v_extra_worker_macs, raw).
     bind_r (take_optional_array raw ''EXTRA_NET_WORKER_IPS'') (\<lambda>(v_extra_worker_ips, raw).
     Ok \<lparr>cp_name = v_cp_name, ssh_pubkey_file = v_ssh_pubkey_file, kvm_host = v_kvm_host,
         image_source = v_image_source, ghcr_tag = v_ghcr_tag,
         enable_cloud_init = v_enable_cloud_init, auto_update_cp = v_auto_update_cp,
         switch_to_ghcr = v_switch_to_ghcr, cp_memory = v_cp_memory, cp_vcpus = v_cp_vcpus,
         worker_memory = v_worker_memory, worker_vcpus = v_worker_vcpus, pool_dir = v_pool_dir,
         run_verify = v_run_verify, bootc_update_schedule = v_schedule,
         bootc_update_repo_k8s = v_repo_k8s, bootc_update_repo_worker = v_repo_worker,
         worker_names = v_worker_names, cp_ip = v_cp_ip, worker_ips = v_worker_ips,
         pod_cidr = v_pod_cidr, service_cidr = v_service_cidr, cp_mac = v_cp_mac,
         worker_macs = v_worker_macs, extra_network = v_extra_network,
         extra_net_cp_mac = v_extra_cp_mac, extra_net_cp_ip = v_extra_cp_ip,
         extra_net_worker_macs = v_extra_worker_macs, extra_net_worker_ips = v_extra_worker_ips,
         warnings = leftover_warnings raw\<rparr>)))))))))))))))))))))))))))))"

definition parse_with_source :: "string \<Rightarrow> string \<Rightarrow> (conf_error, cluster_config) result" where
  "parse_with_source input source_path =
     bind_r (tokenize input) (\<lambda>assignments. build_config assignments source_path)"

text \<open>\<open>parse\<close> reads the file; the file system is the argument \<open>read_to_string\<close>.\<close>

definition parse ::
  "(string \<Rightarrow> (string, string) result) \<Rightarrow> string \<Rightarrow> (conf_error, cluster_config) result" where
  "parse read_to_string path =
     (case read_to_string path of
        Err source \<Rightarrow> Err (Io path source)
      | Ok raw \<Rightarrow> parse_with_source raw path)"

definition parse_str :: "string \<Rightarrow> (conf_error, cluster_config) result" where
  "parse_str input = parse_with_source input ''<inline>''"

definition resolved_worker_names :: "cluster_config \<Rightarrow> string list" where
  "resolved_worker_names c =
     (case worker_names c of
        Some names \<Rightarrow> names
      | None \<Rightarrow> [cp_name c @ ''-w1'', cp_name c @ ''-w2''])"


section \<open>The interface of the hash map\<close>

locale string_map =
  fixes empty :: 'm
    and insert :: "'k \<Rightarrow> 'v \<Rightarrow> 'm \<Rightarrow> 'm"
    and remove :: "'k \<Rightarrow> 'm \<Rightarrow> 'm"
    and get :: "'m \<Rightarrow> 'k \<Rightarrow> 'v option"
  assumes get_empty: "get empty k = None"
    and get_insert: "get (insert k v m) k' = (if k' = k then Some v else get m k')"
    and get_remove: "get (remove k m) k' = (if k' = k then None else get m k')"
begin

lemma get_fold_insert:
  "get (fold (\<lambda>(k, v). insert k v) kvs m) k =
     (case map_of (rev kvs) k of Some v \<Rightarrow> Some v | None \<Rightarrow> get m k)"
proof (induction kvs arbitrary: m)
  case Nil
  show ?case by simp
next
  case (Cons kv kvs)
  then show ?case
    by (cases kv) (auto simp: get_insert map_add_def split: option.splits)
qed

lemma get_fold_remove:
  "get (fold remove ks m) k = (if k \<in> set ks then None else get m k)"
  by (induction ks arbitrary: m) (auto simp: get_remove)

end

interpretation raw: string_map "[] :: raw_map" raw_insert raw_remove map_of
proof unfold_locales
  fix k k' :: string and v :: "nat \<times> conf_value" and m :: raw_map
  show "map_of [] k = (None :: (nat \<times> conf_value) option)" by simp
  show "map_of (raw_insert k v m) k' = (if k' = k then Some v else map_of m k')"
    by (induction m) (auto simp: raw_insert_def)
  show "map_of (raw_remove k m) k' = (if k' = k then None else map_of m k')"
    by (induction m) (auto simp: raw_remove_def)
qed

section \<open>The tokenizer reads back what a printer writes\<close>

definition quote_dq :: "string \<Rightarrow> string" where
  "quote_dq v = DQ # v @ [DQ]"

fun render_assignment :: "string \<times> conf_value \<Rightarrow> string" where
  "render_assignment (k, Scalar v) = k @ CHR ''='' # quote_dq v"
| "render_assignment (k, Array els) =
     k @ CHR ''='' # CHR ''('' # join '' '' (map quote_dq els) @ '')''"

definition render :: "(string \<times> conf_value) list \<Rightarrow> string" where
  "render kvs = concat (map (\<lambda>l. l @ [NL]) (map render_assignment kvs))"

fun printable_value :: "conf_value \<Rightarrow> bool" where
  "printable_value (Scalar v) = (DQ \<notin> set v \<and> NL \<notin> set v)"
| "printable_value (Array els) =
     list_all (\<lambda>v. DQ \<notin> set v \<and> NL \<notin> set v \<and> CHR '')'' \<notin> set v) els"

definition printable :: "string \<times> conf_value \<Rightarrow> bool" where
  "printable kv \<longleftrightarrow> is_valid_key (fst kv) \<and> printable_value (snd kv)"

lemma valid_key_chars:
  assumes "is_valid_key k" "c \<in> set k"
  shows "is_ascii_alphanumeric c \<or> c = CHR ''_''"
  using assms by (cases k) (auto simp: list_all_iff is_ascii_alphanumeric_def)

lemma valid_key_hd:
  assumes "is_valid_key k"
  obtains c cs where "k = c # cs" "is_ascii_alphabetic c \<or> c = CHR ''_''"
  using assms by (cases k) auto

lemma valid_key_no_eq: "is_valid_key k \<Longrightarrow> CHR ''='' \<notin> set k"
  by (auto dest!: valid_key_chars simp: char_class_defs)

lemma valid_key_no_nl: "is_valid_key k \<Longrightarrow> NL \<notin> set k"
  by (auto dest!: valid_key_chars simp: char_class_defs)

lemma valid_key_trim:
  assumes "is_valid_key k"
  shows "trim_start (k @ s) = k @ s" and "\<not> starts_with ''#'' (k @ s)" and "k @ s \<noteq> []"
proof -
  obtain c cs where k: "k = c # cs" and c: "is_ascii_alphabetic c \<or> c = CHR ''_''"
    using assms by (rule valid_key_hd)
  from c show "trim_start (k @ s) = k @ s"
    by (auto simp: k trim_start_def char_class_defs)
  from c show "\<not> starts_with ''#'' (k @ s)"
    by (auto simp: k starts_with_def char_class_defs)
  show "k @ s \<noteq> []" by (simp add: k)
qed

lemma tokenize_body_quoted:
  "list_all (\<lambda>v. DQ \<notin> set v) els \<Longrightarrow>
     tokenize_body_loop b n (join '' '' (map quote_dq els)) = Ok els"
proof (induction els rule: induct_list012)
  case 1
  show ?case by simp
next
  case (2 x)
  then show ?case
    by (simp add: quote_dq_def is_whitespace_def)
next
  case (3 x y zs)
  then show ?case
    by (simp add: quote_dq_def is_whitespace_def)
qed

lemma quote_dq_no_paren:
  "list_all (\<lambda>v. CHR '')'' \<notin> set v) els \<Longrightarrow> CHR '')'' \<notin> set (join '' '' (map quote_dq els))"
  by (induction els rule: induct_list012) (auto simp: quote_dq_def)

lemma parse_array_render:
  assumes "printable_value (Array els)"
  shows "parse_array k n (join '' '' (map quote_dq els) @ '')'') rest = Ok (els, 0)"
proof -
  from assms have "CHR '')'' \<notin> set (join '' '' (map quote_dq els))"
    by (intro quote_dq_no_paren) (auto simp: list_all_iff)
  moreover from assms have "tokenize_body_loop b n (join '' '' (map quote_dq els)) = Ok els" for b
    by (intro tokenize_body_quoted) (auto simp: list_all_iff)
  ultimately show ?thesis
    by (simp add: parse_array_def tokenize_array_body_def)
qed

lemma parse_scalar_quoted:
  "DQ \<notin> set v \<Longrightarrow> parse_scalar n raw (quote_dq v) = Ok v"
  by (simp add: parse_scalar_def quote_dq_def trim_start_def is_whitespace_def parse_quoted_def
      check_trailing_after_quote_def)

lemma tokenize_render_line:
  assumes "printable (k, v)"
  shows "tokenize_loop n (render_assignment (k, v) # rest) out =
           tokenize_loop (n + 1) rest (raw_insert k (n, v) out)"
proof (cases v)
  case (Scalar s)
  moreover have "strip_prefix ''('' (quote_dq s) = None" by (simp add: quote_dq_def)
  ultimately show ?thesis using assms
    by (simp add: printable_def valid_key_trim valid_key_no_eq parse_scalar_quoted)
next
  case (Array els)
  with assms show ?thesis
    by (simp add: printable_def valid_key_trim valid_key_no_eq parse_array_render
        del: printable_value.simps)
qed

definition numbered :: "nat \<Rightarrow> (string \<times> conf_value) list \<Rightarrow> (string \<times> nat \<times> conf_value) list" where
  "numbered n kvs = map (\<lambda>(i, k, v). (k, i, v)) (enumerate n kvs)"

lemma tokenize_loop_render:
  "list_all printable kvs \<Longrightarrow>
     tokenize_loop n (map render_assignment kvs) out =
       Ok (fold (\<lambda>(k, v). raw_insert k v) (numbered n kvs) out)"
proof (induction kvs arbitrary: n out)
  case Nil
  show ?case by (simp add: numbered_def)
next
  case (Cons kv kvs)
  obtain k v where kv: "kv = (k, v)" by (cases kv)
  from Cons.prems have "printable (k, v)" by (simp add: kv)
  from tokenize_render_line [OF this] Cons show ?case
    by (simp add: kv numbered_def)
qed

lemma render_assignment_line:
  assumes "printable kv"
  shows "NL \<notin> set (render_assignment kv) \<and> last (render_assignment kv) \<noteq> CR"
proof -
  have join_nl: "list_all (\<lambda>v. NL \<notin> set v) els \<Longrightarrow> NL \<notin> set (join '' '' (map quote_dq els))" for els
    by (induction els rule: induct_list012) (auto simp: quote_dq_def)
  obtain k v where kv: "kv = (k, v)" by (cases kv)
  from assms show ?thesis
    by (cases v) (auto simp: kv printable_def valid_key_no_nl quote_dq_def list_all_iff
        intro!: join_nl)
qed

lemma lines_render:
  assumes "list_all printable kvs"
  shows "lines (render kvs) = map render_assignment kvs"
  unfolding render_def
  by (rule lines_concat) (use assms render_assignment_line in \<open>fastforce simp: list_all_iff\<close>)

lemma tokenize_render:
  assumes "list_all printable kvs"
  shows "tokenize (render kvs) = Ok (fold (\<lambda>(k, v). raw_insert k v) (numbered 1 kvs) [])"
  by (simp add: tokenize_def lines_render [OF assms] tokenize_loop_render [OF assms])

lemma map_of_numbered:
  "map_option snd (map_of (rev (numbered n kvs)) k) = map_of (rev kvs) k"
proof (induction kvs arbitrary: n)
  case Nil
  show ?case by (simp add: numbered_def)
next
  case (Cons kv kvs)
  have "numbered n (kv # kvs) = (fst kv, n, snd kv) # numbered (Suc n) kvs"
    by (cases kv) (simp add: numbered_def)
  with Cons [of "Suc n", symmetric] show ?case
    by (cases kv) (auto simp: map_add_def split: option.splits)
qed

section \<open>Diagnostics point at the line they quote\<close>

text \<open>The tokenizer's errors carry a line number of the file, and the line they quote is the one
  at that number; an unterminated array names the line that opened it.\<close>

definition line_at :: "string list \<Rightarrow> nat \<Rightarrow> string option" where
  "line_at ls n = (if 1 \<le> n \<and> n \<le> length ls then Some (ls ! (n - 1)) else None)"

fun err_located :: "string list \<Rightarrow> conf_error \<Rightarrow> bool" where
  "err_located ls (UnrecognizedLine n raw) = (line_at ls n = Some raw)"
| "err_located ls (TrailingContent n raw) = (line_at ls n = Some raw)"
| "err_located ls (UnterminatedQuote n raw) = (line_at ls n \<noteq> None)"
| "err_located ls (UnterminatedArray key n) =
     (\<exists>l. line_at ls n = Some l \<and> starts_with (key @ ''=('') (trim_start l))"
| "err_located ls _ = False"

lemma line_at_append [simp]: "line_at (pre @ l # rest) (Suc (length pre)) = Some l"
  by (simp add: line_at_def)

lemma tokenize_body_err:
  "tokenize_body_loop body n s = Err e \<Longrightarrow> e = UnterminatedQuote n body"
  by (induction body n s rule: tokenize_body_loop.induct)
    (auto split: if_splits option.splits simp: bind_r_Err_iff)

lemma parse_array_lines_ok:
  "parse_array_lines key n x body rest = Ok (els, extra) \<Longrightarrow> extra \<le> x + length rest"
proof (induction key n x body rest rule: parse_array_lines.induct)
  case (1 key n x body)
  then show ?case by simp
next
  case (2 key n x body line rest)
  then show ?case by (fastforce simp: Let_def split: option.splits if_splits)
qed

lemma parse_array_lines_err:
  "parse_array_lines key n x body rest = Err e \<Longrightarrow>
     e = UnterminatedArray key n \<or> (\<exists>j b. x < j \<and> j \<le> x + length rest \<and> e = UnterminatedQuote (n + j) b)"
proof (induction key n x body rest rule: parse_array_lines.induct)
  case (1 key n x body)
  then show ?case by simp
next
  case (2 key n x body line rest)
  show ?case
  proof (cases "split_once (CHR '')'') line")
    case None
    with 2 show ?thesis by (fastforce simp: Let_def split: if_splits)
  next
    case (Some p)
    with "2.prems" have "e = UnterminatedQuote (n + (x + 1)) (body @ fst p)"
      by (cases p) (auto simp: Let_def bind_r_Err_iff tokenize_array_body_def dest!: tokenize_body_err)
    then show ?thesis by (intro disjI2 exI [of _ "x + 1"]) auto
  qed
qed

lemma parse_array_err:
  assumes "parse_array key n body rest = Err e"
  shows "e = UnterminatedArray key n \<or> (\<exists>j b. j \<le> length rest \<and> e = UnterminatedQuote (n + j) b)"
proof (cases "split_once (CHR '')'') body")
  case None
  with assms show ?thesis
    by (auto simp: parse_array_def dest!: parse_array_lines_err)
next
  case (Some p)
  with assms have "e = UnterminatedQuote (n + 0) (fst p)"
    by (cases p) (auto simp: parse_array_def bind_r_Err_iff tokenize_array_body_def dest!: tokenize_body_err)
  then show ?thesis by blast
qed

lemma parse_scalar_err:
  "parse_scalar n raw rhs = Err e \<Longrightarrow> e = TrailingContent n raw \<or> e = UnterminatedQuote n raw"
  by (auto simp: parse_scalar_def parse_quoted_def check_trailing_after_quote_def Let_def
      bind_r_Err_iff split: option.splits if_splits)

lemma parse_array_extra:
  "parse_array key n body rest = Ok (els, extra) \<Longrightarrow> extra \<le> length rest"
  by (auto simp: parse_array_def split: option.splits dest!: parse_array_lines_ok)

lemma parse_array_located:
  assumes "parse_array key (Suc (length pre)) body rest = Err e"
    and "starts_with (key @ ''=('') (trim_start raw)"
  shows "err_located (pre @ raw # rest) e"
  using parse_array_err [OF assms(1)] assms(2) by (auto simp: line_at_def nth_append)

lemma parse_scalar_located:
  "parse_scalar (Suc (length pre)) raw rhs = Err e \<Longrightarrow> err_located (pre @ raw # rest) e"
  by (auto dest!: parse_scalar_err simp: line_at_def)

lemma tokenize_loop_err:
  "tokenize_loop n rest out = Err e \<Longrightarrow> n = Suc (length pre) \<Longrightarrow> err_located (pre @ rest) e"
proof (induction n rest out arbitrary: pre rule: tokenize_loop.induct)
  case (1 n out)
  then show ?case by simp
next
  case (2 n raw rest out)
  let ?t = "trim_start raw"
  have next_line: "err_located (pre @ raw # rest) e" if "tokenize_loop (n + 1) rest out' = Err e"
    and "\<And>p. n + 1 = Suc (length p) \<Longrightarrow> err_located (p @ rest) e" for out'
    using that(2) [of "pre @ [raw]"] "2.prems"(2) by simp
  consider (skip) "?t = [] \<or> starts_with ''#'' ?t"
    | (unrec) "\<not> (?t = [] \<or> starts_with ''#'' ?t)" "e = UnrecognizedLine n raw"
    | (arr) key rhs body where "\<not> (?t = [] \<or> starts_with ''#'' ?t)"
        "split_once (CHR ''='') ?t = Some (key, rhs)" "is_valid_key key"
        "strip_prefix ''('' rhs = Some body"
    | (sc) key rhs where "\<not> (?t = [] \<or> starts_with ''#'' ?t)"
        "split_once (CHR ''='') ?t = Some (key, rhs)" "is_valid_key key"
        "strip_prefix ''('' rhs = None"
    using "2.prems"(1) by (auto simp: Let_def split: if_splits option.splits)
  then show ?case
  proof cases
    case skip
    with "2.prems"(1) have run: "tokenize_loop (n + 1) rest out = Err e" by (auto simp: Let_def)
    show ?thesis
      by (rule next_line [OF run], rule "2.IH"(1) [OF refl skip run])
  next
    case unrec
    with "2.prems" show ?thesis by simp
  next
    case arr
    show ?thesis
    proof (cases "parse_array key n body rest")
      case (Err e')
      with arr "2.prems" show ?thesis
        by (intro parse_array_located [of key])
          (auto simp: Let_def starts_with_iff split_once_Some strip_prefix_Some)
    next
      case (Ok p)
      obtain els extra where p: "p = (els, extra)" by (cases p)
      with Ok have "extra \<le> length rest" by (auto dest: parse_array_extra)
      then have len: "n + 1 + extra = Suc (length (pre @ raw # take extra rest))"
        using "2.prems"(2) by simp
      have run: "tokenize_loop (n + 1 + extra) (drop extra rest)
          (raw_insert key (n, Array els) out) = Err e"
        using arr Ok p "2.prems"(1) by (auto simp: Let_def)
      from arr have *: "\<not> (?t = [] \<or> starts_with ''#'' ?t)" by simp
      have "err_located ((pre @ raw # take extra rest) @ drop extra rest) e"
        by (rule "2.IH"(3) [OF refl * arr(2) refl _ arr(4) Ok p [symmetric] run len]) (simp add: arr)
      then show ?thesis by simp
    qed
  next
    case sc
    show ?thesis
    proof (cases "parse_scalar n raw rhs")
      case (Err e')
      with sc "2.prems" show ?thesis
        by (intro parse_scalar_located [of _ _ rhs]) (auto simp: Let_def)
    next
      case (Ok s)
      have run: "tokenize_loop (n + 1) rest (raw_insert key (n, Scalar s) out) = Err e"
        using sc Ok "2.prems"(1) by (auto simp: Let_def)
      from sc have *: "\<not> (?t = [] \<or> starts_with ''#'' ?t)" by simp
      show ?thesis
        by (rule next_line [OF run], rule "2.IH"(2) [OF refl * sc(2) refl _ sc(4) Ok run]) (simp add: sc)
    qed
  qed
qed


section \<open>Field assembly\<close>

text \<open>Each \<open>take_*\<close> reads its own key and removes it.\<close>

lemma take_removes:
  "take_required_scalar raw k p = Ok (s, raw') \<Longrightarrow> raw' = raw_remove k raw"
  "take_optional_scalar raw k = Ok (os, raw') \<Longrightarrow> raw' = raw_remove k raw"
  "take_scalar_or_default raw k d = Ok (s, raw') \<Longrightarrow> raw' = raw_remove k raw"
  "take_u32_or_default raw k n = Ok (m, raw') \<Longrightarrow> raw' = raw_remove k raw"
  "take_bool_or_default raw k b = Ok (c, raw') \<Longrightarrow> raw' = raw_remove k raw"
  "take_bool_strict_or_default raw k b = Ok (c, raw') \<Longrightarrow> raw' = raw_remove k raw"
  "take_optional_array raw k = Ok (oa, raw') \<Longrightarrow> raw' = raw_remove k raw"
  by (auto simp: take_required_scalar_def take_optional_scalar_def take_scalar_or_default_def
      take_u32_or_default_def take_bool_or_default_def take_bool_strict_or_default_def
      take_optional_array_def split: option.splits conf_value.splits if_splits)

definition known_keys :: "string list" where
  "known_keys = [''CP_NAME'', ''SSH_PUBKEY_FILE'', ''KVM_HOST'', ''IMAGE_SOURCE'', ''GHCR_TAG'',
     ''ENABLE_CLOUD_INIT'', ''AUTO_UPDATE_CP'', ''SWITCH_TO_GHCR'', ''CP_MEMORY'', ''CP_VCPUS'',
     ''WORKER_MEMORY'', ''WORKER_VCPUS'', ''POOL_DIR'', ''RUN_VERIFY'', ''BOOTC_UPDATE_SCHEDULE'',
     ''BOOTC_UPDATE_REPO_K8S'', ''BOOTC_UPDATE_REPO_WORKER'', ''WORKER_NAMES'', ''CP_IP'',
     ''WORKER_IPS'', ''POD_CIDR'', ''SERVICE_CIDR'', ''CP_MAC'', ''WORKER_MACS'', ''EXTRA_NETWORK'',
     ''EXTRA_NET_CP_MAC'', ''EXTRA_NET_CP_IP'', ''EXTRA_NET_WORKER_MACS'', ''EXTRA_NET_WORKER_IPS'']"

lemma build_config_leftover:
  assumes "build_config raw p = Ok c"
  shows "warnings c = leftover_warnings (fold raw_remove known_keys raw)"
  using assms
  by (auto simp: build_config_def known_keys_def dest!: take_removes)

definition config_wf :: "cluster_config \<Rightarrow> bool" where
  "config_wf c \<longleftrightarrow> cp_name c \<noteq> [] \<and> ssh_pubkey_file c \<noteq> [] \<and> image_source c \<noteq> []
     \<and> ghcr_tag c \<noteq> [] \<and> pool_dir c \<noteq> []
     \<and> enable_cloud_init c \<le> U32_MAX \<and> cp_memory c \<le> U32_MAX \<and> cp_vcpus c \<le> U32_MAX
     \<and> worker_memory c \<le> U32_MAX \<and> worker_vcpus c \<le> U32_MAX"

lemma take_required_nonempty: "take_required_scalar raw k p = Ok (s, raw') \<Longrightarrow> s \<noteq> []"
  by (auto simp: take_required_scalar_def split: option.splits conf_value.splits if_splits)

lemma take_default_nonempty: "take_scalar_or_default raw k d = Ok (s, raw') \<Longrightarrow> d \<noteq> [] \<Longrightarrow> s \<noteq> []"
  by (auto simp: take_scalar_or_default_def split: option.splits conf_value.splits if_splits)

lemma take_u32_bound: "take_u32_or_default raw k n = Ok (m, raw') \<Longrightarrow> n \<le> U32_MAX \<Longrightarrow> m \<le> U32_MAX"
  by (auto simp: take_u32_or_default_def dest: parse_uint_bound
      split: option.splits conf_value.splits if_splits)

lemma build_config_wf:
  assumes "build_config raw p = Ok c"
  shows "config_wf c"
  using assms
  by (clarsimp simp: build_config_def config_wf_def)
    (intro conjI; (erule take_required_nonempty | (erule take_default_nonempty, simp)
      | (erule take_u32_bound, simp add: U32_MAX_def)))

section \<open>Order independence\<close>

text \<open>Two maps that agree as lookup functions give the same configuration, warnings included:
  the iteration order of the hash map does not leak.\<close>

definition raw_equiv :: "raw_map \<Rightarrow> raw_map \<Rightarrow> bool" where
  "raw_equiv m m' \<longleftrightarrow> distinct (map fst m) \<and> distinct (map fst m') \<and> map_of m = map_of m'"

lemma raw_equiv_remove:
  assumes "raw_equiv m m'"
  shows "raw_equiv (raw_remove k m) (raw_remove k m')"
proof -
  have "distinct (map fst (raw_remove k l))" if "distinct (map fst l)" for l :: raw_map
    using that by (simp add: raw_remove_def distinct_map_filter)
  with assms show ?thesis by (simp add: raw_equiv_def fun_eq_iff raw.get_remove)
qed

lemma raw_equiv_mset: "raw_equiv m m' \<Longrightarrow> mset m = mset m'"
  unfolding raw_equiv_def
  by (metis distinct_map map_of_inject_set set_eq_iff_mset_eq_distinct)

lemma leftover_warnings_equiv:
  assumes "raw_equiv m m'"
  shows "leftover_warnings m = leftover_warnings m'"
proof -
  let ?w = "\<lambda>(key, line_no, _ :: conf_value). UnknownKey key line_no"
  let ?f = "\<lambda>w. (warn_line w, warn_key w)"
  have "inj ?f" by (auto simp: inj_def intro: conf_warning.expand)
  moreover have "mset (map ?w m) = mset (sort_key ?f (map ?w m'))"
    using raw_equiv_mset [OF assms] by simp
  ultimately show ?thesis
    unfolding leftover_warnings_def
    by (intro sort_key_inj_key_eq) (auto intro: inj_on_subset)
qed

definition same_take :: "('e, 'a \<times> raw_map) result \<Rightarrow> ('e, 'a \<times> raw_map) result \<Rightarrow> bool" where
  "same_take r r' \<longleftrightarrow> (\<exists>e. r = Err e \<and> r' = Err e)
     \<or> (\<exists>v m m'. r = Ok (v, m) \<and> r' = Ok (v, m') \<and> raw_equiv m m')"

lemma bind_same_take:
  "same_take r r' \<Longrightarrow> (\<And>v m m'. raw_equiv m m' \<Longrightarrow> f v m = g v m') \<Longrightarrow>
     bind_r r (\<lambda>(v, m). f v m) = bind_r r' (\<lambda>(v, m). g v m)"
  by (auto simp: same_take_def)

lemma same_takes:
  assumes "raw_equiv m m'"
  shows "same_take (take_required_scalar m k p) (take_required_scalar m' k p)"
    "same_take (take_optional_scalar m k) (take_optional_scalar m' k)"
    "same_take (take_scalar_or_default m k d) (take_scalar_or_default m' k d)"
    "same_take (take_u32_or_default m k n) (take_u32_or_default m' k n)"
    "same_take (take_bool_or_default m k b) (take_bool_or_default m' k b)"
    "same_take (take_bool_strict_or_default m k b) (take_bool_strict_or_default m' k b)"
    "same_take (take_optional_array m k) (take_optional_array m' k)"
proof -
  from assms have eq: "map_of m = map_of m'" by (simp add: raw_equiv_def)
  note rm = raw_equiv_remove [OF assms, of k]
  note defs = take_required_scalar_def take_optional_scalar_def take_scalar_or_default_def
    take_u32_or_default_def take_bool_or_default_def take_bool_strict_or_default_def
    take_optional_array_def same_take_def eq
  show "same_take (take_required_scalar m k p) (take_required_scalar m' k p)"
    "same_take (take_optional_scalar m k) (take_optional_scalar m' k)"
    "same_take (take_scalar_or_default m k d) (take_scalar_or_default m' k d)"
    "same_take (take_u32_or_default m k n) (take_u32_or_default m' k n)"
    "same_take (take_bool_or_default m k b) (take_bool_or_default m' k b)"
    "same_take (take_bool_strict_or_default m k b) (take_bool_strict_or_default m' k b)"
    "same_take (take_optional_array m k) (take_optional_array m' k)"
    using rm by (auto simp: defs split: option.split conf_value.split)
qed

lemma fold_raw_remove_distinct:
  "distinct (map fst m) \<Longrightarrow> distinct (map fst (fold raw_remove ks m))"
  by (induction ks arbitrary: m) (auto simp: raw_remove_def distinct_map_filter)

lemma distinct_unknown_keys:
  "distinct (map fst (m :: raw_map)) \<Longrightarrow> distinct (map (\<lambda>(key, line_no, _). UnknownKey key line_no) m)"
  by (induction m) force+

lemma unknown_keys_image:
  "(\<lambda>(key, line_no, _). UnknownKey key line_no) ` A = {UnknownKey k n | k n v. (k, n, v) \<in> A}"
  by force

lemma tokenize_loop_distinct:
  "tokenize_loop n ls out = Ok m \<Longrightarrow> distinct (map fst out) \<Longrightarrow> distinct (map fst m)"
proof (induction n ls out rule: tokenize_loop.induct)
  case (2 n raw rest out)
  have ins: "distinct (map fst (raw_insert k v out))" for k v
    using "2.prems"(2) by (auto simp: raw_insert_def distinct_map_filter)
  from 2 ins show ?case
    by (fastforce simp: Let_def split: if_splits option.splits result.splits)
qed simp

definition sample_conf :: string where
  "sample_conf = ''CP_NAME=hbird'' @ [NL] @ ''SSH_PUBKEY_FILE=/k.pub # key'' @ [NL] @ ''TYPO=1'' @ [NL]"

definition default_config :: "string \<Rightarrow> string \<Rightarrow> cluster_config" where
  "default_config name key =
     \<lparr>cp_name = name, ssh_pubkey_file = key, kvm_host = None, image_source = ''ghcr'',
      ghcr_tag = ''latest'', enable_cloud_init = 0, auto_update_cp = True, switch_to_ghcr = True,
      cp_memory = 8192, cp_vcpus = 4, worker_memory = 4096, worker_vcpus = 2,
      pool_dir = ''/var/lib/libvirt/images'', run_verify = False, bootc_update_schedule = None,
      bootc_update_repo_k8s = None, bootc_update_repo_worker = None, worker_names = None,
      cp_ip = None, worker_ips = None, pod_cidr = None, service_cidr = None, cp_mac = None,
      worker_macs = None, extra_network = None, extra_net_cp_mac = None, extra_net_cp_ip = None,
      extra_net_worker_macs = None, extra_net_worker_ips = None, warnings = []\<rparr>"

section \<open>Properties of the configuration parser\<close>

text \<open>C35. Round trip: the tokenizer reads a file of printed assignments back as exactly those
  assignments, each key with its last value (as sourcing the file in bash would leave it) and
  the number of the line that set it.\<close>

theorem tokenize_roundtrip:
  assumes "list_all printable kvs"
  shows "\<exists>m. tokenize (render kvs) = Ok m
           \<and> (\<forall>k. map_option snd (raw_get m k) = map_of (rev kvs) k)
           \<and> (\<forall>k n v. raw_get m k = Some (n, v) \<longrightarrow> line_at (lines (render kvs)) n = Some (render_assignment (k, v)))"
proof -
  let ?m = "fold (\<lambda>(k, v). raw_insert k v) (numbered 1 kvs) []"
  have get: "raw_get ?m k = map_of (rev (numbered 1 kvs)) k" for k
    using raw.get_fold_insert [of "numbered 1 kvs" "[]" k] by (simp split: option.splits)
  have at: "line_at (lines (render kvs)) n = Some (render_assignment (k, v))"
    if "raw_get ?m k = Some (n, v)" for k n v
  proof -
    from that have "map_of (rev (numbered 1 kvs)) k = Some (n, v)"
      by (simp only: get)
    then have "(k, n, v) \<in> set (numbered 1 kvs)"
      by (auto dest!: map_of_SomeD)
    then have "(n, k, v) \<in> set (enumerate 1 kvs)"
      by (auto simp: numbered_def)
    then show ?thesis
      by (auto simp: lines_render [OF assms] line_at_def in_set_enumerate_eq)
  qed
  show ?thesis
    by (intro exI [of _ ?m] conjI allI impI tokenize_render [OF assms])
      (simp only: get map_of_numbered, rule at)
qed

theorem tokenize_roundtrip_witness:
  "list_all printable [(''A'', Scalar ''x y''), (''B'', Array [''p'', ''q r'']), (''A'', Scalar ''z'')]
   \<and> (\<exists>m. tokenize (render [(''A'', Scalar ''x y''), (''B'', Array [''p'', ''q r'']), (''A'', Scalar ''z'')]) = Ok m
        \<and> map_option snd (raw_get m ''A'') = Some (Scalar ''z''))"
proof -
  let ?kvs = "[(''A'', Scalar ''x y''), (''B'', Array [''p'', ''q r'']), (''A'', Scalar ''z'')]"
  have p: "list_all printable ?kvs" by code_simp
  have v: "map_of (rev ?kvs) ''A'' = Some (Scalar ''z'')" by simp
  from tokenize_roundtrip [OF p] obtain m where m: "tokenize (render ?kvs) = Ok m"
    "map_option snd (raw_get m ''A'') = map_of (rev ?kvs) ''A''" by blast
  from m(2) have "map_option snd (raw_get m ''A'') = Some (Scalar ''z'')" by (simp only: v)
  with p m(1) show ?thesis by blast
qed

text \<open>Every tokenizer error is one of the four documented ones, its line number is a line of
  the input, and the text it quotes is the text of that line.\<close>

theorem tokenize_errors_located:
  assumes "tokenize input = Err e"
  shows "err_located (lines input) e"
  using tokenize_loop_err [of 1 "lines input" "[]" e "[]"] assms by (simp add: tokenize_def)

theorem tokenize_errors_located_witness:
  "tokenize (''A=1'' @ [NL] @ ''if x'') = Err (UnrecognizedLine 2 ''if x'')
   \<and> err_located (lines (''A=1'' @ [NL] @ ''if x'')) (UnrecognizedLine 2 ''if x'')"
proof -
  have e: "tokenize (''A=1'' @ [NL] @ ''if x'') = Err (UnrecognizedLine 2 ''if x'')" by code_simp
  from tokenize_errors_located [OF e] e show ?thesis by simp
qed

text \<open>C36. A configuration that parses has its required fields, non-empty defaults and integers
  in the range of \<open>u32\<close>.\<close>

theorem parse_config_wf:
  assumes "parse_with_source input p = Ok c"
  shows "config_wf c"
  using assms by (auto simp: parse_with_source_def dest: build_config_wf)

theorem parse_config_wf_witness:
  "is_ok (parse_with_source sample_conf ''f'') \<and> config_wf (ok_val (parse_with_source sample_conf ''f''))"
proof -
  have ok: "is_ok (parse_with_source sample_conf ''f'')" by code_simp
  then obtain c where c: "parse_with_source sample_conf ''f'' = Ok c" by (auto simp: is_ok_iff)
  from parse_config_wf [OF c] ok c show ?thesis by simp
qed

text \<open>The warnings are exactly the assigned keys no field consumes, each with the line of its
  last assignment, in strictly increasing \<open>(line_no, key)\<close> order.\<close>

theorem parse_warnings_exact:
  assumes "tokenize input = Ok m" and "parse_with_source input p = Ok c"
  shows "set (warnings c) = {UnknownKey k n | k n v. raw_get m k = Some (n, v) \<and> k \<notin> set known_keys}
    \<and> sorted (map (\<lambda>w. (warn_line w, warn_key w)) (warnings c)) \<and> distinct (warnings c)"
proof -
  let ?r = "fold raw_remove known_keys m"
  have w: "warnings c = leftover_warnings ?r"
    using assms by (auto simp: parse_with_source_def dest: build_config_leftover)
  have "distinct (map fst m)"
    using tokenize_loop_distinct assms(1) by (fastforce simp: tokenize_def)
  then have d: "distinct (map fst ?r)"
    by (rule fold_raw_remove_distinct)
  have "(k, n, v) \<in> set ?r \<longleftrightarrow> raw_get m k = Some (n, v) \<and> k \<notin> set known_keys" for k n v
    unfolding map_of_eq_Some_iff [OF d, symmetric] by (auto simp: raw.get_fold_remove)
  then have "set (warnings c) = {UnknownKey k n | k n v. raw_get m k = Some (n, v) \<and> k \<notin> set known_keys}"
    by (simp add: w leftover_warnings_def unknown_keys_image)
  moreover have "distinct (warnings c)"
    using d by (simp add: w leftover_warnings_def distinct_unknown_keys)
  ultimately show ?thesis by (simp add: w leftover_warnings_def)
qed

theorem parse_warnings_exact_witness:
  "warnings (ok_val (parse_with_source sample_conf ''f'')) = [UnknownKey ''TYPO'' 3]
   \<and> distinct (warnings (ok_val (parse_with_source sample_conf ''f'')))"
proof -
  have t: "is_ok (tokenize sample_conf)" and ok: "is_ok (parse_with_source sample_conf ''f'')"
    by code_simp+
  then obtain m c where m: "tokenize sample_conf = Ok m"
    and c: "parse_with_source sample_conf ''f'' = Ok c" by (auto simp: is_ok_iff)
  have "warnings (ok_val (parse_with_source sample_conf ''f'')) = [UnknownKey ''TYPO'' 3]"
    by code_simp
  with parse_warnings_exact [OF m c] c show ?thesis by simp
qed

text \<open>The configuration does not depend on the iteration order of the hash map the
  tokenizer fills: any two maps with the same lookups give the same result, errors and
  warnings included.\<close>

theorem build_config_order_independent:
  assumes "raw_equiv m m'"
  shows "build_config m p = build_config m' p"
  unfolding build_config_def
  by (intro bind_same_take same_takes assms) (auto dest: leftover_warnings_equiv)

theorem build_config_order_independent_witness:
  "raw_equiv [(''X'', 1, Scalar ''a''), (''Y'', 2, Scalar ''b'')] [(''Y'', 2, Scalar ''b''), (''X'', 1, Scalar ''a'')]
   \<and> build_config [(''X'', 1, Scalar ''a''), (''Y'', 2, Scalar ''b'')] ''f''
     = build_config [(''Y'', 2, Scalar ''b''), (''X'', 1, Scalar ''a'')] ''f''"
proof -
  have e: "raw_equiv [(''X'', 1, Scalar ''a''), (''Y'', 2, Scalar ''b'')]
      [(''Y'', 2, Scalar ''b''), (''X'', 1, Scalar ''a'')]"
    by (auto simp: raw_equiv_def fun_eq_iff)
  from e build_config_order_independent [OF e] show ?thesis by blast
qed

text \<open>Defaults: a file that sets only the two required keys gives the documented defaults
  in every other field and no warning.\<close>

theorem parse_minimal_defaults:
  assumes "printable_value (Scalar name)" "printable_value (Scalar key)" "name \<noteq> []" "key \<noteq> []"
  shows "parse_str (render [(''CP_NAME'', Scalar name), (''SSH_PUBKEY_FILE'', Scalar key)])
           = Ok (default_config name key)"
proof -
  have "is_valid_key ''CP_NAME''" "is_valid_key ''SSH_PUBKEY_FILE''" by code_simp+
  with assms have "list_all printable [(''CP_NAME'', Scalar name), (''SSH_PUBKEY_FILE'', Scalar key)]"
    by (simp add: printable_def)
  from tokenize_render [OF this] show ?thesis
    using assms(3,4)
    by (simp add: parse_str_def parse_with_source_def numbered_def raw_insert_def build_config_def
        take_required_scalar_def take_optional_scalar_def take_scalar_or_default_def
        take_u32_or_default_def take_bool_or_default_def take_bool_strict_or_default_def
        take_optional_array_def raw_remove_def leftover_warnings_def default_config_def)
qed

theorem parse_minimal_defaults_witness:
  "parse_str (render [(''CP_NAME'', Scalar ''hbird''), (''SSH_PUBKEY_FILE'', Scalar ''/k.pub'')])
     = Ok (default_config ''hbird'' ''/k.pub'')"
  by (rule parse_minimal_defaults) simp_all

text \<open>Inside an array literal a comment line is dropped only when it has no closing
  parenthesis: the search for the end of the array comes first, so a comment such as
  \<open># old (b)\<close> ends the array and the element on the next line is refused.\<close>

theorem array_comment_closes_array:
  "tokenize (''W=('' @ [NL] @ ''# old (b)'' @ [NL] @ ''a'' @ [NL] @ '')'' @ [NL])
     = Err (UnrecognizedLine 3 ''a'')
   \<and> tokenize (''W=('' @ [NL] @ ''# old b'' @ [NL] @ ''a'' @ [NL] @ '')'' @ [NL])
     = Ok [(''W'', 1, Array [''a''])]"
  by code_simp

end
