(* ===== verification/Virt_Uri.thy ===== *)
theory Virt_Uri
  imports Prelude
begin

text \<open>
  The \<open>qemu+ssh://\<close> URI of the crate \<open>hbird-virt\<close> (\<open>src/rust/crates/hbird-virt/src/uri.rs\<close>):
  the record, its parser with every rejection, its \<open>Display\<close>, and the SSH target built from it.
  The lemmas show that the parser reads back what \<open>Display\<close> prints and that an accepted
  user or unbracketed host cannot be taken for an \<open>ssh\<close> option.
\<close>

section \<open>Data\<close>

datatype instance_kind = System | Session

fun instance_display :: "instance_kind \<Rightarrow> string" where
  "instance_display System = ''system''"
| "instance_display Session = ''session''"

record qemu_ssh_uri =
  uri_user :: "string option"
  uri_host :: string
  uri_port :: "nat option"
  uri_instance :: instance_kind
  uri_query :: "string option"

text \<open>\<open>Error::InvalidUri\<close> with its reason; \<open>Error::InvalidPort\<close> without the
  \<open>ParseIntError\<close> it wraps.\<close>

datatype uri_error = InvalidUri string string | InvalidPort string

section \<open>Parser\<close>

definition is_safe_char :: "char \<Rightarrow> bool" where
  "is_safe_char c \<longleftrightarrow> is_ascii_alphanumeric c \<or> c = CHR ''.'' \<or> c = CHR ''_'' \<or> c = CHR ''-''"

definition validate_safe_token :: "string \<Rightarrow> string \<Rightarrow> string \<Rightarrow> (uri_error, unit) result" where
  "validate_safe_token s field raw =
     (if s = [] then
        Err (InvalidUri raw (if field = ''host'' then ''host token must not be empty''
               else if field = ''user'' then ''user token must not be empty''
               else ''token must not be empty''))
      else if starts_with ''-'' s then
        Err (InvalidUri raw
              (if field = ''host'' then ''host must not start with '-' (would be parsed as an SSH option)''
               else if field = ''user'' then ''user must not start with '-' (would be parsed as an SSH option)''
               else ''token must not start with '-'' @ [CHR 0x27]))
      else if list_all is_safe_char s then Ok ()
      else
        Err (InvalidUri raw
              (if field = ''host'' then ''host contains characters outside [A-Za-z0-9._-]''
               else if field = ''user'' then ''user contains characters outside [A-Za-z0-9._-]''
               else ''token contains disallowed characters'')))"

definition parse_port :: "string \<Rightarrow> string \<Rightarrow> (uri_error, nat) result" where
  "parse_port p raw = ok_or (InvalidPort raw) (parse_u16 p)"

definition split_host_port :: "string \<Rightarrow> string \<Rightarrow> (uri_error, string \<times> nat option) result" where
  "split_host_port host_port raw =
     (case strip_prefix ''['' host_port of
        Some rest \<Rightarrow>
          (case split_once (CHR '']'') rest of
             None \<Rightarrow> Err (InvalidUri raw ''IPv6 literal missing closing bracket'')
           | Some (host, tail) \<Rightarrow>
               (case strip_prefix '':'' tail of
                  Some p \<Rightarrow> bind_r (parse_port p raw) (\<lambda>n. Ok (host, Some n))
                | None \<Rightarrow>
                    if tail = [] then Ok (host, None)
                    else Err (InvalidUri raw ''garbage after IPv6 literal close bracket'')))
      | None \<Rightarrow>
          (case rsplit_once (CHR '':'') host_port of
             Some (h, p) \<Rightarrow>
               if contains '':'' h
               then Err (InvalidUri raw ''IPv6 literal must be bracketed when paired with a port'')
               else bind_r (parse_port p raw) (\<lambda>n. Ok (h, Some n))
           | None \<Rightarrow> Ok (host_port, None)))"

text \<open>The \<open>user@\<close> prefix: an empty user is dropped, a second \<open>@\<close> is refused.\<close>

definition split_user :: "string \<Rightarrow> string \<Rightarrow> (uri_error, string option \<times> string) result" where
  "split_user authority raw =
     (case rsplit_once (CHR ''@'') authority of
        Some (u, hp) \<Rightarrow>
          if u = [] then Ok (None, hp)
          else if contains ''@'' u then Err (InvalidUri raw (''user component must not contain '@'' @ [CHR 0x27]))
          else Ok (Some u, hp)
      | None \<Rightarrow> Ok (None, authority))"

definition parse_instance :: "string \<Rightarrow> string \<Rightarrow> (uri_error, instance_kind) result" where
  "parse_instance path raw =
     (if path = [] \<or> path = ''system'' then Ok System
      else if path = ''session'' then Ok Session
      else Err (InvalidUri raw
             ''unsupported libvirt instance path (expected /system or /session)''))"

definition uri_parse :: "string \<Rightarrow> (uri_error, qemu_ssh_uri) result" where
  "uri_parse raw =
     (case strip_prefix ''qemu+ssh://'' raw of
        None \<Rightarrow> Err (InvalidUri raw ''missing 'qemu+ssh://' scheme prefix'')
      | Some after_scheme \<Rightarrow>
          (let (auth_and_path, query) =
                 (case split_once (CHR ''?'') after_scheme of
                    Some (lhs, q) \<Rightarrow> if q \<noteq> [] then (lhs, Some q) else (lhs, None)
                  | None \<Rightarrow> (after_scheme, None));
               (authority, path) =
                 (case split_once (CHR ''/'') auth_and_path of
                    Some (a, p) \<Rightarrow> (a, p)
                  | None \<Rightarrow> (auth_and_path, []))
           in
             if authority = [] then Err (InvalidUri raw ''empty authority (host) component'')
             else
               bind_r (split_user authority raw) (\<lambda>(user, host_port).
               bind_r (case user of None \<Rightarrow> Ok () | Some u \<Rightarrow> validate_safe_token u ''user'' raw) (\<lambda>_.
               bind_r (split_host_port host_port raw) (\<lambda>(host, port).
               if host = [] then Err (InvalidUri raw ''empty host'')
               else
                 bind_r (if starts_with ''['' host_port then Ok ()
                         else validate_safe_token host ''host'' raw) (\<lambda>_.
                 bind_r (parse_instance path raw) (\<lambda>inst.
                 Ok \<lparr>uri_user = user, uri_host = host, uri_port = port,
                     uri_instance = inst, uri_query = query\<rparr>)))))))"

section \<open>Display and the strings derived from a URI\<close>

definition uri_display :: "qemu_ssh_uri \<Rightarrow> string" where
  "uri_display u =
     ''qemu+ssh://''
     @ (case uri_user u of Some n \<Rightarrow> n @ ''@'' | None \<Rightarrow> [])
     @ (if contains '':'' (uri_host u) then ''['' @ uri_host u @ '']'' else uri_host u)
     @ (case uri_port u of Some p \<Rightarrow> '':'' @ show_nat p | None \<Rightarrow> [])
     @ ''/'' @ instance_display (uri_instance u)
     @ (case uri_query u of Some q \<Rightarrow> ''?'' @ q | None \<Rightarrow> [])"

definition remote_uri :: "qemu_ssh_uri \<Rightarrow> string" where
  "remote_uri u = ''qemu:///'' @ instance_display (uri_instance u)"

definition ssh_target :: "qemu_ssh_uri \<Rightarrow> string" where
  "ssh_target u = (case uri_user u of Some n \<Rightarrow> n @ ''@'' @ uri_host u | None \<Rightarrow> uri_host u)"

section \<open>Tokens\<close>

definition safe_token :: "string \<Rightarrow> bool" where
  "safe_token s \<longleftrightarrow> s \<noteq> [] \<and> \<not> starts_with ''-'' s \<and> list_all is_safe_char s"

lemma validate_safe_token_Ok [simp]: "validate_safe_token s f raw = Ok x \<longleftrightarrow> safe_token s"
  by (auto simp: validate_safe_token_def safe_token_def)

lemma safe_char_not:
  "is_safe_char c \<Longrightarrow> c \<notin> set ''@:/?[]+#;&|''"
  by (auto simp: is_safe_char_def char_class_defs)

lemma safe_token_free:
  assumes "safe_token s"
  shows "CHR ''@'' \<notin> set s" "CHR '':'' \<notin> set s" "CHR ''/'' \<notin> set s" "CHR ''?'' \<notin> set s"
    "CHR ''['' \<notin> set s" "CHR '']'' \<notin> set s" "s \<noteq> []"
  using assms safe_char_not by (fastforce simp: safe_token_def list_all_iff)+

lemma safe_token_not_bracketed: "safe_token s \<Longrightarrow> strip_prefix ''['' (s @ t) = None"
  using safe_token_free(5,7) [of s] by (cases s) auto

section \<open>Round trip\<close>

text \<open>What \<open>Display\<close> can be given: a host is a safe token, or it has a colon and none of
  the characters that end a bracketed literal or the authority.\<close>

definition bracket_host :: "string \<Rightarrow> bool" where
  "bracket_host h \<longleftrightarrow> CHR '':'' \<in> set h \<and> set h \<inter> set '']/?@'' = {}"

definition uri_wf :: "qemu_ssh_uri \<Rightarrow> bool" where
  "uri_wf u \<longleftrightarrow> (case uri_user u of None \<Rightarrow> True | Some n \<Rightarrow> safe_token n)
     \<and> (safe_token (uri_host u) \<or> bracket_host (uri_host u))
     \<and> (case uri_port u of None \<Rightarrow> True | Some p \<Rightarrow> p \<le> U16_MAX)
     \<and> uri_query u \<noteq> Some []"

definition host_text :: "qemu_ssh_uri \<Rightarrow> string" where
  "host_text u = (if contains '':'' (uri_host u) then ''['' @ uri_host u @ '']'' else uri_host u)
     @ (case uri_port u of Some p \<Rightarrow> '':'' @ show_nat p | None \<Rightarrow> [])"

definition user_text :: "qemu_ssh_uri \<Rightarrow> string" where
  "user_text u = (case uri_user u of Some n \<Rightarrow> n @ ''@'' | None \<Rightarrow> [])"

lemma show_nat_free: "c \<in> set ''@:/?[]'' \<Longrightarrow> c \<notin> set (show_nat n)"
  by (auto dest!: show_nat_set simp: is_ascii_digit_def)

lemma host_text_free:
  assumes "uri_wf u"
  shows "CHR ''@'' \<notin> set (host_text u)" "CHR ''/'' \<notin> set (host_text u)"
    "CHR ''?'' \<notin> set (host_text u)" "host_text u \<noteq> []"
  using assms safe_token_free [of "uri_host u"]
  by (auto simp: uri_wf_def host_text_def bracket_host_def show_nat_free split: option.splits)

lemma user_text_free:
  assumes "uri_wf u"
  shows "CHR ''/'' \<notin> set (user_text u)" "CHR ''?'' \<notin> set (user_text u)"
  using assms by (auto simp: uri_wf_def user_text_def dest: safe_token_free split: option.splits)

lemma split_user_text:
  assumes "uri_wf u"
  shows "split_user (user_text u @ host_text u) raw = Ok (uri_user u, host_text u)"
proof (cases "uri_user u")
  case None
  with host_text_free [OF assms] show ?thesis
    by (simp add: split_user_def user_text_def rsplit_once_None split: option.splits)
      (metis option.distinct(1) rsplit_once_None)
next
  case (Some n)
  with assms have n: "safe_token n" by (simp add: uri_wf_def)
  have "rsplit_once (CHR ''@'') (n @ ''@'' @ host_text u) = Some (n, host_text u)"
    using host_text_free [OF assms] by (simp add: rsplit_once_Some)
  with Some safe_token_free [OF n] show ?thesis
    by (simp add: split_user_def user_text_def)
qed

lemma rsplit_colon_host:
  assumes "CHR '':'' \<notin> set h"
  shows "rsplit_once (CHR '':'') h = None"
    and "rsplit_once (CHR '':'') (h @ CHR '':'' # show_nat p) = Some (h, show_nat p)"
  using assms show_nat_free [of "CHR '':''" p] by (simp_all add: rsplit_once_None rsplit_once_Some)

lemma split_host_text:
  assumes "uri_wf u"
  shows "split_host_port (host_text u) raw = Ok (uri_host u, uri_port u)"
proof (cases "CHR '':'' \<in> set (uri_host u)")
  case True
  with assms have "bracket_host (uri_host u)"
    by (auto simp: uri_wf_def dest: safe_token_free)
  then have "CHR '']'' \<notin> set (uri_host u)" by (auto simp: bracket_host_def)
  with True assms show ?thesis
    by (auto simp: split_host_port_def host_text_def parse_port_def uri_wf_def ok_or_def
        split: option.splits)
next
  case False
  with assms have "safe_token (uri_host u)" by (auto simp: uri_wf_def bracket_host_def)
  with False assms show ?thesis
    by (auto simp: split_host_port_def host_text_def safe_token_not_bracketed rsplit_colon_host
        safe_token_not_bracketed [where t = "[]", simplified] parse_port_def uri_wf_def ok_or_def
        split: option.splits)
qed

lemma host_text_bracket:
  "uri_wf u \<Longrightarrow> starts_with ''['' (host_text u) \<or> safe_token (uri_host u)"
  by (auto simp: uri_wf_def host_text_def bracket_host_def starts_with_def)

section \<open>What an accepted URI looks like\<close>

lemma split_user_Ok:
  assumes "split_user authority raw = Ok (user, hp)"
  shows "set hp \<subseteq> set authority" "CHR ''@'' \<notin> set hp"
  using assms
  by (auto simp: split_user_def rsplit_once_Some rsplit_once_None split: option.splits if_splits)

lemma split_host_port_Ok:
  assumes "split_host_port hp raw = Ok (host, port)"
  shows "set host \<subseteq> set hp"
    "starts_with ''['' hp \<Longrightarrow> CHR '']'' \<notin> set host"
    "port = Some p \<Longrightarrow> p \<le> U16_MAX"
  using assms
  by (auto simp: split_host_port_def starts_with_def parse_port_def strip_prefix_Some
      split_once_Some rsplit_once_Some split: option.splits if_splits dest: parse_uint_bound)

lemma uri_parse_Ok:
  assumes "uri_parse raw = Ok u"
  obtains authority hp where "set authority \<subseteq> set raw" "set authority \<inter> set ''/?'' = {}"
    "split_user authority raw = Ok (uri_user u, hp)"
    "split_host_port hp raw = Ok (uri_host u, uri_port u)"
    "case uri_user u of None \<Rightarrow> True | Some n \<Rightarrow> safe_token n"
    "starts_with ''['' hp \<or> safe_token (uri_host u)" "uri_query u \<noteq> Some []"
proof -
  obtain s where s: "raw = ''qemu+ssh://'' @ s"
    using assms by (auto simp: uri_parse_def strip_prefix_Some split: option.splits)
  define ap where "ap = (case split_once (CHR ''?'') s of Some (lhs, _) \<Rightarrow> lhs | None \<Rightarrow> s)"
  define qu where "qu = (case split_once (CHR ''?'') s of
    Some (_, q) \<Rightarrow> if q \<noteq> [] then Some q else None | None \<Rightarrow> None)"
  define au where "au = (case split_once (CHR ''/'') ap of Some (a, _) \<Rightarrow> a | None \<Rightarrow> ap)"
  have q: "(case split_once (CHR ''?'') s of
      Some (lhs, q) \<Rightarrow> if q \<noteq> [] then (lhs, Some q) else (lhs, None) | None \<Rightarrow> (s, None)) = (ap, qu)"
    by (auto simp: ap_def qu_def split: option.splits)
  have ap: "set ap \<subseteq> set raw" "CHR ''?'' \<notin> set ap"
    by (auto simp: ap_def s split_once_Some split_once_None split: option.splits)
  have au: "set au \<subseteq> set ap" "CHR ''/'' \<notin> set au"
    by (auto simp: au_def split_once_Some split_once_None split: option.splits)
  have fst_au: "fst (case split_once (CHR ''/'') ap of Some (a, p) \<Rightarrow> (a, p) | None \<Rightarrow> (ap, [])) = au"
    by (auto simp: au_def split: option.splits)
  have run: "\<exists>hp. split_user au raw = Ok (uri_user u, hp)
      \<and> split_host_port hp raw = Ok (uri_host u, uri_port u)
      \<and> (case uri_user u of None \<Rightarrow> True | Some n \<Rightarrow> safe_token n)
      \<and> (starts_with ''['' hp \<or> safe_token (uri_host u)) \<and> uri_query u = qu"
    using assms unfolding uri_parse_def s strip_prefix_append option.case q Let_def case_prod_beta fst_conv snd_conv fst_au
    by (auto split: if_splits option.splits)
  then obtain hp where hp: "split_user au raw = Ok (uri_user u, hp)"
    "split_host_port hp raw = Ok (uri_host u, uri_port u)"
    "case uri_user u of None \<Rightarrow> True | Some n \<Rightarrow> safe_token n"
    "starts_with ''['' hp \<or> safe_token (uri_host u)" "uri_query u = qu"
    by blast
  have "qu \<noteq> Some []" by (auto simp: qu_def split: option.splits)
  moreover have "set au \<subseteq> set raw" "set au \<inter> set ''/?'' = {}" using ap au by auto
  ultimately show thesis using hp by (intro that [of au hp]) auto
qed

lemma uri_display_parse_lemma:
  assumes "uri_wf u"
  shows "uri_parse (uri_display u) = Ok u"
proof -
  let ?auth = "user_text u @ host_text u"
  let ?ap = "?auth @ CHR ''/'' # instance_display (uri_instance u)"
  let ?q = "case uri_query u of Some q \<Rightarrow> ''?'' @ q | None \<Rightarrow> []"
  have d: "uri_display u = ''qemu+ssh://'' @ ?ap @ ?q"
    by (simp add: uri_display_def user_text_def host_text_def)
  have inst: "CHR ''?'' \<notin> set (instance_display (uri_instance u))"
    "parse_instance (instance_display (uri_instance u)) raw = Ok (uri_instance u)" for raw
    by (cases "uri_instance u"; simp add: parse_instance_def)+
  have noq: "CHR ''?'' \<notin> set ?ap"
    using host_text_free [OF assms] user_text_free [OF assms] inst(1) by auto
  have q: "(case split_once (CHR ''?'') (?ap @ ?q) of
      Some (lhs, q) \<Rightarrow> if q \<noteq> [] then (lhs, Some q) else (lhs, None)
    | None \<Rightarrow> (?ap @ ?q, None)) = (?ap, uri_query u)"
    using noq assms split_once_None [of "CHR ''?''" ?ap]
    by (cases "uri_query u") (auto simp: uri_wf_def split_once_append [OF noq, simplified] simp del: set_append)
  have slash: "split_once (CHR ''/'') ?ap = Some (?auth, instance_display (uri_instance u))"
    using host_text_free [OF assms] user_text_free [OF assms] by (intro split_once_append) auto
  have user: "(case uri_user u of None \<Rightarrow> Ok () | Some n \<Rightarrow> validate_safe_token n ''user'' raw) = Ok ()" for raw
    using assms by (simp add: uri_wf_def split: option.splits)
  have host: "(if starts_with ''['' (host_text u) then Ok () else validate_safe_token (uri_host u) ''host'' raw) = Ok ()" for raw
    using host_text_bracket [OF assms] by auto
  have ne: "uri_host u \<noteq> []"
    using assms by (auto simp: uri_wf_def bracket_host_def dest: safe_token_free)
  show ?thesis
    unfolding d uri_parse_def strip_prefix_append option.case q slash Let_def prod.case
    using host_text_free(4) [OF assms] ne
    by (simp add: split_user_text [OF assms] split_host_text [OF assms] user host inst(2))
qed

section \<open>Properties\<close>

text \<open>Round trip: the parser reads back every well-formed URI from its \<open>Display\<close>, and two
  well-formed URIs that print alike are the same URI.\<close>

theorem uri_display_parse:
  assumes "uri_wf u"
  shows "uri_parse (uri_display u) = Ok u
    \<and> (\<forall>u'. uri_wf u' \<longrightarrow> uri_display u' = uri_display u \<longrightarrow> u' = u)"
  using uri_display_parse_lemma assms by (metis result.inject(1))

theorem uri_display_parse_witness:
  "uri_parse (uri_display \<lparr>uri_user = Some ''root'', uri_host = ''fe80::1'', uri_port = Some 2222,
      uri_instance = Session, uri_query = Some ''no_verify=1''\<rparr>)
   = Ok \<lparr>uri_user = Some ''root'', uri_host = ''fe80::1'', uri_port = Some 2222,
      uri_instance = Session, uri_query = Some ''no_verify=1''\<rparr>"
  by (rule uri_display_parse [THEN conjunct1]) code_simp

text \<open>No option injection: unless the text has a bracketed literal, the SSH target of an
  accepted URI does not begin with a dash and has only characters of
  \<open>[A-Za-z0-9._-]\<close> around at most one \<open>@\<close>.\<close>

theorem ssh_target_not_option:
  assumes "uri_parse raw = Ok u" and "\<not> contains ''['' raw"
  shows "\<not> starts_with ''-'' (ssh_target u)
    \<and> safe_token (uri_host u) \<and> (case uri_user u of None \<Rightarrow> True | Some n \<Rightarrow> safe_token n)"
proof -
  obtain au hp where o: "set au \<subseteq> set raw" "split_user au raw = Ok (uri_user u, hp)"
    "case uri_user u of None \<Rightarrow> True | Some n \<Rightarrow> safe_token n"
    "starts_with ''['' hp \<or> safe_token (uri_host u)"
    using assms(1) by (rule uri_parse_Ok)
  have "CHR ''['' \<notin> set hp"
    using split_user_Ok(1) [OF o(2)] o(1) assms(2) by auto
  with o(4) have h: "safe_token (uri_host u)" by (auto simp: starts_with_iff)
  then have "\<not> starts_with ''-'' (ssh_target u)"
    using o(3) by (auto simp: ssh_target_def safe_token_def starts_with_single_append
        split: option.splits)
  with h o(3) show ?thesis by simp
qed

theorem ssh_target_not_option_witness:
  "is_ok (uri_parse ''qemu+ssh://op@kvm-1:22/system'')
   \<and> \<not> starts_with ''-'' (ssh_target (ok_val (uri_parse ''qemu+ssh://op@kvm-1:22/system'')))"
proof -
  have ok: "is_ok (uri_parse ''qemu+ssh://op@kvm-1:22/system'')" by code_simp
  then obtain u where u: "uri_parse ''qemu+ssh://op@kvm-1:22/system'' = Ok u" by (auto simp: is_ok_iff)
  have "\<not> contains ''['' ''qemu+ssh://op@kvm-1:22/system''" by code_simp
  from ssh_target_not_option [OF u this] ok u show ?thesis by simp
qed

text \<open>Normalisation: an accepted URI whose host is a plain token or a literal with a colon
  prints to a text the parser accepts again, with the same parts.\<close>

theorem uri_parse_display_parse:
  assumes "uri_parse raw = Ok u" and "safe_token (uri_host u) \<or> contains '':'' (uri_host u)"
  shows "uri_parse (uri_display u) = Ok u"
proof (rule uri_display_parse_lemma)
  obtain au hp where o: "set au \<inter> set ''/?'' = {}" "split_user au raw = Ok (uri_user u, hp)"
    "split_host_port hp raw = Ok (uri_host u, uri_port u)"
    "case uri_user u of None \<Rightarrow> True | Some n \<Rightarrow> safe_token n"
    "starts_with ''['' hp \<or> safe_token (uri_host u)" "uri_query u \<noteq> Some []"
    using assms(1) by (rule uri_parse_Ok)
  note su = split_user_Ok [OF o(2)]
  note sh = split_host_port_Ok [OF o(3)]
  have "safe_token (uri_host u) \<or> bracket_host (uri_host u)"
    using assms(2) o(1,5) su sh(1,2) by (auto simp: bracket_host_def)
  with o(4,6) sh(3) show "uri_wf u" by (auto simp: uri_wf_def split: option.splits)
qed

theorem uri_parse_display_parse_witness:
  "uri_display (ok_val (uri_parse ''qemu+ssh://@host?'')) = ''qemu+ssh://host/system''
   \<and> uri_parse (uri_display (ok_val (uri_parse ''qemu+ssh://@host?''))) = uri_parse ''qemu+ssh://@host?''"
proof -
  have ok: "is_ok (uri_parse ''qemu+ssh://@host?'')" by code_simp
  then obtain u where u: "uri_parse ''qemu+ssh://@host?'' = Ok u" by (auto simp: is_ok_iff)
  have h: "safe_token (uri_host (ok_val (uri_parse ''qemu+ssh://@host?'')))" by code_simp
  have d: "uri_display (ok_val (uri_parse ''qemu+ssh://@host?'')) = ''qemu+ssh://host/system''"
    by code_simp
  from uri_parse_display_parse [OF u] h d u show ?thesis by simp
qed

text \<open>The bracketed form is not checked: a host in brackets is accepted whatever it holds, and
  becomes an SSH target that begins with a dash.\<close>

theorem bracketed_host_option_injection:
  "\<exists>u. uri_parse ''qemu+ssh://[-oProxyCommand=evil]/system'' = Ok u
       \<and> ssh_target u = ''-oProxyCommand=evil'' \<and> starts_with ''-'' (ssh_target u)"
proof -
  let ?r = "uri_parse ''qemu+ssh://[-oProxyCommand=evil]/system''"
  have "is_ok ?r" "ssh_target (ok_val ?r) = ''-oProxyCommand=evil''"
    "starts_with ''-'' (ssh_target (ok_val ?r))" by code_simp+
  then show ?thesis by (cases ?r) auto
qed

end
