(* ===== verification/Ssh.thy ===== *)
theory Ssh
  imports Prelude
begin

text \<open>
  The crate \<open>hbird-ssh\<close> (\<open>src/rust/crates/hbird-ssh/src\<close>: \<open>options.rs\<close>, \<open>error.rs\<close>,
  \<open>lib.rs\<close>): the option set with its setters, the argument vector for \<open>ssh(1)\<close>, and
  \<open>Client::run\<close> with its error classification and the wall-clock watchdog.

  The operating system is an argument: whether a path exists, what spawning \<open>ssh\<close> gives,
  what the child does with its standard input, when it exits and what it printed. Durations are
  nanoseconds. Captured output is text, so the lossy UTF-8 decoding is the identity on it.
\<close>

section \<open>Options\<close>

type_synonym duration = nat

definition from_secs :: "nat \<Rightarrow> duration" where
  "from_secs n = n * 1000000000"

definition as_secs :: "duration \<Rightarrow> nat" where
  "as_secs d = d div 1000000000"

record ssh_options =
  so_host :: string
  so_user :: "string option"
  so_port :: "nat option"
  so_identity_file :: "string option"
  so_proxy_jump :: "string option"
  so_connect_timeout :: duration
  so_strict_host_key_checking :: bool
  so_batch_mode :: bool
  so_control_master :: bool
  so_include_identity_flag :: bool
  so_command_timeout :: "duration option"

definition ssh_options_new :: "string \<Rightarrow> ssh_options" where
  "ssh_options_new host =
     \<lparr>so_host = host, so_user = None, so_port = None, so_identity_file = None,
      so_proxy_jump = None, so_connect_timeout = from_secs 10,
      so_strict_host_key_checking = False, so_batch_mode = True, so_control_master = False,
      so_include_identity_flag = True, so_command_timeout = None\<rparr>"

definition with_command_timeout :: "duration \<Rightarrow> ssh_options \<Rightarrow> ssh_options" where
  "with_command_timeout t opts = opts\<lparr>so_command_timeout := Some t\<rparr>"

definition with_user :: "string \<Rightarrow> ssh_options \<Rightarrow> ssh_options" where
  "with_user u opts = opts\<lparr>so_user := Some u\<rparr>"

definition with_port :: "nat \<Rightarrow> ssh_options \<Rightarrow> ssh_options" where
  "with_port p opts = opts\<lparr>so_port := Some p\<rparr>"

definition with_identity_file :: "string \<Rightarrow> ssh_options \<Rightarrow> ssh_options" where
  "with_identity_file p opts = opts\<lparr>so_identity_file := Some p\<rparr>"

definition without_identity :: "ssh_options \<Rightarrow> ssh_options" where
  "without_identity opts = opts\<lparr>so_include_identity_flag := False\<rparr>"

definition with_proxy_jump :: "string \<Rightarrow> ssh_options \<Rightarrow> ssh_options" where
  "with_proxy_jump h opts = opts\<lparr>so_proxy_jump := Some h\<rparr>"

definition with_connect_timeout :: "duration \<Rightarrow> ssh_options \<Rightarrow> ssh_options" where
  "with_connect_timeout t opts = opts\<lparr>so_connect_timeout := t\<rparr>"

definition with_strict_host_key_checking :: "bool \<Rightarrow> ssh_options \<Rightarrow> ssh_options" where
  "with_strict_host_key_checking b opts = opts\<lparr>so_strict_host_key_checking := b\<rparr>"

definition with_batch_mode :: "bool \<Rightarrow> ssh_options \<Rightarrow> ssh_options" where
  "with_batch_mode b opts = opts\<lparr>so_batch_mode := b\<rparr>"

definition with_controlmaster :: "ssh_options \<Rightarrow> ssh_options" where
  "with_controlmaster opts = opts\<lparr>so_control_master := True\<rparr>"

text \<open>The UID for the multiplex socket: the first field of the \<open>Uid:\<close> row of
  \<open>/proc/self/status\<close>, which is the argument (\<open>None\<close> when it cannot be read).\<close>

definition current_uid_string :: "string option \<Rightarrow> string" where
  "current_uid_string proc_status =
     (case Option.bind proc_status (\<lambda>s.
             Option.bind (find (starts_with ''Uid:'') (lines s)) (\<lambda>l.
             Option.bind (strip_prefix ''Uid:'' l) (\<lambda>tail.
             (case split_whitespace (trim tail) of [] \<Rightarrow> None | w # _ \<Rightarrow> Some w)))) of
        Some uid \<Rightarrow> uid
      | None \<Rightarrow> ''uid'')"

definition argv_target :: "ssh_options \<Rightarrow> string" where
  "argv_target opts = (case so_user opts of Some u \<Rightarrow> u @ ''@'' @ so_host opts | None \<Rightarrow> so_host opts)"

definition to_argv :: "string option \<Rightarrow> ssh_options \<Rightarrow> string list" where
  "to_argv proc_status opts =
     [''ssh'']
     @ (if so_include_identity_flag opts then
          (case so_identity_file opts of Some path \<Rightarrow> [''-i'', path] | None \<Rightarrow> [])
        else [])
     @ [''-o'', ''StrictHostKeyChecking='' @ (if so_strict_host_key_checking opts then ''yes'' else ''no'')]
     @ [''-o'', ''UserKnownHostsFile=/dev/null'']
     @ [''-o'', ''LogLevel=ERROR'']
     @ [''-o'', ''ConnectTimeout='' @ show_nat (as_secs (so_connect_timeout opts))]
     @ [''-o'', ''BatchMode='' @ (if so_batch_mode opts then ''yes'' else ''no'')]
     @ (if so_control_master opts then
          [''-o'', ''ControlMaster=auto'',
           ''-o'', ''ControlPath=/tmp/hbird-ssh-'' @ current_uid_string proc_status @ ''-%r@%h:%p'',
           ''-o'', ''ControlPersist=60s'']
        else [])
     @ (case so_proxy_jump opts of Some jump \<Rightarrow> [''-o'', ''ProxyJump='' @ jump] | None \<Rightarrow> [])
     @ (case so_port opts of Some port \<Rightarrow> [''-p'', show_nat port] | None \<Rightarrow> [])
     @ [argv_target opts]"

section \<open>Running a command\<close>

datatype exit_status = Exited nat | Signaled nat bool

fun exit_code :: "exit_status \<Rightarrow> nat option" where
  "exit_code (Exited n) = Some n"
| "exit_code (Signaled _ _) = None"

definition exit_success :: "exit_status \<Rightarrow> bool" where
  "exit_success s \<longleftrightarrow> exit_code s = Some 0"

datatype io_error = NotFound | OtherIo string

datatype spawn_kind = SshBinaryMissing | SpawnOther

datatype ssh_error =
    Spawn string string spawn_kind io_error
  | Wait string io_error
  | StdinWrite string io_error
  | NonZeroExit string exit_status string string
  | IdentityFileMissing string
  | Timeout string duration

record run_output =
  ro_status :: exit_status
  ro_stdout :: string
  ro_stderr :: string

text \<open>How errors print: \<open>ExitStatus\<close> and \<open>Duration\<close> as the standard library formats
  them, and the \<open>#[error(...)]\<close> attributes of \<open>hbird_ssh::Error\<close>.\<close>

definition signal_names :: "string list" where
  "signal_names = [''HUP'', ''INT'', ''QUIT'', ''ILL'', ''TRAP'', ''ABRT'', ''BUS'', ''FPE'', ''KILL'', ''USR1'',
     ''SEGV'', ''USR2'', ''PIPE'', ''ALRM'', ''TERM'', ''STKFLT'', ''CHLD'', ''CONT'', ''STOP'', ''TSTP'', ''TTIN'',
     ''TTOU'', ''URG'', ''XCPU'', ''XFSZ'', ''VTALRM'', ''PROF'', ''WINCH'', ''IO'', ''PWR'', ''SYS'']"

fun exit_status_display :: "exit_status \<Rightarrow> string" where
  "exit_status_display (Exited n) = ''exit status: '' @ show_nat n"
| "exit_status_display (Signaled n core) =
     ''signal: '' @ show_nat n
     @ (if 1 \<le> n \<and> n \<le> 31 then '' (SIG'' @ signal_names ! (n - 1) @ '')'' else [])
     @ (if core then '' (core dumped)'' else [])"

fun io_error_display :: "io_error \<Rightarrow> string" where
  "io_error_display NotFound = ''No such file or directory (os error 2)''"
| "io_error_display (OtherIo s) = s"

definition pad_zeros :: "nat \<Rightarrow> string \<Rightarrow> string" where
  "pad_zeros k s = replicate (k - length s) (CHR ''0'') @ s"

definition decimal_debug :: "nat \<Rightarrow> nat \<Rightarrow> nat \<Rightarrow> string" where
  "decimal_debug d unit places =
     (let frac = trim_end_matches (CHR ''0'') (pad_zeros places (show_nat (d mod unit))) in
      show_nat (d div unit) @ (if frac = [] then [] else ''.'' @ frac))"

definition duration_debug :: "duration \<Rightarrow> string" where
  "duration_debug d =
     (if 1000000000 \<le> d then decimal_debug d 1000000000 9 @ ''s''
      else if 1000000 \<le> d then decimal_debug d 1000000 6 @ ''ms''
      else if 1000 \<le> d then decimal_debug d 1000 3 @ [CHR 0xC2, CHR 0xB5] @ ''s''
      else show_nat d @ ''ns'')"

fun ssh_error_display :: "ssh_error \<Rightarrow> string" where
  "ssh_error_display (Spawn program host kind src) =
     ''failed to spawn '' @ program @ '' for host '' @ host @ '': '' @ io_error_display src"
| "ssh_error_display (Wait host src) =
     ''waiting on ssh for host '' @ host @ '' failed: '' @ io_error_display src"
| "ssh_error_display (StdinWrite host src) =
     ''writing stdin to ssh for host '' @ host @ '' failed: '' @ io_error_display src"
| "ssh_error_display (NonZeroExit host status out err) =
     ''ssh to '' @ host @ '' command failed with status '' @ exit_status_display status
     @ ''; stderr: '' @ debug_str err"
| "ssh_error_display (IdentityFileMissing path) = ''identity file does not exist: '' @ path"
| "ssh_error_display (Timeout host t) =
     ''ssh to '' @ host @ '' exceeded the '' @ duration_debug t
     @ '' command timeout; killed the local ssh process''"

fun ssh_error_source :: "ssh_error \<Rightarrow> anyhow" where
  "ssh_error_source (Spawn _ _ _ src) = [io_error_display src]"
| "ssh_error_source (Wait _ src) = [io_error_display src]"
| "ssh_error_source (StdinWrite _ src) = [io_error_display src]"
| "ssh_error_source _ = []"

text \<open>\<open>anyhow::Error::from\<close>: the error and its \<open>#[source]\<close> chain.\<close>

definition from_ssh :: "ssh_error \<Rightarrow> anyhow" where
  "from_ssh e = ssh_error_display e # ssh_error_source e"

text \<open>A spawned \<open>ssh\<close>: the outcome of writing to its standard input, what
  \<open>wait_with_output\<close> gives, what the \<open>i\<close>-th \<open>try_wait\<close> of the watchdog sees, how much
  time has passed since the start at that poll, and what the two drain threads collect.\<close>

record child =
  ch_stdin_write :: "string \<Rightarrow> io_error option"
  ch_wait_with_output :: "(io_error, run_output) result"
  ch_try_wait :: "nat \<Rightarrow> (io_error, exit_status option) result"
  ch_elapsed :: "nat \<Rightarrow> duration"
  ch_drained :: "string \<times> string"

record os =
  os_path_exists :: "string \<Rightarrow> bool"
  os_proc_status :: "string option"
  os_spawn :: "string list \<Rightarrow> (io_error, child) result"

definition WATCHDOG_POLL :: duration where
  "WATCHDOG_POLL = 50000000"

text \<open>The watchdog's \<open>loop\<close>, from the \<open>i\<close>-th poll on.\<close>

partial_function (option) watchdog_loop ::
  "child \<Rightarrow> string \<Rightarrow> duration \<Rightarrow> nat \<Rightarrow> (ssh_error, exit_status) result option" where
  "watchdog_loop ch host budget i =
     (case ch_try_wait ch i of
        Ok (Some status) \<Rightarrow> Some (Ok status)
      | Ok None \<Rightarrow>
          if ch_elapsed ch i \<ge> budget then Some (Err (Timeout host budget))
          else watchdog_loop ch host budget (Suc i)
      | Err source \<Rightarrow> Some (Err (Wait host source)))"

definition wait_with_timeout ::
  "child \<Rightarrow> string \<Rightarrow> duration \<Rightarrow> (ssh_error, run_output) result option" where
  "wait_with_timeout ch host budget =
     map_option (\<lambda>r. bind_r r (\<lambda>status.
         Ok \<lparr>ro_status = status, ro_stdout = fst (ch_drained ch), ro_stderr = snd (ch_drained ch)\<rparr>))
       (watchdog_loop ch host budget 0)"

definition run_inner_impl ::
  "os \<Rightarrow> ssh_options \<Rightarrow> string \<Rightarrow> string option \<Rightarrow> (ssh_error, run_output) result option" where
  "run_inner_impl os opts command stdin =
     (let host = so_host opts; argv = to_argv (os_proc_status os) opts in
      if (case so_identity_file opts of Some path \<Rightarrow> \<not> os_path_exists os path | None \<Rightarrow> False)
      then Some (Err (IdentityFileMissing (the (so_identity_file opts))))
      else
        (case os_spawn os (argv @ [command]) of
           Err source \<Rightarrow>
             Some (Err (Spawn (hd argv) host
                          (if source = NotFound then SshBinaryMissing else SpawnOther) source))
         | Ok ch \<Rightarrow>
             (case Option.bind stdin (ch_stdin_write ch) of
                Some source \<Rightarrow> Some (Err (StdinWrite host source))
              | None \<Rightarrow>
                  map_option (\<lambda>r. bind_r r (\<lambda>output.
                      if \<not> exit_success (ro_status output) then
                        Err (NonZeroExit host (ro_status output) (ro_stdout output) (ro_stderr output))
                      else Ok output))
                    (case so_command_timeout opts of
                       None \<Rightarrow> Some (map_err (Wait host) (ch_wait_with_output ch))
                     | Some budget \<Rightarrow> wait_with_timeout ch host budget))))"

section \<open>The watchdog stops\<close>

text \<open>What the code relies on of the clock and the sleep between two polls: by the next poll at
  least \<open>WATCHDOG_POLL\<close> has passed (\<open>thread::sleep\<close> never returns early).\<close>

definition clock_advances :: "child \<Rightarrow> bool" where
  "clock_advances ch \<longleftrightarrow> (\<forall>i. ch_elapsed ch i + WATCHDOG_POLL \<le> ch_elapsed ch (Suc i))"

lemma clock_advances_lower: "clock_advances ch \<Longrightarrow> i * WATCHDOG_POLL \<le> ch_elapsed ch i"
proof (induction i)
  case (Suc i)
  then have "ch_elapsed ch i + WATCHDOG_POLL \<le> ch_elapsed ch (Suc i)"
    by (simp add: clock_advances_def)
  with Suc show ?case by simp
qed simp

lemma watchdog_exit:
  assumes "ch_try_wait ch n = Ok (Some st)"
    and "\<forall>j<n. ch_try_wait ch j = Ok None \<and> ch_elapsed ch j < budget" and "i \<le> n"
  shows "watchdog_loop ch host budget i = Some (Ok st)"
  using assms(3)
proof (induction i rule: inc_induct)
  case base
  then show ?case by (simp add: watchdog_loop.simps assms(1))
next
  case (step m)
  with assms(2) show ?case by (subst watchdog_loop.simps) auto
qed

lemma watchdog_returns:
  assumes "clock_advances ch"
  shows "\<exists>r. watchdog_loop ch host budget i = Some r"
proof (induction "budget - i * WATCHDOG_POLL" arbitrary: i rule: less_induct)
  case less
  show ?case
  proof (cases "ch_try_wait ch i = Ok None \<and> ch_elapsed ch i < budget")
    case True
    with clock_advances_lower [OF assms, of i] have "i * WATCHDOG_POLL < budget" by simp
    then have "budget - Suc i * WATCHDOG_POLL < budget - i * WATCHDOG_POLL"
      by (simp add: WATCHDOG_POLL_def)
    from less [OF this] True show ?thesis by (subst watchdog_loop.simps) auto
  next
    case False
    then show ?thesis
      by (subst watchdog_loop.simps) (auto split: result.splits option.splits)
  qed
qed

lemma watchdog_errors:
  assumes "watchdog_loop ch host budget i = Some (Err e)"
  shows "e = Timeout host budget \<or> (\<exists>src. e = Wait host src)"
proof -
  have "r = Err e \<longrightarrow> e = Timeout host budget \<or> (\<exists>src. e = Wait host src)"
    if "watchdog_loop ch host budget i = Some r" for r
    by (rule watchdog_loop.raw_induct [where P = "\<lambda>ch h b i r. r = Err e \<longrightarrow> e = Timeout h b \<or> (\<exists>src. e = Wait h src)", OF _ that])
      (auto split: result.splits option.splits if_splits)
  with assms show ?thesis by blast
qed

lemma watchdog_never:
  assumes "watchdog_loop ch host budget i = Some r"
  shows "(\<forall>n. ch_try_wait ch n = Ok None) \<longrightarrow> r = Err (Timeout host budget)"
  by (rule watchdog_loop.raw_induct [where P = "\<lambda>ch h b i r. (\<forall>n. ch_try_wait ch n = Ok None) \<longrightarrow> r = Err (Timeout h b)", OF _ assms])
    (auto split: if_splits)

text \<open>The two ways of waiting, and the exit-status check on what they give.\<close>

definition waited :: "child \<Rightarrow> ssh_options \<Rightarrow> (ssh_error, run_output) result option" where
  "waited ch opts =
     (case so_command_timeout opts of
        None \<Rightarrow> Some (map_err (Wait (so_host opts)) (ch_wait_with_output ch))
      | Some budget \<Rightarrow> wait_with_timeout ch (so_host opts) budget)"

definition check_exit :: "string \<Rightarrow> run_output \<Rightarrow> (ssh_error, run_output) result" where
  "check_exit host output =
     (if \<not> exit_success (ro_status output) then
        Err (NonZeroExit host (ro_status output) (ro_stdout output) (ro_stderr output))
      else Ok output)"

lemma waited_errors:
  assumes "waited ch opts = Some (Err e)"
  shows "(\<exists>src. e = Wait (so_host opts) src)
    \<or> (\<exists>d. e = Timeout (so_host opts) d \<and> so_command_timeout opts = Some d)"
proof (cases "so_command_timeout opts")
  case None
  with assms show ?thesis
    by (cases "ch_wait_with_output ch") (auto simp: waited_def)
next
  case (Some budget)
  with assms have "watchdog_loop ch (so_host opts) budget 0 = Some (Err e)"
    by (auto simp: waited_def wait_with_timeout_def bind_r_Err_iff)
  with Some show ?thesis by (auto dest!: watchdog_errors)
qed

section \<open>How \<open>ssh\<close> reads the argument vector\<close>

text \<open>The reading of \<open>ssh(1)\<close>'s command line for the three options the vector uses: \<open>-i\<close>,
  \<open>-o\<close> and \<open>-p\<close> take the next argument, the first argument that is not an option is
  the destination, and everything after it is the remote command.\<close>

record ssh_cmdline =
  cl_identities :: "string list"
  cl_settings :: "string list"
  cl_ports :: "string list"
  cl_dest :: string
  cl_command :: "string list"

fun read_ssh_args :: "string list \<Rightarrow> ssh_cmdline option" where
  "read_ssh_args [] = None"
| "read_ssh_args (a # rest) =
     (if \<not> starts_with ''-'' a then
        Some \<lparr>cl_identities = [], cl_settings = [], cl_ports = [], cl_dest = a, cl_command = rest\<rparr>
      else
        (case rest of
           [] \<Rightarrow> None
         | v # rest2 \<Rightarrow>
             if a = ''-i'' then map_option (\<lambda>c. c\<lparr>cl_identities := v # cl_identities c\<rparr>) (read_ssh_args rest2)
             else if a = ''-o'' then map_option (\<lambda>c. c\<lparr>cl_settings := v # cl_settings c\<rparr>) (read_ssh_args rest2)
             else if a = ''-p'' then map_option (\<lambda>c. c\<lparr>cl_ports := v # cl_ports c\<rparr>) (read_ssh_args rest2)
             else None))"

definition argv_settings :: "string option \<Rightarrow> ssh_options \<Rightarrow> string list" where
  "argv_settings ps opts =
     [''StrictHostKeyChecking='' @ (if so_strict_host_key_checking opts then ''yes'' else ''no''),
      ''UserKnownHostsFile=/dev/null'', ''LogLevel=ERROR'',
      ''ConnectTimeout='' @ show_nat (as_secs (so_connect_timeout opts)),
      ''BatchMode='' @ (if so_batch_mode opts then ''yes'' else ''no'')]
     @ (if so_control_master opts then
          [''ControlMaster=auto'',
           ''ControlPath=/tmp/hbird-ssh-'' @ current_uid_string ps @ ''-%r@%h:%p'',
           ''ControlPersist=60s''] else [])
     @ (case so_proxy_jump opts of Some jump \<Rightarrow> [''ProxyJump='' @ jump] | None \<Rightarrow> [])"

lemma read_o: "read_ssh_args (''-o'' # v # rest2) =
    map_option (\<lambda>c. c\<lparr>cl_settings := v # cl_settings c\<rparr>) (read_ssh_args rest2)"
  by (simp add: starts_with_def)

lemma read_i: "read_ssh_args (''-i'' # v # rest2) =
    map_option (\<lambda>c. c\<lparr>cl_identities := v # cl_identities c\<rparr>) (read_ssh_args rest2)"
  by (simp add: starts_with_def)

lemma read_p: "read_ssh_args (''-p'' # v # rest2) =
    map_option (\<lambda>c. c\<lparr>cl_ports := v # cl_ports c\<rparr>) (read_ssh_args rest2)"
  by (simp add: starts_with_def)

lemma read_dest: "\<not> starts_with ''-'' t \<Longrightarrow> read_ssh_args (t # rest) =
    Some \<lparr>cl_identities = [], cl_settings = [], cl_ports = [], cl_dest = t, cl_command = rest\<rparr>"
  by simp

section \<open>Properties\<close>

text \<open>C37. Argument vector: \<open>ssh\<close> reads back from it exactly the configured identity,
  settings, port and destination, and the remote command as one argument, whenever the
  destination is not itself an option.\<close>

theorem to_argv_read_back:
  assumes "\<not> starts_with ''-'' (argv_target opts)"
  shows "read_ssh_args (tl (to_argv ps opts) @ [cmd]) =
    Some \<lparr>cl_identities = (if so_include_identity_flag opts
            then (case so_identity_file opts of Some p \<Rightarrow> [p] | None \<Rightarrow> []) else []),
          cl_settings = argv_settings ps opts,
          cl_ports = (case so_port opts of Some p \<Rightarrow> [show_nat p] | None \<Rightarrow> []),
          cl_dest = argv_target opts, cl_command = [cmd]\<rparr>"
  using assms
  by (simp add: to_argv_def argv_settings_def read_o read_i read_p read_dest split: option.split
      del: read_ssh_args.simps)

theorem to_argv_read_back_witness:
  "read_ssh_args (tl (to_argv None (with_proxy_jump ''kvm'' (with_user ''root'' (ssh_options_new ''10.0.0.5'')))) @ [''true''])
   = Some \<lparr>cl_identities = [], cl_settings = [''StrictHostKeyChecking=no'', ''UserKnownHostsFile=/dev/null'',
        ''LogLevel=ERROR'', ''ConnectTimeout=10'', ''BatchMode=yes'', ''ProxyJump=kvm''],
      cl_ports = [], cl_dest = ''root@10.0.0.5'', cl_command = [''true'']\<rparr>"
proof -
  let ?opts = "with_proxy_jump ''kvm'' (with_user ''root'' (ssh_options_new ''10.0.0.5''))"
  have t: "\<not> starts_with ''-'' (argv_target ?opts)" by code_simp
  have "argv_settings None ?opts = [''StrictHostKeyChecking=no'', ''UserKnownHostsFile=/dev/null'',
      ''LogLevel=ERROR'', ''ConnectTimeout=10'', ''BatchMode=yes'', ''ProxyJump=kvm'']"
    "argv_target ?opts = ''root@10.0.0.5''" by code_simp+
  with to_argv_read_back [OF t, of None "''true''"] show ?thesis
    by (simp add: with_proxy_jump_def with_user_def ssh_options_new_def)
qed

text \<open>C38. Watchdog: with a budget the command always comes back. If the child exits by a poll
  before the budget is spent its status is returned; if it is still running at the first poll at
  or after the budget the result is \<open>Error::Timeout\<close> with this host and budget.\<close>

theorem watchdog_total:
  assumes "clock_advances ch"
  shows "\<exists>r. wait_with_timeout ch host budget = Some r
    \<and> (\<forall>n st. ch_try_wait ch n = Ok (Some st) \<and> (\<forall>j<n. ch_try_wait ch j = Ok None \<and> ch_elapsed ch j < budget)
          \<longrightarrow> r = Ok \<lparr>ro_status = st, ro_stdout = fst (ch_drained ch), ro_stderr = snd (ch_drained ch)\<rparr>)
    \<and> ((\<forall>n. ch_try_wait ch n = Ok None) \<longrightarrow> r = Err (Timeout host budget))"
proof -
  obtain r where r: "watchdog_loop ch host budget 0 = Some r"
    using watchdog_returns [OF assms] by blast
  have never: "(\<forall>n. ch_try_wait ch n = Ok None) \<longrightarrow> r = Err (Timeout host budget)"
    by (rule watchdog_never [OF r])
  have exits: "\<forall>n st. ch_try_wait ch n = Ok (Some st)
      \<and> (\<forall>j<n. ch_try_wait ch j = Ok None \<and> ch_elapsed ch j < budget) \<longrightarrow> r = Ok st"
    using watchdog_exit [of ch _ _ budget 0 host] r by fastforce
  show ?thesis
    unfolding wait_with_timeout_def r option.map using never exits by auto
qed

definition sleepy_child :: "nat \<Rightarrow> child" where
  "sleepy_child n =
     \<lparr>ch_stdin_write = (\<lambda>_. None),
      ch_wait_with_output = Ok \<lparr>ro_status = Exited 0, ro_stdout = [], ro_stderr = []\<rparr>,
      ch_try_wait = (\<lambda>i. if i < n then Ok None else Ok (Some (Exited 0))),
      ch_elapsed = (\<lambda>i. i * WATCHDOG_POLL), ch_drained = (''out'', [])\<rparr>"

theorem watchdog_total_witness:
  "clock_advances (sleepy_child 2)
   \<and> wait_with_timeout (sleepy_child 2) ''h'' (from_secs 1)
     = Some (Ok \<lparr>ro_status = Exited 0, ro_stdout = ''out'', ro_stderr = []\<rparr>)"
proof -
  have c: "clock_advances (sleepy_child 2)" by (simp add: clock_advances_def sleepy_child_def)
  have e: "ch_try_wait (sleepy_child 2) 2 = Ok (Some (Exited 0))"
    "\<forall>j<2. ch_try_wait (sleepy_child 2) j = Ok None \<and> ch_elapsed (sleepy_child 2) j < from_secs 1"
    by (simp_all add: sleepy_child_def from_secs_def WATCHDOG_POLL_def)
  from watchdog_total [OF c, of "''h''" "from_secs 1"]
  obtain r where "wait_with_timeout (sleepy_child 2) ''h'' (from_secs 1) = Some r"
    "r = Ok \<lparr>ro_status = Exited 0, ro_stdout = fst (ch_drained (sleepy_child 2)),
       ro_stderr = snd (ch_drained (sleepy_child 2))\<rparr>"
    using e by blast
  with c show ?thesis by (simp add: sleepy_child_def)
qed

text \<open>Classification: \<open>run\<close> gives \<open>Ok\<close> only for exit status 0, and each error says
  what happened: the failing program and this host, \<open>SshBinaryMissing\<close> exactly for a missing
  binary, a non-zero status only in \<open>NonZeroExit\<close>, a missing identity file that was
  configured, the configured budget in \<open>Timeout\<close>.\<close>

theorem run_classified:
  assumes "run_inner_impl os opts command stdin = Some r"
  shows "case r of
      Ok out \<Rightarrow> exit_success (ro_status out)
    | Err e \<Rightarrow>
        (case e of
           Spawn prog h k src \<Rightarrow> prog = ''ssh'' \<and> h = so_host opts \<and> (k = SshBinaryMissing \<longleftrightarrow> src = NotFound)
         | Wait h _ \<Rightarrow> h = so_host opts
         | StdinWrite h src \<Rightarrow> h = so_host opts \<and> stdin \<noteq> None
         | NonZeroExit h st _ _ \<Rightarrow> h = so_host opts \<and> \<not> exit_success st
         | IdentityFileMissing p \<Rightarrow> so_identity_file opts = Some p \<and> \<not> os_path_exists os p
         | Timeout h d \<Rightarrow> h = so_host opts \<and> so_command_timeout opts = Some d)"
proof -
  have hd: "hd (to_argv ps opts) = ''ssh''" for ps by (simp add: to_argv_def)
  consider (identity) p where "so_identity_file opts = Some p" "\<not> os_path_exists os p"
      "r = Err (IdentityFileMissing p)"
    | (spawn) src where "r = Err (Spawn ''ssh'' (so_host opts)
          (if src = NotFound then SshBinaryMissing else SpawnOther) src)"
    | (stdin) src where "stdin \<noteq> None" "r = Err (StdinWrite (so_host opts) src)"
    | (waited) ch x where "waited ch opts = Some x" "r = bind_r x (check_exit (so_host opts))"
    using assms
    by (auto simp: run_inner_impl_def hd Let_def waited_def check_exit_def [abs_def]
        split: result.splits option.splits if_splits Option.bind_splits)
  then show ?thesis
  proof cases
    case waited
    then show ?thesis
      by (cases x) (auto simp: check_exit_def dest!: waited_errors)
  qed auto
qed

definition demo_os :: os where
  "demo_os = \<lparr>os_path_exists = (\<lambda>_. True), os_proc_status = None,
     os_spawn = (\<lambda>_. Ok (sleepy_child 0\<lparr>ch_wait_with_output :=
       Ok \<lparr>ro_status = Exited 255, ro_stdout = [], ro_stderr = ''closed''\<rparr>\<rparr>))\<rparr>"

theorem run_classified_witness:
  "run_inner_impl demo_os (ssh_options_new ''h'') ''true'' None
     = Some (Err (NonZeroExit ''h'' (Exited 255) [] ''closed'')) \<and> \<not> exit_success (Exited 255)"
proof -
  have r: "run_inner_impl demo_os (ssh_options_new ''h'') ''true'' None
      = Some (Err (NonZeroExit ''h'' (Exited 255) [] ''closed''))"
    by (simp add: run_inner_impl_def demo_os_def ssh_options_new_def exit_success_def)
  from run_classified [OF r] r show ?thesis by simp
qed

end
