(* ===== verification/Action.thy ===== *)
theory Action
  imports Ssh
begin

text \<open>
  Effects. A method of the sources that talks to the outside is an \<open>action\<close>: a function from the
  state of the world to a \<open>Result\<close> and the state after it. The world is an opaque rest of the
  world (\<open>w_ext\<close>: the hosts, the cluster, the clock), which only the environment's operations
  change, and the list of what the program did so far (\<open>w_trace\<close>): the lines it printed, the
  commands it ran over SSH (\<open>SshIn\<close>: with something on standard input) or locally with their outcome, the
  sleeps, the lines it read from the terminal, the directories and files it wrote. The environment (\<open>env\<close>) is the
  parameter that stands for \<open>hbird_ssh::Client::run\<close> against real hosts, for a local
  \<open>sh -c\<close> and for \<open>thread::sleep\<close>; the theorems hold for all of them.

  The second half is the logic the proofs of the commands use: Hoare triples with a second
  postcondition for the error path, and the predicate that says which events an action adds.
\<close>

section \<open>Actions\<close>

type_synonym ('s, 'e, 'a) action = "'s \<Rightarrow> ('e, 'a) result \<times> 's"

definition retA :: "'a \<Rightarrow> ('s, 'e, 'a) action" where
  "retA a = (\<lambda>s. (Ok a, s))"

definition failA :: "'e \<Rightarrow> ('s, 'e, 'a) action" where
  "failA e = (\<lambda>s. (Err e, s))"

text \<open>Sequencing: the \<open>?\<close> operator stops at the first error.\<close>

definition bindA :: "('s, 'e, 'a) action \<Rightarrow> ('a \<Rightarrow> ('s, 'e, 'b) action) \<Rightarrow> ('s, 'e, 'b) action" where
  "bindA m f = (\<lambda>s. case m s of (Ok a, s') \<Rightarrow> f a s' | (Err e, s') \<Rightarrow> (Err e, s'))"

abbreviation seqA :: "('s, 'e, 'a) action \<Rightarrow> ('s, 'e, 'b) action \<Rightarrow> ('s, 'e, 'b) action" where
  "seqA m n \<equiv> bindA m (\<lambda>_. n)"

text \<open>A \<open>match\<close> on the result: the error is a value and does not stop.\<close>

definition matchA :: "('s, 'e, 'a) action \<Rightarrow> (('e, 'a) result \<Rightarrow> ('s, 'f, 'b) action) \<Rightarrow> ('s, 'f, 'b) action" where
  "matchA m f = (\<lambda>s. case m s of (r, s') \<Rightarrow> f r s')"

definition liftA :: "('e, 'a) result \<Rightarrow> ('s, 'e, 'a) action" where
  "liftA r = (\<lambda>s. (r, s))"

definition ctxA :: "string \<Rightarrow> ('s, anyhow, 'a) action \<Rightarrow> ('s, anyhow, 'a) action" where
  "ctxA c m = (\<lambda>s. case m s of (r, s') \<Rightarrow> (with_context c r, s'))"

definition whenA :: "bool \<Rightarrow> ('s, 'e, unit) action \<Rightarrow> ('s, 'e, unit) action" where
  "whenA b m = (if b then m else retA ())"

fun forA :: "'a list \<Rightarrow> ('a \<Rightarrow> ('s, 'e, unit) action) \<Rightarrow> ('s, 'e, unit) action" where
  "forA [] f = retA ()"
| "forA (x # xs) f = bindA (f x) (\<lambda>_. forA xs f)"

lemma action_simps [simp]:
  "retA a s = (Ok a, s)"
  "failA e s = (Err e, s)"
  "liftA r s = (r, s)"
  "bindA (retA a) f = f a"
  "bindA (failA e) f = failA e"
  "bindA (liftA (Ok a)) f = f a"
  "bindA (liftA (Err e)) f = failA e"
  "whenA True m = m"
  "whenA False m = retA ()"
  by (simp_all add: retA_def failA_def liftA_def bindA_def whenA_def fun_eq_iff)

lemma bindA_apply: "m s = (Ok a, s') \<Longrightarrow> bindA m f s = f a s'"
  by (simp add: bindA_def)

lemma bindA_apply_err: "m s = (Err e, s') \<Longrightarrow> bindA m f s = (Err e, s')"
  by (simp add: bindA_def)

lemma matchA_apply: "m s = (r, s') \<Longrightarrow> matchA m f s = f r s'"
  by (simp add: matchA_def)

lemma bindA_assoc: "bindA (bindA m f) g = bindA m (\<lambda>a. bindA (f a) g)"
  by (rule ext) (simp add: bindA_def split: prod.splits result.splits)

section \<open>The world and the environment\<close>

text \<open>What \<open>std::fs\<close> does to a file: copy it, set its mode, open it for writing with a mode, write all bytes, flush it to
  the disk, rename it.\<close>

datatype file_op =
    CopyFile string string
  | SetMode string nat
  | OpenTemp string nat
  | WriteAll string string
  | SyncAll string
  | RenameFile string string

datatype event =
    Stdout string
  | Stderr string
  | SshRun ssh_options string "(ssh_error, run_output) result"
  | ShRun string "(io_error, run_output) result"
  | Slept nat
  | ProcRun "string list" "(io_error, run_output) result"
  | SshIn ssh_options string string "(ssh_error, run_output) result"
  | ReadLine "(io_error, string) result"
  | MakeDir string "(io_error, unit) result"
  | FileWrite string string "(io_error, unit) result"
  | FileOp file_op "(io_error, unit) result"

record 'w world =
  w_ext :: 'w
  w_trace :: "event list"

record 'w env =
  env_ssh :: "ssh_options \<Rightarrow> string \<Rightarrow> string option \<Rightarrow> 'w \<Rightarrow> (ssh_error, run_output) result \<times> 'w"
  env_sh :: "string \<Rightarrow> 'w \<Rightarrow> (io_error, run_output) result \<times> 'w"
  env_sleep :: "nat \<Rightarrow> 'w \<Rightarrow> 'w"

text \<open>What the commands use of the machine they run on: starting a program (with a working
  directory), files, environment variables, the process id. A \<open>console\<close> is what the operator's
  commands use beyond that: the terminal, the clock, \<open>/dev/urandom\<close>, writing files.\<close>

record 'w host =
  host_proc :: "string option \<Rightarrow> string list \<Rightarrow> 'w \<Rightarrow> (io_error, run_output) result \<times> 'w"
  host_exists :: "string \<Rightarrow> 'w \<Rightarrow> bool"
  host_read :: "string \<Rightarrow> 'w \<Rightarrow> string option"
  host_var :: "string \<Rightarrow> string option"
  host_pid :: nat

record 'w console =
  con_tty :: bool
  con_read_line :: "'w \<Rightarrow> (io_error, string) result \<times> 'w"
  con_now :: "'w \<Rightarrow> nat"
  con_open :: "string \<Rightarrow> 'w \<Rightarrow> (io_error, unit) result"
  con_read_exact :: "string \<Rightarrow> nat \<Rightarrow> 'w \<Rightarrow> (io_error, string) result \<times> 'w"
  con_is_file :: "string \<Rightarrow> 'w \<Rightarrow> bool"
  con_read :: "string \<Rightarrow> 'w \<Rightarrow> (io_error, string) result"
  con_mkdir :: "string \<Rightarrow> 'w \<Rightarrow> (io_error, unit) result \<times> 'w"
  con_write :: "string \<Rightarrow> string \<Rightarrow> 'w \<Rightarrow> (io_error, unit) result \<times> 'w"

type_synonym ('w, 'a) act = "('w world, anyhow, 'a) action"

definition emit :: "event \<Rightarrow> ('w world, 'e, unit) action" where
  "emit ev w = (Ok (), w\<lparr>w_trace := w_trace w @ [ev]\<rparr>)"

abbreviation println :: "string \<Rightarrow> ('w world, 'e, unit) action" where
  "println s \<equiv> emit (Stdout s)"

abbreviation eprintln :: "string \<Rightarrow> ('w world, 'e, unit) action" where
  "eprintln s \<equiv> emit (Stderr s)"

definition ssh_run_in :: "'w env \<Rightarrow> ssh_options \<Rightarrow> string \<Rightarrow> string option \<Rightarrow> ('w world, ssh_error, run_output) action" where
  "ssh_run_in env opts cmd inp w =
     (case env_ssh env opts cmd inp (w_ext w) of
        (r, x) \<Rightarrow> (r, w\<lparr>w_ext := x, w_trace := w_trace w
                         @ [case inp of None \<Rightarrow> SshRun opts cmd r | Some s \<Rightarrow> SshIn opts cmd s r]\<rparr>))"

definition ssh_run :: "'w env \<Rightarrow> ssh_options \<Rightarrow> string \<Rightarrow> ('w world, ssh_error, run_output) action" where
  "ssh_run env opts cmd = ssh_run_in env opts cmd None"

text \<open>\<open>Command::new("sh").arg("-c").arg(cmd).output()\<close> on this machine.\<close>

definition sh_run :: "'w env \<Rightarrow> string \<Rightarrow> ('w world, io_error, run_output) action" where
  "sh_run env cmd w =
     (case env_sh env cmd (w_ext w) of
        (r, x) \<Rightarrow> (r, w\<lparr>w_ext := x, w_trace := w_trace w @ [ShRun cmd r]\<rparr>))"

definition sleep :: "'w env \<Rightarrow> nat \<Rightarrow> ('w world, 'e, unit) action" where
  "sleep env n w = (Ok (), w\<lparr>w_ext := env_sleep env n (w_ext w), w_trace := w_trace w @ [Slept n]\<rparr>)"

text \<open>\<open>Command::new(argv[0]).args(argv[1..]).output()\<close>, and looking at the local files.\<close>

definition proc_run :: "'w host \<Rightarrow> string option \<Rightarrow> string list \<Rightarrow> ('w world, io_error, run_output) action" where
  "proc_run host cwd argv w =
     (case host_proc host cwd argv (w_ext w) of
        (r, x) \<Rightarrow> (r, w\<lparr>w_ext := x, w_trace := w_trace w @ [ProcRun argv r]\<rparr>))"

definition read_file :: "'w host \<Rightarrow> string \<Rightarrow> ('w world, 'e, string option) action" where
  "read_file host path w = (Ok (host_read host path (w_ext w)), w)"

definition path_exists :: "'w host \<Rightarrow> string \<Rightarrow> ('w world, 'e, bool) action" where
  "path_exists host path w = (Ok (host_exists host path (w_ext w)), w)"

text \<open>\<open>stdin().read_line\<close>, \<open>fs::create_dir_all\<close>, \<open>fs::write\<close>; and looking at the clock and the local
  files through the console.\<close>

definition read_line :: "'w console \<Rightarrow> ('w world, io_error, string) action" where
  "read_line con w =
     (case con_read_line con (w_ext w) of
        (r, x) \<Rightarrow> (r, w\<lparr>w_ext := x, w_trace := w_trace w @ [ReadLine r]\<rparr>))"

definition create_dir_all :: "'w console \<Rightarrow> string \<Rightarrow> ('w world, io_error, unit) action" where
  "create_dir_all con path w =
     (case con_mkdir con path (w_ext w) of
        (r, x) \<Rightarrow> (r, w\<lparr>w_ext := x, w_trace := w_trace w @ [MakeDir path r]\<rparr>))"

definition fs_write :: "'w console \<Rightarrow> string \<Rightarrow> string \<Rightarrow> ('w world, io_error, unit) action" where
  "fs_write con path bytes w =
     (case con_write con path bytes (w_ext w) of
        (r, x) \<Rightarrow> (r, w\<lparr>w_ext := x, w_trace := w_trace w @ [FileWrite path bytes r]\<rparr>))"

text \<open>\<open>read_exact\<close> from a device: it moves the device on and is no event.\<close>

definition read_exact :: "'w console \<Rightarrow> string \<Rightarrow> nat \<Rightarrow> ('w world, io_error, string) action" where
  "read_exact con path n w = (case con_read_exact con path n (w_ext w) of (r, x) \<Rightarrow> (r, w\<lparr>w_ext := x\<rparr>))"

definition peek :: "('w \<Rightarrow> ('e, 'a) result) \<Rightarrow> ('w world, 'e, 'a) action" where
  "peek f w = (f (w_ext w), w)"

section \<open>Local variables\<close>

text \<open>A block with mutable local variables \<open>'l\<close> is an action on the pair; \<open>scoped\<close> runs it
  with their initial values and a \<open>drop\<close> that runs on every way out.\<close>

definition on_world :: "('s, 'e, 'a) action \<Rightarrow> ('l \<times> 's, 'e, 'a) action" where
  "on_world m = (\<lambda>(l, s). case m s of (r, s') \<Rightarrow> (r, (l, s')))"

definition upd :: "('l \<Rightarrow> 'l) \<Rightarrow> ('l \<times> 's, 'e, unit) action" where
  "upd f = (\<lambda>(l, s). (Ok (), (f l, s)))"

definition locals :: "('l \<times> 's, 'e, 'l) action" where
  "locals = (\<lambda>(l, s). (Ok l, (l, s)))"

definition scoped :: "'l \<Rightarrow> ('l \<Rightarrow> ('s, 'e, unit) action) \<Rightarrow> ('l \<times> 's, 'e, 'a) action \<Rightarrow> ('s, 'e, 'a) action" where
  "scoped l dropf m = (\<lambda>s. case m (l, s) of (r, (l', s')) \<Rightarrow> (r, snd (dropf l' s')))"

section \<open>Triples\<close>

named_theorems triple_intro \<open>Hoare rules for actions\<close>

definition triple ::
  "('s \<Rightarrow> bool) \<Rightarrow> ('s, 'e, 'a) action \<Rightarrow> ('a \<Rightarrow> 's \<Rightarrow> bool) \<Rightarrow> ('e \<Rightarrow> 's \<Rightarrow> bool) \<Rightarrow> bool" where
  "triple P m Q E \<longleftrightarrow> (\<forall>s. P s \<longrightarrow> (case m s of (Ok a, s') \<Rightarrow> Q a s' | (Err e, s') \<Rightarrow> E e s'))"

lemma tripleI:
  assumes "\<And>s a s'. P s \<Longrightarrow> m s = (Ok a, s') \<Longrightarrow> Q a s'"
    and "\<And>s e s'. P s \<Longrightarrow> m s = (Err e, s') \<Longrightarrow> E e s'"
  shows "triple P m Q E"
  using assms by (auto simp: triple_def split: prod.splits result.splits)

lemma tripleD:
  assumes "triple P m Q E" "P s"
  shows "m s = (Ok a, s') \<Longrightarrow> Q a s'" and "m s = (Err e, s') \<Longrightarrow> E e s'"
  using assms by (auto simp: triple_def split: prod.splits result.splits)

lemma triple_conseq:
  assumes "triple P' m Q' E'" "\<And>s. P s \<Longrightarrow> P' s"
    and "\<And>a s. Q' a s \<Longrightarrow> Q a s" "\<And>e s. E' e s \<Longrightarrow> E e s"
  shows "triple P m Q E"
  using assms unfolding triple_def by (fastforce split: prod.splits result.splits)

lemma triple_ret [triple_intro]: "(\<And>s. P s \<Longrightarrow> Q a s) \<Longrightarrow> triple P (retA a) Q E"
  by (simp add: triple_def)

lemma triple_fail [triple_intro]: "(\<And>s. P s \<Longrightarrow> E e s) \<Longrightarrow> triple P (failA e) Q E"
  by (simp add: triple_def)

lemma triple_lift [triple_intro]:
  "(\<And>a s. P s \<Longrightarrow> r = Ok a \<Longrightarrow> Q a s) \<Longrightarrow> (\<And>e s. P s \<Longrightarrow> r = Err e \<Longrightarrow> E e s) \<Longrightarrow> triple P (liftA r) Q E"
  by (cases r) (auto simp: triple_def)

lemma triple_bind:
  assumes "triple P m R E" "\<And>a. triple (R a) (f a) Q E"
  shows "triple P (bindA m f) Q E"
  using assms unfolding triple_def bindA_def by (fastforce split: prod.splits result.splits)

lemma triple_match:
  assumes "triple P m (\<lambda>a. R (Ok a)) (\<lambda>e. R (Err e))" "\<And>r. triple (R r) (f r) Q E"
  shows "triple P (matchA m f) Q E"
  using assms unfolding triple_def matchA_def by (fastforce split: prod.splits result.splits)

lemma triple_match_cases:
  assumes "triple P m Q1 E1" "\<And>a. triple (Q1 a) (f (Ok a)) Q E" "\<And>e. triple (E1 e) (f (Err e)) Q E"
  shows "triple P (matchA m f) Q E"
proof (rule triple_match [where R = "\<lambda>r s. case r of Ok a \<Rightarrow> Q1 a s | Err e \<Rightarrow> E1 e s"])
  show "triple P m (\<lambda>a s. case Ok a of Ok a \<Rightarrow> Q1 a s | Err e \<Rightarrow> E1 e s)
      (\<lambda>e s. case Err e of Ok a \<Rightarrow> Q1 a s | Err e \<Rightarrow> E1 e s)"
    using assms(1) by simp
  show "triple (\<lambda>s. case r of Ok a \<Rightarrow> Q1 a s | Err e \<Rightarrow> E1 e s) (f r) Q E" for r
    using assms(2,3) by (cases r) simp_all
qed

lemma triple_ctx [triple_intro]:
  assumes "triple P m Q (\<lambda>e. E (c # e))"
  shows "triple P (ctxA c m) Q E"
proof (rule tripleI)
  fix s a s'
  assume "P s" and ok: "ctxA c m s = (Ok a, s')"
  from ok have "m s = (Ok a, s')" by (auto simp: ctxA_def split: prod.splits)
  with tripleD(1) [OF assms \<open>P s\<close>] show "Q a s'" .
next
  fix s e s'
  assume "P s" and er: "ctxA c m s = (Err e, s')"
  then obtain r where "m s = (r, s')" "with_context c r = Err e"
    by (auto simp: ctxA_def split: prod.splits)
  then obtain e' where "m s = (Err e', s')" "e = c # e'" by (cases r) auto
  with tripleD(2) [OF assms \<open>P s\<close>] show "E e s'" by blast
qed

lemma triple_when [triple_intro]:
  "(b \<Longrightarrow> triple P m (\<lambda>_. Q ()) E) \<Longrightarrow> (\<And>s. \<not> b \<Longrightarrow> P s \<Longrightarrow> Q () s) \<Longrightarrow> triple P (whenA b m) Q E"
  by (cases b) (auto simp: triple_def)

lemma triple_if [triple_intro]:
  "(b \<Longrightarrow> triple P m Q E) \<Longrightarrow> (\<not> b \<Longrightarrow> triple P n Q E) \<Longrightarrow> triple P (if b then m else n) Q E"
  by simp

lemma triple_for:
  assumes "\<And>x. x \<in> set xs \<Longrightarrow> triple I (f x) (\<lambda>_. I) E"
  shows "triple I (forA xs f) (\<lambda>_. I) E"
  using assms
proof (induction xs)
  case Nil
  show ?case by (simp add: triple_def)
next
  case (Cons x xs)
  then show ?case by (auto intro!: triple_bind [where R = "\<lambda>_. I"])
qed

lemma triple_on_world [triple_intro]:
  assumes "\<And>l. triple (\<lambda>s. P (l, s)) m (\<lambda>a s. Q a (l, s)) (\<lambda>e s. E e (l, s))"
  shows "triple P (on_world m) Q E"
  using assms unfolding triple_def on_world_def by (fastforce split: prod.splits result.splits)

lemma triple_upd [triple_intro]:
  "(\<And>l s. P (l, s) \<Longrightarrow> Q () (f l, s)) \<Longrightarrow> triple P (upd f) Q E"
  by (auto simp: triple_def upd_def)

lemma triple_locals [triple_intro]:
  "(\<And>l s. P (l, s) \<Longrightarrow> Q l (l, s)) \<Longrightarrow> triple P locals Q E"
  by (auto simp: triple_def locals_def)

lemma triple_value:
  assumes "triple P m Q E" "\<And>w a w'. m w = (Ok a, w') \<Longrightarrow> V a"
  shows "triple P m (\<lambda>a w. V a \<and> Q a w) E"
  using assms by (fastforce simp: triple_def split: prod.splits result.splits)

lemma triple_case_prod: "(\<And>x y. triple P (f x y) Q E) \<Longrightarrow> triple P (case p of (x, y) \<Rightarrow> f x y) Q E"
  by (cases p) simp

section \<open>Which events an action adds\<close>

named_theorems adds_intro \<open>rules for the events an action adds\<close>

text \<open>\<open>adds V m\<close>: whatever \<open>m\<close> adds to the trace satisfies \<open>V\<close>, and the trace is never
  rewritten.\<close>

definition adds :: "(event \<Rightarrow> bool) \<Rightarrow> ('w world, 'e, 'a) action \<Rightarrow> bool" where
  "adds V m \<longleftrightarrow> (\<forall>w. \<exists>evs. w_trace (snd (m w)) = w_trace w @ evs \<and> list_all V evs)"

lemma addsI: "(\<And>w. \<exists>evs. w_trace (snd (m w)) = w_trace w @ evs \<and> list_all V evs) \<Longrightarrow> adds V m"
  by (simp add: adds_def)

lemma addsD: "adds V m \<Longrightarrow> m w = (r, w') \<Longrightarrow> \<exists>evs. w_trace w' = w_trace w @ evs \<and> list_all V evs"
  unfolding adds_def by (metis snd_conv)

lemma adds_weaken: "adds V m \<Longrightarrow> (\<And>e. V e \<Longrightarrow> V' e) \<Longrightarrow> adds V' m"
  unfolding adds_def by (metis (mono_tags, lifting) list.pred_mono_strong)

lemma adds_ret [adds_intro, simp]: "adds V (retA a)"
  by (simp add: adds_def)

lemma adds_fail [adds_intro, simp]: "adds V (failA e)"
  by (simp add: adds_def)

lemma adds_lift [adds_intro, simp]: "adds V (liftA r)"
  by (simp add: adds_def)

lemma adds_emit [adds_intro]: "V ev \<Longrightarrow> adds V (emit ev)"
  by (simp add: adds_def emit_def)

lemma adds_sleep [adds_intro]: "V (Slept n) \<Longrightarrow> adds V (sleep env n)"
  by (simp add: adds_def sleep_def)

lemma adds_ssh_run_in [adds_intro]:
  "(\<And>r. inp = None \<Longrightarrow> V (SshRun opts c r)) \<Longrightarrow> (\<And>s r. inp = Some s \<Longrightarrow> V (SshIn opts c s r)) \<Longrightarrow>
   adds V (ssh_run_in env opts c inp)"
  by (auto simp: adds_def ssh_run_in_def split: prod.splits option.splits)

lemma adds_ssh_run [adds_intro]: "(\<And>r. V (SshRun opts c r)) \<Longrightarrow> adds V (ssh_run env opts c)"
  unfolding ssh_run_def by (rule adds_ssh_run_in) auto

lemma adds_sh_run [adds_intro]: "(\<And>r. V (ShRun c r)) \<Longrightarrow> adds V (sh_run env c)"
  by (auto simp: adds_def sh_run_def split: prod.splits)

lemma adds_proc_run [adds_intro]: "(\<And>r. V (ProcRun argv r)) \<Longrightarrow> adds V (proc_run host cwd argv)"
  by (rule addsI) (simp add: proc_run_def split: prod.splits)

lemma adds_console [adds_intro]:
  "(\<And>r. V (ReadLine r)) \<Longrightarrow> adds V (read_line con)"
  "(\<And>r. V (MakeDir path r)) \<Longrightarrow> adds V (create_dir_all con path)"
  "(\<And>r. V (FileWrite path bytes r)) \<Longrightarrow> adds V (fs_write con path bytes)"
  "adds V (peek f)"
  "adds V (read_exact con path n)"
  by (auto intro!: addsI simp: read_exact_def read_line_def create_dir_all_def fs_write_def peek_def split: prod.splits)

lemma adds_look [adds_intro]: "adds V (read_file host path)" "adds V (path_exists host path)"
  by (auto intro!: addsI simp: read_file_def path_exists_def)

lemma adds_match [adds_intro]:
  assumes "adds V m" "\<And>r. adds V (f r)"
  shows "adds V (matchA m f)"
proof (rule addsI)
  fix w
  obtain r w1 where m: "m w = (r, w1)" by (cases "m w")
  obtain r2 w2 where f: "f r w1 = (r2, w2)" by (cases "f r w1")
  from addsD [OF assms(1) m] addsD [OF assms(2) f] m f
  show "\<exists>evs. w_trace (snd (matchA m f w)) = w_trace w @ evs \<and> list_all V evs"
    by (fastforce simp: matchA_def)
qed

lemma bindA_matchA: "bindA m f = matchA m (\<lambda>r. case r of Ok a \<Rightarrow> f a | Err e \<Rightarrow> failA e)"
  by (rule ext) (auto simp: bindA_def matchA_def split: prod.splits result.splits)

lemma ctxA_matchA: "ctxA c m = matchA m (\<lambda>r. liftA (with_context c r))"
  by (rule ext) (auto simp: ctxA_def matchA_def split: prod.splits)

lemma adds_bind [adds_intro]: "adds V m \<Longrightarrow> (\<And>a. adds V (f a)) \<Longrightarrow> adds V (bindA m f)"
  unfolding bindA_matchA by (rule adds_match) (auto split: result.splits)

lemma adds_ctx [adds_intro]: "adds V m \<Longrightarrow> adds V (ctxA c m)"
  unfolding ctxA_matchA by (rule adds_match) auto

lemma adds_when [adds_intro]: "(b \<Longrightarrow> adds V m) \<Longrightarrow> adds V (whenA b m)"
  by (cases b) auto

lemma adds_if [adds_intro]: "(b \<Longrightarrow> adds V m) \<Longrightarrow> (\<not> b \<Longrightarrow> adds V n) \<Longrightarrow> adds V (if b then m else n)"
  by simp

lemma adds_for [adds_intro]: "(\<And>x. x \<in> set xs \<Longrightarrow> adds V (f x)) \<Longrightarrow> adds V (forA xs f)"
  by (induction xs) (auto intro: adds_bind)

text \<open>An action that only prints leaves the rest of the world alone.\<close>

fun printed :: "event \<Rightarrow> bool" where
  "printed (Stdout _) = True"
| "printed (Stderr _) = True"
| "printed _ = False"

fun is_ssh :: "event \<Rightarrow> bool" where
  "is_ssh (SshRun _ _ _) = True"
| "is_ssh (SshIn _ _ _ _) = True"
| "is_ssh _ = False"

text \<open>An environment in which no machine answers.\<close>

definition null_env :: "'w env" where
  "null_env = \<lparr>env_ssh = (\<lambda>opts _ _ x. (Err (Wait (so_host opts) NotFound), x)),
     env_sh = (\<lambda>_ x. (Err NotFound, x)), env_sleep = (\<lambda>_ x. x)\<rparr>"

text \<open>The same for a block with local variables.\<close>

definition adds_loc :: "(event \<Rightarrow> bool) \<Rightarrow> ('l \<times> 'w world, 'e, 'a) action \<Rightarrow> bool" where
  "adds_loc V m \<longleftrightarrow> (\<forall>l w. \<exists>evs. w_trace (snd (snd (m (l, w)))) = w_trace w @ evs \<and> list_all V evs)"

lemma adds_locD:
  "adds_loc V m \<Longrightarrow> m (l, w) = (r, l', w') \<Longrightarrow> \<exists>evs. w_trace w' = w_trace w @ evs \<and> list_all V evs"
  unfolding adds_loc_def by (metis snd_conv)

lemma adds_loc_pure [adds_intro, simp]: "adds_loc V (retA a)" "adds_loc V (failA e)" "adds_loc V (liftA r)"
  by (simp_all add: adds_loc_def)

lemma adds_loc_upd [adds_intro]: "adds_loc V (upd f)"
  by (simp add: adds_loc_def upd_def)

lemma adds_loc_locals [adds_intro]: "adds_loc V locals"
  by (simp add: adds_loc_def locals_def)

lemma adds_loc_on_world [adds_intro]: "adds V m \<Longrightarrow> adds_loc V (on_world m)"
  by (auto simp: adds_loc_def adds_def on_world_def split: prod.splits) (metis snd_conv)

lemma adds_loc_match [adds_intro]:
  assumes "adds_loc V m" "\<And>r. adds_loc V (f r)"
  shows "adds_loc V (matchA m f)"
  unfolding adds_loc_def
proof (intro allI)
  fix l w
  obtain r l1 w1 where m: "m (l, w) = (r, l1, w1)" by (cases "m (l, w)")
  obtain r2 l2 w2 where f: "f r (l1, w1) = (r2, l2, w2)" by (cases "f r (l1, w1)")
  from adds_locD [OF assms(1) m] adds_locD [OF assms(2) f] m f
  show "\<exists>evs. w_trace (snd (snd (matchA m f (l, w)))) = w_trace w @ evs \<and> list_all V evs"
    by (fastforce simp: matchA_def)
qed

lemma adds_loc_bind [adds_intro]: "adds_loc V m \<Longrightarrow> (\<And>a. adds_loc V (f a)) \<Longrightarrow> adds_loc V (bindA m f)"
  unfolding bindA_matchA by (rule adds_loc_match) (auto split: result.splits)

lemma adds_loc_ctx [adds_intro]: "adds_loc V m \<Longrightarrow> adds_loc V (ctxA c m)"
  unfolding ctxA_matchA by (rule adds_loc_match) auto

lemma adds_loc_when [adds_intro]: "(b \<Longrightarrow> adds_loc V m) \<Longrightarrow> adds_loc V (whenA b m)"
  by (cases b) auto

lemma adds_loc_if [adds_intro]:
  "(b \<Longrightarrow> adds_loc V m) \<Longrightarrow> (\<not> b \<Longrightarrow> adds_loc V n) \<Longrightarrow> adds_loc V (if b then m else n)"
  by simp

lemma adds_loc_for [adds_intro]: "(\<And>x. x \<in> set xs \<Longrightarrow> adds_loc V (f x)) \<Longrightarrow> adds_loc V (forA xs f)"
  by (induction xs) (auto intro: adds_loc_bind)

lemma adds_scoped [adds_intro]:
  assumes "adds_loc V m" "\<And>l. adds V (dropf l)"
  shows "adds V (scoped l dropf m)"
proof (rule addsI)
  fix w
  obtain r l1 w1 where m: "m (l, w) = (r, l1, w1)" by (cases "m (l, w)")
  obtain r2 w2 where d: "dropf l1 w1 = (r2, w2)" by (cases "dropf l1 w1")
  from adds_locD [OF assms(1) m] addsD [OF assms(2) d] m d
  show "\<exists>evs. w_trace (snd (scoped l dropf m w)) = w_trace w @ evs \<and> list_all V evs"
    by (fastforce simp: scoped_def)
qed

lemma adds_option [adds_intro]: "adds V m \<Longrightarrow> (\<And>x. a = Some x \<Longrightarrow> adds V (f x)) \<Longrightarrow> adds V (case a of None \<Rightarrow> m | Some x \<Rightarrow> f x)"
  by (cases a) simp_all

lemma adds_case_prod [adds_intro]: "(\<And>x y. adds V (f x y)) \<Longrightarrow> adds V (case p of (x, y) \<Rightarrow> f x y)"
  by (cases p) simp

lemma adds_result [adds_intro]:
  "(\<And>x. adds V (f x)) \<Longrightarrow> (\<And>e. adds V (g e)) \<Longrightarrow> adds V (case r of Ok x \<Rightarrow> f x | Err e \<Rightarrow> g e)"
  by (cases r) simp_all

section \<open>Actions that only print\<close>

named_theorems quiet_intro \<open>rules for actions that only print\<close>

text \<open>The action adds only printed lines and leaves the rest of the world alone. Its rules are those
  of \<open>adds\<close>.\<close>

definition quiet :: "('w world, 'e, 'a) action \<Rightarrow> bool" where
  "quiet m \<longleftrightarrow> adds printed m \<and> (\<forall>w. w_ext (snd (m w)) = w_ext w)"

definition quiet_loc :: "('l \<times> 'w world, 'e, 'a) action \<Rightarrow> bool" where
  "quiet_loc m \<longleftrightarrow> adds_loc printed m \<and> (\<forall>l w. w_ext (snd (snd (m (l, w)))) = w_ext w)"

lemma quiet_pure [quiet_intro, simp]: "quiet (retA a)" "quiet (failA e)" "quiet (liftA r)"
  by (simp_all add: quiet_def)

lemma quiet_emit [quiet_intro]: "printed ev \<Longrightarrow> quiet (emit ev)"
  by (simp add: quiet_def adds_emit) (simp add: emit_def)

lemma quiet_match [quiet_intro]: "quiet m \<Longrightarrow> (\<And>r. quiet (f r)) \<Longrightarrow> quiet (matchA m f)"
  unfolding quiet_def by (auto intro!: adds_match) (auto simp: matchA_def split: prod.splits, metis snd_conv)

lemma quiet_bind [quiet_intro]: "quiet m \<Longrightarrow> (\<And>a. quiet (f a)) \<Longrightarrow> quiet (bindA m f)"
  unfolding bindA_matchA by (rule quiet_match) (auto split: result.splits)

lemma quiet_ctx [quiet_intro]: "quiet m \<Longrightarrow> quiet (ctxA c m)"
  unfolding ctxA_matchA by (rule quiet_match) auto

lemma quiet_when [quiet_intro]: "(b \<Longrightarrow> quiet m) \<Longrightarrow> quiet (whenA b m)"
  by (cases b) auto

lemma quiet_if [quiet_intro]: "(b \<Longrightarrow> quiet m) \<Longrightarrow> (\<not> b \<Longrightarrow> quiet n) \<Longrightarrow> quiet (if b then m else n)"
  by simp

lemma quiet_for [quiet_intro]: "(\<And>x. x \<in> set xs \<Longrightarrow> quiet (f x)) \<Longrightarrow> quiet (forA xs f)"
  by (induction xs) (auto intro: quiet_bind)

lemma quiet_loc_pure [quiet_intro, simp]: "quiet_loc (retA a)" "quiet_loc (failA e)" "quiet_loc (liftA r)"
  by (simp_all add: quiet_loc_def)

lemma quiet_loc_upd [quiet_intro]: "quiet_loc (upd f)"
  by (simp add: quiet_loc_def adds_loc_upd) (simp add: upd_def)

lemma quiet_loc_locals [quiet_intro]: "quiet_loc locals"
  by (simp add: quiet_loc_def adds_loc_locals) (simp add: locals_def)

lemma quiet_loc_on_world [quiet_intro]: "quiet m \<Longrightarrow> quiet_loc (on_world m)"
  unfolding quiet_def quiet_loc_def
  by (auto intro!: adds_loc_on_world) (auto simp: on_world_def split: prod.splits, metis snd_conv)

lemma quiet_loc_match [quiet_intro]: "quiet_loc m \<Longrightarrow> (\<And>r. quiet_loc (f r)) \<Longrightarrow> quiet_loc (matchA m f)"
  unfolding quiet_loc_def by (auto intro!: adds_loc_match) (auto simp: matchA_def split: prod.splits, metis snd_conv)

lemma quiet_loc_bind [quiet_intro]: "quiet_loc m \<Longrightarrow> (\<And>a. quiet_loc (f a)) \<Longrightarrow> quiet_loc (bindA m f)"
  unfolding bindA_matchA by (rule quiet_loc_match) (auto split: result.splits)

lemma quiet_loc_ctx [quiet_intro]: "quiet_loc m \<Longrightarrow> quiet_loc (ctxA c m)"
  unfolding ctxA_matchA by (rule quiet_loc_match) auto

lemma quiet_loc_when [quiet_intro]: "(b \<Longrightarrow> quiet_loc m) \<Longrightarrow> quiet_loc (whenA b m)"
  by (cases b) auto

lemma quiet_loc_if [quiet_intro]:
  "(b \<Longrightarrow> quiet_loc m) \<Longrightarrow> (\<not> b \<Longrightarrow> quiet_loc n) \<Longrightarrow> quiet_loc (if b then m else n)"
  by simp

lemma quiet_loc_for [quiet_intro]: "(\<And>x. x \<in> set xs \<Longrightarrow> quiet_loc (f x)) \<Longrightarrow> quiet_loc (forA xs f)"
  by (induction xs) (auto intro: quiet_loc_bind)

lemma quiet_scoped [quiet_intro]: "quiet_loc m \<Longrightarrow> (\<And>l. quiet (dropf l)) \<Longrightarrow> quiet (scoped l dropf m)"
  unfolding quiet_def quiet_loc_def
  by (auto intro!: adds_scoped) (auto simp: scoped_def split: prod.splits, metis snd_conv)

lemma quiet_option [quiet_intro]: "quiet m \<Longrightarrow> (\<And>x. quiet (f x)) \<Longrightarrow> quiet (case a of None \<Rightarrow> m | Some x \<Rightarrow> f x)"
  by (cases a) simp_all

lemma quiet_case_prod [quiet_intro]: "(\<And>x y. quiet (f x y)) \<Longrightarrow> quiet (case p of (x, y) \<Rightarrow> f x y)"
  by (cases p) simp

section \<open>Actions that do not fail\<close>

definition succeeds :: "('s, 'e, 'a) action \<Rightarrow> bool" where
  "succeeds m \<longleftrightarrow> (\<forall>s. is_ok (fst (m s)))"

lemma succeedsD: "succeeds m \<Longrightarrow> \<exists>a s'. m s = (Ok a, s')"
  unfolding succeeds_def by (metis is_ok_iff prod.collapse)

lemma succeeds_ret: "succeeds (retA a)"
  by (simp add: succeeds_def)

lemma succeeds_bind: "succeeds m \<Longrightarrow> (\<And>a. succeeds (f a)) \<Longrightarrow> succeeds (bindA m f)"
  unfolding succeeds_def bindA_def by (auto split: prod.splits result.splits) (metis fst_conv is_ok.simps(2))

lemma succeeds_match: "(\<And>r. succeeds (f r)) \<Longrightarrow> succeeds (matchA m f)"
  unfolding succeeds_def matchA_def by (auto split: prod.splits)

lemma succeeds_match_ok: "succeeds m \<Longrightarrow> (\<And>a. succeeds (f (Ok a))) \<Longrightarrow> succeeds (matchA m f)"
  unfolding succeeds_def matchA_def by (auto split: prod.splits) (metis fst_conv is_ok_iff)

lemma succeeds_upd: "succeeds (upd f)"
  by (auto simp: succeeds_def upd_def)

lemma succeeds_ctx: "succeeds m \<Longrightarrow> succeeds (ctxA c m)"
  unfolding succeeds_def ctxA_def by (simp add: is_ok_iff split_beta)

lemma succeeds_when: "(b \<Longrightarrow> succeeds m) \<Longrightarrow> succeeds (whenA b m)"
  by (cases b) (simp_all add: succeeds_ret)

lemma succeeds_for: "(\<And>x. x \<in> set xs \<Longrightarrow> succeeds (f x)) \<Longrightarrow> succeeds (forA xs f)"
proof (induction xs)
  case Nil
  show ?case unfolding forA.simps by (rule succeeds_ret)
next
  case (Cons x xs)
  then show ?case unfolding forA.simps by (intro succeeds_bind) auto
qed

lemma succeeds_emit: "succeeds (emit e)"
  by (simp add: succeeds_def emit_def)

lemma succeeds_bind_value:
  assumes "\<And>s. fst (m s) = Ok v" "succeeds (f v)"
  shows "succeeds (bindA m f)"
  unfolding succeeds_def
proof
  fix s
  from assms(1) [of s] have "m s = (Ok v, snd (m s))" by (simp add: prod_eq_iff)
  then have "bindA m f s = f v (snd (m s))" by (rule bindA_apply)
  with assms(2) show "is_ok (fst (bindA m f s))" by (simp add: succeeds_def)
qed

end
