(* ===== verification/Shell.thy ===== *)
theory Shell
  imports Prelude
begin

text \<open>
  How a POSIX shell splits the command lines the program builds, and the program's three quoting
  functions. \<open>sh_words\<close> reads a simple command made of blanks, unquoted characters without a
  special meaning, backslash escapes and single quotes; anything else that is unquoted (an
  operator, an expansion, a comment sign, a glob, a line feed) is outside the fragment and gives
  \<open>None\<close>. So \<open>sh_words cmd = Some argv\<close> says that the shell runs exactly one command, with
  exactly these arguments.

  The interface \<open>shell_quoter\<close> is what the command builders rely on: the quoted form of a
  string is read back as that string, wherever it stands in a word. Its two interpretations are
  \<open>shell_quote\<close> (hbird-virt) and \<open>shell_single_quote\<close> (hbird-cli).
\<close>

section \<open>Reading a command line\<close>

abbreviation SQ :: char where "SQ \<equiv> CHR 0x27"
abbreviation BSL :: char where "BSL \<equiv> CHR 0x5C"

definition sh_plain :: "char \<Rightarrow> bool" where
  "sh_plain c \<longleftrightarrow> is_ascii_alphanumeric c \<or> c \<in> set ''-_./:,=+@%''"

definition sh_blank :: "char \<Rightarrow> bool" where
  "sh_blank c \<longleftrightarrow> c = CHR '' '' \<or> c = CHR 0x09"

definition sh_cur :: "string option \<Rightarrow> string" where
  "sh_cur cur = (case cur of Some w \<Rightarrow> w | None \<Rightarrow> [])"

text \<open>\<open>cur\<close> is the word being read, reversed; \<open>None\<close> between two words.\<close>

fun sh_lex :: "string option \<Rightarrow> string \<Rightarrow> string list option"
and sh_quoted :: "string \<Rightarrow> string \<Rightarrow> string list option" where
  "sh_lex cur [] = Some (case cur of Some w \<Rightarrow> [rev w] | None \<Rightarrow> [])"
| "sh_lex cur (c # cs) =
     (if sh_blank c then
        (case cur of Some w \<Rightarrow> map_option (Cons (rev w)) (sh_lex None cs) | None \<Rightarrow> sh_lex None cs)
      else if c = SQ then sh_quoted (sh_cur cur) cs
      else if c = BSL then
        (case cs of [] \<Rightarrow> None | d # ds \<Rightarrow> if d = NL then None else sh_lex (Some (d # sh_cur cur)) ds)
      else if sh_plain c then sh_lex (Some (c # sh_cur cur)) cs
      else None)"
| "sh_quoted w [] = None"
| "sh_quoted w (c # cs) = (if c = SQ then sh_lex (Some w) cs else sh_quoted (c # w) cs)"

definition sh_words :: "string \<Rightarrow> string list option" where
  "sh_words s = sh_lex None s"

text \<open>A piece of text is read as \<open>w\<close>: wherever it occurs, it continues the current word
  with \<open>w\<close>.\<close>

definition reads_as :: "string \<Rightarrow> string \<Rightarrow> bool" where
  "reads_as src w \<longleftrightarrow> (\<forall>cur t. sh_lex cur (src @ t) = sh_lex (Some (rev w @ sh_cur cur)) t)"

lemma sh_cur_simps [simp]: "sh_cur None = []" "sh_cur (Some w) = w"
  by (simp_all add: sh_cur_def)

lemma sh_plain_not_special: "sh_plain c \<Longrightarrow> \<not> sh_blank c \<and> c \<noteq> SQ \<and> c \<noteq> BSL"
  by (auto simp: sh_plain_def sh_blank_def char_class_defs)

lemma reads_as_lex: "reads_as src w \<Longrightarrow> sh_lex cur (src @ t) = sh_lex (Some (rev w @ sh_cur cur)) t"
  by (simp add: reads_as_def)

lemma reads_as_lex_end: "reads_as src w \<Longrightarrow> sh_lex cur src = Some [rev (sh_cur cur) @ w]"
  using reads_as_lex [of src w cur "[]"] by simp

lemma reads_as_append: "reads_as a v \<Longrightarrow> reads_as b w \<Longrightarrow> reads_as (a @ b) (v @ w)"
  by (simp add: reads_as_def)

lemma reads_as_plain:
  assumes "s \<noteq> []" "list_all sh_plain s"
  shows "reads_as s s"
proof -
  have step: "sh_lex (Some w) (s @ t) = sh_lex (Some (rev s @ w)) t" if "list_all sh_plain s" for s w t
    using that
  proof (induction s arbitrary: w)
    case (Cons c s)
    with sh_plain_not_special [of c] show ?case by simp
  qed simp
  from assms obtain c cs where s: "s = c # cs" "sh_plain c" "list_all sh_plain cs"
    by (cases s) auto
  with sh_plain_not_special [of c] step [of cs] show ?thesis by (simp add: reads_as_def)
qed

section \<open>The quoting functions\<close>

fun sq_body :: "string \<Rightarrow> string" where
  "sq_body [] = []"
| "sq_body (c # cs) = (if c = SQ then [SQ, BSL, SQ, SQ] @ sq_body cs else c # sq_body cs)"

text \<open>\<open>cp_resolve.rs\<close>: always quotes.\<close>

definition shell_single_quote :: "string \<Rightarrow> string" where
  "shell_single_quote s = [SQ] @ sq_body s @ [SQ]"

text \<open>\<open>hbird-virt/src/lib.rs\<close>: leaves letters, digits, \<open>-\<close>, \<open>_\<close> and \<open>.\<close> as they are.\<close>

definition shell_quote :: "string \<Rightarrow> string" where
  "shell_quote s =
     (if s = [] then [SQ, SQ]
      else if list_all (\<lambda>b. is_ascii_alphanumeric b \<or> b = CHR ''-'' \<or> b = CHR ''_'' \<or> b = CHR ''.'') s then s
      else [SQ] @ sq_body s @ [SQ])"

lemma sh_quoted_body: "sh_quoted w (sq_body s @ SQ # t) = sh_lex (Some (rev s @ w)) t"
proof (induction s arbitrary: w)
  case (Cons c s)
  then show ?case by (cases "c = SQ") (simp_all add: sh_blank_def)
qed simp

lemma reads_as_single_quote: "reads_as ([SQ] @ sq_body s @ [SQ]) s"
  by (simp add: reads_as_def sh_quoted_body sh_blank_def)

lemma reads_as_shell_quote: "reads_as (shell_quote s) s"
proof (cases "s = [] \<or> \<not> list_all (\<lambda>b. is_ascii_alphanumeric b \<or> b = CHR ''-'' \<or> b = CHR ''_'' \<or> b = CHR ''.'') s")
  case True
  then show ?thesis using reads_as_single_quote [of s] by (auto simp: shell_quote_def)
next
  case False
  then have "list_all sh_plain s" by (auto simp: list_all_iff sh_plain_def)
  with False show ?thesis by (simp add: shell_quote_def reads_as_plain)
qed

section \<open>What the command builders rely on\<close>

locale shell_quoter =
  fixes quote :: "string \<Rightarrow> string"
  assumes reads_quote: "reads_as (quote s) s"
begin

lemma lex_quote: "sh_lex cur (quote s @ t) = sh_lex (Some (rev s @ sh_cur cur)) t"
  by (rule reads_as_lex [OF reads_quote])

lemma lex_quote_end: "sh_lex cur (quote s) = Some [rev (sh_cur cur) @ s]"
  by (rule reads_as_lex_end [OF reads_quote])

lemma quote_single_word: "sh_words (quote s) = Some [s]"
  by (simp add: sh_words_def lex_quote_end)

lemma quote_inject: "quote s = quote s' \<longleftrightarrow> s = s'"
  using quote_single_word by (metis list.inject option.inject)

text \<open>Quoted arguments behind a command word that needs no quoting.\<close>

lemma lex_quoted_args:
  "sh_lex (Some w) (concat (map (\<lambda>a. CHR '' '' # quote a) args)) = Some (rev w # args)"
proof (induction args arbitrary: w)
  case (Cons a args)
  then show ?case by (simp add: sh_blank_def lex_quote)
qed simp

lemma command_args:
  assumes "cmd \<noteq> []" "list_all sh_plain cmd"
  shows "sh_words (cmd @ concat (map (\<lambda>a. CHR '' '' # quote a) args)) = Some (cmd # args)"
  using reads_as_lex [OF reads_as_plain [OF assms], of None]
  by (simp add: sh_words_def lex_quoted_args)

end

interpretation vq: shell_quoter shell_quote
  by unfold_locales (rule reads_as_shell_quote)

interpretation sq: shell_quoter shell_single_quote
  by unfold_locales (simp only: shell_single_quote_def reads_as_single_quote)

lemmas sh_lex_simps = sh_words_def vq.lex_quote vq.lex_quote_end sq.lex_quote sq.lex_quote_end

lemma reads_as_show_nat: "reads_as (show_nat n) (show_nat n)"
  by (rule reads_as_plain)
    (auto simp: list_all_iff sh_plain_def dest!: show_nat_set ascii_digit_alphanumeric)

end
