(* ===== verification/Virt_Conn.thy ===== *)
theory Virt_Conn
  imports Virt_Uri Shell Action
begin

text \<open>
  The libvirt connection of \<open>hbird-virt/src/lib.rs\<close>: every verb as the shell command it sends
  and the parsing of what comes back, the \<open>rm -rf\<close> guard, the poll helper \<open>poll.rs\<close>, the
  two transports behind the \<open>SshClient\<close> trait (\<open>LocalClient\<close> and the CLI's bridge onto
  \<open>hbird_ssh\<close>) and the lookup of a control plane's address (\<open>cp_resolve.rs\<close>).

  The trait object is a field of the connection: any action that takes a host and a command.
  The tracing events are left out.
\<close>

section \<open>Errors and the connection\<close>

datatype virt_ssh_error =
    Transport string string
  | RemoteExit string string "nat option" string

text \<open>The variants of \<open>hbird_virt::Error\<close> that a connection can give; the two about URIs are
  \<open>uri_error\<close>.\<close>

datatype virt_error =
    VSsh virt_ssh_error
  | VirshFailed string string
  | UnparseableOutput string string

record 's connection =
  conn_uri :: qemu_ssh_uri
  conn_ssh :: "string \<Rightarrow> string \<Rightarrow> ('s, virt_ssh_error, string) action"

fun virt_ssh_error_display :: "virt_ssh_error \<Rightarrow> string" where
  "virt_ssh_error_display (Transport host message) =
     ''SSH transport failure for '' @ host @ '': '' @ message"
| "virt_ssh_error_display (RemoteExit host command code err) =
     ''remote command on '' @ host @ '' exited ''
     @ (case code of Some c \<Rightarrow> show_nat c | None \<Rightarrow> ''signalled'')
     @ '': '' @ debug_str command @ [NL] @ ''--- stderr ---'' @ [NL] @ err"

fun virt_error_display :: "virt_error \<Rightarrow> string" where
  "virt_error_display (VSsh src) = ''SSH transport error: '' @ virt_ssh_error_display src"
| "virt_error_display (VirshFailed command err) =
     ''remote command failed: '' @ debug_str command @ '': '' @ err"
| "virt_error_display (UnparseableOutput command reason) =
     ''could not parse virsh output for '' @ debug_str command @ '': '' @ reason"

fun from_virt :: "virt_error \<Rightarrow> anyhow" where
  "from_virt (VSsh src) = [virt_error_display (VSsh src), virt_ssh_error_display src]"
| "from_virt e = [virt_error_display e]"

definition conn_run :: "'s connection \<Rightarrow> string \<Rightarrow> ('s, virt_error, string) action" where
  "conn_run conn command =
     matchA (conn_ssh conn (ssh_target (conn_uri conn)) command) (\<lambda>r.
       case r of
         Ok out \<Rightarrow> retA out
       | Err (RemoteExit host cmd code err) \<Rightarrow> failA (VirshFailed command err)
       | Err other \<Rightarrow> failA (VSsh other))"

definition run_unit :: "'s connection \<Rightarrow> string \<Rightarrow> ('s, virt_error, unit) action" where
  "run_unit conn command = bindA (conn_run conn command) (\<lambda>_. retA ())"

section \<open>The commands\<close>

definition cmd_virsh :: "qemu_ssh_uri \<Rightarrow> string" where
  "cmd_virsh uri = ''virsh -c '' @ remote_uri uri"

definition cmd_domains :: "qemu_ssh_uri \<Rightarrow> string" where
  "cmd_domains uri = cmd_virsh uri @ '' list --all --name''"

definition cmd_running_domains :: "qemu_ssh_uri \<Rightarrow> string" where
  "cmd_running_domains uri = cmd_virsh uri @ '' list --name''"

definition cmd_domifaddr :: "qemu_ssh_uri \<Rightarrow> string \<Rightarrow> string" where
  "cmd_domifaddr uri domain = cmd_virsh uri @ '' domifaddr '' @ shell_quote domain"

definition cmd_dominfo :: "qemu_ssh_uri \<Rightarrow> string \<Rightarrow> string" where
  "cmd_dominfo uri domain = cmd_virsh uri @ '' dominfo '' @ shell_quote domain"

definition cmd_destroy :: "qemu_ssh_uri \<Rightarrow> string \<Rightarrow> string" where
  "cmd_destroy uri domain = cmd_virsh uri @ '' destroy '' @ shell_quote domain"

definition cmd_undefine :: "qemu_ssh_uri \<Rightarrow> string \<Rightarrow> string" where
  "cmd_undefine uri domain = cmd_virsh uri @ '' undefine --nvram '' @ shell_quote domain"

definition cmd_undefine_storage :: "qemu_ssh_uri \<Rightarrow> string \<Rightarrow> string" where
  "cmd_undefine_storage uri domain =
     cmd_virsh uri @ '' undefine '' @ shell_quote domain @ '' --remove-all-storage --nvram''"

definition cmd_ls :: "string \<Rightarrow> string" where
  "cmd_ls dir = ''ls -1 -- '' @ shell_quote dir"

definition cmd_rm_f :: "string \<Rightarrow> string" where
  "cmd_rm_f path = ''rm -f -- '' @ shell_quote path"

definition cmd_rm_rf :: "string \<Rightarrow> string" where
  "cmd_rm_rf path = ''rm -rf -- '' @ shell_quote path"

definition cmd_test_e :: "string \<Rightarrow> string" where
  "cmd_test_e path = ''test -e '' @ shell_quote path"

definition cmd_start :: "qemu_ssh_uri \<Rightarrow> string \<Rightarrow> string" where
  "cmd_start uri domain = cmd_virsh uri @ '' start '' @ shell_quote domain"

definition cmd_pool_refresh :: "qemu_ssh_uri \<Rightarrow> string \<Rightarrow> string" where
  "cmd_pool_refresh uri pool = cmd_virsh uri @ '' pool-refresh '' @ shell_quote pool"

definition cmd_cp_reflink :: "string \<Rightarrow> string \<Rightarrow> string" where
  "cmd_cp_reflink src dst = ''cp --reflink=auto '' @ shell_quote src @ '' '' @ shell_quote dst"

record extra_nic =
  nic_network :: string
  nic_mac :: string

record vm_spec =
  vm_name :: string
  vm_memory_mib :: nat
  vm_vcpus :: nat
  vm_disk_path :: string
  vm_cdrom :: "string option"
  vm_primary_mac :: "string option"
  vm_extra_nic :: "extra_nic option"

definition cmd_virt_install :: "qemu_ssh_uri \<Rightarrow> vm_spec \<Rightarrow> string" where
  "cmd_virt_install uri spec =
     ''virt-install --connect '' @ remote_uri uri @ '' --name '' @ shell_quote (vm_name spec)
     @ '' --memory '' @ show_nat (vm_memory_mib spec) @ '' --vcpus '' @ show_nat (vm_vcpus spec)
     @ '' --disk '' @ shell_quote (vm_disk_path spec) @ '',format=qcow2,bus=virtio''
     @ (case vm_cdrom spec of
          Some cdrom_path \<Rightarrow> '' --disk path='' @ shell_quote cdrom_path @ '',device=cdrom,readonly=on''
        | None \<Rightarrow> [])
     @ '' --import --os-variant fedora-unknown --network network=default,model=virtio''
     @ (case vm_primary_mac spec of Some mac \<Rightarrow> '',mac='' @ mac | None \<Rightarrow> [])
     @ (case vm_extra_nic spec of
          Some extra \<Rightarrow> '' --network network='' @ shell_quote (nic_network extra) @ '',mac='' @ nic_mac extra
        | None \<Rightarrow> [])
     @ '' --graphics vnc,listen=127.0.0.1 --noautoconsole''"

definition cmd_net_dumpxml :: "qemu_ssh_uri \<Rightarrow> string \<Rightarrow> string" where
  "cmd_net_dumpxml uri network = cmd_virsh uri @ '' net-dumpxml '' @ shell_quote network"

definition cmd_net_info :: "qemu_ssh_uri \<Rightarrow> string \<Rightarrow> string" where
  "cmd_net_info uri network = cmd_virsh uri @ '' net-info '' @ shell_quote network"

definition dhcp_host_xml :: "string \<Rightarrow> string \<Rightarrow> string \<Rightarrow> string" where
  "dhcp_host_xml mac name ip =
     ''<host mac='' @ [SQ] @ mac @ [SQ] @ '' name='' @ [SQ] @ name @ [SQ] @ '' ip='' @ [SQ] @ ip @ [SQ] @ ''/>''"

definition cmd_net_update_add :: "qemu_ssh_uri \<Rightarrow> string \<Rightarrow> string \<Rightarrow> string \<Rightarrow> string \<Rightarrow> string" where
  "cmd_net_update_add uri network mac name ip =
     cmd_virsh uri @ '' net-update '' @ shell_quote network @ '' add ip-dhcp-host ''
     @ shell_quote (dhcp_host_xml mac name ip) @ '' --live --config''"

definition cmd_net_update_delete :: "qemu_ssh_uri \<Rightarrow> string \<Rightarrow> string \<Rightarrow> string" where
  "cmd_net_update_delete uri network host_xml =
     cmd_virsh uri @ '' net-update '' @ shell_quote network @ '' delete ip-dhcp-host ''
     @ shell_quote host_xml @ '' --live --config''"

section \<open>Parsing what virsh prints\<close>

record domain = dom_name :: string

record domain_info =
  di_name :: string
  di_state :: string
  di_persistent :: bool
  di_os_type :: string

definition nonempty_trimmed_lines :: "string \<Rightarrow> string list" where
  "nonempty_trimmed_lines out = filter (\<lambda>s. s \<noteq> []) (map trim (lines out))"

definition parse_domain_list :: "string \<Rightarrow> domain list" where
  "parse_domain_list out = map (\<lambda>s. \<lparr>dom_name = s\<rparr>) (nonempty_trimmed_lines out)"

text \<open>\<open>Ipv4Addr::from_str\<close>: four decimal octets, no leading zero.\<close>

type_synonym ipv4 = "nat \<times> nat \<times> nat \<times> nat"

definition parse_octet :: "string \<Rightarrow> nat option" where
  "parse_octet s =
     (if s = [] \<or> \<not> list_all is_ascii_digit s \<or> length s > 3 \<or> (length s > 1 \<and> hd s = CHR ''0'') then None
      else if digits_val s \<le> 255 then Some (digits_val s) else None)"

definition parse_ipv4 :: "string \<Rightarrow> ipv4 option" where
  "parse_ipv4 s =
     (case map parse_octet (split_on (CHR ''.'') s) of
        [Some a, Some b, Some c, Some d] \<Rightarrow> Some (a, b, c, d)
      | _ \<Rightarrow> None)"

fun ipv4_display :: "ipv4 \<Rightarrow> string" where
  "ipv4_display (a, b, c, d) =
     show_nat a @ ''.'' @ show_nat b @ ''.'' @ show_nat c @ ''.'' @ show_nat d"

definition nth_field :: "nat \<Rightarrow> string \<Rightarrow> string option" where
  "nth_field n s = (let ws = split_whitespace s in if n < length ws then Some (ws ! n) else None)"

fun domifaddr_rows :: "string list \<Rightarrow> string \<Rightarrow> (virt_error, ipv4 option) result" where
  "domifaddr_rows [] command = Ok None"
| "domifaddr_rows (line # rest) command =
     (if \<not> contains ''ipv4'' (to_ascii_lowercase line) then domifaddr_rows rest command
      else
        (case nth_field 3 line of
           None \<Rightarrow> Err (UnparseableOutput command ''ipv4 row had fewer than 4 whitespace-separated fields'')
         | Some cidr \<Rightarrow>
             (case parse_ipv4 (hd (split_on (CHR ''/'') cidr)) of
                None \<Rightarrow> Err (UnparseableOutput command
                          (''ipv4 row'' @ [SQ] @ ''s address field did not parse as IPv4''))
              | Some parsed \<Rightarrow> Ok (Some parsed))))"

definition parse_domifaddr :: "string \<Rightarrow> string \<Rightarrow> (virt_error, ipv4 option) result" where
  "parse_domifaddr out command = domifaddr_rows (lines out) command"

record dominfo_acc =
  da_name :: "string option"
  da_state :: "string option"
  da_persistent :: "bool option"
  da_os_type :: "string option"

definition dominfo_row :: "string \<Rightarrow> dominfo_acc \<Rightarrow> dominfo_acc" where
  "dominfo_row line acc =
     (case split_once (CHR '':'') line of
        None \<Rightarrow> acc
      | Some (k, v) \<Rightarrow>
          (let key = trim k; val = trim v in
           if key = ''Name'' then acc\<lparr>da_name := Some val\<rparr>
           else if key = ''State'' then acc\<lparr>da_state := Some (to_ascii_lowercase val)\<rparr>
           else if key = ''Persistent'' then acc\<lparr>da_persistent := Some (to_ascii_lowercase val = ''yes'')\<rparr>
           else if key = ''OS Type'' then acc\<lparr>da_os_type := Some val\<rparr>
           else acc))"

definition missing_row :: "string \<Rightarrow> string" where
  "missing_row k = ''dominfo output missing '' @ [SQ] @ k @ '':'' @ [SQ] @ '' row''"

definition parse_dominfo :: "string \<Rightarrow> string \<Rightarrow> (virt_error, domain_info) result" where
  "parse_dominfo out command =
     (let acc = fold dominfo_row (lines out)
                  \<lparr>da_name = None, da_state = None, da_persistent = None, da_os_type = None\<rparr> in
      bind_r (ok_or (UnparseableOutput command (missing_row ''Name'')) (da_name acc)) (\<lambda>name.
      bind_r (ok_or (UnparseableOutput command (missing_row ''State'')) (da_state acc)) (\<lambda>state.
      bind_r (ok_or (UnparseableOutput command (missing_row ''Persistent'')) (da_persistent acc)) (\<lambda>persistent.
      bind_r (ok_or (UnparseableOutput command (missing_row ''OS Type'')) (da_os_type acc)) (\<lambda>os_type.
      Ok \<lparr>di_name = name, di_state = state, di_persistent = persistent, di_os_type = os_type\<rparr>)))))"

definition find_ip_dhcp_host_by_name :: "string \<Rightarrow> string \<Rightarrow> string option" where
  "find_ip_dhcp_host_by_name net_xml name =
     find (\<lambda>l. starts_with ''<host '' l \<and> contains (''name='' @ [SQ] @ name @ [SQ]) l)
       (map trim (lines net_xml))"

section \<open>The verbs\<close>

definition domains :: "'s connection \<Rightarrow> ('s, virt_error, domain list) action" where
  "domains conn = bindA (conn_run conn (cmd_domains (conn_uri conn))) (\<lambda>out. retA (parse_domain_list out))"

definition running_domains :: "'s connection \<Rightarrow> ('s, virt_error, domain list) action" where
  "running_domains conn =
     bindA (conn_run conn (cmd_running_domains (conn_uri conn))) (\<lambda>out. retA (parse_domain_list out))"

definition domifaddr :: "'s connection \<Rightarrow> string \<Rightarrow> ('s, virt_error, ipv4 option) action" where
  "domifaddr conn vm =
     (let cmd = cmd_domifaddr (conn_uri conn) vm in
      bindA (conn_run conn cmd) (\<lambda>out. liftA (parse_domifaddr out cmd)))"

definition dominfo :: "'s connection \<Rightarrow> string \<Rightarrow> ('s, virt_error, domain_info) action" where
  "dominfo conn vm =
     (let cmd = cmd_dominfo (conn_uri conn) vm in
      bindA (conn_run conn cmd) (\<lambda>out. liftA (parse_dominfo out cmd)))"

definition destroy_domain :: "'s connection \<Rightarrow> string \<Rightarrow> ('s, virt_error, unit) action" where
  "destroy_domain conn vm = run_unit conn (cmd_destroy (conn_uri conn) vm)"

definition undefine_domain :: "'s connection \<Rightarrow> string \<Rightarrow> ('s, virt_error, unit) action" where
  "undefine_domain conn vm = run_unit conn (cmd_undefine (conn_uri conn) vm)"

definition undefine_domain_remove_all_storage :: "'s connection \<Rightarrow> string \<Rightarrow> ('s, virt_error, unit) action" where
  "undefine_domain_remove_all_storage conn vm = run_unit conn (cmd_undefine_storage (conn_uri conn) vm)"

definition remote_ls :: "'s connection \<Rightarrow> string \<Rightarrow> ('s, virt_error, string list) action" where
  "remote_ls conn dir = bindA (conn_run conn (cmd_ls dir)) (\<lambda>out. retA (nonempty_trimmed_lines out))"

definition remote_rm_f :: "'s connection \<Rightarrow> string \<Rightarrow> ('s, virt_error, unit) action" where
  "remote_rm_f conn path = run_unit conn (cmd_rm_f path)"

definition banned_paths :: "string list" where
  "banned_paths = [''/'', ''/bin'', ''/boot'', ''/dev'', ''/etc'', ''/home'', ''/lib'', ''/lib64'', ''/proc'',
     ''/root'', ''/run'', ''/sbin'', ''/srv'', ''/sys'', ''/tmp'', ''/usr'', ''/var'']"

definition reject_destructive_path :: "string \<Rightarrow> (virt_error, unit) result" where
  "reject_destructive_path path =
     (let refuse = (\<lambda>msg. Err (VirshFailed ''remote_rm_rf'' msg));
          trimmed = trim_end_matches (CHR ''/'') path;
          to_check = (if trimmed = [] then ''/'' else trimmed) in
      if path = [] then
        refuse (''refusing empty path: rm -rf '' @ [SQ, SQ] @ '' would target cwd'')
      else if \<not> starts_with ''/'' path then
        refuse (''refusing non-absolute path: '' @ debug_str path @ '' (must start with /)'')
      else if list_ex (\<lambda>seg. seg = ''..'') (split_on (CHR ''/'') path) then
        refuse (''refusing path with `..` segment: '' @ debug_str path)
      else if to_check \<in> set banned_paths then
        refuse (''refusing destructive path: '' @ debug_str path @ '' is a top-level system ''
          @ ''directory; remote_rm_rf is only meant for cluster scratch dirs under POOL_DIR'')
      else Ok ())"

definition remote_rm_rf :: "'s connection \<Rightarrow> string \<Rightarrow> ('s, virt_error, unit) action" where
  "remote_rm_rf conn path =
     bindA (liftA (reject_destructive_path path)) (\<lambda>_. run_unit conn (cmd_rm_rf path))"

definition remote_path_exists :: "'s connection \<Rightarrow> string \<Rightarrow> ('s, virt_error, bool) action" where
  "remote_path_exists conn path =
     matchA (conn_ssh conn (ssh_target (conn_uri conn)) (cmd_test_e path)) (\<lambda>r.
       case r of
         Ok _ \<Rightarrow> retA True
       | Err (RemoteExit host cmd code err) \<Rightarrow>
           if code = Some 1 then retA False else failA (VSsh (RemoteExit host cmd code err))
       | Err other \<Rightarrow> failA (VSsh other))"

definition start_domain :: "'s connection \<Rightarrow> string \<Rightarrow> ('s, virt_error, unit) action" where
  "start_domain conn vm = run_unit conn (cmd_start (conn_uri conn) vm)"

definition virsh_pool_refresh :: "'s connection \<Rightarrow> string \<Rightarrow> ('s, virt_error, unit) action" where
  "virsh_pool_refresh conn pool = run_unit conn (cmd_pool_refresh (conn_uri conn) pool)"

definition remote_cp_reflink :: "'s connection \<Rightarrow> string \<Rightarrow> string \<Rightarrow> ('s, virt_error, unit) action" where
  "remote_cp_reflink conn src dst = run_unit conn (cmd_cp_reflink src dst)"

definition virt_install_vm :: "'s connection \<Rightarrow> vm_spec \<Rightarrow> ('s, virt_error, unit) action" where
  "virt_install_vm conn spec = run_unit conn (cmd_virt_install (conn_uri conn) spec)"

definition virt_install ::
  "'s connection \<Rightarrow> string \<Rightarrow> nat \<Rightarrow> nat \<Rightarrow> string \<Rightarrow> string option \<Rightarrow> ('s, virt_error, unit) action" where
  "virt_install conn name memory_mib vcpus disk_path cdrom =
     virt_install_vm conn \<lparr>vm_name = name, vm_memory_mib = memory_mib, vm_vcpus = vcpus,
       vm_disk_path = disk_path, vm_cdrom = cdrom, vm_primary_mac = None, vm_extra_nic = None\<rparr>"

definition net_dumpxml :: "'s connection \<Rightarrow> string \<Rightarrow> ('s, virt_error, string) action" where
  "net_dumpxml conn network = conn_run conn (cmd_net_dumpxml (conn_uri conn) network)"

definition net_info :: "'s connection \<Rightarrow> string \<Rightarrow> ('s, virt_error, string) action" where
  "net_info conn network = conn_run conn (cmd_net_info (conn_uri conn) network)"

definition net_update_add_ip_dhcp_host ::
  "'s connection \<Rightarrow> string \<Rightarrow> string \<Rightarrow> string \<Rightarrow> string \<Rightarrow> ('s, virt_error, unit) action" where
  "net_update_add_ip_dhcp_host conn network mac name ip =
     run_unit conn (cmd_net_update_add (conn_uri conn) network mac name ip)"

definition net_update_delete_ip_dhcp_host ::
  "'s connection \<Rightarrow> string \<Rightarrow> string \<Rightarrow> ('s, virt_error, unit) action" where
  "net_update_delete_ip_dhcp_host conn network host_xml =
     run_unit conn (cmd_net_update_delete (conn_uri conn) network host_xml)"

definition exec_shell :: "'s connection \<Rightarrow> string \<Rightarrow> ('s, virt_error, string) action" where
  "exec_shell conn cmd = conn_run conn cmd"

section \<open>The transports\<close>

definition local_client_run :: "'w env \<Rightarrow> string \<Rightarrow> string \<Rightarrow> ('w world, virt_ssh_error, string) action" where
  "local_client_run env host command =
     matchA (sh_run env command) (\<lambda>r.
       case r of
         Err e \<Rightarrow> failA (Transport ''local'' (''failed to spawn sh: '' @ io_error_display e))
       | Ok output \<Rightarrow>
           if exit_success (ro_status output) then retA (ro_stdout output)
           else failA (RemoteExit ''local'' command (exit_code (ro_status output)) (ro_stderr output)))"

definition bridge_run ::
  "'w env \<Rightarrow> ssh_options \<Rightarrow> string \<Rightarrow> string \<Rightarrow> ('w world, virt_ssh_error, string) action" where
  "bridge_run env opts host command =
     matchA (ssh_run env opts command) (\<lambda>r.
       case r of
         Ok out \<Rightarrow> retA (ro_stdout out)
       | Err (NonZeroExit h status out err) \<Rightarrow> failA (RemoteExit h command (exit_code status) err)
       | Err e \<Rightarrow> failA (Transport (so_host opts) (ssh_error_display e)))"

definition new_local :: "'w env \<Rightarrow> 'w world connection" where
  "new_local env =
     \<lparr>conn_uri = ok_val (uri_parse ''qemu+ssh://localhost/system''), conn_ssh = local_client_run env\<rparr>"

definition build_connection :: "'w env \<Rightarrow> string option \<Rightarrow> 'w world connection" where
  "build_connection env kvm_host =
     (case kvm_host of
        Some host \<Rightarrow>
          if host \<noteq> [] then
            \<lparr>conn_uri = \<lparr>uri_user = None, uri_host = host, uri_port = None, uri_instance = System, uri_query = None\<rparr>,
             conn_ssh = bridge_run env (ssh_options_new host)\<rparr>
          else new_local env
      | None \<Rightarrow> new_local env)"

section \<open>Polling, and the address of the control plane\<close>

fun retry :: "'w env \<Rightarrow> nat \<Rightarrow> nat \<Rightarrow> ('w world, 'e, bool) action \<Rightarrow> ('w world, 'e, bool) action" where
  "retry env 0 sleep_secs f = retA False"
| "retry env (Suc n) sleep_secs f =
     bindA f (\<lambda>ready.
       if ready then retA True
       else bindA (whenA (n > 0 \<and> sleep_secs > 0) (sleep env sleep_secs)) (\<lambda>_. retry env n sleep_secs f))"

definition first_ipv4_of_row :: "string \<Rightarrow> string option" where
  "first_ipv4_of_row line =
     (case nth_field 3 line of
        None \<Rightarrow> None
      | Some cidr \<Rightarrow> (let ip = hd (split_on (CHR ''/'') cidr) in if ip \<noteq> [] then Some ip else None))"

fun first_ipv4_rows :: "string list \<Rightarrow> string option" where
  "first_ipv4_rows [] = None"
| "first_ipv4_rows (line # rest) =
     (if \<not> contains ''ipv4'' line then first_ipv4_rows rest
      else (case first_ipv4_of_row line of Some ip \<Rightarrow> Some ip | None \<Rightarrow> first_ipv4_rows rest))"

definition parse_first_domifaddr_ipv4 :: "string \<Rightarrow> string option" where
  "parse_first_domifaddr_ipv4 raw = first_ipv4_rows (lines raw)"

definition resolve_cmd :: "string \<Rightarrow> string" where
  "resolve_cmd cp_name = ''virsh -c qemu:///system domifaddr '' @ shell_single_quote cp_name"

definition resolve_prefix :: "string \<Rightarrow> string \<Rightarrow> string" where
  "resolve_prefix kvm_host cp_name =
     ''Could not find '' @ cp_name @ '' IP via ssh '' @ kvm_host @ '' '' @ [SQ]
     @ ''virsh -c qemu:///system domifaddr '' @ cp_name @ [SQ]"

definition resolve_cp_ip_via_ssh :: "'w env \<Rightarrow> ssh_options \<Rightarrow> string \<Rightarrow> string \<Rightarrow> ('w, string) act" where
  "resolve_cp_ip_via_ssh env opts kvm_host cp_name =
     (let give_up = failA [resolve_prefix kvm_host cp_name
            @ ''. Common causes: operator not in libvirt group on '' @ kvm_host
            @ ''; virsh not installed there; domain not defined. ''
            @ ''See docs/deploy-cluster.md#running-without-sudo-libvirt-group-operator-305.''];
          parsed = (\<lambda>raw. case parse_first_domifaddr_ipv4 raw of Some ip \<Rightarrow> retA ip | None \<Rightarrow> give_up) in
      matchA (ssh_run env opts (resolve_cmd cp_name)) (\<lambda>r.
        case r of
          Ok out \<Rightarrow> parsed (ro_stdout out)
        | Err (NonZeroExit h status out err) \<Rightarrow> parsed out
        | Err e \<Rightarrow> failA [resolve_prefix kvm_host cp_name @ '': '' @ ssh_error_display e]))"

section \<open>Every argument reaches its command as one word\<close>

lemma sh_lex_blank [simp]:
  "sh_lex (Some w) (CHR '' '' # t) = map_option (Cons (rev w)) (sh_lex None t)"
  "sh_lex None (CHR '' '' # t) = sh_lex None t"
  by (simp_all add: sh_blank_def)

text \<open>A literal piece of a command line, up to the next blank or quoted piece.\<close>

lemma sh_lex_plain:
  "a \<noteq> [] \<Longrightarrow> list_all sh_plain a \<Longrightarrow> sh_lex cur (a @ t) = sh_lex (Some (rev a @ sh_cur cur)) t"
  by (rule reads_as_lex [OF reads_as_plain])

lemma sh_lex_plain_end:
  "a \<noteq> [] \<Longrightarrow> list_all sh_plain a \<Longrightarrow> sh_lex cur a = Some [rev (sh_cur cur) @ a]"
  by (rule reads_as_lex_end [OF reads_as_plain])

lemma sh_lex_step:
  "sh_plain c \<Longrightarrow> sh_lex cur (c # t) = sh_lex (Some (c # sh_cur cur)) t"
  using sh_lex_plain [of "[c]" cur t] by simp

lemma sh_plain_chars:
  "list_all sh_plain ''abcdefghijklmnopqrstuvwxyzABCDEFGHIJKLMNOPQRSTUVWXYZ0123456789-_./:,=+@%''"
  by (simp add: sh_plain_def char_class_defs)

lemmas sh_plain_char = sh_plain_chars [simplified list.pred_inject]

lemma remote_uri_plain [simp]: "remote_uri u \<noteq> []" "list_all sh_plain (remote_uri u)"
  by (cases "uri_instance u"; simp add: remote_uri_def sh_plain_char)+

lemmas argv_simps = sh_lex_simps cmd_virsh_def sh_lex_step sh_lex_plain sh_lex_plain_end sh_plain_char

lemma mac_plain_lex:
  "list_all sh_plain m \<Longrightarrow> sh_lex (Some w) (m @ t) = sh_lex (Some (rev m @ w)) t"
  by (cases "m = []") (simp_all add: sh_lex_plain)

lemma show_nat_lex: "sh_lex cur (show_nat n @ t) = sh_lex (Some (rev (show_nat n) @ sh_cur cur)) t"
  by (rule reads_as_lex [OF reads_as_show_nat])


definition opt_words :: "'a option \<Rightarrow> ('a \<Rightarrow> string list) \<Rightarrow> string list" where
  "opt_words x f = (case x of Some a \<Rightarrow> f a | None \<Rightarrow> [])"

lemma virt_install_tail:
  assumes "\<And>m. vm_primary_mac spec = Some m \<Longrightarrow> list_all sh_plain m"
    and "\<And>n. vm_extra_nic spec = Some n \<Longrightarrow> list_all sh_plain (nic_mac n)"
  shows "sh_lex (Some w) ('' --import --os-variant fedora-unknown --network network=default,model=virtio''
     @ (case vm_primary_mac spec of Some mac \<Rightarrow> '',mac='' @ mac | None \<Rightarrow> [])
     @ (case vm_extra_nic spec of
          Some extra \<Rightarrow> '' --network network='' @ shell_quote (nic_network extra) @ '',mac='' @ nic_mac extra
        | None \<Rightarrow> [])
     @ '' --graphics vnc,listen=127.0.0.1 --noautoconsole'') =
    Some ([rev w, ''--import'', ''--os-variant'', ''fedora-unknown'', ''--network'',
        ''network=default,model=virtio''
          @ (case vm_primary_mac spec of Some mac \<Rightarrow> '',mac='' @ mac | None \<Rightarrow> [])]
     @ opt_words (vm_extra_nic spec) (\<lambda>n. [''--network'', ''network='' @ nic_network n @ '',mac='' @ nic_mac n])
     @ [''--graphics'', ''vnc,listen=127.0.0.1'', ''--noautoconsole''])"
  using assms
  by (cases "vm_primary_mac spec"; cases "vm_extra_nic spec")
    (simp_all add: argv_simps mac_plain_lex opt_words_def del: sh_lex.simps(2))

text \<open>The domain-creation command: with MAC addresses that hold no shell character (the callers
  pass validated ones), name, disk, cdrom and network names of any content each stay inside
  their own argument.\<close>

theorem virt_install_argv:
  assumes "\<And>m. vm_primary_mac spec = Some m \<Longrightarrow> list_all sh_plain m"
    and "\<And>n. vm_extra_nic spec = Some n \<Longrightarrow> list_all sh_plain (nic_mac n)"
  shows "sh_words (cmd_virt_install uri spec) = Some (
     [''virt-install'', ''--connect'', remote_uri uri, ''--name'', vm_name spec,
      ''--memory'', show_nat (vm_memory_mib spec), ''--vcpus'', show_nat (vm_vcpus spec),
      ''--disk'', vm_disk_path spec @ '',format=qcow2,bus=virtio'']
     @ opt_words (vm_cdrom spec) (\<lambda>p. [''--disk'', ''path='' @ p @ '',device=cdrom,readonly=on''])
     @ [''--import'', ''--os-variant'', ''fedora-unknown'', ''--network'',
        ''network=default,model=virtio''
          @ (case vm_primary_mac spec of Some mac \<Rightarrow> '',mac='' @ mac | None \<Rightarrow> [])]
     @ opt_words (vm_extra_nic spec) (\<lambda>n. [''--network'', ''network='' @ nic_network n @ '',mac='' @ nic_mac n])
     @ [''--graphics'', ''vnc,listen=127.0.0.1'', ''--noautoconsole''])"
proof -
  define tl where "tl = '' --import --os-variant fedora-unknown --network network=default,model=virtio''
     @ (case vm_primary_mac spec of Some mac \<Rightarrow> '',mac='' @ mac | None \<Rightarrow> [])
     @ (case vm_extra_nic spec of
          Some extra \<Rightarrow> '' --network network='' @ shell_quote (nic_network extra) @ '',mac='' @ nic_mac extra
        | None \<Rightarrow> [])
     @ '' --graphics vnc,listen=127.0.0.1 --noautoconsole''"
  define ws where "ws = [''--import'', ''--os-variant'', ''fedora-unknown'', ''--network'',
        ''network=default,model=virtio''
          @ (case vm_primary_mac spec of Some mac \<Rightarrow> '',mac='' @ mac | None \<Rightarrow> [])]
     @ opt_words (vm_extra_nic spec) (\<lambda>n. [''--network'', ''network='' @ nic_network n @ '',mac='' @ nic_mac n])
     @ [''--graphics'', ''vnc,listen=127.0.0.1'', ''--noautoconsole'']"
  have tail: "sh_lex (Some w) tl = Some (rev w # ws)" for w
    unfolding tl_def ws_def using virt_install_tail [OF assms, of spec w] by simp
  have "sh_words (cmd_virt_install uri spec) = Some (
     [''virt-install'', ''--connect'', remote_uri uri, ''--name'', vm_name spec,
      ''--memory'', show_nat (vm_memory_mib spec), ''--vcpus'', show_nat (vm_vcpus spec),
      ''--disk'', vm_disk_path spec @ '',format=qcow2,bus=virtio'']
     @ opt_words (vm_cdrom spec) (\<lambda>p. [''--disk'', ''path='' @ p @ '',device=cdrom,readonly=on''])
     @ ws)"
    unfolding cmd_virt_install_def tl_def [symmetric]
    by (cases "vm_cdrom spec")
      (simp_all add: argv_simps show_nat_lex opt_words_def tail del: sh_lex.simps(2))
  then show ?thesis by (simp add: ws_def)
qed

theorem virt_install_argv_witness:
  "sh_words (cmd_virt_install \<lparr>uri_user = None, uri_host = ''h'', uri_port = None, uri_instance = System, uri_query = None\<rparr>
      \<lparr>vm_name = ''a b;c'', vm_memory_mib = 4096, vm_vcpus = 2, vm_disk_path = ''/p/d.qcow2'', vm_cdrom = None,
       vm_primary_mac = Some ''52:54:00:0a:0b:0c'', vm_extra_nic = None\<rparr>) =
   Some [''virt-install'', ''--connect'', ''qemu:///system'', ''--name'', ''a b;c'', ''--memory'', ''4096'',
     ''--vcpus'', ''2'', ''--disk'', ''/p/d.qcow2,format=qcow2,bus=virtio'', ''--import'', ''--os-variant'',
     ''fedora-unknown'', ''--network'', ''network=default,model=virtio,mac=52:54:00:0a:0b:0c'',
     ''--graphics'', ''vnc,listen=127.0.0.1'', ''--noautoconsole'']"
proof -
  let ?spec = "\<lparr>vm_name = ''a b;c'', vm_memory_mib = 4096, vm_vcpus = 2, vm_disk_path = ''/p/d.qcow2'', vm_cdrom = None,
       vm_primary_mac = Some ''52:54:00:0a:0b:0c'', vm_extra_nic = None\<rparr>"
  have "show_nat 4096 = ''4096''" "show_nat 2 = ''2''" by code_simp+
  then show ?thesis
    using virt_install_argv [of ?spec] by (simp add: sh_plain_char opt_words_def remote_uri_def)
qed

section \<open>The \<open>rm -rf\<close> guard\<close>

definition system_dirs :: "string list" where
  "system_dirs = [''bin'', ''boot'', ''dev'', ''etc'', ''home'', ''lib'', ''lib64'', ''proc'', ''root'', ''run'',
     ''sbin'', ''srv'', ''sys'', ''tmp'', ''usr'', ''var'']"

definition abs_path :: "string list \<Rightarrow> string" where
  "abs_path segs = concat (map (\<lambda>s. CHR ''/'' # s) segs)"

definition path_segments :: "string \<Rightarrow> string list" where
  "path_segments p = filter (\<lambda>s. s \<noteq> [] \<and> s \<noteq> ''.'') (split_on (CHR ''/'') p)"

lemma split_on_abs_path:
  assumes "CHR ''/'' \<notin> set a" "\<And>s. s \<in> set segs \<Longrightarrow> CHR ''/'' \<notin> set s"
  shows "split_on (CHR ''/'') (a @ abs_path segs @ replicate k (CHR ''/'')) = a # segs @ replicate k []"
  using assms
proof (induction segs arbitrary: a)
  case Nil
  then show ?case
    by (cases k) (auto simp: abs_path_def split_on_free split_on_append split_on_replicate)
next
  case (Cons s segs)
  then have "split_on (CHR ''/'') (s @ abs_path segs @ replicate k (CHR ''/'')) = s # segs @ replicate k []"
    by simp
  with Cons.prems split_on_append [OF Cons.prems(1)] show ?case by (simp add: abs_path_def)
qed

lemma abs_path_last:
  assumes "segs \<noteq> []" "\<And>s. s \<in> set segs \<Longrightarrow> s \<noteq> [] \<and> CHR ''/'' \<notin> set s"
  shows "abs_path segs \<noteq> [] \<and> last (abs_path segs) \<noteq> CHR ''/''"
proof -
  from assms(1) obtain xs s where segs: "segs = xs @ [s]" by (cases segs rule: rev_cases) auto
  with assms(2) [of s] have "s \<noteq> []" "last s \<noteq> CHR ''/''" by (auto dest: last_in_set)
  then show ?thesis by (simp add: segs abs_path_def)
qed

lemma banned_paths_eq: "banned_paths = ''/'' # map (\<lambda>d. CHR ''/'' # d) system_dirs"
  by (simp add: banned_paths_def system_dirs_def)

lemma abs_path_banned:
  assumes "segs \<noteq> []" "\<And>s. s \<in> set segs \<Longrightarrow> s \<noteq> [] \<and> CHR ''/'' \<notin> set s"
  shows "abs_path segs \<in> set banned_paths \<longleftrightarrow> (\<exists>d \<in> set system_dirs. segs = [d])"
proof
  assume "abs_path segs \<in> set banned_paths"
  moreover have "abs_path segs \<noteq> ''/''" using abs_path_last [OF assms] by auto
  ultimately obtain d where d: "d \<in> set system_dirs" "abs_path segs = abs_path [d]"
    by (auto simp: banned_paths_eq abs_path_def)
  from d(1) have "CHR ''/'' \<notin> set d" by (auto simp: system_dirs_def)
  with split_on_abs_path [of "[]" segs 0] split_on_abs_path [of "[]" "[d]" 0] assms d(2)
  have "segs = [d]" by simp
  with d show "\<exists>d \<in> set system_dirs. segs = [d]" by blast
qed (auto simp: banned_paths_eq abs_path_def)

text \<open>The \<open>rm -rf\<close> guard on absolute paths without empty or dot segments, with any number of
  trailing slashes: it accepts exactly the paths that have a segment, no \<open>..\<close>, and are not one
  of the top-level system directories.\<close>

theorem rm_rf_guard_exact:
  assumes "\<forall>s \<in> set segs. s \<noteq> [] \<and> CHR ''/'' \<notin> set s"
  shows "is_ok (reject_destructive_path (abs_path segs @ replicate k (CHR ''/''))) \<longleftrightarrow>
    segs \<noteq> [] \<and> ''..'' \<notin> set segs \<and> \<not> (\<exists>d \<in> set system_dirs. segs = [d])"
proof (cases "segs = []")
  case True
  have "trim_end_matches (CHR ''/'') (replicate k (CHR ''/'')) = []"
    using trim_end_matches_replicate [of "[]"] by simp
  with True show ?thesis
    by (simp add: reject_destructive_path_def abs_path_def Let_def banned_paths_def)
next
  case False
  let ?p = "abs_path segs @ replicate k (CHR ''/'')"
  note seg = assms [rule_format]
  from abs_path_last [OF False] seg have l: "abs_path segs \<noteq> []" "last (abs_path segs) \<noteq> CHR ''/''"
    by auto
  from False have "starts_with ''/'' ?p" by (cases segs) (auto simp: starts_with_iff abs_path_def)
  moreover have "trim_end_matches (CHR ''/'') ?p = abs_path segs"
    using l by (intro trim_end_matches_replicate) simp
  moreover have "split_on (CHR ''/'') ?p = [] # segs @ replicate k []"
    using split_on_abs_path [of "[]" segs k] seg by simp
  ultimately show ?thesis
    using l(1) False abs_path_banned [OF False, OF seg]
    by (auto simp: reject_destructive_path_def Let_def list_ex_iff split: if_splits)
qed

theorem rm_rf_guard_exact_witness:
  "is_ok (reject_destructive_path (abs_path [''var'', ''pool''] @ replicate 1 (CHR ''/'')))
   \<and> \<not> is_ok (reject_destructive_path (abs_path [''var''] @ replicate 2 (CHR ''/'')))"
  using rm_rf_guard_exact [of "[''var'', ''pool'']" 1] rm_rf_guard_exact [of "[''var'']" 2]
  by (simp add: system_dirs_def)

text \<open>The guard compares text: an extra slash or a dot segment in front of a system directory
  passes it, though the path names that directory.\<close>

theorem rm_rf_guard_bypass:
  "reject_destructive_path ''//usr'' = Ok () \<and> path_segments ''//usr'' = path_segments ''/usr''
   \<and> reject_destructive_path ''/./etc'' = Ok () \<and> path_segments ''/./etc'' = path_segments ''/etc''
   \<and> \<not> is_ok (reject_destructive_path ''/usr'') \<and> \<not> is_ok (reject_destructive_path ''/etc'')"
  by code_simp

section \<open>Addresses\<close>

lemma parse_octet_iff: "parse_octet s = Some n \<longleftrightarrow> n \<le> 255 \<and> s = show_nat n"
proof
  assume "parse_octet s = Some n"
  then show "n \<le> 255 \<and> s = show_nat n"
    by (auto simp: parse_octet_def show_nat_digits_val split: if_splits)
next
  assume n: "n \<le> 255 \<and> s = show_nat n"
  then have "length s \<le> 3" using show_nat_length [of n] by simp
  moreover have "length s > 1 \<longrightarrow> hd s \<noteq> CHR ''0''"
    using n show_nat_hd [of n] by (cases "n = 0") (auto simp: show_nat.simps)
  ultimately show "parse_octet s = Some n"
    using n by (simp add: parse_octet_def show_nat_digits)
qed

lemma show_nat_no_dot: "CHR ''.'' \<notin> set (show_nat n)"
  by (auto dest!: show_nat_set simp: is_ascii_digit_def)

lemma split_on_ipv4: "split_on (CHR ''.'') (ipv4_display (a, b, c, d)) = [show_nat a, show_nat b, show_nat c, show_nat d]"
  by (simp add: split_on_append split_on_free show_nat_no_dot)

lemma parse_ipv4_display_iff:
  "parse_ipv4 s = Some (a, b, c, d) \<longleftrightarrow>
     a \<le> 255 \<and> b \<le> 255 \<and> c \<le> 255 \<and> d \<le> 255 \<and> s = ipv4_display (a, b, c, d)"
proof
  assume "parse_ipv4 s = Some (a, b, c, d)"
  then obtain p q r t where "split_on (CHR ''.'') s = [p, q, r, t]" "parse_octet p = Some a"
    "parse_octet q = Some b" "parse_octet r = Some c" "parse_octet t = Some d"
    by (auto simp: parse_ipv4_def split: list.splits option.splits)
  then show "a \<le> 255 \<and> b \<le> 255 \<and> c \<le> 255 \<and> d \<le> 255 \<and> s = ipv4_display (a, b, c, d)"
    by (auto simp: parse_octet_iff dest!: split_on_eq_join)
next
  assume r: "a \<le> 255 \<and> b \<le> 255 \<and> c \<le> 255 \<and> d \<le> 255 \<and> s = ipv4_display (a, b, c, d)"
  then have "map parse_octet (split_on (CHR ''.'') s) = [Some a, Some b, Some c, Some d]"
    using split_on_ipv4 [of a b c d] by (simp add: parse_octet_iff)
  then show "parse_ipv4 s = Some (a, b, c, d)" by (simp add: parse_ipv4_def)
qed

section \<open>What the connection relies on of its transport\<close>

text \<open>The \<open>SshClient\<close> trait: one call is one run of the command, on the machine the client
  stands for (\<open>ran\<close> says which events that are). Every verb of a connection then is one run
  of its command.\<close>

locale ssh_client =
  fixes client :: "string \<Rightarrow> string \<Rightarrow> ('w world, virt_ssh_error, string) action"
    and ran :: "string \<Rightarrow> event \<Rightarrow> bool"
  assumes runs_once: "\<exists>ev. ran cmd ev \<and> w_trace (snd (client host cmd w)) = w_trace w @ [ev]"
begin

lemma conn_run_once:
  assumes "conn_ssh conn = client"
  shows "\<exists>ev. ran cmd ev \<and> w_trace (snd (conn_run conn cmd w)) = w_trace w @ [ev]"
  using runs_once [of cmd "ssh_target (conn_uri conn)" w] assms
  by (auto simp: conn_run_def matchA_def split: prod.splits result.splits virt_ssh_error.splits)

lemma run_unit_once:
  assumes "conn_ssh conn = client"
  shows "\<exists>ev. ran cmd ev \<and> w_trace (snd (run_unit conn cmd w)) = w_trace w @ [ev]"
  using conn_run_once [OF assms, of cmd w]
  by (auto simp: run_unit_def bindA_def split: prod.splits result.splits)

lemma rm_rf_once:
  assumes "conn_ssh conn = client"
  shows "if is_ok (reject_destructive_path path)
    then \<exists>ev. ran (cmd_rm_rf path) ev \<and> w_trace (snd (remote_rm_rf conn path w)) = w_trace w @ [ev]
    else \<exists>e. remote_rm_rf conn path w = (Err e, w)"
  using run_unit_once [OF assms, of "cmd_rm_rf path" w]
  by (cases "reject_destructive_path path") (simp_all add: remote_rm_rf_def)

end

fun ran_on :: "string option \<Rightarrow> string \<Rightarrow> event \<Rightarrow> bool" where
  "ran_on kvm_host cmd (SshRun opts c r) \<longleftrightarrow>
     c = cmd \<and> (\<exists>h. kvm_host = Some h \<and> h \<noteq> [] \<and> opts = ssh_options_new h)"
| "ran_on kvm_host cmd (ShRun c r) \<longleftrightarrow> c = cmd \<and> (kvm_host = None \<or> kvm_host = Some [])"
| "ran_on kvm_host cmd ev \<longleftrightarrow> False"

interpretation local_c: ssh_client "local_client_run env" "ran_on None"
  by unfold_locales
    (auto simp: local_client_run_def sh_run_def matchA_def split: prod.splits result.splits)

interpretation bridge_c: ssh_client "bridge_run env opts" "\<lambda>cmd ev. \<exists>r. ev = SshRun opts cmd r"
  by unfold_locales
    (auto simp: bridge_run_def ssh_run_def ssh_run_in_def matchA_def
       split: prod.splits result.splits ssh_error.splits)

lemma ran_on_empty: "ran_on (Some []) = ran_on None"
proof (intro ext)
  show "ran_on (Some []) cmd ev = ran_on None cmd ev" for cmd ev by (cases ev) auto
qed

interpretation kvm_c: ssh_client "conn_ssh (build_connection env kvm_host)" "ran_on kvm_host"
proof unfold_locales
  fix cmd host w
  show "\<exists>ev. ran_on kvm_host cmd ev \<and>
      w_trace (snd (conn_ssh (build_connection env kvm_host) host cmd w)) = w_trace w @ [ev]"
  proof (cases "kvm_host = None \<or> kvm_host = Some []")
    case True
    then show ?thesis
      using local_c.runs_once [of cmd env host w]
      by (auto simp: build_connection_def new_local_def ran_on_empty)
  next
    case False
    then obtain h where "kvm_host = Some h" "h \<noteq> []" by auto
    then show ?thesis
      using bridge_c.runs_once [of "ssh_options_new h" cmd env host w]
      by (auto simp: build_connection_def)
  qed
qed

text \<open>Recursive deletion, over SSH or on this machine: for a path that the guard accepts,
  \<open>remote_rm_rf\<close> runs one command on the configured KVM host (or here when there is none), which the
  shell reads as \<open>rm -rf -- path\<close> with the path as its only operand; for any other path it fails
  and nothing at all is run.\<close>

theorem rm_rf_guarded:
  "if is_ok (reject_destructive_path path)
   then \<exists>ev cmd. w_trace (snd (remote_rm_rf (build_connection env kvm_host) path w)) = w_trace w @ [ev]
          \<and> ran_on kvm_host cmd ev \<and> sh_words cmd = Some [''rm'', ''-rf'', ''--'', path]
   else \<exists>e. remote_rm_rf (build_connection env kvm_host) path w = (Err e, w)"
proof -
  have "sh_words (cmd_rm_rf path) = Some [''rm'', ''-rf'', ''--'', path]"
    by (simp add: cmd_rm_rf_def argv_simps del: sh_lex.simps(2))
  with kvm_c.rm_rf_once [of "build_connection env kvm_host" env kvm_host path w] show ?thesis
    by (auto split: if_splits)
qed

section \<open>The poll helper\<close>

text \<open>The world when the \<open>i\<close>-th attempt starts, if the ones before it were not ready.\<close>

fun attempt_start :: "'w env \<Rightarrow> nat \<Rightarrow> ('w world, 'e, bool) action \<Rightarrow> nat \<Rightarrow> 'w world \<Rightarrow> 'w world" where
  "attempt_start env secs f 0 w = w"
| "attempt_start env secs f (Suc i) w =
     (let w' = snd (f (attempt_start env secs f i w)) in
      if secs > 0 then snd ((sleep env secs :: ('w world, 'e, unit) action) w') else w')"

lemma attempt_start_shift:
  "attempt_start env secs f (Suc i) w =
   attempt_start env secs f i (attempt_start env secs f 1 w)"
  by (induction i) (simp_all add: Let_def)

lemma retry_false_iff:
  "fst (retry env n secs f w) = Ok False \<longleftrightarrow>
     (\<forall>i<n. fst (f (attempt_start env secs f i w)) = Ok False)"
proof (induction n arbitrary: w)
  case (Suc n)
  obtain r w1 where f: "f w = (r, w1)" by (cases "f w")
  show ?case
  proof (cases "r = Ok False")
    case True
    then have "fst (retry env (Suc n) secs f w) = Ok False \<longleftrightarrow>
        fst (retry env n secs f (attempt_start env secs f 1 w)) = Ok False"
      using f by (cases n) (auto simp: bindA_def whenA_def sleep_def Let_def)
    also have "\<dots> \<longleftrightarrow> (\<forall>i<n. fst (f (attempt_start env secs f (Suc i) w)) = Ok False)"
      by (simp only: Suc.IH attempt_start_shift)
    also have "\<dots> \<longleftrightarrow> (\<forall>i<Suc n. fst (f (attempt_start env secs f i w)) = Ok False)"
      using True f by (auto simp only: All_less_Suc2 attempt_start.simps fst_conv)
    finally show ?thesis .
  next
    case False
    with f have "fst (retry env (Suc n) secs f w) \<noteq> Ok False"
      by (auto simp: bindA_def split: result.splits)
    moreover from False f have "fst (f (attempt_start env secs f 0 w)) \<noteq> Ok False" by simp
    ultimately show ?thesis by (metis zero_less_Suc)
  qed
qed simp

lemma retry_stop_iff:
  assumes "r \<noteq> Ok False"
  shows "retry env n secs f w = (r, w') \<longleftrightarrow>
     (\<exists>k<n. f (attempt_start env secs f k w) = (r, w')
        \<and> (\<forall>i<k. fst (f (attempt_start env secs f i w)) = Ok False))"
proof (induction n arbitrary: w)
  case 0
  from assms show ?case by auto
next
  case (Suc n)
  obtain r1 w1 where f: "f w = (r1, w1)" by (cases "f w")
  show ?case
  proof (cases "r1 = Ok False")
    case True
    then have "retry env (Suc n) secs f w = (r, w') \<longleftrightarrow>
        retry env n secs f (attempt_start env secs f 1 w) = (r, w')"
      using f assms by (cases n) (auto simp: bindA_def whenA_def sleep_def Let_def)
    also have "\<dots> \<longleftrightarrow> (\<exists>k<n. f (attempt_start env secs f (Suc k) w) = (r, w')
        \<and> (\<forall>i<k. fst (f (attempt_start env secs f (Suc i) w)) = Ok False))"
      by (simp only: Suc.IH attempt_start_shift)
    also have "\<dots> \<longleftrightarrow> (\<exists>k<Suc n. f (attempt_start env secs f k w) = (r, w')
        \<and> (\<forall>i<k. fst (f (attempt_start env secs f i w)) = Ok False))"
      using True f assms
      by (auto simp only: Ex_less_Suc2 All_less_Suc2 attempt_start.simps fst_conv prod.inject)
    finally show ?thesis .
  next
    case False
    then have "retry env (Suc n) secs f w = (r1, w1)"
      using f by (cases r1) (auto simp: bindA_def)
    with False f show ?thesis by (auto simp: Ex_less_Suc2 All_less_Suc2)
  qed
qed

text \<open>The poll helper, for any action, number of attempts and pause: it returns \<open>Ok(false)\<close> exactly
  when each of the attempts was not ready; it returns anything else (ready, or an error) exactly
  when one attempt within the limit gave that result and all before it were not ready, and then
  nothing happens after that attempt. Between two attempts it sleeps once; so it always
  returns.\<close>

theorem retry_spec:
  "(fst (retry env n secs f w) = Ok False \<longleftrightarrow>
      (\<forall>i<n. fst (f (attempt_start env secs f i w)) = Ok False))
   \<and> (r \<noteq> Ok False \<longrightarrow>
      (retry env n secs f w = (r, w') \<longleftrightarrow>
        (\<exists>k<n. f (attempt_start env secs f k w) = (r, w')
           \<and> (\<forall>i<k. fst (f (attempt_start env secs f i w)) = Ok False))))"
  by (intro conjI impI retry_false_iff retry_stop_iff)

theorem retry_spec_witness:
  "retry \<lparr>env_ssh = (\<lambda>_ _ _ x. (Err (Wait [] NotFound), x)), env_sh = (\<lambda>_ x. (Err NotFound, x)), env_sleep = (\<lambda>_ x. x)\<rparr>
     5 7 (\<lambda>w. (Ok (2 \<le> w_ext w), w\<lparr>w_ext := w_ext w + (1 :: nat)\<rparr>)) \<lparr>w_ext = 0, w_trace = []\<rparr>
   = (Ok True :: (string, bool) result, \<lparr>w_ext = 3, w_trace = [Slept 7, Slept 7]\<rparr>)"
proof -
  let ?env = "\<lparr>env_ssh = (\<lambda>_ _ _ x. (Err (Wait [] NotFound), x)), env_sh = (\<lambda>_ x. (Err NotFound, x)), env_sleep = (\<lambda>_ x. x)\<rparr> :: nat env"
  let ?f = "\<lambda>w. (Ok (2 \<le> w_ext w) :: (string, bool) result, w\<lparr>w_ext := w_ext w + (1 :: nat)\<rparr>)"
  let ?st = "\<lambda>k. attempt_start ?env 7 ?f k \<lparr>w_ext = 0, w_trace = []\<rparr>"
  have st: "?st 0 = \<lparr>w_ext = 0, w_trace = []\<rparr>" "?st 1 = \<lparr>w_ext = 1, w_trace = [Slept 7]\<rparr>"
    "?st 2 = \<lparr>w_ext = 2, w_trace = [Slept 7, Slept 7]\<rparr>"
    by (simp_all add: eval_nat_numeral sleep_def)
  have "\<exists>k<5. ?f (?st k) = (Ok True, \<lparr>w_ext = 3, w_trace = [Slept 7, Slept 7]\<rparr>)
      \<and> (\<forall>i<k. fst (?f (?st i)) = Ok False)"
    using st by (intro exI [of _ 2]) (auto simp: less_2_cases_iff)
  then show ?thesis
    using retry_spec [of ?env 5 7 ?f "\<lparr>w_ext = 0, w_trace = []\<rparr>" "Ok True" "\<lparr>w_ext = 3, w_trace = [Slept 7, Slept 7]\<rparr>"]
    by blast
qed

section \<open>The two readings of \<open>domifaddr\<close>\<close>

lemma domifaddr_rows_agree:
  assumes "\<And>l. l \<in> set ls \<Longrightarrow> contains ''ipv4'' (to_ascii_lowercase l) = contains ''ipv4'' l"
    and "domifaddr_rows ls command = Ok (Some a)"
  shows "first_ipv4_rows ls = Some (ipv4_display a)"
  using assms
proof (induction ls)
  case (Cons l ls)
  show ?case
  proof (cases "contains ''ipv4'' l")
    case False
    with Cons show ?thesis by simp
  next
    case True
    with Cons.prems obtain cidr where c: "nth_field 3 l = Some cidr"
      "parse_ipv4 (hd (split_on (CHR ''/'') cidr)) = Some a"
      by (auto split: option.splits)
    obtain p q r t where a: "a = (p, q, r, t)" by (cases a)
    with c(2) have "hd (split_on (CHR ''/'') cidr) = ipv4_display a"
      by (simp only: parse_ipv4_display_iff)
    with True c a show ?thesis by (simp add: first_ipv4_of_row_def)
  qed
qed simp

text \<open>The two parsers of \<open>virsh domifaddr\<close> (the library's, and the one for the control plane's
  address) agree: when the output spells the protocol in lower case and the library's
  parser finds an address, the other one gives the same address in text.\<close>

theorem domifaddr_parsers_agree:
  assumes "\<forall>l \<in> set (lines out). contains ''ipv4'' (to_ascii_lowercase l) = contains ''ipv4'' l"
    and "parse_domifaddr out command = Ok (Some a)"
  shows "parse_first_domifaddr_ipv4 out = Some (ipv4_display a)"
  using assms domifaddr_rows_agree [of "lines out" command a]
  by (simp add: parse_domifaddr_def parse_first_domifaddr_ipv4_def)

theorem domifaddr_parsers_agree_witness:
  "parse_first_domifaddr_ipv4 (''Name MAC Protocol Address'' @ [NL] @ ''vnet0 52:54:00:01:02:03 ipv4 192.168.122.42/24'' @ [NL])
     = Some ''192.168.122.42''"
proof -
  let ?out = "''Name MAC Protocol Address'' @ [NL] @ ''vnet0 52:54:00:01:02:03 ipv4 192.168.122.42/24'' @ [NL]"
  have "\<forall>l \<in> set (lines ?out). contains ''ipv4'' (to_ascii_lowercase l) = contains ''ipv4'' l"
    by code_simp
  moreover have "parse_domifaddr ?out [] = Ok (Some (192, 168, 122, 42))" by code_simp
  ultimately have "parse_first_domifaddr_ipv4 ?out = Some (ipv4_display (192, 168, 122, 42))"
    by (rule domifaddr_parsers_agree)
  moreover have "ipv4_display (192, 168, 122, 42) = ''192.168.122.42''" by code_simp
  ultimately show ?thesis by simp
qed

end
