(* ===== verification/Cp_Kubectl.thy ===== *)
theory Cp_Kubectl
  imports Shell Action
begin

text \<open>
  \<open>hbird-cli/src/cp_kubectl.rs\<close>: running \<open>kubectl\<close> (or a shell command) on the control
  plane over SSH, with the rejection of shell metacharacters in front.
\<close>

section \<open>Target and output\<close>

record cp_target =
  ct_cp_ip :: string
  ct_kvm_host :: "string option"

definition ct_ssh_opts :: "cp_target \<Rightarrow> ssh_options" where
  "ct_ssh_opts target =
     (let opts = with_user ''root'' (ssh_options_new (ct_cp_ip target)) in
      case ct_kvm_host target of Some jump \<Rightarrow> with_proxy_jump jump opts | None \<Rightarrow> opts)"

record cp_exec_output =
  ce_success :: bool
  ce_stdout :: string
  ce_stderr :: string

section \<open>The metacharacter filter\<close>

definition is_metachar :: "char \<Rightarrow> bool" where
  "is_metachar c \<longleftrightarrow> c = CHR '';'' \<or> c = CHR ''&'' \<or> c = CHR ''|'' \<or> c = CHR 0x60 \<or> c = NL \<or> c = CR"

definition reject_shell_metachars :: "string \<Rightarrow> string \<Rightarrow> (anyhow, unit) result" where
  "reject_shell_metachars who command =
     (case find is_metachar command of
        Some bad \<Rightarrow>
          bail (who @ '': refusing command with shell metacharacter '' @ [SQ, bad, SQ]
            @ '' (commands are forwarded to remote /bin/sh -c; metachars would ''
            @ ''execute as root on the CP). command='' @ debug_str command)
      | None \<Rightarrow>
          if contains ''$('' command then
            bail (who @ '': refusing command with `$(` substitution (executes ''
              @ ''as root on the CP). command='' @ debug_str command)
          else Ok ())"

section \<open>Running commands\<close>

definition kubectl_remote :: "string \<Rightarrow> string" where
  "kubectl_remote command = ''kubectl --kubeconfig=/etc/kubernetes/admin.conf '' @ command"

text \<open>\<open>exec.run(..).with_context(..)\<close>: an SSH error becomes an \<open>anyhow\<close> chain with a context.\<close>

definition ssh_ctx :: "('w world, ssh_error, 'a) action \<Rightarrow> string \<Rightarrow> ('w, 'a) act" where
  "ssh_ctx m ctx = matchA m (\<lambda>r. liftA (with_context ctx (map_err from_ssh r)))"

definition cp_kubectl_raw_with_exec ::
  "(string \<Rightarrow> ('w world, ssh_error, run_output) action) \<Rightarrow> string \<Rightarrow> string \<Rightarrow> ('w, run_output) act" where
  "cp_kubectl_raw_with_exec exec cp_ip command =
     bindA (liftA (reject_shell_metachars ''cp_kubectl_raw'' command)) (\<lambda>_.
     ssh_ctx (exec (kubectl_remote command))
       (''cp_kubectl_raw: ssh-run failed for `kubectl ... '' @ command @ ''` against '' @ cp_ip))"

definition cp_kubectl_raw :: "'w env \<Rightarrow> cp_target \<Rightarrow> string \<Rightarrow> ('w, run_output) act" where
  "cp_kubectl_raw env target command =
     cp_kubectl_raw_with_exec (ssh_run env (ct_ssh_opts target)) (ct_cp_ip target) command"

text \<open>The lenient calls fold a non-zero exit into the output.\<close>

definition fold_exit :: "('w world, ssh_error, run_output) action \<Rightarrow> string \<Rightarrow> ('w, cp_exec_output) act" where
  "fold_exit m ctx =
     matchA m (\<lambda>r.
       case r of
         Ok out \<Rightarrow> retA \<lparr>ce_success = True, ce_stdout = ro_stdout out, ce_stderr = ro_stderr out\<rparr>
       | Err (NonZeroExit h status out err) \<Rightarrow>
           retA \<lparr>ce_success = False, ce_stdout = out, ce_stderr = err\<rparr>
       | Err e \<Rightarrow> failA (ctx # from_ssh e))"

definition cp_kubectl_lenient_with_exec ::
  "(string \<Rightarrow> ('w world, ssh_error, run_output) action) \<Rightarrow> string \<Rightarrow> string \<Rightarrow> ('w, cp_exec_output) act" where
  "cp_kubectl_lenient_with_exec exec cp_ip command =
     bindA (liftA (reject_shell_metachars ''cp_kubectl_lenient'' command)) (\<lambda>_.
     fold_exit (exec (kubectl_remote command))
       (''cp_kubectl_lenient: ssh-run failed for `kubectl ... '' @ command @ ''` against '' @ cp_ip))"

definition cp_kubectl_with_stdin_lenient ::
  "'w env \<Rightarrow> cp_target \<Rightarrow> string \<Rightarrow> string \<Rightarrow> ('w, cp_exec_output) act" where
  "cp_kubectl_with_stdin_lenient env target command stdin =
     bindA (liftA (reject_shell_metachars ''cp_kubectl_with_stdin_lenient'' command)) (\<lambda>_.
     fold_exit (ssh_run_in env (ct_ssh_opts target) (kubectl_remote command) (Some stdin))
       (''cp_kubectl_with_stdin_lenient: ssh-run failed for `kubectl ... '' @ command
         @ ''` against '' @ ct_cp_ip target))"

definition cp_ssh_lenient :: "'w env \<Rightarrow> cp_target \<Rightarrow> string \<Rightarrow> ('w, cp_exec_output) act" where
  "cp_ssh_lenient env target command =
     fold_exit (ssh_run env (ct_ssh_opts target) command)
       (''cp_ssh_lenient: ssh-run failed for `'' @ command @ ''` against '' @ ct_cp_ip target)"

definition cp_ssh_capture :: "'w env \<Rightarrow> cp_target \<Rightarrow> string \<Rightarrow> ('w, run_output) act" where
  "cp_ssh_capture env target command =
     ssh_ctx (ssh_run env (ct_ssh_opts target) command)
       (''cp_ssh_capture: ssh-run failed for `'' @ command @ ''` against '' @ ct_cp_ip target)"

section \<open>Lemmas\<close>

lemma ssh_ctx_adds [adds_intro]: "adds V m \<Longrightarrow> adds V (ssh_ctx m c)"
  unfolding ssh_ctx_def by (auto intro!: adds_intro)

lemma fold_exit_adds [adds_intro]: "adds V m \<Longrightarrow> adds V (fold_exit m c)"
  unfolding fold_exit_def by (auto intro!: adds_match split: result.splits ssh_error.splits)

lemma reject_shell_metachars_Ok:
  "reject_shell_metachars c cmd = Ok u \<longleftrightarrow> list_all (\<lambda>x. \<not> is_metachar x) cmd \<and> \<not> contains ''$('' cmd"
  by (auto simp: reject_shell_metachars_def list_all_iff find_None_iff find_Some_iff split: option.splits)

text \<open>The command separators a POSIX shell knows outside quotes. The scanner looks for one of
  them, taking quotes into account, anywhere in a command line.\<close>

fun sh_breaks :: "bool \<Rightarrow> bool \<Rightarrow> string \<Rightarrow> bool" where
  "sh_breaks sq dq [] = False"
| "sh_breaks sq dq (c # cs) =
     (if sq then sh_breaks (c \<noteq> SQ) dq cs
      else if c = BSL then (case cs of [] \<Rightarrow> False | d # ds \<Rightarrow> sh_breaks sq dq ds)
      else if c = CHR 0x22 then sh_breaks sq (\<not> dq) cs
      else if c = CHR 0x60 \<or> starts_with ''$('' (c # cs) then True
      else if dq then sh_breaks sq dq cs
      else if c = SQ then sh_breaks True dq cs
      else if c = CHR '';'' \<or> c = CHR ''&'' \<or> c = CHR ''|'' \<or> c = NL then True
      else sh_breaks sq dq cs)"

lemma sh_breaks_filtered:
  "list_all (\<lambda>x. \<not> is_metachar x) s \<Longrightarrow> \<not> contains ''$('' s \<Longrightarrow> \<not> sh_breaks sq dq s"
proof (induction s arbitrary: sq dq rule: length_induct)
  case (1 s)
  show ?case
  proof (cases s)
    case (Cons c cs)
    with 1 have c: "\<not> is_metachar c" "\<not> starts_with ''$('' (c # cs)" by auto
    have cs: "\<not> sh_breaks sq' dq' cs" for sq' dq' using 1 Cons by simp
    have ds: "\<not> sh_breaks sq' dq' ds" if "cs = d # ds" for sq' dq' d ds using 1 Cons that by simp
    from c(1) have m: "c \<noteq> CHR 0x60" "c \<noteq> CHR '';''" "c \<noteq> CHR ''&''" "c \<noteq> CHR ''|''" "c \<noteq> NL"
      by (auto simp: is_metachar_def)
    have bs: "\<not> (case cs of [] \<Rightarrow> False | d # ds \<Rightarrow> sh_breaks sq dq ds)"
      using ds by (cases cs) auto
    show ?thesis
      unfolding Cons by (subst sh_breaks.simps) (simp only: c(2) cs bs m if_cancel if_False simp_thms)
  qed simp
qed

lemma contains_skip: "c \<notin> set a \<Longrightarrow> contains (c # p) (a @ b) = contains (c # p) b"
  by (induction a) (auto simp: starts_with_def)

lemma kubectl_remote_filtered:
  assumes "reject_shell_metachars who cmd = Ok u"
  shows "\<not> sh_breaks False False (kubectl_remote cmd)"
proof (rule sh_breaks_filtered)
  from assms have c: "list_all (\<lambda>x. \<not> is_metachar x) cmd" "\<not> contains ''$('' cmd"
    by (simp_all add: reject_shell_metachars_Ok)
  then show "list_all (\<lambda>x. \<not> is_metachar x) (kubectl_remote cmd)"
    by (simp add: kubectl_remote_def is_metachar_def)
  from c show "\<not> contains ''$('' (kubectl_remote cmd)"
    unfolding kubectl_remote_def by (subst contains_skip) simp_all
qed

definition kubectl_event :: "cp_target \<Rightarrow> string \<Rightarrow> event \<Rightarrow> bool" where
  "kubectl_event target cmd ev \<longleftrightarrow>
     (\<exists>r. ev = SshRun (ct_ssh_opts target) (kubectl_remote cmd) r
        \<or> (\<exists>inp. ev = SshIn (ct_ssh_opts target) (kubectl_remote cmd) inp r)) \<and> \<not> sh_breaks False False (kubectl_remote cmd)"

lemma guarded_adds:
  assumes "reject_shell_metachars who cmd = Ok () \<Longrightarrow> adds V m"
  shows "adds V (bindA (liftA (reject_shell_metachars who cmd)) (\<lambda>_. m))"
  using assms by (cases "reject_shell_metachars who cmd") auto


end
