(* ===== verification/Poll.thy ===== *)
theory Poll
  imports Action "HOL-Library.Word"
begin

text \<open>
  The polling loops of the commands:
  \<open>while elapsed < timeout { body; sleep(interval); elapsed = elapsed.saturating_add(interval); }\<close>
  with \<open>u32\<close> counters, as one function. The body says whether the loop returns; \<open>after\<close> is
  what the loop does between the sleep and the next test (the progress message of some of
  them). The loop ends for every budget up to \<open>u32::MAX\<close>, because the saturating addition of a
  positive interval to a counter below the budget makes progress.

  The interface \<open>poll_body\<close> states what the callers need of a body and gives the bound on the
  number of sleeps.
\<close>

type_synonym u32 = "32 word"

abbreviation show_u32 :: "u32 \<Rightarrow> string" where "show_u32 n \<equiv> show_nat (unat n)"

lemma unat_lt2p_32: "unat (n :: u32) < 2 ^ 32"
  using unsigned_less [where 'a = nat, of n] by simp

lemma u32_bound: "unat (n :: u32) \<le> U32_MAX"
  using unat_lt2p_32 [of n] by (simp add: U32_MAX_def)

text \<open>\<open>u32::saturating_add\<close> and \<open>u32::saturating_sub\<close>.\<close>

definition saturating_add :: "u32 \<Rightarrow> u32 \<Rightarrow> u32" where
  "saturating_add a b = (if unat a + unat b \<le> U32_MAX then a + b else - 1)"

definition saturating_sub :: "u32 \<Rightarrow> u32 \<Rightarrow> u32" where
  "saturating_sub a b = (if b \<le> a then a - b else 0)"

lemma unat_saturating_add: "unat (saturating_add a b) = min (unat a + unat b) U32_MAX"
proof (cases "unat a + unat b \<le> U32_MAX")
  case True
  then have "unat (a + b) = unat a + unat b"
    by (simp add: unat_word_ariths take_bit_nat_eq_self U32_MAX_def take_bit_eq_mod [symmetric])
  with True show ?thesis by (simp add: saturating_add_def)
next
  case False
  have "unat (- 1 :: u32) = U32_MAX" by (simp add: U32_MAX_def unsigned_minus_1_eq_mask mask_eq_exp_minus_1)
  with False show ?thesis by (simp add: saturating_add_def)
qed

lemma saturating_add_progress:
  assumes "e < t" "0 < i"
  shows "unat t - unat (saturating_add e i) < unat t - unat e"
  using assms u32_bound [of t] by (auto simp: unat_saturating_add word_less_nat_alt)

section \<open>The loop\<close>

function poll_loop ::
  "'w env \<Rightarrow> u32 \<Rightarrow> u32 \<Rightarrow> (u32 \<Rightarrow> 'l \<Rightarrow> ('w world, 'e, 'a option \<times> 'l) action) \<Rightarrow>
   (u32 \<Rightarrow> 'l \<Rightarrow> ('w world, 'e, 'l) action) \<Rightarrow> u32 \<Rightarrow> 'l \<Rightarrow> ('w world, 'e, 'a + 'l) action" where
  "poll_loop env interval timeout body after elapsed l =
     (if elapsed < timeout \<and> 0 < interval then
        bindA (body elapsed l) (\<lambda>(r, l1).
          case r of
            Some a \<Rightarrow> retA (Inl a)
          | None \<Rightarrow>
              bindA (sleep env (unat interval)) (\<lambda>_.
              bindA (after (saturating_add elapsed interval) l1) (\<lambda>l2.
              poll_loop env interval timeout body after (saturating_add elapsed interval) l2)))
      else retA (Inr l))"
  by pat_completeness auto
termination
  by (relation "measure (\<lambda>(_, _, t, _, _, e, _). unat t - unat e)")
    (auto simp: saturating_add_progress)

declare poll_loop.simps [simp del]

text \<open>A loop without local variables.\<close>

definition poll_until ::
  "'w env \<Rightarrow> u32 \<Rightarrow> u32 \<Rightarrow> (u32 \<Rightarrow> ('w world, 'e, 'a option) action) \<Rightarrow> ('w world, 'e, 'a option) action" where
  "poll_until env interval timeout body =
     bindA (poll_loop env interval timeout
              (\<lambda>e _. bindA (body e) (\<lambda>r. retA (r, ()))) (\<lambda>_ _. retA ()) 0 ()) (\<lambda>r.
       case r of Inl a \<Rightarrow> retA (Some a) | Inr _ \<Rightarrow> retA None)"

section \<open>Rules\<close>

lemma poll_loop_adds:
  assumes "\<And>e l. adds V (body e l)" "\<And>e l. adds V (after e l)" "V (Slept (unat interval))"
  shows "adds V (poll_loop env interval timeout body after elapsed l)"
proof (induction "unat timeout - unat elapsed" arbitrary: elapsed l rule: less_induct)
  case less
  show ?case
  proof (cases "elapsed < timeout \<and> 0 < interval")
    case True
    then have "unat timeout - unat (saturating_add elapsed interval) < unat timeout - unat elapsed"
      by (simp add: saturating_add_progress)
    note IH = less [OF this]
    from True show ?thesis
      by (subst poll_loop.simps)
        (auto intro!: adds_bind adds_sleep IH assms split: option.split)
  next
    case False
    then show ?thesis by (subst poll_loop.simps) auto
  qed
qed

lemma poll_until_adds [adds_intro]:
  assumes "\<And>e. adds V (body e)" "V (Slept (unat interval))"
  shows "adds V (poll_until env interval timeout body)"
  unfolding poll_until_def
  using assms by (auto intro!: adds_bind poll_loop_adds split: sum.split)

text \<open>The loop rule: the invariant over the local variables and the world is kept by a round that
  does not return and by the sleep.\<close>

lemma triple_sleep: "(\<And>w. P w \<Longrightarrow> Q () (snd ((sleep env n :: ('w world, 'e, unit) action) w))) \<Longrightarrow>
    triple P (sleep env n :: ('w world, 'e, unit) action) Q E"
  by (auto simp: triple_def sleep_def)

lemma triple_poll_loop:
  assumes body: "\<And>e l. triple (I l) (body e l) (\<lambda>(r, l') w. case r of Some a \<Rightarrow> Q a w | None \<Rightarrow> I l' w) E"
    and after: "\<And>e l. triple (I l) (after e l) I E"
    and slept: "\<And>l w. I l w \<Longrightarrow> I l (snd ((sleep env (unat interval) :: ('w world, 'e, unit) action) w))"
  shows "triple (I l) (poll_loop env interval timeout body after elapsed l :: ('w world, 'e, 'a + 'l) action)
    (\<lambda>r w. case r of Inl a \<Rightarrow> Q a w | Inr l' \<Rightarrow> I l' w) E"
proof (induction "unat timeout - unat elapsed" arbitrary: elapsed l rule: less_induct)
  case less
  show ?case
  proof (cases "elapsed < timeout \<and> 0 < interval")
    case True
    let ?e = "saturating_add elapsed interval"
    from True have "unat timeout - unat ?e < unat timeout - unat elapsed"
      by (simp add: saturating_add_progress)
    note IH = less [OF this]
    have rest: "triple (I l1) (bindA (sleep env (unat interval)) (\<lambda>_.
        bindA (after ?e l1) (\<lambda>l2. poll_loop env interval timeout body after ?e l2)))
        (\<lambda>r w. case r of Inl a \<Rightarrow> Q a w | Inr l' \<Rightarrow> I l' w) E" for l1
      by (rule triple_bind [where R = "\<lambda>_. I l1"], rule triple_sleep, erule slept)
        (rule triple_bind [OF after IH])
    have "triple (case x of (r, l') \<Rightarrow> \<lambda>w. case r of Some a \<Rightarrow> Q a w | None \<Rightarrow> I l' w)
       (case x of (r, l1) \<Rightarrow> (case r of Some a \<Rightarrow> retA (Inl a) | None \<Rightarrow>
          bindA (sleep env (unat interval)) (\<lambda>_.
          bindA (after ?e l1) (\<lambda>l2. poll_loop env interval timeout body after ?e l2))))
       (\<lambda>r w. case r of Inl a \<Rightarrow> Q a w | Inr l' \<Rightarrow> I l' w) E" for x
      using rest by (cases x; cases "fst x") (auto intro!: triple_ret)
    with True show ?thesis
      by (subst poll_loop.simps) (auto intro: triple_bind [OF body])
  next
    case False
    then show ?thesis by (subst poll_loop.simps) (auto intro!: triple_ret)
  qed
qed

lemma triple_poll_until:
  assumes body: "\<And>e. triple I (body e) (\<lambda>r w. case r of Some a \<Rightarrow> Q a w | None \<Rightarrow> I w) E"
    and slept: "\<And>w. I w \<Longrightarrow> I (snd ((sleep env (unat interval) :: ('w world, 'e, unit) action) w))"
  shows "triple I (poll_until env interval timeout body :: ('w world, 'e, 'a option) action)
    (\<lambda>r w. case r of Some a \<Rightarrow> Q a w | None \<Rightarrow> I w) E"
proof -
  have "triple I (poll_loop env interval timeout (\<lambda>e _. bindA (body e) (\<lambda>r. retA (r, ()))) (\<lambda>_ _. retA ()) 0 ())
      (\<lambda>r w. case r of Inl a \<Rightarrow> Q a w | Inr (_ :: unit) \<Rightarrow> I w) E"
    by (rule triple_poll_loop [where I = "\<lambda>_. I"])
      (auto intro!: triple_bind [OF body] triple_ret slept split: option.splits)
  then show ?thesis
    unfolding poll_until_def
    by (rule triple_bind) (auto intro!: triple_ret split: sum.split)
qed

section \<open>How long an action sleeps\<close>

fun slept :: "event \<Rightarrow> nat" where
  "slept (Slept n) = n"
| "slept _ = 0"

text \<open>\<open>costs tr n m\<close>: \<open>m\<close> sleeps for at most \<open>n\<close> seconds in all, where \<open>tr\<close> reads the trace of the
  state; the two uses are actions on the world and blocks with local variables.\<close>

definition costs :: "('s \<Rightarrow> event list) \<Rightarrow> nat \<Rightarrow> ('s, 'e, 'a) action \<Rightarrow> bool" where
  "costs tr n m \<longleftrightarrow> (\<forall>s. \<exists>evs. tr (snd (m s)) = tr s @ evs \<and> sum_list (map slept evs) \<le> n)"

abbreviation sleeps_at_most :: "nat \<Rightarrow> ('w world, 'e, 'a) action \<Rightarrow> bool" where
  "sleeps_at_most n m \<equiv> costs w_trace n m"

abbreviation sleeps_loc :: "nat \<Rightarrow> ('l \<times> 'w world, 'e, 'a) action \<Rightarrow> bool" where
  "sleeps_loc n m \<equiv> costs (\<lambda>(l, w). w_trace w) n m"

abbreviation awake :: "event \<Rightarrow> bool" where "awake ev \<equiv> slept ev = 0"

lemma costsD: "costs tr n m \<Longrightarrow> m s = (r, s') \<Longrightarrow> \<exists>evs. tr s' = tr s @ evs \<and> sum_list (map slept evs) \<le> n"
  unfolding costs_def by (metis snd_conv)

lemma sleeps_adds: "adds awake m \<Longrightarrow> sleeps_at_most n m"
proof -
  have "list_all awake evs \<Longrightarrow> sum_list (map slept evs) = 0" for evs
    by (induction evs) auto
  then show "adds awake m \<Longrightarrow> sleeps_at_most n m"
    unfolding adds_def costs_def by (metis le0)
qed

lemma costs_mono: "costs tr n m \<Longrightarrow> n \<le> k \<Longrightarrow> costs tr k m"
  unfolding costs_def by (meson le_trans)

lemma costs_pure [simp]: "costs tr n (retA a)" "costs tr n (failA e)" "costs tr n (liftA r)"
  by (simp_all add: costs_def)

lemma sleeps_sleep: "k \<le> n \<Longrightarrow> sleeps_at_most n (sleep env k)"
  by (simp add: costs_def sleep_def)

lemma costs_match:
  assumes "costs tr i m" "\<And>r. costs tr j (f r)"
  shows "costs tr (i + j) (matchA m f)"
  unfolding costs_def
proof
  fix s
  obtain r s1 where m: "m s = (r, s1)" by (cases "m s")
  obtain r2 s2 where f: "f r s1 = (r2, s2)" by (cases "f r s1")
  from costsD [OF assms(1) m] costsD [OF assms(2) f] obtain e1 e2
    where "tr s1 = tr s @ e1" "sum_list (map slept e1) \<le> i" "tr s2 = tr s1 @ e2" "sum_list (map slept e2) \<le> j" by blast
  with m f show "\<exists>evs. tr (snd (matchA m f s)) = tr s @ evs \<and> sum_list (map slept evs) \<le> i + j"
    by (intro exI [of _ "e1 @ e2"]) (simp add: matchA_def)
qed

lemma costs_bind: "costs tr i m \<Longrightarrow> (\<And>a. costs tr j (f a)) \<Longrightarrow> costs tr (i + j) (bindA m f)"
  unfolding bindA_matchA by (rule costs_match) (auto split: result.splits)

lemma costs_ctx: "costs tr i m \<Longrightarrow> costs tr i (ctxA c m)"
  unfolding ctxA_matchA using costs_match [of tr i m 0 "\<lambda>r. liftA (with_context c r)"] by simp

lemma sleeps_on_world: "sleeps_at_most i m \<Longrightarrow> sleeps_loc i (on_world m)"
  unfolding costs_def on_world_def by (auto split: prod.splits) (metis snd_conv)

lemma sleeps_upd: "sleeps_loc i (upd f)"
  by (simp add: costs_def upd_def split: prod.splits)

lemma sleeps_scoped:
  assumes "sleeps_loc i m" "\<And>l. adds awake (dropf l)"
  shows "sleeps_at_most i (scoped l dropf m)"
  unfolding costs_def
proof
  fix w
  obtain r l' w1 where m: "m (l, w) = (r, l', w1)" by (cases "m (l, w)") auto
  from costsD [OF assms(1) m] obtain e1 where e1: "w_trace w1 = w_trace w @ e1" "sum_list (map slept e1) \<le> i" by auto
  from sleeps_adds [OF assms(2), of 0 l'] obtain e2
    where e2: "w_trace (snd (dropf l' w1)) = w_trace w1 @ e2" "sum_list (map slept e2) \<le> 0"
    unfolding costs_def by blast
  have "sum_list (map slept (e1 @ e2)) \<le> i"
    using e1(2) e2(2) unfolding map_append sum_list_append by linarith
  with e1(1) e2(1) m show "\<exists>evs. w_trace (snd (scoped l dropf m w)) = w_trace w @ evs \<and> sum_list (map slept evs) \<le> i"
    by (intro exI [of _ "e1 @ e2"]) (simp add: scoped_def)
qed

text \<open>The number of rounds a budget allows.\<close>

definition rounds :: "u32 \<Rightarrow> u32 \<Rightarrow> u32 \<Rightarrow> nat" where
  "rounds interval timeout elapsed = (unat timeout - unat elapsed + unat interval - 1) div unat interval"

lemma rounds_step:
  assumes "e < t" "0 < i"
  shows "Suc (rounds i t (saturating_add e i)) \<le> rounds i t e"
proof -
  from assms have e: "unat e < unat t" and i: "0 < unat i" by (simp_all add: word_less_nat_alt)
  have t: "unat t \<le> U32_MAX" by (rule u32_bound)
  show ?thesis
  proof (cases "unat e + unat i < unat t")
    case True
    with t have s: "unat (saturating_add e i) = unat e + unat i" by (simp add: unat_saturating_add)
    from True i have "rounds i t e = (unat t - unat e - 1 + unat i) div unat i"
      and "rounds i t (saturating_add e i) = (unat t - unat e - 1) div unat i"
      by (simp_all add: rounds_def s)
    with i show ?thesis by (simp only: div_add_self2)
  next
    case False
    with t have "unat t \<le> unat (saturating_add e i)" by (simp add: unat_saturating_add)
    with i have "rounds i t (saturating_add e i) = 0" by (simp add: rounds_def)
    moreover from e i have "rounds i t e = (unat t - unat e - 1 + unat i) div unat i"
      by (simp add: rounds_def)
    with i have "1 \<le> rounds i t e" by (simp only: div_add_self2)
    ultimately show ?thesis by simp
  qed
qed

lemma rounds_budget: "rounds interval timeout 0 * unat interval \<le> unat timeout + (unat interval - 1)"
  unfolding rounds_def
  by (rule le_trans [OF div_times_less_eq_dividend]) simp

locale poll_body =
  fixes body :: "u32 \<Rightarrow> 'l \<Rightarrow> ('w world, 'e, 'a option \<times> 'l) action"
    and after :: "u32 \<Rightarrow> 'l \<Rightarrow> ('w world, 'e, 'l) action"
  assumes body_awake: "adds awake (body e l)"
    and after_awake: "adds awake (after e l)"
begin

lemma loop_sleeps:
  "sleeps_at_most (rounds interval timeout elapsed * unat interval) (poll_loop env interval timeout body after elapsed l)"
proof (induction "unat timeout - unat elapsed" arbitrary: elapsed l rule: less_induct)
  case less
  let ?n = "\<lambda>e. rounds interval timeout e * unat interval"
  show ?case
  proof (cases "elapsed < timeout \<and> 0 < interval")
    case True
    let ?e = "saturating_add elapsed interval"
    let ?rest = "\<lambda>l1. bindA (sleep env (unat interval)) (\<lambda>_.
        bindA (after ?e l1) (\<lambda>l2. poll_loop env interval timeout body after ?e l2))"
    from True have "unat timeout - unat ?e < unat timeout - unat elapsed"
      by (simp add: saturating_add_progress)
    note IH = less [OF this]
    have "sleeps_at_most (unat interval + (0 + ?n ?e)) (?rest l1)" for l1
      by (intro costs_bind sleeps_sleep sleeps_adds after_awake IH) simp
    moreover have "unat interval + (0 + ?n ?e) \<le> ?n elapsed"
      using mult_le_mono1 [OF rounds_step [of elapsed timeout interval]] True by simp
    ultimately have rest: "sleeps_at_most (?n elapsed) (?rest l1)" for l1
      by (rule costs_mono)
    have "sleeps_at_most (0 + ?n elapsed)
       (bindA (body elapsed l) (\<lambda>(r, l1). case r of Some a \<Rightarrow> retA (Inl a) | None \<Rightarrow> ?rest l1))"
      by (rule costs_bind [OF sleeps_adds [OF body_awake]]) (auto intro: rest split: prod.split option.split)
    with True show ?thesis by (subst poll_loop.simps) simp
  next
    case False
    then show ?thesis by (subst poll_loop.simps) auto
  qed
qed

text \<open>A wait overruns its budget by less than one interval.\<close>

lemma loop_budget:
  assumes "unat timeout + (unat interval - 1) \<le> n"
  shows "sleeps_at_most n (poll_loop env interval timeout body after 0 l)"
  using loop_sleeps rounds_budget assms by (rule costs_mono [OF _ le_trans])

end

lemma until_budget:
  assumes "\<And>e. adds awake (body e)" "unat timeout + (unat interval - 1) \<le> n"
  shows "sleeps_at_most n (poll_until env interval timeout body)"
proof -
  have "poll_body (\<lambda>e _. bindA (body e) (\<lambda>r. retA (r, ()))) (\<lambda>_ _. retA ())"
    by unfold_locales (auto intro!: adds_bind assms)
  from costs_bind [OF poll_body.loop_budget [OF this assms(2)],
      where j = 0 and f = "\<lambda>r. case r of Inl a \<Rightarrow> retA (Some a) | Inr _ \<Rightarrow> retA None"]
  show ?thesis unfolding poll_until_def by (simp add: split: sum.split)
qed

end
