(* ===== verification/Update_Plan.thy ===== *)
theory Update_Plan
  imports Config Virt_Conn Poll
begin

text \<open>
  What \<open>hbird update-cluster\<close> decides before it touches a node
  (\<open>hbird-cli/src/commands/update_cluster.rs\<close>): the validated timeouts (\<open>Timeouts::from_env\<close>)
  and the plan merged from the arguments, the configuration and, for a live run, the addresses
  libvirt reports (\<open>Plan::from_args\<close>). The time budgets are \<open>u32\<close>, here 32-bit words.
\<close>

section \<open>Arguments and timeouts\<close>

record update_args =
  ua_config :: string
  ua_kvm_host :: "string option"
  ua_no_sudo :: bool
  ua_workers_only :: bool
  ua_skip_drain :: bool
  ua_skip_gates :: bool
  ua_dry_run :: bool
  ua_continue_on_error :: bool
  ua_no_delete_emptydir_data :: bool
  ua_node :: "string option"
  ua_start_from :: "string option"
  ua_parallel :: "u32 option"
  ua_node_name_override :: "string list"

record timeouts =
  tm_drain :: string
  tm_ready :: u32
  tm_daemonset :: u32
  tm_apiserver :: u32
  tm_ssh :: u32
  tm_ssh_drop :: u32
  tm_inter_node_sleep :: u32
  tm_ssh_command :: u32

definition timeouts_default :: timeouts where
  "timeouts_default =
     \<lparr>tm_drain = ''5m'', tm_ready = 300, tm_daemonset = 300, tm_apiserver = 300, tm_ssh = 300,
      tm_ssh_drop = 30, tm_inter_node_sleep = 5, tm_ssh_command = 3600\<rparr>"

definition parse_u32_word :: "string \<Rightarrow> u32 option" where
  "parse_u32_word raw = map_option of_nat (parse_u32 raw)"

definition req_u32_strict_pos :: "string \<Rightarrow> string \<Rightarrow> (anyhow, u32) result" where
  "req_u32_strict_pos name raw =
     (let msg = name @ '' must be a positive integer of seconds, >0 (got: '' @ raw @ '')'' in
      if raw = [] \<or> \<not> (is_ascii_digit (hd raw) \<and> hd raw \<noteq> CHR ''0'') \<or> \<not> list_all is_ascii_digit (tl raw)
      then bail msg
      else ok_or [msg] (parse_u32_word raw))"

definition req_u32_nonneg :: "string \<Rightarrow> string \<Rightarrow> (anyhow, u32) result" where
  "req_u32_nonneg name raw =
     (let msg = name @ '' must be a positive integer of seconds (got: '' @ raw @ '')'' in
      if raw = [] \<or> \<not> list_all is_ascii_digit raw then bail msg
      else ok_or [msg] (parse_u32_word raw))"

definition drain_digits :: "string \<Rightarrow> string" where
  "drain_digits raw =
     (if raw \<noteq> [] \<and> (last raw = CHR ''s'' \<or> last raw = CHR ''m'' \<or> last raw = CHR ''h'')
      then butlast raw else raw)"

definition req_drain :: "string \<Rightarrow> (anyhow, string) result" where
  "req_drain raw =
     (if drain_digits raw = [] \<or> \<not> list_all is_ascii_digit (drain_digits raw)
      then bail (''DRAIN_TIMEOUT must match ^[0-9]+(s|m|h)?$ (got: '' @ raw @ '')'')
      else Ok raw)"

definition env_or :: "(string \<Rightarrow> string option) \<Rightarrow> string \<Rightarrow> string \<Rightarrow> string" where
  "env_or getenv name dflt = (case getenv name of Some v \<Rightarrow> v | None \<Rightarrow> dflt)"

definition timeouts_from_env :: "(string \<Rightarrow> string option) \<Rightarrow> (anyhow, timeouts) result" where
  "timeouts_from_env getenv =
     bind_r (req_drain (env_or getenv ''DRAIN_TIMEOUT'' ''5m'')) (\<lambda>drain.
     bind_r (req_u32_strict_pos ''READY_TIMEOUT'' (env_or getenv ''READY_TIMEOUT'' ''300'')) (\<lambda>ready.
     bind_r (req_u32_strict_pos ''DAEMONSET_TIMEOUT'' (env_or getenv ''DAEMONSET_TIMEOUT'' (show_u32 ready))) (\<lambda>daemonset.
     bind_r (req_u32_nonneg ''APISERVER_TIMEOUT'' (env_or getenv ''APISERVER_TIMEOUT'' ''300'')) (\<lambda>apiserver.
     bind_r (req_u32_nonneg ''SSH_TIMEOUT'' (env_or getenv ''SSH_TIMEOUT'' ''300'')) (\<lambda>ssh.
     bind_r (req_u32_strict_pos ''SSH_DROP_TIMEOUT'' (env_or getenv ''SSH_DROP_TIMEOUT'' ''30'')) (\<lambda>ssh_drop.
     bind_r (req_u32_nonneg ''INTER_NODE_SLEEP'' (env_or getenv ''INTER_NODE_SLEEP'' ''5'')) (\<lambda>inter_node_sleep.
     bind_r (req_u32_nonneg ''SSH_COMMAND_TIMEOUT'' (env_or getenv ''SSH_COMMAND_TIMEOUT'' ''3600'')) (\<lambda>ssh_command.
     Ok \<lparr>tm_drain = drain, tm_ready = ready, tm_daemonset = daemonset, tm_apiserver = apiserver, tm_ssh = ssh,
         tm_ssh_drop = ssh_drop, tm_inter_node_sleep = inter_node_sleep, tm_ssh_command = ssh_command\<rparr>))))))))"

section \<open>The plan\<close>

record plan =
  pl_config_path :: string
  pl_cp_name :: string
  pl_cp_ip :: string
  pl_worker_names :: "string list"
  pl_worker_ip_map :: "string \<rightharpoonup> string"
  pl_worker_k8s_name_map :: "string \<rightharpoonup> string"
  pl_cp_k8s_name :: string
  pl_workers_only :: bool
  pl_skip_drain :: bool
  pl_skip_gates :: bool
  pl_dry_run :: bool
  pl_continue_on_error :: bool
  pl_no_delete_emptydir_data :: bool
  pl_node_filter :: "string option"
  pl_start_from :: "string option"
  pl_parallel :: u32
  pl_kvm_host :: "string option"
  pl_no_sudo :: bool
  pl_timeouts :: timeouts

definition resolve_domain_ip_with :: "'w world connection \<Rightarrow> string \<Rightarrow> string \<Rightarrow> ('w, string) act" where
  "resolve_domain_ip_with conn at domain =
     matchA (domifaddr conn domain) (\<lambda>r.
       case r of
         Ok (Some ip) \<Rightarrow> retA (ipv4_display ip)
       | Ok None \<Rightarrow> failA [''libvirt domain '' @ [SQ] @ domain @ [SQ] @ '' has no IPv4 lease yet (queried via '' @ at
            @ ''). The VM may still be booting, or it may not be defined. Pin CP_IP= / ''
            @ ''WORKER_IPS=(...) in cluster.local.conf to bypass resolution.'']
       | Err e \<Rightarrow> failA ((''resolve IP via `virsh domifaddr '' @ domain @ ''` on '' @ at) # from_virt e))"

definition resolve_domain_ip :: "'w env \<Rightarrow> string option \<Rightarrow> string \<Rightarrow> ('w, string) act" where
  "resolve_domain_ip env kvm domain =
     resolve_domain_ip_with (build_connection env kvm)
       (case kvm of Some h \<Rightarrow> h | None \<Rightarrow> ''this host (no KVM_HOST set)'') domain"

definition nonempty :: "string option \<Rightarrow> string option" where
  "nonempty x = (case x of Some s \<Rightarrow> if s \<noteq> [] then Some s else None | None \<Rightarrow> None)"

fun resolve_workers :: "'w env \<Rightarrow> string option \<Rightarrow> string list \<Rightarrow> (string \<rightharpoonup> string) \<Rightarrow> ('w, string \<rightharpoonup> string) act" where
  "resolve_workers env kvm [] m = retA m"
| "resolve_workers env kvm (w # ws) m =
     bindA (resolve_domain_ip env kvm w) (\<lambda>ip. resolve_workers env kvm ws (m(w \<mapsto> ip)))"

definition PLACEHOLDER :: string where "PLACEHOLDER = ''<resolved-at-runtime>''"

definition resolve_ips ::
  "'w env \<Rightarrow> update_args \<Rightarrow> cluster_config \<Rightarrow> string list \<Rightarrow> ('w, string \<times> (string \<rightharpoonup> string)) act" where
  "resolve_ips env args config workers =
     (if ua_dry_run args then
        retA (PLACEHOLDER, foldl (\<lambda>m w. m(w \<mapsto> PLACEHOLDER)) Map.empty workers)
      else
        (let kvm = nonempty (case ua_kvm_host args of Some h \<Rightarrow> Some h | None \<Rightarrow> kvm_host config) in
         bindA (case nonempty (cp_ip config) of
                  Some ip \<Rightarrow> retA ip
                | None \<Rightarrow> resolve_domain_ip env kvm (cp_name config)) (\<lambda>cp.
         case worker_ips config of
           Some ips \<Rightarrow>
             if length ips \<noteq> length workers then
               failA [''WORKER_IPS ('' @ show_nat (length ips) @ '') and WORKER_NAMES ('' @ show_nat (length workers)
                 @ '') must be the same length'']
             else retA (cp, foldl (\<lambda>m (w, ip). m(w \<mapsto> ip)) Map.empty (zip workers ips))
         | None \<Rightarrow> bindA (resolve_workers env kvm workers Map.empty) (\<lambda>m. retA (cp, m)))))"

definition override_pair ::
  "string \<Rightarrow> string list \<Rightarrow> string \<Rightarrow> (string \<rightharpoonup> string) \<Rightarrow> (anyhow, string \<rightharpoonup> string) result" where
  "override_pair cp workers pair m =
     (if pair = [] then Ok m
      else
        (case split_once (CHR ''='') pair of
           None \<Rightarrow> bail (''--node-name-override expects DOMAIN=NODE (got: '' @ [SQ] @ pair @ [SQ] @ '')'')
         | Some (dm, node) \<Rightarrow>
             if dm = [] then bail (''--node-name-override DOMAIN cannot be empty (got: '' @ [SQ] @ pair @ [SQ] @ '')'')
             else if node = [] then bail (''--node-name-override NODE cannot be empty (got: '' @ [SQ] @ pair @ [SQ] @ '')'')
             else if \<not> (dm = cp \<or> dm \<in> set workers) then
               bail (''--node-name-override DOMAIN '' @ [SQ] @ dm @ [SQ] @ '' does not match CP_NAME or any WORKER_NAMES entry'')
             else Ok (m(dm \<mapsto> node))))"

fun override_pairs ::
  "string \<Rightarrow> string list \<Rightarrow> string list \<Rightarrow> (string \<rightharpoonup> string) \<Rightarrow> (anyhow, string \<rightharpoonup> string) result" where
  "override_pairs cp workers [] m = Ok m"
| "override_pairs cp workers (p # ps) m =
     bind_r (override_pair cp workers p m) (override_pairs cp workers ps)"

fun override_entries ::
  "string \<Rightarrow> string list \<Rightarrow> string list \<Rightarrow> (string \<rightharpoonup> string) \<Rightarrow> (anyhow, string \<rightharpoonup> string) result" where
  "override_entries cp workers [] m = Ok m"
| "override_entries cp workers (e # es) m =
     (if e = [] then
        bail (''--node-name-override requires a non-empty DOMAIN=NODE ''
          @ ''(or comma-separated list); got an empty string'')
      else bind_r (override_pairs cp workers (split_on (CHR '','') e) m) (override_entries cp workers es))"

definition resolve_k8s :: "(string \<rightharpoonup> string) \<Rightarrow> string \<Rightarrow> string" where
  "resolve_k8s m domain = (case m domain of Some n \<Rightarrow> n | None \<Rightarrow> domain)"

definition plan_from_args ::
  "'w env \<Rightarrow> update_args \<Rightarrow> cluster_config \<Rightarrow> timeouts \<Rightarrow> ('w, plan) act" where
  "plan_from_args env args config tms =
     (if ua_workers_only args \<and> ua_node args \<noteq> None then
        failA [''--workers-only and --node= are mutually exclusive'']
      else if ua_node args \<noteq> None \<and> ua_start_from args \<noteq> None then
        failA [''--node= and --start-from= are mutually exclusive (--node is single-node mode; --start-from is resume mode)'']
      else
        (let parallel = (case ua_parallel args of Some n \<Rightarrow> n | None \<Rightarrow> 1);
             workers = resolved_worker_names config in
         if parallel < 1 then
           failA [''--parallel=N requires a positive integer (got: '' @ show_u32 parallel @ '')'']
         else
           bindA (resolve_ips env args config workers) (\<lambda>(cp, ips).
             if (case ua_start_from args of Some sf \<Rightarrow> sf \<notin> set workers | None \<Rightarrow> False) then
               failA [''--start-from='' @ the (ua_start_from args) @ '' did not match any WORKER_NAMES entry'']
             else
               bindA (liftA (override_entries (cp_name config) workers (ua_node_name_override args) Map.empty)) (\<lambda>ovr.
               retA
                 \<lparr>pl_config_path = ua_config args, pl_cp_name = cp_name config, pl_cp_ip = cp,
                  pl_worker_names = workers, pl_worker_ip_map = ips,
                  pl_worker_k8s_name_map = foldl (\<lambda>m w. m(w \<mapsto> resolve_k8s ovr w)) Map.empty workers,
                  pl_cp_k8s_name = resolve_k8s ovr (cp_name config),
                  pl_workers_only = ua_workers_only args, pl_skip_drain = ua_skip_drain args,
                  pl_skip_gates = ua_skip_gates args, pl_dry_run = ua_dry_run args,
                  pl_continue_on_error = ua_continue_on_error args,
                  pl_no_delete_emptydir_data = ua_no_delete_emptydir_data args,
                  pl_node_filter = ua_node args, pl_start_from = ua_start_from args,
                  pl_parallel = parallel, pl_kvm_host = ua_kvm_host args, pl_no_sudo = ua_no_sudo args,
                  pl_timeouts = tms\<rparr>))))"

fun workers_from :: "string \<Rightarrow> string list \<Rightarrow> bool \<Rightarrow> string list" where
  "workers_from sf [] seen = []"
| "workers_from sf (w # ws) seen =
     (let seen' = (seen \<or> w = sf) in
      if seen' then w # workers_from sf ws seen' else workers_from sf ws seen')"

definition workers_to_run :: "plan \<Rightarrow> string list" where
  "workers_to_run plan =
     (case pl_start_from plan of
        Some sf \<Rightarrow> workers_from sf (pl_worker_names plan) False
      | None \<Rightarrow> pl_worker_names plan)"

section \<open>Timeouts\<close>

definition timeouts_ok :: "timeouts \<Rightarrow> bool" where
  "timeouts_ok t \<longleftrightarrow> 0 < tm_ready t \<and> 0 < tm_daemonset t \<and> 0 < tm_ssh_drop t
     \<and> drain_digits (tm_drain t) \<noteq> [] \<and> list_all is_ascii_digit (drain_digits (tm_drain t))"

lemma digits_val_pos:
  assumes "list_all is_ascii_digit (c # cs)" "c \<noteq> CHR ''0''"
  shows "0 < digits_val (c # cs)"
proof -
  have "show_nat (digits_val (c # cs)) = c # cs"
    using assms by (intro show_nat_digits_val) auto
  with assms(2) show ?thesis
    by (cases "digits_val (c # cs) = 0") (auto simp: show_nat.simps digit_char_def)
qed

lemma parse_u32_word_unat: "parse_u32_word s = Some n \<longleftrightarrow> parse_u32 s = Some (unat n)"
proof
  assume "parse_u32_word s = Some n"
  then obtain k where k: "parse_u32 s = Some k" "n = of_nat k"
    by (auto simp: parse_u32_word_def)
  from parse_uint_bound [OF k(1)] have "k < 2 ^ 32" by (simp add: U32_MAX_def)
  with k show "parse_u32 s = Some (unat n)" by (simp add: unat_of_nat take_bit_nat_eq_self)
qed (simp add: parse_u32_word_def)

lemma req_u32_strict_pos_Ok:
  assumes "req_u32_strict_pos name raw = Ok n"
  shows "0 < n \<and> raw = show_u32 n"
proof -
  from assms obtain c cs where raw: "raw = c # cs" "is_ascii_digit c" "c \<noteq> CHR ''0''" "list_all is_ascii_digit cs"
    and p: "parse_u32_word raw = Some n"
    by (cases raw) (auto simp: req_u32_strict_pos_def Let_def split: if_splits)
  from raw p have n: "unat n = digits_val raw"
    using parse_uint_digits [of raw U32_MAX] by (auto simp: parse_u32_word_unat split: if_splits)
  with raw digits_val_pos [of c cs] have "0 < unat n" by simp
  moreover have "raw = show_u32 n" using raw n show_nat_digits_val [of raw] by simp
  ultimately show ?thesis by (simp add: word_less_nat_alt)
qed

lemma req_u32_strict_pos_show:
  assumes "0 < n"
  shows "req_u32_strict_pos name (show_u32 n) = Ok n"
proof -
  obtain c cs where s: "show_u32 n = c # cs" by (cases "show_u32 n") auto
  with show_nat_digits [of "unat n"] have d: "is_ascii_digit c" "list_all is_ascii_digit cs" by auto
  from assms show_nat_hd [of "unat n"] s have "c \<noteq> CHR ''0''" by (simp add: word_less_nat_alt)
  moreover have "parse_u32 (c # cs) = Some (unat n)"
    using parse_show_nat [of U32_MAX "unat n"] s u32_bound [of n] by simp
  then have "parse_u32_word (c # cs) = Some n" by (simp add: parse_u32_word_unat)
  ultimately show ?thesis using d s by (simp add: req_u32_strict_pos_def)
qed

text \<open>Every timeout configuration the environment yields is usable: the readiness, DaemonSet and
  SSH-drop budgets are positive, the drain budget is digits with an optional unit; an unset
  \<open>DAEMONSET_TIMEOUT\<close> is the readiness budget; and with nothing set the result is the documented
  default.\<close>

theorem timeouts_from_env_ok:
  "timeouts_from_env (\<lambda>_. None) = Ok timeouts_default
   \<and> (timeouts_from_env getenv = Ok t \<longrightarrow> timeouts_ok t
        \<and> (getenv ''DAEMONSET_TIMEOUT'' = None \<longrightarrow> tm_daemonset t = tm_ready t))"
proof (intro conjI impI)
  show "timeouts_from_env (\<lambda>_. None) = Ok timeouts_default"
    unfolding timeouts_default_def by code_simp
next
  assume ok: "timeouts_from_env getenv = Ok t"
  then show "timeouts_ok t"
    by (auto simp: timeouts_from_env_def timeouts_ok_def req_drain_def dest: req_u32_strict_pos_Ok split: if_splits)
  assume "getenv ''DAEMONSET_TIMEOUT'' = None"
  with ok show "tm_daemonset t = tm_ready t"
    by (auto simp: timeouts_from_env_def env_or_def req_u32_strict_pos_show dest: req_u32_strict_pos_Ok)
qed

theorem timeouts_from_env_ok_witness:
  "timeouts_ok (ok_val (timeouts_from_env ((\<lambda>_. None)(''READY_TIMEOUT'' := Some ''60''))))
   \<and> tm_daemonset (ok_val (timeouts_from_env ((\<lambda>_. None)(''READY_TIMEOUT'' := Some ''60'')))) = 60"
proof -
  let ?g = "(\<lambda>_. None)(''READY_TIMEOUT'' := Some ''60'')"
  have ok: "is_ok (timeouts_from_env ?g) \<and> tm_ready (ok_val (timeouts_from_env ?g)) = 60" by code_simp
  then obtain t where t: "timeouts_from_env ?g = Ok t" by (auto simp: is_ok_iff)
  with timeouts_from_env_ok [of ?g t] ok show ?thesis by simp
qed

section \<open>Well-formed plans\<close>

definition plan_wf :: "plan \<Rightarrow> bool" where
  "plan_wf p \<longleftrightarrow> 1 \<le> pl_parallel p
     \<and> dom (pl_worker_ip_map p) = set (pl_worker_names p)
     \<and> dom (pl_worker_k8s_name_map p) = set (pl_worker_names p)
     \<and> (\<forall>sf. pl_start_from p = Some sf \<longrightarrow> sf \<in> set (pl_worker_names p) \<and> pl_node_filter p = None)
     \<and> (pl_workers_only p \<longrightarrow> pl_node_filter p = None)"

lemma dom_foldl_upd: "dom (foldl (\<lambda>m w. m(w \<mapsto> f w)) m ws) = dom m \<union> set ws"
  by (induction ws arbitrary: m) auto

lemma dom_foldl_zip:
  "length ips = length ws \<Longrightarrow> dom (foldl (\<lambda>m (w, ip). m(w \<mapsto> ip)) m (zip ws ips)) = dom m \<union> set ws"
  by (induction ws ips arbitrary: m rule: list_induct2') auto

lemma resolve_workers_dom:
  "resolve_workers env kvm ws m w = (Ok m', w') \<Longrightarrow> dom m' = dom m \<union> set ws"
proof (induction ws arbitrary: m w)
  case (Cons x ws)
  then obtain ip w1 where "resolve_domain_ip env kvm x w = (Ok ip, w1)"
    and r: "resolve_workers env kvm ws (m(x \<mapsto> ip)) w1 = (Ok m', w')"
    by (auto simp: bindA_def split: prod.splits result.splits)
  from Cons.IH [OF r] show ?case by auto
qed simp

lemma resolve_ips_dom:
  assumes "resolve_ips env args config ws w = (Ok (cp, m), w')"
  shows "dom m = set ws"
proof (cases "ua_dry_run args")
  case True
  with assms have "m = foldl (\<lambda>m w. m(w \<mapsto> PLACEHOLDER)) Map.empty ws" by (simp add: resolve_ips_def)
  then show ?thesis using dom_foldl_upd [of "\<lambda>_. PLACEHOLDER" Map.empty ws] by simp
next
  case False
  show ?thesis
  proof (cases "worker_ips config")
    case None
    with assms False obtain w1 where "resolve_workers env
        (nonempty (case ua_kvm_host args of Some h \<Rightarrow> Some h | None \<Rightarrow> kvm_host config)) ws Map.empty w1 = (Ok m, w')"
      by (auto simp: resolve_ips_def bindA_def Let_def split: prod.splits result.splits)
    from resolve_workers_dom [OF this] show ?thesis by simp
  next
    case (Some ips)
    with assms False have "length ips = length ws" "m = foldl (\<lambda>m (w, ip). m(w \<mapsto> ip)) Map.empty (zip ws ips)"
      by (auto simp: resolve_ips_def bindA_def Let_def split: prod.splits result.splits if_splits)
    then show ?thesis by (simp add: dom_foldl_zip)
  qed
qed

lemma plan_from_args_fields:
  assumes "plan_from_args env args config tms w = (Ok p, w')"
  shows "plan_wf p \<and> pl_dry_run p = ua_dry_run args \<and> pl_worker_names p = resolved_worker_names config
    \<and> pl_timeouts p = tms \<and> pl_continue_on_error p = ua_continue_on_error args"
proof -
  let ?ws = "resolved_worker_names config"
  from assms obtain cp ips w1 ovr where
    m: "\<not> (ua_workers_only args \<and> ua_node args \<noteq> None)" "\<not> (ua_node args \<noteq> None \<and> ua_start_from args \<noteq> None)"
      "\<not> (case ua_start_from args of Some sf \<Rightarrow> sf \<notin> set ?ws | None \<Rightarrow> False)"
      "\<not> (case ua_parallel args of Some n \<Rightarrow> n | None \<Rightarrow> 1) < 1"
    and ips: "resolve_ips env args config ?ws w = (Ok (cp, ips), w1)"
    and p: "p = \<lparr>pl_config_path = ua_config args, pl_cp_name = cp_name config, pl_cp_ip = cp,
                  pl_worker_names = ?ws, pl_worker_ip_map = ips,
                  pl_worker_k8s_name_map = foldl (\<lambda>m w. m(w \<mapsto> resolve_k8s ovr w)) Map.empty ?ws,
                  pl_cp_k8s_name = resolve_k8s ovr (cp_name config),
                  pl_workers_only = ua_workers_only args, pl_skip_drain = ua_skip_drain args,
                  pl_skip_gates = ua_skip_gates args, pl_dry_run = ua_dry_run args,
                  pl_continue_on_error = ua_continue_on_error args,
                  pl_no_delete_emptydir_data = ua_no_delete_emptydir_data args,
                  pl_node_filter = ua_node args, pl_start_from = ua_start_from args,
                  pl_parallel = (case ua_parallel args of Some n \<Rightarrow> n | None \<Rightarrow> 1), pl_kvm_host = ua_kvm_host args,
                  pl_no_sudo = ua_no_sudo args, pl_timeouts = tms\<rparr>"
    unfolding plan_from_args_def Let_def
    by (simp add: bindA_def split: if_splits prod.splits result.splits) blast
  from m(4) have "1 \<le> (case ua_parallel args of Some n \<Rightarrow> n | None \<Rightarrow> 1)" by (simp only: not_less)
  with m p resolve_ips_dom [OF ips] show ?thesis
    by (simp add: plan_wf_def dom_foldl_upd split: option.splits)
qed

text \<open>A plan that is built is well-formed: the parallelism is positive, every worker (and only
  they) has an address and a node name, \<open>--start-from\<close> names a worker, and the mutually exclusive
  modes are not combined; in a dry run building it does not touch the world.\<close>

theorem plan_from_args_wf:
  assumes "plan_from_args env args config tms w = (Ok p, w')"
  shows "plan_wf p \<and> (ua_dry_run args \<longrightarrow> w' = w)"
proof -
  have "ua_dry_run args \<longrightarrow> w' = w"
    using assms unfolding plan_from_args_def
    by (auto simp: Let_def resolve_ips_def bindA_def liftA_def split: if_splits prod.splits result.splits)
  with plan_from_args_fields [OF assms] show ?thesis by blast
qed

definition demo_args :: update_args where
  "demo_args = \<lparr>ua_config = ''cluster.conf'', ua_kvm_host = None, ua_no_sudo = False, ua_workers_only = False,
     ua_skip_drain = False, ua_skip_gates = False, ua_dry_run = True, ua_continue_on_error = False,
     ua_no_delete_emptydir_data = False, ua_node = None, ua_start_from = Some ''cp-w2'', ua_parallel = Some 2,
     ua_node_name_override = [''cp-w1=node1,cp=master'']\<rparr>"

definition demo_plan :: plan where
  "demo_plan = ok_val (fst (plan_from_args (null_env :: unit env) demo_args (default_config ''cp'' ''k'') timeouts_default
     \<lparr>w_ext = (), w_trace = []\<rparr>))"

lemma demo_plan_ok:
  "plan_from_args (null_env :: unit env) demo_args (default_config ''cp'' ''k'') timeouts_default \<lparr>w_ext = (), w_trace = []\<rparr>
     = (Ok demo_plan, \<lparr>w_ext = (), w_trace = []\<rparr>)"
proof -
  let ?x = "plan_from_args (null_env :: unit env) demo_args (default_config ''cp'' ''k'') timeouts_default \<lparr>w_ext = (), w_trace = []\<rparr>"
  have "is_ok (fst ?x) \<and> w_trace (snd ?x) = []" by code_simp
  then show ?thesis unfolding demo_plan_def by (cases ?x) (auto simp: is_ok_iff)
qed

theorem plan_from_args_wf_witness: "plan_wf demo_plan \<and> pl_worker_names demo_plan = [''cp-w1'', ''cp-w2'']"
proof -
  have "pl_worker_names demo_plan = [''cp-w1'', ''cp-w2'']" by code_simp
  with plan_from_args_wf [OF demo_plan_ok] show ?thesis by blast
qed

section \<open>Resuming\<close>

lemma workers_from_seen [simp]: "workers_from sf ws True = ws"
  by (induction ws) auto

lemma workers_from_split:
  "sf \<in> set ws \<Longrightarrow> \<exists>pre rest. ws = pre @ sf # rest \<and> sf \<notin> set pre \<and> workers_from sf ws False = sf # rest"
proof (induction ws)
  case (Cons w ws)
  show ?case
  proof (cases "w = sf")
    case True
    then show ?thesis by (intro exI [of _ "[]"] exI [of _ ws]) simp
  next
    case False
    with Cons obtain pre rest where "ws = pre @ sf # rest" "sf \<notin> set pre"
      "workers_from sf ws False = sf # rest" by auto
    with False show ?thesis by (intro exI [of _ "w # pre"] exI [of _ rest]) auto
  qed
qed simp

text \<open>The resume mode of a well-formed plan: the workers to run are the suffix of the configured
  list that begins at the first occurrence of the named worker, in the configured order;
  without \<open>--start-from\<close> they are the whole list.\<close>

theorem workers_to_run_suffix:
  assumes "plan_wf p"
  shows "case pl_start_from p of
      None \<Rightarrow> workers_to_run p = pl_worker_names p
    | Some sf \<Rightarrow> \<exists>pre rest. pl_worker_names p = pre @ sf # rest \<and> sf \<notin> set pre \<and> workers_to_run p = sf # rest"
  using assms workers_from_split by (auto simp: plan_wf_def workers_to_run_def split: option.splits)

theorem workers_to_run_suffix_witness: "workers_to_run demo_plan = [''cp-w2'']"
proof -
  have "plan_wf demo_plan" using plan_from_args_fields [OF demo_plan_ok] by blast
  note s = workers_to_run_suffix [OF this]
  have "pl_start_from demo_plan = Some ''cp-w2''" "pl_worker_names demo_plan = [''cp-w1'', ''cp-w2'']"
    by code_simp+
  with s show ?thesis by (auto simp: Cons_eq_append_conv)
qed

end
