(* ===== verification/Update_Gates.thy ===== *)
theory Update_Gates
  imports Update_Plan Cp_Kubectl
begin

text \<open>
  The steps of a rolling update on one node (\<open>update_cluster.rs\<close>): kubectl on the control
  plane, the auto-update timers, the upgrade itself with the classification of its outcome,
  and the waits after the reboot (SSH, API server, boot ID, Ready, DaemonSets).

  The thread-local log prefix of the batch mode is the argument \<open>lp\<close>; tracing is left out.
\<close>

abbreviation EMDASH :: string where "EMDASH \<equiv> [CHR 0xE2, CHR 0x80, CHR 0x94]"

section \<open>Logging\<close>

definition log :: "string \<Rightarrow> string \<Rightarrow> ('w world, 'e, unit) action" where
  "log lp line = println (lp @ ''[update-cluster] '' @ line)"

definition log_err :: "string \<Rightarrow> string \<Rightarrow> ('w world, 'e, unit) action" where
  "log_err lp line = eprintln (lp @ ''[update-cluster] '' @ line)"

text \<open>A stream is logged line by line unless it is blank.\<close>

definition log_lines :: "(string \<Rightarrow> ('w world, 'e, unit) action) \<Rightarrow> string \<Rightarrow> ('w world, 'e, unit) action" where
  "log_lines lg s = whenA (trim s \<noteq> []) (forA (lines s) lg)"

section \<open>SSH and kubectl\<close>

definition cp_ssh_opts :: "plan \<Rightarrow> ssh_options" where
  "cp_ssh_opts plan =
     (let opts = with_user ''root'' (ssh_options_new (pl_cp_ip plan)) in
      case pl_kvm_host plan of Some jump \<Rightarrow> with_proxy_jump jump opts | None \<Rightarrow> opts)"

definition node_ssh_opts :: "plan \<Rightarrow> string \<Rightarrow> ssh_options" where
  "node_ssh_opts plan ip =
     (let opts = with_user ''root'' (ssh_options_new ip);
          opts = (case pl_kvm_host plan of Some jump \<Rightarrow> with_proxy_jump jump opts | None \<Rightarrow> opts) in
      if 0 < tm_ssh_command (pl_timeouts plan)
      then with_command_timeout (from_secs (unat (tm_ssh_command (pl_timeouts plan)))) opts else opts)"

definition cp_kubectl_live :: "'w env \<Rightarrow> string \<Rightarrow> plan \<Rightarrow> string \<Rightarrow> ('w, string) act" where
  "cp_kubectl_live env lp plan command =
     bindA (liftA (reject_shell_metachars ''cp_kubectl'' command)) (\<lambda>_.
     bindA (ssh_ctx (ssh_run env (cp_ssh_opts plan) (kubectl_remote command))
              (''cp_kubectl: ssh-run failed for `kubectl ... '' @ command @ ''` against '' @ pl_cp_ip plan)) (\<lambda>output.
     bindA (log_lines (log lp) (ro_stdout output)) (\<lambda>_.
     bindA (log_lines (log_err lp) (ro_stderr output)) (\<lambda>_.
     retA (ro_stdout output)))))"

definition cp_kubectl :: "'w env \<Rightarrow> string \<Rightarrow> plan \<Rightarrow> string \<Rightarrow> ('w, string) act" where
  "cp_kubectl env lp plan command =
     (if pl_dry_run plan then
        bindA (log lp (''DRY-RUN cp_kubectl -- '' @ command)) (\<lambda>_. retA [])
      else cp_kubectl_live env lp plan command)"

section \<open>The auto-update timers\<close>

definition TIMER_STOP :: string where
  "TIMER_STOP = ''systemctl stop bootc-semver-update.timer bootc-fetch-apply-updates.timer 2>/dev/null || true''"

definition TIMER_START_PROBE :: string where
  "TIMER_START_PROBE = ''bash -c '' @ [CHR 0x22, NL]
     @ ''    if systemctl cat bootc-semver-update.timer >/dev/null 2>&1; then'' @ [NL]
     @ ''      systemctl start bootc-semver-update.timer'' @ [NL]
     @ ''    elif systemctl cat bootc-fetch-apply-updates.timer >/dev/null 2>&1; then'' @ [NL]
     @ ''      systemctl start bootc-fetch-apply-updates.timer'' @ [NL]
     @ ''    else'' @ [NL]
     @ ''      exit 44'' @ [NL]
     @ ''    fi'' @ [NL]
     @ ''  '' @ [CHR 0x22]"

type_synonym 'w exec = "string \<Rightarrow> ('w world, ssh_error, run_output) action"

definition timer_stop_with_exec :: "'w exec \<Rightarrow> string \<Rightarrow> string \<Rightarrow> ('w, unit) act" where
  "timer_stop_with_exec exec lp ip =
     matchA (exec TIMER_STOP) (\<lambda>r.
       case r of
         Err e \<Rightarrow> log lp (''  WARN: '' @ ip @ '': could not stop bootc auto-update timer(s): '' @ ssh_error_display e)
       | Ok _ \<Rightarrow> retA ())"

definition timer_stop :: "'w env \<Rightarrow> string \<Rightarrow> plan \<Rightarrow> string \<Rightarrow> ('w, unit) act" where
  "timer_stop env lp plan ip =
     (if pl_dry_run plan then
        log lp (''DRY-RUN ssh root@'' @ ip @ '' systemctl stop bootc-semver-update.timer bootc-fetch-apply-updates.timer'')
      else if pl_skip_drain plan then
        log lp (''  --skip-drain set: leaving bootc-*-update.timer alone on '' @ ip)
      else timer_stop_with_exec (ssh_run env (node_ssh_opts plan ip)) lp ip)"

definition timer_start_with_exec :: "'w exec \<Rightarrow> string \<Rightarrow> string \<Rightarrow> ('w, unit) act" where
  "timer_start_with_exec exec lp ip =
     matchA (exec TIMER_START_PROBE) (\<lambda>r.
       case r of
         Ok _ \<Rightarrow> retA ()
       | Err (NonZeroExit h status out err) \<Rightarrow>
           if exit_code status = Some 44 then
             log lp (''  WARN: '' @ ip @ '': bootc auto-update timer not restored (no semver/fetch-apply timer present)'')
           else
             log lp (''  WARN: '' @ ip @ '': bootc auto-update timer not restored (systemctl start failed: ''
               @ ssh_error_display (NonZeroExit h status out err) @ '')'')
       | Err e \<Rightarrow>
           log lp (''  WARN: '' @ ip @ '': bootc auto-update timer not restored (systemctl start failed: ''
             @ ssh_error_display e @ '')''))"

definition timer_start :: "'w env \<Rightarrow> string \<Rightarrow> plan \<Rightarrow> string \<Rightarrow> ('w, unit) act" where
  "timer_start env lp plan ip =
     (if pl_dry_run plan then
        log lp (''DRY-RUN ssh root@'' @ ip @ '' systemctl start bootc-semver-update.timer'')
      else if pl_skip_drain plan then retA ()
      else timer_start_with_exec (ssh_run env (node_ssh_opts plan ip)) lp ip)"

section \<open>Waiting for SSH\<close>

definition wait_ssh_back_with ::
  "'w env \<Rightarrow> 'w exec \<Rightarrow> string \<Rightarrow> string \<Rightarrow> u32 \<Rightarrow> bool \<Rightarrow> ('w, unit) act" where
  "wait_ssh_back_with env exec lp ip timeout dry_run =
     bindA (log lp (''waiting for SSH to come back on '' @ ip @ '' (timeout '' @ show_u32 timeout @ ''s)'')) (\<lambda>_.
     if dry_run then log lp (''DRY-RUN would poll ssh root@'' @ ip)
     else
       bindA (poll_until env 5 timeout (\<lambda>elapsed.
           matchA (exec ''true'') (\<lambda>r.
             case r of
               Ok _ \<Rightarrow> bindA (log lp (''SSH back on '' @ ip @ '' after ~'' @ show_u32 elapsed @ ''s'')) (\<lambda>_. retA (Some ()))
             | Err _ \<Rightarrow> retA None))) (\<lambda>r.
       case r of
         Some _ \<Rightarrow> retA ()
       | None \<Rightarrow> failA [''wait_ssh_back: SSH on '' @ ip @ '' did not come back within '' @ show_u32 timeout @ ''s'']))"

definition wait_ssh_back :: "'w env \<Rightarrow> string \<Rightarrow> plan \<Rightarrow> string \<Rightarrow> ('w, unit) act" where
  "wait_ssh_back env lp plan ip =
     wait_ssh_back_with env (ssh_run env (with_connect_timeout (from_secs 3) (node_ssh_opts plan ip))) lp ip
       (tm_ssh (pl_timeouts plan)) (pl_dry_run plan)"

definition wait_ssh_drop_with ::
  "'w env \<Rightarrow> 'w exec \<Rightarrow> string \<Rightarrow> string \<Rightarrow> u32 \<Rightarrow> bool \<Rightarrow> ('w, unit) act" where
  "wait_ssh_drop_with env exec lp ip mx dry_run =
     (if dry_run then log lp (''DRY-RUN wait_ssh_drop '' @ ip @ '' (would poll up to '' @ show_u32 mx @ ''s)'')
      else
        bindA (log lp (''waiting for SSH on '' @ ip @ '' to drop (timeout '' @ show_u32 mx @ ''s)'')) (\<lambda>_.
        bindA (poll_until env 1 mx (\<lambda>elapsed.
            matchA (exec ''true'') (\<lambda>r.
              case r of
                Err _ \<Rightarrow> bindA (log lp (''  SSH on '' @ ip @ '' dropped after ~'' @ show_u32 elapsed
                          @ ''s (reboot in progress)'')) (\<lambda>_. retA (Some ()))
              | Ok _ \<Rightarrow> retA None))) (\<lambda>r.
        case r of
          Some _ \<Rightarrow> retA ()
        | None \<Rightarrow> log lp (''  WARN: SSH on '' @ ip @ '' still up after '' @ show_u32 mx @ ''s '' @ EMDASH
                    @ '' bootc may have queued without rebooting''))))"

definition wait_ssh_drop :: "'w env \<Rightarrow> string \<Rightarrow> plan \<Rightarrow> string \<Rightarrow> ('w, unit) act" where
  "wait_ssh_drop env lp plan ip =
     wait_ssh_drop_with env (ssh_run env (with_connect_timeout (from_secs 3) (node_ssh_opts plan ip))) lp ip
       (tm_ssh_drop (pl_timeouts plan)) (pl_dry_run plan)"

section \<open>Waiting for the API server and the node\<close>

definition wait_apiserver_back :: "'w env \<Rightarrow> string \<Rightarrow> plan \<Rightarrow> ('w, unit) act" where
  "wait_apiserver_back env lp plan =
     (let timeout = tm_apiserver (pl_timeouts plan); cp = pl_cp_ip plan in
      bindA (log lp (''waiting for apiserver on CP ('' @ cp @ '') to answer (timeout '' @ show_u32 timeout @ ''s)'')) (\<lambda>_.
      if pl_dry_run plan then log lp (''DRY-RUN would poll apiserver via ssh root@'' @ cp @ '' kubectl get nodes'')
      else
        bindA (poll_until env 10 timeout (\<lambda>elapsed.
            matchA (cp_kubectl env lp plan ''get --raw=/readyz'') (\<lambda>r.
              case r of
                Ok _ \<Rightarrow> bindA (log lp (''apiserver back after ~'' @ show_u32 elapsed @ ''s'')) (\<lambda>_. retA (Some ()))
              | Err _ \<Rightarrow> retA None))) (\<lambda>r.
        case r of
          Some _ \<Rightarrow> retA ()
        | None \<Rightarrow> failA [''wait_apiserver_back: apiserver did not return within '' @ show_u32 timeout @ ''s''])))"

definition ready_line :: "string \<Rightarrow> bool" where
  "ready_line line =
     (case split_whitespace line of
        _ # status # _ \<Rightarrow> status = ''Ready'' \<or> starts_with ''Ready,'' status
      | _ \<Rightarrow> False)"

definition stdout_has_ready_status :: "string \<Rightarrow> bool" where
  "stdout_has_ready_status out = list_ex ready_line (lines out)"

definition ready_cmd :: "string \<Rightarrow> string" where
  "ready_cmd node = ''get node '' @ node @ '' --no-headers''"

definition wait_node_ready :: "'w env \<Rightarrow> string \<Rightarrow> plan \<Rightarrow> string \<Rightarrow> ('w, unit) act" where
  "wait_node_ready env lp plan node =
     (let timeout = tm_ready (pl_timeouts plan) in
      bindA (log lp (''waiting for node '' @ node @ '' to report Ready (timeout '' @ show_u32 timeout @ ''s)'')) (\<lambda>_.
      if pl_dry_run plan then log lp (''DRY-RUN would poll kubectl get node '' @ node)
      else
        bindA (poll_until env 10 timeout (\<lambda>elapsed.
            matchA (cp_kubectl env lp plan (ready_cmd node)) (\<lambda>r.
              case r of
                Ok out \<Rightarrow>
                  if stdout_has_ready_status out then
                    bindA (log lp (''node '' @ node @ '' Ready after ~'' @ show_u32 elapsed @ ''s'')) (\<lambda>_. retA (Some ()))
                  else retA None
              | Err _ \<Rightarrow> retA None))) (\<lambda>r.
        case r of
          Some _ \<Rightarrow> retA ()
        | None \<Rightarrow> failA [''wait_node_ready: node '' @ node @ '' did not reach Ready within '' @ show_u32 timeout @ ''s''])))"

section \<open>The boot ID\<close>

definition bootid_cmd :: "string \<Rightarrow> string" where
  "bootid_cmd node = ''get node '' @ node @ '' -o jsonpath='' @ [SQ] @ ''{.status.nodeInfo.bootID}'' @ [SQ]"

text \<open>\<open>for attempt in 1..=3\<close>, counting the attempts left.\<close>

fun capture_attempts :: "'w env \<Rightarrow> string \<Rightarrow> plan \<Rightarrow> string \<Rightarrow> nat \<Rightarrow> ('w, string option) act" where
  "capture_attempts env lp plan node 0 = retA None"
| "capture_attempts env lp plan node (Suc n) =
     matchA (cp_kubectl env lp plan (bootid_cmd node)) (\<lambda>r.
       let again = bindA (whenA (0 < n) (sleep env 2)) (\<lambda>_. capture_attempts env lp plan node n) in
       case r of
         Ok val \<Rightarrow> if trim val \<noteq> [] then retA (Some (trim val)) else again
       | Err _ \<Rightarrow> again)"

definition capture_node_bootid :: "'w env \<Rightarrow> string \<Rightarrow> plan \<Rightarrow> string \<Rightarrow> ('w, string) act" where
  "capture_node_bootid env lp plan node =
     (if pl_dry_run plan then
        bindA (log lp (''DRY-RUN would capture pre-reboot bootID for '' @ node)) (\<lambda>_. retA ''<dry-run-bootid>'')
      else
        bindA (capture_attempts env lp plan node 3) (\<lambda>r.
        case r of
          Some v \<Rightarrow> retA v
        | None \<Rightarrow>
            bindA (log lp (''WARN: failed to capture pre-reboot bootID for '' @ node @ '' after 3 attempts; ''
              @ ''bootID-changed gate will be skipped (apiserver flake?)'')) (\<lambda>_. retA [])))"

definition prefix8 :: "string \<Rightarrow> string" where
  "prefix8 s = take 8 s"

text \<open>The locals of the loop are \<open>last_heartbeat\<close> and \<open>cur_bootid\<close>.\<close>

definition bootid_body ::
  "'w env \<Rightarrow> string \<Rightarrow> plan \<Rightarrow> string \<Rightarrow> string \<Rightarrow> u32 \<Rightarrow> u32 \<times> string \<Rightarrow> ('w, unit option \<times> u32 \<times> string) act" where
  "bootid_body env lp plan node pre_bootid elapsed l =
     matchA (cp_kubectl env lp plan (bootid_cmd node)) (\<lambda>r.
       let cur = (case r of Ok v \<Rightarrow> trim v | Err _ \<Rightarrow> []) in
       if cur \<noteq> [] \<and> cur \<noteq> pre_bootid then
         bindA (log lp (''node '' @ node @ '' bootID changed (pre='' @ prefix8 pre_bootid @ ''... post='' @ prefix8 cur
           @ ''...) after ~'' @ show_u32 elapsed @ ''s'')) (\<lambda>_. retA (Some (), fst l, cur))
       else retA (None, fst l, cur))"

definition bootid_after ::
  "string \<Rightarrow> plan \<Rightarrow> string \<Rightarrow> string \<Rightarrow> u32 \<Rightarrow> u32 \<times> string \<Rightarrow> ('w, u32 \<times> string) act" where
  "bootid_after lp plan node pre_bootid elapsed l =
     (if 30 \<le> saturating_sub elapsed (fst l) \<and> elapsed < tm_ready (pl_timeouts plan) then
        bindA (log lp (''  still polling node '' @ node @ '' for bootID-changed gate after ~'' @ show_u32 elapsed
          @ ''s (pre='' @ prefix8 pre_bootid @ ''... cur='' @ prefix8 (snd l) @ ''...)'')) (\<lambda>_. retA (elapsed, snd l))
      else retA l)"

definition wait_node_bootid_changed :: "'w env \<Rightarrow> string \<Rightarrow> plan \<Rightarrow> string \<Rightarrow> string \<Rightarrow> ('w, unit) act" where
  "wait_node_bootid_changed env lp plan node pre_bootid =
     (if pl_skip_gates plan then
        log lp (''node '' @ node @ '': --skip-gates set, skipping bootID-changed gate'')
      else if pre_bootid = [] then
        log_err lp (''WARN: node '' @ node @ '': pre-reboot bootID was empty; skipping bootID-changed gate'')
      else
        (let timeout = tm_ready (pl_timeouts plan) in
         bindA (log lp (''waiting for node '' @ node @ '' bootID to change from pre-reboot value (timeout ''
           @ show_u32 timeout @ ''s)'')) (\<lambda>_.
         if pl_dry_run plan then log lp (''DRY-RUN would poll bootID for '' @ node)
         else
           bindA (poll_loop env 5 timeout (bootid_body env lp plan node pre_bootid)
                    (bootid_after lp plan node pre_bootid) 0 (0, [])) (\<lambda>r.
           case r of
             Inl _ \<Rightarrow> retA ()
           | Inr l \<Rightarrow>
               bindA (log lp (''node '' @ node @ '': bootID-changed gate timed out after '' @ show_u32 timeout
                 @ ''s (pre='' @ prefix8 pre_bootid @ ''... cur='' @ prefix8 (snd l) @ ''...)'')) (\<lambda>_.
               failA [''wait_node_bootid_changed: node '' @ node @ '' bootID did not change within ''
                 @ show_u32 timeout @ ''s''])))))"

section \<open>DaemonSets\<close>

definition unready_line :: "string \<Rightarrow> string option" where
  "unready_line line =
     (if line = [] then None
      else
        (case (case split_once (CHR ''='') line of Some p \<Rightarrow> p | None \<Rightarrow> (line, line)) of
           (lhs, rhs) \<Rightarrow> if rhs = [] \<or> contains ''false'' rhs then Some lhs else None))"

definition collect_unready_names :: "string \<Rightarrow> string list" where
  "collect_unready_names raw = List.map_filter unready_line (lines raw)"

text \<open>A \<open>BTreeSet\<close> of names: sorted, without duplicates.\<close>

definition btree_set :: "string list \<Rightarrow> string list" where
  "btree_set xs = remdups_adj (sort xs)"

definition pods_cmd :: "string \<Rightarrow> string" where
  "pods_cmd node = ''get pods -n kube-system --field-selector=spec.nodeName='' @ node @ '' --no-headers''"

definition raw_pods_cmd :: "string \<Rightarrow> string" where
  "raw_pods_cmd node = ''get pods -n kube-system --field-selector=spec.nodeName='' @ node
     @ '' -o jsonpath='' @ [SQ]
     @ ''{range .items[*]}{.metadata.name}={range .status.containerStatuses[*]}{.ready},{end}{''
     @ [CHR 0x22, BSL] @ ''n'' @ [CHR 0x22] @ ''}{end}'' @ [SQ]"

definition phase1_body ::
  "'w env \<Rightarrow> string \<Rightarrow> plan \<Rightarrow> string \<Rightarrow> u32 \<Rightarrow> nat \<Rightarrow> ('w, nat option \<times> nat) act" where
  "phase1_body env lp plan node elapsed pod_count =
     matchA (cp_kubectl env lp plan (pods_cmd node)) (\<lambda>r.
       let n = (case r of Ok out \<Rightarrow> length (filter (\<lambda>l. trim l \<noteq> []) (lines out)) | Err _ \<Rightarrow> 0) in
       if 0 < n then retA (Some n, n)
       else
         bindA (whenA (elapsed = 0) (log lp (''WARN: no kube-system pods yet observed on '' @ node
           @ ''; waiting up to 60s for DaemonSet controller to schedule''))) (\<lambda>_. retA (None, n)))"

definition kubectl_or_empty :: "'w env \<Rightarrow> string \<Rightarrow> plan \<Rightarrow> string \<Rightarrow> ('w, string) act" where
  "kubectl_or_empty env lp plan command =
     matchA (cp_kubectl env lp plan command) (\<lambda>r. case r of Ok v \<Rightarrow> retA v | Err _ \<Rightarrow> retA [])"

text \<open>The locals of the loop are \<open>last_heartbeat\<close> and \<open>new_unready_display\<close>.\<close>

definition phase2_body ::
  "'w env \<Rightarrow> string \<Rightarrow> plan \<Rightarrow> string \<Rightarrow> string list \<Rightarrow> u32 \<Rightarrow> u32 \<times> string \<Rightarrow> ('w, unit option \<times> u32 \<times> string) act" where
  "phase2_body env lp plan node baseline elapsed l =
     bindA (kubectl_or_empty env lp plan (raw_pods_cmd node)) (\<lambda>raw.
       let new_unready = filter (\<lambda>p. p \<notin> set baseline) (btree_set (collect_unready_names raw)) in
       if new_unready = [] then
         bindA (log lp (''node '' @ node @ '' kube-system DaemonSet pods all Ready after ~'' @ show_u32 elapsed
           @ ''s (excluding '' @ (if baseline = [] then [] else ''pre-existing-unready'') @ '')'')) (\<lambda>_.
         retA (Some (), l))
       else retA (None, fst l, join '' '' new_unready))"

definition phase2_after ::
  "string \<Rightarrow> plan \<Rightarrow> string \<Rightarrow> u32 \<Rightarrow> u32 \<times> string \<Rightarrow> ('w, u32 \<times> string) act" where
  "phase2_after lp plan node elapsed l =
     (if 30 \<le> saturating_sub elapsed (fst l) \<and> elapsed < tm_daemonset (pl_timeouts plan) then
        bindA (log lp (''  still polling kube-system DaemonSet pods on '' @ node @ '' after ~'' @ show_u32 elapsed
          @ ''s (new-unready: '' @ snd l @ '')'')) (\<lambda>_. retA (elapsed, snd l))
      else retA l)"

definition daemonset_phase2 :: "'w env \<Rightarrow> string \<Rightarrow> plan \<Rightarrow> string \<Rightarrow> string list \<Rightarrow> ('w, unit) act" where
  "daemonset_phase2 env lp plan node baseline =
     (let timeout = tm_daemonset (pl_timeouts plan) in
      bindA (poll_loop env 5 timeout (phase2_body env lp plan node baseline) (phase2_after lp plan node) 0 (0, [])) (\<lambda>r.
      case r of
        Inl _ \<Rightarrow> retA ()
      | Inr l \<Rightarrow>
          bindA (log lp (''node '' @ node @ '': kube-system DaemonSet pods (new, post-baseline) still not Ready after ''
            @ show_u32 timeout @ ''s: '' @ snd l)) (\<lambda>_.
          failA [''wait_node_daemonsets_ready: kube-system DaemonSet pods on '' @ node @ '' not Ready within ''
            @ show_u32 timeout @ ''s (new-unready: '' @ snd l @ '')''])))"

definition wait_node_daemonsets_ready :: "'w env \<Rightarrow> string \<Rightarrow> plan \<Rightarrow> string \<Rightarrow> ('w, unit) act" where
  "wait_node_daemonsets_ready env lp plan node =
     (if pl_skip_gates plan then
        log lp (''node '' @ node @ '': --skip-gates set, skipping DaemonSet readiness gate'')
      else
        (let timeout = tm_daemonset (pl_timeouts plan);
             waiting = ''waiting for kube-system DaemonSet pods on '' @ node @ '' to be Ready (timeout ''
               @ show_u32 timeout @ ''s)'' in
         if pl_dry_run plan then
           bindA (log lp waiting) (\<lambda>_. log lp (''DRY-RUN would poll kube-system pods on '' @ node @ '' for Ready''))
         else
           bindA (poll_loop env 2 60 (phase1_body env lp plan node) (\<lambda>_ n. retA n) 0 0) (\<lambda>r.
           if (case r of Inl n \<Rightarrow> n = 0 | Inr n \<Rightarrow> n = 0) then
             log lp (''WARN: no kube-system pods on '' @ node
               @ '' after 60s; proceeding (fresh cluster or no DS deployed yet)'')
           else
             bindA (kubectl_or_empty env lp plan (raw_pods_cmd node)) (\<lambda>raw.
             let baseline = btree_set (collect_unready_names raw) in
             bindA (whenA (baseline \<noteq> []) (log lp (''  baseline-unready pods on '' @ node
               @ '' (excluded from gate): '' @ join '' '' baseline @ '' ''))) (\<lambda>_.
             bindA (log lp waiting) (\<lambda>_.
             daemonset_phase2 env lp plan node baseline))))))"

section \<open>The upgrade\<close>

datatype bootc_outcome = Applied | UpgradeFailed | AlreadyCurrent

definition HAS_APPLY :: string where
  "HAS_APPLY = ''bootc upgrade --help 2>/dev/null | grep -q -- '' @ [SQ] @ ''--apply'' @ [SQ]"

definition BOOTED_DIGEST :: string where
  "BOOTED_DIGEST = ''bootc status --json 2>/dev/null | jq -r '' @ [SQ]
     @ ''.status.booted.image.imageDigest // .status.booted.image.digest // empty'' @ [SQ]
     @ '' 2>/dev/null || true''"

definition bootc_has_apply_with_exec :: "'w exec \<Rightarrow> string \<Rightarrow> ('w, bool) act" where
  "bootc_has_apply_with_exec exec ip =
     (let ctx = ''bootc_has_apply: ssh-run failed for `bootc upgrade --help` against root@'' @ ip in
      matchA (exec HAS_APPLY) (\<lambda>r.
        case r of
          Ok _ \<Rightarrow> retA True
        | Err (NonZeroExit h status out err) \<Rightarrow>
            if exit_code status = Some 1 then retA False
            else failA (ctx # from_ssh (NonZeroExit h status out err))
        | Err e \<Rightarrow> failA (ctx # from_ssh e)))"

definition bootc_booted_digest_with_exec :: "'w exec \<Rightarrow> string \<Rightarrow> ('w, string) act" where
  "bootc_booted_digest_with_exec exec ip =
     bindA (ssh_ctx (exec BOOTED_DIGEST) (''bootc_booted_digest: ssh-run failed against root@'' @ ip)) (\<lambda>out.
     retA (trim (ro_stdout out)))"

definition digest_or_unknown :: "string \<Rightarrow> string" where
  "digest_or_unknown d = (if d = [] then ''<unknown>'' else d)"

text \<open>The run of the upgrade itself: its \<open>Result\<close> is a value.\<close>

definition run_upgrade :: "'w exec \<Rightarrow> string \<Rightarrow> string \<Rightarrow> bool \<Rightarrow> ('w, (ssh_error, run_output) result) act" where
  "run_upgrade exec lp name has_apply =
     (if has_apply then matchA (exec ''bootc upgrade --apply'') retA
      else
        bindA (log lp (''  bootc on '' @ name @ '' lacks --apply; falling back to '' @ [SQ]
          @ ''bootc upgrade && systemctl reboot'' @ [SQ])) (\<lambda>_.
        matchA (exec ''bootc upgrade'') (\<lambda>r.
          case r of
            Ok out \<Rightarrow>
              bindA (log_lines (log_err lp) (ro_stderr out)) (\<lambda>_.
              matchA (exec ''systemctl reboot >/dev/null 2>&1'') retA)
          | Err e \<Rightarrow> retA (Err e))))"

text \<open>The \<open>match result\<close>: the outcome by exit shape.\<close>

definition classify_upgrade ::
  "'w exec \<Rightarrow> string \<Rightarrow> string \<Rightarrow> string \<Rightarrow> string \<Rightarrow> (ssh_error, run_output) result \<Rightarrow> ('w, bootc_outcome) act" where
  "classify_upgrade exec lp ip name pre_digest result =
     (case result of
       Ok out \<Rightarrow>
         bindA (log_lines (log_err lp) (ro_stderr out)) (\<lambda>_.
         bindA (bootc_booted_digest_with_exec exec ip) (\<lambda>post_digest.
         bindA (log lp (''  post-upgrade booted digest: '' @ digest_or_unknown post_digest)) (\<lambda>_.
         if pre_digest \<noteq> [] \<and> post_digest \<noteq> [] \<and> pre_digest = post_digest then
           bindA (log lp (''  no update available on '' @ name @ ''; skipping wait loops'')) (\<lambda>_. retA AlreadyCurrent)
         else retA Applied)))
     | Err (NonZeroExit h status out err) \<Rightarrow>
         bindA (log_lines (log_err lp) err) (\<lambda>_.
         case exit_code status of
           Some code \<Rightarrow>
             if code = 255 then retA Applied
             else bindA (log lp (''bootc upgrade on '' @ name @ '' exited unexpectedly (rc='' @ show_nat code @ '')''))
                    (\<lambda>_. retA UpgradeFailed)
         | None \<Rightarrow>
             bindA (log lp (''bootc upgrade on '' @ name @ '' exited unexpectedly (killed by signal)''))
               (\<lambda>_. retA UpgradeFailed))
     | Err e \<Rightarrow>
         failA ((''bootc_upgrade_apply: ssh-run failed for `bootc upgrade --apply` against root@'' @ ip
           @ '' (node='' @ name @ '')'') # from_ssh e))"

definition bootc_upgrade_apply_with_exec ::
  "'w exec \<Rightarrow> string \<Rightarrow> string \<Rightarrow> string \<Rightarrow> bool \<Rightarrow> ('w, bootc_outcome) act" where
  "bootc_upgrade_apply_with_exec exec lp ip name dry_run =
     (if dry_run then
        bindA (log lp (''DRY-RUN ssh root@'' @ ip @ '' bootc upgrade --apply (with pre/post digest compare)'')) (\<lambda>_.
        retA Applied)
      else
        bindA (bootc_booted_digest_with_exec exec ip) (\<lambda>pre_digest.
        bindA (log lp (''  pre-upgrade booted digest: '' @ digest_or_unknown pre_digest)) (\<lambda>_.
        bindA (bootc_has_apply_with_exec exec ip) (\<lambda>has_apply.
        bindA (run_upgrade exec lp name has_apply) (\<lambda>result.
        classify_upgrade exec lp ip name pre_digest result)))))"

definition bootc_upgrade_apply :: "'w env \<Rightarrow> string \<Rightarrow> plan \<Rightarrow> string \<Rightarrow> string \<Rightarrow> ('w, bootc_outcome) act" where
  "bootc_upgrade_apply env lp plan ip name =
     bootc_upgrade_apply_with_exec (ssh_run env (node_ssh_opts plan ip)) lp ip name (pl_dry_run plan)"

end
