(* ===== verification/Update_Cluster.thy ===== *)
theory Update_Cluster
  imports Update_Gates
begin

text \<open>
  The rolling update (\<open>update_cluster.rs\<close>): the flow for the control plane and for a worker
  with the in-flight record whose destructor prints the recovery hint, the batches, and the
  whole command. \<open>update_worker\<close> and \<open>update_cp\<close> are blocks over the in-flight record and the
  world; the walk over the workers is a block over the results and the world. The lock
  file is the argument \<open>lock\<close> (taken only in a live run); the configuration is the outcome
  of the parser.
\<close>

section \<open>The in-flight record\<close>

record in_flight =
  if_node :: string
  if_cp_ip :: string
  if_drained :: bool
  if_uncordoned :: bool
  if_phase :: string

definition in_flight_default :: in_flight where
  "in_flight_default = \<lparr>if_node = [], if_cp_ip = [], if_drained = False, if_uncordoned = False, if_phase = []\<rparr>"

definition mark_drained :: "in_flight \<Rightarrow> in_flight" where
  "mark_drained f = f\<lparr>if_drained := True\<rparr>"

definition mark_uncordoned :: "in_flight \<Rightarrow> in_flight" where
  "mark_uncordoned f = f\<lparr>if_uncordoned := True\<rparr>"

definition clear_in_flight :: "in_flight \<Rightarrow> in_flight" where
  "clear_in_flight f = in_flight_default"

abbreviation RULE :: string where
  "RULE \<equiv> ''============================================================''"

definition recovery_line :: "in_flight \<Rightarrow> string" where
  "recovery_line f = ''[update-cluster]   ssh root@'' @ if_cp_ip f @ '' '' @ [CHR 0x22]
     @ ''kubectl --kubeconfig=/etc/kubernetes/admin.conf uncordon '' @ if_node f @ [CHR 0x22]"

definition drop_in_flight :: "in_flight \<Rightarrow> ('w world, 'e, unit) action" where
  "drop_in_flight f =
     whenA (if_drained f \<and> \<not> if_uncordoned f \<and> if_node f \<noteq> [])
       (forA
         ([[], ''[update-cluster] '' @ RULE,
           ''[update-cluster] WARNING: node '' @ if_node f @ '' is cordoned and was not uncordoned.'']
          @ (if if_phase f \<noteq> [] then [''[update-cluster] in-flight phase: '' @ if_phase f] else [])
          @ [''[update-cluster] Restore it manually once you have verified its state:'',
             recovery_line f, ''[update-cluster] '' @ RULE])
         eprintln)"

type_synonym ('w, 'a) flight = "(in_flight \<times> 'w world, anyhow, 'a) action"

definition phase :: "string \<Rightarrow> ('w, unit) flight" where
  "phase p = upd (\<lambda>f. f\<lparr>if_phase := p\<rparr>)"

text \<open>\<open>let _ = m;\<close>\<close>

definition ignore :: "('w, unit) act \<Rightarrow> ('w, unit) act" where
  "ignore m = matchA m (\<lambda>_. retA ())"

section \<open>The control plane\<close>

definition update_cp_body :: "'w env \<Rightarrow> string \<Rightarrow> plan \<Rightarrow> ('w, unit) flight" where
  "update_cp_body env lp plan =
     (let cp = pl_cp_name plan; ip = pl_cp_ip plan; node = pl_cp_k8s_name plan; tm = pl_timeouts plan in
      bindA (on_world (log lp RULE)) (\<lambda>_.
      bindA (on_world (log lp (if node = cp then ''CP: '' @ cp @ '' ('' @ ip @ '')''
                               else ''CP: '' @ cp @ '' ('' @ ip @ '') k8s-node='' @ node))) (\<lambda>_.
      bindA (on_world (log lp ''  single-CP topology: skipping drain (no peers to evict to)'')) (\<lambda>_.
      bindA (on_world (log lp ''  apiserver will be unavailable for ~60-120s during reboot'')) (\<lambda>_.
      bindA (on_world (log lp RULE)) (\<lambda>_.
      bindA (on_world (timer_stop env lp plan ip)) (\<lambda>_.
      bindA (on_world (capture_node_bootid env lp plan node)) (\<lambda>pre_bootid.
      bindA (on_world (log lp (''  pre-reboot bootID: '' @ prefix8 pre_bootid @ ''...''))) (\<lambda>_.
      bindA (on_world (log lp (''ssh root@'' @ ip
        @ '' bootc upgrade --apply  (auto-reboots; digest pre/post compared)''))) (\<lambda>_.
      bindA (on_world (ctxA (''update_cp('' @ cp @ ''): bootc upgrade phase'')
               (bootc_upgrade_apply env lp plan ip cp))) (\<lambda>outcome.
      case outcome of
        AlreadyCurrent \<Rightarrow>
          bindA (on_world (log lp (''CP '' @ cp @ '': no update available; restoring timer and continuing.''))) (\<lambda>_.
          on_world (timer_start env lp plan ip))
      | UpgradeFailed \<Rightarrow> failA [''bootc upgrade on CP '' @ cp @ '' failed (see log above)'']
      | Applied \<Rightarrow>
          bindA (on_world (ignore (wait_ssh_drop env lp plan ip))) (\<lambda>_.
          bindA (on_world (ctxA (''CP '' @ cp @ '' did not come back over SSH within '' @ show_u32 (tm_ssh tm) @ ''s'')
                   (wait_ssh_back env lp plan ip))) (\<lambda>_.
          bindA (phase ''post-reboot-pre-apiserver'') (\<lambda>_.
          bindA (on_world (ctxA (''CP '' @ cp @ '' apiserver did not return within '' @ show_u32 (tm_apiserver tm) @ ''s'')
                   (wait_apiserver_back env lp plan))) (\<lambda>_.
          bindA (phase ''post-apiserver-pre-bootID'') (\<lambda>_.
          bindA (on_world (ctxA (''CP node '' @ cp @ '' bootID did not change after '' @ show_u32 (tm_ready tm)
                     @ ''s (apiserver may be serving stale state)'')
                   (wait_node_bootid_changed env lp plan node pre_bootid))) (\<lambda>_.
          bindA (phase ''post-bootID-pre-Ready'') (\<lambda>_.
          bindA (on_world (ctxA (''CP node '' @ cp @ '' did not reach Ready within '' @ show_u32 (tm_ready tm) @ ''s'')
                   (wait_node_ready env lp plan node))) (\<lambda>_.
          bindA (phase ''post-Ready-pre-DaemonSet'') (\<lambda>_.
          bindA (on_world (ctxA (''CP '' @ cp @ '': kube-system DaemonSet pods not Ready after ''
                     @ show_u32 (tm_daemonset tm) @ ''s'')
                   (wait_node_daemonsets_ready env lp plan node))) (\<lambda>_.
          bindA (on_world (timer_start env lp plan ip)) (\<lambda>_.
          on_world (log lp (''CP '' @ cp @ '' updated and Ready.''))))))))))))))))))))))))"

definition update_cp :: "'w env \<Rightarrow> string \<Rightarrow> plan \<Rightarrow> ('w, unit) act" where
  "update_cp env lp plan =
     scoped (in_flight_default\<lparr>if_node := pl_cp_k8s_name plan, if_cp_ip := pl_cp_ip plan, if_phase := ''pre-upgrade''\<rparr>)
       drop_in_flight (update_cp_body env lp plan)"

section \<open>A worker\<close>

definition drain_flags :: "plan \<Rightarrow> string" where
  "drain_flags plan = ''--ignore-daemonsets --timeout='' @ tm_drain (pl_timeouts plan)
     @ (if \<not> pl_no_delete_emptydir_data plan then '' --delete-emptydir-data'' else [])"

definition drain_cmd :: "plan \<Rightarrow> string \<Rightarrow> string" where
  "drain_cmd plan node = ''drain '' @ node @ '' '' @ drain_flags plan"

definition uncordon_cmd :: "string \<Rightarrow> string" where
  "uncordon_cmd node = ''uncordon '' @ node"

definition drain_step :: "'w env \<Rightarrow> string \<Rightarrow> plan \<Rightarrow> string \<Rightarrow> ('w, unit) flight" where
  "drain_step env lp plan node =
     (if pl_skip_drain plan then
        on_world (log lp (''  --skip-drain set: skipping kubectl drain for '' @ node))
      else
        bindA (on_world (log lp (''kubectl drain '' @ node @ '' '' @ drain_flags plan))) (\<lambda>_.
        bindA (on_world (cp_kubectl env lp plan (drain_cmd plan node))) (\<lambda>_.
        bindA (upd mark_drained) (\<lambda>_.
        phase ''post-drain''))))"

definition uncordon_step :: "'w env \<Rightarrow> string \<Rightarrow> plan \<Rightarrow> string \<Rightarrow> ('w, unit) flight" where
  "uncordon_step env lp plan node =
     bindA (on_world (log lp (''kubectl uncordon '' @ node))) (\<lambda>_.
     bindA (on_world (cp_kubectl env lp plan (uncordon_cmd node))) (\<lambda>_.
     upd mark_uncordoned))"

text \<open>From the reboot to the uncordon.\<close>

definition worker_gates ::
  "'w env \<Rightarrow> string \<Rightarrow> plan \<Rightarrow> string \<Rightarrow> string \<Rightarrow> string \<Rightarrow> string \<Rightarrow> ('w, unit) flight" where
  "worker_gates env lp plan name ip node pre_bootid =
     (let tm = pl_timeouts plan in
      bindA (on_world (ignore (wait_ssh_drop env lp plan ip))) (\<lambda>_.
      bindA (phase ''post-reboot-pre-ssh'') (\<lambda>_.
      bindA (on_world (ctxA (name @ '': did not come back over SSH within '' @ show_u32 (tm_ssh tm) @ ''s'')
               (wait_ssh_back env lp plan ip))) (\<lambda>_.
      bindA (phase ''post-bootID-pre-Ready'') (\<lambda>_.
      bindA (on_world (ctxA (name @ '': node bootID did not change after '' @ show_u32 (tm_ready tm)
                 @ ''s (apiserver may be serving stale state)'')
               (wait_node_bootid_changed env lp plan node pre_bootid))) (\<lambda>_.
      bindA (on_world (ctxA (name @ '': did not reach Ready within '' @ show_u32 (tm_ready tm) @ ''s'')
               (wait_node_ready env lp plan node))) (\<lambda>_.
      bindA (phase ''post-Ready-pre-DaemonSet'') (\<lambda>_.
      bindA (on_world (ctxA (name @ '': kube-system DaemonSet pods not Ready on this node after ''
                 @ show_u32 (tm_daemonset tm) @ ''s'')
               (wait_node_daemonsets_ready env lp plan node))) (\<lambda>_.
      phase ''post-DaemonSet-pre-uncordon'')))))))))"

definition update_worker_body ::
  "'w env \<Rightarrow> string \<Rightarrow> plan \<Rightarrow> string \<Rightarrow> string \<Rightarrow> string \<Rightarrow> ('w, unit) flight" where
  "update_worker_body env lp plan name ip node =
     bindA (on_world (log lp RULE)) (\<lambda>_.
     bindA (on_world (log lp (if node = name then ''WORKER: '' @ name @ '' ('' @ ip @ '')''
                              else ''WORKER: '' @ name @ '' ('' @ ip @ '') k8s-node='' @ node))) (\<lambda>_.
     bindA (on_world (log lp RULE)) (\<lambda>_.
     bindA (on_world (timer_stop env lp plan ip)) (\<lambda>_.
     bindA (drain_step env lp plan node) (\<lambda>_.
     bindA (on_world (capture_node_bootid env lp plan node)) (\<lambda>pre_bootid.
     bindA (on_world (log lp (''  pre-reboot bootID: '' @ prefix8 pre_bootid @ ''...''))) (\<lambda>_.
     bindA (on_world (log lp (''ssh root@'' @ ip
       @ '' bootc upgrade --apply  (auto-reboots; digest pre/post compared)''))) (\<lambda>_.
     bindA (on_world (ctxA (''update_worker('' @ name @ ''): bootc upgrade phase'')
              (bootc_upgrade_apply env lp plan ip name))) (\<lambda>outcome.
     case outcome of
       UpgradeFailed \<Rightarrow> failA [name @ '': bootc upgrade --apply failed (see log above)'']
     | AlreadyCurrent \<Rightarrow>
         bindA (on_world (log lp (''worker '' @ name @ '': no update available; uncordoning and continuing.''))) (\<lambda>_.
         bindA (whenA (\<not> pl_skip_drain plan) (uncordon_step env lp plan node)) (\<lambda>_.
         bindA (on_world (timer_start env lp plan ip)) (\<lambda>_.
         upd clear_in_flight)))
     | Applied \<Rightarrow>
         bindA (worker_gates env lp plan name ip node pre_bootid) (\<lambda>_.
         bindA (uncordon_step env lp plan node) (\<lambda>_.
         bindA (on_world (timer_start env lp plan ip)) (\<lambda>_.
         bindA (upd clear_in_flight) (\<lambda>_.
         on_world (log lp (''node '' @ name @ '' updated'')))))))))))))))"

definition update_worker ::
  "'w env \<Rightarrow> string \<Rightarrow> plan \<Rightarrow> string \<Rightarrow> string \<Rightarrow> string \<Rightarrow> ('w, unit) act" where
  "update_worker env lp plan name ip node =
     scoped (in_flight_default\<lparr>if_node := node, if_cp_ip := pl_cp_ip plan, if_phase := ''pre-drain''\<rparr>)
       drop_in_flight (update_worker_body env lp plan name ip node)"

section \<open>Batches\<close>

record results =
  rs_succeeded :: "string list"
  rs_failed :: "string list"

definition results_default :: results where
  "results_default = \<lparr>rs_succeeded = [], rs_failed = []\<rparr>"

definition push_succeeded :: "string \<Rightarrow> results \<Rightarrow> results" where
  "push_succeeded s r = r\<lparr>rs_succeeded := rs_succeeded r @ [s]\<rparr>"

definition push_failed :: "string \<Rightarrow> results \<Rightarrow> results" where
  "push_failed s r = r\<lparr>rs_failed := rs_failed r @ [s]\<rparr>"

type_synonym ('w, 'a) walk = "(results \<times> 'w world, anyhow, 'a) action"

definition worker_node :: "plan \<Rightarrow> string \<Rightarrow> string" where
  "worker_node plan w = (case pl_worker_k8s_name_map plan w of Some n \<Rightarrow> n | None \<Rightarrow> w)"

definition run_one_worker :: "'w env \<Rightarrow> string \<Rightarrow> plan \<Rightarrow> string \<Rightarrow> ('w, unit) walk" where
  "run_one_worker env lp plan w =
     (case pl_worker_ip_map plan w of
        None \<Rightarrow> failA [''internal: no IP recorded for worker '' @ w @ ''; Plan::from_args invariant broken'']
      | Some ip \<Rightarrow>
          matchA (on_world (update_worker env lp plan w ip (worker_node plan w))) (\<lambda>r.
            case r of
              Ok _ \<Rightarrow> upd (push_succeeded w)
            | Err e \<Rightarrow>
                if pl_continue_on_error plan then
                  (let reason = err_to_string e in
                   bindA (on_world (log lp (''  ERROR on '' @ w @ '': '' @ reason @ '' '' @ EMDASH
                     @ '' continuing (--continue-on-error)''))) (\<lambda>_.
                   bindA (upd (push_failed (w @ '': '' @ reason))) (\<lambda>_.
                   on_world (ignore (timer_start env lp plan ip)))))
                else failA e))"

definition run_worker_batch :: "'w env \<Rightarrow> plan \<Rightarrow> string list \<Rightarrow> ('w, unit) walk" where
  "run_worker_batch env plan batch =
     (if batch = [] then retA ()
      else if pl_parallel plan = 1 \<or> length batch = 1 then
        forA batch (\<lambda>w. run_one_worker env [] plan w)
      else
        bindA (on_world (log [] (''PARALLEL batch ('' @ show_nat (length batch) @ ''): '' @ join '' '' batch))) (\<lambda>_.
        bindA (whenA (\<not> pl_dry_run plan) (on_world (log_err []
          (''WARN: parallel batch live mode is processed serially in this Rust scaffold; bash twin forks here. ''
           @ ''Real concurrency lands in the live-execution slice.'')))) (\<lambda>_.
        forA batch (\<lambda>w. run_one_worker env (''[parallel:'' @ w @ ''] '') plan w))))"

text \<open>The \<open>while i < total\<close> loop over batches of \<open>--parallel\<close> workers, from the workers left.\<close>

function walk_batches :: "'w env \<Rightarrow> plan \<Rightarrow> nat \<Rightarrow> string list \<Rightarrow> ('w, unit) walk" where
  "walk_batches env plan n ws =
     (if ws = [] \<or> n = 0 then retA ()
      else
        bindA (run_worker_batch env plan (take n ws)) (\<lambda>_.
        bindA (whenA (drop n ws \<noteq> [] \<and> 0 < tm_inter_node_sleep (pl_timeouts plan))
                 (bindA (on_world (log [] (''pausing '' @ show_u32 (tm_inter_node_sleep (pl_timeouts plan))
                    @ ''s before next node''))) (\<lambda>_.
                  whenA (\<not> pl_dry_run plan)
                    (on_world (sleep env (unat (tm_inter_node_sleep (pl_timeouts plan)))))))) (\<lambda>_.
        walk_batches env plan n (drop n ws))))"
  by pat_completeness auto
termination by (relation "measure (\<lambda>(_, _, _, ws). length ws)") auto

declare walk_batches.simps [simp del]

section \<open>The command\<close>

definition flag :: "bool \<Rightarrow> string" where
  "flag v = (if v then ''1'' else ''0'')"

definition or_none :: "string option \<Rightarrow> string" where
  "or_none x = (case x of Some s \<Rightarrow> s | None \<Rightarrow> ''<none>'')"

definition summary_lines :: "plan \<Rightarrow> string list" where
  "summary_lines plan =
     (let tm = pl_timeouts plan in
      [''config: '' @ pl_config_path plan,
       ''CP='' @ pl_cp_name plan @ '' ('' @ pl_cp_ip plan @ '') k8s-node='' @ pl_cp_k8s_name plan
         @ '', workers=('' @ join '' '' (pl_worker_names plan) @ '')'']
      @ map (\<lambda>w. ''  resolved libvirt domain '' @ w @ '' -> k8s node '' @ worker_node plan w)
          (filter (\<lambda>w. worker_node plan w \<noteq> w) (pl_worker_names plan))
      @ [''flags: workers-only='' @ flag (pl_workers_only plan) @ '' skip-drain='' @ flag (pl_skip_drain plan)
           @ '' skip-gates='' @ flag (pl_skip_gates plan) @ '' dry-run='' @ flag (pl_dry_run plan),
         ''       node-filter='' @ or_none (pl_node_filter plan) @ '' start-from='' @ or_none (pl_start_from plan),
         ''       continue-on-error='' @ flag (pl_continue_on_error plan) @ '' no-delete-emptydir-data=''
           @ flag (pl_no_delete_emptydir_data plan) @ '' parallel='' @ show_u32 (pl_parallel plan),
         ''timeouts: drain='' @ tm_drain tm @ '' ready='' @ show_u32 (tm_ready tm) @ ''s daemonset=''
           @ show_u32 (tm_daemonset tm) @ ''s apiserver='' @ show_u32 (tm_apiserver tm) @ ''s ssh='' @ show_u32 (tm_ssh tm)
           @ ''s ssh-drop='' @ show_u32 (tm_ssh_drop tm) @ ''s inter-node-sleep='' @ show_u32 (tm_inter_node_sleep tm) @ ''s'',
         ''per-node worst-case budget: drain '' @ tm_drain tm @ '' + ssh-back '' @ show_u32 (tm_ssh tm) @ ''s + bootID ''
           @ show_u32 (tm_ready tm) @ ''s + ready '' @ show_u32 (tm_ready tm) @ ''s + daemonsets ''
           @ show_u32 (tm_daemonset tm) @ ''s'']
      @ (case pl_start_from plan of
           Some sf \<Rightarrow> [''--start-from='' @ sf @ '': resuming with workers=('' @ join '' '' (workers_to_run plan) @ '')'']
         | None \<Rightarrow> []))"

definition cp_then_push :: "'w env \<Rightarrow> plan \<Rightarrow> ('w, unit) walk" where
  "cp_then_push env plan =
     bindA (on_world (update_cp env [] plan)) (\<lambda>_. upd (push_succeeded (pl_cp_name plan)))"

definition rolling_walk :: "'w env \<Rightarrow> plan \<Rightarrow> ('w, unit) walk" where
  "rolling_walk env plan =
     (case pl_node_filter plan of
        Some node \<Rightarrow>
          if node = pl_cp_name plan then cp_then_push env plan
          else if node \<in> set (pl_worker_names plan) then run_one_worker env [] plan node
          else failA [''--node='' @ node @ '' did not match CP_NAME or any WORKER_NAMES entry'']
      | None \<Rightarrow>
          bindA (if \<not> pl_workers_only plan then
                   (case pl_start_from plan of
                      Some sf \<Rightarrow> on_world (log [] (''--start-from set: skipping CP (resume mode starts at worker ''
                                  @ [SQ] @ sf @ [SQ] @ '')''))
                    | None \<Rightarrow> cp_then_push env plan)
                 else on_world (log [] ''--workers-only: skipping CP'')) (\<lambda>_.
          walk_batches env plan (unat (pl_parallel plan)) (workers_to_run plan)))"

definition footer_lines :: "results \<Rightarrow> string list" where
  "footer_lines res =
     [RULE, ''Rolling update complete.'',
      ''  succeeded ('' @ show_nat (length (rs_succeeded res)) @ ''): ''
        @ (if rs_succeeded res = [] then ''<none>'' else join '' '' (rs_succeeded res))]
     @ (if rs_failed res \<noteq> [] then
          [''  FAILED ('' @ show_nat (length (rs_failed res)) @ ''):''] @ map (\<lambda>e. ''    - '' @ e) (rs_failed res)
        else [])
     @ [RULE]"

definition run_rest :: "'w env \<Rightarrow> plan \<Rightarrow> ('w, unit) walk" where
  "run_rest env plan =
     bindA (rolling_walk env plan) (\<lambda>_.
     bindA locals (\<lambda>res.
     bindA (on_world (forA (footer_lines res) (log []))) (\<lambda>_.
     if rs_failed res \<noteq> [] then failA [''UPDATE_CLUSTER_PARTIAL_FAILURE''] else retA ())))"

definition run_plan :: "'w env \<Rightarrow> plan \<Rightarrow> ('w, unit) act" where
  "run_plan env plan =
     bindA (forA (summary_lines plan) (log [])) (\<lambda>_.
     scoped results_default (\<lambda>_. retA ()) (run_rest env plan))"

definition run_update ::
  "'w env \<Rightarrow> (string \<Rightarrow> string option) \<Rightarrow> ('w, unit) act \<Rightarrow> update_args \<Rightarrow> (anyhow, cluster_config) result \<Rightarrow> ('w, unit) act" where
  "run_update env getenv lock args config_result =
     bindA (liftA config_result) (\<lambda>config.
     bindA (liftA (timeouts_from_env getenv)) (\<lambda>tms.
     bindA (plan_from_args env args config tms) (\<lambda>plan.
     bindA (whenA (\<not> pl_dry_run plan) lock) (\<lambda>_.
     run_plan env plan))))"

end
