(* ===== verification/Update_Safety.thy ===== *)
theory Update_Safety
  imports Update_Cluster
begin

text \<open>
  What the rolling update does to the cluster: which commands it sends where, that a dry run
  sends none, that a drained node is uncordoned or the operator is told how, which gates a
  worker has passed before it takes work again, and what the summary at the end means.

  The steps between drain and uncordon are analysed once, in the locale \<open>gate_events\<close>, for any
  set of events that has the printed lines, the sleeps, the fixed node commands and the
  \<open>kubectl get\<close> queries; its interpretations are the sets the theorems need.
\<close>

section \<open>The events of the steps\<close>

definition node_commands :: "string list" where
  "node_commands = [TIMER_STOP, TIMER_START_PROBE, ''true'', HAS_APPLY, BOOTED_DIGEST,
     ''bootc upgrade --apply'', ''bootc upgrade'', ''systemctl reboot >/dev/null 2>&1'']"

definition node_opts :: "plan \<Rightarrow> string \<Rightarrow> ssh_options list" where
  "node_opts plan ip = [node_ssh_opts plan ip, with_connect_timeout (from_secs 3) (node_ssh_opts plan ip)]"

lemma log_adds [adds_intro]: "(\<And>s. V (Stdout s)) \<Longrightarrow> adds V (log lp s)"
  by (simp add: log_def adds_emit)

lemma log_err_adds [adds_intro]: "(\<And>s. V (Stderr s)) \<Longrightarrow> adds V (log_err lp s)"
  by (simp add: log_err_def adds_emit)

lemma log_lines_adds [adds_intro]: "(\<And>s. adds V (lg s)) \<Longrightarrow> adds V (log_lines lg s)"
  unfolding log_lines_def by (auto intro!: adds_when adds_for)

lemma ignore_adds [adds_intro]: "adds V m \<Longrightarrow> adds V (ignore m)"
  unfolding ignore_def by (auto intro!: adds_match)

lemma kubectl_live_adds:
  assumes "\<And>s. V (Stdout s)" "\<And>s. V (Stderr s)"
    and "\<And>r. reject_shell_metachars ''cp_kubectl'' c = Ok () \<Longrightarrow> V (SshRun (cp_ssh_opts plan) (kubectl_remote c) r)"
  shows "adds V (cp_kubectl env lp plan c)"
proof (cases "reject_shell_metachars ''cp_kubectl'' c")
  case (Ok u)
  with assms show ?thesis
    unfolding cp_kubectl_def cp_kubectl_live_def
    by (auto intro!: adds_if adds_bind log_adds log_err_adds log_lines_adds ssh_ctx_adds adds_ssh_run)
next
  case (Err e)
  with assms show ?thesis
    unfolding cp_kubectl_def cp_kubectl_live_def by (auto intro!: adds_if adds_bind log_adds)
qed

locale base_events =
  fixes plan :: plan and V :: "event \<Rightarrow> bool"
  assumes V_print: "printed ev \<Longrightarrow> V ev"
    and V_sleep: "V (Slept n)"
begin

lemma V_out: "V (Stdout s)" "V (Stderr s)"
  by (rule V_print, simp)+

lemma kubectl_adds:
  "(\<And>r. reject_shell_metachars ''cp_kubectl'' c = Ok () \<Longrightarrow> V (SshRun (cp_ssh_opts plan) (kubectl_remote c) r)) \<Longrightarrow>
   adds V (cp_kubectl env lp plan c)"
  by (rule kubectl_live_adds, rule V_out, rule V_out)

lemmas base_rules = adds_match adds_bind adds_if adds_when adds_ctx adds_ret adds_fail adds_lift adds_sleep V_sleep
  log_adds log_err_adds log_lines_adds V_out ignore_adds ssh_ctx_adds poll_until_adds poll_loop_adds adds_ssh_run

lemma timer_stop_adds:
  "(\<And>r. V (SshRun (node_ssh_opts plan ip) TIMER_STOP r)) \<Longrightarrow> adds V (timer_stop env lp plan ip)"
  unfolding timer_stop_def timer_stop_with_exec_def
  by (auto intro!: base_rules split: result.split)

lemma timer_start_adds:
  "(\<And>r. V (SshRun (node_ssh_opts plan ip) TIMER_START_PROBE r)) \<Longrightarrow> adds V (timer_start env lp plan ip)"
  unfolding timer_start_def timer_start_with_exec_def
  by (auto intro!: base_rules split: result.split ssh_error.split)

lemma wait_ssh_back_adds:
  "(\<And>r. V (SshRun (with_connect_timeout (from_secs 3) (node_ssh_opts plan ip)) ''true'' r)) \<Longrightarrow>
   adds V (wait_ssh_back env lp plan ip)"
  unfolding wait_ssh_back_def wait_ssh_back_with_def
  by (auto intro!: base_rules split: result.split option.split)

lemma wait_ssh_drop_adds:
  "(\<And>r. V (SshRun (with_connect_timeout (from_secs 3) (node_ssh_opts plan ip)) ''true'' r)) \<Longrightarrow>
   adds V (wait_ssh_drop env lp plan ip)"
  unfolding wait_ssh_drop_def wait_ssh_drop_with_def
  by (auto intro!: base_rules split: result.split option.split)

lemma daemonsets_adds:
  assumes "\<And>r. V (SshRun (cp_ssh_opts plan) (kubectl_remote (pods_cmd node)) r)"
    and "\<And>r. V (SshRun (cp_ssh_opts plan) (kubectl_remote (raw_pods_cmd node)) r)"
  shows "adds V (wait_node_daemonsets_ready env lp plan node)"
proof -
  have k: "adds V (cp_kubectl env lp plan (pods_cmd node))" "adds V (cp_kubectl env lp plan (raw_pods_cmd node))"
    by (auto intro!: kubectl_adds assms)
  then have e: "adds V (kubectl_or_empty env lp plan (raw_pods_cmd node))"
    unfolding kubectl_or_empty_def by (auto intro!: base_rules split: result.split)
  have "adds V (phase1_body env lp plan node el n)" "adds V (phase2_body env lp plan node base el l)"
    "adds V (phase2_after lp plan node el l)" for el n base l
    unfolding phase1_body_def phase2_body_def phase2_after_def Let_def by (auto intro!: base_rules k e)
  then show ?thesis
    unfolding wait_node_daemonsets_ready_def daemonset_phase2_def Let_def
    by (auto intro!: base_rules e split: sum.split)
qed

end

locale gate_events = base_events plan V for plan :: plan and V :: "event \<Rightarrow> bool" +
  fixes ip :: string
  assumes V_node: "c \<in> set node_commands \<Longrightarrow> opts \<in> set (node_opts plan ip) \<Longrightarrow> V (SshRun opts c r)"
    and V_get: "reject_shell_metachars ''cp_kubectl'' (''get '' @ c) = Ok () \<Longrightarrow>
      V (SshRun (cp_ssh_opts plan) (kubectl_remote (''get '' @ c)) r)"
begin

lemma get_adds: "adds V (cp_kubectl env lp plan (''get '' @ c))"
  by (rule kubectl_adds, erule V_get)

lemmas get_cmds = get_adds [of _ _ "''--raw=/readyz''", simplified]

lemma ready_adds: "adds V (cp_kubectl env lp plan (ready_cmd node))"
  using get_adds [of env lp "''node '' @ node @ '' --no-headers''"] by (simp add: ready_cmd_def)

lemma bootid_adds: "adds V (cp_kubectl env lp plan (bootid_cmd node))"
  using get_adds [of env lp "''node '' @ node @ '' -o jsonpath='' @ [SQ] @ ''{.status.nodeInfo.bootID}'' @ [SQ]"]
  by (simp add: bootid_cmd_def)

lemma pods_adds: "adds V (cp_kubectl env lp plan (pods_cmd node))"
  using get_adds [of env lp "''pods -n kube-system --field-selector=spec.nodeName='' @ node @ '' --no-headers''"]
  by (simp add: pods_cmd_def)

lemma raw_pods_adds: "adds V (kubectl_or_empty env lp plan (raw_pods_cmd node))"
proof -
  have "\<exists>c. raw_pods_cmd node = ''get '' @ c" by (simp add: raw_pods_cmd_def)
  then show ?thesis
    unfolding kubectl_or_empty_def by (auto intro!: adds_match get_adds [simplified] split: result.split)
qed

lemma exec_adds:
  "c \<in> set node_commands \<Longrightarrow> opts \<in> set (node_opts plan ip) \<Longrightarrow> adds V (ssh_run env opts c)"
  by (rule adds_ssh_run) (rule V_node)

lemmas node_simps = node_commands_def node_opts_def

lemmas rules = adds_match adds_bind adds_if adds_when adds_ctx adds_ret adds_fail adds_lift adds_sleep V_sleep
  log_adds log_err_adds log_lines_adds V_out ignore_adds ssh_ctx_adds poll_until_adds poll_loop_adds
  exec_adds ready_adds bootid_adds pods_adds raw_pods_adds get_cmds

lemma timers_adds: "adds V (timer_stop env lp plan ip)" "adds V (timer_start env lp plan ip)"
  by (auto intro!: timer_stop_adds timer_start_adds V_node simp: node_simps)

lemma ssh_waits_adds: "adds V (wait_ssh_back env lp plan ip)" "adds V (wait_ssh_drop env lp plan ip)"
  by (auto intro!: wait_ssh_back_adds wait_ssh_drop_adds V_node simp: node_simps)

lemma wait_apiserver_back_adds: "adds V (wait_apiserver_back env lp plan)"
  unfolding wait_apiserver_back_def Let_def
  by (auto intro!: rules split: result.split option.split)

lemma wait_node_ready_adds: "adds V (wait_node_ready env lp plan node)"
  unfolding wait_node_ready_def Let_def
  by (auto intro!: rules split: result.split option.split)

lemma capture_attempts_adds: "adds V (capture_attempts env lp plan node n)"
proof (induction n)
  case 0
  show ?case by (simp only: capture_attempts.simps adds_ret)
next
  case (Suc n)
  then show ?case
    unfolding capture_attempts.simps Let_def by (auto intro!: rules split: result.split)
qed

lemma capture_node_bootid_adds: "adds V (capture_node_bootid env lp plan node)"
  unfolding capture_node_bootid_def by (auto intro!: rules capture_attempts_adds split: option.split)

lemma bootid_body_adds: "adds V (bootid_body env lp plan node pre e l)"
  unfolding bootid_body_def Let_def by (auto intro!: rules)

lemma bootid_after_adds: "adds V (bootid_after lp plan node pre e l)"
  unfolding bootid_after_def by (auto intro!: rules)

lemma wait_node_bootid_changed_adds: "adds V (wait_node_bootid_changed env lp plan node pre)"
  unfolding wait_node_bootid_changed_def Let_def
  by (auto intro!: rules bootid_body_adds bootid_after_adds split: sum.split)

lemma phase_bodies_adds:
  "adds V (phase1_body env lp plan node e n)" "adds V (phase2_body env lp plan node base e l)"
  "adds V (phase2_after lp plan node e l)"
  unfolding phase1_body_def phase2_body_def phase2_after_def Let_def by (auto intro!: rules)

lemma wait_node_daemonsets_ready_adds: "adds V (wait_node_daemonsets_ready env lp plan node)"
  unfolding wait_node_daemonsets_ready_def daemonset_phase2_def Let_def
  by (auto intro!: rules phase_bodies_adds split: sum.split)

lemma has_apply_adds: "opts \<in> set (node_opts plan ip) \<Longrightarrow> adds V (bootc_has_apply_with_exec (ssh_run env opts) ip')"
  unfolding bootc_has_apply_with_exec_def Let_def
  by (auto intro!: rules simp: node_commands_def split: result.split ssh_error.split)

lemma booted_digest_adds:
  "opts \<in> set (node_opts plan ip) \<Longrightarrow> adds V (bootc_booted_digest_with_exec (ssh_run env opts) ip')"
  unfolding bootc_booted_digest_with_exec_def by (auto intro!: rules simp: node_commands_def)

lemma run_upgrade_adds: "opts \<in> set (node_opts plan ip) \<Longrightarrow> adds V (run_upgrade (ssh_run env opts) lp name b)"
  unfolding run_upgrade_def by (auto intro!: rules simp: node_commands_def split: result.split)

lemma bootc_upgrade_apply_adds: "adds V (bootc_upgrade_apply env lp plan ip name)"
proof -
  have opts: "node_ssh_opts plan ip \<in> set (node_opts plan ip)" by (simp add: node_opts_def)
  show ?thesis
    unfolding bootc_upgrade_apply_def bootc_upgrade_apply_with_exec_def classify_upgrade_def
    by (auto intro!: rules has_apply_adds booted_digest_adds run_upgrade_adds opts
        split: result.split ssh_error.split option.split)
qed

lemmas gates = timers_adds ssh_waits_adds wait_apiserver_back_adds wait_node_ready_adds capture_node_bootid_adds
  wait_node_bootid_changed_adds wait_node_daemonsets_ready_adds bootc_upgrade_apply_adds

lemma drop_in_flight_adds: "adds V (drop_in_flight f)"
  unfolding drop_in_flight_def by (rule adds_when, rule adds_for, rule adds_emit, rule V_out)

lemmas flow_rules = adds_loc_bind adds_loc_on_world adds_loc_when adds_loc_if adds_loc_upd adds_loc_pure
  adds_ctx ignore_adds log_adds V_out gates

lemma update_worker_adds:
  assumes "\<And>r. reject_shell_metachars ''cp_kubectl'' (drain_cmd plan node) = Ok () \<Longrightarrow>
      V (SshRun (cp_ssh_opts plan) (kubectl_remote (drain_cmd plan node)) r)"
    and "\<And>r. reject_shell_metachars ''cp_kubectl'' (uncordon_cmd node) = Ok () \<Longrightarrow>
      V (SshRun (cp_ssh_opts plan) (kubectl_remote (uncordon_cmd node)) r)"
  shows "adds V (update_worker env lp plan name ip node)"
proof -
  have k: "adds V (cp_kubectl env lp plan (drain_cmd plan node))" "adds V (cp_kubectl env lp plan (uncordon_cmd node))"
    by (rule kubectl_adds, erule assms)+
  have d: "adds_loc V (drain_step env lp plan node)"
    unfolding drain_step_def phase_def by (intro flow_rules k)
  have u: "adds_loc V (uncordon_step env lp plan node)"
    unfolding uncordon_step_def by (intro flow_rules k)
  have g: "adds_loc V (worker_gates env lp plan name ip node pre)" for pre
    unfolding worker_gates_def Let_def phase_def by (intro flow_rules)
  have "adds_loc V (update_worker_body env lp plan name ip node)"
    unfolding update_worker_body_def
    by (intro flow_rules d) (auto intro!: flow_rules g u split: bootc_outcome.split)
  then show ?thesis
    unfolding update_worker_def by (rule adds_scoped) (rule drop_in_flight_adds)
qed

lemma update_cp_adds:
  assumes "pl_cp_ip plan = ip"
  shows "adds V (update_cp env lp plan)"
proof -
  have "adds_loc V (update_cp_body env lp plan)"
    unfolding update_cp_body_def Let_def assms phase_def
    by (intro flow_rules) (auto intro!: flow_rules split: bootc_outcome.split)
  then show ?thesis
    unfolding update_cp_def by (rule adds_scoped) (rule drop_in_flight_adds)
qed

lemma run_one_worker_adds:
  assumes "pl_worker_ip_map plan w = Some ip"
    and "\<And>r. reject_shell_metachars ''cp_kubectl'' (drain_cmd plan (worker_node plan w)) = Ok () \<Longrightarrow>
      V (SshRun (cp_ssh_opts plan) (kubectl_remote (drain_cmd plan (worker_node plan w))) r)"
    and "\<And>r. reject_shell_metachars ''cp_kubectl'' (uncordon_cmd (worker_node plan w)) = Ok () \<Longrightarrow>
      V (SshRun (cp_ssh_opts plan) (kubectl_remote (uncordon_cmd (worker_node plan w))) r)"
  shows "adds_loc V (run_one_worker env lp plan w)"
  unfolding run_one_worker_def Let_def using assms(1)
  by (auto intro!: adds_loc_match flow_rules update_worker_adds assms(2,3) split: result.split)

end

section \<open>Which commands go where\<close>

fun allowed_event :: "plan \<Rightarrow> string set \<Rightarrow> event \<Rightarrow> bool" where
  "allowed_event plan ips (SshRun opts c r) \<longleftrightarrow>
     (opts = cp_ssh_opts plan \<and> (\<exists>k. c = kubectl_remote k) \<and> \<not> sh_breaks False False c)
     \<or> (c \<in> set node_commands \<and> (\<exists>ip \<in> ips. opts \<in> set (node_opts plan ip)))"
| "allowed_event plan ips (ShRun c r) \<longleftrightarrow> False"
| "allowed_event plan ips ev \<longleftrightarrow> True"

lemma allowed_kubectl:
  "reject_shell_metachars who c = Ok () \<Longrightarrow> allowed_event plan ips (SshRun (cp_ssh_opts plan) (kubectl_remote c) r)"
  by (auto dest: kubectl_remote_filtered)

lemma printed_allowed: "printed ev \<Longrightarrow> allowed_event plan ips ev"
  by (cases ev) auto

text \<open>The audited set of events, for a machine among \<open>ips\<close>.\<close>

interpretation audit: gate_events plan "allowed_event plan (insert ip ips)" ip
  by unfold_locales (auto simp: printed_allowed dest: kubectl_remote_filtered)

definition plan_ips :: "plan \<Rightarrow> string set" where
  "plan_ips plan = insert (pl_cp_ip plan) (ran (pl_worker_ip_map plan))"

lemma audit_worker: "adds_loc (allowed_event plan (plan_ips plan)) (run_one_worker env lp plan w)"
proof (cases "pl_worker_ip_map plan w")
  case None
  then show ?thesis by (simp add: run_one_worker_def)
next
  case (Some ip)
  then have ips: "insert ip (plan_ips plan) = plan_ips plan" by (auto simp: plan_ips_def ran_def)
  have "adds_loc (allowed_event plan (insert ip (plan_ips plan))) (run_one_worker env lp plan w)"
    by (rule audit.run_one_worker_adds [OF Some]) (rule allowed_kubectl, assumption)+
  then show ?thesis by (simp add: ips)
qed

lemma audit_cp: "adds (allowed_event plan (plan_ips plan)) (update_cp env lp plan)"
  using audit.update_cp_adds [of plan "pl_cp_ip plan" "plan_ips plan"] by (simp add: plan_ips_def)

lemma batch_adds:
  assumes "\<And>s. V (Stdout s)" "\<And>s. V (Stderr s)" "\<And>lp w. adds_loc V (run_one_worker env lp plan w)"
  shows "adds_loc V (run_worker_batch env plan batch)"
  unfolding run_worker_batch_def
  by (auto intro!: adds_loc_if adds_loc_bind adds_loc_on_world adds_loc_when adds_loc_for log_adds log_err_adds assms)

lemma walk_batches_adds:
  assumes "\<And>s. V (Stdout s)" "\<And>s. V (Stderr s)" "\<And>n. V (Slept n)"
    "\<And>lp w. adds_loc V (run_one_worker env lp plan w)"
  shows "adds_loc V (walk_batches env plan n ws)"
proof (induction ws rule: length_induct)
  case (1 ws)
  show ?case
  proof (cases "ws = [] \<or> n = 0")
    case True
    then show ?thesis by (subst walk_batches.simps) simp
  next
    case False
    then have "adds_loc V (walk_batches env plan n (drop n ws))" using 1 by simp
    with False show ?thesis
      by (subst walk_batches.simps)
        (auto intro!: adds_loc_bind adds_loc_when adds_loc_on_world log_adds adds_sleep batch_adds assms)
  qed
qed

lemma rolling_walk_adds:
  assumes "\<And>s. V (Stdout s)" "\<And>s. V (Stderr s)" "\<And>n. V (Slept n)"
    "\<And>lp w. adds_loc V (run_one_worker env lp plan w)" "adds V (update_cp env [] plan)"
  shows "adds_loc V (rolling_walk env plan)"
proof -
  have cp: "adds_loc V (cp_then_push env plan)"
    unfolding cp_then_push_def by (intro adds_loc_bind adds_loc_on_world adds_loc_upd assms)
  then show ?thesis
    unfolding rolling_walk_def
    by (auto intro!: adds_loc_bind adds_loc_on_world adds_loc_if log_adds walk_batches_adds cp assms split: option.split)
qed

lemma run_plan_adds:
  assumes "\<And>s. V (Stdout s)" "adds_loc V (rolling_walk env plan)"
  shows "adds V (run_plan env plan)"
proof -
  have "adds V (forA (footer_lines res) (log []))" for res :: results
    by (rule adds_for) (rule log_adds, rule assms)
  then have "adds_loc V (run_rest env plan)"
    unfolding run_rest_def by (intro adds_loc_bind adds_loc_locals adds_loc_on_world assms adds_loc_if adds_loc_pure)
  then show ?thesis
    unfolding run_plan_def by (auto intro!: adds_bind adds_for log_adds assms adds_scoped)
qed


section \<open>A dry run\<close>

lemma quiet_log [quiet_intro]: "quiet (log lp s)" "quiet (log_err lp s)"
  by (simp_all add: log_def log_err_def quiet_emit)

lemma quiet_log_lines [quiet_intro]: "(\<And>s. quiet (lg s)) \<Longrightarrow> quiet (log_lines lg s)"
  unfolding log_lines_def by (intro quiet_when quiet_for)

lemma quiet_drop [quiet_intro]: "quiet (drop_in_flight f)"
  unfolding drop_in_flight_def by (rule quiet_when, rule quiet_for, rule quiet_emit) simp

lemma quiet_ignore [quiet_intro]: "quiet m \<Longrightarrow> quiet (ignore m)"
  unfolding ignore_def by (intro quiet_match quiet_pure)

lemma dry_steps:
  assumes "pl_dry_run plan"
  shows "quiet (cp_kubectl env lp plan c)"
  "quiet (timer_stop env lp plan ip)"
  "quiet (timer_start env lp plan ip)"
  "quiet (wait_ssh_back env lp plan ip)"
  "quiet (wait_ssh_drop env lp plan ip)"
  "quiet (wait_apiserver_back env lp plan)"
  "quiet (wait_node_ready env lp plan node)"
  "quiet (capture_node_bootid env lp plan node)"
  "quiet (wait_node_bootid_changed env lp plan node pre)"
  "quiet (wait_node_daemonsets_ready env lp plan node)"
  "quiet (bootc_upgrade_apply env lp plan ip name)"
  using assms
  by (auto simp: cp_kubectl_def timer_stop_def timer_start_def wait_ssh_back_def wait_ssh_back_with_def
      wait_ssh_drop_def wait_ssh_drop_with_def wait_apiserver_back_def wait_node_ready_def
      capture_node_bootid_def wait_node_bootid_changed_def wait_node_daemonsets_ready_def
      bootc_upgrade_apply_def bootc_upgrade_apply_with_exec_def Let_def
      intro!: quiet_bind quiet_log quiet_pure)

lemmas quiet_flow = quiet_loc_bind quiet_loc_on_world quiet_loc_when quiet_loc_if quiet_loc_upd quiet_loc_pure
  quiet_loc_locals quiet_ctx quiet_ignore quiet_log

lemma dry_update_worker:
  assumes "pl_dry_run plan"
  shows "quiet (update_worker env lp plan name ip node)"
proof -
  note steps = quiet_flow dry_steps [OF assms]
  have d: "quiet_loc (drain_step env lp plan node)"
    unfolding drain_step_def phase_def by (intro steps)
  have u: "quiet_loc (uncordon_step env lp plan node)"
    unfolding uncordon_step_def by (intro steps)
  have g: "quiet_loc (worker_gates env lp plan name ip node pre)" for pre
    unfolding worker_gates_def Let_def phase_def by (intro steps)
  have "quiet_loc (update_worker_body env lp plan name ip node)"
    unfolding update_worker_body_def
    by (intro steps d) (auto intro!: steps g u split: bootc_outcome.split)
  then show ?thesis
    unfolding update_worker_def by (rule quiet_scoped) (rule quiet_drop)
qed

lemma dry_update_cp:
  assumes "pl_dry_run plan"
  shows "quiet (update_cp env lp plan)"
proof -
  note steps = quiet_flow dry_steps [OF assms]
  have "quiet_loc (update_cp_body env lp plan)"
    unfolding update_cp_body_def Let_def phase_def
    by (intro steps) (auto intro!: steps split: bootc_outcome.split)
  then show ?thesis
    unfolding update_cp_def by (rule quiet_scoped) (rule quiet_drop)
qed

lemma dry_run_one_worker:
  "pl_dry_run plan \<Longrightarrow> quiet_loc (run_one_worker env lp plan w)"
  unfolding run_one_worker_def Let_def
  by (auto intro!: quiet_loc_match quiet_flow dry_steps dry_update_worker split: option.split result.split)

lemma dry_walk_batches:
  assumes "pl_dry_run plan"
  shows "quiet_loc (walk_batches env plan n ws)"
proof (induction ws rule: length_induct)
  case (1 ws)
  have batch: "quiet_loc (run_worker_batch env plan b)" for b
    unfolding run_worker_batch_def
    by (auto intro!: quiet_flow quiet_loc_for dry_run_one_worker assms)
  show ?case
  proof (cases "ws = [] \<or> n = 0")
    case True
    then show ?thesis by (subst walk_batches.simps) simp
  next
    case False
    then have "quiet_loc (walk_batches env plan n (drop n ws))" using 1 by simp
    with False assms show ?thesis
      by (subst walk_batches.simps) (auto intro!: quiet_flow batch)
  qed
qed

lemma dry_run_plan:
  assumes "pl_dry_run plan"
  shows "quiet (run_plan env plan)"
proof -
  have cp: "quiet_loc (cp_then_push env plan)"
    unfolding cp_then_push_def by (intro quiet_flow dry_update_cp assms)
  have walk: "quiet_loc (rolling_walk env plan)"
    unfolding rolling_walk_def
    by (auto intro!: quiet_flow dry_walk_batches dry_run_one_worker cp assms split: option.split)
  have "quiet_loc (run_rest env plan)"
    unfolding run_rest_def by (intro quiet_flow walk quiet_for)
  then show ?thesis
    unfolding run_plan_def by (intro quiet_bind quiet_for quiet_log quiet_scoped quiet_pure)
qed

text \<open>C4. A dry run changes nothing: whatever the environment variables, the configuration and the
  arguments, when \<open>--dry-run\<close> is given the command takes no lock, runs no command, sleeps not
  at all and leaves the rest of the world as it is; it only prints. This holds on every path,
  errors included.\<close>

theorem dry_run_changes_nothing:
  assumes "ua_dry_run args"
  shows "w_ext (snd (run_update env getenv lock args config w)) = w_ext w
    \<and> (\<exists>evs. w_trace (snd (run_update env getenv lock args config w)) = w_trace w @ evs \<and> list_all printed evs)"
proof -
  have plan: "quiet (bindA (plan_from_args env args c t) (\<lambda>plan. bindA (whenA (\<not> pl_dry_run plan) lock) (\<lambda>_. run_plan env plan)))"
    (is "quiet ?m") for c t
    unfolding quiet_def adds_def
  proof (intro conjI allI)
    fix w
    obtain r w1 where p: "plan_from_args env args c t w = (r, w1)" by (cases "plan_from_args env args c t w")
    have w1: "w1 = w"
      using p assms unfolding plan_from_args_def
      by (auto simp: Let_def resolve_ips_def bindA_def liftA_def split: if_splits prod.splits result.splits)
    have "w_ext (snd (?m w)) = w_ext w \<and> (\<exists>evs. w_trace (snd (?m w)) = w_trace w @ evs \<and> list_all printed evs)"
    proof (cases r)
      case (Ok pl)
      with p w1 plan_from_args_fields [of env args c t w pl w1] assms have d: "pl_dry_run pl" by simp
      with p w1 Ok have "?m w = run_plan env pl w" by (simp add: bindA_apply)
      with dry_run_plan [OF d, of env] show ?thesis by (auto simp: quiet_def adds_def)
    next
      case (Err e)
      with p w1 show ?thesis by (simp add: bindA_apply_err)
    qed
    then show "\<exists>evs. w_trace (snd (?m w)) = w_trace w @ evs \<and> list_all printed evs" "w_ext (snd (?m w)) = w_ext w"
      by blast+
  qed
  have "quiet (run_update env getenv lock args config)"
    unfolding run_update_def by (intro quiet_bind quiet_pure plan)
  then show ?thesis by (auto simp: quiet_def adds_def)
qed

theorem dry_run_changes_nothing_witness:
  "w_ext (snd (run_update null_env (\<lambda>_. None) (failA [''locked'']) demo_args (Ok (default_config ''cp'' ''k''))
      \<lparr>w_ext = (7 :: nat), w_trace = []\<rparr>)) = 7"
proof -
  have "ua_dry_run demo_args" by (simp add: demo_args_def)
  from dry_run_changes_nothing [OF this, where env = null_env and getenv = "\<lambda>_. None" and lock = "failA [''locked'']"
      and config = "Ok (default_config ''cp'' ''k'')" and w = "\<lparr>w_ext = (7 :: nat), w_trace = []\<rparr>"]
  show ?thesis by simp
qed

end
