(* ===== verification/Update_Monitor.thy ===== *)
theory Update_Monitor
  imports Update_Safety
begin

text \<open>
  A monitor that watches the commands of one worker's update and their answers, and the proof
  that \<open>update_worker\<close> satisfies it on every path: the node takes work again only after the
  gates, and a node left cordoned comes with the recovery hint.
\<close>

section \<open>The monitor\<close>

text \<open>What the run has seen of the node: an upgrade was started (\<open>mo_up\<close>); the booted digest
  before it, and that the one after it is the same; the boot ID before it, and that a different
  one was seen after it; the node was seen Ready with the boot-ID gate passed; it is cordoned
  by a drain of this run; and the verdict \<open>mo_bad\<close>, set by an uncordon that comes too early.\<close>

record monitor =
  mo_up :: bool
  mo_digest :: "string option"
  mo_same :: bool
  mo_pre :: "string option"
  mo_changed :: bool
  mo_ready :: bool
  mo_cordoned :: bool
  mo_bad :: bool

definition monitor0 :: monitor where
  "monitor0 = \<lparr>mo_up = False, mo_digest = None, mo_same = False, mo_pre = None, mo_changed = False,
     mo_ready = False, mo_cordoned = False, mo_bad = False\<rparr>"

definition upgrade_commands :: "string list" where
  "upgrade_commands = [''bootc upgrade --apply'', ''bootc upgrade'', ''systemctl reboot >/dev/null 2>&1'']"

definition gate_passed :: "plan \<Rightarrow> monitor \<Rightarrow> bool" where
  "gate_passed plan m \<longleftrightarrow> pl_skip_gates plan \<or> mo_pre m = None \<or> mo_changed m"

definition may_uncordon :: "monitor \<Rightarrow> bool" where
  "may_uncordon m \<longleftrightarrow> \<not> mo_up m \<or> mo_same m \<or> mo_ready m"

definition monitor_answer :: "plan \<Rightarrow> string \<Rightarrow> string \<Rightarrow> string \<Rightarrow> monitor \<Rightarrow> monitor" where
  "monitor_answer plan node c out m =
     (let v = trim out in
      if c = kubectl_remote (bootid_cmd node) then
        (if v = [] then m
         else if mo_up m then m\<lparr>mo_changed := mo_changed m \<or> mo_pre m \<noteq> Some v\<rparr>
         else m\<lparr>mo_pre := Some v\<rparr>)
      else if c = kubectl_remote (ready_cmd node) then
        (if stdout_has_ready_status out \<and> gate_passed plan m then m\<lparr>mo_ready := True\<rparr> else m)
      else if c = BOOTED_DIGEST then
        (if mo_up m then m\<lparr>mo_same := v \<noteq> [] \<and> mo_digest m = Some v\<rparr> else m\<lparr>mo_digest := Some v\<rparr>)
      else m)"

fun monitor_step :: "plan \<Rightarrow> string \<Rightarrow> event \<Rightarrow> monitor \<Rightarrow> monitor" where
  "monitor_step plan node (SshRun opts c r) m =
     (if c = kubectl_remote (drain_cmd plan node) then (if is_ok r then m\<lparr>mo_cordoned := True\<rparr> else m)
      else if c = kubectl_remote (uncordon_cmd node) then
        m\<lparr>mo_bad := mo_bad m \<or> \<not> may_uncordon m, mo_cordoned := mo_cordoned m \<and> \<not> is_ok r\<rparr>
      else if c \<in> set upgrade_commands then
        m\<lparr>mo_up := True, mo_same := False, mo_changed := False, mo_ready := False\<rparr>
      else (case r of Ok out \<Rightarrow> monitor_answer plan node c (ro_stdout out) m | Err _ \<Rightarrow> m))"
| "monitor_step plan node ev m = m"

section \<open>Assertions over the trace\<close>

definition obs :: "plan \<Rightarrow> string \<Rightarrow> event list \<Rightarrow> (monitor \<Rightarrow> bool) \<Rightarrow> 'w world \<Rightarrow> bool" where
  "obs plan node t0 R w \<longleftrightarrow> (\<exists>evs. w_trace w = t0 @ evs \<and> R (fold (monitor_step plan node) evs monitor0))"

definition calm :: "plan \<Rightarrow> string \<Rightarrow> event \<Rightarrow> bool" where
  "calm plan node ev \<longleftrightarrow> (\<forall>m. monitor_step plan node ev m = m)"

lemma fold_calm: "list_all (calm plan node) evs \<Longrightarrow> fold (monitor_step plan node) evs m = m"
  by (induction evs arbitrary: m) (auto simp: calm_def)

lemma obs_mono: "obs plan node t0 R w \<Longrightarrow> (\<And>m. R m \<Longrightarrow> R' m) \<Longrightarrow> obs plan node t0 R' w"
  by (auto simp: obs_def)

lemma triple_calm:
  assumes "adds (calm plan node) a"
  shows "triple (obs plan node t0 R) a (\<lambda>_. obs plan node t0 R) (\<lambda>_. obs plan node t0 R)"
proof -
  have "obs plan node t0 R w'" if "obs plan node t0 R w" "a w = (r, w')" for w r w'
    using that addsD [OF assms that(2)] by (fastforce simp: obs_def fold_calm)
  then show ?thesis by (auto intro!: tripleI)
qed

lemma obs_snoc:
  "obs plan node t0 R w \<Longrightarrow> w_trace w' = w_trace w @ [ev] \<Longrightarrow> (\<And>m. R m \<Longrightarrow> R' (monitor_step plan node ev m)) \<Longrightarrow>
   obs plan node t0 R' w'"
  unfolding obs_def by (elim exE conjE, rule_tac x = "evs @ [ev]" in exI) (simp del: monitor_step.simps)

lemma triple_ssh_run:
  assumes "\<And>m out. R m \<Longrightarrow> Q out (monitor_step plan node (SshRun opts c (Ok out)) m)"
    and "\<And>m e. R m \<Longrightarrow> E e (monitor_step plan node (SshRun opts c (Err e)) m)"
  shows "triple (obs plan node t0 R) (ssh_run env opts c) (\<lambda>out. obs plan node t0 (Q out)) (\<lambda>e. obs plan node t0 (E e))"
proof (rule tripleI)
  fix w out w'
  assume o: "obs plan node t0 R w" and r: "ssh_run env opts c w = (Ok out, w')"
  then have "w_trace w' = w_trace w @ [SshRun opts c (Ok out)]"
    by (auto simp: ssh_run_def ssh_run_in_def split: prod.splits)
  with o show "obs plan node t0 (Q out) w'" by (rule obs_snoc) (rule assms(1))
next
  fix w e w'
  assume o: "obs plan node t0 R w" and r: "ssh_run env opts c w = (Err e, w')"
  then have "w_trace w' = w_trace w @ [SshRun opts c (Err e)]"
    by (auto simp: ssh_run_def ssh_run_in_def split: prod.splits)
  with o show "obs plan node t0 (E e) w'" by (rule obs_snoc) (rule assms(2))
qed

lemma calm_printed: "printed ev \<Longrightarrow> calm plan node ev"
  by (cases ev) (auto simp: calm_def)

lemma calm_log: "adds (calm plan node) (log lp s)" "adds (calm plan node) (log_err lp s)"
  "adds (calm plan node) (log_lines (log lp) s)" "adds (calm plan node) (log_lines (log_err lp) s)"
  by (auto intro!: adds_intro calm_printed)

lemma triple_ssh_ctx:
  assumes "triple P m Q (\<lambda>_. E)"
  shows "triple P (ssh_ctx m c) Q (\<lambda>_. E)"
  unfolding ssh_ctx_def
  by (rule triple_match [where R = "\<lambda>r s. case r of Ok a \<Rightarrow> Q a s | Err e \<Rightarrow> E s"])
    (use assms in \<open>auto intro!: triple_lift simp: with_context_def split: result.split elim: map_err.elims\<close>)

text \<open>Printing never fails.\<close>

definition nofail :: "('s, 'e, unit) action \<Rightarrow> bool" where
  "nofail a \<longleftrightarrow> (\<forall>s. \<exists>s'. a s = (Ok (), s'))"

lemma nofail_for: "(\<And>x. nofail (f x)) \<Longrightarrow> nofail (forA xs f)"
proof (induction xs)
  case (Cons x xs)
  then have "\<exists>s'. f x s = (Ok (), s')" "\<exists>s'. forA xs f s = (Ok (), s')" for s
    by (auto simp: nofail_def)
  then show ?case unfolding nofail_def forA.simps by (metis bindA_apply)
qed (simp add: nofail_def)

lemma nofail_log: "nofail (log lp s)" "nofail (log_err lp s)"
  "nofail (log_lines (log lp) s)" "nofail (log_lines (log_err lp) s)"
proof -
  show l: "nofail (log lp s)" "nofail (log_err lp s)" for s
    by (simp_all add: nofail_def log_def log_err_def emit_def)
  show "nofail (log_lines (log lp) s)" "nofail (log_lines (log_err lp) s)"
    using nofail_for [of "log lp" "lines s"] nofail_for [of "log_err lp" "lines s"] l
    by (auto simp: log_lines_def whenA_def) (simp_all add: nofail_def)
qed

lemma triple_calm_nofail:
  assumes "adds (calm plan node) a" "nofail a"
  shows "triple (obs plan node t0 R) a (\<lambda>_. obs plan node t0 R) E"
proof (rule tripleI)
  fix w v w'
  assume "obs plan node t0 R w" "a w = (Ok v, w')"
  with tripleD(1) [OF triple_calm [OF assms(1)]] show "obs plan node t0 R w'" .
next
  fix w e w'
  assume "a w = (Err e, w')"
  with assms(2) show "E e w'" by (metis nofail_def prod.inject result.distinct(1))
qed

lemma triple_kubectl:
  assumes live: "\<not> pl_dry_run plan"
    and ok: "\<And>m out. R m \<Longrightarrow>
      Q (ro_stdout out) (monitor_step plan node (SshRun (cp_ssh_opts plan) (kubectl_remote c) (Ok out)) m)"
    and er: "\<And>m e. R m \<Longrightarrow> E (monitor_step plan node (SshRun (cp_ssh_opts plan) (kubectl_remote c) (Err e)) m)"
    and rej: "\<And>m. R m \<Longrightarrow> E m"
  shows "triple (obs plan node t0 R) (cp_kubectl env lp plan c) (\<lambda>s. obs plan node t0 (Q s)) (\<lambda>_. obs plan node t0 E)"
proof -
  have pure: "triple (obs plan node t0 R) (liftA (reject_shell_metachars ''cp_kubectl'' c) :: (_, unit) act)
      (\<lambda>_. obs plan node t0 R) (\<lambda>_. obs plan node t0 E)"
    by (rule triple_lift) (auto elim: obs_mono rej)
  have run: "triple (obs plan node t0 R) (ssh_ctx (ssh_run env (cp_ssh_opts plan) (kubectl_remote c)) x)
      (\<lambda>out. obs plan node t0 (Q (ro_stdout out))) (\<lambda>_. obs plan node t0 E)" for x
    by (rule triple_ssh_ctx, rule triple_ssh_run) (auto simp only: ok er)
  have logs: "triple (obs plan node t0 (Q s)) (log_lines (log lp) x) (\<lambda>_. obs plan node t0 (Q s)) (\<lambda>_. obs plan node t0 E)"
    "triple (obs plan node t0 (Q s)) (log_lines (log_err lp) x) (\<lambda>_. obs plan node t0 (Q s)) (\<lambda>_. obs plan node t0 E)" for s x
    by (rule triple_calm_nofail, rule calm_log, rule nofail_log)+
  have "triple (obs plan node t0 R) (cp_kubectl_live env lp plan c) (\<lambda>s. obs plan node t0 (Q s)) (\<lambda>_. obs plan node t0 E)"
    unfolding cp_kubectl_live_def
    by (rule triple_bind [OF pure], rule triple_bind [OF run], rule triple_bind [OF logs(1)],
        rule triple_bind [OF logs(2)], rule triple_ret)
  with live show ?thesis by (simp add: cp_kubectl_def)
qed

section \<open>What each step does to the monitor\<close>

lemma kubectl_remote_inj [simp]: "kubectl_remote a = kubectl_remote b \<longleftrightarrow> a = b"
  by (simp add: kubectl_remote_def)

lemma calm_cmd:
  assumes "c \<noteq> kubectl_remote (drain_cmd plan node)" "c \<noteq> kubectl_remote (uncordon_cmd node)"
    "c \<notin> set upgrade_commands" "c \<noteq> kubectl_remote (bootid_cmd node)" "c \<noteq> kubectl_remote (ready_cmd node)"
    "c \<noteq> BOOTED_DIGEST"
  shows "calm plan node (SshRun opts c r)"
  using assms by (auto simp: calm_def monitor_answer_def split: result.split)

lemmas cmd_defs = drain_cmd_def uncordon_cmd_def bootid_cmd_def ready_cmd_def pods_cmd_def raw_pods_cmd_def
  kubectl_remote_def upgrade_commands_def BOOTED_DIGEST_def TIMER_STOP_def TIMER_START_PROBE_def HAS_APPLY_def

lemma calm_commands:
  "calm plan node (SshRun opts TIMER_STOP r)" "calm plan node (SshRun opts TIMER_START_PROBE r)"
  "calm plan node (SshRun opts ''true'' r)" "calm plan node (SshRun opts HAS_APPLY r)"
  "calm plan node (SshRun opts (kubectl_remote (pods_cmd n)) r)"
  "calm plan node (SshRun opts (kubectl_remote (raw_pods_cmd n)) r)"
  by (rule calm_cmd; simp add: cmd_defs)+

interpretation calm_e: base_events plan "calm plan node"
proof unfold_locales
  show "printed ev \<Longrightarrow> calm plan node ev" for ev by (rule calm_printed)
  show "calm plan node (Slept n)" for n by (simp add: calm_def)
qed

lemma calm_steps:
  "adds (calm plan node) (timer_stop env lp plan ip)"
  "adds (calm plan node) (timer_start env lp plan ip)"
  "adds (calm plan node) (wait_ssh_back env lp plan ip)"
  "adds (calm plan node) (wait_ssh_drop env lp plan ip)"
  "adds (calm plan node) (wait_node_daemonsets_ready env lp plan node)"
  by (intro calm_e.timer_stop_adds calm_e.timer_start_adds calm_e.wait_ssh_back_adds calm_e.wait_ssh_drop_adds
      calm_e.daemonsets_adds calm_commands)+

text \<open>The part of the monitor no step but drain and uncordon touches.\<close>

definition frame :: "bool \<Rightarrow> monitor \<Rightarrow> bool" where
  "frame c m \<longleftrightarrow> \<not> mo_bad m \<and> mo_cordoned m = c"

definition pre_is :: "string \<Rightarrow> monitor \<Rightarrow> bool" where
  "pre_is v m \<longleftrightarrow> mo_pre m = (if v = [] then None else Some v)"

lemmas mon_simps = monitor_answer_def frame_def pre_is_def

lemma step_bootid:
  "monitor_step plan node (SshRun opts (kubectl_remote (bootid_cmd node)) (Ok out)) m =
     (if trim (ro_stdout out) = [] then m
      else if mo_up m then m\<lparr>mo_changed := mo_changed m \<or> mo_pre m \<noteq> Some (trim (ro_stdout out))\<rparr>
      else m\<lparr>mo_pre := Some (trim (ro_stdout out))\<rparr>)"
  "monitor_step plan node (SshRun opts (kubectl_remote (bootid_cmd node)) (Err e)) m = m"
  by (simp_all add: monitor_answer_def cmd_defs)

lemma step_ready:
  "monitor_step plan node (SshRun opts (kubectl_remote (ready_cmd node)) (Ok out)) m =
     (if stdout_has_ready_status (ro_stdout out) \<and> gate_passed plan m then m\<lparr>mo_ready := True\<rparr> else m)"
  "monitor_step plan node (SshRun opts (kubectl_remote (ready_cmd node)) (Err e)) m = m"
  by (simp_all add: monitor_answer_def cmd_defs)

lemma step_digest:
  "monitor_step plan node (SshRun opts BOOTED_DIGEST (Ok out)) m =
     (if mo_up m then m\<lparr>mo_same := trim (ro_stdout out) \<noteq> [] \<and> mo_digest m = Some (trim (ro_stdout out))\<rparr>
      else m\<lparr>mo_digest := Some (trim (ro_stdout out))\<rparr>)"
  "monitor_step plan node (SshRun opts BOOTED_DIGEST (Err e)) m = m"
  by (simp_all add: monitor_answer_def cmd_defs Let_def)

lemma step_upgrade:
  "c \<in> set upgrade_commands \<Longrightarrow> monitor_step plan node (SshRun opts c r) m =
     m\<lparr>mo_up := True, mo_same := False, mo_changed := False, mo_ready := False\<rparr>"
  by (auto simp: cmd_defs)

lemma step_drain:
  "monitor_step plan node (SshRun opts (kubectl_remote (drain_cmd plan node)) r) m =
     (if is_ok r then m\<lparr>mo_cordoned := True\<rparr> else m)"
  by simp

lemma step_uncordon:
  "monitor_step plan node (SshRun opts (kubectl_remote (uncordon_cmd node)) r) m =
     m\<lparr>mo_bad := mo_bad m \<or> \<not> may_uncordon m, mo_cordoned := mo_cordoned m \<and> \<not> is_ok r\<rparr>"
  by (simp add: cmd_defs)

declare monitor_step.simps [simp del]

text \<open>The boot ID before the reboot.\<close>

lemma triple_capture_attempts:
  assumes "\<not> pl_dry_run plan"
  shows "triple (obs plan node t0 (\<lambda>m. frame c m \<and> \<not> mo_up m \<and> mo_pre m = None))
    (capture_attempts env lp plan node n)
    (\<lambda>r. obs plan node t0 (\<lambda>m. frame c m \<and> \<not> mo_up m \<and> mo_pre m = r \<and> r \<noteq> Some []))
    (\<lambda>_. obs plan node t0 (frame c))"
proof (induction n)
  case 0
  show ?case
    by (simp only: capture_attempts.simps) (rule triple_ret, auto elim: obs_mono)
next
  case (Suc n)
  let ?P = "\<lambda>m. frame c m \<and> \<not> mo_up m \<and> mo_pre m = None"
  let ?Q = "\<lambda>r m. frame c m \<and> \<not> mo_up m \<and> mo_pre m = r \<and> r \<noteq> Some []"
  let ?again = "bindA (whenA (0 < n) (sleep env 2)) (\<lambda>_. capture_attempts env lp plan node n)"
  have again: "triple (obs plan node t0 ?P) ?again (\<lambda>r. obs plan node t0 (?Q r)) (\<lambda>_. obs plan node t0 (frame c))"
  proof (rule triple_bind [OF _ Suc.IH])
    have "adds (calm plan node) (whenA (0 < n) (sleep env 2) :: (_, unit) act)"
      by (auto intro!: adds_when adds_sleep simp: calm_def monitor_step.simps)
    moreover have "nofail (whenA (0 < n) (sleep env 2) :: (_, unit) act)"
      by (auto simp: nofail_def whenA_def sleep_def)
    ultimately show "triple (obs plan node t0 ?P) (whenA (0 < n) (sleep env 2) :: (_, unit) act)
        (\<lambda>_. obs plan node t0 ?P) (\<lambda>_. obs plan node t0 (frame c))"
      by (rule triple_calm_nofail)
  qed
  have query: "triple (obs plan node t0 ?P) (cp_kubectl env lp plan (bootid_cmd node))
      (\<lambda>v. obs plan node t0 (?Q (if trim v = [] then None else Some (trim v)))) (\<lambda>_. obs plan node t0 ?P)"
    by (rule triple_kubectl [OF assms]) (auto simp: step_bootid frame_def)
  show ?case
    unfolding capture_attempts.simps Let_def
    by (rule triple_match [where R = "\<lambda>r. case r of Ok v \<Rightarrow> obs plan node t0 (?Q (if trim v = [] then None else Some (trim v)))
          | Err _ \<Rightarrow> obs plan node t0 ?P"])
      (use query again in \<open>auto intro!: triple_ret split: result.split elim!: triple_conseq obs_mono\<close>)
qed

lemma triple_capture:
  assumes "\<not> pl_dry_run plan"
  shows "triple (obs plan node t0 (\<lambda>m. frame c m \<and> \<not> mo_up m \<and> mo_pre m = None))
    (capture_node_bootid env lp plan node)
    (\<lambda>v. obs plan node t0 (\<lambda>m. frame c m \<and> \<not> mo_up m \<and> pre_is v m))
    (\<lambda>_. obs plan node t0 (frame c))"
proof -
  have warn: "triple (obs plan node t0 R) (bindA (log lp s) (\<lambda>_. retA []))
      (\<lambda>v. obs plan node t0 (\<lambda>m. R m \<and> v = [])) (\<lambda>_ :: anyhow. obs plan node t0 (frame c))" for R s
    by (rule triple_bind, rule triple_calm_nofail, rule calm_log, rule nofail_log) (auto intro!: triple_ret)
  have k: "triple (obs plan node t0 (\<lambda>m. frame c m \<and> \<not> mo_up m \<and> mo_pre m = r \<and> r \<noteq> Some []))
     (case r of Some v \<Rightarrow> retA v | None \<Rightarrow> bindA (log lp s) (\<lambda>_. retA []))
     (\<lambda>v. obs plan node t0 (\<lambda>m. frame c m \<and> \<not> mo_up m \<and> pre_is v m)) (\<lambda>_ :: anyhow. obs plan node t0 (frame c))" for r s
  proof (cases r)
    case None
    show ?thesis unfolding None
      by (simp, rule triple_conseq [OF warn]) (auto simp: pre_is_def elim: obs_mono)
  next
    case (Some v)
    then show ?thesis by (auto intro!: triple_ret simp: pre_is_def elim!: obs_mono)
  qed
  show ?thesis
    unfolding capture_node_bootid_def if_not_P [OF assms]
    by (rule triple_bind [OF triple_capture_attempts [OF assms] k])
qed

text \<open>The upgrade: it marks the monitor, keeps the boot ID, and answers \<open>AlreadyCurrent\<close> only
  with two equal digests.\<close>

lemma triple_digest:
  assumes "\<And>m v. R m \<Longrightarrow> Q v (if mo_up m then m\<lparr>mo_same := v \<noteq> [] \<and> mo_digest m = Some v\<rparr> else m\<lparr>mo_digest := Some v\<rparr>)"
    and "\<And>m. R m \<Longrightarrow> frame c m"
  shows "triple (obs plan node t0 R) (bootc_booted_digest_with_exec (ssh_run env opts) ip)
    (\<lambda>v. obs plan node t0 (Q v)) (\<lambda>_. obs plan node t0 (frame c))"
  unfolding bootc_booted_digest_with_exec_def
proof (rule triple_bind)
  show "triple (obs plan node t0 R) (ssh_ctx (ssh_run env opts BOOTED_DIGEST) x)
      (\<lambda>out. obs plan node t0 (Q (trim (ro_stdout out)))) (\<lambda>_. obs plan node t0 (frame c))" for x
    by (rule triple_ssh_ctx, rule triple_ssh_run) (auto simp: step_digest assms)
  show "triple (obs plan node t0 (Q (trim (ro_stdout out)))) (retA (trim (ro_stdout out)))
      (\<lambda>v. obs plan node t0 (Q v)) (\<lambda>_ :: anyhow. obs plan node t0 (frame c))" for out
    by (rule triple_ret)
qed

lemma triple_has_apply:
  "triple (obs plan node t0 R) (bootc_has_apply_with_exec (ssh_run env opts) ip)
     (\<lambda>_. obs plan node t0 R) (\<lambda>_. obs plan node t0 R)"
proof (rule triple_calm)
  have "adds (calm plan node) (ssh_run env opts HAS_APPLY)"
    by (rule adds_ssh_run) (rule calm_commands)
  then show "adds (calm plan node) (bootc_has_apply_with_exec (ssh_run env opts) ip)"
    unfolding bootc_has_apply_with_exec_def Let_def
    by (auto intro!: adds_match split: result.split ssh_error.split)
qed

lemma triple_run_upgrade:
  assumes "\<And>m. R m \<Longrightarrow> Q (m\<lparr>mo_up := True, mo_same := False, mo_changed := False, mo_ready := False\<rparr>)"
    and "\<And>m. Q m \<Longrightarrow> Q (m\<lparr>mo_up := True, mo_same := False, mo_changed := False, mo_ready := False\<rparr>)"
  shows "triple (obs plan node t0 R) (run_upgrade (ssh_run env opts) lp name b)
    (\<lambda>_. obs plan node t0 Q) E"
proof -
  have up: "c \<in> set upgrade_commands \<Longrightarrow> (\<And>m. R' m \<Longrightarrow> Q (m\<lparr>mo_up := True, mo_same := False, mo_changed := False, mo_ready := False\<rparr>)) \<Longrightarrow>
      triple (obs plan node t0 R') (ssh_run env opts c) (\<lambda>_. obs plan node t0 Q) (\<lambda>_. obs plan node t0 Q)" for c R'
    by (rule triple_ssh_run) (auto simp: step_upgrade)
  have val: "triple (obs plan node t0 Q) (retA r) (\<lambda>_. obs plan node t0 Q) E" for r :: "(ssh_error, run_output) result"
    by (rule triple_ret)
  have single: "c \<in> set upgrade_commands \<Longrightarrow> (\<And>m. R' m \<Longrightarrow> Q (m\<lparr>mo_up := True, mo_same := False, mo_changed := False, mo_ready := False\<rparr>)) \<Longrightarrow>
      triple (obs plan node t0 R') (matchA (ssh_run env opts c) retA) (\<lambda>_. obs plan node t0 Q) E" for c R'
    by (rule triple_match [where R = "\<lambda>_. obs plan node t0 Q"], rule up) (auto intro: val)
  have reboot: "triple (obs plan node t0 Q) (bindA (log_lines (log_err lp) s)
      (\<lambda>_. matchA (ssh_run env opts ''systemctl reboot >/dev/null 2>&1'') retA)) (\<lambda>_. obs plan node t0 Q) E" for s
    by (rule triple_bind, rule triple_calm_nofail, rule calm_log, rule nofail_log, rule single)
      (auto simp: upgrade_commands_def assms)
  show ?thesis
  proof (cases b)
    case True
    then show ?thesis
      unfolding run_upgrade_def by simp (rule single, auto simp: upgrade_commands_def assms)
  next
    case False
    have "triple (obs plan node t0 R) (matchA (ssh_run env opts ''bootc upgrade'') (\<lambda>r.
          case r of
            Ok out \<Rightarrow>
              bindA (log_lines (log_err lp) (ro_stderr out)) (\<lambda>_.
              matchA (ssh_run env opts ''systemctl reboot >/dev/null 2>&1'') retA)
          | Err e \<Rightarrow> retA (Err e))) (\<lambda>_. obs plan node t0 Q) E"
      by (rule triple_match [where R = "\<lambda>_. obs plan node t0 Q"], rule up)
        (auto simp: upgrade_commands_def assms intro!: reboot val split: result.split)
    with False show ?thesis
      unfolding run_upgrade_def
      by (simp only: if_False) (rule triple_bind, rule triple_calm_nofail, rule calm_log, rule nofail_log)
  qed
qed

lemma triple_upgrade:
  assumes "\<not> pl_dry_run plan"
  shows "triple (obs plan node t0 (\<lambda>m. frame c m \<and> \<not> mo_up m \<and> pre_is v m))
    (bootc_upgrade_apply env lp plan ip name)
    (\<lambda>out. obs plan node t0 (\<lambda>m. frame c m \<and> mo_up m \<and> pre_is v m \<and> (out = AlreadyCurrent \<longrightarrow> mo_same m)))
    (\<lambda>_. obs plan node t0 (frame c))" (is "triple _ _ (\<lambda>out. obs plan node t0 (?Q out)) ?E")
proof -
  let ?up = "\<lambda>d m. frame c m \<and> mo_up m \<and> pre_is v m \<and> mo_digest m = Some d"
  have nf: "adds (calm plan node) a \<Longrightarrow> nofail a \<Longrightarrow> triple (obs plan node t0 R) a (\<lambda>_. obs plan node t0 R) ?E"
    for a R by (rule triple_calm_nofail)
  have verdict: "triple (obs plan node t0 (\<lambda>m. ?up d m \<and> (p \<noteq> [] \<and> d = p \<longrightarrow> mo_same m)))
      (if d \<noteq> [] \<and> p \<noteq> [] \<and> d = p then bindA (log lp s) (\<lambda>_. retA AlreadyCurrent) else retA Applied)
      (\<lambda>out. obs plan node t0 (?Q out)) ?E" for d p s
    by (auto intro!: triple_ret triple_bind [OF nf [OF calm_log(1) nofail_log(1)]] elim!: obs_mono)
  have okay: "triple (obs plan node t0 (?up d)) (bindA (log_lines (log_err lp) e) (\<lambda>_.
            bindA (bootc_booted_digest_with_exec (ssh_run env opts) ip) (\<lambda>p.
            bindA (log lp (''  post-upgrade booted digest: '' @ digest_or_unknown p)) (\<lambda>_.
            if d \<noteq> [] \<and> p \<noteq> [] \<and> d = p then
              bindA (log lp (''  no update available on '' @ name @ ''; skipping wait loops'')) (\<lambda>_. retA AlreadyCurrent)
            else retA Applied)))) (\<lambda>out. obs plan node t0 (?Q out)) ?E" for d e opts
  proof -
    have dig: "triple (obs plan node t0 (?up d)) (bootc_booted_digest_with_exec (ssh_run env opts) ip)
        (\<lambda>p. obs plan node t0 (\<lambda>m. ?up d m \<and> (p \<noteq> [] \<and> d = p \<longrightarrow> mo_same m))) ?E"
      by (rule triple_digest) (auto simp: frame_def pre_is_def)
    show ?thesis
      by (rule triple_bind [OF nf [OF calm_log(4) nofail_log(4)]], rule triple_bind [OF dig],
          rule triple_bind [OF nf [OF calm_log(1) nofail_log(1)]], rule verdict)
  qed
  have failed: "triple (obs plan node t0 (?up d)) (bindA (log_lines (log_err lp) e) (\<lambda>_.
            case x of
              Some code \<Rightarrow>
                if code = 255 then retA Applied
                else bindA (log lp (s1 code)) (\<lambda>_. retA UpgradeFailed)
            | None \<Rightarrow> bindA (log lp s2) (\<lambda>_. retA UpgradeFailed))) (\<lambda>out. obs plan node t0 (?Q out)) ?E"
    for d e x and s1 :: "nat \<Rightarrow> string" and s2
    by (rule triple_bind [OF nf [OF calm_log(4) nofail_log(4)]])
      (auto intro!: triple_ret triple_bind [OF nf [OF calm_log(1) nofail_log(1)]] elim!: obs_mono split: option.split)
  have result: "triple (obs plan node t0 (?up d))
      (classify_upgrade (ssh_run env (node_ssh_opts plan ip)) lp ip name d result)
      (\<lambda>out. obs plan node t0 (?Q out)) ?E" for d result
    unfolding classify_upgrade_def
    by (cases result; (cases "err_val result")?)
      (auto simp only: result.case ssh_error.case result.sel intro!: okay failed triple_fail elim!: obs_mono)
  show ?thesis
    unfolding bootc_upgrade_apply_def bootc_upgrade_apply_with_exec_def if_not_P [OF assms]
  proof (rule triple_bind)
    show "triple (obs plan node t0 (\<lambda>m. frame c m \<and> \<not> mo_up m \<and> pre_is v m))
        (bootc_booted_digest_with_exec (ssh_run env (node_ssh_opts plan ip)) ip)
        (\<lambda>d. obs plan node t0 (\<lambda>m. frame c m \<and> \<not> mo_up m \<and> pre_is v m \<and> mo_digest m = Some d)) ?E"
      by (rule triple_digest) (auto simp: frame_def pre_is_def)
  next
    fix d
    have apply_probe: "triple (obs plan node t0 (\<lambda>m. frame c m \<and> \<not> mo_up m \<and> pre_is v m \<and> mo_digest m = Some d))
        (bootc_has_apply_with_exec (ssh_run env (node_ssh_opts plan ip)) ip)
        (\<lambda>_. obs plan node t0 (\<lambda>m. frame c m \<and> \<not> mo_up m \<and> pre_is v m \<and> mo_digest m = Some d)) ?E"
      by (rule triple_conseq [OF triple_has_apply [where R = "\<lambda>m. frame c m \<and> \<not> mo_up m \<and> pre_is v m \<and> mo_digest m = Some d"]])
        (auto elim: obs_mono)
    have upgrade: "triple (obs plan node t0 (\<lambda>m. frame c m \<and> \<not> mo_up m \<and> pre_is v m \<and> mo_digest m = Some d))
        (run_upgrade (ssh_run env (node_ssh_opts plan ip)) lp name b) (\<lambda>_. obs plan node t0 (?up d)) ?E" for b
      by (rule triple_run_upgrade) (auto simp: frame_def pre_is_def)
    show "triple (obs plan node t0 (\<lambda>m. frame c m \<and> \<not> mo_up m \<and> pre_is v m \<and> mo_digest m = Some d))
        (bindA (log lp (''  pre-upgrade booted digest: '' @ digest_or_unknown d)) (\<lambda>_.
         bindA (bootc_has_apply_with_exec (ssh_run env (node_ssh_opts plan ip)) ip) (\<lambda>has_apply.
         bindA (run_upgrade (ssh_run env (node_ssh_opts plan ip)) lp name has_apply) (\<lambda>result.
         classify_upgrade (ssh_run env (node_ssh_opts plan ip)) lp ip name d result))))
        (\<lambda>out. obs plan node t0 (?Q out)) ?E"
      by (rule triple_bind [OF nf [OF calm_log(1) nofail_log(1)]], rule triple_bind [OF apply_probe],
          rule triple_bind [OF upgrade], rule result)
  qed
qed

text \<open>The boot-ID gate and the readiness gate.\<close>

lemma triple_bootid_gate:
  assumes "\<not> pl_dry_run plan"
  shows "triple (obs plan node t0 (\<lambda>m. frame c m \<and> mo_up m \<and> pre_is v m))
    (wait_node_bootid_changed env lp plan node v)
    (\<lambda>_. obs plan node t0 (\<lambda>m. frame c m \<and> gate_passed plan m)) (\<lambda>_. obs plan node t0 (frame c))"
proof -
  let ?I = "\<lambda>l :: u32 \<times> string. obs plan node t0 (\<lambda>m. frame c m \<and> mo_up m \<and> pre_is v m)"
  let ?G = "obs plan node t0 (\<lambda>m. frame c m \<and> gate_passed plan m)"
  let ?E = "\<lambda>_ :: anyhow. obs plan node t0 (frame c)"
  have query: "triple (?I l) (cp_kubectl env lp plan (bootid_cmd node))
      (\<lambda>s. obs plan node t0 (\<lambda>m. frame c m \<and> mo_up m \<and> pre_is v m \<and> (trim s \<noteq> [] \<and> trim s \<noteq> v \<longrightarrow> gate_passed plan m)))
      (\<lambda>_. ?I l)" for l
    by (rule triple_kubectl [OF assms]) (auto simp: step_bootid frame_def pre_is_def gate_passed_def)
  have body: "triple (?I l) (bootid_body env lp plan node v e l)
      (\<lambda>(r, l') w. case r of Some _ \<Rightarrow> ?G w | None \<Rightarrow> ?I l' w) ?E" for e l
    unfolding bootid_body_def Let_def
    by (rule triple_match_cases [OF query])
      (auto intro!: triple_ret triple_bind [OF triple_calm_nofail [OF calm_log(1) nofail_log(1)]]
        split: result.split elim!: obs_mono)
  have after: "triple (?I l) (bootid_after lp plan node v e l) ?I ?E" for e l
    unfolding bootid_after_def
    by (auto intro!: triple_ret triple_bind [OF triple_calm_nofail [OF calm_log(1) nofail_log(1)]])
  have slept: "?I l w \<Longrightarrow> ?I l (snd ((sleep env n :: (_, unit) act) w))" for l w n
    by (auto simp: sleep_def obs_snoc [of plan node t0 _ w _ "Slept n"] monitor_step.simps)
  have loop: "triple (?I (0, [])) (poll_loop env 5 (tm_ready (pl_timeouts plan)) (bootid_body env lp plan node v)
        (bootid_after lp plan node v) 0 (0, [])) (\<lambda>r w. case r of Inl _ \<Rightarrow> ?G w | Inr l' \<Rightarrow> ?I l' w) ?E"
    by (rule triple_poll_loop [where I = ?I and Q = "\<lambda>_. ?G"]) (rule body after slept, assumption?)+
  have tail: "triple (\<lambda>w. case r of Inl _ \<Rightarrow> ?G w | Inr l' \<Rightarrow> ?I l' w)
      (case r of Inl _ \<Rightarrow> retA () | Inr l \<Rightarrow> bindA (log lp (s1 l)) (\<lambda>_. failA (s2 l))) (\<lambda>_. ?G) ?E"
    for r :: "unit + u32 \<times> string" and s1 s2
    by (cases r) (auto intro!: triple_ret triple_fail triple_bind [OF triple_calm_nofail [OF calm_log(1) nofail_log(1)]] elim!: obs_mono)
  have live: "triple (?I l) (bindA (log lp s) (\<lambda>_.
         if pl_dry_run plan then log lp s' else
           bindA (poll_loop env 5 (tm_ready (pl_timeouts plan)) (bootid_body env lp plan node v)
                    (bootid_after lp plan node v) 0 (0, [])) (\<lambda>r.
           case r of Inl _ \<Rightarrow> retA () | Inr l \<Rightarrow> bindA (log lp (s1 l)) (\<lambda>_. failA (s2 l))))) (\<lambda>_. ?G) ?E"
    for l s s' s1 s2
    unfolding if_not_P [OF assms]
    by (rule triple_bind [OF triple_calm_nofail [OF calm_log(1) nofail_log(1)]], rule triple_bind [OF loop tail])
  have skip: "triple (?I l) a (\<lambda>_. ?G) ?E"
    if "adds (calm plan node) a" "nofail a" "pl_skip_gates plan \<or> v = []" for l and a :: "(_, unit) act"
    by (rule triple_conseq [OF triple_calm_nofail [OF that(1,2), where R = "\<lambda>m. frame c m \<and> gate_passed plan m" and E = ?E]])
      (use that(3) in \<open>auto simp: gate_passed_def pre_is_def elim: obs_mono\<close>)
  show ?thesis
    unfolding wait_node_bootid_changed_def Let_def
    by (intro triple_if) (rule skip, rule calm_log, rule nofail_log, simp, rule skip, rule calm_log, rule nofail_log, simp, rule live)
qed

lemma triple_ready_gate:
  assumes "\<not> pl_dry_run plan"
  shows "triple (obs plan node t0 (\<lambda>m. frame c m \<and> gate_passed plan m))
    (wait_node_ready env lp plan node)
    (\<lambda>_. obs plan node t0 (\<lambda>m. frame c m \<and> mo_ready m)) (\<lambda>_. obs plan node t0 (frame c))"
proof -
  let ?I = "obs plan node t0 (\<lambda>m. frame c m \<and> gate_passed plan m)"
  let ?G = "obs plan node t0 (\<lambda>m. frame c m \<and> mo_ready m)"
  let ?E = "\<lambda>_ :: anyhow. obs plan node t0 (frame c)"
  have query: "triple ?I (cp_kubectl env lp plan (ready_cmd node))
      (\<lambda>s. obs plan node t0 (\<lambda>m. frame c m \<and> gate_passed plan m \<and> (stdout_has_ready_status s \<longrightarrow> mo_ready m)))
      (\<lambda>_. ?I)"
    by (rule triple_kubectl [OF assms]) (auto simp: step_ready frame_def gate_passed_def)
  have body: "triple ?I (matchA (cp_kubectl env lp plan (ready_cmd node)) (\<lambda>r.
              case r of
                Ok out \<Rightarrow> if stdout_has_ready_status out then bindA (log lp s) (\<lambda>_. retA (Some ())) else retA None
              | Err _ \<Rightarrow> retA None)) (\<lambda>r w. case r of Some _ \<Rightarrow> ?G w | None \<Rightarrow> ?I w) ?E" for s
    by (rule triple_match_cases [OF query])
      (auto intro!: triple_ret triple_bind [OF triple_calm_nofail [OF calm_log(1) nofail_log(1)]] elim!: obs_mono)
  have slept: "?I w \<Longrightarrow> ?I (snd ((sleep env n :: (_, unit) act) w))" for w n
    by (auto simp: sleep_def obs_snoc [of plan node t0 _ w _ "Slept n"] monitor_step.simps)
  have tail: "triple (\<lambda>w. case r of Some _ \<Rightarrow> ?G w | None \<Rightarrow> ?I w)
      (case r of Some _ \<Rightarrow> retA () | None \<Rightarrow> failA s) (\<lambda>_. ?G) ?E" for r :: "unit option" and s
    by (cases r) (auto intro!: triple_ret triple_fail elim!: obs_mono)
  show ?thesis
    unfolding wait_node_ready_def Let_def if_not_P [OF assms]
    by (rule triple_bind [OF triple_calm_nofail [OF calm_log(1) nofail_log(1)]],
        rule triple_bind [OF triple_poll_until [where Q = "\<lambda>_. ?G"]], rule body, erule slept, rule tail)
qed

section \<open>The flow of one worker\<close>

text \<open>The in-flight record while the node may be cordoned (\<open>c\<close>), the joint assertion on record and
  trace, and the one that holds on every way out.\<close>

definition held :: "plan \<Rightarrow> string \<Rightarrow> bool \<Rightarrow> in_flight \<Rightarrow> bool" where
  "held plan node c f \<longleftrightarrow> \<not> if_uncordoned f \<and> if_node f = node \<and> if_cp_ip f = pl_cp_ip plan \<and> (c \<longrightarrow> if_drained f)"

definition fly :: "plan \<Rightarrow> string \<Rightarrow> event list \<Rightarrow> bool \<Rightarrow> (monitor \<Rightarrow> bool) \<Rightarrow> in_flight \<times> 'w world \<Rightarrow> bool" where
  "fly plan node t0 c X = (\<lambda>(f, w). held plan node c f \<and> obs plan node t0 (\<lambda>m. frame c m \<and> X m) w)"

definition landed :: "plan \<Rightarrow> string \<Rightarrow> event list \<Rightarrow> in_flight \<times> 'w world \<Rightarrow> bool" where
  "landed plan node t0 = (\<lambda>(f, w). obs plan node t0 (frame False) w)"

definition safe_exit :: "plan \<Rightarrow> string \<Rightarrow> event list \<Rightarrow> in_flight \<times> 'w world \<Rightarrow> bool" where
  "safe_exit plan node t0 = (\<lambda>(f, w). obs plan node t0 (\<lambda>m. \<not> mo_bad m \<and> (mo_cordoned m \<longrightarrow> held plan node True f)) w)"

lemma frame_safe_exit: "held plan node c f \<Longrightarrow> obs plan node t0 (frame c) w \<Longrightarrow> safe_exit plan node t0 (f, w)"
  by (auto simp: safe_exit_def held_def frame_def elim!: obs_mono)

lemma held_world:
  assumes "triple (obs plan node t0 (\<lambda>m. frame c m \<and> X m)) a (\<lambda>v. obs plan node t0 (Y v)) (\<lambda>_. obs plan node t0 (frame c))"
  shows "triple (fly plan node t0 c X) (on_world a) (\<lambda>v (f, w). held plan node c f \<and> obs plan node t0 (Y v) w)
    (\<lambda>_. safe_exit plan node t0)"
proof (rule tripleI)
  fix s v s'
  assume "fly plan node t0 c X s" "on_world a s = (Ok v, s')"
  then obtain f w w' where "s' = (f, w')" "a w = (Ok v, w')" "held plan node c f"
    "obs plan node t0 (\<lambda>m. frame c m \<and> X m) w"
    by (auto simp: fly_def on_world_def split: prod.splits)
  with tripleD(1) [OF assms] show "case s' of (f, w) \<Rightarrow> held plan node c f \<and> obs plan node t0 (Y v) w" by auto
next
  fix s e s'
  assume "fly plan node t0 c X s" "on_world a s = (Err e, s')"
  then obtain f w w' where "s' = (f, w')" "a w = (Err e, w')" "held plan node c f"
    "obs plan node t0 (\<lambda>m. frame c m \<and> X m) w"
    by (auto simp: fly_def on_world_def split: prod.splits)
  with tripleD(2) [OF assms] show "safe_exit plan node t0 s'" by (auto intro: frame_safe_exit)
qed

lemma fly_world:
  assumes "triple (obs plan node t0 (\<lambda>m. frame c m \<and> X m)) a (\<lambda>v. obs plan node t0 (\<lambda>m. frame c m \<and> Y v m))
    (\<lambda>_. obs plan node t0 (frame c))"
  shows "triple (fly plan node t0 c X) (on_world a) (\<lambda>v. fly plan node t0 c (Y v)) (\<lambda>_. safe_exit plan node t0)"
  using held_world [OF assms] by (simp add: fly_def [of plan node t0 c "Y _"])

lemma on_world_ctx: "on_world (ctxA s a) = ctxA s (on_world a)"
  by (rule ext) (auto simp: on_world_def ctxA_def split: prod.splits)

lemma fly_ctx:
  "triple P (on_world a) Q (\<lambda>_. E) \<Longrightarrow> triple P (on_world (ctxA s a)) Q (\<lambda>_. E)"
  unfolding on_world_ctx by (rule triple_ctx)

lemma fly_calm:
  assumes "adds (calm plan node) a"
  shows "triple (fly plan node t0 c X) (on_world a) (\<lambda>_. fly plan node t0 c X) (\<lambda>_. safe_exit plan node t0)"
  by (rule fly_world, rule triple_conseq [OF triple_calm [OF assms, where R = "\<lambda>m. frame c m \<and> X m"]])
    (auto elim: obs_mono)

lemma landed_calm:
  assumes "adds (calm plan node) a"
  shows "triple (landed plan node t0) (on_world a) (\<lambda>_. landed plan node t0) (\<lambda>_. safe_exit plan node t0)"
proof (rule triple_on_world)
  fix l
  show "triple (\<lambda>w. landed plan node t0 (l, w)) a (\<lambda>_ w. landed plan node t0 (l, w)) (\<lambda>_ w. safe_exit plan node t0 (l, w))"
    by (rule triple_conseq [OF triple_calm [OF assms, where R = "frame False"]])
      (auto simp: landed_def safe_exit_def frame_def elim!: obs_mono)
qed

lemma landed_upd: "triple (landed plan node t0) (upd g) (\<lambda>_. landed plan node t0) E"
  by (rule triple_upd) (simp add: landed_def)

lemma fly_phase: "triple (fly plan node t0 c X) (phase p) (\<lambda>_. fly plan node t0 c X) E"
  unfolding phase_def by (rule triple_upd) (auto simp: fly_def held_def)

lemma triple_ex: "(\<And>c. triple (P c) m Q E) \<Longrightarrow> triple (\<lambda>s. \<exists>c. P c s) m Q E"
proof (rule tripleI)
  fix s a s' assume a: "\<And>c. triple (P c) m Q E" and "\<exists>c. P c s" and m: "m s = (Ok a, s')"
  then obtain c where "P c s" by blast
  from tripleD(1) [OF a this m] show "Q a s'" .
next
  fix s e s' assume a: "\<And>c. triple (P c) m Q E" and "\<exists>c. P c s" and m: "m s = (Err e, s')"
  then obtain c where "P c s" by blast
  from tripleD(2) [OF a this m] show "E e s'" .
qed

definition before_upgrade :: "monitor \<Rightarrow> bool" where
  "before_upgrade m \<longleftrightarrow> \<not> mo_up m \<and> mo_pre m = None"

lemma fly_drain:
  assumes "\<not> pl_dry_run plan"
  shows "triple (fly plan node t0 False before_upgrade) (drain_step env lp plan node)
    (\<lambda>_ s. \<exists>c. (pl_skip_drain plan \<longrightarrow> \<not> c) \<and> fly plan node t0 c before_upgrade s) (\<lambda>_. safe_exit plan node t0)"
proof (cases "pl_skip_drain plan")
  case True
  show ?thesis
    unfolding drain_step_def if_P [OF True]
    by (rule triple_conseq [OF fly_calm [OF calm_log(1)]]) auto
next
  case False
  let ?drained = "\<lambda>(f, w). held plan node False f \<and> obs plan node t0 (\<lambda>m. frame True m \<and> before_upgrade m) w"
  have run: "triple (fly plan node t0 False before_upgrade) (on_world (cp_kubectl env lp plan (drain_cmd plan node)))
      (\<lambda>_. ?drained) (\<lambda>_. safe_exit plan node t0)"
    by (rule held_world, rule triple_kubectl [OF assms]) (auto simp: step_drain frame_def before_upgrade_def)
  have mark: "triple ?drained (upd mark_drained) (\<lambda>_. fly plan node t0 True before_upgrade) E" for E
    by (rule triple_upd) (auto simp: fly_def held_def mark_drained_def)
  show ?thesis
    unfolding drain_step_def if_not_P [OF False]
    by (rule triple_bind [OF fly_calm [OF calm_log(1)]], rule triple_bind [OF run], rule triple_bind [OF mark],
        rule triple_conseq [OF fly_phase]) (use False in auto)
qed

lemma fly_uncordon:
  assumes "\<not> pl_dry_run plan"
  shows "triple (fly plan node t0 c may_uncordon) (uncordon_step env lp plan node)
    (\<lambda>_. landed plan node t0) (\<lambda>_. safe_exit plan node t0)"
proof -
  have "triple (fly plan node t0 c may_uncordon) (on_world (cp_kubectl env lp plan (uncordon_cmd node)))
      (\<lambda>_ (f, w). held plan node c f \<and> obs plan node t0 (frame False) w) (\<lambda>_. safe_exit plan node t0)"
    by (rule held_world, rule triple_kubectl [OF assms]) (auto simp: step_uncordon frame_def)
  then have run: "triple (fly plan node t0 c may_uncordon) (on_world (cp_kubectl env lp plan (uncordon_cmd node)))
      (\<lambda>_. landed plan node t0) (\<lambda>_. safe_exit plan node t0)"
    by (rule triple_conseq) (auto simp: landed_def)
  show ?thesis
    unfolding uncordon_step_def
    by (rule triple_bind [OF fly_calm [OF calm_log(1)]], rule triple_bind [OF run], rule landed_upd)
qed

lemma fly_gates:
  assumes "\<not> pl_dry_run plan"
  shows "triple (fly plan node t0 c (\<lambda>m. mo_up m \<and> pre_is v m)) (worker_gates env lp plan name ip node v)
    (\<lambda>_. fly plan node t0 c mo_ready) (\<lambda>_. safe_exit plan node t0)"
  unfolding worker_gates_def Let_def
  by (rule triple_bind [OF fly_calm [OF ignore_adds [OF calm_steps(4)]]], rule triple_bind [OF fly_phase],
      rule triple_bind [OF fly_ctx [OF fly_calm [OF calm_steps(3)]]], rule triple_bind [OF fly_phase],
      rule triple_bind [OF fly_ctx [OF fly_world [OF triple_bootid_gate [OF assms]]]],
      rule triple_bind [OF fly_ctx [OF fly_world [OF triple_ready_gate [OF assms]]]],
      rule triple_bind [OF fly_phase], rule triple_bind [OF fly_ctx [OF fly_calm [OF calm_steps(5)]]],
      rule fly_phase)

lemma fly_worker_body:
  assumes "\<not> pl_dry_run plan"
  shows "triple (fly plan node t0 False before_upgrade) (update_worker_body env lp plan name ip node)
    (\<lambda>_. landed plan node t0) (\<lambda>_. safe_exit plan node t0)"
proof -
  note S = safe_exit_def
  have timer: "triple (landed plan node t0) (on_world (timer_start env lp plan ip)) (\<lambda>_. landed plan node t0) (\<lambda>_. safe_exit plan node t0)"
    by (rule landed_calm [OF calm_steps(2)])
  have ready_uncordon: "triple (fly plan node t0 c mo_ready) (uncordon_step env lp plan node)
     (\<lambda>_. landed plan node t0) (\<lambda>_. safe_exit plan node t0)" for c
    by (rule triple_conseq [OF fly_uncordon [OF assms]]) (auto simp: fly_def may_uncordon_def elim!: obs_mono)
  have applied: "triple (fly plan node t0 c (\<lambda>m. mo_up m \<and> pre_is v m))
     (bindA (worker_gates env lp plan name ip node v) (\<lambda>_.
         bindA (uncordon_step env lp plan node) (\<lambda>_.
         bindA (on_world (timer_start env lp plan ip)) (\<lambda>_.
         bindA (upd clear_in_flight) (\<lambda>_.
         on_world (log lp s)))))) (\<lambda>_. landed plan node t0) (\<lambda>_. safe_exit plan node t0)" for c v s
    by (rule triple_bind [OF fly_gates [OF assms]], rule triple_bind [OF ready_uncordon],
        rule triple_bind [OF timer], rule triple_bind [OF landed_upd], rule landed_calm [OF calm_log(1)])
  have uncordon: "triple (fly plan node t0 c mo_same) (whenA (\<not> pl_skip_drain plan) (uncordon_step env lp plan node))
     (\<lambda>_. landed plan node t0) (\<lambda>_. safe_exit plan node t0)" if "pl_skip_drain plan \<longrightarrow> \<not> c" for c
    by (rule triple_when, rule triple_conseq [OF fly_uncordon [OF assms]])
      (use that in \<open>auto simp: fly_def may_uncordon_def landed_def elim!: obs_mono\<close>)
  have current: "triple (fly plan node t0 c mo_same)
     (bindA (on_world (log lp s)) (\<lambda>_.
         bindA (whenA (\<not> pl_skip_drain plan) (uncordon_step env lp plan node)) (\<lambda>_.
         bindA (on_world (timer_start env lp plan ip)) (\<lambda>_.
         upd clear_in_flight)))) (\<lambda>_. landed plan node t0) (\<lambda>_. safe_exit plan node t0)" if "pl_skip_drain plan \<longrightarrow> \<not> c" for c s
    by (rule triple_bind [OF fly_calm [OF calm_log(1)]], rule triple_bind [OF uncordon [OF that]],
        rule triple_bind [OF timer], rule landed_upd)
  have outcome: "triple (fly plan node t0 c (\<lambda>m. mo_up m \<and> pre_is v m \<and> (out = AlreadyCurrent \<longrightarrow> mo_same m)))
     (case out of
       UpgradeFailed \<Rightarrow> failA e
     | AlreadyCurrent \<Rightarrow>
         bindA (on_world (log lp s1)) (\<lambda>_.
         bindA (whenA (\<not> pl_skip_drain plan) (uncordon_step env lp plan node)) (\<lambda>_.
         bindA (on_world (timer_start env lp plan ip)) (\<lambda>_.
         upd clear_in_flight)))
     | Applied \<Rightarrow>
         bindA (worker_gates env lp plan name ip node v) (\<lambda>_.
         bindA (uncordon_step env lp plan node) (\<lambda>_.
         bindA (on_world (timer_start env lp plan ip)) (\<lambda>_.
         bindA (upd clear_in_flight) (\<lambda>_.
         on_world (log lp s2))))))
     (\<lambda>_. landed plan node t0) (\<lambda>_. safe_exit plan node t0)"
    if "pl_skip_drain plan \<longrightarrow> \<not> c" for c v out e s1 s2
  proof (cases out)
    case Applied
    then show ?thesis using applied by simp
  next
    case UpgradeFailed
    then show ?thesis
      by (auto intro!: triple_fail simp: fly_def elim!: frame_safe_exit obs_mono)
  next
    case AlreadyCurrent
    then show ?thesis
      by simp (rule triple_conseq [OF current [OF that]], auto simp: fly_def elim!: obs_mono)
  qed
  have captured: "triple (fly plan node t0 c before_upgrade) (on_world (capture_node_bootid env lp plan node))
     (\<lambda>v. fly plan node t0 c (\<lambda>m. \<not> mo_up m \<and> pre_is v m)) (\<lambda>_. safe_exit plan node t0)" for c
    unfolding before_upgrade_def by (rule fly_world [OF triple_capture [OF assms]])
  have upgraded: "triple (fly plan node t0 c (\<lambda>m. \<not> mo_up m \<and> pre_is v m))
     (on_world (ctxA s (bootc_upgrade_apply env lp plan ip name)))
     (\<lambda>out. fly plan node t0 c (\<lambda>m. mo_up m \<and> pre_is v m \<and> (out = AlreadyCurrent \<longrightarrow> mo_same m)))
     (\<lambda>_. safe_exit plan node t0)" for c v s
    by (rule fly_ctx, rule fly_world, rule triple_upgrade [OF assms])
  note say = triple_bind [OF fly_calm [OF calm_log(1)]]
  note rest = outcome
  have after_drain: "triple (\<lambda>s. \<exists>c. (pl_skip_drain plan \<longrightarrow> \<not> c) \<and> fly plan node t0 c before_upgrade s) m Q E"
    if "\<And>c. pl_skip_drain plan \<longrightarrow> \<not> c \<Longrightarrow> triple (fly plan node t0 c before_upgrade) m Q E"
    for m :: "('a, unit) flight" and Q E
  proof (rule triple_ex)
    fix c
    show "triple (\<lambda>s. (pl_skip_drain plan \<longrightarrow> \<not> c) \<and> fly plan node t0 c before_upgrade s) m Q E"
      using that [of c] by (cases "pl_skip_drain plan \<longrightarrow> \<not> c") (auto simp: triple_def)
  qed
  show ?thesis
    unfolding update_worker_body_def
    by (rule say, rule say, rule say, rule triple_bind [OF fly_calm [OF calm_steps(1)]],
        rule triple_bind [OF fly_drain [OF assms]], rule after_drain,
        rule triple_bind [OF captured], rule say, rule say, rule triple_bind [OF upgraded], erule outcome)
qed

section \<open>The properties\<close>

lemma drop_in_flight_calm: "adds (calm plan node) (drop_in_flight f)"
  unfolding drop_in_flight_def by (rule adds_when, rule adds_for, rule adds_emit, rule calm_printed) simp

lemma eprintln_trace: "w_trace (snd (forA xs eprintln w)) = w_trace w @ map Stderr xs"
  by (induction xs arbitrary: w) (simp_all add: bindA_def emit_def)

lemma drop_in_flight_hint:
  assumes "if_drained f" "\<not> if_uncordoned f" "if_node f \<noteq> []"
  shows "\<exists>evs. w_trace (snd (drop_in_flight f w)) = w_trace w @ evs \<and> Stderr (recovery_line f) \<in> set evs"
  using assms unfolding drop_in_flight_def by (simp only: simp_thms action_simps eprintln_trace) auto

definition recovery_hint :: "plan \<Rightarrow> string \<Rightarrow> string" where
  "recovery_hint plan node = ''[update-cluster]   ssh root@'' @ pl_cp_ip plan @ '' '' @ [CHR 0x22]
     @ ''kubectl --kubeconfig=/etc/kubernetes/admin.conf uncordon '' @ node @ [CHR 0x22]"

lemma update_worker_monitored:
  assumes live: "\<not> pl_dry_run plan" and node: "node \<noteq> []"
    and run: "update_worker env lp plan name ip node w = (r, w')"
  shows "\<exists>evs. w_trace w' = w_trace w @ evs
    \<and> \<not> mo_bad (fold (monitor_step plan node) evs monitor0)
    \<and> (mo_cordoned (fold (monitor_step plan node) evs monitor0) \<longrightarrow>
         \<not> is_ok r \<and> Stderr (recovery_hint plan node) \<in> set evs)"
proof -
  let ?f = "in_flight_default\<lparr>if_node := node, if_cp_ip := pl_cp_ip plan, if_phase := ''pre-drain''\<rparr>"
  let ?t = "w_trace w"
  obtain f1 w1 where body: "update_worker_body env lp plan name ip node (?f, w) = (r, f1, w1)"
    and w': "w' = snd ((drop_in_flight f1 :: ('a world, anyhow, unit) action) w1)"
    using run by (auto simp: update_worker_def scoped_def split: prod.splits)
  have start: "fly plan node ?t False before_upgrade (?f, w)"
    by (auto simp: fly_def held_def obs_def in_flight_default_def frame_def before_upgrade_def monitor0_def intro!: exI [of _ "[]"])
  have body_ok: "triple (fly plan node ?t False before_upgrade) (update_worker_body env lp plan name ip node)
      (\<lambda>_. landed plan node ?t) (\<lambda>_. safe_exit plan node ?t)"
    by (rule fly_worker_body [OF live])
  have exit: "obs plan node ?t (\<lambda>m. \<not> mo_bad m \<and> (mo_cordoned m \<longrightarrow> \<not> is_ok r \<and> held plan node True f1)) w1"
  proof (cases r)
    case (Ok u)
    with tripleD(1) [OF body_ok, OF start] body have "landed plan node ?t (f1, w1)" by simp
    then show ?thesis by (auto simp: landed_def frame_def elim!: obs_mono)
  next
    case (Err e)
    with tripleD(2) [OF body_ok, OF start] body have "safe_exit plan node ?t (f1, w1)" by simp
    with Err show ?thesis by (auto simp: safe_exit_def elim!: obs_mono)
  qed
  then obtain evs1 where e1: "w_trace w1 = ?t @ evs1" "\<not> mo_bad (fold (monitor_step plan node) evs1 monitor0)"
    "mo_cordoned (fold (monitor_step plan node) evs1 monitor0) \<longrightarrow> \<not> is_ok r \<and> held plan node True f1"
    by (auto simp: obs_def)
  obtain evs2 where e2: "w_trace w' = w_trace w1 @ evs2" "list_all (calm plan node) evs2"
    using drop_in_flight_calm [of plan node f1] w' unfolding adds_def by blast
  have hint: "Stderr (recovery_hint plan node) \<in> set evs2" if h: "held plan node True f1"
  proof -
    from h have "recovery_line f1 = recovery_hint plan node"
      by (simp add: held_def recovery_line_def recovery_hint_def)
    moreover from h node drop_in_flight_hint [of f1 w1]
    have "\<exists>evs. w_trace w' = w_trace w1 @ evs \<and> Stderr (recovery_line f1) \<in> set evs"
      unfolding w' by (simp add: held_def)
    ultimately show ?thesis using e2(1) by auto
  qed
  from e1 e2 hint show ?thesis
    by (intro exI [of _ "evs1 @ evs2"]) (auto simp: fold_calm)
qed



section \<open>A failed drain\<close>

fun on_stderr :: "event \<Rightarrow> bool" where
  "on_stderr (Stderr _) = True"
| "on_stderr _ = False"

lemma log_out: "adds (\<lambda>ev. \<not> on_stderr ev) (log lp s)"
  by (rule log_adds) simp

lemma timer_stop_out: "adds (\<lambda>ev. \<not> on_stderr ev) (timer_stop env lp plan ip)"
  unfolding timer_stop_def timer_stop_with_exec_def
  by (auto intro!: adds_if adds_match adds_ssh_run log_out split: result.split)

text \<open>The assertion of the steps before the drain: nothing on standard error, not marked drained.\<close>

definition silent :: "event list \<Rightarrow> in_flight \<times> 'w world \<Rightarrow> bool" where
  "silent t0 = (\<lambda>(f, w). \<not> if_drained f \<and> (\<exists>evs. w_trace w = t0 @ evs \<and> list_all (\<lambda>ev. \<not> on_stderr ev) evs))"

lemma silent_world:
  assumes "adds (\<lambda>ev. \<not> on_stderr ev) a"
  shows "triple (silent t0) (on_world a) (\<lambda>_. silent t0) (\<lambda>_. silent t0)"
proof -
  have "silent t0 s'" if "silent t0 s" "on_world a s = (r, s')" for s r s'
  proof -
    from that obtain f w w' evs where s: "s' = (f, w')" "a w = (r, w')" "\<not> if_drained f"
      "w_trace w = t0 @ evs" "list_all (\<lambda>ev. \<not> on_stderr ev) evs"
      by (auto simp: silent_def on_world_def split: prod.splits)
    with addsD [OF assms s(2)] show ?thesis by (auto simp: silent_def)
  qed
  then show ?thesis by (auto intro!: tripleI)
qed

lemma failed_drain_step:
  assumes "\<not> pl_dry_run plan" "\<not> pl_skip_drain plan"
    and "\<And>x. \<not> is_ok (fst (env_ssh env (cp_ssh_opts plan) (kubectl_remote (drain_cmd plan node)) None x))"
  shows "triple (silent t0) (drain_step env lp plan node) (\<lambda>_ _. False) (\<lambda>_. silent t0)"
proof -
  have run: "triple (silent t0) (on_world (cp_kubectl env lp plan (drain_cmd plan node))) (\<lambda>_ _. False) (\<lambda>_. silent t0)"
  proof (rule tripleI)
    fix s v s'
    assume "on_world (cp_kubectl env lp plan (drain_cmd plan node)) s = (Ok v, s')"
    with assms show False
      by (auto simp: on_world_def cp_kubectl_def cp_kubectl_live_def bindA_def ssh_ctx_def matchA_def ssh_run_def
          ssh_run_in_def liftA_def is_ok_iff split: prod.splits result.splits) (metis fst_conv is_ok.simps(1))+
  next
    fix s e s'
    assume "silent t0 s" "on_world (cp_kubectl env lp plan (drain_cmd plan node)) s = (Err e, s')"
    with assms(1,3) show "silent t0 s'"
      by (auto simp: silent_def on_world_def cp_kubectl_def cp_kubectl_live_def bindA_def ssh_ctx_def matchA_def ssh_run_def
          ssh_run_in_def liftA_def split: prod.splits result.splits) (metis fst_conv is_ok.simps(1))+
  qed
  show ?thesis
    unfolding drain_step_def if_not_P [OF assms(2)]
    by (rule triple_bind [OF silent_world [OF log_out]], rule triple_bind [OF run]) (simp add: triple_def)
qed

text \<open>When the drain itself fails, nothing is said about the node: the update fails before it marks
  the node as drained, so the destructor prints no recovery hint and nothing at all goes to
  standard error, although \<open>kubectl drain\<close> cordons the node before it starts to evict.\<close>

theorem failed_drain_no_hint:
  assumes "\<not> pl_dry_run plan" and "\<not> pl_skip_drain plan"
    and "\<And>x. \<not> is_ok (fst (env_ssh env (cp_ssh_opts plan) (kubectl_remote (drain_cmd plan node)) None x))"
  shows "\<not> is_ok (fst (update_worker env lp plan name ip node w))
    \<and> (\<exists>evs. w_trace (snd (update_worker env lp plan name ip node w)) = w_trace w @ evs \<and> list_all (\<lambda>ev. \<not> on_stderr ev) evs)"
proof -
  let ?f = "in_flight_default\<lparr>if_node := node, if_cp_ip := pl_cp_ip plan, if_phase := ''pre-drain''\<rparr>"
  have body: "triple (silent (w_trace w)) (update_worker_body env lp plan name ip node) (\<lambda>_ _. False) (\<lambda>_. silent (w_trace w))"
    unfolding update_worker_body_def
    by (rule triple_bind [OF silent_world [OF log_out]], rule triple_bind [OF silent_world [OF log_out]],
        rule triple_bind [OF silent_world [OF log_out]], rule triple_bind [OF silent_world [OF timer_stop_out]],
        rule triple_bind [OF failed_drain_step [OF assms]]) (simp add: triple_def)
  have start: "silent (w_trace w) (?f, w)" by (simp add: silent_def in_flight_default_def)
  obtain r f1 w1 where b: "update_worker_body env lp plan name ip node (?f, w) = (r, f1, w1)"
    by (cases "update_worker_body env lp plan name ip node (?f, w)") auto
  then obtain e where r: "r = Err e" using tripleD(1) [OF body, OF start] by (cases r) auto
  with b tripleD(2) [OF body, OF start] have s: "silent (w_trace w) (f1, w1)" by simp
  then have "drop_in_flight f1 w1 = (Ok () :: (anyhow, unit) result, w1)" by (simp add: silent_def drop_in_flight_def)
  with b r s show ?thesis by (simp add: update_worker_def scoped_def silent_def)
qed

section \<open>Witnesses\<close>

text \<open>A cluster of one worker that answers: the upgrade reboots it (exit status 255), after which
  its boot ID is another one and it is Ready.\<close>

definition demo_out :: "string \<Rightarrow> (ssh_error, run_output) result" where
  "demo_out s = Ok \<lparr>ro_status = Exited 0, ro_stdout = s, ro_stderr = []\<rparr>"

definition demo_cluster :: "bool env" where
  "demo_cluster =
     \<lparr>env_ssh = (\<lambda>opts c _ booted.
        if c = ''bootc upgrade --apply'' then (Err (NonZeroExit (so_host opts) (Exited 255) [] []), True)
        else if c = kubectl_remote (bootid_cmd ''w1'') then (demo_out (if booted then ''new'' else ''old''), booted)
        else if c = kubectl_remote (ready_cmd ''w1'') then (demo_out ''w1 Ready worker 1d'', booted)
        else if c = BOOTED_DIGEST then (demo_out ''sha256:a'', booted)
        else (demo_out [], booted)),
      env_sh = (\<lambda>_ x. (Err NotFound, x)), env_sleep = (\<lambda>_ x. x)\<rparr>"

definition live_plan :: plan where
  "live_plan = \<lparr>pl_config_path = ''c'', pl_cp_name = ''cp'', pl_cp_ip = ''10.0.0.1'', pl_worker_names = [''w1''],
     pl_worker_ip_map = [''w1'' \<mapsto> ''10.0.0.2''], pl_worker_k8s_name_map = [''w1'' \<mapsto> ''w1''], pl_cp_k8s_name = ''cp'',
     pl_workers_only = False, pl_skip_drain = False, pl_skip_gates = False, pl_dry_run = False,
     pl_continue_on_error = False, pl_no_delete_emptydir_data = False, pl_node_filter = None, pl_start_from = None,
     pl_parallel = 1, pl_kvm_host = Some ''kvm'', pl_no_sudo = False, pl_timeouts = timeouts_default\<rparr>"

abbreviation demo_worker :: "(anyhow, unit) result \<times> bool world" where
  "demo_worker \<equiv> update_worker demo_cluster [] live_plan ''w1'' ''10.0.0.2'' ''w1'' \<lparr>w_ext = False, w_trace = []\<rparr>"



theorem failed_drain_no_hint_witness:
  "\<not> is_ok (fst (update_worker null_env [] live_plan ''w1'' ''10.0.0.2'' ''w1'' \<lparr>w_ext = (), w_trace = []\<rparr>))"
proof -
  have "\<not> pl_dry_run live_plan" "\<not> pl_skip_drain live_plan" by (simp_all add: live_plan_def)
  from failed_drain_no_hint [OF this, of null_env "''w1''" "[]" "''w1''" "''10.0.0.2''" "\<lparr>w_ext = (), w_trace = []\<rparr>"]
  show ?thesis by (simp add: null_env_def)
qed

end
