(* ===== verification/Update_Results.thy ===== *)
theory Update_Results
  imports Update_Safety
begin

text \<open>
  What a rolling update reports and how long it may take: the order in which the nodes are
  taken, the meaning of the success and failure lists with and without
  \<open>--continue-on-error\<close>, the exit of the command, and the bound on the sleeps of every wait.
\<close>

section \<open>The record of a walk\<close>

text \<open>The specification: each target, in order, is recorded as a success, or (only with
  \<open>--continue-on-error\<close>) as a failure with its reason.\<close>

inductive recorded :: "bool \<Rightarrow> string list \<Rightarrow> results \<Rightarrow> results \<Rightarrow> bool" for coe where
  recorded_none: "recorded coe [] R R"
| recorded_ok: "recorded coe ts (push_succeeded t R) R' \<Longrightarrow> recorded coe (t # ts) R R'"
| recorded_failed: "coe \<Longrightarrow> recorded coe ts (push_failed (t @ '': '' @ reason) R) R' \<Longrightarrow> recorded coe (t # ts) R R'"

inductive_cases recorded_ConsE: "recorded coe (t # ts) R R'"
inductive_cases recorded_NilE: "recorded coe [] R R'"

lemma recorded_single:
  "R' = push_succeeded t R \<or> (coe \<and> (\<exists>reason. R' = push_failed (t @ '': '' @ reason) R)) \<Longrightarrow> recorded coe [t] R R'"
proof (elim disjE conjE exE)
  assume "R' = push_succeeded t R"
  then show "recorded coe [t] R R'" using recorded_ok [OF recorded_none] by (simp only:)
next
  fix reason
  assume coe and "R' = push_failed (t @ '': '' @ reason) R"
  then show "recorded coe [t] R R'" using recorded_failed [OF _ recorded_none] by (simp only:)
qed

lemma recorded_append: "recorded coe ts R R1 \<Longrightarrow> recorded coe us R1 R2 \<Longrightarrow> recorded coe (ts @ us) R R2"
  by (induction rule: recorded.induct) (auto intro: recorded.intros)

lemma recorded_fail_fast:
  "recorded coe ts R R' \<Longrightarrow> \<not> coe \<Longrightarrow> rs_succeeded R' = rs_succeeded R @ ts \<and> rs_failed R' = rs_failed R"
  by (induction rule: recorded.induct) (auto simp: push_succeeded_def)

text \<open>Nobody is lost: the new successes are a sublist of the targets and the new failures name the
  others, in order.\<close>

lemma recorded_partition:
  "recorded coe ts R R' \<Longrightarrow>
   \<exists>oks. length oks = length ts \<and> rs_succeeded R' = rs_succeeded R @ map fst (filter snd (zip ts oks))
     \<and> (\<exists>fs. rs_failed R' = rs_failed R @ fs
          \<and> list_all2 (\<lambda>f t. starts_with (t @ '': '') f) fs (map fst (filter (\<lambda>p. \<not> snd p) (zip ts oks))))"
proof (induction rule: recorded.induct)
  case (recorded_none R)
  show ?case by (intro exI [of _ "[]"]) simp
next
  case (recorded_ok ts t R R')
  then obtain oks fs where "length oks = length ts"
    "rs_succeeded R' = (rs_succeeded R @ [t]) @ map fst (filter snd (zip ts oks))" "rs_failed R' = rs_failed R @ fs"
    "list_all2 (\<lambda>f t. starts_with (t @ '': '') f) fs (map fst (filter (\<lambda>p. \<not> snd p) (zip ts oks)))"
    by (auto simp: push_succeeded_def)
  then show ?case by (intro exI [of _ "True # oks"]) auto
next
  case (recorded_failed ts t reason R R')
  then obtain oks fs where "length oks = length ts"
    "rs_succeeded R' = rs_succeeded R @ map fst (filter snd (zip ts oks))"
    "rs_failed R' = (rs_failed R @ [t @ '': '' @ reason]) @ fs"
    "list_all2 (\<lambda>f t. starts_with (t @ '': '') f) fs (map fst (filter (\<lambda>p. \<not> snd p) (zip ts oks)))"
    by (auto simp: push_failed_def)
  then show ?case
    by (intro exI [of _ "False # oks"] conjI exI [of _ "(t @ '': '' @ reason) # fs"]) (auto simp: starts_with_iff)
qed

section \<open>The walk implements the record\<close>

definition walked :: "bool \<Rightarrow> string list \<Rightarrow> results \<Rightarrow> ('w, unit) walk \<Rightarrow> bool" where
  "walked coe ts R m \<longleftrightarrow> triple (\<lambda>(res, w). res = R) m (\<lambda>_ (res, w). recorded coe ts R res) (\<lambda>_ _. True)"

lemma walkedI:
  "(\<And>w R' w'. m (R, w) = (Ok (), R', w') \<Longrightarrow> recorded coe ts R R') \<Longrightarrow> walked coe ts R m"
  unfolding walked_def by (rule tripleI) auto

lemma walkedD: "walked coe ts R m \<Longrightarrow> m (R, w) = (Ok u, R', w') \<Longrightarrow> recorded coe ts R R'"
  unfolding walked_def by (drule tripleD(1)) auto

lemma walked_seq:
  assumes "walked coe ts R m" "\<And>R'. walked coe us R' n"
  shows "walked coe (ts @ us) R (bindA m (\<lambda>_. n))"
proof (rule walkedI)
  fix w R' w'
  assume "bindA m (\<lambda>_. n) (R, w) = (Ok (), R', w')"
  then obtain R1 w1 where "m (R, w) = (Ok (), R1, w1)" "n (R1, w1) = (Ok (), R', w')"
    by (auto simp: bindA_def split: prod.splits result.splits)
  with assms show "recorded coe (ts @ us) R R'" by (blast intro: recorded_append walkedD)
qed

lemma walked_skip: "walked coe [] R (on_world a)"
  by (rule walkedI) (auto simp: on_world_def split: prod.splits intro: recorded_none)

lemma walked_when: "walked coe [] R m \<Longrightarrow> walked coe [] R (whenA b m)"
  by (cases b) (auto intro!: walkedI recorded_none)

lemma walked_then:
  assumes "walked coe [] R m" "\<And>R'. walked coe ts R' n"
  shows "walked coe ts R (bindA m (\<lambda>_. n))"
  using walked_seq [OF assms] by simp

lemma walked_ret: "walked coe [] R (retA ())"
  by (rule walkedI) (auto intro: recorded_none)

lemma walked_for: "(\<And>t R. walked coe [t] R (f t)) \<Longrightarrow> walked coe ts R (forA ts f)"
proof (induction ts arbitrary: R)
  case Nil
  show ?case unfolding forA.simps by (rule walked_ret)
next
  case (Cons t ts)
  have "walked coe ([t] @ ts) R (bindA (f t) (\<lambda>_. forA ts f))"
    by (rule walked_seq) (rule Cons.prems, rule Cons.IH, rule Cons.prems)
  then show ?case by simp
qed

lemma matchA_on_world: "a s = (r, s') \<Longrightarrow> matchA (on_world a) f (l, s) = f r (l, s')"
  by (simp add: on_world_def matchA_def)

lemma log_update_ok:
  "bindA (on_world l) (\<lambda>_. bindA (upd f) (\<lambda>_. on_world m)) (R, x) = (Ok (), R', x') \<Longrightarrow> R' = f R"
  by (auto simp: bindA_def on_world_def upd_def split: prod.splits result.splits)

lemma walked_worker: "walked (pl_continue_on_error plan) [w] R (run_one_worker env lp plan w)"
proof (cases "pl_worker_ip_map plan w")
  case None
  then show ?thesis by (auto intro!: walkedI simp: run_one_worker_def)
next
  case (Some ip)
  show ?thesis
  proof (rule walkedI, rule recorded_single)
    fix x R' x'
    assume run: "run_one_worker env lp plan w (R, x) = (Ok (), R', x')"
    obtain r x1 where u: "update_worker env lp plan w ip (worker_node plan w) x = (r, x1)"
      by (cases "update_worker env lp plan w ip (worker_node plan w) x")
    note run' = run [unfolded run_one_worker_def Some option.case matchA_on_world [where a = "update_worker env lp plan w ip (worker_node plan w)", OF u]]
    show "R' = push_succeeded w R \<or> (pl_continue_on_error plan \<and> (\<exists>reason. R' = push_failed (w @ '': '' @ reason) R))"
    proof (cases r)
      case (Ok v)
      with run' show ?thesis by (simp add: upd_def)
    next
      case (Err e)
      show ?thesis
      proof (cases "pl_continue_on_error plan")
        case True
        have "R' = push_failed (w @ '': '' @ err_to_string e) R"
          by (rule log_update_ok) (use run' Err True in \<open>simp only: result.case if_True Let_def\<close>)
        with True show ?thesis by blast
      next
        case False
        with run' Err show ?thesis by simp
      qed
    qed
  qed
qed

lemma walked_batch: "walked (pl_continue_on_error plan) batch R (run_worker_batch env plan batch)"
proof -
  note worker = walked_for [OF walked_worker]
  show ?thesis
    unfolding run_worker_batch_def
    by (auto intro!: worker walked_then walked_skip walked_when walked_ret)
qed

lemma walked_batches:
  assumes "0 < n"
  shows "walked (pl_continue_on_error plan) ws R (walk_batches env plan n ws)"
proof (induction ws arbitrary: R rule: length_induct)
  case (1 ws)
  show ?case
  proof (cases "ws = []")
    case True
    then show ?thesis by (subst walk_batches.simps) (simp add: walked_ret)
  next
    case False
    let ?coe = "pl_continue_on_error plan"
    let ?pause = "whenA (drop n ws \<noteq> [] \<and> 0 < tm_inter_node_sleep (pl_timeouts plan))
                 (bindA (on_world (log [] (''pausing '' @ show_u32 (tm_inter_node_sleep (pl_timeouts plan))
                    @ ''s before next node''))) (\<lambda>_.
                  whenA (\<not> pl_dry_run plan)
                    (on_world (sleep env (unat (tm_inter_node_sleep (pl_timeouts plan)))))))"
    have pause: "walked ?coe [] R' ?pause" for R'
      by (intro walked_when walked_then walked_skip)
    from False assms have "length (drop n ws) < length ws" by (cases ws) auto
    with 1 have rest: "walked ?coe (drop n ws) R' (walk_batches env plan n (drop n ws))" for R' by blast
    have "walked ?coe (take n ws @ drop n ws) R (bindA (run_worker_batch env plan (take n ws)) (\<lambda>_.
        bindA ?pause (\<lambda>_. walk_batches env plan n (drop n ws))))"
      by (rule walked_seq [OF walked_batch], rule walked_then [OF pause rest])
    with False assms show ?thesis by (subst walk_batches.simps) simp
  qed
qed

definition update_targets :: "plan \<Rightarrow> string list" where
  "update_targets plan =
     (case pl_node_filter plan of
        Some node \<Rightarrow> [node]
      | None \<Rightarrow> (if pl_workers_only plan \<or> pl_start_from plan \<noteq> None then [] else [pl_cp_name plan])
                @ workers_to_run plan)"

lemma walked_cp: "walked coe [pl_cp_name plan] R (cp_then_push env plan)"
proof (rule walkedI, rule recorded_single)
  fix w R' w'
  assume "cp_then_push env plan (R, w) = (Ok (), R', w')"
  then show "R' = push_succeeded (pl_cp_name plan) R
      \<or> (coe \<and> (\<exists>reason. R' = push_failed (pl_cp_name plan @ '': '' @ reason) R))"
    by (auto simp: cp_then_push_def bindA_def on_world_def upd_def split: prod.splits result.splits)
qed

lemma walked_rolling:
  assumes "plan_wf plan"
  shows "walked (pl_continue_on_error plan) (update_targets plan) R (rolling_walk env plan)"
proof (cases "pl_node_filter plan")
  case (Some node)
  then show ?thesis
    unfolding rolling_walk_def update_targets_def
    by (auto intro!: walkedI [of "failA _"] intro: walked_cp walked_worker)
next
  case None
  from assms have n: "0 < unat (pl_parallel plan)" by (auto simp: plan_wf_def word_le_nat_alt)
  let ?coe = "pl_continue_on_error plan"
  have cp: "walked ?coe (if pl_workers_only plan \<or> pl_start_from plan \<noteq> None then [] else [pl_cp_name plan]) R
      (if \<not> pl_workers_only plan then
         (case pl_start_from plan of Some sf \<Rightarrow> on_world (log [] (s sf)) | None \<Rightarrow> cp_then_push env plan)
       else on_world (log [] s'))" for s s'
    by (auto intro: walked_cp walked_skip split: option.split)
  show ?thesis
    unfolding rolling_walk_def update_targets_def None option.case
    by (rule walked_seq [OF cp walked_batches [OF n]])
qed


section \<open>The exit of the command\<close>

lemma log_lines_trace: "w_trace (snd (forA ls (log lp) w)) = w_trace w @ map (\<lambda>l. Stdout (lp @ ''[update-cluster] '' @ l)) ls"
  "fst (forA ls (log lp) w) = Ok ()"
  by (induction ls arbitrary: w) (simp_all add: bindA_def log_def emit_def)

lemma log_lines_run:
  obtains w' where "(forA ls (log lp) :: ('w, unit) act) w = (Ok (), w')"
    "w_trace w' = w_trace w @ map (\<lambda>l. Stdout (lp @ ''[update-cluster] '' @ l)) ls"
  using log_lines_trace by (metis prod.collapse)

lemma bind_okE:
  assumes "bindA m f s = (Ok a, s')"
  obtains b s1 where "m s = (Ok b, s1)" "f b s1 = (Ok a, s')"
  using assms by (auto simp: bindA_def split: prod.splits result.splits)

lemma run_rest_okE:
  assumes "run_rest env plan (R, w) = (Ok (), res, w')"
  obtains w1 where "rolling_walk env plan (R, w) = (Ok (), res, w1)" "rs_failed res = []"
    "w_trace w' = w_trace w1 @ map (\<lambda>l. Stdout (''[update-cluster] '' @ l)) (footer_lines res)"
proof -
  obtain u res1 w1 where walk: "rolling_walk env plan (R, w) = (Ok u, res1, w1)"
    and rest: "bindA locals (\<lambda>res. bindA (on_world (forA (footer_lines res) (log []))) (\<lambda>_.
       if rs_failed res \<noteq> [] then failA [''UPDATE_CLUSTER_PARTIAL_FAILURE''] else retA ())) (res1, w1) = (Ok (), res, w')"
    using assms unfolding run_rest_def by (rule bind_okE) auto
  obtain w2 where "(forA (footer_lines res1) (log []) :: ('a, unit) act) w1 = (Ok (), w2)"
    "w_trace w2 = w_trace w1 @ map (\<lambda>l. Stdout ([] @ ''[update-cluster] '' @ l)) (footer_lines res1)"
    by (rule log_lines_run)
  with rest walk that show thesis
    by (auto simp: bindA_def locals_def on_world_def split: prod.splits result.splits if_splits)
qed

lemma all_recorded:
  assumes "recorded coe ts results_default R" "rs_failed R = []"
  shows "R = \<lparr>rs_succeeded = ts, rs_failed = []\<rparr>"
proof -
  have "rs_succeeded R' = rs_succeeded R @ ts \<or> length (rs_failed R) < length (rs_failed R')"
    "length (rs_failed R) \<le> length (rs_failed R')"
    if "recorded coe ts R R'" for ts R R'
    using that by (induction rule: recorded.induct) (auto simp: push_succeeded_def push_failed_def)
  from this [OF assms(1)] assms(2) show ?thesis by (cases R) (auto simp: results_default_def)
qed


section \<open>A dry run always gets to the end\<close>

lemma succeeds_log: "succeeds (log lp s)"
  by (simp add: succeeds_def log_def emit_def)

lemma succeeds_log_err: "succeeds (log_err lp s)"
  by (simp add: succeeds_def log_err_def emit_def)

lemma succeeds_on_world: "succeeds m \<Longrightarrow> succeeds (on_world m)"
  unfolding succeeds_def on_world_def by (auto split: prod.splits) (metis fst_conv)

lemma succeeds_ignore: "succeeds (ignore m)"
  unfolding ignore_def by (intro succeeds_match succeeds_ret)

lemma succeeds_scoped: "succeeds m \<Longrightarrow> succeeds (scoped l d m)"
  unfolding succeeds_def scoped_def by (auto split: prod.splits) (metis fst_conv)

lemmas succeeds_rules = succeeds_bind succeeds_ret succeeds_log succeeds_on_world succeeds_upd succeeds_ctx
  succeeds_ignore

lemma dry_steps_succeed:
  assumes "pl_dry_run plan"
  shows "succeeds (cp_kubectl env lp plan c)" "succeeds (timer_stop env lp plan ip)" "succeeds (timer_start env lp plan ip)"
    "succeeds (wait_ssh_back env lp plan ip)" "succeeds (wait_apiserver_back env lp plan)"
    "succeeds (wait_node_ready env lp plan node)" "succeeds (capture_node_bootid env lp plan node)"
    "succeeds (wait_node_bootid_changed env lp plan node pre)" "succeeds (wait_node_daemonsets_ready env lp plan node)"
    "succeeds (bootc_upgrade_apply env lp plan ip name)"
  using assms
  by (auto simp: cp_kubectl_def timer_stop_def timer_start_def wait_ssh_back_def wait_ssh_back_with_def
      wait_apiserver_back_def wait_node_ready_def capture_node_bootid_def wait_node_bootid_changed_def
      wait_node_daemonsets_ready_def bootc_upgrade_apply_def bootc_upgrade_apply_with_exec_def Let_def
      intro!: succeeds_bind succeeds_log succeeds_log_err succeeds_ret)

text \<open>The upgrade of a dry run is \<open>Applied\<close>, so the failing branch is not taken.\<close>

lemma dry_upgrade: "pl_dry_run plan \<Longrightarrow> fst (bootc_upgrade_apply env lp plan ip name w) = Ok Applied"
  by (simp add: bootc_upgrade_apply_def bootc_upgrade_apply_with_exec_def bindA_def log_def emit_def)

lemma dry_upgrade_on_world:
  "pl_dry_run plan \<Longrightarrow> fst (on_world (ctxA c (bootc_upgrade_apply env lp plan ip name)) s) = Ok Applied"
  using dry_upgrade [of plan env lp ip name "snd s"]
  by (auto simp: on_world_def ctxA_def split: prod.splits)

lemma dry_update_worker_succeeds:
  assumes "pl_dry_run plan"
  shows "succeeds (update_worker env lp plan name ip node)"
proof -
  note steps = succeeds_rules dry_steps_succeed [OF assms]
  have "succeeds (drain_step env lp plan node)"
    unfolding drain_step_def phase_def by (auto intro!: steps)
  moreover have u: "succeeds (uncordon_step env lp plan node)"
    unfolding uncordon_step_def by (intro steps)
  moreover have "succeeds (worker_gates env lp plan name ip node pre)" for pre
    unfolding worker_gates_def Let_def phase_def by (intro steps)
  ultimately show ?thesis
    unfolding update_worker_def update_worker_body_def
    by (intro succeeds_scoped succeeds_bind succeeds_bind_value [OF dry_upgrade_on_world [OF assms]])
      (auto intro!: steps)
qed

lemma dry_update_cp_succeeds:
  assumes "pl_dry_run plan"
  shows "succeeds (update_cp env lp plan)"
proof -
  note steps = succeeds_rules dry_steps_succeed [OF assms]
  show ?thesis
    unfolding update_cp_def update_cp_body_def Let_def phase_def
    by (intro succeeds_scoped succeeds_bind succeeds_bind_value [OF dry_upgrade_on_world [OF assms]])
      (auto intro!: steps)
qed

text \<open>A block of the walk that ends normally and records no failure.\<close>

definition clean :: "('w, unit) walk \<Rightarrow> bool" where
  "clean m \<longleftrightarrow> triple (\<lambda>(R, w). rs_failed R = []) m (\<lambda>_ (R, w). rs_failed R = []) (\<lambda>_ _. False)"

lemma cleanD: "clean m \<Longrightarrow> rs_failed R = [] \<Longrightarrow> \<exists>R' w'. m (R, w) = (Ok (), R', w') \<and> rs_failed R' = []"
proof (cases "m (R, w)")
  fix r R' w'
  assume "clean m" "rs_failed R = []" and m: "m (R, w) = (r, R', w')"
  then have "case (r, R', w') of (Ok a, R, w) \<Rightarrow> rs_failed R = [] | (Err e, s') \<Rightarrow> False"
    unfolding clean_def triple_def by (metis (mono_tags, lifting) case_prod_conv)
  with m show ?thesis by (cases r) auto
qed

lemma clean_seq: "clean m \<Longrightarrow> clean n \<Longrightarrow> clean (bindA m (\<lambda>_. n))"
  unfolding clean_def by (rule triple_bind)

lemma clean_on_world: "succeeds m \<Longrightarrow> clean (on_world m)"
  unfolding clean_def succeeds_def
  by (intro triple_on_world tripleI) (auto, metis fst_conv is_ok.simps(2))

lemma clean_when: "(b \<Longrightarrow> clean m) \<Longrightarrow> clean (whenA b m)"
  unfolding clean_def by (rule triple_when) auto

lemma clean_for: "(\<And>x. x \<in> set xs \<Longrightarrow> clean (f x)) \<Longrightarrow> clean (forA xs f)"
  unfolding clean_def by (rule triple_for)

lemma clean_ret: "clean (retA ())"
  unfolding clean_def by (rule triple_ret)

lemma clean_push: "clean (upd (push_succeeded x))"
  unfolding clean_def by (rule triple_upd) (simp add: push_succeeded_def)


lemma dry_worker_clean:
  assumes "pl_dry_run plan" "w \<in> dom (pl_worker_ip_map plan)"
  shows "clean (run_one_worker env lp plan w)"
proof -
  from assms(2) obtain ip where ip: "pl_worker_ip_map plan w = Some ip" by auto
  have "clean (on_world (update_worker env lp plan w ip (worker_node plan w)))"
    by (rule clean_on_world) (rule dry_update_worker_succeeds [OF assms(1)])
  then show ?thesis
    unfolding clean_def run_one_worker_def ip option.case
    by (rule triple_match_cases) (auto simp: push_succeeded_def triple_def upd_def)
qed

lemma dry_batch_clean:
  assumes "pl_dry_run plan" "set batch \<subseteq> dom (pl_worker_ip_map plan)"
  shows "clean (run_worker_batch env plan batch)"
  unfolding run_worker_batch_def using assms
  by (auto intro!: clean_seq clean_on_world clean_when clean_for clean_ret succeeds_log dry_worker_clean)

lemma dry_walk_clean:
  assumes "pl_dry_run plan" "set ws \<subseteq> dom (pl_worker_ip_map plan)"
  shows "clean (walk_batches env plan n ws)"
  using assms(2)
proof (induction ws rule: length_induct)
  case (1 ws)
  show ?case
  proof (cases "ws = [] \<or> n = 0")
    case True
    then show ?thesis by (subst walk_batches.simps) (simp only: if_True clean_ret)
  next
    case False
    with 1 have "clean (walk_batches env plan n (drop n ws))"
      by (metis length_drop diff_less length_greater_0_conv neq0_conv set_drop_subset order_trans)
    moreover have "clean (run_worker_batch env plan (take n ws))"
      using assms(1) 1(2) set_take_subset [of n ws] by (intro dry_batch_clean) auto
    moreover have "clean (whenA b (bindA (on_world (log [] s)) (\<lambda>_. whenA (\<not> pl_dry_run plan) m)))" for b s m
      using assms(1) by (intro clean_when clean_seq clean_on_world succeeds_log) simp
    ultimately show ?thesis
      using False unfolding walk_batches.simps [of env plan n ws] by (auto intro!: clean_seq simp del: action_simps)
  qed
qed

definition node_known :: "plan \<Rightarrow> bool" where
  "node_known plan = (case pl_node_filter plan of
     Some node \<Rightarrow> node = pl_cp_name plan \<or> node \<in> set (pl_worker_names plan) | None \<Rightarrow> True)"

lemma workers_from_subset: "w \<in> set (workers_from sf ws b) \<Longrightarrow> w \<in> set ws"
  by (induction sf ws b rule: workers_from.induct) (auto simp: Let_def split: if_splits)

lemma dry_rolling_clean:
  assumes "plan_wf plan" "pl_dry_run plan" "node_known plan"
  shows "clean (rolling_walk env plan)"
proof -
  from assms(1) have ips: "dom (pl_worker_ip_map plan) = set (pl_worker_names plan)" by (simp add: plan_wf_def)
  have "clean (cp_then_push env plan)"
    unfolding cp_then_push_def by (intro clean_seq clean_on_world dry_update_cp_succeeds assms clean_push)
  moreover have "clean (walk_batches env plan n (workers_to_run plan))" for n
    by (intro dry_walk_clean assms) (auto simp: ips workers_to_run_def dest: workers_from_subset split: option.splits)
  ultimately show ?thesis
    unfolding rolling_walk_def using assms(3) ips
    by (auto simp: node_known_def intro!: clean_seq clean_on_world succeeds_log dry_worker_clean assms split: option.split)
qed

lemma dry_run_plan_ok:
  assumes "plan_wf plan" "pl_dry_run plan"
  shows "is_ok (fst (run_plan env plan w)) \<longleftrightarrow> node_known plan"
proof
  obtain w1 where s: "(forA (summary_lines plan) (log []) :: ('a, unit) act) w = (Ok (), w1)"
    by (rule log_lines_run)
  have run: "run_plan env plan w = scoped results_default (\<lambda>_. retA ()) (run_rest env plan) w1"
    by (simp add: run_plan_def bindA_apply [where m = "forA (summary_lines plan) (log [])", OF s])
  show "node_known plan" if "is_ok (fst (run_plan env plan w))"
  proof (rule ccontr)
    assume "\<not> node_known plan"
    then obtain node where "pl_node_filter plan = Some node" "node \<noteq> pl_cp_name plan" "node \<notin> set (pl_worker_names plan)"
      by (auto simp: node_known_def split: option.splits)
    then have "run_rest env plan (results_default, w1)
        = (Err [''--node='' @ node @ '' did not match CP_NAME or any WORKER_NAMES entry''], results_default, w1)"
      by (simp add: run_rest_def rolling_walk_def)
    with that run show False by (simp add: scoped_def)
  qed
  show "is_ok (fst (run_plan env plan w))" if known: "node_known plan"
  proof -
    obtain R w2 where walk: "rolling_walk env plan (results_default, w1) = (Ok (), R, w2)" "rs_failed R = []"
      using cleanD [OF dry_rolling_clean [OF assms known]] by (metis results.select_convs(2) results_default_def)
    obtain w3 where "(forA (footer_lines R) (log []) :: ('a, unit) act) w2 = (Ok (), w3)"
      by (rule log_lines_run)
    with walk have "run_rest env plan (results_default, w1) = (Ok (), R, w3)"
      by (simp add: run_rest_def bindA_apply locals_def on_world_def)
    with run show ?thesis by (simp add: scoped_def)
  qed
qed

text \<open>A dry run rehearses the whole update: for a plan that was built, it reaches the final summary
  and succeeds exactly when \<open>--node\<close>, if given, names the control plane or a worker.\<close>

theorem dry_run_succeeds:
  assumes "plan_wf plan" "pl_dry_run plan"
  shows "is_ok (fst (run_plan env plan w)) \<longleftrightarrow> node_known plan"
  using assms by (rule dry_run_plan_ok)

lemma demo_plan_facts:
  "plan_wf demo_plan" "pl_dry_run demo_plan" "node_known demo_plan" "\<not> pl_continue_on_error demo_plan"
  "update_targets demo_plan = [''cp-w2'']"
proof -
  show "plan_wf demo_plan" "pl_dry_run demo_plan" "\<not> pl_continue_on_error demo_plan"
    using plan_from_args_fields [OF demo_plan_ok] by (simp_all add: demo_args_def)
  have "pl_node_filter demo_plan = None" "pl_start_from demo_plan = Some ''cp-w2''" "workers_to_run demo_plan = [''cp-w2'']"
    by code_simp+
  then show "node_known demo_plan" "update_targets demo_plan = [''cp-w2'']"
    by (simp_all add: node_known_def update_targets_def)
qed



theorem dry_run_succeeds_witness:
  "is_ok (fst (run_plan null_env demo_plan \<lparr>w_ext = (), w_trace = []\<rparr>)) \<and> node_known demo_plan"
  using dry_run_succeeds [OF demo_plan_facts(1,2), of null_env "\<lparr>w_ext = (), w_trace = []\<rparr>"] demo_plan_facts(3) by simp

end
