(* ===== verification/Update_Time.thy ===== *)
theory Update_Time
  imports Update_Safety
begin

text \<open>
  How long a rolling update may wait. Every wait loop is an instance of the interface
  \<open>poll_body\<close>, so it overruns its budget by less than one interval; the theorem adds them up
  for one node. The budget counts the sleeps of the program, not the time the commands take.
\<close>

section \<open>Steps that never sleep\<close>

lemma awake_kubectl: "adds awake (cp_kubectl env lp plan c)"
  by (rule kubectl_live_adds) auto

lemma awake_log: "adds awake (log lp s)" "adds awake (log_err lp s)"
  by (auto intro!: log_adds log_err_adds)

lemmas awake_rules = awake_kubectl awake_log adds_match adds_bind adds_if adds_when adds_ctx adds_ret adds_fail adds_lift
  log_lines_adds ssh_ctx_adds adds_ssh_run ignore_adds

lemma awake_exec: "adds awake (ssh_run env opts c)"
  by (rule adds_ssh_run) simp

lemma awake_timers: "adds awake (timer_stop env lp plan ip)" "adds awake (timer_start env lp plan ip)"
  unfolding timer_stop_def timer_stop_with_exec_def timer_start_def timer_start_with_exec_def
  by (auto intro!: awake_rules awake_exec split: result.split ssh_error.split)

lemma awake_upgrade: "adds awake (bootc_upgrade_apply env lp plan ip name)"
  unfolding bootc_upgrade_apply_def bootc_upgrade_apply_with_exec_def classify_upgrade_def run_upgrade_def
    bootc_booted_digest_with_exec_def bootc_has_apply_with_exec_def Let_def
  by (auto intro!: awake_rules awake_exec split: result.split ssh_error.split option.split)

lemma awake_drop: "adds awake (drop_in_flight f)"
  unfolding drop_in_flight_def by (rule adds_when, rule adds_for, rule adds_emit) simp

section \<open>The loops\<close>

interpretation bootid_loop: poll_body "bootid_body env lp plan node pre" "bootid_after lp plan node pre"
  by unfold_locales (auto simp: bootid_body_def bootid_after_def Let_def intro!: awake_rules)

interpretation phase1_loop: poll_body "phase1_body env lp plan node" "\<lambda>_ n. retA n"
  by unfold_locales (auto simp: phase1_body_def Let_def intro!: awake_rules)

lemma awake_or_empty: "adds awake (kubectl_or_empty env lp plan c)"
  unfolding kubectl_or_empty_def by (auto intro!: awake_rules split: result.split)

interpretation phase2_loop: poll_body "phase2_body env lp plan node base" "phase2_after lp plan node"
  by unfold_locales (auto simp: phase2_body_def phase2_after_def Let_def intro!: awake_rules awake_or_empty)

text \<open>A silent step before or after a wait costs nothing.\<close>

lemma costs_bind_awake: "adds awake m \<Longrightarrow> (\<And>a. sleeps_at_most n (f a)) \<Longrightarrow> sleeps_at_most n (bindA m f)"
  using costs_bind [OF sleeps_adds [where n = 0]] by fastforce

lemma costs_then_awake: "sleeps_at_most n m \<Longrightarrow> (\<And>a. adds awake (f a)) \<Longrightarrow> sleeps_at_most n (bindA m f)"
  using costs_bind [OF _ sleeps_adds [where n = 0]] by fastforce

lemmas sleeps_log = sleeps_adds [OF awake_log(1)] sleeps_adds [OF awake_log(2)]

text \<open>The shape of the waits: an announcement, then a dry-run message or the loop and its outcome.\<close>

lemma sleeps_wait:
  assumes "adds awake l" "adds awake d" "sleeps_at_most n p" "\<And>r. adds awake (f r)"
  shows "sleeps_at_most n (bindA l (\<lambda>_. if dry then d else bindA p f))"
  using assms by (auto intro: costs_bind_awake costs_then_awake sleeps_adds)

lemmas loop_rules = sleeps_wait until_budget awake_rules awake_exec

lemma sleeps_ssh_back: "sleeps_at_most (unat (tm_ssh (pl_timeouts plan)) + 4) (wait_ssh_back env lp plan ip)"
  unfolding wait_ssh_back_def wait_ssh_back_with_def
  by (rule sleeps_wait) (auto intro!: loop_rules split: result.split option.split)

lemma sleeps_ssh_drop: "sleeps_at_most (unat (tm_ssh_drop (pl_timeouts plan))) (wait_ssh_drop env lp plan ip)"
proof (cases "pl_dry_run plan")
  case True
  then show ?thesis unfolding wait_ssh_drop_def wait_ssh_drop_with_def by (simp add: sleeps_log)
next
  case False
  then show ?thesis
    unfolding wait_ssh_drop_def wait_ssh_drop_with_def if_False
    by (simp only: if_False, intro costs_bind_awake costs_then_awake until_budget awake_log)
      (auto intro!: awake_rules awake_exec split: result.split option.split)
qed

lemma sleeps_apiserver: "sleeps_at_most (unat (tm_apiserver (pl_timeouts plan)) + 9) (wait_apiserver_back env lp plan)"
  unfolding wait_apiserver_back_def Let_def
  by (rule sleeps_wait) (auto intro!: loop_rules split: result.split option.split)

lemma sleeps_ready: "sleeps_at_most (unat (tm_ready (pl_timeouts plan)) + 9) (wait_node_ready env lp plan node)"
  unfolding wait_node_ready_def Let_def
  by (rule sleeps_wait) (auto intro!: loop_rules split: result.split option.split)

lemma sleeps_bootid:
  "sleeps_at_most (unat (tm_ready (pl_timeouts plan)) + 4) (wait_node_bootid_changed env lp plan node pre)"
  (is "sleeps_at_most ?n _")
proof -
  have "sleeps_at_most ?n (poll_loop env 5 (tm_ready (pl_timeouts plan)) (bootid_body env lp plan node pre)
      (bootid_after lp plan node pre) 0 (0, []))"
    by (rule bootid_loop.loop_budget) simp
  then have "sleeps_at_most ?n (bindA (log lp a) (\<lambda>_. if pl_dry_run plan then log lp b else
      bindA (poll_loop env 5 (tm_ready (pl_timeouts plan)) (bootid_body env lp plan node pre)
        (bootid_after lp plan node pre) 0 (0, []))
      (\<lambda>r. case r of Inl _ \<Rightarrow> retA () | Inr l \<Rightarrow> bindA (log lp (g l)) (\<lambda>_. failA e))))" for a b g e
    by (intro sleeps_wait awake_log) (auto intro!: awake_rules split: sum.split)
  then show ?thesis
    unfolding wait_node_bootid_changed_def Let_def by (simp add: sleeps_log)
qed

lemma sleeps_capture_attempts: "sleeps_at_most (2 * (n - 1)) (capture_attempts env lp plan node n)"
proof (induction n)
  case 0
  show ?case by (simp only: capture_attempts.simps costs_pure)
next
  case (Suc n)
  let ?again = "bindA (whenA (0 < n) (sleep env 2)) (\<lambda>_. capture_attempts env lp plan node n)"
  have "sleeps_at_most (2 * n) ?again"
  proof (cases n)
    case 0
    then show ?thesis by (simp del: capture_attempts.simps) (simp only: capture_attempts.simps costs_pure)
  next
    case (Suc k)
    have "sleeps_at_most (2 + 2 * (n - 1)) (bindA (sleep env 2) (\<lambda>_. capture_attempts env lp plan node n))"
      by (rule costs_bind [OF sleeps_sleep Suc.IH]) simp
    with Suc show ?thesis by (simp del: capture_attempts.simps)
  qed
  then have "sleeps_at_most (0 + 2 * n) (capture_attempts env lp plan node (Suc n))"
    unfolding capture_attempts.simps Let_def
    by (intro costs_match [OF sleeps_adds [OF awake_kubectl]]) (auto split: result.split)
  then show ?case by simp
qed

lemma sleeps_capture: "sleeps_at_most 4 (capture_node_bootid env lp plan node)"
proof -
  have "sleeps_at_most 4 (capture_attempts env lp plan node 3)"
    using sleeps_capture_attempts [of 3] by simp
  then have "sleeps_at_most 4 (bindA (capture_attempts env lp plan node 3) (\<lambda>r.
      case r of Some v \<Rightarrow> retA v | None \<Rightarrow> bindA (log lp a) (\<lambda>_. retA [])))" for a
    by (rule costs_then_awake) (auto intro!: awake_rules split: option.split)
  moreover have "sleeps_at_most 4 (bindA (log lp a) (\<lambda>_. retA v) :: ('a, string) act)" for a v
    by (rule sleeps_adds) (intro awake_rules)
  ultimately show ?thesis unfolding capture_node_bootid_def by simp
qed

lemma sleeps_daemonsets:
  "sleeps_at_most (60 + (unat (tm_daemonset (pl_timeouts plan)) + 4)) (wait_node_daemonsets_ready env lp plan node)"
proof -
  let ?n = "unat (tm_daemonset (pl_timeouts plan)) + 4"
  have p1: "sleeps_at_most 60 (poll_loop env 2 60 (phase1_body env lp plan node) (\<lambda>_ n. retA n) 0 0)"
    using phase1_loop.loop_sleeps [where interval = 2 and timeout = 60 and elapsed = 0] by (simp add: rounds_def)
  have p2: "sleeps_at_most ?n (daemonset_phase2 env lp plan node base)" for base
    unfolding daemonset_phase2_def Let_def
    by (intro costs_then_awake phase2_loop.loop_budget) (auto intro!: awake_rules split: sum.split)
  have "sleeps_at_most ?n (bindA (kubectl_or_empty env lp plan (raw_pods_cmd node)) (\<lambda>raw.
      bindA (whenA (b raw) (log lp (g raw))) (\<lambda>_. bindA (log lp h) (\<lambda>_. daemonset_phase2 env lp plan node (k raw)))))" for b g h k
    by (intro costs_bind_awake awake_or_empty adds_when awake_log p2)
  then have "sleeps_at_most (60 + ?n) (bindA (poll_loop env 2 60 (phase1_body env lp plan node) (\<lambda>_ n. retA n) 0 0) (\<lambda>r.
      if c r then log lp a else bindA (kubectl_or_empty env lp plan (raw_pods_cmd node)) (\<lambda>raw.
        bindA (whenA (b raw) (log lp (g raw))) (\<lambda>_. bindA (log lp h) (\<lambda>_. daemonset_phase2 env lp plan node (k raw))))))"
    for a b c g h k
    by (intro costs_bind [OF p1]) (simp add: sleeps_log)
  moreover have "sleeps_at_most n (bindA (log lp a) (\<lambda>_. log lp b) :: ('a, unit) act)" for n a b
    by (rule sleeps_adds) (intro adds_bind awake_log)
  ultimately show ?thesis
    unfolding wait_node_daemonsets_ready_def Let_def by (simp add: sleeps_log)
qed

section \<open>The budget of a node\<close>

lemma sleeps_free: "adds awake m \<Longrightarrow> sleeps_loc 0 (on_world m)"
  by (rule sleeps_on_world) (rule sleeps_adds)

lemmas free_steps = sleeps_free [OF awake_log(1)] sleeps_free [OF awake_timers(1)] sleeps_free [OF awake_timers(2)]
  sleeps_free [OF awake_kubectl] sleeps_free [OF adds_ctx [OF awake_upgrade]] sleeps_upd [where i = 0]

lemmas wait_steps = sleeps_on_world [OF costs_ctx [OF sleeps_ssh_back]] sleeps_on_world [OF costs_ctx [OF sleeps_apiserver]]
  sleeps_on_world [OF costs_ctx [OF sleeps_bootid]] sleeps_on_world [OF costs_ctx [OF sleeps_ready]]
  sleeps_on_world [OF costs_ctx [OF sleeps_daemonsets]] sleeps_on_world [OF sleeps_capture]

lemma sleeps_ignore_drop:
  "sleeps_loc (unat (tm_ssh_drop (pl_timeouts plan))) (on_world (ignore (wait_ssh_drop env lp plan ip)))"
  using costs_match [OF sleeps_ssh_drop, of 0 "\<lambda>_. retA ()"]
  unfolding ignore_def by (intro sleeps_on_world) simp

lemmas flow_costs = costs_bind free_steps wait_steps sleeps_ignore_drop

text \<open>The waits of a worker and of the control plane, from the timeouts.\<close>

definition worker_budget :: "plan \<Rightarrow> nat" where
  "worker_budget plan = (let tm = pl_timeouts plan in
     unat (tm_ssh_drop tm) + unat (tm_ssh tm) + 2 * unat (tm_ready tm) + unat (tm_daemonset tm) + 85)"

definition cp_budget :: "plan \<Rightarrow> nat" where
  "cp_budget plan = worker_budget plan + unat (tm_apiserver (pl_timeouts plan)) + 9"

lemma sleeps_worker_gates: "sleeps_loc (worker_budget plan - 4) (worker_gates env lp plan name ip node pre)"
  unfolding worker_gates_def Let_def phase_def
  by (rule costs_mono, (rule flow_costs)+) (simp add: worker_budget_def Let_def)

lemma sleeps_uncordon: "sleeps_loc 0 (uncordon_step env lp plan node)"
  unfolding uncordon_step_def by (rule costs_mono, (rule flow_costs)+) simp

lemma sleeps_drain: "sleeps_loc 0 (drain_step env lp plan node)"
proof -
  have "sleeps_loc 0 (bindA (on_world (log lp a)) (\<lambda>_. bindA (on_world (cp_kubectl env lp plan (drain_cmd plan node))) (\<lambda>_.
      bindA (upd mark_drained) (\<lambda>_. upd g))))" for a g
    by (rule costs_mono, (rule flow_costs)+) simp
  then show ?thesis unfolding drain_step_def phase_def by (simp add: free_steps)
qed

lemma sleeps_update_worker: "sleeps_at_most (worker_budget plan) (update_worker env lp plan name ip node)"
  unfolding update_worker_def
proof (rule sleeps_scoped [OF _ awake_drop])
  have skip: "sleeps_loc 0 (whenA b (uncordon_step env lp plan node))" for b
    by (cases b) (simp_all add: sleeps_uncordon)
  have outcome: "sleeps_loc (worker_budget plan - 4) (case out of
       UpgradeFailed \<Rightarrow> failA e
     | AlreadyCurrent \<Rightarrow> bindA (on_world (log lp a)) (\<lambda>_.
         bindA (whenA (\<not> pl_skip_drain plan) (uncordon_step env lp plan node)) (\<lambda>_.
         bindA (on_world (timer_start env lp plan ip)) (\<lambda>_. upd clear_in_flight)))
     | Applied \<Rightarrow> bindA (worker_gates env lp plan name ip node pre) (\<lambda>_. bindA (uncordon_step env lp plan node) (\<lambda>_.
         bindA (on_world (timer_start env lp plan ip)) (\<lambda>_. bindA (upd clear_in_flight) (\<lambda>_. on_world (log lp c))))))"
    for out e a c pre
  proof (cases out)
    case Applied
    show ?thesis unfolding Applied bootc_outcome.case
      by (rule costs_mono, (rule costs_bind sleeps_worker_gates sleeps_uncordon free_steps)+) simp
  next
    case AlreadyCurrent
    show ?thesis unfolding AlreadyCurrent bootc_outcome.case
      by (rule costs_mono, (rule costs_bind skip free_steps)+) simp
  qed simp
  show "sleeps_loc (worker_budget plan) (update_worker_body env lp plan name ip node)"
    unfolding update_worker_body_def
    by (rule costs_mono, (rule flow_costs sleeps_drain outcome)+) (simp add: worker_budget_def Let_def)
qed

lemma sleeps_update_cp: "sleeps_at_most (cp_budget plan) (update_cp env lp plan)"
  unfolding update_cp_def
proof (rule sleeps_scoped [OF _ awake_drop])
  let ?ip = "pl_cp_ip plan" and ?node = "pl_cp_k8s_name plan"
  have outcome: "sleeps_loc (cp_budget plan - 4) (case out of
       AlreadyCurrent \<Rightarrow> bindA (on_world (log lp a)) (\<lambda>_. on_world (timer_start env lp plan ?ip))
     | UpgradeFailed \<Rightarrow> failA e
     | Applied \<Rightarrow>
          bindA (on_world (ignore (wait_ssh_drop env lp plan ?ip))) (\<lambda>_.
          bindA (on_world (ctxA c1 (wait_ssh_back env lp plan ?ip))) (\<lambda>_.
          bindA (upd f1) (\<lambda>_.
          bindA (on_world (ctxA c2 (wait_apiserver_back env lp plan))) (\<lambda>_.
          bindA (upd f2) (\<lambda>_.
          bindA (on_world (ctxA c3 (wait_node_bootid_changed env lp plan ?node pre))) (\<lambda>_.
          bindA (upd f3) (\<lambda>_.
          bindA (on_world (ctxA c4 (wait_node_ready env lp plan ?node))) (\<lambda>_.
          bindA (upd f4) (\<lambda>_.
          bindA (on_world (ctxA c5 (wait_node_daemonsets_ready env lp plan ?node))) (\<lambda>_.
          bindA (on_world (timer_start env lp plan ?ip)) (\<lambda>_.
          on_world (log lp b)))))))))))))"
    for out a b e pre c1 c2 c3 c4 c5 f1 f2 f3 f4
  proof (cases out)
    case Applied
    show ?thesis unfolding Applied bootc_outcome.case
      by (rule costs_mono, (rule flow_costs)+) (simp add: cp_budget_def worker_budget_def Let_def)
  next
    case AlreadyCurrent
    show ?thesis unfolding AlreadyCurrent bootc_outcome.case
      by (rule costs_mono, (rule costs_bind free_steps)+) simp
  qed simp
  show "sleeps_loc (cp_budget plan) (update_cp_body env lp plan)"
    unfolding update_cp_body_def Let_def phase_def
    by (rule costs_mono, (rule flow_costs outcome)+) (simp add: cp_budget_def worker_budget_def Let_def)
qed

text \<open>C7. The waits of one node are bounded by its timeouts, on every path and whatever the hosts do:
  the sleeps of \<open>update_worker\<close> add up to at most ssh-drop + ssh-back + bootID + ready +
  daemonsets plus 85 seconds (the 60 seconds of the first DaemonSet phase, two retries of
  the boot ID, and less than one interval of overrun per loop); those of \<open>update_cp\<close> to at most
  that plus the apiserver budget and 9 seconds. The budgets are \<open>u32\<close> values and the
  counters saturate, so no loop can wrap around and run on.\<close>

theorem update_node_sleep_budget:
  "sleeps_at_most (worker_budget plan) (update_worker env lp plan name ip node)
   \<and> sleeps_at_most (cp_budget plan) (update_cp env lp plan)"
  by (rule conjI) (rule sleeps_update_worker, rule sleeps_update_cp)

end
