(* ===== verification/Teardown.thy ===== *)
theory Teardown
  imports Config Virt_Conn
begin

text \<open>
  What the two commands that delete things share: counting warnings, and which commands a verb
  of a connection runs. \<open>scripted\<close> relates the result of an action to the exact list of
  commands it ran.
\<close>

section \<open>Counting warnings\<close>

text \<open>\<open>let mut n = 0; for x in xs { n += f(x)?; }\<close>\<close>

fun sumA :: "'a list \<Rightarrow> ('a \<Rightarrow> ('s, 'e, nat) action) \<Rightarrow> ('s, 'e, nat) action" where
  "sumA [] f = retA 0"
| "sumA (x # xs) f = bindA (f x) (\<lambda>n. bindA (sumA xs f) (\<lambda>m. retA (n + m)))"

text \<open>\<open>if let Err(e) = m { log(..); warnings += 1; }\<close>\<close>

definition warnA :: "('w world, virt_error, 'a) action \<Rightarrow> (string \<Rightarrow> string) \<Rightarrow> ('w, nat) act" where
  "warnA m line =
     matchA m (\<lambda>r.
       case r of
         Ok _ \<Rightarrow> retA 0
       | Err e \<Rightarrow> bindA (println (line (virt_error_display e))) (\<lambda>_. retA 1))"

section \<open>The calls of a trace\<close>

text \<open>A call is a command that was run, with its standard output when it succeeded.\<close>

type_synonym call = "string \<times> string option"

fun call_of :: "event \<Rightarrow> call list" where
  "call_of (SshRun _ c r) = [(c, case r of Ok out \<Rightarrow> Some (ro_stdout out) | Err _ \<Rightarrow> None)]"
| "call_of (ShRun c r) =
     [(c, case r of Ok out \<Rightarrow> if exit_success (ro_status out) then Some (ro_stdout out) else None | Err _ \<Rightarrow> None)]"
| "call_of _ = []"

definition calls :: "event list \<Rightarrow> call list" where
  "calls evs = concat (map call_of evs)"

lemma calls_simps [simp]:
  "calls [] = []" "calls (a @ b) = calls a @ calls b" "calls (e # a) = call_of e @ calls a"
  by (simp_all add: calls_def)

fun answer :: "('e, string) result \<Rightarrow> string option" where
  "answer (Ok out) = Some out"
| "answer (Err _) = None"

lemma kvm_call:
  assumes "conn_ssh (build_connection env kvm) host cmd w = (r, w')"
  shows "\<exists>ev. ran_on kvm cmd ev \<and> w_trace w' = w_trace w @ [ev] \<and> call_of ev = [(cmd, answer r)]"
proof (cases "kvm = None \<or> kvm = Some []")
  case True
  then have "conn_ssh (build_connection env kvm) = local_client_run env" "ran_on kvm = ran_on None"
    by (auto simp: build_connection_def new_local_def ran_on_empty)
  with assms show ?thesis
    by (auto simp: local_client_run_def sh_run_def matchA_def split: prod.splits result.splits if_splits)
next
  case False
  then obtain h where h: "kvm = Some h" "h \<noteq> []" by auto
  then have "conn_ssh (build_connection env kvm) = bridge_run env (ssh_options_new h)" by (simp add: build_connection_def)
  with assms h show ?thesis
    by (auto simp: bridge_run_def ssh_run_def ssh_run_in_def matchA_def split: prod.splits result.splits ssh_error.splits)
qed

lemma conn_run_call:
  assumes "conn_run (build_connection env kvm) cmd w = (r, w')"
  shows "\<exists>ev. ran_on kvm cmd ev \<and> w_trace w' = w_trace w @ [ev] \<and> call_of ev = [(cmd, answer r)]"
proof -
  let ?c = "build_connection env kvm"
  obtain r1 w1 where c: "conn_ssh ?c (ssh_target (conn_uri ?c)) cmd w = (r1, w1)"
    by (cases "conn_ssh ?c (ssh_target (conn_uri ?c)) cmd w")
  with assms have "w' = w1" "answer r = answer r1"
    by (auto simp: conn_run_def matchA_def split: result.splits virt_ssh_error.splits)
  with kvm_call [OF c] show ?thesis by auto
qed

text \<open>Every event an action adds satisfies \<open>V\<close>, and the calls among them are those that the
  relation \<open>S\<close> allows for its result.\<close>

definition scripted ::
  "(event \<Rightarrow> bool) \<Rightarrow> ('w world, 'e, 'a) action \<Rightarrow> (('e, 'a) result \<Rightarrow> call list \<Rightarrow> bool) \<Rightarrow> bool" where
  "scripted V m S \<longleftrightarrow> (\<forall>w r w'. m w = (r, w') \<longrightarrow>
     (\<exists>evs. w_trace w' = w_trace w @ evs \<and> list_all V evs \<and> S r (calls evs)))"

lemma scriptedD:
  assumes "scripted V m S" "m w = (r, w')"
  obtains evs where "w_trace w' = w_trace w @ evs" "list_all V evs" "S r (calls evs)"
  using assms unfolding scripted_def by blast

lemma scripted_conseq: "scripted V m S \<Longrightarrow> (\<And>r cs. S r cs \<Longrightarrow> S' r cs) \<Longrightarrow> scripted V m S'"
  unfolding scripted_def by meson

lemma scripted_ret: "S (Ok a) [] \<Longrightarrow> scripted V (retA a) S"
  by (simp add: scripted_def)

lemma scripted_fail: "S (Err e) [] \<Longrightarrow> scripted V (failA e) S"
  by (simp add: scripted_def)

lemma scripted_match:
  assumes "scripted V m S1" "\<And>r cs. S1 r cs \<Longrightarrow> scripted V (f r) (\<lambda>r' cs'. S r' (cs @ cs'))"
  shows "scripted V (matchA m f) S"
  unfolding scripted_def
proof (intro allI impI)
  fix w r w'
  assume "matchA m f w = (r, w')"
  then obtain r1 w1 where m: "m w = (r1, w1)" and f: "f r1 w1 = (r, w')"
    by (auto simp: matchA_def split: prod.splits)
  from scriptedD [OF assms(1) m] obtain e1
    where e1: "w_trace w1 = w_trace w @ e1" "list_all V e1" "S1 r1 (calls e1)" .
  from scriptedD [OF assms(2) [OF e1(3)] f] obtain e2
    where "w_trace w' = w_trace w1 @ e2" "list_all V e2" "S r (calls e1 @ calls e2)" .
  with e1 show "\<exists>evs. w_trace w' = w_trace w @ evs \<and> list_all V evs \<and> S r (calls evs)"
    by (intro exI [of _ "e1 @ e2"]) simp
qed

lemma scripted_bind:
  assumes "scripted V m S1" "\<And>a cs. S1 (Ok a) cs \<Longrightarrow> scripted V (f a) (\<lambda>r' cs'. S r' (cs @ cs'))"
    and "\<And>e cs. S1 (Err e) cs \<Longrightarrow> S (Err e) cs"
  shows "scripted V (bindA m f) S"
  unfolding bindA_matchA using assms(1)
  by (rule scripted_match) (auto simp: assms(2,3) intro!: scripted_fail split: result.split)

lemma scripted_println: "V (Stdout s) \<Longrightarrow> S (Ok ()) [] \<Longrightarrow> scripted V (println s) S"
  by (simp add: scripted_def emit_def)

text \<open>A connection to the configured machine, as the two commands build it.\<close>

lemma scripted_conn_run:
  assumes "\<And>ev. ran_on kvm cmd ev \<Longrightarrow> V ev"
  shows "scripted V (conn_run (build_connection env kvm) cmd) (\<lambda>r cs. cs = [(cmd, answer r)])"
  unfolding scripted_def
proof (intro allI impI)
  fix w r w'
  assume "conn_run (build_connection env kvm) cmd w = (r, w')"
  from conn_run_call [OF this] assms show "\<exists>evs. w_trace w' = w_trace w @ evs \<and> list_all V evs \<and> calls evs = [(cmd, answer r)]"
    by fastforce
qed

lemma scripted_run_unit:
  assumes "\<And>ev. ran_on kvm cmd ev \<Longrightarrow> V ev"
  shows "scripted V (run_unit (build_connection env kvm) cmd) (\<lambda>r cs. \<exists>a. cs = [(cmd, a)] \<and> (is_ok r \<longleftrightarrow> a \<noteq> None))"
  unfolding run_unit_def
  by (rule scripted_bind [OF scripted_conn_run]) (auto intro!: scripted_ret assms)

lemma scripted_warn:
  assumes "scripted V m S1" "\<And>s. V (Stdout s)" "\<And>a cs. S1 (Ok a) cs \<Longrightarrow> S (Ok 0) cs" "\<And>e cs. S1 (Err e) cs \<Longrightarrow> S (Ok (Suc 0)) cs"
  shows "scripted V (warnA m line) S"
  unfolding warnA_def
proof (rule scripted_match [OF assms(1)])
  fix r :: "(virt_error, 'b) result" and cs
  assume "S1 r cs"
  then show "scripted V (case r of Ok _ \<Rightarrow> retA 0 | Err e \<Rightarrow> bindA (println (line (virt_error_display e))) (\<lambda>_. retA 1))
      (\<lambda>r' cs'. S r' (cs @ cs'))"
    by (cases r)
      (auto intro!: scripted_ret scripted_bind [OF scripted_println [where S = "\<lambda>r cs. is_ok r \<and> cs = []"]] assms(2,3,4))
qed

text \<open>The calls of a loop are one chunk per element, and the warnings are the sum of the chunks'.\<close>

fun chunked :: "('a \<Rightarrow> nat \<Rightarrow> call list \<Rightarrow> bool) \<Rightarrow> 'a list \<Rightarrow> nat \<Rightarrow> call list \<Rightarrow> bool" where
  "chunked S [] k cs \<longleftrightarrow> k = 0 \<and> cs = []"
| "chunked S (x # xs) k cs \<longleftrightarrow>
     (\<exists>n c m cs'. k = n + m \<and> cs = c @ cs' \<and> S x n c \<and> chunked S xs m cs')"

lemma scripted_sum:
  assumes "\<And>x. x \<in> set xs \<Longrightarrow> scripted V (f x) (\<lambda>r cs. \<exists>n. r = Ok n \<and> S x n cs)"
  shows "scripted V (sumA xs f) (\<lambda>r cs. \<exists>n. r = Ok n \<and> chunked S xs n cs)"
  using assms
proof (induction xs)
  case Nil
  show ?case unfolding sumA.simps by (rule scripted_ret) simp
next
  case (Cons x xs)
  then have IH: "scripted V (sumA xs f) (\<lambda>r cs. \<exists>n. r = Ok n \<and> chunked S xs n cs)" by simp
  show ?case
    unfolding sumA.simps
    by (rule scripted_bind [OF Cons.prems]) (auto intro!: scripted_bind [OF IH] scripted_ret, blast)
qed

text \<open>The same for a body that may fail: the calls so far satisfy \<open>P\<close>, the last chunk included.\<close>

lemma scripted_sum_err:
  assumes "\<And>x. x \<in> set xs \<Longrightarrow> scripted V (f x) (\<lambda>r cs. list_all P cs \<and> (\<forall>n. r = Ok n \<longrightarrow> S x n cs))"
  shows "scripted V (sumA xs f) (\<lambda>r cs. list_all P cs \<and> (\<forall>n. r = Ok n \<longrightarrow> chunked S xs n cs))"
  using assms
proof (induction xs)
  case Nil
  show ?case unfolding sumA.simps by (rule scripted_ret) simp
next
  case (Cons x xs)
  then have IH: "scripted V (sumA xs f) (\<lambda>r cs. list_all P cs \<and> (\<forall>n. r = Ok n \<longrightarrow> chunked S xs n cs))" by simp
  have x: "scripted V (f x) (\<lambda>r cs. list_all P cs \<and> (\<forall>n. r = Ok n \<longrightarrow> S x n cs))"
    using Cons.prems by simp
  show ?case
    unfolding sumA.simps
    by (rule scripted_bind [OF x]) (auto intro!: scripted_bind [OF IH] scripted_ret, blast)
qed

lemma chunked_all: "chunked S xs n cs \<Longrightarrow> (\<And>x n c. x \<in> set xs \<Longrightarrow> S x n c \<Longrightarrow> list_all P c) \<Longrightarrow> list_all P cs"
  by (induction xs arbitrary: n cs) fastforce+

lemma chunked_commands:
  "chunked S xs n cs \<Longrightarrow> (\<And>x n c. x \<in> set xs \<Longrightarrow> S x n c \<Longrightarrow> map fst c = g x) \<Longrightarrow> map fst cs = concat (map g xs)"
proof (induction xs arbitrary: n cs)
  case (Cons x xs)
  from Cons.prems(1) obtain n1 c m cs' where "cs = c @ cs'" "S x n1 c" "chunked S xs m cs'" by auto
  with Cons.IH [of m cs'] Cons.prems(2) show ?case by simp
qed simp

text \<open>On this machine or over SSH, nothing else is touched.\<close>

definition on_host :: "string option \<Rightarrow> event \<Rightarrow> bool" where
  "on_host kvm ev \<longleftrightarrow> printed ev \<or> (\<exists>cmd. ran_on kvm cmd ev)"

lemma on_hostI [intro]: "ran_on kvm cmd ev \<Longrightarrow> on_host kvm ev" "on_host kvm (Stdout s)"
  by (auto simp: on_host_def)

lemma scripted_say:
  assumes "scripted (on_host kvm) m S"
  shows "scripted (on_host kvm) (bindA (println s) (\<lambda>_. m)) S"
  by (rule scripted_bind [OF scripted_println [where S = "\<lambda>r cs. is_ok r \<and> cs = []"]])
    (auto intro: assms)

lemma bind_ok_or_err: "bind_r (ok_or (UnparseableOutput c s) v) f = Err (VirshFailed x y) \<Longrightarrow> \<exists>a. f a = Err (VirshFailed x y)"
  by (cases v) (auto simp: ok_or_def)

lemma parse_dominfo_not_failed: "parse_dominfo out c \<noteq> Err (VirshFailed x y)"
  unfolding parse_dominfo_def Let_def by (auto dest!: bind_ok_or_err)

end
