(* ===== verification/Clean_Vms.thy ===== *)
theory Clean_Vms
  imports Teardown
begin

text \<open>
  \<open>hbird clean-vms\<close> (\<open>commands/clean_vms.rs\<close>): destroying the \<open>hummingbird-*\<close> domains of the KVM
  host, removing the files they left in the pool directory, refreshing the pool. The arguments
  are those clap hands over (flags, or the environment variables behind them); the
  configuration file is an argument, \<open>None\<close> when no path was given.
\<close>

section \<open>The command\<close>

record clean_args =
  ca_kvm_host :: "string option"
  ca_pool_dir :: "string option"
  ca_pool_name :: "string option"
  ca_dry_run :: bool

record clean_plan =
  cl_pool_dir :: string
  cl_pool_name :: string
  cl_kvm_host :: "string option"
  cl_dry_run :: bool

definition clean_log :: "string \<Rightarrow> ('w world, 'e, unit) action" where
  "clean_log line = println (''[clean-vms] '' @ line)"

definition DEFAULT_POOL_DIR :: string where "DEFAULT_POOL_DIR = ''/var/lib/libvirt/images''"
definition DEFAULT_POOL_NAME :: string where "DEFAULT_POOL_NAME = ''default''"
definition HUMMINGBIRD_PREFIX :: string where "HUMMINGBIRD_PREFIX = ''hummingbird-''"
definition STRAGGLER_SUFFIXES :: "string list" where
  "STRAGGLER_SUFFIXES = [''.qcow2'', ''-seed.iso'', ''-cloud-init.iso'']"

definition is_hummingbird_domain :: "string \<Rightarrow> bool" where
  "is_hummingbird_domain name = starts_with HUMMINGBIRD_PREFIX name"

definition is_straggler_artifact :: "string \<Rightarrow> bool" where
  "is_straggler_artifact name =
     (if \<not> starts_with HUMMINGBIRD_PREFIX name then False
      else list_ex (\<lambda>suffix. ends_with suffix name) STRAGGLER_SUFFIXES)"

definition clean_plan_from_args :: "clean_args \<Rightarrow> cluster_config option \<Rightarrow> clean_plan" where
  "clean_plan_from_args args config =
     (let cfg_pool_dir = map_option pool_dir config; cfg_kvm_host = Option.bind config kvm_host in
      \<lparr>cl_pool_dir = unwrap_or (or_opt (filled (ca_pool_dir args)) cfg_pool_dir) DEFAULT_POOL_DIR,
       cl_pool_name = unwrap_or (filled (ca_pool_name args)) DEFAULT_POOL_NAME,
       cl_kvm_host = or_opt (filled (ca_kvm_host args)) cfg_kvm_host,
       cl_dry_run = ca_dry_run args\<rparr>)"

definition pool_path :: "clean_plan \<Rightarrow> string \<Rightarrow> string" where
  "pool_path plan name = trim_end_matches (CHR ''/'') (cl_pool_dir plan) @ ''/'' @ name"

definition sweep_one :: "'w world connection \<Rightarrow> clean_plan \<Rightarrow> string \<Rightarrow> ('w, nat) act" where
  "sweep_one conn plan name =
     (if cl_dry_run plan then
        bindA (clean_log (''DRY-RUN would destroy + undefine --remove-all-storage '' @ name)) (\<lambda>_. retA 0)
      else
        bindA (clean_log (''destroying '' @ name)) (\<lambda>_.
        bindA (warnA (destroy_domain conn name) (\<lambda>e. ''[clean-vms] WARN: virsh destroy returned non-zero for ''
          @ name @ '' (already shut off?): '' @ e)) (\<lambda>a.
        bindA (warnA (undefine_domain_remove_all_storage conn name) (\<lambda>e.
          ''[clean-vms] WARN: virsh undefine --remove-all-storage returned non-zero for '' @ name @ '': '' @ e)) (\<lambda>b.
        retA (a + b)))))"

definition sweep_domains :: "'w world connection \<Rightarrow> clean_plan \<Rightarrow> ('w, nat) act" where
  "sweep_domains conn plan =
     matchA (domains conn) (\<lambda>r.
       case r of
         Err e \<Rightarrow> failA ((''clean-vms: could not list libvirt domains '' @ [CHR 0xE2, CHR 0x80, CHR 0x94]
             @ '' check --kvm-host reachability and libvirt-group membership before re-running'') # from_virt e)
       | Ok all \<Rightarrow> sumA (filter is_hummingbird_domain (map dom_name all)) (sweep_one conn plan))"

definition remove_one :: "'w world connection \<Rightarrow> clean_plan \<Rightarrow> string \<Rightarrow> ('w, nat) act" where
  "remove_one conn plan name =
     (let path = pool_path plan name in
      if cl_dry_run plan then bindA (clean_log (''DRY-RUN would rm -f '' @ path)) (\<lambda>_. retA 0)
      else
        bindA (clean_log (''removing '' @ path)) (\<lambda>_.
        warnA (remote_rm_f conn path) (\<lambda>e. ''[clean-vms] WARN: could not remove '' @ path @ '': '' @ e)))"

definition sweep_stragglers :: "'w world connection \<Rightarrow> clean_plan \<Rightarrow> ('w, nat) act" where
  "sweep_stragglers conn plan =
     matchA (remote_ls conn (cl_pool_dir plan)) (\<lambda>r.
       case r of
         Ok entries \<Rightarrow> sumA (sort (filter is_straggler_artifact entries)) (remove_one conn plan)
       | Err (VirshFailed command stderr) \<Rightarrow>
           bindA (clean_log (''WARN: could not list '' @ cl_pool_dir plan @ '' ('' @ trim stderr
             @ ''); skipping straggler sweep'')) (\<lambda>_. retA 1)
       | Err e \<Rightarrow> failA ((''clean-vms: transport failure listing '' @ cl_pool_dir plan) # from_virt e))"

definition refresh_pool :: "'w world connection \<Rightarrow> clean_plan \<Rightarrow> ('w, nat) act" where
  "refresh_pool conn plan =
     (if cl_dry_run plan then
        bindA (clean_log (''DRY-RUN would virsh pool-refresh '' @ cl_pool_name plan)) (\<lambda>_. retA 0)
      else
        warnA (virsh_pool_refresh conn (cl_pool_name plan))
          (\<lambda>e. ''[clean-vms] WARN: virsh pool-refresh '' @ cl_pool_name plan @ '' returned non-zero: '' @ e))"

definition clean_run_plan :: "'w env \<Rightarrow> clean_plan \<Rightarrow> ('w, unit) act" where
  "clean_run_plan env plan =
     (let conn = build_connection env (cl_kvm_host plan) in
      bindA (sweep_domains conn plan) (\<lambda>a.
      bindA (sweep_stragglers conn plan) (\<lambda>b.
      bindA (refresh_pool conn plan) (\<lambda>c.
      bindA (whenA (0 < a + b + c) (clean_log (show_nat (a + b + c) @ '' step(s) warned ''
        @ [CHR 0xE2, CHR 0x80, CHR 0x94] @ '' see WARN lines above (non-fatal, matching the bash twin)''))) (\<lambda>_.
      clean_log ''done.'')))))"

definition clean_run ::
  "'w env \<Rightarrow> clean_args \<Rightarrow> (string \<times> (anyhow, cluster_config) result) option \<Rightarrow> ('w, unit) act" where
  "clean_run env args config =
     bindA (case config of
              Some (path, r) \<Rightarrow>
                bindA (liftA (with_context (''clean-vms: could not read config '' @ path) r)) (\<lambda>c. retA (Some c))
            | None \<Rightarrow> retA None) (\<lambda>cfg.
     clean_run_plan env (clean_plan_from_args args cfg))"

section \<open>What it runs\<close>

text \<open>The specification: the exact calls for a result, from what the host answers. \<open>names\<close> are the
  domains the host lists, \<open>entries\<close> the files of the pool directory.\<close>

definition sweep_commands :: "qemu_ssh_uri \<Rightarrow> clean_plan \<Rightarrow> string list \<Rightarrow> string list" where
  "sweep_commands uri plan names =
     (if cl_dry_run plan then []
      else concat (map (\<lambda>d. [cmd_destroy uri d, cmd_undefine_storage uri d]) (filter is_hummingbird_domain names)))"

definition remove_commands :: "clean_plan \<Rightarrow> string list \<Rightarrow> string list" where
  "remove_commands plan entries =
     (if cl_dry_run plan then []
      else map (\<lambda>n. cmd_rm_f (pool_path plan n)) (sort (filter is_straggler_artifact entries)))"

definition refresh_commands :: "qemu_ssh_uri \<Rightarrow> clean_plan \<Rightarrow> string list" where
  "refresh_commands uri plan = (if cl_dry_run plan then [] else [cmd_pool_refresh uri (cl_pool_name plan)])"

definition clean_script :: "qemu_ssh_uri \<Rightarrow> clean_plan \<Rightarrow> bool \<Rightarrow> call list \<Rightarrow> bool" where
  "clean_script uri plan ok cs \<longleftrightarrow>
     (\<not> ok \<and> cs = [(cmd_domains uri, None)])
     \<or> (\<exists>out ds. map fst ds = sweep_commands uri plan (nonempty_trimmed_lines out)
          \<and> (\<not> ok \<and> cs = (cmd_domains uri, Some out) # ds @ [(cmd_ls (cl_pool_dir plan), None)]
             \<or> ok \<and> (\<exists>listing rs. map fst rs =
                    remove_commands plan (case listing of Some l \<Rightarrow> nonempty_trimmed_lines l | None \<Rightarrow> [])
                      @ refresh_commands uri plan
                  \<and> cs = (cmd_domains uri, Some out) # ds @ (cmd_ls (cl_pool_dir plan), listing) # rs)))"

abbreviation (input) at_host :: "clean_plan \<Rightarrow> event \<Rightarrow> bool" where
  "at_host plan \<equiv> on_host (cl_kvm_host plan)"

lemma sweep_one_script:
  "scripted (at_host plan) (sweep_one (build_connection env (cl_kvm_host plan)) plan d)
     (\<lambda>r cs. \<exists>n. r = Ok n \<and> map fst cs =
        (if cl_dry_run plan then []
         else [cmd_destroy (conn_uri (build_connection env (cl_kvm_host plan))) d,
               cmd_undefine_storage (conn_uri (build_connection env (cl_kvm_host plan))) d]))"
proof -
  let ?c = "build_connection env (cl_kvm_host plan)"
  have w: "scripted (at_host plan) (warnA (run_unit ?c cmd) line) (\<lambda>r cs. is_ok r \<and> map fst cs = [cmd])" for cmd line
    by (rule scripted_warn [OF scripted_run_unit]) auto
  show ?thesis
    unfolding sweep_one_def clean_log_def destroy_domain_def undefine_domain_remove_all_storage_def
    by (auto intro!: scripted_say scripted_ret scripted_bind [OF w])
qed

lemma remove_one_script:
  "scripted (at_host plan) (remove_one (build_connection env (cl_kvm_host plan)) plan n)
     (\<lambda>r cs. \<exists>k. r = Ok k \<and> map fst cs = (if cl_dry_run plan then [] else [cmd_rm_f (pool_path plan n)]))"
  unfolding remove_one_def clean_log_def remote_rm_f_def Let_def
  by (auto intro!: scripted_say scripted_ret scripted_warn [OF scripted_run_unit])

lemma concat_nil: "concat (map (\<lambda>_. []) xs) = []"
  by (induction xs) auto

lemma sweep_domains_script:
  fixes env :: "'w env" and plan :: clean_plan
  defines "c \<equiv> build_connection env (cl_kvm_host plan)"
  shows "scripted (at_host plan) (sweep_domains c plan) (\<lambda>r cs.
      (\<not> is_ok r \<and> cs = [(cmd_domains (conn_uri c), None)])
      \<or> (is_ok r \<and> (\<exists>out ds. cs = (cmd_domains (conn_uri c), Some out) # ds
            \<and> map fst ds = sweep_commands (conn_uri c) plan (nonempty_trimmed_lines out))))"
proof -
  have list: "scripted (at_host plan) (domains c) (\<lambda>r cs. case r of
        Ok all \<Rightarrow> (\<exists>out. cs = [(cmd_domains (conn_uri c), Some out)] \<and> map dom_name all = nonempty_trimmed_lines out)
      | Err _ \<Rightarrow> cs = [(cmd_domains (conn_uri c), None)])"
    unfolding domains_def c_def
    by (rule scripted_bind [OF scripted_conn_run]) (auto intro!: scripted_ret simp: parse_domain_list_def comp_def)
  have sum: "scripted (at_host plan) (sumA names (sweep_one c plan))
      (\<lambda>r cs. is_ok r \<and> map fst cs = concat (map (\<lambda>d. if cl_dry_run plan then []
         else [cmd_destroy (conn_uri c) d, cmd_undefine_storage (conn_uri c) d]) names))" for names
    by (rule scripted_conseq [OF scripted_sum [OF sweep_one_script [of plan env, folded c_def]]])
      (auto dest!: chunked_commands [where g = "\<lambda>d. if cl_dry_run plan then []
         else [cmd_destroy (conn_uri c) d, cmd_undefine_storage (conn_uri c) d]"])
  have sum': "scripted (at_host plan) (sumA (filter is_hummingbird_domain names) (sweep_one c plan))
      (\<lambda>r cs. is_ok r \<and> map fst cs = sweep_commands (conn_uri c) plan names)" for names
    by (rule scripted_conseq [OF sum]) (auto simp: sweep_commands_def concat_nil)
  show ?thesis
    unfolding sweep_domains_def
    by (rule scripted_match [OF list]) (auto intro!: scripted_fail scripted_conseq [OF sum'] split: result.splits)
qed

lemma sweep_stragglers_script:
  fixes env :: "'w env" and plan :: clean_plan
  defines "c \<equiv> build_connection env (cl_kvm_host plan)"
  shows "scripted (at_host plan) (sweep_stragglers c plan) (\<lambda>r cs.
      (\<not> is_ok r \<and> cs = [(cmd_ls (cl_pool_dir plan), None)])
      \<or> (is_ok r \<and> (\<exists>listing rs. cs = (cmd_ls (cl_pool_dir plan), listing) # rs
            \<and> map fst rs = remove_commands plan (case listing of Some l \<Rightarrow> nonempty_trimmed_lines l | None \<Rightarrow> []))))"
proof -
  let ?ls = "cmd_ls (cl_pool_dir plan)"
  have list: "scripted (at_host plan) (remote_ls c (cl_pool_dir plan)) (\<lambda>r cs. case r of
        Ok es \<Rightarrow> (\<exists>out. cs = [(?ls, Some out)] \<and> es = nonempty_trimmed_lines out) | Err _ \<Rightarrow> cs = [(?ls, None)])"
    unfolding remote_ls_def c_def
    by (rule scripted_bind [OF scripted_conn_run]) (auto intro!: scripted_ret)
  have sum: "scripted (at_host plan) (sumA names (remove_one c plan))
      (\<lambda>r cs. is_ok r \<and> map fst cs = concat (map (\<lambda>n. if cl_dry_run plan then [] else [cmd_rm_f (pool_path plan n)]) names))" for names
    by (rule scripted_conseq [OF scripted_sum [OF remove_one_script [of plan env, folded c_def]]])
      (auto dest!: chunked_commands [where g = "\<lambda>n. if cl_dry_run plan then [] else [cmd_rm_f (pool_path plan n)]"])
  have sum': "scripted (at_host plan) (sumA (sort (filter is_straggler_artifact es)) (remove_one c plan))
      (\<lambda>r cs. is_ok r \<and> map fst cs = remove_commands plan es)" for es
    by (rule scripted_conseq [OF sum]) (auto simp: remove_commands_def concat_nil concat_map_singleton)
  have failed: "scripted (at_host plan) (bindA (println s) (\<lambda>_. retA (Suc 0) :: ('w, nat) act)) (\<lambda>r cs'.
      is_ok r \<and> (\<exists>listing rs. [(?ls, None)] @ cs' = (?ls, listing) # rs
        \<and> map fst rs = remove_commands plan (case listing of Some l \<Rightarrow> nonempty_trimmed_lines l | None \<Rightarrow> [])))" for s
    by (intro scripted_say scripted_ret) (simp add: remove_commands_def)
  show ?thesis
    unfolding sweep_stragglers_def clean_log_def
    by (rule scripted_match [OF list])
      (auto intro!: scripted_fail scripted_conseq [OF sum'] scripted_conseq [OF failed]
        split: result.splits virt_error.splits)
qed

lemma refresh_pool_script:
  "scripted (at_host plan) (refresh_pool (build_connection env (cl_kvm_host plan)) plan)
     (\<lambda>r cs. is_ok r \<and> map fst cs = refresh_commands (conn_uri (build_connection env (cl_kvm_host plan))) plan)"
  unfolding refresh_pool_def clean_log_def virsh_pool_refresh_def refresh_commands_def
  by (auto intro!: scripted_say scripted_ret scripted_warn [OF scripted_run_unit])

lemma clean_run_plan_script:
  fixes env :: "'w env" and plan :: clean_plan
  defines "c \<equiv> build_connection env (cl_kvm_host plan)"
  shows "scripted (at_host plan) (clean_run_plan env plan) (\<lambda>r cs. clean_script (conn_uri c) plan (is_ok r) cs)"
proof -
  have tail: "scripted (at_host plan) (bindA (whenA b (clean_log s)) (\<lambda>_. clean_log t)) (\<lambda>r cs. is_ok r \<and> cs = [])" for b s t
    unfolding clean_log_def by (cases b) (auto intro!: scripted_say scripted_println)
  have rest: "scripted (at_host plan) (bindA (sweep_stragglers c plan) (\<lambda>b. bindA (refresh_pool c plan) (\<lambda>k.
      bindA (whenA (f b k) (clean_log (g b k))) (\<lambda>_. clean_log t))))
      (\<lambda>r cs. (\<not> is_ok r \<and> cs = [(cmd_ls (cl_pool_dir plan), None)])
        \<or> (is_ok r \<and> (\<exists>listing rs. cs = (cmd_ls (cl_pool_dir plan), listing) # rs
            \<and> map fst rs = remove_commands plan (case listing of Some l \<Rightarrow> nonempty_trimmed_lines l | None \<Rightarrow> [])
                @ refresh_commands (conn_uri c) plan)))" for f g t
    by (rule scripted_bind [OF sweep_stragglers_script [of plan env, folded c_def]])
      (auto intro!: scripted_bind [OF refresh_pool_script [of plan env, folded c_def]] scripted_conseq [OF tail])
  show ?thesis
    unfolding clean_run_plan_def Let_def c_def [symmetric]
    by (rule scripted_bind [OF sweep_domains_script [of plan env, folded c_def]])
      (auto intro!: scripted_conseq [OF rest] simp: clean_script_def, (blast | simp)+)
qed

text \<open>The commands it may run at all: two queries; and in a live run the pool refresh, and the
  deletion of domains and files with the \<open>hummingbird-\<close> prefix.\<close>

definition clean_command :: "qemu_ssh_uri \<Rightarrow> clean_plan \<Rightarrow> string \<Rightarrow> bool" where
  "clean_command uri plan cmd \<longleftrightarrow> cmd = cmd_domains uri \<or> cmd = cmd_ls (cl_pool_dir plan)
     \<or> (\<not> cl_dry_run plan \<and> (cmd = cmd_pool_refresh uri (cl_pool_name plan)
         \<or> (\<exists>d. starts_with ''hummingbird-'' d \<and> (cmd = cmd_destroy uri d \<or> cmd = cmd_undefine_storage uri d))
         \<or> (\<exists>n. starts_with ''hummingbird-'' n
               \<and> (ends_with ''.qcow2'' n \<or> ends_with ''-seed.iso'' n \<or> ends_with ''-cloud-init.iso'' n)
               \<and> cmd = cmd_rm_f (pool_path plan n))))"

lemma sweep_commands_ok: "cmd \<in> set (sweep_commands uri plan names) \<Longrightarrow> clean_command uri plan cmd"
  by (auto simp: sweep_commands_def clean_command_def is_hummingbird_domain_def HUMMINGBIRD_PREFIX_def split: if_splits)

lemma remove_commands_ok: "cmd \<in> set (remove_commands plan entries) \<Longrightarrow> clean_command uri plan cmd"
  by (auto simp: remove_commands_def clean_command_def is_straggler_artifact_def HUMMINGBIRD_PREFIX_def
      STRAGGLER_SUFFIXES_def split: if_splits)

lemma refresh_commands_ok: "cmd \<in> set (refresh_commands uri plan) \<Longrightarrow> clean_command uri plan cmd"
  by (auto simp: refresh_commands_def clean_command_def split: if_splits)

lemma script_commands_ok:
  assumes "clean_script uri plan ok cs"
  shows "list_all (clean_command uri plan) (map fst cs)"
proof -
  have q: "clean_command uri plan (cmd_domains uri)" "clean_command uri plan (cmd_ls (cl_pool_dir plan))"
    by (simp_all add: clean_command_def)
  from assms show ?thesis
    unfolding clean_script_def
    by (auto simp: list_all_iff q simp flip: set_map dest: sweep_commands_ok remove_commands_ok refresh_commands_ok
        simp del: set_map)
qed

text \<open>C33. What \<open>hbird clean-vms\<close> does to the host, whatever the host answers: it lists the domains,
  destroys and undefines each listed \<open>hummingbird-*\<close> domain in order and none of the others, lists the
  pool directory, removes exactly its stragglers in sorted order, refreshes the pool; it stops with an
  error only when one of the two listings could not be had, and a dry run does only these
  two. All of it happens on the configured machine.\<close>

theorem clean_vms_exact:
  "\<exists>evs. w_trace (snd (clean_run_plan env plan w)) = w_trace w @ evs
     \<and> list_all (on_host (cl_kvm_host plan)) evs
     \<and> clean_script (conn_uri (build_connection env (cl_kvm_host plan))) plan
         (is_ok (fst (clean_run_plan env plan w))) (calls evs)
     \<and> list_all (clean_command (conn_uri (build_connection env (cl_kvm_host plan))) plan) (map fst (calls evs))"
  using scriptedD [OF clean_run_plan_script prod.collapse [symmetric]] script_commands_ok by metis

end
