(* ===== verification/Destroy_Cluster.thy ===== *)
theory Destroy_Cluster
  imports Teardown
begin

text \<open>
  \<open>hbird destroy-cluster\<close> (\<open>commands/destroy_cluster.rs\<close>): tearing down the control plane and the
  configured workers with their disks, seed images and DHCP reservations, and the scratch
  directory. The configuration is an argument.
\<close>

section \<open>The command\<close>

record destroy_args =
  da_config :: string
  da_kvm_host :: "string option"
  da_no_sudo :: bool
  da_dry_run :: bool

record destroy_plan =
  ds_config_path :: string
  ds_cp_name :: string
  ds_worker_names :: "string list"
  ds_pool_dir :: string
  ds_kvm_host :: "string option"
  ds_dry_run :: bool

definition RESERVATION_NET :: string where "RESERVATION_NET = ''default''"

definition destroy_line :: "string \<Rightarrow> string" where
  "destroy_line line = ''[destroy-cluster] '' @ line"

definition destroy_log :: "string \<Rightarrow> ('w world, 'e, unit) action" where
  "destroy_log line = println (destroy_line line)"

definition destroy_plan_from_args :: "destroy_args \<Rightarrow> cluster_config \<Rightarrow> destroy_plan" where
  "destroy_plan_from_args args config =
     \<lparr>ds_config_path = da_config args, ds_cp_name = cp_name config,
      ds_worker_names = (case worker_names config of Some ws \<Rightarrow> ws | None \<Rightarrow> []),
      ds_pool_dir = pool_dir config,
      ds_kvm_host = (case da_kvm_host args of Some h \<Rightarrow> Some h | None \<Rightarrow> kvm_host config),
      ds_dry_run = da_dry_run args\<rparr>"

definition vms :: "destroy_plan \<Rightarrow> string list" where
  "vms plan = ds_cp_name plan # ds_worker_names plan"

definition artifact_paths :: "destroy_plan \<Rightarrow> string \<Rightarrow> string list" where
  "artifact_paths plan name =
     [ds_pool_dir plan @ ''/'' @ name @ ''.qcow2'', ds_pool_dir plan @ ''/'' @ name @ ''-seed.iso'',
      ds_pool_dir plan @ ''/'' @ name @ ''-cloud-init.iso'']"

definition scratch_dir :: "destroy_plan \<Rightarrow> string" where
  "scratch_dir plan = ds_pool_dir plan @ ''/deploy-cluster''"

definition remove_reservation :: "'w world connection \<Rightarrow> string \<Rightarrow> ('w, nat) act" where
  "remove_reservation conn name =
     matchA (net_dumpxml conn RESERVATION_NET) (\<lambda>r.
       case r of
         Ok net_xml \<Rightarrow>
           (case find_ip_dhcp_host_by_name net_xml name of
              None \<Rightarrow> retA 0
            | Some host_xml \<Rightarrow>
                matchA (net_update_delete_ip_dhcp_host conn RESERVATION_NET host_xml) (\<lambda>d.
                  case d of
                    Ok _ \<Rightarrow> bindA (destroy_log (''removed DHCP reservation on '' @ [SQ] @ RESERVATION_NET @ [SQ]
                              @ '' for '' @ name)) (\<lambda>_. retA 0)
                  | Err e \<Rightarrow> bindA (destroy_log (''WARN: could not remove DHCP reservation for '' @ name @ '': ''
                              @ virt_error_display e)) (\<lambda>_. retA 1)))
       | Err e \<Rightarrow>
           bindA (destroy_log (''WARN: could not read network '' @ [SQ] @ RESERVATION_NET @ [SQ]
             @ '' to check for a DHCP reservation for '' @ name @ '': '' @ virt_error_display e)) (\<lambda>_. retA 0))"

definition remove_artifact :: "'w world connection \<Rightarrow> string \<Rightarrow> ('w, nat) act" where
  "remove_artifact conn path =
     matchA (remote_path_exists conn path) (\<lambda>r.
       case r of
         Ok False \<Rightarrow> retA 0
       | Ok True \<Rightarrow>
           warnA (remote_rm_f conn path) (\<lambda>e. destroy_line (''WARN: could not remove '' @ path @ '': '' @ e
             @ ''. If pre-#305 root-owned, run once as root: sudo rm -f '' @ path))
       | Err e \<Rightarrow>
           bindA (destroy_log (''WARN: could not check existence of '' @ path @ '': '' @ virt_error_display e)) (\<lambda>_. retA 1))"

definition destroy_one :: "'w world connection \<Rightarrow> destroy_plan \<Rightarrow> string \<Rightarrow> ('w, nat) act" where
  "destroy_one conn plan name =
     bindA (matchA (dominfo conn name) (\<lambda>r.
              case r of
                Ok _ \<Rightarrow> retA True
              | Err (VirshFailed c err) \<Rightarrow> retA False
              | Err e \<Rightarrow> failA ((''dominfo probe for '' @ name
                  @ '' failed (transport, not domain-absence)'') # from_virt e))) (\<lambda>exists.
     bindA (if exists then
              bindA (destroy_log (''destroying '' @ name)) (\<lambda>_.
              bindA (warnA (destroy_domain conn name) (\<lambda>e. destroy_line
                (''WARN: virsh destroy returned non-zero for '' @ name @ '': '' @ e))) (\<lambda>a.
              bindA (warnA (undefine_domain conn name) (\<lambda>e. destroy_line
                (''WARN: virsh undefine returned non-zero for '' @ name @ '': '' @ e))) (\<lambda>b.
              bindA (remove_reservation conn name) (\<lambda>c.
              retA (a + b + c)))))
            else bindA (destroy_log (name @ '': no such domain (already torn down)'')) (\<lambda>_. retA 0)) (\<lambda>ws.
     bindA (sumA (artifact_paths plan name) (remove_artifact conn)) (\<lambda>fs.
     retA (ws + fs))))"

definition cleanup_scratch_dir :: "'w world connection \<Rightarrow> destroy_plan \<Rightarrow> ('w, unit) act" where
  "cleanup_scratch_dir conn plan =
     (let scratch = scratch_dir plan in
      matchA (remote_path_exists conn scratch) (\<lambda>r.
        case r of
          Ok False \<Rightarrow> retA ()
        | Err e \<Rightarrow> destroy_log (''WARN: could not check existence of '' @ scratch @ '': '' @ virt_error_display e)
        | Ok True \<Rightarrow>
            bindA (destroy_log (''removing scratch dir '' @ scratch)) (\<lambda>_.
            bindA (warnA (remote_rm_rf conn scratch) (\<lambda>e. destroy_line (''WARN: could not fully remove '' @ scratch
              @ '': '' @ e @ ''. If pre-#305 root-owned, run once as root: sudo rm -rf '' @ scratch))) (\<lambda>_.
            retA ()))))"

definition destroy_dry_run :: "destroy_plan \<Rightarrow> ('w, unit) act" where
  "destroy_dry_run plan =
     bindA (destroy_log (''config: '' @ ds_config_path plan)) (\<lambda>_.
     bindA (destroy_log (''DRY-RUN tearing down cluster defined in '' @ ds_config_path plan)) (\<lambda>_.
     bindA (forA (vms plan) (\<lambda>vm.
              bindA (destroy_log (''DRY-RUN would virsh dominfo '' @ vm @ '' (existence probe)'')) (\<lambda>_.
              bindA (destroy_log (''DRY-RUN if defined: would virsh destroy + undefine --nvram '' @ vm)) (\<lambda>_.
              forA (artifact_paths plan vm) (\<lambda>path. destroy_log (''DRY-RUN would rm -f '' @ path @ '' (if present)'')))))) (\<lambda>_.
     bindA (destroy_log (''DRY-RUN would rm -rf '' @ scratch_dir plan @ '' (if present)'')) (\<lambda>_.
     destroy_log ''DRY-RUN done.''))))"

text \<open>The walk over the machines: a fatal error stops it.\<close>

definition destroy_vm :: "'w world connection \<Rightarrow> destroy_plan \<Rightarrow> string \<Rightarrow> ('w, nat) act" where
  "destroy_vm conn plan vm =
     ctxA (''destroy-cluster aborting on '' @ vm @ '': fatal SSH/transport failure; cluster state unknown ''
       @ [CHR 0xE2, CHR 0x80, CHR 0x94] @ '' check --kvm-host + network reachability before re-running'')
       (destroy_one conn plan vm)"

definition destroy_live :: "'w env \<Rightarrow> destroy_plan \<Rightarrow> ('w, unit) act" where
  "destroy_live env plan =
     (let conn = build_connection env (ds_kvm_host plan) in
      bindA (destroy_log (''config: '' @ ds_config_path plan)) (\<lambda>_.
      bindA (destroy_log (''tearing down cluster defined in '' @ ds_config_path plan)) (\<lambda>_.
      bindA (sumA (vms plan) (destroy_vm conn plan)) (\<lambda>total_warnings.
      bindA (cleanup_scratch_dir conn plan) (\<lambda>_.
      bindA (destroy_log ''done.'') (\<lambda>_.
      if 0 < total_warnings then
        failA [''destroy-cluster: '' @ show_nat total_warnings @ '' step(s) had warnings ''
          @ [CHR 0xE2, CHR 0x80, CHR 0x94] @ '' see WARN log lines above'']
      else retA ()))))))"

definition destroy_run :: "'w env \<Rightarrow> destroy_args \<Rightarrow> (anyhow, cluster_config) result \<Rightarrow> ('w, unit) act" where
  "destroy_run env args config =
     bindA (liftA config) (\<lambda>cfg.
       let plan = destroy_plan_from_args args cfg in
       if ds_dry_run plan then destroy_dry_run plan else destroy_live env plan)"

section \<open>What it runs\<close>

text \<open>The commands for one machine, and for the scratch directory.\<close>

definition vm_command :: "qemu_ssh_uri \<Rightarrow> destroy_plan \<Rightarrow> string \<Rightarrow> string \<Rightarrow> bool" where
  "vm_command uri plan vm cmd \<longleftrightarrow>
     cmd = cmd_dominfo uri vm \<or> cmd = cmd_destroy uri vm \<or> cmd = cmd_undefine uri vm
     \<or> cmd = cmd_net_dumpxml uri ''default''
     \<or> (\<exists>host. starts_with ''<host '' host \<and> contains (''name='' @ [SQ] @ vm @ [SQ]) host
           \<and> cmd = cmd_net_update_delete uri ''default'' host)
     \<or> (\<exists>p \<in> set (artifact_paths plan vm). cmd = cmd_test_e p \<or> cmd = cmd_rm_f p)"

definition destroy_command :: "qemu_ssh_uri \<Rightarrow> destroy_plan \<Rightarrow> string \<Rightarrow> bool" where
  "destroy_command uri plan cmd \<longleftrightarrow>
     (\<exists>vm \<in> set (vms plan). vm_command uri plan vm cmd)
     \<or> cmd = cmd_test_e (scratch_dir plan)
     \<or> (cmd = cmd_rm_rf (scratch_dir plan) \<and> is_ok (reject_destructive_path (scratch_dir plan)))"

text \<open>A machine is gone: it was not defined, or it was destroyed and undefined. A file is removed: it
  was not there, or \<open>rm\<close> succeeded.\<close>

definition gone :: "qemu_ssh_uri \<Rightarrow> call list \<Rightarrow> string \<Rightarrow> bool" where
  "gone uri cs vm \<longleftrightarrow> (cmd_dominfo uri vm, None) \<in> set cs
     \<or> (list_ex (\<lambda>(c, a). c = cmd_destroy uri vm \<and> a \<noteq> None) cs \<and> list_ex (\<lambda>(c, a). c = cmd_undefine uri vm \<and> a \<noteq> None) cs)"

definition removed :: "call list \<Rightarrow> string \<Rightarrow> bool" where
  "removed cs p \<longleftrightarrow> (cmd_test_e p, None) \<in> set cs \<or> list_ex (\<lambda>(c, a). c = cmd_rm_f p \<and> a \<noteq> None) cs"

lemma gone_mono: "gone uri cs vm \<Longrightarrow> set cs \<subseteq> set cs' \<Longrightarrow> gone uri cs' vm"
  unfolding gone_def list_ex_iff by blast

lemma removed_mono: "removed cs p \<Longrightarrow> set cs \<subseteq> set cs' \<Longrightarrow> removed cs' p"
  unfolding removed_def list_ex_iff by blast

definition vm_done :: "qemu_ssh_uri \<Rightarrow> destroy_plan \<Rightarrow> string \<Rightarrow> nat \<Rightarrow> call list \<Rightarrow> bool" where
  "vm_done uri plan vm n cs \<longleftrightarrow> list_all (vm_command uri plan vm) (map fst cs)
     \<and> (n = 0 \<longrightarrow> gone uri cs vm \<and> list_all (removed cs) (artifact_paths plan vm))"

lemma scripted_path_exists:
  "scripted (on_host kvm) (remote_path_exists (build_connection env kvm) p)
     (\<lambda>r cs. \<exists>a. cs = [(cmd_test_e p, a)] \<and> (r = Ok True \<longleftrightarrow> a \<noteq> None))"
  unfolding scripted_def
proof (intro allI impI)
  let ?c = "build_connection env kvm"
  fix w r w'
  assume run: "remote_path_exists ?c p w = (r, w')"
  obtain r1 w1 where c: "conn_ssh ?c (ssh_target (conn_uri ?c)) (cmd_test_e p) w = (r1, w1)"
    by (cases "conn_ssh ?c (ssh_target (conn_uri ?c)) (cmd_test_e p) w")
  with run have "w' = w1" "r = Ok True \<longleftrightarrow> answer r1 \<noteq> None"
    by (auto simp: remote_path_exists_def matchA_def split: result.splits virt_ssh_error.splits if_splits)
  with kvm_call [OF c] show "\<exists>evs. w_trace w' = w_trace w @ evs \<and> list_all (on_host kvm) evs
      \<and> (\<exists>a. calls evs = [(cmd_test_e p, a)] \<and> (r = Ok True \<longleftrightarrow> a \<noteq> None))"
    by (metis append_Nil2 calls_simps(1,3) list.pred_inject on_hostI(1))
qed

definition file_done :: "string \<Rightarrow> nat \<Rightarrow> call list \<Rightarrow> bool" where
  "file_done p n cs \<longleftrightarrow> list_all (\<lambda>c. c = cmd_test_e p \<or> c = cmd_rm_f p) (map fst cs) \<and> (n = 0 \<longrightarrow> removed cs p)"

lemma remove_artifact_script:
  "scripted (on_host kvm) (remove_artifact (build_connection env kvm) p)
     (\<lambda>r cs. \<exists>n. r = Ok n \<and> file_done p n cs)"
proof -
  have rm: "scripted (on_host kvm) (warnA (remote_rm_f (build_connection env kvm) p) line)
      (\<lambda>r cs. \<exists>n a. r = Ok n \<and> cs = [(cmd_rm_f p, a)] \<and> (n = 0 \<longrightarrow> a \<noteq> None))" for line
    unfolding remote_rm_f_def by (rule scripted_warn [OF scripted_run_unit]) auto
  show ?thesis
    unfolding remove_artifact_def destroy_log_def
    by (rule scripted_match [OF scripted_path_exists])
      (auto intro!: scripted_ret scripted_say scripted_conseq [OF rm] simp: removed_def file_done_def split: result.splits bool.splits)
qed

lemma find_host_line:
  "find_ip_dhcp_host_by_name xml vm = Some host \<Longrightarrow>
   starts_with ''<host '' host \<and> contains (''name='' @ [SQ] @ vm @ [SQ]) host"
  unfolding find_ip_dhcp_host_by_name_def by (auto simp: find_Some_iff)

lemma remove_reservation_script:
  fixes env :: "'w env" and kvm :: "string option"
  defines "c \<equiv> build_connection env kvm"
  shows "scripted (on_host kvm) (remove_reservation c vm)
     (\<lambda>r cs. is_ok r \<and> list_all (vm_command (conn_uri c) plan vm) (map fst cs))"
proof -
  have del: "scripted (on_host kvm) (net_update_delete_ip_dhcp_host c ''default'' host)
      (\<lambda>r cs. map fst cs = [cmd_net_update_delete (conn_uri c) ''default'' host])" for host
    unfolding net_update_delete_ip_dhcp_host_def c_def
    by (rule scripted_conseq [OF scripted_run_unit]) auto
  have dump: "scripted (on_host kvm) (net_dumpxml c ''default'') (\<lambda>r cs. map fst cs = [cmd_net_dumpxml (conn_uri c) ''default''])"
    unfolding net_dumpxml_def c_def by (rule scripted_conseq [OF scripted_conn_run]) auto
  show ?thesis
    unfolding remove_reservation_def destroy_log_def RESERVATION_NET_def
    by (rule scripted_match [OF dump])
      (auto intro!: scripted_ret scripted_say scripted_match [OF del] dest!: find_host_line
        simp: list_all_iff vm_command_def split: result.split option.split)
qed

lemma files_done:
  assumes "chunked file_done ps n cs"
  shows "list_all (\<lambda>c. \<exists>p \<in> set ps. c = cmd_test_e p \<or> c = cmd_rm_f p) (map fst cs)
    \<and> (n = 0 \<longrightarrow> list_all (removed cs) ps)"
  using assms
proof (induction ps arbitrary: n cs)
  case (Cons p ps)
  from Cons.prems obtain n1 c m cs' where s: "n = n1 + m" "cs = c @ cs'" "file_done p n1 c" "chunked file_done ps m cs'"
    by auto
  from Cons.IH [OF s(4)] s(1,2,3) show ?case
    by (auto simp: list_all_iff file_done_def intro: removed_mono)
qed auto

lemma probe_script:
  fixes env :: "'w env" and kvm :: "string option"
  defines "c \<equiv> build_connection env kvm"
  shows "scripted (on_host kvm) (matchA (dominfo c vm) (\<lambda>r. case r of Ok _ \<Rightarrow> retA True | Err (VirshFailed x y) \<Rightarrow> retA False
        | Err e \<Rightarrow> failA (s # from_virt e)))
      (\<lambda>r cs. \<exists>a. cs = [(cmd_dominfo (conn_uri c) vm, a)] \<and> (r = Ok False \<longrightarrow> a = None))"
proof -
  have info: "scripted (on_host kvm) (dominfo c vm) (\<lambda>r cs. \<exists>a. cs = [(cmd_dominfo (conn_uri c) vm, a)]
      \<and> (\<forall>x y. r = Err (VirshFailed x y) \<longrightarrow> a = None))"
    unfolding dominfo_def Let_def c_def
    by (rule scripted_bind [OF scripted_conn_run]) (auto simp: scripted_def parse_dominfo_not_failed)
  show ?thesis
    by (rule scripted_match [OF info])
      (auto intro!: scripted_ret scripted_fail split: result.splits virt_error.splits)
qed

lemma tear_script:
  fixes env :: "'w env" and plan :: destroy_plan
  defines "c \<equiv> build_connection env (ds_kvm_host plan)"
  shows "scripted (on_host (ds_kvm_host plan)) (bindA (destroy_log s) (\<lambda>_. bindA (warnA (destroy_domain c vm) l1) (\<lambda>a.
      bindA (warnA (undefine_domain c vm) l2) (\<lambda>b. bindA (remove_reservation c vm) (\<lambda>k. retA (a + b + k))))))
      (\<lambda>r cs. \<exists>n. r = Ok n \<and> list_all (vm_command (conn_uri c) plan vm) (map fst cs) \<and> (n = 0 \<longrightarrow> gone (conn_uri c) cs vm))"
proof -
  have unit: "scripted (on_host (ds_kvm_host plan)) (warnA (run_unit c cmd) line)
      (\<lambda>r cs. \<exists>n a. r = Ok n \<and> cs = [(cmd, a)] \<and> (n = 0 \<longrightarrow> a \<noteq> None))" for cmd line
    unfolding c_def by (rule scripted_warn [OF scripted_run_unit]) auto
  note resv = remove_reservation_script [of "ds_kvm_host plan" env vm plan, folded c_def]
  show ?thesis
    unfolding destroy_log_def destroy_domain_def undefine_domain_def
    by (auto intro!: scripted_say scripted_bind [OF unit] scripted_bind [OF resv] scripted_ret
        simp: vm_command_def gone_def)
qed

lemma files_script:
  "scripted (on_host (ds_kvm_host plan))
     (bindA (sumA (artifact_paths plan vm) (remove_artifact (build_connection env (ds_kvm_host plan)))) (\<lambda>fs. retA (ws + fs)))
     (\<lambda>r cs. \<exists>n. r = Ok n \<and> list_all (vm_command u plan vm) (map fst cs)
        \<and> (n = 0 \<longrightarrow> ws = 0 \<and> list_all (removed cs) (artifact_paths plan vm)))"
proof -
  have "scripted (on_host (ds_kvm_host plan))
      (sumA (artifact_paths plan vm) (remove_artifact (build_connection env (ds_kvm_host plan))))
      (\<lambda>r cs. \<exists>n. r = Ok n \<and> list_all (vm_command u plan vm) (map fst cs)
        \<and> (n = 0 \<longrightarrow> list_all (removed cs) (artifact_paths plan vm)))"
    by (rule scripted_conseq [OF scripted_sum [OF remove_artifact_script]])
      (auto dest!: files_done simp: list_all_iff vm_command_def)
  then show ?thesis by (rule scripted_bind) (auto intro!: scripted_ret)
qed

text \<open>The probe, the teardown and the files make up one machine.\<close>

lemma vm_done_compose:
  assumes "\<not> exists \<longrightarrow> a = None" "list_all (vm_command u plan vm) (map fst cs1)" "list_all (vm_command u plan vm) (map fst cs2)"
    and "ws = 0 \<longrightarrow> exists \<longrightarrow> gone u cs1 vm" "n = 0 \<longrightarrow> ws = 0 \<and> list_all (removed cs2) (artifact_paths plan vm)"
  shows "vm_done u plan vm n ((cmd_dominfo u vm, a) # cs1 @ cs2)"
  unfolding vm_done_def
proof (intro conjI impI)
  show "list_all (vm_command u plan vm) (map fst ((cmd_dominfo u vm, a) # cs1 @ cs2))"
    using assms(2,3) by (simp add: vm_command_def)
next
  assume "n = 0"
  with assms(5) have rs: "ws = 0" "list_all (removed cs2) (artifact_paths plan vm)" by auto
  then show "list_all (removed ((cmd_dominfo u vm, a) # cs1 @ cs2)) (artifact_paths plan vm)"
    by (auto simp: list_all_iff intro: removed_mono)
  show "gone u ((cmd_dominfo u vm, a) # cs1 @ cs2) vm"
  proof (cases exists)
    case True
    with assms(4) rs(1) have "gone u cs1 vm" by blast
    then show ?thesis by (rule gone_mono) auto
  next
    case False
    with assms(1) show ?thesis by (simp add: gone_def)
  qed
qed

lemma destroy_one_script:
  fixes env :: "'w env" and plan :: destroy_plan
  defines "c \<equiv> build_connection env (ds_kvm_host plan)"
  shows "scripted (on_host (ds_kvm_host plan)) (destroy_one c plan vm)
     (\<lambda>r cs. list_all (\<lambda>(cmd, a). vm_command (conn_uri c) plan vm cmd) cs
        \<and> (\<forall>n. r = Ok n \<longrightarrow> vm_done (conn_uri c) plan vm n cs))"
proof -
  let ?V = "on_host (ds_kvm_host plan)" and ?u = "conn_uri c" and ?ok = "\<lambda>cs. list_all (vm_command (conn_uri c) plan vm) (map fst cs)"
  have absent: "scripted ?V (bindA (destroy_log s) (\<lambda>_. retA 0)) (\<lambda>r cs. r = Ok 0 \<and> cs = [])" for s
    unfolding destroy_log_def by (auto intro!: scripted_say scripted_ret)
  have body: "scripted ?V (if exists then bindA (destroy_log s) (\<lambda>_. bindA (warnA (destroy_domain c vm) l1) (\<lambda>a.
      bindA (warnA (undefine_domain c vm) l2) (\<lambda>b. bindA (remove_reservation c vm) (\<lambda>k. retA (a + b + k)))))
      else bindA (destroy_log s') (\<lambda>_. retA 0))
      (\<lambda>r cs. \<exists>n. r = Ok n \<and> ?ok cs \<and> (n = 0 \<longrightarrow> exists \<longrightarrow> gone ?u cs vm))" for exists s s' l1 l2
    by (cases exists) (auto intro!: scripted_conseq [OF tear_script [where env = env and plan = plan, folded c_def]] scripted_conseq [OF absent])
  show ?thesis
    unfolding destroy_one_def
  proof (rule scripted_bind [OF probe_script [of "ds_kvm_host plan" env, folded c_def]], goal_cases)
    case (1 exists cs)
    then obtain a where a: "cs = [(cmd_dominfo ?u vm, a)]" "\<not> exists \<longrightarrow> a = None" by auto
    show ?case
    proof (rule scripted_bind [OF body], goal_cases)
      case (1 ws cs1)
      then have b: "?ok cs1" "ws = 0 \<longrightarrow> exists \<longrightarrow> gone ?u cs1 vm" by auto
      show ?case
      proof (rule scripted_conseq [OF files_script [where env = env and plan = plan, folded c_def]], elim exE conjE)
        fix r :: "(anyhow, nat) result" and cs2 n
        assume n: "r = Ok n" "?ok cs2" "n = 0 \<longrightarrow> ws = 0 \<and> list_all (removed cs2) (artifact_paths plan vm)"
        note d = vm_done_compose [OF a(2) b(1) n(2) b(2) n(3)]
        then have "list_all (\<lambda>(cmd, a). vm_command ?u plan vm cmd) ((cmd_dominfo ?u vm, a) # cs1 @ cs2)"
          unfolding vm_done_def list.pred_map by (auto simp: comp_def split_def)
        with d n(1) a(1) show "list_all (\<lambda>(cmd, a). vm_command ?u plan vm cmd) (cs @ cs1 @ cs2)
            \<and> (\<forall>n. r = Ok n \<longrightarrow> vm_done ?u plan vm n (cs @ cs1 @ cs2))" by simp
      qed
    qed auto
  next
    case 2
    then show ?case by (auto simp: vm_command_def)
  qed
qed

section \<open>The whole command\<close>

lemma vms_done:
  assumes "chunked (vm_done u plan) ws n cs"
  shows "n = 0 \<longrightarrow> list_all (\<lambda>vm. gone u cs vm \<and> list_all (removed cs) (artifact_paths plan vm)) ws"
  using assms
proof (induction ws arbitrary: n cs)
  case (Cons w ws)
  from Cons.prems obtain n1 c m cs' where s: "n = n1 + m" "cs = c @ cs'" "vm_done u plan w n1 c" "chunked (vm_done u plan) ws m cs'"
    by auto
  have "removed cs' p \<Longrightarrow> removed cs p" "removed c p \<Longrightarrow> removed cs p" "gone u cs' v \<Longrightarrow> gone u cs v" "gone u c v \<Longrightarrow> gone u cs v"
    for p v using s(2) by (auto elim: removed_mono gone_mono)
  with Cons.IH [OF s(4)] s(1,3) show ?case by (auto simp: list_all_iff vm_done_def)
qed simp

lemma scratch_script:
  fixes env :: "'w env" and plan :: destroy_plan
  defines "c \<equiv> build_connection env (ds_kvm_host plan)"
  shows "scripted (on_host (ds_kvm_host plan)) (cleanup_scratch_dir c plan)
     (\<lambda>r cs. is_ok r \<and> list_all (destroy_command u plan) (map fst cs))"
proof -
  have rm: "scripted (on_host (ds_kvm_host plan)) (warnA (remote_rm_rf c (scratch_dir plan)) line)
      (\<lambda>r cs. is_ok r \<and> list_all (destroy_command u plan) (map fst cs))" for line
  proof (cases "reject_destructive_path (scratch_dir plan)")
    case (Ok x)
    have "scripted (on_host (ds_kvm_host plan)) (warnA (run_unit c (cmd_rm_rf (scratch_dir plan))) line)
      (\<lambda>r cs. is_ok r \<and> map fst cs = [cmd_rm_rf (scratch_dir plan)])"
      unfolding c_def by (rule scripted_warn [OF scripted_run_unit]) auto
    then show ?thesis
      unfolding remote_rm_rf_def Ok action_simps by (rule scripted_conseq) (auto simp: destroy_command_def Ok)
  next
    case (Err e)
    then show ?thesis
      unfolding remote_rm_rf_def by (auto intro!: scripted_warn [OF scripted_fail [where S = "\<lambda>r cs. \<not> is_ok r \<and> cs = []"]])
  qed
  show ?thesis
    unfolding cleanup_scratch_dir_def Let_def destroy_log_def c_def
    by (rule scripted_match [OF scripted_path_exists])
      (auto intro!: scripted_ret scripted_say scripted_println scripted_bind [OF rm [unfolded c_def]]
        simp: destroy_command_def split: result.split bool.split)
qed

lemma destroy_live_script:
  fixes env :: "'w env" and plan :: destroy_plan
  defines "u \<equiv> conn_uri (build_connection env (ds_kvm_host plan))"
  shows "scripted (on_host (ds_kvm_host plan)) (destroy_live env plan)
     (\<lambda>r cs. list_all (destroy_command u plan) (map fst cs)
        \<and> (r = Ok () \<longrightarrow> list_all (\<lambda>vm. gone u cs vm \<and> list_all (removed cs) (artifact_paths plan vm)) (vms plan)))"
proof -
  let ?c = "build_connection env (ds_kvm_host plan)" and ?V = "on_host (ds_kvm_host plan)"
  have one: "scripted ?V (destroy_vm ?c plan vm) (\<lambda>r cs. list_all (\<lambda>(cmd, a). destroy_command u plan cmd) cs
      \<and> (\<forall>n. r = Ok n \<longrightarrow> vm_done u plan vm n cs))" if "vm \<in> set (vms plan)" for vm
    unfolding destroy_vm_def ctxA_matchA
    by (rule scripted_match [OF destroy_one_script])
      (use that in \<open>auto simp: scripted_def list_all_iff destroy_command_def u_def\<close>)
  have tail: "scripted ?V (bindA (cleanup_scratch_dir ?c plan) (\<lambda>_. bindA (destroy_log s) (\<lambda>_.
      if 0 < n then failA e else retA ())))
      (\<lambda>r cs. list_all (destroy_command u plan) (map fst cs) \<and> (r = Ok () \<longrightarrow> n = 0))" for n :: nat and s e
    unfolding destroy_log_def
    by (rule scripted_bind [OF scratch_script [where u = u]], rule scripted_say)
      (auto simp: scripted_def)
  have mono: "list_all (\<lambda>vm. gone u cs vm \<and> list_all (removed cs) (artifact_paths plan vm)) ws \<Longrightarrow>
      list_all (\<lambda>vm. gone u (cs @ cs') vm \<and> list_all (removed (cs @ cs')) (artifact_paths plan vm)) ws" for cs cs' ws
    using removed_mono [of cs _ "cs @ cs'"] by (auto simp: list_all_iff intro: gone_mono)
  show ?thesis
    unfolding destroy_live_def Let_def
  proof (subst destroy_log_def, rule scripted_say, subst destroy_log_def, rule scripted_say,
      rule scripted_bind [OF scripted_sum_err [OF one]], goal_cases)
    case (2 n cs)
    then have cs: "list_all (destroy_command u plan) (map fst cs)" "chunked (vm_done u plan) (vms plan) n cs"
      by (auto simp: list_all_iff)
    from vms_done [OF cs(2)] mono [of cs] cs(1) show ?case
      by (intro scripted_conseq [OF tail]) auto
  next
    case (3 e cs)
    then show ?case by (auto simp: list_all_iff)
  qed
qed

text \<open>What a teardown touches, on every path and whatever the host answers: it runs commands only on
  the configured machine, and each one is about a machine of this cluster (its domain, its
  three files, a DHCP reservation that names it) or the scratch directory, which is removed only
  when the guard against system directories accepts it.\<close>

theorem destroy_scope:
  "\<exists>evs. w_trace (snd (destroy_live env plan w)) = w_trace w @ evs
     \<and> list_all (on_host (ds_kvm_host plan)) evs
     \<and> list_all (destroy_command (conn_uri (build_connection env (ds_kvm_host plan))) plan) (map fst (calls evs))"
  using scriptedD [OF destroy_live_script prod.collapse [symmetric]] by metis

text \<open>C34. A teardown that reports success is complete: for every machine of the cluster, either the
  host said that the domain is not defined, or both destroying and undefining it succeeded; and
  each of its three files was not there or was removed.\<close>

theorem destroy_success_complete:
  assumes "destroy_live env plan w = (Ok (), w')"
  shows "\<exists>evs. w_trace w' = w_trace w @ evs
     \<and> list_all (\<lambda>vm. gone (conn_uri (build_connection env (ds_kvm_host plan))) (calls evs) vm
          \<and> list_all (removed (calls evs)) (artifact_paths plan vm)) (vms plan)"
  using scriptedD [OF destroy_live_script assms] by metis

lemma destroy_dry_quiet: "da_dry_run args \<Longrightarrow> quiet (destroy_run env args config)"
  unfolding destroy_run_def destroy_dry_run_def destroy_plan_from_args_def destroy_log_def Let_def
  by (auto intro!: quiet_bind quiet_for quiet_emit quiet_pure)

text \<open>A host on which every command exits with status 1: no domain and no file is there.\<close>

definition empty_host :: "unit env" where
  "empty_host = \<lparr>env_ssh = (\<lambda>opts c _ x. (Err (NonZeroExit [] (Exited 1) [] []), x)),
     env_sh = (\<lambda>_ x. (Err NotFound, x)), env_sleep = (\<lambda>_ x. x)\<rparr>"

definition demo_destroy :: destroy_plan where
  "demo_destroy = \<lparr>ds_config_path = ''c'', ds_cp_name = ''cp1'', ds_worker_names = [''w1''], ds_pool_dir = ''/pool'',
     ds_kvm_host = Some ''h'', ds_dry_run = False\<rparr>"

theorem destroy_success_complete_witness:
  "fst (destroy_live empty_host demo_destroy \<lparr>w_ext = (), w_trace = []\<rparr>) = Ok ()
   \<and> list_all (gone (conn_uri (build_connection empty_host (Some ''h''))) (calls (w_trace (snd (destroy_live empty_host demo_destroy \<lparr>w_ext = (), w_trace = []\<rparr>)))))
       [''cp1'', ''w1'']"
proof -
  let ?run = "destroy_live empty_host demo_destroy \<lparr>w_ext = (), w_trace = []\<rparr>"
  have ok: "fst ?run = Ok ()"
    by (simp add: destroy_live_def demo_destroy_def vms_def destroy_vm_def destroy_one_def artifact_paths_def
      remove_artifact_def cleanup_scratch_dir_def scratch_dir_def dominfo_def conn_run_def remote_path_exists_def
      build_connection_def bridge_run_def ssh_run_def ssh_run_in_def empty_host_def destroy_log_def emit_def
      bindA_def matchA_def ctxA_def Let_def del: append.simps)
  then have "?run = (Ok (), snd ?run)" by (simp add: prod_eq_iff)
  from destroy_success_complete [OF this] ok show ?thesis
    by (auto simp: demo_destroy_def vms_def)
qed

end
