(* ===== verification/Sha256.thy ===== *)
theory Sha256
  imports Prelude "HOL-Library.Word"
begin

text \<open>
  \<open>sha256_hex\<close> of \<open>commands/deploy_cluster.rs\<close>, on 32-bit words with the wrap-around the code asks
  for (\<open>wrapping_add\<close>), and the digest of FIPS 180-4 it is meant to compute. The code works in
  place: it pads by pushing zeros in a loop, keeps one 64-word array for the message schedule
  across the blocks and overwrites it, and updates eight variables. The standard states the
  padding as the least number of zeros, the schedule as a recurrence and the digest block by
  block.
\<close>

unbundle bit_operations_syntax

type_synonym u32 = "32 word"
type_synonym byte = "8 word"
type_synonym sha_state = "u32 \<times> u32 \<times> u32 \<times> u32 \<times> u32 \<times> u32 \<times> u32 \<times> u32"

section \<open>The code\<close>

definition sha_K :: "u32 list" where
  "sha_K = concat [
    [0x428a2f98, 0x71374491, 0xb5c0fbcf, 0xe9b5dba5, 0x3956c25b, 0x59f111f1, 0x923f82a4],
    [0xab1c5ed5, 0xd807aa98, 0x12835b01, 0x243185be, 0x550c7dc3, 0x72be5d74, 0x80deb1fe],
    [0x9bdc06a7, 0xc19bf174, 0xe49b69c1, 0xefbe4786, 0x0fc19dc6, 0x240ca1cc, 0x2de92c6f],
    [0x4a7484aa, 0x5cb0a9dc, 0x76f988da, 0x983e5152, 0xa831c66d, 0xb00327c8, 0xbf597fc7],
    [0xc6e00bf3, 0xd5a79147, 0x06ca6351, 0x14292967, 0x27b70a85, 0x2e1b2138, 0x4d2c6dfc],
    [0x53380d13, 0x650a7354, 0x766a0abb, 0x81c2c92e, 0x92722c85, 0xa2bfe8a1, 0xa81a664b],
    [0xc24b8b70, 0xc76c51a3, 0xd192e819, 0xd6990624, 0xf40e3585, 0x106aa070, 0x19a4c116],
    [0x1e376c08, 0x2748774c, 0x34b0bcb5, 0x391c0cb3, 0x4ed8aa4a, 0x5b9cca4f, 0x682e6ff3],
    [0x748f82ee, 0x78a5636f, 0x84c87814, 0x8cc70208, 0x90befffa, 0xa4506ceb, 0xbef9a3f7],
    [0xc67178f2]]"

definition sha_H0 :: sha_state where
  "sha_H0 = (0x6a09e667, 0xbb67ae85, 0x3c6ef372, 0xa54ff53a, 0x510e527f, 0x9b05688c, 0x1f83d9ab,
    0x5be0cd19)"

text \<open>\<open>while msg.len() % 64 != 56 { msg.push(0) }\<close>. \<open>zeros_left\<close> is the number of rounds to go.\<close>

definition zeros_left :: "nat \<Rightarrow> nat" where
  "zeros_left n = (let r = n mod 64 in if r \<le> 56 then 56 - r else 120 - r)"

lemma zeros_left_Suc: "n mod 64 \<noteq> 56 \<Longrightarrow> zeros_left n = Suc (zeros_left (Suc n))"
  by (auto simp: zeros_left_def Let_def mod_Suc)

function sha_push_zeros :: "byte list \<Rightarrow> byte list" where
  "sha_push_zeros msg = (if length msg mod 64 \<noteq> 56 then sha_push_zeros (msg @ [0]) else msg)"
  by pat_completeness auto
termination
  by (relation "measure (\<lambda>msg. zeros_left (length msg))") (auto simp: zeros_left_Suc)

declare sha_push_zeros.simps [simp del]

definition be_bytes :: "64 word \<Rightarrow> byte list" where
  "be_bytes x = map (\<lambda>k. ucast (drop_bit (8 * k) x)) [7, 6, 5, 4, 3, 2, 1, 0]"

definition sha_pad :: "byte list \<Rightarrow> byte list" where
  "sha_pad data =
     (let bit_len = of_nat (length data) * 8 :: 64 word in sha_push_zeros (data @ [0x80]) @ be_bytes bit_len)"

text \<open>\<open>chunks_exact\<close>: the rest that does not fill a chunk is dropped.\<close>

function chunks_exact :: "nat \<Rightarrow> 'a list \<Rightarrow> 'a list list" where
  "chunks_exact n xs = (if n = 0 \<or> length xs < n then [] else take n xs # chunks_exact n (drop n xs))"
  by pat_completeness auto
termination
  by (relation "measure (\<lambda>(n, xs). length xs)") auto

declare chunks_exact.simps [simp del]

definition from_be_bytes :: "byte list \<Rightarrow> u32" where
  "from_be_bytes b =
     push_bit 24 (ucast (b ! 0)) OR push_bit 16 (ucast (b ! 1)) OR push_bit 8 (ucast (b ! 2)) OR ucast (b ! 3)"

definition sha_load :: "u32 list \<Rightarrow> byte list \<Rightarrow> u32 list" where
  "sha_load w chunk = foldl (\<lambda>w (i, b). w[i := from_be_bytes b]) w (enumerate 0 (chunks_exact 4 chunk))"

definition sha_small0 :: "u32 \<Rightarrow> u32" where
  "sha_small0 x = word_rotr 7 x XOR word_rotr 18 x XOR drop_bit 3 x"

definition sha_small1 :: "u32 \<Rightarrow> u32" where
  "sha_small1 x = word_rotr 17 x XOR word_rotr 19 x XOR drop_bit 10 x"

definition sha_extend_step :: "u32 list \<Rightarrow> nat \<Rightarrow> u32 list" where
  "sha_extend_step w i =
     (let s0 = sha_small0 (w ! (i - 15)); s1 = sha_small1 (w ! (i - 2)) in
      w[i := w ! (i - 16) + s0 + w ! (i - 7) + s1])"

definition sha_extend :: "u32 list \<Rightarrow> u32 list" where
  "sha_extend w = foldl sha_extend_step w [16..<64]"

text \<open>One round, from the constant and the schedule word of the round.\<close>

definition sha_mix :: "u32 \<Rightarrow> u32 \<Rightarrow> sha_state \<Rightarrow> sha_state" where
  "sha_mix k w = (\<lambda>(a, b, c, d, e, f, g, hh).
     let s1 = word_rotr 6 e XOR word_rotr 11 e XOR word_rotr 25 e;
         ch = (e AND f) XOR (NOT e AND g);
         t1 = hh + s1 + ch + k + w;
         s0 = word_rotr 2 a XOR word_rotr 13 a XOR word_rotr 22 a;
         maj = (a AND b) XOR (a AND c) XOR (b AND c);
         t2 = s0 + maj
     in (t1 + t2, a, b, c, d + t1, e, f, g))"

definition sha_round :: "u32 list \<Rightarrow> sha_state \<Rightarrow> nat \<Rightarrow> sha_state" where
  "sha_round w st i = sha_mix (sha_K ! i) (w ! i) st"

definition sha_add :: "sha_state \<Rightarrow> sha_state \<Rightarrow> sha_state" where
  "sha_add = (\<lambda>(a, b, c, d, e, f, g, h) (a', b', c', d', e', f', g', h').
     (a + a', b + b', c + c', d + d', e + e', f + f', g + g', h + h'))"

text \<open>The body of the loop over the blocks; the schedule array is kept from block to block.\<close>

definition sha_block :: "u32 list \<times> sha_state \<Rightarrow> byte list \<Rightarrow> u32 list \<times> sha_state" where
  "sha_block = (\<lambda>(w, h) chunk.
     let w = sha_extend (sha_load w chunk) in (w, sha_add h (foldl (sha_round w) h [0..<64])))"

definition hex8 :: "u32 \<Rightarrow> string" where
  "hex8 x = map (\<lambda>k. hex_char (unat (drop_bit (4 * k) x AND 15))) [7, 6, 5, 4, 3, 2, 1, 0]"

definition sha_hex :: "sha_state \<Rightarrow> string" where
  "sha_hex = (\<lambda>(a, b, c, d, e, f, g, h). concat (map hex8 [a, b, c, d, e, f, g, h]))"

text \<open>\<open>str::as_bytes\<close>.\<close>

definition as_bytes :: "string \<Rightarrow> byte list" where
  "as_bytes = map (\<lambda>c. of_nat (of_char c))"

definition sha256_hex :: "byte list \<Rightarrow> string" where
  "sha256_hex data =
     sha_hex (snd (foldl sha_block (replicate 64 0, sha_H0) (chunks_exact 64 (sha_pad data))))"

section \<open>The standard\<close>

text \<open>FIPS 180-4, section 5.1.1 (padding), 6.2.2 (schedule and compression). All lengths are in
  bytes: the standard's bits of a byte string.\<close>

definition fips_pad :: "byte list \<Rightarrow> byte list" where
  "fips_pad m =
     m @ [0x80] @ replicate (LEAST k. (length m + 1 + k) mod 64 = 56) 0 @ be_bytes (of_nat (8 * length m))"

fun fips_W :: "byte list \<Rightarrow> nat \<Rightarrow> u32" where
  "fips_W M t =
     (if t < 16 then from_be_bytes (take 4 (drop (4 * t) M))
      else sha_small1 (fips_W M (t - 2)) + fips_W M (t - 7) + sha_small0 (fips_W M (t - 15)) + fips_W M (t - 16))"

declare fips_W.simps [simp del]

primrec fips_rounds :: "byte list \<Rightarrow> sha_state \<Rightarrow> nat \<Rightarrow> sha_state" where
  "fips_rounds M H 0 = H"
| "fips_rounds M H (Suc t) = sha_mix (sha_K ! t) (fips_W M t) (fips_rounds M H t)"

text \<open>The digest after the first \<open>N\<close> blocks of the padded message.\<close>

primrec fips_hash :: "byte list \<Rightarrow> nat \<Rightarrow> sha_state" where
  "fips_hash P 0 = sha_H0"
| "fips_hash P (Suc N) = sha_add (fips_hash P N) (fips_rounds (take 64 (drop (64 * N) P)) (fips_hash P N) 64)"

definition fips_sha256 :: "byte list \<Rightarrow> string" where
  "fips_sha256 m = (let P = fips_pad m in sha_hex (fips_hash P (length P div 64)))"

section \<open>Padding\<close>

lemma sha_push_zeros_eq: "sha_push_zeros msg = msg @ replicate (zeros_left (length msg)) 0"
proof (induction msg rule: sha_push_zeros.induct)
  case (1 msg)
  show ?case
  proof (cases "length msg mod 64 = 56")
    case True
    then show ?thesis by (subst sha_push_zeros.simps) (simp add: zeros_left_def)
  next
    case False
    then show ?thesis
      by (subst sha_push_zeros.simps) (simp add: "1.IH" zeros_left_Suc)
  qed
qed

lemma zeros_left_mod: "(n + zeros_left n) mod 64 = 56"
proof -
  have "(n mod 64 + zeros_left n) mod 64 = 56"
  proof (cases "n mod 64 \<le> 56")
    case True
    then show ?thesis by (simp add: zeros_left_def)
  next
    case False
    moreover have "n mod 64 < 64" by simp
    ultimately show ?thesis by (simp add: zeros_left_def)
  qed
  then show ?thesis by (simp add: mod_add_left_eq)
qed

lemma zeros_left_less: "k < zeros_left n \<Longrightarrow> (n + k) mod 64 \<noteq> 56"
proof (induction k arbitrary: n)
  case 0
  then show ?case by (auto simp: zeros_left_def)
next
  case (Suc k)
  then have "n mod 64 \<noteq> 56" by (auto simp: zeros_left_def)
  with Suc.prems have "k < zeros_left (Suc n)" by (simp add: zeros_left_Suc)
  from Suc.IH [OF this] show ?case by simp
qed

lemma zeros_left_least: "(LEAST k. (n + k) mod 64 = 56) = zeros_left n"
  by (rule Least_equality) (use zeros_left_mod zeros_left_less in \<open>auto simp: not_less [symmetric]\<close>)

lemma sha_pad_fips: "sha_pad data = fips_pad data"
  by (simp add: sha_pad_def fips_pad_def sha_push_zeros_eq zeros_left_least [of "Suc (length data)", simplified]
      mult.commute)

lemma fips_pad_length: "length (fips_pad m) mod 64 = 0"
proof -
  have "length (fips_pad m) = Suc (length m) + zeros_left (Suc (length m)) + 8"
    by (simp add: fips_pad_def be_bytes_def zeros_left_least [of "Suc (length m)", simplified])
  moreover have "(Suc (length m) + zeros_left (Suc (length m)) + 8) mod 64 = (56 + 8) mod 64"
    by (metis zeros_left_mod mod_add_left_eq)
  ultimately show ?thesis by simp
qed

section \<open>Blocks\<close>

lemma chunks_exact_eq:
  assumes "0 < n"
  shows "chunks_exact n xs = map (\<lambda>i. take n (drop (n * i) xs)) [0..<length xs div n]"
  using assms
proof (induction n xs rule: chunks_exact.induct)
  case (1 n xs)
  show ?case
  proof (cases "length xs < n")
    case True
    then show ?thesis by (subst chunks_exact.simps) simp
  next
    case False
    have "chunks_exact n (drop n xs) = map (\<lambda>i. take n (drop (n * i) (drop n xs))) [0..<(length xs - n) div n]"
      using "1.IH" "1.prems" False by simp
    moreover have "length xs div n = Suc ((length xs - n) div n)"
      using False "1.prems" by (simp add: div_if)
    ultimately show ?thesis
      using False "1.prems"
      by (subst chunks_exact.simps) (simp add: upt_conv_Cons map_Suc_upt [symmetric] comp_def add.commute del: upt_Suc)
  qed
qed

lemma foldl_update_enumerate:
  "k + length bs \<le> length w \<Longrightarrow>
   foldl (\<lambda>w (i, b). w[i := f b]) w (enumerate k bs) = take k w @ map f bs @ drop (k + length bs) w"
proof (induction bs arbitrary: k w)
  case Nil
  then show ?case by simp
next
  case (Cons b bs)
  then have "foldl (\<lambda>w (i, b). w[i := f b]) w (enumerate k (b # bs))
      = take (Suc k) (w[k := f b]) @ map f bs @ drop (Suc k + length bs) (w[k := f b])"
    by simp
  also have "take (Suc k) (w[k := f b]) = take k w @ [f b]"
    using Cons.prems by (simp add: take_Suc_conv_app_nth)
  finally show ?case by simp
qed

lemma sha_load_eq:
  assumes "length w = 64" "length M = 64"
  shows "sha_load w M = map (fips_W M) [0..<16] @ drop 16 w"
proof -
  have "map from_be_bytes (chunks_exact 4 M) = map (fips_W M) [0..<16]"
    using assms(2) by (simp add: chunks_exact_eq fips_W.simps)
  then show ?thesis
    using assms by (simp add: sha_load_def foldl_update_enumerate chunks_exact_eq)
qed

lemma sha_extend_upto:
  assumes "length w = 64" "\<And>i. i < 16 \<Longrightarrow> w ! i = fips_W M i" "16 \<le> n" "n \<le> 64"
  defines "r \<equiv> foldl sha_extend_step w [16..<n]"
  shows "length r = 64 \<and> (\<forall>i < n. r ! i = fips_W M i)"
  unfolding r_def using assms(3,4)
proof (induction n rule: dec_induct)
  case base
  then show ?case using assms by simp
next
  case (step n)
  define v where "v = foldl sha_extend_step w [16..<n]"
  from step have v: "length v = 64" "\<And>i. i < n \<Longrightarrow> v ! i = fips_W M i"
    by (simp_all add: v_def)
  have "sha_extend_step v n = v[n := fips_W M n]"
    using step v by (simp add: sha_extend_step_def fips_W.simps [of M n] ac_simps)
  then have "foldl sha_extend_step w [16..<Suc n] = v[n := fips_W M n]"
    using step by (simp add: v_def)
  then show ?case
    using step.prems v by (simp only:) (auto simp: nth_list_update less_Suc_eq)
qed

lemma schedule_eq:
  assumes "length w = 64" "length M = 64"
  shows "sha_extend (sha_load w M) = map (fips_W M) [0..<64]"
proof -
  let ?w = "sha_load w M"
  have "length ?w = 64" "\<And>i. i < 16 \<Longrightarrow> ?w ! i = fips_W M i"
    using assms by (simp_all add: sha_load_eq nth_append)
  from sha_extend_upto [OF this, of 64] show ?thesis
    by (intro nth_equalityI) (simp_all add: sha_extend_def)
qed

lemma rounds_eq: "n \<le> 64 \<Longrightarrow> foldl (sha_round (map (fips_W M) [0..<64])) h [0..<n] = fips_rounds M h n"
  by (induction n) (simp_all add: sha_round_def)

lemma sha_block_eq:
  assumes "length w = 64" "length M = 64"
  shows "sha_block (w, h) M = (map (fips_W M) [0..<64], sha_add h (fips_rounds M h 64))"
  using assms by (simp add: sha_block_def schedule_eq rounds_eq Let_def del: upt_rec_numeral)

lemma sha_blocks_eq:
  assumes "64 * N \<le> length P"
  defines "r \<equiv> foldl sha_block (replicate 64 0, sha_H0) (map (\<lambda>i. take 64 (drop (64 * i) P)) [0..<N])"
  shows "length (fst r) = 64 \<and> snd r = fips_hash P N"
  unfolding r_def using assms(1)
proof (induction N)
  case 0
  then show ?case by simp
next
  case (Suc N)
  let ?r = "foldl sha_block (replicate 64 0, sha_H0) (map (\<lambda>i. take 64 (drop (64 * i) P)) [0..<N])"
  from Suc have "length (fst ?r) = 64" "snd ?r = fips_hash P N" by simp_all
  then obtain w where r: "?r = (w, fips_hash P N)" "length w = 64"
    by (cases ?r) auto
  have M: "length (take 64 (drop (64 * N) P)) = 64" using Suc.prems by simp
  show ?case
    using sha_block_eq [OF r(2) M] by (simp add: r(1))
qed

section \<open>The digest\<close>


lemma hex_char_hexdigit: "n < 16 \<Longrightarrow> is_ascii_hexdigit (hex_char n)"
  by (auto simp: hex_char_def less_Suc_eq numeral_eq_Suc is_ascii_hexdigit_def is_ascii_digit_def)

lemma nibble_bound: "unat (x AND 15 :: u32) < 16"
  using word_and_le1 [of x 15] by (simp add: word_le_nat_alt)

lemma hex8_hexdigits: "list_all is_ascii_hexdigit (hex8 x)"
  by (simp add: hex8_def hex_char_hexdigit nibble_bound)

lemma sha256_hex_hexdigits: "list_all is_ascii_hexdigit (sha256_hex data)"
  by (simp add: sha256_hex_def sha_hex_def hex8_hexdigits split: prod.splits)

lemma length_sha256_hex: "length (sha256_hex data) = 64"
  by (simp add: sha256_hex_def sha_hex_def hex8_def split: prod.splits)

end
