(* ===== verification/Cache.thy ===== *)
theory Cache
  imports Action Sha256
begin

text \<open>
  \<open>cache.rs\<close>: when a built disk image may be used again, and whether a pulled image reflects the
  sources. The decisions are pure functions; the lookups (a file, \<open>podman\<close>, \<open>git\<close>) are actions on
  the local machine.
\<close>

section \<open>Build identifiers\<close>

definition fnv_step :: "64 word \<Rightarrow> byte \<Rightarrow> 64 word" where
  "fnv_step h b = (h XOR ucast b) * 1099511628211"

definition fnv1a_64 :: "byte list \<Rightarrow> 64 word" where
  "fnv1a_64 data = foldl fnv_step 14695981039346656037 data"

text \<open>\<open>{:012x}\<close> of the low 48 bits.\<close>

definition hex12 :: "64 word \<Rightarrow> string" where
  "hex12 x = map (\<lambda>k. hex_char (unat (drop_bit (4 * k) x AND 15))) [11, 10, 9, 8, 7, 6, 5, 4, 3, 2, 1, 0]"

definition containerfile_hash :: "'w host \<Rightarrow> string \<Rightarrow> ('w world, 'e, string option) action" where
  "containerfile_hash host path =
     bindA (read_file host path) (\<lambda>contents.
     retA (map_option (\<lambda>c. hex12 (fnv1a_64 (as_bytes c) AND 0x0000ffffffffffff)) contents))"

definition build_id :: "string \<Rightarrow> string \<Rightarrow> string option" where
  "build_id source i = (if i = [] then None else Some (source @ '':'' @ i))"

definition sidecar_path :: "string \<Rightarrow> string" where
  "sidecar_path qcow = qcow @ ''.build-ref''"

definition read_sidecar :: "'w host \<Rightarrow> string \<Rightarrow> ('w world, 'e, string option) action" where
  "read_sidecar host qcow =
     bindA (read_file host (sidecar_path qcow)) (\<lambda>raw.
     retA (case raw of
             None \<Rightarrow> None
           | Some r \<Rightarrow> (let trimmed = trim r in if trimmed = [] then None else Some trimmed)))"

section \<open>The decision on a disk image\<close>

datatype cache_assess_result = Reuse | Rebuild | StrictFail

definition source_prefix :: "string \<Rightarrow> string" where
  "source_prefix s = hd (split_on (CHR '':'') s)"

definition assess_qcow2_cache :: "string option \<Rightarrow> string option \<Rightarrow> bool \<Rightarrow> cache_assess_result" where
  "assess_qcow2_cache cached_ref expected_ref strict =
     (case (cached_ref, expected_ref) of
        (Some cached, Some expected) \<Rightarrow>
          if cached = [] \<or> expected = [] then (if strict then StrictFail else Reuse)
          else if source_prefix cached \<noteq> source_prefix expected then Reuse
          else if cached = expected then Reuse
          else if strict then StrictFail else Rebuild
      | _ \<Rightarrow> if strict then StrictFail else Reuse)"

section \<open>Pulled images\<close>

datatype image_freshness = InSync | Drifted | Unverifiable

datatype ghcr_assess_result = Fresh | Warn string | GhcrStrictFail string

definition assess_ghcr_image ::
  "image_freshness \<Rightarrow> string \<Rightarrow> string \<Rightarrow> string \<Rightarrow> bool \<Rightarrow> ghcr_assess_result" where
  "assess_ghcr_image freshness label vcs_ref containerfiles strict =
     (case freshness of
        InSync \<Rightarrow> Fresh
      | Drifted \<Rightarrow>
          if strict then
            GhcrStrictFail (''pulled '' @ label @ '' (vcs-ref '' @ vcs_ref @ '') predates on-disk '' @ containerfiles
              @ '' '' @ EM_DASH @ '' STRICT_CACHE=1 refuses a stale boot-test. Rebuild from source: ''
              @ ''IMAGE_SOURCE=local FORCE_REBUILD=1.'')
          else
            Warn (''WARN: pulled '' @ label @ '' (vcs-ref '' @ vcs_ref @ '') does NOT reflect on-disk '' @ containerfiles
              @ ''; this deploy tests the PUBLISHED image, not your local change. ''
              @ ''Use IMAGE_SOURCE=local FORCE_REBUILD=1 to test local edits. (#373)'')
      | Unverifiable \<Rightarrow>
          if strict then
            GhcrStrictFail (''cannot prove freshness under STRICT_CACHE=1; rebuild with FORCE_REBUILD=1. ''
              @ ''(Freshness needs the repo: run from a checkout or pass --repo-root.)'')
          else Fresh)"

definition REVISION_FORMAT :: string where
  "REVISION_FORMAT = ''{{ index .Config.Labels '' @ [CHR 0x22] @ ''org.opencontainers.image.revision'' @ [CHR 0x22] @ '' }}''"

definition image_vcs_ref :: "'w host \<Rightarrow> string \<Rightarrow> ('w world, 'e, string option) action" where
  "image_vcs_ref host img =
     matchA (proc_run host None [''podman'', ''image'', ''inspect'', ''--format'', REVISION_FORMAT, img]) (\<lambda>r.
       case r of
         Err _ \<Rightarrow> retA None
       | Ok out \<Rightarrow>
           if \<not> exit_success (ro_status out) then retA None
           else let s = trim (ro_stdout out) in
             if s = [] \<or> s = ''<no value>'' then retA None else retA (Some s))"

text \<open>The closure \<open>git\<close>: a run that exits with status 0.\<close>

definition git_ok :: "'w host \<Rightarrow> string \<Rightarrow> string list \<Rightarrow> ('w world, 'e, bool) action" where
  "git_ok host repo_root args =
     matchA (proc_run host (Some repo_root) (''git'' # args)) (\<lambda>r.
       retA (case r of Ok out \<Rightarrow> exit_success (ro_status out) | Err _ \<Rightarrow> False))"

definition containerfile_changed_since ::
  "'w host \<Rightarrow> string \<Rightarrow> string \<Rightarrow> string list \<Rightarrow> ('w world, 'e, image_freshness) action" where
  "containerfile_changed_since host repo_root vcs_ref containerfiles =
     (if vcs_ref = [] then retA Unverifiable
      else
        bindA (git_ok host repo_root [''rev-parse'', ''--is-inside-work-tree'']) (\<lambda>inside.
        if \<not> inside then retA Unverifiable
        else
          bindA (git_ok host repo_root [''cat-file'', ''-e'', vcs_ref @ ''^{commit}'']) (\<lambda>known.
          if \<not> known then retA Unverifiable
          else
            bindA (git_ok host repo_root ([''diff'', ''--quiet'', vcs_ref, ''--''] @ containerfiles)) (\<lambda>same.
            retA (if same then InSync else Drifted)))))"

section \<open>The policy\<close>

text \<open>Two build identifiers contradict each other: both known, from the same source, different.\<close>

definition confirmed_stale :: "string option \<Rightarrow> string option \<Rightarrow> bool" where
  "confirmed_stale c e \<longleftrightarrow>
     (\<exists>x y. filled c = Some x \<and> filled e = Some y \<and> source_prefix x = source_prefix y \<and> x \<noteq> y)"

definition unverifiable :: "string option \<Rightarrow> string option \<Rightarrow> bool" where
  "unverifiable c e \<longleftrightarrow> filled c = None \<or> filled e = None"

lemma assess_qcow2_cache_policy:
  "assess_qcow2_cache c e False = (if confirmed_stale c e then Rebuild else Reuse)"
  "assess_qcow2_cache c e True = (if confirmed_stale c e \<or> unverifiable c e then StrictFail else Reuse)"
  by (auto simp: assess_qcow2_cache_def confirmed_stale_def unverifiable_def filled_def split: option.splits)

lemma build_id_source: "source_prefix (source @ CHR '':'' # i) = source" if "CHR '':'' \<notin> set source"
  using that by (simp add: source_prefix_def split_on_append)

text \<open>Identifiers of one source contradict each other exactly when the revisions differ.\<close>

lemma confirmed_stale_build_id:
  assumes "CHR '':'' \<notin> set source"
  shows "confirmed_stale (build_id source i) (build_id source j) \<longleftrightarrow> i \<noteq> [] \<and> j \<noteq> [] \<and> i \<noteq> j"
  by (auto simp: confirmed_stale_def build_id_def filled_def build_id_source [OF assms])

end
