(* ===== verification/Deploy_Plan.thy ===== *)
theory Deploy_Plan
  imports Config Cache
begin

text \<open>
  The arguments and the plan of \<open>hbird deploy-cluster\<close> (\<open>commands/deploy_cluster.rs\<close>), with the search
  for the repository root. What the program reads of the local machine (the current directory,
  the answer of \<open>git rev-parse\<close>, which directories hold the repository's markers) is the record
  \<open>local_repo\<close>; paths are their text.
\<close>

section \<open>Arguments and plan\<close>

record deploy_args =
  dga_config :: string
  dga_kvm_host :: "string option"
  dga_no_sudo :: bool
  dga_dry_run :: bool
  dga_bib :: string
  dga_podman_root :: "string option"
  dga_podman_runroot :: "string option"
  dga_storage_driver :: "string option"
  dga_force_rebuild :: bool
  dga_strict_cache :: bool
  dga_repo_root :: "string option"
  dga_cp_ready_retries :: nat
  dga_cp_ready_sleep_secs :: nat
  dga_token_ttl :: string

record deploy_plan =
  dp_config_path :: string
  dp_cp_name :: string
  dp_worker_names :: "string list"
  dp_image_source :: string
  dp_ghcr_tag :: string
  dp_cp_memory :: nat
  dp_cp_vcpus :: nat
  dp_worker_memory :: nat
  dp_worker_vcpus :: nat
  dp_pool_dir :: string
  dp_run_verify :: bool
  dp_auto_update_cp :: bool
  dp_switch_to_ghcr :: bool
  dp_enable_cloud_init :: nat
  dp_ssh_pubkey_file :: string
  dp_kvm_host :: "string option"
  dp_no_sudo :: bool
  dp_dry_run :: bool
  dp_bib :: string
  dp_podman_root :: "string option"
  dp_podman_runroot :: "string option"
  dp_storage_driver :: "string option"
  dp_force_rebuild :: bool
  dp_strict_cache :: bool
  dp_repo_root :: string
  dp_bootc_update_schedule :: "string option"
  dp_bootc_update_repo_k8s :: "string option"
  dp_bootc_update_repo_worker :: "string option"
  dp_pod_cidr :: "string option"
  dp_service_cidr :: "string option"
  dp_cp_ip :: "string option"
  dp_worker_ips :: "string list option"
  dp_cp_mac :: "string option"
  dp_worker_macs :: "string list option"
  dp_extra_network :: "string option"
  dp_extra_net_cp_mac :: "string option"
  dp_extra_net_cp_ip :: "string option"
  dp_extra_net_worker_macs :: "string list option"
  dp_extra_net_worker_ips :: "string list option"
  dp_cp_ready_retries :: nat
  dp_cp_ready_sleep_secs :: nat
  dp_token_ttl :: string

section \<open>The repository root\<close>

record local_repo =
  lr_markers :: "string \<Rightarrow> bool"
  lr_git :: "(io_error, run_output) result"
  lr_cwd :: "string option"

text \<open>\<open>Path::parent\<close> of an absolute path: its components less the last; the root has none.\<close>

definition path_components :: "string \<Rightarrow> string list" where
  "path_components p = filter (\<lambda>c. c \<noteq> [] \<and> c \<noteq> ''.'') (split_on (CHR ''/'') p)"

definition path_of :: "string list \<Rightarrow> string" where
  "path_of cs = ''/'' @ join ''/'' cs"

definition path_parent :: "string \<Rightarrow> string option" where
  "path_parent p =
     (case path_components p of [] \<Rightarrow> None | cs \<Rightarrow> Some (path_of (butlast cs)))"

lemma split_on_of_join: "ps \<noteq> [] \<Longrightarrow> \<forall>p \<in> set ps. c \<notin> set p \<Longrightarrow> split_on c (join [c] ps) = ps"
  by (induction "[c]" ps rule: join.induct) (simp_all add: split_on_free split_on_append)

definition path_names :: "string list \<Rightarrow> bool" where
  "path_names cs \<longleftrightarrow> (\<forall>c \<in> set cs. c \<noteq> [] \<and> c \<noteq> ''.'' \<and> CHR ''/'' \<notin> set c)"

lemma path_components_of: "path_names cs \<Longrightarrow> path_components (path_of cs) = cs"
  by (cases "cs = []")
    (auto simp: path_names_def path_components_def path_of_def split_on_of_join filter_id_conv)

lemma path_names_components: "path_names (path_components p)"
  by (auto simp: path_names_def path_components_def dest: split_on_sep_free)

lemma path_names_butlast: "path_names cs \<Longrightarrow> path_names (butlast cs)"
  by (auto simp: path_names_def dest: in_set_butlastD)

lemma path_components_parent:
  "path_parent p = Some q \<Longrightarrow> path_components p \<noteq> [] \<and> path_components q = butlast (path_components p)"
  using path_components_of [OF path_names_butlast [OF path_names_components [of p]]]
  by (auto simp: path_parent_def split: list.splits)

function repo_walk :: "(string \<Rightarrow> bool) \<Rightarrow> string \<Rightarrow> string option" where
  "repo_walk markers dir =
     (if markers dir then Some dir
      else case path_parent dir of Some parent \<Rightarrow> repo_walk markers parent | None \<Rightarrow> None)"
  by pat_completeness auto
termination
  by (relation "measure (\<lambda>(markers, dir). length (path_components dir))") (auto dest!: path_components_parent)

declare repo_walk.simps [simp del]

definition git_root :: "local_repo \<Rightarrow> string option" where
  "git_root fs =
     (case lr_git fs of
        Ok out \<Rightarrow>
          (if exit_success (ro_status out) then
             let path = trim (ro_stdout out) in
             if path \<noteq> [] \<and> lr_markers fs path then Some path else None
           else None)
      | Err _ \<Rightarrow> None)"

definition find_repo_root :: "local_repo \<Rightarrow> string" where
  "find_repo_root fs =
     (case git_root fs of
        Some p \<Rightarrow> p
      | None \<Rightarrow>
          (case lr_cwd fs of
             None \<Rightarrow> ''.''
           | Some cwd \<Rightarrow> (case repo_walk (lr_markers fs) cwd of Some p \<Rightarrow> p | None \<Rightarrow> ''.'')))"

section \<open>Building the plan\<close>

definition resolve_repo_root :: "local_repo \<Rightarrow> deploy_args \<Rightarrow> cluster_config \<Rightarrow> (anyhow, string) result" where
  "resolve_repo_root fs args config =
     (case dga_repo_root args of
        Some root \<Rightarrow> Ok root
      | None \<Rightarrow>
          if image_source config = ''local'' then
            let root = find_repo_root fs in
            if \<not> lr_markers fs root then
              Err [''IMAGE_SOURCE=local needs the hummingbird-k8s repo to run `make image-*`, ''
                @ ''but the repo root could not be located from the current directory (''
                @ unwrap_or (lr_cwd fs) ''?''
                @ ''). Either run hbird from inside a checkout, or pass --repo-root <path> (env: REPO_ROOT).'']
            else Ok root
          else Ok (unwrap_or (lr_cwd fs) ''.''))"

definition deploy_plan_from_args ::
  "local_repo \<Rightarrow> deploy_args \<Rightarrow> cluster_config \<Rightarrow> (anyhow, deploy_plan) result" where
  "deploy_plan_from_args fs args config =
     bind_r (resolve_repo_root fs args config) (\<lambda>repo_root.
     Ok \<lparr>dp_config_path = dga_config args, dp_cp_name = cp_name config,
        dp_worker_names = resolved_worker_names config, dp_image_source = image_source config,
        dp_ghcr_tag = ghcr_tag config, dp_cp_memory = cp_memory config, dp_cp_vcpus = cp_vcpus config,
        dp_worker_memory = worker_memory config, dp_worker_vcpus = worker_vcpus config,
        dp_pool_dir = pool_dir config, dp_run_verify = run_verify config,
        dp_auto_update_cp = auto_update_cp config, dp_switch_to_ghcr = switch_to_ghcr config,
        dp_enable_cloud_init = enable_cloud_init config, dp_ssh_pubkey_file = ssh_pubkey_file config,
        dp_kvm_host = dga_kvm_host args, dp_no_sudo = dga_no_sudo args, dp_dry_run = dga_dry_run args,
        dp_bib = dga_bib args, dp_podman_root = dga_podman_root args,
        dp_podman_runroot = dga_podman_runroot args, dp_storage_driver = dga_storage_driver args,
        dp_force_rebuild = dga_force_rebuild args, dp_strict_cache = dga_strict_cache args,
        dp_repo_root = repo_root,
        dp_bootc_update_schedule = bootc_update_schedule config,
        dp_bootc_update_repo_k8s = bootc_update_repo_k8s config,
        dp_bootc_update_repo_worker = bootc_update_repo_worker config,
        dp_pod_cidr = pod_cidr config, dp_service_cidr = service_cidr config,
        dp_cp_ip = cp_ip config, dp_worker_ips = worker_ips config, dp_cp_mac = cp_mac config,
        dp_worker_macs = worker_macs config, dp_extra_network = filled (extra_network config),
        dp_extra_net_cp_mac = extra_net_cp_mac config, dp_extra_net_cp_ip = extra_net_cp_ip config,
        dp_extra_net_worker_macs = extra_net_worker_macs config,
        dp_extra_net_worker_ips = extra_net_worker_ips config,
        dp_cp_ready_retries = dga_cp_ready_retries args,
        dp_cp_ready_sleep_secs = dga_cp_ready_sleep_secs args, dp_token_ttl = dga_token_ttl args\<rparr>)"

text \<open>The directory that is found holds the markers and is the nearest one above; without one the
  answer is the dot.\<close>

lemma repo_walk_markers: "repo_walk markers dir = Some p \<Longrightarrow> markers p"
proof (induction markers dir rule: repo_walk.induct)
  case (1 markers dir)
  from "1.prems" "1.IH" show ?case
    by (subst (asm) repo_walk.simps) (auto split: if_splits option.splits)
qed

lemma find_repo_root_markers: "find_repo_root fs = ''.'' \<or> lr_markers fs (find_repo_root fs)"
  by (auto simp: find_repo_root_def git_root_def Let_def split: option.splits result.splits if_splits
      dest: repo_walk_markers)

end
