(* ===== verification/Deploy_Net.thy ===== *)
theory Deploy_Net
  imports Deploy_Plan Teardown
begin

text \<open>
  The network half of \<open>hbird deploy-cluster\<close> (\<open>commands/deploy_cluster.rs\<close>): the MAC addresses of the
  primary interfaces, the DHCP reservations, the validation of the second network and the
  cloud-init text for it. Addresses are text, as the program keeps them; \<open>ip_in_cidr\<close> computes on
  32-bit words.
\<close>

section \<open>Primary interfaces\<close>

definition derive_primary_mac :: "string \<Rightarrow> string" where
  "derive_primary_mac name =
     (let h = sha256_hex (as_bytes name) in
      ''52:54:00:'' @ take 2 h @ '':'' @ take 2 (drop 2 h) @ '':'' @ take 2 (drop 4 h))"

definition is_valid_mac :: "string \<Rightarrow> bool" where
  "is_valid_mac s =
     (let parts = split_on (CHR '':'') s in
      length parts = 6 \<and> list_all (\<lambda>p. length p = 2 \<and> list_all is_ascii_hexdigit p) parts)"

record primary_macs =
  pm_cp :: string
  pm_workers :: "string list"

definition quoted :: "string \<Rightarrow> string" where
  "quoted s = [SQ] @ s @ [SQ]"

text \<open>\<open>v.and_then(|m| m.get(i)).filter(|s| !s.is_empty())\<close>.\<close>

definition entry :: "string list option \<Rightarrow> nat \<Rightarrow> string option" where
  "entry v i = (case v of None \<Rightarrow> None | Some xs \<Rightarrow> if i < length xs then filled (Some (xs ! i)) else None)"

text \<open>The loop over the workers: \<open>seen\<close> maps a MAC in lower case to its owner, \<open>i\<close> counts.\<close>

fun worker_macs_loop ::
  "string list option \<Rightarrow> (string \<rightharpoonup> string) \<Rightarrow> nat \<Rightarrow> string list \<Rightarrow> (anyhow, string list) result" where
  "worker_macs_loop macs seen i [] = Ok []"
| "worker_macs_loop macs seen i (w # ws) =
     (let mac = (case entry macs i of Some m \<Rightarrow> m | None \<Rightarrow> derive_primary_mac w) in
      if \<not> is_valid_mac mac then
        Err [''WORKER_MACS['' @ show_nat i @ ''] is malformed (need aa:bb:cc:dd:ee:ff): '' @ quoted mac]
      else case seen (to_ascii_lowercase mac) of
        Some other \<Rightarrow>
          Err [''primary-NIC MAC collision: '' @ w @ '' and '' @ other @ '' would both use '' @ mac @ '' ''
            @ EM_DASH @ '' set CP_MAC/WORKER_MACS explicitly to break the tie'']
      | None \<Rightarrow>
          bind_r (worker_macs_loop macs (seen(to_ascii_lowercase mac \<mapsto> w)) (Suc i) ws) (\<lambda>rest. Ok (mac # rest)))"

definition resolve_primary_macs ::
  "string \<Rightarrow> string option \<Rightarrow> string list \<Rightarrow> string list option \<Rightarrow> (anyhow, primary_macs) result" where
  "resolve_primary_macs name mac_opt names macs =
     (let cp = (case filled mac_opt of Some m \<Rightarrow> m | None \<Rightarrow> derive_primary_mac name) in
      if \<not> is_valid_mac cp then Err [''CP_MAC is malformed (need aa:bb:cc:dd:ee:ff): '' @ quoted cp]
      else
        bind_r (worker_macs_loop macs [to_ascii_lowercase cp \<mapsto> name] 0 names) (\<lambda>workers.
        Ok \<lparr>pm_cp = cp, pm_workers = workers\<rparr>))"

definition worker_ip :: "deploy_plan \<Rightarrow> nat \<Rightarrow> string option" where
  "worker_ip plan i = entry (dp_worker_ips plan) i"

definition worker_mac_configured :: "deploy_plan \<Rightarrow> nat \<Rightarrow> bool" where
  "worker_mac_configured plan i = (entry (dp_worker_macs plan) i \<noteq> None)"

section \<open>DHCP reservations\<close>

datatype reservation_check = AlreadyPresent | IpTakenByOtherMac | Absent

definition classify_dhcp_reservation :: "string \<Rightarrow> string \<Rightarrow> string \<Rightarrow> reservation_check" where
  "classify_dhcp_reservation net_xml mac ip =
     (let xml_lower = to_ascii_lowercase net_xml in
      if contains (''mac='' @ quoted (to_ascii_lowercase mac)) xml_lower then AlreadyPresent
      else if contains (''ip='' @ quoted ip) net_xml then IpTakenByOtherMac
      else Absent)"

definition deploy_log :: "string \<Rightarrow> ('w world, 'e, unit) action" where
  "deploy_log line = println (''[deploy-cluster] '' @ line)"

definition ensure_dhcp_reservation ::
  "'w world connection \<Rightarrow> string \<Rightarrow> string \<Rightarrow> string \<Rightarrow> string \<Rightarrow> ('w, unit) act" where
  "ensure_dhcp_reservation conn net mac ip name =
     matchA (net_dumpxml conn net) (\<lambda>r.
       let net_xml = (case r of Ok xml \<Rightarrow> xml | Err _ \<Rightarrow> []) in
       case classify_dhcp_reservation net_xml mac ip of
         AlreadyPresent \<Rightarrow>
           deploy_log (''DHCP reservation for '' @ name @ '' ('' @ mac @ '' -> '' @ ip
             @ '') already present on network '' @ quoted net)
       | IpTakenByOtherMac \<Rightarrow>
           deploy_log (''WARN: '' @ ip @ '' is already reserved on network '' @ quoted net
             @ '' under a different MAC '' @ EM_DASH @ '' skipping reservation for '' @ name
             @ ''. Pick a free CP_IP/WORKER_IPS value or clear the stale entry.'')
       | Absent \<Rightarrow>
           matchA (net_update_add_ip_dhcp_host conn net mac name ip) (\<lambda>a.
             case a of
               Ok _ \<Rightarrow> deploy_log (''added DHCP reservation on '' @ quoted net @ '': '' @ name @ '' '' @ mac @ '' -> '' @ ip)
             | Err _ \<Rightarrow> deploy_log (''WARN: could not add a DHCP reservation for '' @ name @ '' on '' @ quoted net
                 @ '' (continuing '' @ EM_DASH @ '' the pinned MAC still makes the lease sticky)'')))"

section \<open>CIDR ranges\<close>

definition is_decimal_in_range :: "string \<Rightarrow> nat \<Rightarrow> bool" where
  "is_decimal_in_range s mx =
     (if s = [] \<or> 3 < length s \<or> \<not> list_all is_ascii_digit s then False
      else if 1 < length s \<and> starts_with ''0'' s then False
      else case parse_u32 s of Some v \<Rightarrow> v \<le> mx | None \<Rightarrow> False)"

definition is_valid_cidr :: "string \<Rightarrow> bool" where
  "is_valid_cidr s =
     (case split_once (CHR ''/'') s of
        None \<Rightarrow> False
      | Some (addr, prefix) \<Rightarrow>
          (let octets = split_on (CHR ''.'') addr in
           if length octets \<noteq> 4 \<or> \<not> list_all (\<lambda>x. is_decimal_in_range x 255) octets then False
           else is_decimal_in_range prefix 32))"

text \<open>\<open>to_u32\<close>: the loop over the parts, with the word so far and their number.\<close>

fun to_u32_loop :: "u32 \<Rightarrow> nat \<Rightarrow> string list \<Rightarrow> (u32 \<times> nat) option" where
  "to_u32_loop out n [] = Some (out, n)"
| "to_u32_loop out n (part # parts) =
     (case parse_uint 255 part of
        None \<Rightarrow> None
      | Some v \<Rightarrow> to_u32_loop (push_bit 8 out OR of_nat v) (Suc n) parts)"

definition to_u32 :: "string \<Rightarrow> u32 option" where
  "to_u32 a =
     (case to_u32_loop 0 0 (split_on (CHR ''.'') a) of
        None \<Rightarrow> None
      | Some (out, n) \<Rightarrow> if n = 4 then Some out else None)"

definition ip_in_cidr :: "string \<Rightarrow> string \<Rightarrow> bool" where
  "ip_in_cidr addr cidr =
     (case split_once (CHR ''/'') cidr of
        None \<Rightarrow> False
      | Some (base, prefix) \<Rightarrow>
          (case (to_u32 addr, to_u32 base, parse_u32 prefix) of
             (Some a, Some c, Some p) \<Rightarrow>
               if p = 0 then True
               else if 32 < p then False
               else let m = push_bit (32 - p) (- 1) in (a AND m) = (c AND m)
           | _ \<Rightarrow> False))"

section \<open>The second interface\<close>

definition render_net2_network_config :: "string \<Rightarrow> string \<Rightarrow> string" where
  "render_net2_network_config mac ip =
     unlines
       [''version: 2'',
        ''ethernets:'',
        ''  primary:'',
        ''    match:'',
        ''      name: enp1s0'',
        ''    dhcp4: true'',
        ''  net2:'',
        ''    match:'',
        ''      macaddress: '' @ [CHR 0x22] @ mac @ [CHR 0x22],
        ''    dhcp4: false'',
        ''    dhcp6: false'',
        ''    accept-ra: false'',
        ''    addresses:'',
        ''      - '' @ [CHR 0x22] @ ip @ [CHR 0x22]]"

definition net2_ipv6_off_lines :: "string \<Rightarrow> string list" where
  "net2_ipv6_off_lines mac =
       [''  - |'',
        ''    # Disable IPv6 on the second NIC (accept-ra/dhcp6 do not survive the NM renderer).'',
        ''    dev=$(ip -o link | awk -v m='' @ mac @ '' '' @ [SQ] @ ''tolower($0) ~ tolower(m) {gsub(/:/,''
          @ [CHR 0x22, CHR 0x22] @ '',$2); print $2; exit}'' @ [SQ] @ '')'',
        ''    [ -n '' @ [CHR 0x22] @ ''$dev'' @ [CHR 0x22] @ '' ] || { echo '' @ [CHR 0x22]
          @ ''hbird: no interface with MAC '' @ mac @ [CHR 0x22] @ '' >&2; exit 0; }'',
        ''    con=$(nmcli -g GENERAL.CONNECTION device show '' @ [CHR 0x22] @ ''$dev'' @ [CHR 0x22] @ '')'',
        ''    [ -n '' @ [CHR 0x22] @ ''$con'' @ [CHR 0x22] @ '' ] || { echo '' @ [CHR 0x22]
          @ ''hbird: no NM connection on $dev'' @ [CHR 0x22] @ '' >&2; exit 0; }'',
        ''    nmcli connection modify '' @ [CHR 0x22] @ ''$con'' @ [CHR 0x22] @ '' ipv6.method disabled'',
        ''    nmcli connection up '' @ [CHR 0x22] @ ''$con'' @ [CHR 0x22] @ '' >/dev/null'']"

definition net2_ipv6_off_runcmd :: "string \<Rightarrow> string" where
  "net2_ipv6_off_runcmd mac = unlines (net2_ipv6_off_lines mac)"

record net2 =
  n2_network :: string
  n2_mac :: string
  n2_ip :: string

definition is_set :: "string option \<Rightarrow> bool" where
  "is_set x = (filled x \<noteq> None)"

definition any_set :: "string list option \<Rightarrow> bool" where
  "any_set x = (case x of Some xs \<Rightarrow> list_ex (\<lambda>s. s \<noteq> []) xs | None \<Rightarrow> False)"

text \<open>The two loops that check the shape of an array, by index.\<close>

fun check_entries :: "(string \<Rightarrow> bool) \<Rightarrow> string \<Rightarrow> nat \<Rightarrow> string list \<Rightarrow> (anyhow, unit) result" where
  "check_entries ok name i [] = Ok ()"
| "check_entries ok name i (x # xs) =
     (if \<not> ok x then Err [name @ ''['' @ show_nat i @ ''] malformed: '' @ quoted x]
      else check_entries ok name (Suc i) xs)"

definition primary_by_mac :: "deploy_plan \<Rightarrow> primary_macs \<Rightarrow> (string \<rightharpoonup> string)" where
  "primary_by_mac plan macs =
     foldl (\<lambda>m (mac, name). m(to_ascii_lowercase mac \<mapsto> name)) [to_ascii_lowercase (pm_cp macs) \<mapsto> dp_cp_name plan]
       (zip (pm_workers macs) (dp_worker_names plan))"

fun check_extra_macs :: "(string \<rightharpoonup> string) \<Rightarrow> string list \<Rightarrow> string list \<Rightarrow> (anyhow, unit) result" where
  "check_extra_macs primary seen [] = Ok ()"
| "check_extra_macs primary seen (m # ms) =
     (let mk = to_ascii_lowercase m in
      if mk \<in> set seen then
        Err [''duplicate MAC in the EXTRA_NET_* family: '' @ quoted m @ '' '' @ EM_DASH @ '' every NIC needs a unique MAC'']
      else case primary mk of
        Some owner \<Rightarrow>
          Err [''EXTRA_NET MAC '' @ quoted m @ '' collides with the primary-NIC MAC of '' @ owner @ '' '' @ EM_DASH
            @ '' every NIC on the host needs a unique MAC'']
      | None \<Rightarrow> check_extra_macs primary (mk # seen) ms)"

definition bare :: "string \<Rightarrow> string" where
  "bare a = hd (split_on (CHR ''/'') a)"

fun check_extra_ips :: "string list \<Rightarrow> string list \<Rightarrow> (anyhow, unit) result" where
  "check_extra_ips seen [] = Ok ()"
| "check_extra_ips seen (a # as) =
     (if bare a \<in> set seen then
        Err [''duplicate address in the EXTRA_NET_* family: '' @ quoted (bare a) @ '' '' @ EM_DASH
          @ '' every NIC needs a unique address'']
      else check_extra_ips (bare a # seen) as)"

fun check_ranges :: "string \<Rightarrow> (string \<times> string option) list \<Rightarrow> (anyhow, unit) result" where
  "check_ranges b [] = Ok ()"
| "check_ranges b ((range_name, r) # rs) =
     (case filled r of
        None \<Rightarrow> check_ranges b rs
      | Some rng \<Rightarrow>
          if ip_in_cidr b rng then
            Err [''EXTRA_NET address '' @ b @ '' falls inside '' @ range_name @ ''='' @ rng @ '' '' @ EM_DASH
              @ '' traffic to it would be swallowed by the cluster network. Pick ranges that overlap neither.'']
          else check_ranges b rs)"

fun check_overlap :: "(string \<times> string option) list \<Rightarrow> string list \<Rightarrow> (anyhow, unit) result" where
  "check_overlap ranges [] = Ok ()"
| "check_overlap ranges (a # as) = bind_r (check_ranges (bare a) ranges) (\<lambda>_. check_overlap ranges as)"

definition cluster_ranges :: "deploy_plan \<Rightarrow> (string \<times> string option) list" where
  "cluster_ranges plan = [(''POD_CIDR'', dp_pod_cidr plan), (''SERVICE_CIDR'', dp_service_cidr plan)]"

definition validate_extra_network ::
  "deploy_plan \<Rightarrow> primary_macs \<Rightarrow> (anyhow, (net2 \<times> net2 list) option) result" where
  "validate_extra_network plan macs =
     (case filled (dp_extra_network plan) of
        None \<Rightarrow>
          if is_set (dp_extra_net_cp_mac plan) \<or> is_set (dp_extra_net_cp_ip plan)
            \<or> any_set (dp_extra_net_worker_macs plan) \<or> any_set (dp_extra_net_worker_ips plan)
          then Err [''EXTRA_NET_* values are set but EXTRA_NETWORK is empty '' @ EM_DASH
            @ '' set EXTRA_NETWORK=<libvirt network> or clear the family'']
          else Ok None
      | Some net \<Rightarrow>
          let cp_mac = unwrap_or (dp_extra_net_cp_mac plan) [];
              cp_ip = unwrap_or (dp_extra_net_cp_ip plan) [];
              w_macs = unwrap_or (dp_extra_net_worker_macs plan) [];
              w_ips = unwrap_or (dp_extra_net_worker_ips plan) [];
              n = length (dp_worker_names plan) in
          if \<not> is_valid_mac cp_mac then
            Err [''EXTRA_NETWORK is set but EXTRA_NET_CP_MAC is missing/malformed (need aa:bb:cc:dd:ee:ff): '' @ quoted cp_mac]
          else if \<not> is_valid_cidr cp_ip then
            Err [''EXTRA_NETWORK is set but EXTRA_NET_CP_IP is missing/malformed (need CIDR like 10.0.0.241/24): '' @ quoted cp_ip]
          else if length w_macs \<noteq> n then
            Err [''EXTRA_NET_WORKER_MACS has '' @ show_nat (length w_macs) @ '' entries but WORKER_NAMES has '' @ show_nat n
              @ '' '' @ EM_DASH @ '' the arrays must be parallel'']
          else if length w_ips \<noteq> n then
            Err [''EXTRA_NET_WORKER_IPS has '' @ show_nat (length w_ips) @ '' entries but WORKER_NAMES has '' @ show_nat n
              @ '' '' @ EM_DASH @ '' the arrays must be parallel'']
          else
            bind_r (check_entries is_valid_mac ''EXTRA_NET_WORKER_MACS'' 0 w_macs) (\<lambda>_.
            bind_r (check_entries is_valid_cidr ''EXTRA_NET_WORKER_IPS'' 0 w_ips) (\<lambda>_.
            bind_r (check_extra_macs (primary_by_mac plan macs) [] (cp_mac # w_macs)) (\<lambda>_.
            bind_r (check_extra_ips [] (cp_ip # w_ips)) (\<lambda>_.
            bind_r (check_overlap (cluster_ranges plan) (cp_ip # w_ips)) (\<lambda>_.
            Ok (Some (\<lparr>n2_network = net, n2_mac = cp_mac, n2_ip = cp_ip\<rparr>,
                      map (\<lambda>(m, a). \<lparr>n2_network = net, n2_mac = m, n2_ip = a\<rparr>) (zip w_macs w_ips)))))))))"

section \<open>The second network on the host\<close>

definition net_info_reports_active :: "string \<Rightarrow> bool" where
  "net_info_reports_active text =
     (case List.map_filter (strip_prefix ''Active:'') (lines text) of
        [] \<Rightarrow> False
      | v # _ \<Rightarrow> to_ascii_lowercase (trim v) = ''yes'')"

text \<open>\<open>str::matches(pat).count()\<close>: occurrences that do not overlap, from the left.\<close>

function count_matches :: "string \<Rightarrow> string \<Rightarrow> nat" where
  "count_matches pat s =
     (if s = [] \<or> pat = [] then 0
      else case strip_prefix pat s of
        Some rest \<Rightarrow> Suc (count_matches pat rest)
      | None \<Rightarrow> count_matches pat (tl s))"
  by pat_completeness auto
termination
  by (relation "measure (\<lambda>(pat, s). length s)") (auto simp: strip_prefix_Some)

declare count_matches.simps [simp del]

definition hostdev_vf_count :: "string \<Rightarrow> nat option" where
  "hostdev_vf_count net_xml =
     (if \<not> contains (''forward mode='' @ quoted ''hostdev'') net_xml then None
      else Some (count_matches (''<address type='' @ quoted ''pci'') net_xml))"

definition check_extra_network_on_host :: "deploy_plan \<Rightarrow> 'w world connection \<Rightarrow> string \<Rightarrow> ('w, unit) act" where
  "check_extra_network_on_host plan conn net =
     matchA (net_info conn net) (\<lambda>r.
       case r of
         Err _ \<Rightarrow> failA [''EXTRA_NETWORK='' @ quoted net @ '' is not a defined libvirt network on this host '' @ EM_DASH
           @ '' define it first (see cluster.example.conf for a VF-pool example)'']
       | Ok info \<Rightarrow>
           if \<not> net_info_reports_active info then
             failA [''EXTRA_NETWORK='' @ quoted net @ '' is defined but NOT active '' @ EM_DASH @ '' run ''
               @ quoted (''virsh net-start '' @ net) @ '' (and net-autostart) first'']
           else
             matchA (net_dumpxml conn net) (\<lambda>x.
               case hostdev_vf_count (case x of Ok xml \<Rightarrow> xml | Err _ \<Rightarrow> []) of
                 Some vf_count \<Rightarrow>
                   let need = 1 + length (dp_worker_names plan) in
                   if vf_count < need then
                     failA [''EXTRA_NETWORK='' @ quoted net @ '' is a hostdev pool with '' @ show_nat vf_count
                       @ '' VF(s) but this deploy needs '' @ show_nat need @ '' (1 CP + ''
                       @ show_nat (length (dp_worker_names plan)) @ '' worker(s))'']
                   else retA ()
               | None \<Rightarrow> retA ()))"

end
