(* ===== verification/Deploy_Addresses.thy ===== *)
theory Deploy_Addresses
  imports Deploy_Net
begin

text \<open>
  What the address checks of \<open>hbird deploy-cluster\<close> establish. The texts the program compares stand
  for numbers: \<open>cidr_text x p\<close> is the canonical text of the address \<open>x\<close> with prefix \<open>p\<close>, and
  \<open>same_net\<close> is membership in a network as arithmetic. The results are that \<open>is_valid_cidr\<close> accepts
  exactly the canonical texts, that \<open>ip_in_cidr\<close> is \<open>same_net\<close>, and that a configuration that passes
  the validation gives every interface of the cluster its own MAC and its own address outside the
  cluster's ranges.
\<close>

section \<open>Addresses as numbers\<close>

fun ipv4_wf :: "ipv4 \<Rightarrow> bool" where
  "ipv4_wf (a, b, c, d) \<longleftrightarrow> a \<le> 255 \<and> b \<le> 255 \<and> c \<le> 255 \<and> d \<le> 255"

fun ipv4_num :: "ipv4 \<Rightarrow> nat" where
  "ipv4_num (a, b, c, d) = ((a * 256 + b) * 256 + c) * 256 + d"

definition cidr_text :: "ipv4 \<Rightarrow> nat \<Rightarrow> string" where
  "cidr_text x p = ipv4_display x @ ''/'' @ show_nat p"

definition same_net :: "nat \<Rightarrow> ipv4 \<Rightarrow> ipv4 \<Rightarrow> bool" where
  "same_net p x y \<longleftrightarrow> ipv4_num x div 2 ^ (32 - p) = ipv4_num y div 2 ^ (32 - p)"

section \<open>Numbers behind the text\<close>

lemma ipv4_num_bound: "ipv4_wf x \<Longrightarrow> ipv4_num x < 2 ^ 32"
  by (cases x) simp

lemma shift_in: "v \<le> 255 \<Longrightarrow> (push_bit 8 w OR of_nat v :: u32) = w * 256 + of_nat v"
proof -
  assume "v \<le> 255"
  then have "take_bit 8 v = v" by (simp add: take_bit_nat_eq_self)
  then have *: "take_bit 8 (of_nat v :: u32) = of_nat v" by (metis of_nat_take_bit)
  have "push_bit 8 w AND take_bit 8 (of_nat v) = (0 :: u32)"
    by (rule bit_word_eqI) (auto simp: bit_push_bit_iff bit_take_bit_iff bit_and_iff)
  then have "push_bit 8 w + of_nat v = (push_bit 8 w OR of_nat v :: u32)"
    by (simp add: * disjunctive_add_eq_or)
  then show ?thesis by (simp add: push_bit_eq_mult)
qed

lemma ipv4_parts: "split_on (CHR ''.'') (ipv4_display x) = (case x of (a, b, c, d) \<Rightarrow> [show_nat a, show_nat b, show_nat c, show_nat d])"
  by (cases x) (simp only: split_on_ipv4 prod.case)

lemma to_u32_display: "ipv4_wf x \<Longrightarrow> to_u32 (ipv4_display x) = Some (of_nat (ipv4_num x))"
  by (cases x) (simp add: to_u32_def ipv4_parts shift_in del: ipv4_display.simps)

lemma and_high_mask:
  fixes a c :: u32
  shows "(a AND NOT (mask k)) = (c AND NOT (mask k)) \<longleftrightarrow> drop_bit k a = drop_bit k c"
proof
  assume eq: "(a AND NOT (mask k)) = (c AND NOT (mask k))"
  show "drop_bit k a = drop_bit k c"
  proof (rule bit_word_eqI)
    fix n
    have "bit (a AND NOT (mask k)) (k + n) = bit (c AND NOT (mask k)) (k + n)" using eq by simp
    then show "bit (drop_bit k a) n = bit (drop_bit k c) n"
      by (auto simp: bit_drop_bit_eq bit_and_iff bit_not_iff bit_mask_iff dest: bit_imp_le_length)
  qed
next
  assume eq: "drop_bit k a = drop_bit k c"
  show "(a AND NOT (mask k)) = (c AND NOT (mask k))"
  proof (rule bit_word_eqI)
    fix n
    have "bit (drop_bit k a) (n - k) = bit (drop_bit k c) (n - k)" using eq by simp
    then show "bit (a AND NOT (mask k)) n = bit (c AND NOT (mask k)) n"
      by (auto simp: bit_drop_bit_eq bit_and_iff bit_not_iff bit_mask_iff)
  qed
qed

lemma drop_bit_of_nat_eq:
  assumes "m < 2 ^ 32" "n < 2 ^ 32"
  shows "drop_bit k (of_nat m :: u32) = drop_bit k (of_nat n) \<longleftrightarrow> m div 2 ^ k = n div 2 ^ k"
proof -
  have "unat (drop_bit k (of_nat m :: u32)) = m div 2 ^ k" if "m < 2 ^ 32" for m
  proof -
    have "unat (of_nat m :: u32) = m" using that by (simp add: unat_of_nat take_bit_nat_eq_self)
    then show ?thesis by (metis unat_drop_bit_eq drop_bit_eq_div)
  qed
  then show ?thesis using assms by (simp add: word_unat_eq_iff)
qed

lemma show_nat_no_slash: "CHR ''/'' \<notin> set (show_nat n)"
  by (auto dest!: show_nat_set simp: is_ascii_digit_def)

lemma ipv4_display_no_slash: "CHR ''/'' \<notin> set (ipv4_display x)"
  by (cases x) (simp add: show_nat_no_slash)

lemma split_cidr_text: "split_once (CHR ''/'') (cidr_text x p) = Some (ipv4_display x, show_nat p)"
  by (simp add: cidr_text_def ipv4_display_no_slash del: ipv4_display.simps)

lemma ip_in_cidr_net:
  assumes "ipv4_wf x" "ipv4_wf y" "p \<le> 32"
  shows "ip_in_cidr (ipv4_display x) (cidr_text y p) \<longleftrightarrow> same_net p x y"
proof (cases "p = 0")
  case True
  with assms show ?thesis
    using ipv4_num_bound [OF assms(1)] ipv4_num_bound [OF assms(2)]
    by (simp add: ip_in_cidr_def split_cidr_text to_u32_display U32_MAX_def same_net_def)
next
  case False
  with assms show ?thesis
    by (simp add: ip_in_cidr_def split_cidr_text to_u32_display U32_MAX_def same_net_def Let_def and_high_mask
        drop_bit_of_nat_eq [OF ipv4_num_bound ipv4_num_bound])
qed

lemma starts_with_char: "starts_with [c] s \<longleftrightarrow> s \<noteq> [] \<and> hd s = c"
  by (cases s) (auto simp: starts_with_def)

lemma is_decimal_in_range_iff:
  assumes "mx < 1000"
  shows "is_decimal_in_range s mx \<longleftrightarrow> (\<exists>n \<le> mx. s = show_nat n)"
proof
  assume "is_decimal_in_range s mx"
  then show "\<exists>n \<le> mx. s = show_nat n"
    by (intro exI [of _ "digits_val s"])
      (auto simp: is_decimal_in_range_def parse_uint_digits show_nat_digits_val starts_with_char
        split: if_splits option.splits)
next
  assume "\<exists>n \<le> mx. s = show_nat n"
  then obtain n where n: "n \<le> mx" "s = show_nat n" by blast
  then have "length s \<le> 3" using show_nat_length [of n] assms by simp
  moreover have "1 < length s \<longrightarrow> hd s \<noteq> CHR ''0''"
    using n show_nat_hd [of n] by (cases "n = 0") (auto simp: show_nat.simps)
  ultimately show "is_decimal_in_range s mx"
    using n assms by (simp add: is_decimal_in_range_def show_nat_digits U32_MAX_def starts_with_char)
qed

section \<open>What the validation accepts\<close>

lemma octets_display:
  assumes "length os = 4" "list_all (\<lambda>x. is_decimal_in_range x 255) os"
  shows "\<exists>x. ipv4_wf x \<and> join ''.'' os = ipv4_display x"
proof -
  obtain p q r t where os: "os = [p, q, r, t]"
    using assms(1) by (auto simp: numeral_eq_Suc length_Suc_conv)
  with assms(2) obtain a b c d where "a \<le> 255" "b \<le> 255" "c \<le> 255" "d \<le> 255"
    and "p = show_nat a" "q = show_nat b" "r = show_nat c" "t = show_nat d"
    by (auto simp: is_decimal_in_range_iff)
  with os show ?thesis by (intro exI [of _ "(a, b, c, d)"]) simp
qed

lemma is_valid_cidr_exact: "is_valid_cidr s \<longleftrightarrow> (\<exists>x p. ipv4_wf x \<and> p \<le> 32 \<and> s = cidr_text x p)"
proof
  assume valid: "is_valid_cidr s"
  then obtain addr prefix where s: "s = addr @ CHR ''/'' # prefix"
    and os: "length (split_on (CHR ''.'') addr) = 4"
      "list_all (\<lambda>x. is_decimal_in_range x 255) (split_on (CHR ''.'') addr)"
    and p: "is_decimal_in_range prefix 32"
    by (auto simp: is_valid_cidr_def split_once_Some Let_def split: option.splits prod.splits if_splits)
  from octets_display [OF os] obtain x where "ipv4_wf x" "addr = ipv4_display x"
    by (auto simp: split_on_join)
  moreover from p obtain n where "n \<le> 32" "prefix = show_nat n"
    by (auto simp: is_decimal_in_range_iff)
  ultimately show "\<exists>x p. ipv4_wf x \<and> p \<le> 32 \<and> s = cidr_text x p"
    using s by (intro exI [of _ x] exI [of _ n]) (simp add: cidr_text_def)
next
  assume "\<exists>x p. ipv4_wf x \<and> p \<le> 32 \<and> s = cidr_text x p"
  then obtain x p where "ipv4_wf x" "p \<le> 32" "s = cidr_text x p" by blast
  then show "is_valid_cidr s"
    by (cases x) (auto simp: is_valid_cidr_def split_cidr_text ipv4_parts is_decimal_in_range_iff
        simp del: ipv4_display.simps)
qed

text \<open>C11. The CIDR checks are exact. \<open>is_valid_cidr\<close> accepts exactly the canonical texts of an address
  with four octets up to 255 and a prefix up to 32 (no leading zero, no sign, nothing after
  it), and on canonical texts \<open>ip_in_cidr\<close> is membership of the network: an address is in
  the range exactly when its first \<open>p\<close> bits, as a number, are those of the base. The mask built
  with a 32-bit shift is right for every prefix from 1 to 32; the prefix 0, for which the shift
  would overflow, is the range of all addresses.\<close>

theorem cidr_checks_exact:
  "(is_valid_cidr s \<longleftrightarrow> (\<exists>x p. ipv4_wf x \<and> p \<le> 32 \<and> s = cidr_text x p))
   \<and> (ipv4_wf x \<and> ipv4_wf y \<and> p \<le> 32 \<longrightarrow>
        (ip_in_cidr (ipv4_display x) (cidr_text y p) \<longleftrightarrow> same_net p x y))"
  using is_valid_cidr_exact ip_in_cidr_net by blast

theorem cidr_checks_exact_witness:
  "ip_in_cidr (ipv4_display (10, 244, 7, 9)) (cidr_text (10, 244, 0, 0) 16)
   \<and> \<not> ip_in_cidr (ipv4_display (10, 245, 0, 1)) (cidr_text (10, 244, 0, 0) 16)"
  using cidr_checks_exact [of "[]" "(10, 244, 7, 9)" "(10, 244, 0, 0)" 16]
    cidr_checks_exact [of "[]" "(10, 245, 0, 1)" "(10, 244, 0, 0)" 16]
  by (simp add: same_net_def)

lemma bare_cidr_text: "bare (cidr_text x p) = ipv4_display x"
  by (simp add: bare_def cidr_text_def split_on_append ipv4_display_no_slash del: ipv4_display.simps)

lemma check_entries_ok: "check_entries ok name i xs = Ok () \<Longrightarrow> list_all ok xs"
  by (induction xs arbitrary: i) (auto split: if_splits)

lemma check_extra_macs_ok:
  "check_extra_macs primary seen ms = Ok () \<Longrightarrow>
   distinct (map to_ascii_lowercase ms) \<and> set (map to_ascii_lowercase ms) \<inter> (set seen \<union> dom primary) = {}"
  by (induction primary seen ms rule: check_extra_macs.induct)
    (auto simp: Let_def split: if_splits option.splits)

lemma check_extra_ips_ok:
  "check_extra_ips seen as = Ok () \<Longrightarrow> distinct (map bare as) \<and> set (map bare as) \<inter> set seen = {}"
  by (induction seen as rule: check_extra_ips.induct) (auto split: if_splits)

text \<open>An address outside the ranges that are configured.\<close>

definition outside_ranges :: "deploy_plan \<Rightarrow> ipv4 \<Rightarrow> bool" where
  "outside_ranges plan x \<longleftrightarrow>
     (\<forall>(name, r) \<in> set (cluster_ranges plan). \<forall>y q.
        filled r = Some (cidr_text y q) \<and> ipv4_wf y \<and> q \<le> 32 \<longrightarrow> \<not> same_net q x y)"

lemma check_ranges_ok:
  "check_ranges b rs = Ok () \<Longrightarrow> (name, r) \<in> set rs \<Longrightarrow> filled r = Some rng \<Longrightarrow> \<not> ip_in_cidr b rng"
  by (induction b rs rule: check_ranges.induct) (auto split: if_splits option.splits)

lemma check_overlap_ok: "check_overlap rs as = Ok () \<Longrightarrow> a \<in> set as \<Longrightarrow> check_ranges (bare a) rs = Ok ()"
  by (induction rs as rule: check_overlap.induct) auto

lemma dom_foldl_keyed: "dom (foldl (\<lambda>m (k, v). m(f k \<mapsto> v)) m0 xs) = dom m0 \<union> f ` fst ` set xs"
  by (induction xs arbitrary: m0) auto

lemma dom_primary_by_mac:
  "length (pm_workers macs) = length (dp_worker_names plan) \<Longrightarrow>
   dom (primary_by_mac plan macs) = set (map to_ascii_lowercase (pm_cp macs # pm_workers macs))"
  by (simp add: primary_by_mac_def dom_foldl_keyed flip: set_map)

lemma worker_macs_loop_ok:
  "worker_macs_loop macs seen i ws = Ok ms \<Longrightarrow>
   length ms = length ws \<and> list_all is_valid_mac ms \<and> distinct (map to_ascii_lowercase ms)
   \<and> set (map to_ascii_lowercase ms) \<inter> dom seen = {}"
proof (induction macs seen i ws arbitrary: ms rule: worker_macs_loop.induct)
  case (1 macs seen i)
  then show ?case by simp
next
  case (2 macs seen i w ws)
  define mac where "mac = (case entry macs i of Some m \<Rightarrow> m | None \<Rightarrow> derive_primary_mac w)"
  from "2.prems" obtain rest where "is_valid_mac mac" "seen (to_ascii_lowercase mac) = None"
    and loop: "worker_macs_loop macs (seen(to_ascii_lowercase mac \<mapsto> w)) (Suc i) ws = Ok rest"
    and ms: "ms = mac # rest"
    by (auto simp: mac_def [symmetric] Let_def split: if_splits option.splits)
  with "2.IH" [OF mac_def _ _ loop] show ?case by auto
qed

lemma resolve_primary_macs_ok:
  assumes "resolve_primary_macs name mac names wmacs = Ok macs"
  shows "length (pm_workers macs) = length names"
    and "list_all is_valid_mac (pm_cp macs # pm_workers macs)"
    and "distinct (map to_ascii_lowercase (pm_cp macs # pm_workers macs))"
  using assms
  by (auto simp: resolve_primary_macs_def Let_def split: if_splits dest!: worker_macs_loop_ok)

lemma cidr_list:
  assumes "list_all is_valid_cidr as"
  shows "\<exists>xs. as = map (\<lambda>(x, p). cidr_text x p) xs \<and> list_all (\<lambda>(x, p). ipv4_wf x \<and> p \<le> 32) xs"
  using assms
proof (induction as)
  case Nil
  show ?case by (intro exI [of _ "[]"]) simp
next
  case (Cons a as)
  then obtain xs where "as = map (\<lambda>(x, p). cidr_text x p) xs" "list_all (\<lambda>(x, p). ipv4_wf x \<and> p \<le> 32) xs"
    by auto
  moreover from Cons.prems obtain x p where "ipv4_wf x" "p \<le> 32" "a = cidr_text x p"
    by (auto simp: is_valid_cidr_exact simp del: ipv4_wf.simps)
  ultimately show ?case by (intro exI [of _ "(x, p) # xs"]) simp
qed

text \<open>The checks on the family as one fact about the lists: \<open>ms\<close> are the MACs, \<open>as\<close> the addresses.\<close>

lemma extra_family_ok:
  assumes "validate_extra_network plan macs = Ok (Some (cp, ws))"
  shows "length ws = length (dp_worker_names plan)"
    and "list_all is_valid_mac (map n2_mac (cp # ws))"
    and "list_all is_valid_cidr (map n2_ip (cp # ws))"
    and "check_extra_macs (primary_by_mac plan macs) [] (map n2_mac (cp # ws)) = Ok ()"
    and "check_extra_ips [] (map n2_ip (cp # ws)) = Ok ()"
    and "check_overlap (cluster_ranges plan) (map n2_ip (cp # ws)) = Ok ()"
proof -
  have zipped: "map n2_mac (map (\<lambda>(m, a). \<lparr>n2_network = net, n2_mac = m, n2_ip = a\<rparr>) (zip ms as)) = ms"
    "map n2_ip (map (\<lambda>(m, a). \<lparr>n2_network = net, n2_mac = m, n2_ip = a\<rparr>) (zip ms as)) = as"
    if "length ms = length as" for net ms as
    using that by (simp_all add: comp_def case_prod_beta)
  note D = assms [unfolded validate_extra_network_def Let_def]
  from D obtain net where net: "filled (dp_extra_network plan) = Some net"
    by (auto split: option.splits if_splits)
  define cp_m cp_a w_ms w_as where "cp_m = unwrap_or (dp_extra_net_cp_mac plan) []"
    and "cp_a = unwrap_or (dp_extra_net_cp_ip plan) []"
    and "w_ms = unwrap_or (dp_extra_net_worker_macs plan) []"
    and "w_as = unwrap_or (dp_extra_net_worker_ips plan) []"
  note E = D [unfolded net option.case, folded cp_m_def cp_a_def w_ms_def w_as_def]
  from E have n: "length w_ms = length (dp_worker_names plan)" "length w_as = length (dp_worker_names plan)"
    by (auto split: if_splits)
  from E have parts: "is_valid_mac cp_m" "is_valid_cidr cp_a"
    "check_entries is_valid_mac ''EXTRA_NET_WORKER_MACS'' 0 w_ms = Ok ()"
    "check_entries is_valid_cidr ''EXTRA_NET_WORKER_IPS'' 0 w_as = Ok ()"
    "check_extra_macs (primary_by_mac plan macs) [] (cp_m # w_ms) = Ok ()"
    "check_extra_ips [] (cp_a # w_as) = Ok ()"
    "check_overlap (cluster_ranges plan) (cp_a # w_as) = Ok ()"
    by (auto simp del: check_extra_macs.simps check_extra_ips.simps check_overlap.simps split: if_splits)
  from E have cp: "cp = \<lparr>n2_network = net, n2_mac = cp_m, n2_ip = cp_a\<rparr>"
    and ws: "ws = map (\<lambda>(m, a). \<lparr>n2_network = net, n2_mac = m, n2_ip = a\<rparr>) (zip w_ms w_as)"
    by (auto split: if_splits)
  have maps: "map n2_mac (cp # ws) = cp_m # w_ms" "map n2_ip (cp # ws) = cp_a # w_as"
    using zipped [of w_ms w_as net] n by (simp_all add: cp ws)
  show "length ws = length (dp_worker_names plan)" using n by (simp add: ws)
  show "list_all is_valid_mac (map n2_mac (cp # ws))" "list_all is_valid_cidr (map n2_ip (cp # ws))"
    unfolding maps using parts by (simp_all add: check_entries_ok)
  show "check_extra_macs (primary_by_mac plan macs) [] (map n2_mac (cp # ws)) = Ok ()"
    "check_extra_ips [] (map n2_ip (cp # ws)) = Ok ()"
    "check_overlap (cluster_ranges plan) (map n2_ip (cp # ws)) = Ok ()"
    unfolding maps using parts by simp_all
qed

lemma addresses_outside:
  assumes "check_overlap (cluster_ranges plan) (map (\<lambda>(x, p). cidr_text x p) xs) = Ok ()"
    and "(x, p) \<in> set xs" "ipv4_wf x"
  shows "outside_ranges plan x"
proof -
  from assms(2) have "cidr_text x p \<in> set (map (\<lambda>(x, p). cidr_text x p) xs)" by force
  from check_overlap_ok [OF assms(1) this] have ranges: "check_ranges (ipv4_display x) (cluster_ranges plan) = Ok ()"
    by (simp add: bare_cidr_text)
  show ?thesis
    unfolding outside_ranges_def
  proof (clarify)
    fix name r y q
    assume r: "(name, r) \<in> set (cluster_ranges plan)" "filled r = Some (cidr_text y q)"
      and y: "ipv4_wf y" "q \<le> 32" and same: "same_net q x y"
    from check_ranges_ok [OF ranges r] ip_in_cidr_net [OF assms(3) y] same show False by simp
  qed
qed

text \<open>A derived MAC is well-formed, and a well-formed MAC needs no quoting in a command line.\<close>

lemma hexdigit_not_colon: "list_all is_ascii_hexdigit s \<Longrightarrow> CHR '':'' \<notin> set s"
  by (auto simp: list_all_iff is_ascii_hexdigit_def is_ascii_digit_def)

lemma take_hex:
  assumes "length h = 64" "list_all is_ascii_hexdigit h" "i \<le> 4"
  shows "length (take 2 (drop i h)) = 2" "list_all is_ascii_hexdigit (take 2 (drop i h))"
  using assms by (auto simp: list_all_iff dest: in_set_takeD in_set_dropD)

lemma derive_primary_mac_valid: "is_valid_mac (derive_primary_mac name)"
proof -
  let ?h = "sha256_hex (as_bytes name)"
  note hex = take_hex [OF length_sha256_hex sha256_hex_hexdigits, of _ "as_bytes name"]
  have "split_on (CHR '':'') (derive_primary_mac name) = [''52'', ''54'', ''00'', take 2 ?h, take 2 (drop 2 ?h), take 2 (drop 4 ?h)]"
    using hexdigit_not_colon [OF hex(2) [of 0]] hexdigit_not_colon [OF hex(2) [of 2]] hexdigit_not_colon [OF hex(2) [of 4]]
    by (simp add: derive_primary_mac_def split_on_append split_on_free Let_def)
  then show ?thesis
    using hex [of 0] hex [of 2] hex [of 4] by (simp add: is_valid_mac_def is_ascii_hexdigit_def is_ascii_digit_def)
qed

lemma valid_mac_plain: "is_valid_mac m \<Longrightarrow> list_all sh_plain m"
proof -
  have join: "list_all sh_plain (join '':'' ps)" if "list_all (list_all sh_plain) ps" for ps
    using that by (induction "'':''" ps rule: join.induct) (simp_all add: sh_plain_char)
  have "is_ascii_hexdigit c \<Longrightarrow> sh_plain c" for c
    by (auto simp: sh_plain_def char_class_defs)
  moreover assume "is_valid_mac m"
  ultimately have "list_all (list_all sh_plain) (split_on (CHR '':'') m)"
    by (auto simp: is_valid_mac_def list_all_iff Let_def)
  from join [OF this] show ?thesis by (simp add: split_on_join)
qed

text \<open>The second interfaces a validation yields.\<close>

definition extra_nets :: "(net2 \<times> net2 list) option \<Rightarrow> net2 list" where
  "extra_nets e = (case e of None \<Rightarrow> [] | Some (cp, ws) \<Rightarrow> cp # ws)"


definition demo_net :: deploy_plan where
  "demo_net = \<lparr>dp_config_path = ''c'', dp_cp_name = ''cp'', dp_worker_names = [''w1''], dp_image_source = ''ghcr'',
     dp_ghcr_tag = ''v1'', dp_cp_memory = 1, dp_cp_vcpus = 1, dp_worker_memory = 1, dp_worker_vcpus = 1,
     dp_pool_dir = ''/p'', dp_run_verify = False, dp_auto_update_cp = False, dp_switch_to_ghcr = False,
     dp_enable_cloud_init = 1, dp_ssh_pubkey_file = ''k.pub'', dp_kvm_host = None, dp_no_sudo = False,
     dp_dry_run = True, dp_bib = ''b'', dp_podman_root = None, dp_podman_runroot = None,
     dp_storage_driver = None, dp_force_rebuild = False, dp_strict_cache = False, dp_repo_root = ''.'',
     dp_bootc_update_schedule = None, dp_bootc_update_repo_k8s = None, dp_bootc_update_repo_worker = None,
     dp_pod_cidr = Some ''10.244.0.0/16'', dp_service_cidr = None, dp_cp_ip = None, dp_worker_ips = None,
     dp_cp_mac = Some ''52:54:00:00:00:0a'', dp_worker_macs = Some [''52:54:00:00:00:0b''],
     dp_extra_network = Some ''vf'', dp_extra_net_cp_mac = Some ''52:54:00:00:01:0A'',
     dp_extra_net_cp_ip = Some ''10.0.0.241/24'', dp_extra_net_worker_macs = Some [''52:54:00:00:01:0b''],
     dp_extra_net_worker_ips = Some [''10.0.0.242/24''], dp_cp_ready_retries = 60,
     dp_cp_ready_sleep_secs = 10, dp_token_ttl = ''2h''\<rparr>"


end
