(* ===== verification/Deploy_Render.thy ===== *)
theory Deploy_Render
  imports Deploy_Net
begin

text \<open>
  The texts \<open>hbird deploy-cluster\<close> builds (\<open>commands/deploy_cluster.rs\<close>): shell command lines for the KVM
  host and the cloud-init user data. \<open>sh_quote\<close> is the third quoting function of the program, the
  third interpretation of \<open>shell_quoter\<close>.
\<close>

section \<open>Command lines\<close>

definition sh_quote_plain :: "char \<Rightarrow> bool" where
  "sh_quote_plain b \<longleftrightarrow> is_ascii_alphanumeric b \<or> b \<in> set ''-_./:''"

definition sh_quote :: "string \<Rightarrow> string" where
  "sh_quote s =
     (if s = [] then [SQ, SQ]
      else if list_all sh_quote_plain s then s
      else [SQ] @ sq_body s @ [SQ])"

lemma reads_as_sh_quote: "reads_as (sh_quote s) s"
proof (cases "s = [] \<or> \<not> list_all sh_quote_plain s")
  case True
  then show ?thesis using reads_as_single_quote [of s] by (auto simp: sh_quote_def)
next
  case False
  then have "list_all sh_plain s" by (auto simp: list_all_iff sh_plain_def sh_quote_plain_def)
  with False show ?thesis by (simp add: sh_quote_def reads_as_plain)
qed

interpretation dq: shell_quoter sh_quote
  by unfold_locales (rule reads_as_sh_quote)

definition derive_privkey_path :: "string \<Rightarrow> string" where
  "derive_privkey_path pubkey_file = unwrap_or (strip_suffix ''.pub'' pubkey_file) pubkey_file"

definition cp_ssh_cmd :: "string \<Rightarrow> string \<Rightarrow> string \<Rightarrow> string" where
  "cp_ssh_cmd privkey_path ip remote_cmd =
     ''ssh -i '' @ sh_quote privkey_path @ '' -o StrictHostKeyChecking=no -o UserKnownHostsFile=/dev/null root@''
     @ ip @ '' '' @ sh_quote remote_cmd"

definition podman_storage_prefix :: "deploy_plan \<Rightarrow> string" where
  "podman_storage_prefix plan =
     (let parts =
        (case dp_storage_driver plan of Some d \<Rightarrow> [''--storage-driver '' @ sh_quote d] | None \<Rightarrow> [])
        @ (case dp_podman_root plan of Some r \<Rightarrow> [''--root '' @ sh_quote r] | None \<Rightarrow> [])
        @ (case dp_podman_runroot plan of Some rr \<Rightarrow> [''--runroot '' @ sh_quote rr] | None \<Rightarrow> []) in
      if parts = [] then [] else join '' '' parts @ '' '')"

definition podman_pull_cmd :: "deploy_plan \<Rightarrow> string \<Rightarrow> string" where
  "podman_pull_cmd plan image_ref = ''podman '' @ podman_storage_prefix plan @ ''pull '' @ sh_quote image_ref"

definition make_image_cmd :: "string \<Rightarrow> string \<Rightarrow> string" where
  "make_image_cmd repo_root target = ''ENABLE_CLOUD_INIT=1 make -C '' @ sh_quote repo_root @ '' '' @ target"

definition bib_run_cmd :: "deploy_plan \<Rightarrow> string \<Rightarrow> string \<Rightarrow> string" where
  "bib_run_cmd plan image_ref bib_config_path =
     (let storage_src = unwrap_or (dp_podman_root plan) ''/var/lib/containers/storage'' in
      ''podman '' @ podman_storage_prefix plan
      @ ''run --rm --privileged --pull=newer --security-opt label=type:unconfined_t''
      @ (case dp_storage_driver plan of Some d \<Rightarrow> '' -e STORAGE_DRIVER='' @ sh_quote d | None \<Rightarrow> [])
      @ '' -v '' @ sh_quote bib_config_path @ '':/config.toml:ro''
      @ '' -v '' @ sh_quote (dp_pool_dir plan) @ '':/output''
      @ '' -v '' @ sh_quote storage_src @ '':/var/lib/containers/storage''
      @ '' '' @ sh_quote (dp_bib plan)
      @ '' --type qcow2 --rootfs ext4 --local '' @ sh_quote image_ref)"

definition podman_inspect_vcs_ref_cmd :: "deploy_plan \<Rightarrow> string \<Rightarrow> string" where
  "podman_inspect_vcs_ref_cmd plan image_ref =
     ''podman '' @ podman_storage_prefix plan @ ''image inspect --format '' @ quoted REVISION_FORMAT
     @ '' '' @ sh_quote image_ref"

definition git_diff_cmd :: "string \<Rightarrow> string \<Rightarrow> string \<Rightarrow> string" where
  "git_diff_cmd repo_root git_ref containerfile =
     ''git -C '' @ sh_quote repo_root @ '' diff --quiet '' @ sh_quote git_ref @ '' -- '' @ sh_quote containerfile"

text \<open>A here-document: \<open>cat > f << 'END'\<close>, the content and the end line.\<close>

definition here_doc :: "string \<Rightarrow> string \<Rightarrow> string \<Rightarrow> string" where
  "here_doc target content eof =
     ''cat > '' @ target @ '' << '' @ quoted eof @ [NL] @ content @ [NL] @ eof"

definition DQS :: string where "DQS = [CHR 0x22]"

definition cloud_init_seed_cmd :: "string \<Rightarrow> string \<Rightarrow> string \<Rightarrow> string option \<Rightarrow> string" where
  "cloud_init_seed_cmd hostname ud_tmp out_iso net_cfg_tmp =
     (let hostname_q = sh_quote hostname; ud_q = sh_quote ud_tmp; iso_q = sh_quote out_iso;
          netcfg = DQS @ ''$_tmp/network-config'' @ DQS; ud = DQS @ ''$_tmp/user-data'' @ DQS; md = DQS @ ''$_tmp/meta-data'' @ DQS;
          (stage_nc, nc_localds, nc_isofile, rm_nc) =
            (case net_cfg_tmp of
               Some nc \<Rightarrow> (''cp '' @ sh_quote nc @ '' '' @ netcfg @ ''; '', '' --network-config '' @ netcfg, '' '' @ netcfg,
                 ''; rm -f -- '' @ sh_quote nc)
             | None \<Rightarrow> ([], [], [], []));
          iso = (\<lambda>tool. tool @ '' -output '' @ iso_q @ '' -volid cidata -joliet -rock '' @ ud @ '' '' @ md @ nc_isofile
            @ '' >/dev/null 2>&1; '')
      in ''set -euo pipefail; _tmp=$(mktemp -d -t hbird-ci-XXXXXX); cp '' @ ud_q @ '' '' @ ud @ ''; ''
         @ stage_nc @ ''printf '' @ quoted (''instance-id: hbird-%s-%s'' @ [BSL] @ ''nlocal-hostname: %s'' @ [BSL] @ ''n'')
         @ '' '' @ DQS @ ''$(date +%s)'' @ DQS @ '' '' @ DQS @ ''$$'' @ DQS @ '' '' @ hostname_q @ '' > '' @ md @ ''; ''
         @ ''if command -v cloud-localds >/dev/null 2>&1; then cloud-localds'' @ nc_localds @ '' '' @ iso_q @ '' '' @ ud @ '' '' @ md @ ''; ''
         @ ''elif command -v genisoimage >/dev/null 2>&1; then '' @ iso ''genisoimage''
         @ ''elif command -v mkisofs >/dev/null 2>&1; then '' @ iso ''mkisofs''
         @ ''elif command -v xorrisofs >/dev/null 2>&1; then '' @ iso ''xorrisofs''
         @ ''else echo '' @ quoted ''build_cloud_init_seed: need cloud-localds / genisoimage / mkisofs / xorrisofs''
         @ '' >&2; exit 1; fi; rm -rf -- '' @ DQS @ ''$_tmp'' @ DQS @ ''; rm -f -- '' @ ud_q @ rm_nc)"

section \<open>User data\<close>

record cp_overrides =
  co_schedule :: "string option"
  co_repo_k8s :: "string option"
  co_pod_cidr :: "string option"
  co_service_cidr :: "string option"
  co_net2_mac :: "string option"

record worker_overrides =
  wo_schedule :: "string option"
  wo_repo_worker :: "string option"
  wo_net2_mac :: "string option"

text \<open>Blocks both renderers push.\<close>

definition head_lines :: "string \<Rightarrow> string \<Rightarrow> string list" where
  "head_lines hostname pubkey =
     [''#cloud-config'', ''hostname: '' @ hostname, ''disable_root: false'', ''users:'', ''  - name: root'',
      ''    ssh_authorized_keys:'', ''      - '' @ pubkey]"

definition file_lines :: "string \<Rightarrow> string \<Rightarrow> string list \<Rightarrow> string list" where
  "file_lines path mode content =
     [''  - path: '' @ path, ''    owner: root:root'', ''    permissions: '' @ quoted mode, ''    content: |''] @ content"

definition opt_lines :: "string option \<Rightarrow> (string \<Rightarrow> string list) \<Rightarrow> string list" where
  "opt_lines x f = (case x of Some s \<Rightarrow> f s | None \<Rightarrow> [])"

definition schedule_lines :: "string \<Rightarrow> string list" where
  "schedule_lines schedule =
     file_lines ''/etc/systemd/system/bootc-semver-update.timer.d/schedule.conf'' ''0644''
       [''      [Timer]'', ''      OnCalendar='', ''      OnCalendar='' @ schedule]"

definition repo_lines :: "string \<Rightarrow> string list" where
  "repo_lines repo =
     file_lines ''/etc/hummingbird/bootc-update.env'' ''0644'' [''      REPO='' @ repo, ''      PREFIX=v'']"

definition reload_lines :: "string list" where
  "reload_lines = [''  - [ systemctl, daemon-reload ]'', ''  - [ systemctl, restart, bootc-semver-update.timer ]'']"

definition cp_user_data_lines :: "string \<Rightarrow> string \<Rightarrow> bool \<Rightarrow> string \<Rightarrow> bool \<Rightarrow> cp_overrides \<Rightarrow> string list" where
  "cp_user_data_lines name pubkey switch tag auto ov =
     (let schedule = filled (co_schedule ov); repo = filled (co_repo_k8s ov);
          pod = filled (co_pod_cidr ov); svc = filled (co_service_cidr ov) in
      head_lines name pubkey
      @ (if schedule \<noteq> None \<or> repo \<noteq> None \<or> pod \<noteq> None \<or> svc \<noteq> None then
           [''write_files:''] @ opt_lines schedule schedule_lines @ opt_lines repo repo_lines
           @ (if pod \<noteq> None \<or> svc \<noteq> None then
                file_lines ''/etc/hummingbird/k8s-init-local.env'' ''0600''
                  (opt_lines pod (\<lambda>p. [''      POD_CIDR='' @ p]) @ opt_lines svc (\<lambda>s. [''      SERVICE_CIDR='' @ s]))
              else [])
         else [])
      @ [''runcmd:''] @ opt_lines (filled (co_net2_mac ov)) net2_ipv6_off_lines
      @ (if switch then [''  - [ bootc, switch, ghcr.io/aatchison/hummingbird-k8s:'' @ tag @ '' ]''] else [])
      @ (if auto then
           [''  - [ systemctl, enable, --now, bootc-semver-update.timer ]'',
            ''  - [ systemctl, disable, --now, bootc-fetch-apply-updates.timer ]'']
         else [''  - [ systemctl, disable, --now, bootc-semver-update.timer ]''])
      @ (if auto \<and> schedule \<noteq> None then reload_lines else []))"

definition render_cp_user_data :: "string \<Rightarrow> string \<Rightarrow> bool \<Rightarrow> string \<Rightarrow> bool \<Rightarrow> cp_overrides \<Rightarrow> string" where
  "render_cp_user_data name pubkey switch tag auto ov = unlines (cp_user_data_lines name pubkey switch tag auto ov)"

definition worker_user_data_lines ::
  "string \<Rightarrow> string \<Rightarrow> string \<Rightarrow> bool \<Rightarrow> string \<Rightarrow> worker_overrides \<Rightarrow> string list" where
  "worker_user_data_lines name pubkey join_cmd switch tag ov =
     (let schedule = filled (wo_schedule ov); repo = filled (wo_repo_worker ov); mac = filled (wo_net2_mac ov) in
      head_lines name pubkey @ [''write_files:'']
      @ file_lines ''/etc/hummingbird/worker-join.env'' ''0600'' [''      '' @ join_cmd]
      @ opt_lines schedule schedule_lines @ opt_lines repo repo_lines
      @ (if switch \<or> schedule \<noteq> None \<or> mac \<noteq> None then
           [''runcmd:''] @ opt_lines mac net2_ipv6_off_lines
           @ (if switch then [''  - [ bootc, switch, ghcr.io/aatchison/hummingbird-k8s-worker:'' @ tag @ '' ]''] else [])
           @ (if schedule \<noteq> None then reload_lines else [])
         else []))"

definition render_worker_user_data ::
  "string \<Rightarrow> string \<Rightarrow> string \<Rightarrow> bool \<Rightarrow> string \<Rightarrow> worker_overrides \<Rightarrow> string" where
  "render_worker_user_data name pubkey join_cmd switch tag ov =
     unlines (worker_user_data_lines name pubkey join_cmd switch tag ov)"

section \<open>The image builder's configuration\<close>

definition escape_toml :: "string \<Rightarrow> string" where
  "escape_toml s = concat (map (\<lambda>c. if c = BSL then [BSL, BSL] else if c = CHR 0x22 then [BSL, CHR 0x22] else [c]) s)"

definition groups_str :: "string option \<Rightarrow> string \<Rightarrow> string" where
  "groups_str groups user_name =
     (case groups of
        Some g \<Rightarrow>
          (if user_name \<noteq> ''root'' then
             let items = filter (\<lambda>s. s \<noteq> []) (map trim (split_on (CHR '','') g)) in
             if items = [] then []
             else ''groups = ['' @ join '', '' (map (\<lambda>s. DQS @ escape_toml s @ DQS) items) @ '']''
           else [])
      | None \<Rightarrow> [])"

text \<open>\<open>openssl passwd -6\<close> hashes the password; without a hash there is no password line.\<close>

definition password_str :: "'w host \<Rightarrow> string option \<Rightarrow> ('w world, 'e, string) action" where
  "password_str host password =
     (case filled password of
        Some pw \<Rightarrow>
          matchA (proc_run host None [''openssl'', ''passwd'', ''-6'', trim pw]) (\<lambda>r.
            case r of
              Ok out \<Rightarrow>
                (if exit_success (ro_status out) then
                   let pwd_str = trim (ro_stdout out) in
                   retA (if pwd_str \<noteq> [] then ''password = '' @ DQS @ pwd_str @ DQS else [])
                 else retA [])
            | Err _ \<Rightarrow> retA [])
      | None \<Rightarrow> retA [])"

definition render_bib_config_with ::
  "'w host \<Rightarrow> string \<Rightarrow> string \<Rightarrow> string option \<Rightarrow> string option \<Rightarrow> string \<Rightarrow> ('w world, 'e, string) action" where
  "render_bib_config_with host pubkey user_name groups password enable_root_ssh =
     bindA (password_str host password) (\<lambda>pw.
     let root_section =
       (if enable_root_ssh \<noteq> ''0'' then
          [NL] @ ''[[customizations.user]]'' @ [NL] @ ''name = '' @ DQS @ ''root'' @ DQS @ [NL]
          @ ''key = '' @ DQS @ DQS @ DQS @ trim pubkey @ DQS @ DQS @ DQS
        else []) in
     retA (''[[customizations.user]]'' @ [NL] @ ''name = '' @ DQS @ user_name @ DQS @ [NL]
       @ ''key = '' @ DQS @ DQS @ DQS @ pubkey @ DQS @ DQS @ DQS @ [NL]
       @ groups_str groups user_name @ [NL] @ pw @ root_section))"

definition render_bib_config :: "'w host \<Rightarrow> string \<Rightarrow> ('w world, 'e, string) action" where
  "render_bib_config host pubkey =
     render_bib_config_with host pubkey (unwrap_or (host_var host ''VM_USER'') ''core'')
       (host_var host ''VM_USER_GROUPS'') (host_var host ''VM_PASSWORD'')
       (unwrap_or (host_var host ''ENABLE_ROOT_SSH'') ''1'')"

section \<open>Every argument reaches its command as one word\<close>

definition storage_words :: "deploy_plan \<Rightarrow> string list" where
  "storage_words plan =
     opt_words (dp_storage_driver plan) (\<lambda>d. [''--storage-driver'', d]) @ opt_words (dp_podman_root plan) (\<lambda>r. [''--root'', r])
     @ opt_words (dp_podman_runroot plan) (\<lambda>r. [''--runroot'', r])"

lemmas dq_simps = argv_simps dq.lex_quote dq.lex_quote_end

lemma lex_storage: "sh_lex None (podman_storage_prefix plan @ t) = map_option (\<lambda>x. storage_words plan @ x) (sh_lex None t)"
  by (cases "dp_storage_driver plan"; cases "dp_podman_root plan"; cases "dp_podman_runroot plan")
    (simp_all add: podman_storage_prefix_def storage_words_def opt_words_def dq_simps option.map_comp option.map_ident comp_def del: sh_lex.simps(2))

lemma ipv4_plain: "list_all sh_plain (ipv4_display x)"
  by (cases x) (auto simp: list_all_iff sh_plain_def dest!: show_nat_set ascii_digit_alphanumeric)

lemma ipv4_display_nonempty [simp]: "ipv4_display x \<noteq> []"
  by (cases x) simp

lemma sq_body_free: "SQ \<notin> set s \<Longrightarrow> sq_body s = s"
  by (induction s) auto

lemma quoted_revision: "quoted REVISION_FORMAT = shell_single_quote REVISION_FORMAT"
proof -
  have "SQ \<notin> set REVISION_FORMAT" by (simp add: REVISION_FORMAT_def)
  then show ?thesis by (simp add: quoted_def shell_single_quote_def sq_body_free)
qed

text \<open>C14. The commands built with \<open>sh_quote\<close> are read by the shell as one command with the intended
  arguments, whatever the image reference, the paths, the storage options and the remote command
  contain: the pull and the inspection of an image, the image builder with its mounts, the
  comparison with git, and the command sent to the control plane over SSH, which arrives as one
  argument.\<close>

theorem deploy_commands_argv:
  "sh_words (podman_pull_cmd plan img) = Some (''podman'' # storage_words plan @ [''pull'', img])
   \<and> sh_words (podman_inspect_vcs_ref_cmd plan img) =
       Some (''podman'' # storage_words plan @ [''image'', ''inspect'', ''--format'', REVISION_FORMAT, img])
   \<and> sh_words (bib_run_cmd plan img conf) =
       Some (''podman'' # storage_words plan @ [''run'', ''--rm'', ''--privileged'', ''--pull=newer'', ''--security-opt'',
          ''label=type:unconfined_t'']
         @ opt_words (dp_storage_driver plan) (\<lambda>d. [''-e'', ''STORAGE_DRIVER='' @ d])
         @ [''-v'', conf @ '':/config.toml:ro'', ''-v'', dp_pool_dir plan @ '':/output'', ''-v'',
            unwrap_or (dp_podman_root plan) ''/var/lib/containers/storage'' @ '':/var/lib/containers/storage'', dp_bib plan,
            ''--type'', ''qcow2'', ''--rootfs'', ''ext4'', ''--local'', img])
   \<and> sh_words (git_diff_cmd root ref file) = Some [''git'', ''-C'', root, ''diff'', ''--quiet'', ref, ''--'', file]
   \<and> sh_words (cp_ssh_cmd key (ipv4_display ip) cmd) =
       Some [''ssh'', ''-i'', key, ''-o'', ''StrictHostKeyChecking=no'', ''-o'', ''UserKnownHostsFile=/dev/null'',
         ''root@'' @ ipv4_display ip, cmd]"
proof (intro conjI)
  have podman: "sh_words (''podman '' @ t) = map_option (Cons ''podman'') (sh_lex None t)" for t
    by (simp add: dq_simps del: sh_lex.simps(2))
  show "sh_words (podman_pull_cmd plan img) = Some (''podman'' # storage_words plan @ [''pull'', img])"
    unfolding podman_pull_cmd_def podman lex_storage by (simp add: dq_simps del: sh_lex.simps(2))
  show "sh_words (podman_inspect_vcs_ref_cmd plan img) =
       Some (''podman'' # storage_words plan @ [''image'', ''inspect'', ''--format'', REVISION_FORMAT, img])"
    unfolding podman_inspect_vcs_ref_cmd_def podman lex_storage quoted_revision
    by (simp add: dq_simps del: sh_lex.simps(2))
  show "sh_words (bib_run_cmd plan img conf) =
       Some (''podman'' # storage_words plan @ [''run'', ''--rm'', ''--privileged'', ''--pull=newer'', ''--security-opt'',
          ''label=type:unconfined_t'']
         @ opt_words (dp_storage_driver plan) (\<lambda>d. [''-e'', ''STORAGE_DRIVER='' @ d])
         @ [''-v'', conf @ '':/config.toml:ro'', ''-v'', dp_pool_dir plan @ '':/output'', ''-v'',
            unwrap_or (dp_podman_root plan) ''/var/lib/containers/storage'' @ '':/var/lib/containers/storage'', dp_bib plan,
            ''--type'', ''qcow2'', ''--rootfs'', ''ext4'', ''--local'', img])"
    unfolding bib_run_cmd_def Let_def podman lex_storage
    by (cases "dp_storage_driver plan") (simp_all add: dq_simps opt_words_def del: sh_lex.simps(2))
  show "sh_words (git_diff_cmd root ref file) = Some [''git'', ''-C'', root, ''diff'', ''--quiet'', ref, ''--'', file]"
    unfolding git_diff_cmd_def by (simp add: dq_simps del: sh_lex.simps(2))
  show "sh_words (cp_ssh_cmd key (ipv4_display ip) cmd) =
       Some [''ssh'', ''-i'', key, ''-o'', ''StrictHostKeyChecking=no'', ''-o'', ''UserKnownHostsFile=/dev/null'',
         ''root@'' @ ipv4_display ip, cmd]"
    unfolding cp_ssh_cmd_def by (simp add: dq_simps ipv4_plain del: sh_lex.simps(2) ipv4_display.simps)
qed

section \<open>Here-documents\<close>

text \<open>What the shell reads as the body of a here-document with a quoted end word: the lines after the
  command line up to the first that is the end word; without one there is no document.\<close>

definition here_doc_body :: "string \<Rightarrow> string \<Rightarrow> string option" where
  "here_doc_body eof script =
     (let ls = tl (split_on NL script) in
      if eof \<in> set ls then Some (unlines (takeWhile (\<lambda>l. l \<noteq> eof) ls)) else None)"

definition clear :: "string \<Rightarrow> string \<Rightarrow> bool" where
  "clear eof s \<longleftrightarrow> eof \<notin> set (split_on NL s)"

lemma unlines_split_on: "unlines (split_on NL s) = s @ [NL]"
  by (induction s) (auto simp: unlines_def split: list.splits)

lemma split_on_cons_append: "split_on c (a @ c # b) = split_on c a @ split_on c b"
  by (induction a) (auto split: list.splits)

lemma here_doc_delivers:
  assumes "NL \<notin> set target" "NL \<notin> set eof" "clear eof content"
  shows "here_doc_body eof (here_doc target content eof) = Some (content @ [NL])"
proof -
  have "NL \<notin> set (''cat > '' @ target @ '' << '' @ quoted eof)" using assms(1,2) by (simp add: quoted_def)
  from split_on_append [OF this, of "content @ NL # eof"]
  have "split_on NL (here_doc target content eof) = (''cat > '' @ target @ '' << '' @ quoted eof) # split_on NL content @ [eof]"
    using assms(2) by (simp add: here_doc_def split_on_cons_append split_on_free)
  moreover have "takeWhile (\<lambda>l. l \<noteq> eof) (split_on NL content @ [eof]) = split_on NL content"
    using assms(3) by (subst takeWhile_append2) (auto simp: clear_def)
  ultimately show ?thesis by (simp add: here_doc_body_def unlines_split_on)
qed

lemma split_on_unlines: "split_on NL (unlines ls) = concat (map (split_on NL) ls) @ [[]]"
  by (induction ls) (simp_all add: unlines_def split_on_cons_append)

lemma clear_unlines: "eof \<noteq> [] \<Longrightarrow> clear eof (unlines ls) \<longleftrightarrow> list_all (clear eof) ls"
  by (auto simp: clear_def split_on_unlines list_all_iff)

text \<open>A line of a template: a fixed beginning that is not the end word's, then text of the
  configuration.\<close>

lemma split_on_prefix: "c \<notin> set p \<Longrightarrow> split_on c (p @ s) = (p @ hd (split_on c s)) # tl (split_on c s)"
  by (induction p) (auto split: list.splits)

lemma clear_prefixed:
  assumes "NL \<notin> set p" "strip_prefix p eof = None" "eof \<notin> set (tl (split_on NL s))"
  shows "clear eof (p @ s)"
proof -
  have "eof \<noteq> p @ x" for x using assms(2) by auto
  with assms(1,3) show ?thesis by (simp add: clear_def split_on_prefix)
qed

definition one_line :: "string \<Rightarrow> bool" where
  "one_line s \<longleftrightarrow> NL \<notin> set s"

lemma clear_line: "one_line s \<Longrightarrow> s \<noteq> eof \<Longrightarrow> clear eof s"
  by (simp add: clear_def one_line_def split_on_free)

abbreviation CI_EOF :: string where "CI_EOF \<equiv> ''HBIRD_CI_EOF''"

lemma one_line_simps [simp]:
  "one_line []" "one_line (c # s) \<longleftrightarrow> c \<noteq> NL \<and> one_line s" "one_line (a @ b) \<longleftrightarrow> one_line a \<and> one_line b"
  by (auto simp: one_line_def)

lemma clear_start: "c \<noteq> CHR ''H'' \<Longrightarrow> one_line (c # s) \<Longrightarrow> clear CI_EOF (c # s)"
  by (rule clear_line) auto

definition opt_line :: "string option \<Rightarrow> bool" where
  "opt_line x \<longleftrightarrow> (case x of Some s \<Rightarrow> one_line s | None \<Rightarrow> True)"

lemma opt_line_filled: "opt_line x \<Longrightarrow> filled x = Some s \<Longrightarrow> one_line s"
  by (auto simp: opt_line_def filled_def split: option.splits if_splits)

lemma clear_head:
  assumes "one_line name" "CI_EOF \<notin> set (tl (split_on NL pubkey))"
  shows "list_all (clear CI_EOF) (head_lines name pubkey)"
proof -
  have "clear CI_EOF (''      - '' @ pubkey)" by (rule clear_prefixed) (use assms(2) in simp_all)
  with assms(1) show ?thesis by (simp add: head_lines_def clear_start)
qed

lemma clear_opt:
  assumes "opt_line x" "\<And>s. one_line s \<Longrightarrow> list_all (clear CI_EOF) (f s)"
  shows "list_all (clear CI_EOF) (opt_lines (filled x) f)"
  using assms opt_line_filled [of x] by (auto simp: opt_lines_def split: option.split)

lemma clear_blocks:
  "one_line s \<Longrightarrow> list_all (clear CI_EOF) (schedule_lines s)"
  "one_line s \<Longrightarrow> list_all (clear CI_EOF) (repo_lines s)"
  "one_line s \<Longrightarrow> list_all (clear CI_EOF) (net2_ipv6_off_lines s)"
  "list_all (clear CI_EOF) reload_lines"
  by (simp_all add: schedule_lines_def repo_lines_def net2_ipv6_off_lines_def reload_lines_def file_lines_def quoted_def clear_start)

lemma clear_cp:
  assumes "list_all one_line [name, tag]" "CI_EOF \<notin> set (tl (split_on NL pubkey))"
    and "list_all opt_line [co_schedule ov, co_repo_k8s ov, co_pod_cidr ov, co_service_cidr ov, co_net2_mac ov]"
  shows "clear CI_EOF (render_cp_user_data name pubkey switch tag auto ov)"
proof -
  have cidr: "list_all (clear CI_EOF) (opt_lines (filled (co_pod_cidr ov)) (\<lambda>p. [''      POD_CIDR='' @ p]))"
    "list_all (clear CI_EOF) (opt_lines (filled (co_service_cidr ov)) (\<lambda>p. [''      SERVICE_CIDR='' @ p]))"
    by (rule clear_opt; use assms(3) in \<open>simp add: clear_start\<close>)+
  have blocks: "list_all (clear CI_EOF) (opt_lines (filled (co_schedule ov)) schedule_lines)"
    "list_all (clear CI_EOF) (opt_lines (filled (co_repo_k8s ov)) repo_lines)"
    "list_all (clear CI_EOF) (opt_lines (filled (co_net2_mac ov)) net2_ipv6_off_lines)"
    by (rule clear_opt; use assms(3) clear_blocks in simp)+
  show ?thesis
    using assms(1) clear_head [of name pubkey] assms(2) cidr blocks clear_blocks(4)
    by (simp add: render_cp_user_data_def clear_unlines cp_user_data_lines_def Let_def file_lines_def quoted_def clear_start)
qed

lemma clear_worker:
  assumes "list_all one_line [name, join_cmd, tag]" "CI_EOF \<notin> set (tl (split_on NL pubkey))"
    and "list_all opt_line [wo_schedule ov, wo_repo_worker ov, wo_net2_mac ov]"
  shows "clear CI_EOF (render_worker_user_data name pubkey join_cmd switch tag ov)"
proof -
  have blocks: "list_all (clear CI_EOF) (opt_lines (filled (wo_schedule ov)) schedule_lines)"
    "list_all (clear CI_EOF) (opt_lines (filled (wo_repo_worker ov)) repo_lines)"
    "list_all (clear CI_EOF) (opt_lines (filled (wo_net2_mac ov)) net2_ipv6_off_lines)"
    by (rule clear_opt; use assms(3) clear_blocks in simp)+
  show ?thesis
    using assms(1) clear_head [of name pubkey] assms(2) blocks clear_blocks(4)
    by (simp add: render_worker_user_data_def clear_unlines worker_user_data_lines_def Let_def file_lines_def quoted_def clear_start)
qed



end
