(* ===== verification/Deploy_Cluster.thy ===== *)
theory Deploy_Cluster
  imports Deploy_Render
begin

text \<open>
  The steps of \<open>hbird deploy-cluster\<close> (\<open>commands/deploy_cluster.rs\<close>), in the order \<open>run\<close> takes them: the
  checks, the images, the disk templates, the control plane (seed, machine, address, Ready), the
  join token, the workers, the cluster's Ready, the verification and the summary. Every step is the
  whole function, its dry run included. The products of \<open>u32\<close> in messages wrap, as in a release
  build.
\<close>

section \<open>Running a command or giving up\<close>

text \<open>\<open>.map_err(|e| anyhow!("...{e}"))?\<close> and \<open>let _ = ...\<close>.\<close>

definition or_bail :: "string \<Rightarrow> ('w world, virt_error, 'a) action \<Rightarrow> ('w, 'a) act" where
  "or_bail msg m =
     matchA m (\<lambda>r. case r of Ok a \<Rightarrow> retA a | Err e \<Rightarrow> failA [msg @ virt_error_display e])"

definition dropA :: "('w world, virt_error, 'a) action \<Rightarrow> ('w, unit) act" where
  "dropA m = matchA m (\<lambda>_. retA ())"

section \<open>Images\<close>

definition FORGEJO_REGISTRY :: string where "FORGEJO_REGISTRY = ''forgejo.atchison.io''"
definition GHCR_REGISTRY :: string where "GHCR_REGISTRY = ''ghcr.io''"

definition image_refs :: "string \<Rightarrow> string \<Rightarrow> (string \<times> string) option" where
  "image_refs source tag =
     (if source = ''ghcr'' then
        Some (GHCR_REGISTRY @ ''/aatchison/hummingbird-k8s:'' @ tag, GHCR_REGISTRY @ ''/aatchison/hummingbird-k8s-worker:'' @ tag)
      else if source = ''forgejo'' then
        Some (FORGEJO_REGISTRY @ ''/aatchison/hummingbird-k8s:'' @ tag, FORGEJO_REGISTRY @ ''/aatchison/hummingbird-k8s-worker:'' @ tag)
      else if source = ''local'' then
        Some (''localhost/hummingbird-k8s:latest'', ''localhost/hummingbird-k8s-worker:latest'')
      else None)"

text \<open>The freshness check of one pulled image.\<close>

definition assess_pulled :: "'w host \<Rightarrow> deploy_plan \<Rightarrow> string \<times> string \<times> string \<Rightarrow> ('w, unit) act" where
  "assess_pulled host plan = (\<lambda>(img, label, containerfile).
     bindA (image_vcs_ref host img) (\<lambda>v.
     let vcs = unwrap_or v [] in
     bindA (if vcs = [] then retA Unverifiable
            else containerfile_changed_since host (dp_repo_root plan) vcs [containerfile]) (\<lambda>freshness.
     case assess_ghcr_image freshness label vcs containerfile (dp_strict_cache plan) of
       Fresh \<Rightarrow> retA ()
     | Warn msg \<Rightarrow> deploy_log msg
     | GhcrStrictFail msg \<Rightarrow> failA [msg])))"

definition plan_image_acquisition ::
  "'w host \<Rightarrow> deploy_plan \<Rightarrow> 'w world connection \<Rightarrow> ('w, string \<times> string) act" where
  "plan_image_acquisition host plan conn =
     (case image_refs (dp_image_source plan) (dp_ghcr_tag plan) of
        None \<Rightarrow> failA [''IMAGE_SOURCE must be '' @ quoted ''ghcr'' @ '', '' @ quoted ''forgejo'' @ '', or '' @ quoted ''local''
          @ '' (got '' @ quoted (dp_image_source plan) @ '')'']
      | Some (cp_ref, worker_ref) \<Rightarrow>
          if dp_dry_run plan then
            bindA (if dp_image_source plan = ''local'' then
                     bindA (deploy_log (''DRY-RUN would build local image '' @ cp_ref @ '' via '' @ quoted ''make image-k8s-with-cloud-init'')) (\<lambda>_.
                     deploy_log (''DRY-RUN would build local image '' @ worker_ref @ '' via '' @ quoted ''make image-worker-with-cloud-init''))
                   else
                     bindA (deploy_log (''DRY-RUN would podman pull '' @ cp_ref)) (\<lambda>_.
                     deploy_log (''DRY-RUN would podman pull '' @ worker_ref))) (\<lambda>_.
            retA (cp_ref, worker_ref))
          else
            bindA (if dp_image_source plan = ''local'' then
                     bindA (or_bail ''make image-k8s-with-cloud-init failed: ''
                       (exec_shell conn (make_image_cmd (dp_repo_root plan) ''image-k8s-with-cloud-init''))) (\<lambda>_.
                     bindA (or_bail ''make image-worker-with-cloud-init failed: ''
                       (exec_shell conn (make_image_cmd (dp_repo_root plan) ''image-worker-with-cloud-init''))) (\<lambda>_.
                     retA ()))
                   else
                     bindA (or_bail (''podman pull '' @ cp_ref @ '' failed: '') (exec_shell conn (podman_pull_cmd plan cp_ref))) (\<lambda>_.
                     bindA (or_bail (''podman pull '' @ worker_ref @ '' failed: '') (exec_shell conn (podman_pull_cmd plan worker_ref))) (\<lambda>_.
                     forA [(cp_ref, ''CP image'', ''containers/k8s/Containerfile''),
                           (worker_ref, ''worker image'', ''containers/k8s-worker/Containerfile'')] (assess_pulled host plan)))) (\<lambda>_.
            retA (cp_ref, worker_ref)))"

section \<open>Disk templates\<close>

definition compute_expected_build_id ::
  "'w host \<Rightarrow> deploy_plan \<Rightarrow> string \<Rightarrow> 'w world connection \<Rightarrow> ('w, string option) act" where
  "compute_expected_build_id host plan image_ref conn =
     (if dp_image_source plan = ''ghcr'' \<or> dp_image_source plan = ''forgejo'' then
        matchA (exec_shell conn (podman_inspect_vcs_ref_cmd plan image_ref)) (\<lambda>r.
          case r of
            Err _ \<Rightarrow> retA None
          | Ok out \<Rightarrow> retA (build_id (dp_image_source plan) (trim out)))
      else if dp_image_source plan = ''local'' then
        bindA (containerfile_hash host (path_join (dp_repo_root plan)
          (if contains ''worker'' image_ref then ''containers/k8s-worker/Containerfile''
           else ''containers/k8s/Containerfile''))) (\<lambda>hash.
        retA (case hash of None \<Rightarrow> None | Some h \<Rightarrow> build_id ''local'' h))
      else retA None)"

definition cat_pubkey :: "deploy_plan \<Rightarrow> string" where
  "cat_pubkey plan = ''cat -- '' @ sh_quote (dp_ssh_pubkey_file plan)"

text \<open>The build itself, once the cached template is not to be used.\<close>

definition run_bib :: "'w host \<Rightarrow> deploy_plan \<Rightarrow> string \<Rightarrow> string \<Rightarrow> string option \<Rightarrow> 'w world connection \<Rightarrow> ('w, unit) act" where
  "run_bib host plan image_ref qcow_path expected_id conn =
     bindA (or_bail (''could not read SSH_PUBKEY_FILE '' @ dp_ssh_pubkey_file plan @ '': '')
       (exec_shell conn (cat_pubkey plan))) (\<lambda>pubkey_contents.
     bindA (render_bib_config host (trim pubkey_contents)) (\<lambda>content.
     let bib_config_tmp = ''/tmp/hbird-bib-config-'' @ show_nat (host_pid host) @ ''.toml'';
         staging = dp_pool_dir plan @ ''/qcow2'';
         staging_qcow = staging @ ''/disk.qcow2'' in
     bindA (or_bail (''could not write bib config to '' @ bib_config_tmp @ '': '')
       (exec_shell conn (here_doc (sh_quote bib_config_tmp) content ''HBIRD_BIB_EOF''))) (\<lambda>_.
     bindA (or_bail (''BIB build failed for '' @ image_ref @ '': '')
       (exec_shell conn (bib_run_cmd plan image_ref bib_config_tmp))) (\<lambda>_.
     bindA (or_bail (''could not move '' @ staging_qcow @ '' '' @ [CHR 0xE2, CHR 0x86, CHR 0x92] @ '' '' @ qcow_path @ '': '')
       (exec_shell conn (''mv -- '' @ sh_quote staging_qcow @ '' '' @ sh_quote qcow_path))) (\<lambda>_.
     bindA (or_bail ''could not remove BIB staging dir: ''
       (exec_shell conn (''rm -rf -- '' @ sh_quote staging))) (\<lambda>_.
     bindA (dropA (exec_shell conn (''rm -f -- '' @ sh_quote bib_config_tmp))) (\<lambda>_.
     bindA (dropA (exec_shell conn ''virsh pool-refresh default 2>/dev/null || true'')) (\<lambda>_.
     bindA (dropA (exec_shell conn ''virsh pool-refresh mass2 2>/dev/null || true'')) (\<lambda>_.
     case expected_id of
       Some i \<Rightarrow> dropA (exec_shell conn (''printf '' @ quoted (''%s'' @ [BSL] @ ''n'') @ '' '' @ sh_quote i @ '' > ''
         @ sh_quote (qcow_path @ ''.build-ref'')))
     | None \<Rightarrow> retA ())))))))))"

definition build_one_qcow2 ::
  "'w host \<Rightarrow> deploy_plan \<Rightarrow> string \<Rightarrow> string \<Rightarrow> 'w world connection \<Rightarrow> ('w, unit) act" where
  "build_one_qcow2 host plan image_ref qcow_path conn =
     bindA (compute_expected_build_id host plan image_ref conn) (\<lambda>expected_id.
     bindA (path_exists host qcow_path) (\<lambda>exists.
     if exists \<and> \<not> dp_force_rebuild plan then
       bindA (read_sidecar host qcow_path) (\<lambda>cached_id.
       case assess_qcow2_cache cached_id expected_id (dp_strict_cache plan) of
         Reuse \<Rightarrow> deploy_log (''cache: reusing '' @ qcow_path @ '' (build-ref matches or unverifiable)'')
       | Rebuild \<Rightarrow>
           bindA (deploy_log (''WARN: cache: '' @ qcow_path @ '' is stale '' @ EM_DASH @ '' rebuilding (STRICT_CACHE=0)'')) (\<lambda>_.
           run_bib host plan image_ref qcow_path expected_id conn)
       | StrictFail \<Rightarrow>
           failA [''cache: '' @ qcow_path @ '' is confirmed stale and STRICT_CACHE=1. ''
             @ ''Set FORCE_REBUILD=1 to override, or clear the qcow2 manually.''])
     else run_bib host plan image_ref qcow_path expected_id conn))"

definition plan_build_qcow2 ::
  "'w host \<Rightarrow> deploy_plan \<Rightarrow> string \<Rightarrow> string \<Rightarrow> 'w world connection \<Rightarrow> ('w, string \<times> string) act" where
  "plan_build_qcow2 host plan cp_ref worker_ref conn =
     (let cp_template = dp_pool_dir plan @ ''/hummingbird-k8s-deploy.qcow2'';
          worker_template = dp_pool_dir plan @ ''/hummingbird-k8s-worker-deploy.qcow2'' in
      if dp_dry_run plan then
        bindA (deploy_log (''DRY-RUN would render bib config + build '' @ cp_template @ '' from '' @ cp_ref)) (\<lambda>_.
        bindA (deploy_log (''DRY-RUN would render bib config + build '' @ worker_template @ '' from '' @ worker_ref)) (\<lambda>_.
        bindA (deploy_log (''  (bib invocation requires rootful podman '' @ EM_DASH
          @ '' see #311; the live path will honor `FORCE_REBUILD=1` to override #311(d)'' @ [SQ]
          @ ''s skip-if-exists shortcut landed in PR #336)'')) (\<lambda>_.
        retA (cp_template, worker_template))))
      else
        bindA (build_one_qcow2 host plan cp_ref cp_template conn) (\<lambda>_.
        bindA (build_one_qcow2 host plan worker_ref worker_template conn) (\<lambda>_.
        retA (cp_template, worker_template))))"

section \<open>Seeds\<close>

definition show_bool :: "bool \<Rightarrow> string" where
  "show_bool b = (if b then ''true'' else ''false'')"

definition write_net2_config_tmp ::
  "'w world connection \<Rightarrow> net2 option \<Rightarrow> string \<Rightarrow> ('w, string option) act" where
  "write_net2_config_tmp conn net tag =
     (case net of
        None \<Rightarrow> retA None
      | Some n \<Rightarrow>
          let nc_tmp = ''/tmp/hbird-netcfg-'' @ tag @ ''.yaml'' in
          bindA (or_bail (''could not write net2 network-config to '' @ nc_tmp @ '': '')
            (exec_shell conn (here_doc (quoted nc_tmp) (render_net2_network_config (n2_mac n) (n2_ip n)) ''HBIRD_CI_EOF''))) (\<lambda>_.
          retA (Some nc_tmp)))"

definition cp_user_data :: "deploy_plan \<Rightarrow> string \<Rightarrow> net2 option \<Rightarrow> string" where
  "cp_user_data plan pubkey net =
     render_cp_user_data (dp_cp_name plan) pubkey (dp_switch_to_ghcr plan) (dp_ghcr_tag plan) (dp_auto_update_cp plan)
       \<lparr>co_schedule = dp_bootc_update_schedule plan, co_repo_k8s = dp_bootc_update_repo_k8s plan,
        co_pod_cidr = dp_pod_cidr plan, co_service_cidr = dp_service_cidr plan, co_net2_mac = map_option n2_mac net\<rparr>"

definition plan_cp_seed ::
  "'w host \<Rightarrow> deploy_plan \<Rightarrow> 'w world connection \<Rightarrow> string \<Rightarrow> net2 option \<Rightarrow> ('w, string) act" where
  "plan_cp_seed host plan conn pubkey net =
     (let cp_seed = dp_pool_dir plan @ ''/'' @ dp_cp_name plan @ ''-seed.iso'' in
      if dp_dry_run plan then
        bindA (deploy_log (''DRY-RUN would render CP cloud-init user-data (auto-update-cp='' @ show_bool (dp_auto_update_cp plan)
          @ '', switch-to-ghcr='' @ show_bool (dp_switch_to_ghcr plan) @ '', ghcr-tag='' @ dp_ghcr_tag plan @ '')'')) (\<lambda>_.
        bindA (case net of
                 Some n \<Rightarrow> deploy_log (''DRY-RUN would render net2 network-config for '' @ dp_cp_name plan @ '' (mac=''
                   @ n2_mac n @ '', ip='' @ n2_ip n @ '') into the seed'')
               | None \<Rightarrow> retA ()) (\<lambda>_.
        bindA (deploy_log (''DRY-RUN would build CP cloud-init seed '' @ cp_seed)) (\<lambda>_.
        retA cp_seed)))
      else
        let ud_tmp = ''/tmp/hbird-cp-ud-'' @ show_nat (host_pid host) @ ''.yaml'' in
        bindA (or_bail (''could not write CP user-data to '' @ ud_tmp @ '': '')
          (exec_shell conn (here_doc (quoted ud_tmp) (cp_user_data plan pubkey net) ''HBIRD_CI_EOF''))) (\<lambda>_.
        bindA (write_net2_config_tmp conn net (''cp-'' @ show_nat (host_pid host))) (\<lambda>nc_tmp.
        bindA (or_bail ''cloud-init seed build for CP failed: ''
          (exec_shell conn (cloud_init_seed_cmd (dp_cp_name plan) ud_tmp cp_seed nc_tmp))) (\<lambda>_.
        retA cp_seed))))"

section \<open>Machines\<close>

text \<open>The guard before a machine is created: only a \<open>dominfo\<close> that virsh itself refuses lets it
  through.\<close>

definition guard_absent :: "'w world connection \<Rightarrow> string \<Rightarrow> string \<Rightarrow> string \<Rightarrow> ('w, unit) act" where
  "guard_absent conn name defined_msg probe_msg =
     matchA (dominfo conn name) (\<lambda>r.
       case r of
         Ok _ \<Rightarrow> failA [defined_msg]
       | Err (VirshFailed c err) \<Rightarrow> retA ()
       | Err e \<Rightarrow> failA [probe_msg @ virt_error_display e])"

definition extra_nic_of :: "net2 option \<Rightarrow> extra_nic option" where
  "extra_nic_of = map_option (\<lambda>n. \<lparr>nic_network = n2_network n, nic_mac = n2_mac n\<rparr>)"

definition reserve :: "'w world connection \<Rightarrow> string \<Rightarrow> string option \<Rightarrow> string \<Rightarrow> ('w, unit) act" where
  "reserve conn mac ip name =
     (case ip of Some i \<Rightarrow> ensure_dhcp_reservation conn ''default'' mac i name | None \<Rightarrow> retA ())"

definition dry_reserve :: "string \<Rightarrow> string option \<Rightarrow> string \<Rightarrow> ('w, unit) act" where
  "dry_reserve mac ip name =
     (case ip of
        Some i \<Rightarrow> deploy_log (''DRY-RUN would ensure DHCP reservation on '' @ quoted ''default'' @ '': '' @ name @ '' '' @ mac @ '' -> '' @ i)
      | None \<Rightarrow> retA ())"

definition dry_nic :: "net2 option \<Rightarrow> ('w, unit) act" where
  "dry_nic net =
     (case net of
        Some n \<Rightarrow> deploy_log (''DRY-RUN would attach second NIC: network='' @ n2_network n @ '',mac='' @ n2_mac n)
      | None \<Rightarrow> retA ())"

definition cp_spec :: "deploy_plan \<Rightarrow> string \<Rightarrow> primary_macs \<Rightarrow> net2 option \<Rightarrow> vm_spec" where
  "cp_spec plan cp_seed macs net =
     \<lparr>vm_name = dp_cp_name plan, vm_memory_mib = dp_cp_memory plan, vm_vcpus = dp_cp_vcpus plan,
      vm_disk_path = dp_pool_dir plan @ ''/'' @ dp_cp_name plan @ ''.qcow2'', vm_cdrom = Some cp_seed,
      vm_primary_mac = Some (pm_cp macs), vm_extra_nic = extra_nic_of net\<rparr>"

definition plan_cp_virt_install ::
  "deploy_plan \<Rightarrow> 'w world connection \<Rightarrow> string \<Rightarrow> string \<Rightarrow> primary_macs \<Rightarrow> net2 option \<Rightarrow> ('w, string) act" where
  "plan_cp_virt_install plan conn cp_template cp_seed macs net =
     (let cp_qcow = dp_pool_dir plan @ ''/'' @ dp_cp_name plan @ ''.qcow2''; ip = filled (dp_cp_ip plan);
          size = '' (memory='' @ show_nat (dp_cp_memory plan) @ '' vcpus='' @ show_nat (dp_cp_vcpus plan) in
      if dp_dry_run plan then
        bindA (deploy_log (''DRY-RUN would refuse to overwrite if CP VM '' @ quoted (dp_cp_name plan) @ '' already defined'')) (\<lambda>_.
        bindA (deploy_log (''DRY-RUN would clone '' @ cp_template @ '' -> '' @ cp_qcow @ '' (reflink=auto)'')) (\<lambda>_.
        bindA (dry_reserve (pm_cp macs) ip (dp_cp_name plan)) (\<lambda>_.
        bindA (dry_nic net) (\<lambda>_.
        bindA (deploy_log (''DRY-RUN would virt-install '' @ dp_cp_name plan @ size
          @ (if is_set (dp_cp_mac plan) then '', primary mac='' @ pm_cp macs else [])
          @ '') attaching '' @ cp_qcow @ '' + '' @ cp_seed)) (\<lambda>_.
        retA cp_qcow)))))
      else
        bindA (guard_absent conn (dp_cp_name plan)
          (''CP VM '' @ quoted (dp_cp_name plan) @ '' is already defined '' @ EM_DASH @ '' refusing to overwrite'')
          ''dominfo probe for CP failed: '') (\<lambda>_.
        bindA (deploy_log (''cloning CP qcow2 -> '' @ cp_qcow)) (\<lambda>_.
        bindA (or_bail (''reflink clone '' @ cp_template @ '' -> '' @ cp_qcow @ '' failed: '')
          (remote_cp_reflink conn cp_template cp_qcow)) (\<lambda>_.
        bindA (reserve conn (pm_cp macs) ip (dp_cp_name plan)) (\<lambda>_.
        bindA (deploy_log (''virt-install '' @ dp_cp_name plan @ size @ '', primary mac='' @ pm_cp macs @ '')'')) (\<lambda>_.
        bindA (or_bail (''virt-install '' @ dp_cp_name plan @ '' failed: '')
          (virt_install_vm conn (cp_spec plan cp_seed macs net))) (\<lambda>_.
        retA cp_qcow)))))))"

section \<open>The control plane comes up\<close>

text \<open>\<open>retry\<close> with a closure that leaves what it found in a cell: the value of the cell when the
  closure first says that it is ready.\<close>

fun retry_cell :: "'w env \<Rightarrow> nat \<Rightarrow> nat \<Rightarrow> ('w world, 'e, 'a option) action \<Rightarrow> ('w world, 'e, 'a option) action" where
  "retry_cell env 0 secs f = retA None"
| "retry_cell env (Suc n) secs f =
     bindA f (\<lambda>found.
       case found of
         Some a \<Rightarrow> retA (Some a)
       | None \<Rightarrow> bindA (whenA (n > 0 \<and> secs > 0) (sleep env secs)) (\<lambda>_. retry_cell env n secs f))"

lemma retry_of_cell:
  "retry env n secs (bindA f (\<lambda>x. retA (x \<noteq> None))) = bindA (retry_cell env n secs f) (\<lambda>x. retA (x \<noteq> None))"
proof (induction n)
  case (Suc n)
  let ?rest = "\<lambda>m. bindA (whenA (n > 0 \<and> secs > 0) (sleep env secs)) (\<lambda>_. m)"
  have "bindA (case found of Some a \<Rightarrow> retA (Some a) | None \<Rightarrow> ?rest (retry_cell env n secs f)) (\<lambda>x. retA (x \<noteq> None))
      = (if found \<noteq> None then retA True else ?rest (bindA (retry_cell env n secs f) (\<lambda>x. retA (x \<noteq> None))))"
    for found
    by (cases found) (simp_all only: option.case bindA_assoc action_simps(4) refl if_True if_False option.distinct not_True_eq_False not_False_eq_True)
  then show ?case by (simp only: retry.simps retry_cell.simps bindA_assoc action_simps(4) Suc.IH)
qed (simp only: retry.simps retry_cell.simps action_simps(4) not_True_eq_False refl)

definition wait_secs :: "deploy_plan \<Rightarrow> nat" where
  "wait_secs plan = (dp_cp_ready_retries plan * (dp_cp_ready_sleep_secs plan mod 2 ^ 32)) mod 2 ^ 32"

definition KUBECTL_READY :: string where
  "KUBECTL_READY = ''kubectl --kubeconfig=/etc/kubernetes/admin.conf get nodes --no-headers 2>/dev/null | awk ''
     @ quoted (''$2=='' @ DQS @ ''Ready'' @ DQS) @ '' | grep -q .''"

definition probe_ip :: "'w world connection \<Rightarrow> deploy_plan \<Rightarrow> ('w, ipv4 option) act" where
  "probe_ip conn plan =
     matchA (domifaddr conn (dp_cp_name plan)) (\<lambda>r. retA (case r of Ok ip \<Rightarrow> ip | Err _ \<Rightarrow> None))"

definition probe_ok :: "'w world connection \<Rightarrow> string \<Rightarrow> ('w, bool) act" where
  "probe_ok conn cmd = matchA (exec_shell conn cmd) (\<lambda>r. retA (is_ok r))"

definition plan_cp_ready :: "'w env \<Rightarrow> deploy_plan \<Rightarrow> 'w world connection \<Rightarrow> string \<Rightarrow> ('w, string) act" where
  "plan_cp_ready env plan conn privkey_path =
     (if dp_dry_run plan then
        bindA (deploy_log (''DRY-RUN would resolve CP IP via '' @ quoted (''virsh domifaddr '' @ dp_cp_name plan) @ '' (timeout ~5min)'')) (\<lambda>_.
        bindA (deploy_log (''DRY-RUN would poll '' @ quoted ''kubectl get nodes'' @ '' on CP until Ready (timeout ~600s)'')) (\<lambda>_.
        retA ''<resolved-at-runtime>''))
      else
        bindA (deploy_log ''waiting for CP IP to appear via DHCP...'') (\<lambda>_.
        bindA (retry_cell env (dp_cp_ready_retries plan) (dp_cp_ready_sleep_secs plan) (probe_ip conn plan)) (\<lambda>found.
        case found of
          None \<Rightarrow> failA [''could not resolve CP IP after ~'' @ show_nat (wait_secs plan div 60) @ ''min'']
        | Some ip \<Rightarrow>
            bindA (deploy_log (''CP IP: '' @ ipv4_display ip)) (\<lambda>_.
            bindA (deploy_log (''polling kubectl until CP Ready (max ~'' @ show_nat (wait_secs plan) @ ''s)'')) (\<lambda>_.
            bindA (retry env (dp_cp_ready_retries plan) (dp_cp_ready_sleep_secs plan)
              (probe_ok conn (cp_ssh_cmd privkey_path (ipv4_display ip) KUBECTL_READY))) (\<lambda>ready.
            if \<not> ready then failA [''CP never reached Ready'']
            else bindA (deploy_log ''CP Ready'') (\<lambda>_. retA (ipv4_display ip))))))))"

definition plan_join_token ::
  "deploy_plan \<Rightarrow> 'w world connection \<Rightarrow> string \<Rightarrow> string \<Rightarrow> ('w, string) act" where
  "plan_join_token plan conn ip privkey_path =
     (if dp_dry_run plan then
        bindA (deploy_log (''DRY-RUN would mint 2h-TTL kubeadm join token via ''
          @ quoted (''ssh root@'' @ ip @ '' kubeadm token create --print-join-command''))) (\<lambda>_.
        retA ''<join-cmd-at-runtime>'')
      else
        bindA (deploy_log (''minting '' @ dp_token_ttl plan @ ''-TTL kubeadm join token from CP'')) (\<lambda>_.
        bindA (or_bail ''kubeadm token create failed: '' (exec_shell conn (cp_ssh_cmd privkey_path ip
          (''kubeadm token create --ttl '' @ dp_token_ttl plan @ '' --print-join-command'')))) (\<lambda>out.
        let join_cmd = trim out in
        if \<not> starts_with ''kubeadm join'' join_cmd then
          failA [''expected '' @ quoted ''kubeadm join ...'' @ '' from CP, got: '' @ debug_str join_cmd]
        else retA join_cmd)))"

section \<open>Workers\<close>

definition nth_net :: "net2 list option \<Rightarrow> nat \<Rightarrow> net2 option" where
  "nth_net nets i = (case nets of None \<Rightarrow> None | Some v \<Rightarrow> if i < length v then Some (v ! i) else None)"

definition dry_worker ::
  "deploy_plan \<Rightarrow> string \<Rightarrow> primary_macs \<Rightarrow> net2 list option \<Rightarrow> nat \<times> string \<Rightarrow> ('w, unit) act" where
  "dry_worker plan template macs nets = (\<lambda>(i, w).
     let w_qcow = dp_pool_dir plan @ ''/'' @ w @ ''.qcow2''; w_seed = dp_pool_dir plan @ ''/'' @ w @ ''-seed.iso'';
         mac = pm_workers macs ! i in
     bindA (deploy_log (''DRY-RUN would refuse to overwrite if worker VM '' @ quoted w @ '' already defined'')) (\<lambda>_.
     bindA (case nth_net nets i of
              Some n \<Rightarrow> deploy_log (''DRY-RUN would render net2 network-config for '' @ w @ '' (mac='' @ n2_mac n @ '', ip=''
                @ n2_ip n @ '') into the seed'')
            | None \<Rightarrow> retA ()) (\<lambda>_.
     bindA (deploy_log (''DRY-RUN would render worker cloud-init user-data with join command + build seed '' @ w_seed)) (\<lambda>_.
     bindA (deploy_log (''DRY-RUN would clone '' @ template @ '' -> '' @ w_qcow @ '' (reflink=auto)'')) (\<lambda>_.
     bindA (dry_reserve mac (worker_ip plan i) w) (\<lambda>_.
     bindA (dry_nic (nth_net nets i)) (\<lambda>_.
     deploy_log (''DRY-RUN would virt-install '' @ w @ '' (memory='' @ show_nat (dp_worker_memory plan) @ '' vcpus=''
       @ show_nat (dp_worker_vcpus plan) @ (if worker_mac_configured plan i then '', primary mac='' @ mac else [])
       @ '') attaching '' @ w_qcow @ '' + '' @ w_seed @ '' [parallel]''))))))))"

definition worker_spec :: "deploy_plan \<Rightarrow> primary_macs \<Rightarrow> net2 list option \<Rightarrow> nat \<Rightarrow> string \<Rightarrow> vm_spec" where
  "worker_spec plan macs nets i w =
     \<lparr>vm_name = w, vm_memory_mib = dp_worker_memory plan, vm_vcpus = dp_worker_vcpus plan,
      vm_disk_path = dp_pool_dir plan @ ''/'' @ w @ ''.qcow2'', vm_cdrom = Some (dp_pool_dir plan @ ''/'' @ w @ ''-seed.iso''),
      vm_primary_mac = Some (pm_workers macs ! i), vm_extra_nic = extra_nic_of (nth_net nets i)\<rparr>"

definition worker_user_data :: "deploy_plan \<Rightarrow> string \<Rightarrow> string \<Rightarrow> net2 option \<Rightarrow> string \<Rightarrow> string" where
  "worker_user_data plan pubkey join_cmd net w =
     render_worker_user_data w pubkey join_cmd (dp_switch_to_ghcr plan) (dp_ghcr_tag plan)
       \<lparr>wo_schedule = dp_bootc_update_schedule plan, wo_repo_worker = dp_bootc_update_repo_worker plan,
        wo_net2_mac = map_option n2_mac net\<rparr>"

definition spawn_worker ::
  "'w host \<Rightarrow> deploy_plan \<Rightarrow> 'w world connection \<Rightarrow> string \<Rightarrow> string \<Rightarrow> string \<Rightarrow> primary_macs
     \<Rightarrow> net2 list option \<Rightarrow> nat \<times> string \<Rightarrow> ('w, unit) act" where
  "spawn_worker host plan conn template join_cmd pubkey macs nets = (\<lambda>(i, w).
     bindA (guard_absent conn w (''worker VM '' @ quoted w @ '' already defined '' @ EM_DASH @ '' refusing to overwrite'')
       (''dominfo probe for worker '' @ w @ '': '')) (\<lambda>_.
     let w_qcow = dp_pool_dir plan @ ''/'' @ w @ ''.qcow2''; w_seed = dp_pool_dir plan @ ''/'' @ w @ ''-seed.iso'';
         ud_tmp = ''/tmp/hbird-w-ud-'' @ show_nat (host_pid host) @ ''-'' @ w @ ''.yaml''; net = nth_net nets i;
         mac = pm_workers macs ! i in
     bindA (or_bail (''could not write worker user-data to '' @ ud_tmp @ '': '')
       (exec_shell conn (here_doc (quoted ud_tmp) (worker_user_data plan pubkey join_cmd net w) ''HBIRD_CI_EOF''))) (\<lambda>_.
     bindA (write_net2_config_tmp conn net (''w-'' @ show_nat (host_pid host) @ ''-'' @ w)) (\<lambda>nc_tmp.
     bindA (or_bail (''cloud-init seed build for '' @ w @ '' failed: '')
       (exec_shell conn (cloud_init_seed_cmd w ud_tmp w_seed nc_tmp))) (\<lambda>_.
     bindA (deploy_log (''cloning worker qcow2 -> '' @ w_qcow)) (\<lambda>_.
     bindA (or_bail (''reflink clone '' @ template @ '' -> '' @ w_qcow @ '' failed: '')
       (remote_cp_reflink conn template w_qcow)) (\<lambda>_.
     bindA (reserve conn mac (worker_ip plan i) w) (\<lambda>_.
     bindA (deploy_log (''virt-install '' @ w @ '' (memory='' @ show_nat (dp_worker_memory plan) @ '' vcpus=''
       @ show_nat (dp_worker_vcpus plan) @ '', primary mac='' @ mac @ '') [bg]'')) (\<lambda>_.
     or_bail (''virt-install '' @ w @ '' failed: '') (virt_install_vm conn (worker_spec plan macs nets i w)))))))))))"

definition plan_worker_spawn ::
  "'w host \<Rightarrow> deploy_plan \<Rightarrow> 'w world connection \<Rightarrow> string \<Rightarrow> string \<Rightarrow> string \<Rightarrow> primary_macs
     \<Rightarrow> net2 list option \<Rightarrow> ('w, unit) act" where
  "plan_worker_spawn host plan conn template join_cmd pubkey macs nets =
     (if dp_worker_names plan = [] then
        whenA (dp_dry_run plan) (deploy_log (''DRY-RUN WORKER_NAMES=() '' @ EM_DASH @ '' CP-only deploy, no workers to spawn''))
      else if dp_dry_run plan then
        bindA (forA (enumerate 0 (dp_worker_names plan)) (dry_worker plan template macs nets)) (\<lambda>_.
        deploy_log (''DRY-RUN would wait for '' @ show_nat (length (dp_worker_names plan)) @ '' parallel virt-install processes''))
      else
        forA (enumerate 0 (dp_worker_names plan)) (spawn_worker host plan conn template join_cmd pubkey macs nets))"

section \<open>The cluster comes up\<close>

definition node_ready_cmd :: "string \<Rightarrow> string \<Rightarrow> string \<Rightarrow> string" where
  "node_ready_cmd privkey_path ip node =
     cp_ssh_cmd privkey_path ip (''kubectl --kubeconfig=/etc/kubernetes/admin.conf get node '' @ quoted node
       @ '' --no-headers 2>/dev/null | awk '' @ quoted (''$2=='' @ DQS @ ''Ready'' @ DQS @ ''{print '' @ DQS @ ''yes'' @ DQS @ ''}''))"

definition probe_yes :: "'w world connection \<Rightarrow> string \<Rightarrow> ('w, bool) act" where
  "probe_yes conn cmd =
     matchA (exec_shell conn cmd) (\<lambda>r. retA (case r of Ok out \<Rightarrow> contains ''yes'' (trim out) | Err _ \<Rightarrow> False))"

definition wait_node ::
  "'w env \<Rightarrow> deploy_plan \<Rightarrow> 'w world connection \<Rightarrow> string \<Rightarrow> string \<Rightarrow> string \<Rightarrow> ('w, unit) act" where
  "wait_node env plan conn ip privkey_path node =
     bindA (deploy_log (''polling '' @ quoted node @ '' Ready (max ~'' @ show_nat (wait_secs plan) @ ''s)'')) (\<lambda>_.
     bindA (retry env (dp_cp_ready_retries plan) (dp_cp_ready_sleep_secs plan)
       (probe_yes conn (node_ready_cmd privkey_path ip node))) (\<lambda>ready.
     if \<not> ready then failA [''node '' @ quoted node @ '' never reached Ready''] else retA ()))"

definition plan_cluster_ready ::
  "'w env \<Rightarrow> deploy_plan \<Rightarrow> 'w world connection \<Rightarrow> string \<Rightarrow> string \<Rightarrow> ('w, unit) act" where
  "plan_cluster_ready env plan conn ip privkey_path =
     (let expected_nodes = dp_cp_name plan # dp_worker_names plan; expected = length expected_nodes in
      if dp_dry_run plan then
        deploy_log (''DRY-RUN would poll cluster until '' @ show_nat expected @ '' nodes Ready (timeout ~600s)'')
      else
        bindA (forA expected_nodes (wait_node env plan conn ip privkey_path)) (\<lambda>_.
        deploy_log (''cluster Ready: all '' @ show_nat expected @ '' named nodes Ready'')))"

definition verify_argv :: "deploy_plan \<Rightarrow> string \<Rightarrow> string list" where
  "verify_argv plan ip =
     [''hbird'', ''verify'', ''app-deploy'', ''--config'', dp_config_path plan, ''--cp-ip'', ip]
     @ (case filled (dp_kvm_host plan) of Some h \<Rightarrow> [''--kvm-host'', h] | None \<Rightarrow> [])"

definition plan_verify :: "'w host \<Rightarrow> deploy_plan \<Rightarrow> string \<Rightarrow> ('w, unit) act" where
  "plan_verify host plan ip =
     (if \<not> dp_run_verify plan then retA ()
      else if dp_dry_run plan then
        deploy_log (''DRY-RUN RUN_VERIFY=true '' @ EM_DASH @ '' would run '' @ quoted ''hbird verify app-deploy''
          @ '' after Ready (post-#353)'')
      else
        matchA (proc_run host None (verify_argv plan ip)) (\<lambda>r.
          case r of
            Err e \<Rightarrow>
              if dp_strict_cache plan then
                failA [''hbird verify app-deploy not found on PATH (required under STRICT_CACHE=1): '' @ io_error_display e]
              else deploy_log ''hbird verify app-deploy not found on PATH; skipping''
          | Ok out \<Rightarrow>
              if \<not> exit_success (ro_status out) then
                if dp_strict_cache plan then
                  failA [''hbird verify app-deploy exited non-zero '' @ EM_DASH @ '' deploy fails under STRICT_CACHE=1'']
                else deploy_log ''hbird verify app-deploy exited non-zero (cluster is up; verifier failure is informational)''
              else retA ()))"

section \<open>The command\<close>

definition workers_str :: "deploy_plan \<Rightarrow> string" where
  "workers_str plan = (if dp_worker_names plan = [] then ''<none>'' else join '' '' (dp_worker_names plan))"

definition RULE :: string where "RULE = ''==============================================================''"

definition plan_summary :: "deploy_plan \<Rightarrow> string \<Rightarrow> ('w, unit) act" where
  "plan_summary plan ip =
     forA [[], RULE,
       (if dp_dry_run plan then ''DRY-RUN plan complete. No VMs were created.'' else ''Cluster deployed.''),
       ''  CP:         '' @ dp_cp_name plan @ '' ('' @ ip @ '')'',
       ''  Workers:    '' @ workers_str plan,
       ''  Image src:  '' @ dp_image_source plan @ '' (tag='' @ dp_ghcr_tag plan @ '')'',
       ''  Kubeconfig: root@'' @ ip @ '':/etc/kubernetes/admin.conf'',
       RULE] deploy_log"

fun warning_display :: "conf_warning \<Rightarrow> string" where
  "warning_display (UnknownKey key line_no) = ''unknown key '' @ debug_str key @ '' at line '' @ show_nat line_no @ '' (ignored)''"

text \<open>The checks before any side effect, and what they print: the MACs and the second network.\<close>

fun check_cidr_knobs :: "(string \<times> string option) list \<Rightarrow> (anyhow, unit) result" where
  "check_cidr_knobs [] = Ok ()"
| "check_cidr_knobs ((knob, v) # rest) =
     (case filled v of
        Some x \<Rightarrow>
          if \<not> is_valid_cidr x then Err [knob @ '' is malformed (need CIDR like 10.244.0.0/16): '' @ quoted x]
          else check_cidr_knobs rest
      | None \<Rightarrow> check_cidr_knobs rest)"

definition deploy_checks :: "deploy_plan \<Rightarrow> conf_warning list \<Rightarrow> ('w, primary_macs \<times> (net2 \<times> net2 list) option) act" where
  "deploy_checks plan warns =
     (if dp_enable_cloud_init plan \<noteq> 1 then
        failA [''ENABLE_CLOUD_INIT must be 1 for this flow (got '' @ quoted (show_nat (dp_enable_cloud_init plan))
          @ ''). The deploy-cluster path requires cloud-init in the image to inject per-VM hostname + worker join + bootc switch.'']
      else
        bindA (deploy_log (''config: '' @ dp_config_path plan)) (\<lambda>_.
        bindA (forA warns (\<lambda>x. deploy_log (''WARN: config: '' @ warning_display x))) (\<lambda>_.
        bindA (liftA (resolve_primary_macs (dp_cp_name plan) (dp_cp_mac plan) (dp_worker_names plan) (dp_worker_macs plan))) (\<lambda>macs.
        bindA (liftA (check_cidr_knobs (cluster_ranges plan))) (\<lambda>_.
        bindA (liftA (validate_extra_network plan macs)) (\<lambda>extra.
        bindA (deploy_log (''config OK: CP='' @ dp_cp_name plan @ '', workers=('' @ workers_str plan @ ''), source=''
          @ dp_image_source plan @ '', tag='' @ dp_ghcr_tag plan
          @ (case extra of Some (n, _) \<Rightarrow> '', extra-net='' @ n2_network n | None \<Rightarrow> []))) (\<lambda>_.
        retA (macs, extra))))))))"

text \<open>What follows the checks, on the machine the plan names.\<close>

definition deploy_rest ::
  "'w env \<Rightarrow> 'w host \<Rightarrow> deploy_plan \<Rightarrow> primary_macs \<Rightarrow> (net2 \<times> net2 list) option \<Rightarrow> ('w, unit) act" where
  "deploy_rest env host plan macs extra =
     (let conn = build_connection env (dp_kvm_host plan); cp_net = map_option fst extra; worker_nets = map_option snd extra;
          privkey_path = derive_privkey_path (dp_ssh_pubkey_file plan) in
      bindA (case cp_net of
               Some n \<Rightarrow>
                 if dp_dry_run plan then
                   deploy_log (''DRY-RUN would verify EXTRA_NETWORK '' @ quoted (n2_network n)
                     @ '' is defined + active (and has enough VFs when it is a hostdev pool)'')
                 else check_extra_network_on_host plan conn (n2_network n)
             | None \<Rightarrow> retA ()) (\<lambda>_.
      bindA (if dp_dry_run plan then retA []
             else or_bail (''cannot read SSH_PUBKEY_FILE '' @ dp_ssh_pubkey_file plan @ '': '') (exec_shell conn (cat_pubkey plan))) (\<lambda>pubkey.
      bindA (plan_image_acquisition host plan conn) (\<lambda>(cp_ref, worker_ref).
      bindA (plan_build_qcow2 host plan cp_ref worker_ref conn) (\<lambda>(cp_template, worker_template).
      bindA (plan_cp_seed host plan conn pubkey cp_net) (\<lambda>cp_seed.
      bindA (plan_cp_virt_install plan conn cp_template cp_seed macs cp_net) (\<lambda>_.
      bindA (plan_cp_ready env plan conn privkey_path) (\<lambda>ip.
      bindA (plan_join_token plan conn ip privkey_path) (\<lambda>join_cmd.
      bindA (plan_worker_spawn host plan conn worker_template join_cmd pubkey macs worker_nets) (\<lambda>_.
      bindA (plan_cluster_ready env plan conn ip privkey_path) (\<lambda>_.
      bindA (plan_verify host plan ip) (\<lambda>_.
      plan_summary plan ip))))))))))))"

definition deploy_run ::
  "'w env \<Rightarrow> 'w host \<Rightarrow> local_repo \<Rightarrow> deploy_args \<Rightarrow> (anyhow, cluster_config) result \<Rightarrow> ('w, unit) act" where
  "deploy_run env host fs args config =
     bindA (liftA config) (\<lambda>cfg.
     bindA (liftA (deploy_plan_from_args fs args cfg)) (\<lambda>plan.
     bindA (deploy_checks plan (warnings cfg)) (\<lambda>(macs, extra).
     deploy_rest env host plan macs extra)))"

end
