(* ===== verification/Deploy_Demo.thy ===== *)
theory Deploy_Demo
  imports Deploy_Cluster
begin

text \<open>
  A deployment that goes through: one control plane and one worker on a host that answers every command
  from a script. It shows that the success the theorems on \<open>deploy_run\<close> speak of is reached. \<open>goes\<close>
  follows what is left of the script through the steps.
\<close>

section \<open>The host and the cluster\<close>

definition demo_host :: "'w host" where
  "demo_host = \<lparr>host_proc = (\<lambda>_ _ x. (Err NotFound, x)), host_exists = (\<lambda>_ _. True), host_read = (\<lambda>_ _. None),
     host_var = (\<lambda>_. None), host_pid = 7\<rparr>"

definition demo_kvm :: "run_output list env" where
  "demo_kvm = \<lparr>env_ssh = (\<lambda>_ _ _ x. (Err (Wait [] NotFound), x)),
     env_sh = (\<lambda>c x. (Ok (hd x), tl x)), env_sleep = (\<lambda>_ x. x)\<rparr>"

abbreviation demo_conn :: "run_output list world connection" where
  "demo_conn \<equiv> build_connection demo_kvm None"

definition demo_deploy_args :: "bool \<Rightarrow> deploy_args" where
  "demo_deploy_args dry = \<lparr>dga_config = ''c'', dga_kvm_host = None, dga_no_sudo = False, dga_dry_run = dry, dga_bib = ''b'',
     dga_podman_root = None, dga_podman_runroot = None, dga_storage_driver = None, dga_force_rebuild = False,
     dga_strict_cache = False, dga_repo_root = Some ''/r'', dga_cp_ready_retries = 2, dga_cp_ready_sleep_secs = 1,
     dga_token_ttl = ''2h''\<rparr>"

definition demo_fs :: local_repo where
  "demo_fs = \<lparr>lr_markers = (\<lambda>_. False), lr_git = Err NotFound, lr_cwd = None\<rparr>"

definition demo_deploy_config :: cluster_config where
  "demo_deploy_config = (default_config ''cp'' ''k.pub'')\<lparr>enable_cloud_init := 1, worker_names := Some [''w1''],
     cp_mac := Some ''52:54:00:00:00:0a'', worker_macs := Some [''52:54:00:00:00:0b'']\<rparr>"

definition good :: run_output where
  "good = \<lparr>ro_status = Exited 0, ro_stdout = ''kubeadm join yes'', ro_stderr = []\<rparr>"

definition bad :: run_output where
  "bad = \<lparr>ro_status = Exited 1, ro_stdout = [], ro_stderr = []\<rparr>"

definition lease :: run_output where
  "lease = \<lparr>ro_status = Exited 0, ro_stdout = ''vnet0 52:54:00:00:00:0a ipv4 10.0.0.5/24'', ro_stderr = []\<rparr>"

text \<open>The key; two pulls; two inspections; the control plane (user data, seed, absent, clone, machine),
  its address, Ready, token; the worker (absent, user data, seed, clone, machine); two nodes Ready.\<close>

definition demo_script :: "run_output list" where
  "demo_script = [good, good, good, good, good, good, good, bad, good, good, lease, good, good,
     bad, good, good, good, good, good, good]"

lemma demo_outputs:
  "exit_success (ro_status good)" "exit_success (ro_status lease)" "\<not> exit_success (ro_status bad)"
  "trim (ro_stdout good) = ''kubeadm join yes''" "starts_with ''kubeadm join'' ''kubeadm join yes''"
  "contains ''yes'' (trim (ro_stdout good))"
  by code_simp+

lemma demo_lease: "parse_domifaddr (ro_stdout lease) c = Ok (Some (10, 0, 0, 5))"
  by (simp add: lease_def) code_simp

section \<open>Following the script\<close>

definition goes :: "'x \<Rightarrow> ('x world, 'e, 'a) action \<Rightarrow> 'a \<Rightarrow> 'x \<Rightarrow> bool" where
  "goes xs m a ys \<longleftrightarrow> (\<forall>w. w_ext w = xs \<longrightarrow> (\<exists>w'. m w = (Ok a, w') \<and> w_ext w' = ys))"

lemma demo_conn_run:
  "conn_run demo_conn cmd w =
     (let out = hd (w_ext w) in
      ((if exit_success (ro_status out) then Ok (ro_stdout out) else Err (VirshFailed cmd (ro_stderr out))),
       w\<lparr>w_ext := tl (w_ext w), w_trace := w_trace w @ [ShRun cmd (Ok out)]\<rparr>))"
  by (simp add: conn_run_def build_connection_def new_local_def local_client_run_def sh_run_def demo_kvm_def matchA_def Let_def)

lemma goes_bind: "goes xs m a ys \<Longrightarrow> goes ys (f a) b zs \<Longrightarrow> goes xs (bindA m f) b zs"
  unfolding goes_def bindA_def by fastforce

lemma goes_match: "goes xs m a ys \<Longrightarrow> goes ys (f (Ok a)) b zs \<Longrightarrow> goes xs (matchA m f) b zs"
  unfolding goes_def matchA_def by fastforce

lemma goes_or_bail: "goes xs m a ys \<Longrightarrow> goes xs (or_bail msg m) a ys"
  unfolding goes_def or_bail_def matchA_def by fastforce

lemma goes_ret: "goes xs (retA a) a xs"
  by (simp add: goes_def)

lemma goes_log: "goes xs (deploy_log s) () xs"
  by (simp add: goes_def deploy_log_def emit_def)

lemma goes_calls:
  "exit_success (ro_status x) \<Longrightarrow> goes (x # xs) (exec_shell demo_conn cmd) (ro_stdout x) xs"
  "exit_success (ro_status x) \<Longrightarrow> goes (x # xs) (remote_cp_reflink demo_conn a b) () xs"
  "exit_success (ro_status x) \<Longrightarrow> goes (x # xs) (virt_install_vm demo_conn spec) () xs"
  by (auto simp: goes_def exec_shell_def remote_cp_reflink_def virt_install_vm_def run_unit_def bindA_def demo_conn_run Let_def)

lemma goes_guard: "\<not> exit_success (ro_status x) \<Longrightarrow> goes (x # xs) (guard_absent demo_conn n d p) () xs"
  by (auto simp: goes_def guard_absent_def dominfo_def bindA_def matchA_def demo_conn_run Let_def)

lemma goes_local: "goes xs (image_vcs_ref demo_host i) None xs" "goes xs (path_exists demo_host q) True xs"
  "goes xs (read_sidecar demo_host q) None xs"
  by (auto simp: goes_def image_vcs_ref_def proc_run_def matchA_def demo_host_def bindA_def path_exists_def read_sidecar_def
      read_file_def)

lemma goes_probes:
  "goes (lease # xs) (probe_ip demo_conn plan) (Some (10, 0, 0, 5)) xs"
  "goes (good # xs) (probe_ok demo_conn c) True xs" "goes (good # xs) (probe_yes demo_conn c) True xs"
  by (auto simp: goes_def probe_ip_def probe_ok_def probe_yes_def exec_shell_def domifaddr_def bindA_def matchA_def
      demo_conn_run Let_def demo_outputs(1-3,6) demo_lease)

lemma goes_retry:
  "goes xs f True ys \<Longrightarrow> goes xs (retry env (Suc n) secs f) True ys"
  "goes xs g (Some a) ys \<Longrightarrow> goes xs (retry_cell env (Suc n) secs g) (Some a) ys"
  unfolding goes_def by (simp_all add: bindA_def) fastforce+

lemmas goes_rules = goes_log goes_bind goes_calls goes_or_bail goes_guard goes_local goes_probes goes_retry goes_ret
  demo_outputs(1-3)

section \<open>The steps\<close>

definition demo_deploy :: deploy_plan where
  "demo_deploy = (case deploy_plan_from_args demo_fs (demo_deploy_args False) demo_deploy_config of Ok p \<Rightarrow> p)"

lemma demo_plan: "deploy_plan_from_args demo_fs (demo_deploy_args False) demo_deploy_config = Ok demo_deploy"
  by (simp add: demo_deploy_def deploy_plan_from_args_def resolve_repo_root_def demo_deploy_args_def)

lemma demo_facts:
  "dp_dry_run demo_deploy = False" "dp_image_source demo_deploy = ''ghcr''" "dp_worker_names demo_deploy = [''w1'']"
  "dp_cp_ready_retries demo_deploy = Suc (Suc 0)" "dp_enable_cloud_init demo_deploy = 1" "dp_cp_ip demo_deploy = None"
  "dp_worker_ips demo_deploy = None" "dp_run_verify demo_deploy = False" "dp_force_rebuild demo_deploy = False"
  "dp_strict_cache demo_deploy = False" "dp_kvm_host demo_deploy = None" "dp_pod_cidr demo_deploy = None"
  "dp_service_cidr demo_deploy = None" "dp_extra_network demo_deploy = None" "dp_extra_net_cp_mac demo_deploy = None"
  "dp_extra_net_cp_ip demo_deploy = None" "dp_extra_net_worker_macs demo_deploy = None"
  "dp_extra_net_worker_ips demo_deploy = None" "dp_cp_mac demo_deploy = Some ''52:54:00:00:00:0a''"
  "dp_worker_macs demo_deploy = Some [''52:54:00:00:00:0b'']"
  by (simp_all add: demo_deploy_def deploy_plan_from_args_def resolve_repo_root_def demo_deploy_args_def demo_deploy_config_def
      default_config_def resolved_worker_names_def filled_def)

lemma demo_resolve:
  "\<exists>macs. resolve_primary_macs (dp_cp_name demo_deploy) (dp_cp_mac demo_deploy) (dp_worker_names demo_deploy)
     (dp_worker_macs demo_deploy) = Ok macs"
proof -
  have "is_valid_mac ''52:54:00:00:00:0a''" "is_valid_mac ''52:54:00:00:00:0b''"
    "to_ascii_lowercase ''52:54:00:00:00:0a'' \<noteq> to_ascii_lowercase ''52:54:00:00:00:0b''"
    by code_simp+
  then show ?thesis by (simp add: resolve_primary_macs_def entry_def filled_def demo_facts)
qed

lemma demo_checks: "\<exists>macs. goes xs (deploy_checks demo_deploy []) (macs, None) xs"
proof -
  from demo_resolve obtain macs where macs: "resolve_primary_macs (dp_cp_name demo_deploy) (dp_cp_mac demo_deploy)
    (dp_worker_names demo_deploy) (dp_worker_macs demo_deploy) = Ok macs" ..
  have "validate_extra_network demo_deploy macs = Ok None" "check_cidr_knobs (cluster_ranges demo_deploy) = Ok ()"
    by (simp_all add: validate_extra_network_def filled_def is_set_def any_set_def cluster_ranges_def demo_facts)
  with macs have "goes xs (deploy_checks demo_deploy []) (macs, None) xs"
    by (simp add: deploy_checks_def demo_facts(5) del: append.simps) (rule goes_rules)+
  then show ?thesis by blast
qed

lemma demo_assess: "goes xs (assess_pulled demo_host demo_deploy (i, l, c)) () xs"
  unfolding assess_pulled_def prod.case
  by (rule goes_bind [OF goes_local(1)], unfold Let_def unwrap_or_def option.case if_P [OF refl],
      rule goes_bind [OF goes_ret]) (simp add: assess_ghcr_image_def goes_def demo_facts)

lemma demo_images: "\<exists>refs. goes (good # good # xs) (plan_image_acquisition demo_host demo_deploy demo_conn) refs xs"
proof -
  obtain a b where refs: "image_refs ''ghcr'' (dp_ghcr_tag demo_deploy) = Some (a, b)" by (simp add: image_refs_def)
  have "goes (good # good # xs) (plan_image_acquisition demo_host demo_deploy demo_conn) (a, b) xs"
    unfolding plan_image_acquisition_def demo_facts refs option.case prod.case if_False
    by (rule goes_rules demo_assess | simp del: append.simps)+
  then show ?thesis by blast
qed

lemma demo_expected:
  "goes (good # xs) (compute_expected_build_id demo_host demo_deploy r demo_conn) (build_id ''ghcr'' (trim (ro_stdout good))) xs"
  unfolding compute_expected_build_id_def demo_facts
  by (simp del: append.simps) (rule goes_match goes_calls demo_outputs(1) | simp add: goes_ret del: append.simps action_simps)+

lemma demo_build_one: "goes (good # xs) (build_one_qcow2 demo_host demo_deploy r q demo_conn) () xs"
  unfolding build_one_qcow2_def demo_facts
  by (rule goes_bind [OF demo_expected], rule goes_bind [OF goes_local(2)], unfold not_False_eq_True HOL.simp_thms if_True,
      rule goes_bind [OF goes_local(3)]) (simp add: assess_qcow2_cache_def goes_log del: append.simps)

lemma demo_build: "\<exists>ts. goes (good # good # xs) (plan_build_qcow2 demo_host demo_deploy a b demo_conn) ts xs"
  unfolding plan_build_qcow2_def Let_def demo_facts if_False
  by (rule exI) (rule goes_rules demo_build_one)+

lemma demo_seed: "\<exists>s. goes (good # good # xs) (plan_cp_seed demo_host demo_deploy demo_conn k None) s xs"
  unfolding plan_cp_seed_def Let_def demo_facts if_False write_net2_config_tmp_def option.case
  by (rule exI) (rule goes_rules)+

lemma demo_install: "\<exists>s. goes (bad # good # good # xs) (plan_cp_virt_install demo_deploy demo_conn t seed macs None) s xs"
  unfolding plan_cp_virt_install_def Let_def demo_facts if_False reserve_def filled_def option.case
  by (rule exI) (rule goes_rules)+

lemma demo_ready:
  "goes (lease # good # xs) (plan_cp_ready demo_kvm demo_deploy demo_conn k) (ipv4_display (10, 0, 0, 5)) xs"
  unfolding plan_cp_ready_def demo_facts if_False
  by (rule goes_rules)+ (simp only: option.case not_True_eq_False if_False, (rule goes_rules)+,
      simp only: not_True_eq_False if_False, (rule goes_rules)+)

lemma demo_token: "goes (good # xs) (plan_join_token demo_deploy demo_conn ip k) ''kubeadm join yes'' xs"
  unfolding plan_join_token_def demo_facts if_False Let_def
  by (rule goes_rules)+ (simp only: demo_outputs(4,5) not_True_eq_False if_False goes_ret)

lemma demo_workers:
  "goes (bad # good # good # good # good # xs) (plan_worker_spawn demo_host demo_deploy demo_conn t j k macs None) () xs"
proof -
  have "goes (bad # good # good # good # good # xs) (spawn_worker demo_host demo_deploy demo_conn t j k macs None (0, ''w1'')) () xs"
    unfolding spawn_worker_def prod.case Let_def write_net2_config_tmp_def nth_net_def option.case reserve_def worker_ip_def
      demo_facts entry_def
    by (rule goes_rules)+
  then show ?thesis
    unfolding plan_worker_spawn_def demo_facts
    by (simp del: append.simps action_simps) (rule goes_rules | assumption)+
qed

lemma demo_node: "goes (good # xs) (wait_node demo_kvm demo_deploy demo_conn ip k n) () xs"
  unfolding wait_node_def demo_facts
  by (rule goes_rules)+ (simp only: not_True_eq_False if_False goes_ret)

lemma demo_nodes: "goes (good # good # xs) (plan_cluster_ready demo_kvm demo_deploy demo_conn ip k) () xs"
  unfolding plan_cluster_ready_def Let_def demo_facts if_False forA.simps
  by (rule goes_rules demo_node)+

lemma demo_summary: "goes xs (plan_summary demo_deploy ip) () xs"
  unfolding plan_summary_def forA.simps by (rule goes_rules)+

lemma goes_case_prod: "goes xs (f (fst p) (snd p)) a ys \<Longrightarrow> goes xs (case p of (x, y) \<Rightarrow> f x y) a ys"
  by (cases p) simp

lemma goes_bind_ex: "\<exists>a. goes xs m a ys \<Longrightarrow> (\<And>a. goes ys (f a) b zs) \<Longrightarrow> goes xs (bindA m f) b zs"
  by (erule exE) (rule goes_bind)

lemma demo_rest: "goes demo_script (deploy_rest demo_kvm demo_host demo_deploy macs None) () []"
proof -
  have verify: "goes xs (plan_verify demo_host demo_deploy ip) () xs" for xs :: "run_output list" and ip
    unfolding plan_verify_def demo_facts not_False_eq_True if_True by (rule goes_ret)
  show ?thesis
    unfolding deploy_rest_def Let_def demo_facts option.map option.case if_False demo_script_def
    by (rule goes_bind [OF goes_ret] goes_bind [OF goes_or_bail [OF goes_calls(1) [OF demo_outputs(1)]]]
        goes_bind_ex [OF demo_images] goes_case_prod goes_bind_ex [OF demo_build] goes_bind_ex [OF demo_seed]
        goes_bind_ex [OF demo_install] goes_bind [OF demo_ready] goes_bind [OF demo_token] goes_bind [OF demo_workers]
        goes_bind [OF demo_nodes] goes_bind [OF verify] demo_summary)+
qed

text \<open>The deployment succeeds and uses up the script.\<close>

lemma demo_deploy_run:
  "\<exists>w'. deploy_run demo_kvm demo_host demo_fs (demo_deploy_args False) (Ok demo_deploy_config)
      \<lparr>w_ext = demo_script, w_trace = []\<rparr> = (Ok (), w')"
proof -
  obtain macs where checks: "goes demo_script (deploy_checks demo_deploy []) (macs, None) demo_script"
    using demo_checks [of demo_script] by (rule exE)
  have "warnings demo_deploy_config = []" by (simp add: demo_deploy_config_def default_config_def)
  then have run: "deploy_run demo_kvm demo_host demo_fs (demo_deploy_args False) (Ok demo_deploy_config)
      = bindA (deploy_checks demo_deploy []) (\<lambda>(macs, extra). deploy_rest demo_kvm demo_host demo_deploy macs extra)"
    by (simp only: deploy_run_def demo_plan action_simps)
  have "goes demo_script (deploy_run demo_kvm demo_host demo_fs (demo_deploy_args False) (Ok demo_deploy_config)) () []"
    unfolding run by (rule goes_bind [OF checks]) (simp only: prod.case demo_rest)
  then show ?thesis unfolding goes_def by (metis world.select_convs(1))
qed

end
