(* ===== verification/Deploy_Safety.thy ===== *)
theory Deploy_Safety
  imports Deploy_Demo
begin

text \<open>
  What a deployment does to the KVM host. The state followed through the steps is \<open>progress\<close>: the calls
  made since the start, that every machine or disk created among them was first reported absent
  (\<open>guarded\<close>), and which calls have been seen. A step that creates nothing keeps it, which the rules
  for \<open>adds\<close> show without looking at the step's results; the guard, the creation of a machine and
  the Ready polls add a call to what has been seen.
\<close>

section \<open>Calls that create\<close>

definition creating :: "string \<Rightarrow> bool" where
  "creating cmd \<longleftrightarrow> starts_with ''virt-install '' cmd \<or> starts_with ''cp --reflink=auto '' cmd"

definition calm :: "event \<Rightarrow> bool" where
  "calm ev \<longleftrightarrow> list_all (\<lambda>c. \<not> creating (fst c)) (call_of ev)"

definition machines :: "deploy_plan \<Rightarrow> string list" where
  "machines plan = dp_cp_name plan # dp_worker_names plan"

definition disk_of :: "deploy_plan \<Rightarrow> string \<Rightarrow> string" where
  "disk_of plan n = dp_pool_dir plan @ ''/'' @ n @ ''.qcow2''"

definition creates :: "qemu_ssh_uri \<Rightarrow> deploy_plan \<Rightarrow> string \<Rightarrow> string \<Rightarrow> bool" where
  "creates uri plan n cmd \<longleftrightarrow>
     (\<exists>spec. cmd = cmd_virt_install uri spec \<and> vm_name spec = n \<and> vm_disk_path spec = disk_of plan n)
     \<or> (\<exists>template. cmd = cmd_cp_reflink template (disk_of plan n))"

definition absent :: "qemu_ssh_uri \<Rightarrow> string \<Rightarrow> call" where
  "absent uri n = (cmd_dominfo uri n, None)"

definition guarded :: "qemu_ssh_uri \<Rightarrow> deploy_plan \<Rightarrow> call list \<Rightarrow> bool" where
  "guarded uri plan cs \<longleftrightarrow>
     (\<forall>a c b. cs = a @ c # b \<and> creating (fst c) \<longrightarrow>
        (\<exists>n \<in> set (machines plan). creates uri plan n (fst c) \<and> absent uri n \<in> set a))"

lemma guarded_Nil [simp]: "guarded uri plan []"
  by (simp add: guarded_def)

lemma guarded_snoc:
  assumes "guarded uri plan cs"
    and "creating (fst c) \<Longrightarrow> \<exists>n \<in> set (machines plan). creates uri plan n (fst c) \<and> absent uri n \<in> set cs"
  shows "guarded uri plan (cs @ [c])"
  unfolding guarded_def
proof (intro allI impI)
  fix a x b
  assume "cs @ [c] = a @ x # b \<and> creating (fst x)"
  then show "\<exists>n \<in> set (machines plan). creates uri plan n (fst x) \<and> absent uri n \<in> set a"
  proof (cases b rule: rev_cases)
    case (snoc ys y)
    with \<open>cs @ [c] = a @ x # b \<and> creating (fst x)\<close> have "cs = a @ x # ys" "creating (fst x)" by auto
    with assms(1) show ?thesis unfolding guarded_def by blast
  qed (use assms in auto)
qed

lemma guarded_calm: "guarded uri plan cs \<Longrightarrow> list_all (\<lambda>c. \<not> creating (fst c)) ds \<Longrightarrow> guarded uri plan (cs @ ds)"
proof (induction ds rule: rev_induct)
  case (snoc d ds)
  then show ?case using guarded_snoc [of uri plan "cs @ ds" d] by simp
qed simp

section \<open>Progress\<close>

definition progress :: "qemu_ssh_uri \<Rightarrow> deploy_plan \<Rightarrow> event list \<Rightarrow> (call \<Rightarrow> bool) set \<Rightarrow> 'w world \<Rightarrow> bool" where
  "progress uri plan t0 S w \<longleftrightarrow>
     (\<exists>evs. w_trace w = t0 @ evs \<and> guarded uri plan (calls evs) \<and> (\<forall>p \<in> S. \<exists>c \<in> set (calls evs). p c))"

lemma progress_start: "progress uri plan (w_trace w) {} w"
  by (simp add: progress_def)

lemma progress_mono: "progress uri plan t0 S w \<Longrightarrow> S' \<subseteq> S \<Longrightarrow> progress uri plan t0 S' w"
  by (auto simp: progress_def)

lemma progress_weaken:
  assumes "progress uri plan t0 (insert p S) w" "\<And>c. p c \<Longrightarrow> q c"
  shows "progress uri plan t0 (insert q S) w"
proof -
  from assms(1) obtain evs where evs: "w_trace w = t0 @ evs" "guarded uri plan (calls evs)"
    "\<forall>p \<in> S. \<exists>c \<in> set (calls evs). p c" and c: "\<exists>c \<in> set (calls evs). p c"
    unfolding progress_def by blast
  from c assms(2) have "\<exists>c \<in> set (calls evs). q c" by blast
  with evs show ?thesis unfolding progress_def by blast
qed

lemma progress_step:
  assumes "progress uri plan t0 S w" "w_trace w' = w_trace w @ evs"
    and "\<And>cs. guarded uri plan cs \<Longrightarrow> \<forall>p \<in> S. \<exists>c \<in> set cs. p c \<Longrightarrow> guarded uri plan (cs @ calls evs)"
    and "\<And>p. p \<in> T \<Longrightarrow> \<exists>c \<in> set (calls evs). p c"
  shows "progress uri plan t0 (S \<union> T) w'"
proof -
  from assms(1) obtain e0 where "w_trace w = t0 @ e0" and g: "guarded uri plan (calls e0)" "\<forall>p \<in> S. \<exists>c \<in> set (calls e0). p c"
    by (auto simp: progress_def)
  with assms(2) have "w_trace w' = t0 @ (e0 @ evs)" by simp
  moreover have "guarded uri plan (calls (e0 @ evs))" using assms(3) [OF g] by simp
  ultimately show ?thesis
    unfolding progress_def using g(2) assms(4) by (intro exI [of _ "e0 @ evs"]) auto
qed

text \<open>What an action keeps: the same on both ways out.\<close>

abbreviation keeps :: "('w world \<Rightarrow> bool) \<Rightarrow> ('w, 'a) act \<Rightarrow> ('a \<Rightarrow> 'w world \<Rightarrow> bool) \<Rightarrow> ('w world \<Rightarrow> bool) \<Rightarrow> bool" where
  "keeps P m Q E \<equiv> triple P m Q (\<lambda>_. E)"

lemma keeps_calm:
  assumes "adds calm m"
  shows "triple (progress uri plan t0 S) m (\<lambda>_. progress uri plan t0 S) (\<lambda>_. progress uri plan t0 S)"
proof -
  have "progress uri plan t0 S w'" if P: "progress uri plan t0 S w" and m: "m w = (r, w')" for w r w'
  proof -
    from addsD [OF assms m] obtain evs where evs: "w_trace w' = w_trace w @ evs" "list_all calm evs" by blast
    then have "list_all (\<lambda>c. \<not> creating (fst c)) (calls evs)" by (auto simp: calls_def list_all_iff calm_def)
    then show ?thesis using progress_step [OF P evs(1), of "{}"] by (simp add: guarded_calm)
  qed
  then show ?thesis by (auto simp: triple_def split: prod.splits result.splits)
qed

lemma keeps_conn_run:
  assumes "creating cmd \<Longrightarrow> \<exists>n \<in> set (machines plan). creates uri plan n cmd \<and> (\<lambda>c. c = absent uri n) \<in> S"
  shows "triple (progress uri plan t0 S) (conn_run (build_connection env kvm) cmd)
    (\<lambda>out. progress uri plan t0 (insert (\<lambda>c. c = (cmd, Some out)) S))
    (\<lambda>_. progress uri plan t0 (insert (\<lambda>c. c = (cmd, None)) S))"
proof -
  have "progress uri plan t0 (insert (\<lambda>c. c = (cmd, answer r)) S) w'"
    if P: "progress uri plan t0 S w" and run: "conn_run (build_connection env kvm) cmd w = (r, w')" for w r w'
  proof -
    from conn_run_call [OF run] obtain ev where ev: "w_trace w' = w_trace w @ [ev]" "call_of ev = [(cmd, answer r)]"
      by auto
    have "guarded uri plan (cs @ calls [ev])" if "guarded uri plan cs" "\<forall>p \<in> S. \<exists>c \<in> set cs. p c" for cs
    proof -
      have "guarded uri plan (cs @ [(cmd, answer r)])"
      proof (rule guarded_snoc [OF that(1)])
        assume "creating (fst (cmd, answer r))"
        then obtain n where n: "n \<in> set (machines plan)" "creates uri plan n cmd" "(\<lambda>c. c = absent uri n) \<in> S"
          using assms by auto
        from bspec [OF that(2) n(3)] have "absent uri n \<in> set cs" by auto
        with n show "\<exists>n \<in> set (machines plan). creates uri plan n (fst (cmd, answer r)) \<and> absent uri n \<in> set cs"
          by auto
      qed
      then show ?thesis by (simp add: ev(2))
    qed
    from progress_step [OF P ev(1) this, of "{\<lambda>c. c = (cmd, answer r)}"] show ?thesis
      by (simp add: ev(2))
  qed
  then show ?thesis by (intro tripleI) force+
qed

section \<open>Steps that create nothing\<close>

lemma not_creating [simp]:
  "\<not> creating (''cat '' @ s)" "\<not> creating (''podman '' @ s)" "\<not> creating (''mv '' @ s)" "\<not> creating (''rm '' @ s)"
  "\<not> creating (''virsh '' @ s)" "\<not> creating (''printf '' @ s)" "\<not> creating (''set '' @ s)" "\<not> creating (''ssh '' @ s)"
  "\<not> creating (''ENABLE_CLOUD_INIT'' @ s)"
  by (simp_all add: creating_def starts_with_def)

lemma not_creating_cmds [simp]:
  "\<not> creating (cmd_dominfo uri n)" "\<not> creating (cmd_domifaddr uri n)" "\<not> creating (cmd_net_dumpxml uri n)"
  "\<not> creating (cmd_net_info uri n)" "\<not> creating (cmd_net_update_add uri n m x i)"
  "\<not> creating (cat_pubkey plan)" "\<not> creating (podman_pull_cmd plan r)" "\<not> creating (make_image_cmd r t)"
  "\<not> creating (bib_run_cmd plan r b)" "\<not> creating (podman_inspect_vcs_ref_cmd plan r)" "\<not> creating (here_doc t c e)"
  "\<not> creating (cloud_init_seed_cmd h u i nc)" "\<not> creating (cp_ssh_cmd k i c)"
  by (simp_all add: creating_def starts_with_def cmd_dominfo_def cmd_domifaddr_def cmd_net_dumpxml_def cmd_net_info_def
      cmd_net_update_add_def cmd_virsh_def cat_pubkey_def podman_pull_cmd_def make_image_cmd_def bib_run_cmd_def
      podman_inspect_vcs_ref_cmd_def here_doc_def cloud_init_seed_cmd_def cp_ssh_cmd_def Let_def split: prod.splits)

lemma calm_silent [simp]: "calm (Stdout s)" "calm (Slept n)" "calm (ProcRun a r)"
  by (simp_all add: calm_def)

lemma adds_conn_run: "\<not> creating cmd \<Longrightarrow> adds calm (conn_run (build_connection env kvm) cmd)"
proof (rule addsI)
  fix w
  assume "\<not> creating cmd"
  moreover obtain r w' where "conn_run (build_connection env kvm) cmd w = (r, w')" by (cases "conn_run (build_connection env kvm) cmd w")
  ultimately show "\<exists>evs. w_trace (snd (conn_run (build_connection env kvm) cmd w)) = w_trace w @ evs \<and> list_all calm evs"
    using conn_run_call [of env kvm cmd w r w'] by (auto simp: calm_def)
qed

lemma adds_conn [adds_intro]:
  "\<not> creating cmd \<Longrightarrow> adds calm (exec_shell (build_connection env kvm) cmd)"
  "\<not> creating cmd \<Longrightarrow> adds calm (run_unit (build_connection env kvm) cmd)"
  "adds calm (net_dumpxml (build_connection env kvm) net)" "adds calm (net_info (build_connection env kvm) net)"
  "adds calm (net_update_add_ip_dhcp_host (build_connection env kvm) net mac name ip)"
  "adds calm (domifaddr (build_connection env kvm) vm)"
  by (auto simp: exec_shell_def run_unit_def net_dumpxml_def net_info_def net_update_add_ip_dhcp_host_def domifaddr_def Let_def
      intro!: adds_intro adds_conn_run)

lemma adds_or_bail [adds_intro]: "adds V m \<Longrightarrow> adds V (or_bail msg m)"
  unfolding or_bail_def by (rule adds_match) (auto split: result.splits)

lemma adds_dropA [adds_intro]: "adds V m \<Longrightarrow> adds V (dropA m)"
  unfolding dropA_def by (rule adds_match) auto

lemma adds_deploy_log [adds_intro]: "adds calm (deploy_log s)"
  by (simp add: deploy_log_def adds_emit)

lemma adds_cache [adds_intro]:
  "adds V a \<Longrightarrow> adds V b \<Longrightarrow> adds V c \<Longrightarrow> adds V (case r of Reuse \<Rightarrow> a | Rebuild \<Rightarrow> b | StrictFail \<Rightarrow> c)"
  by (cases r) simp_all

lemma adds_ghcr [adds_intro]:
  "adds V a \<Longrightarrow> (\<And>m. adds V (b m)) \<Longrightarrow> (\<And>m. adds V (c m)) \<Longrightarrow> adds V (case r of Fresh \<Rightarrow> a | Warn m \<Rightarrow> b m | GhcrStrictFail m \<Rightarrow> c m)"
  by (cases r) simp_all

lemma adds_reservation [adds_intro]:
  "adds V a \<Longrightarrow> adds V b \<Longrightarrow> adds V c \<Longrightarrow> adds V (case r of AlreadyPresent \<Rightarrow> a | IpTakenByOtherMac \<Rightarrow> b | Absent \<Rightarrow> c)"
  by (cases r) simp_all

lemma adds_retry [adds_intro]: "adds calm f \<Longrightarrow> adds calm (retry env n secs f)"
  by (induction n) (auto intro!: adds_intro)

lemma adds_retry_cell [adds_intro]: "adds calm f \<Longrightarrow> adds calm (retry_cell env n secs f)"
  by (induction n) (auto intro!: adds_intro)

lemma calm_image_acquisition: "adds calm (plan_image_acquisition host plan (build_connection env kvm))"
  unfolding plan_image_acquisition_def assess_pulled_def image_vcs_ref_def containerfile_changed_since_def git_ok_def Let_def
  by (rule adds_intro | simp)+

lemma calm_expected_id [adds_intro]: "adds calm (compute_expected_build_id host plan r (build_connection env kvm))"
  unfolding compute_expected_build_id_def containerfile_hash_def by (rule adds_intro | simp)+

lemma calm_render_bib [adds_intro]: "adds calm (render_bib_config host pubkey)"
  unfolding render_bib_config_def render_bib_config_with_def password_str_def Let_def by (rule adds_intro | simp)+

lemma not_creating_literals [simp]:
  "\<not> creating ''virsh pool-refresh default 2>/dev/null || true''" "\<not> creating ''virsh pool-refresh mass2 2>/dev/null || true''"
  by (simp_all add: creating_def starts_with_def)

lemma not_creating_prefixed [simp]:
  "\<not> creating (''mv -- '' @ s)" "\<not> creating (''rm -rf -- '' @ s)" "\<not> creating (''rm -f -- '' @ s)"
  by (simp_all add: creating_def starts_with_def)

lemma calm_run_bib [adds_intro]: "adds calm (run_bib host plan r q i (build_connection env kvm))"
  unfolding run_bib_def Let_def by (rule adds_intro | simp only: not_creating not_creating_prefixed not_creating_literals not_creating_cmds not_False_eq_True)+

lemma calm_build_one [adds_intro]: "adds calm (build_one_qcow2 host plan r q (build_connection env kvm))"
  unfolding build_one_qcow2_def read_sidecar_def by (rule adds_intro)+

lemma calm_build_qcow2: "adds calm (plan_build_qcow2 host plan cp_ref worker_ref (build_connection env kvm))"
  unfolding plan_build_qcow2_def Let_def by (rule adds_intro)+

lemma calm_check_extra [adds_intro]: "adds calm (check_extra_network_on_host plan (build_connection env kvm) net)"
  unfolding check_extra_network_on_host_def Let_def by (rule adds_intro)+

lemma calm_net2_config [adds_intro]: "adds calm (write_net2_config_tmp (build_connection env kvm) net tag)"
  unfolding write_net2_config_tmp_def Let_def by (rule adds_intro | simp only: not_creating_cmds not_False_eq_True)+

lemma calm_cp_seed: "adds calm (plan_cp_seed host plan (build_connection env kvm) pubkey net)"
  unfolding plan_cp_seed_def Let_def by (rule adds_intro | simp only: not_creating_cmds not_False_eq_True)+

lemma calm_reserve [adds_intro]: "adds calm (reserve (build_connection env kvm) mac ip name)"
  unfolding reserve_def ensure_dhcp_reservation_def Let_def by (rule adds_intro)+

lemma calm_probes [adds_intro]:
  "adds calm (probe_ip (build_connection env kvm) plan)"
  "adds calm (probe_ok (build_connection env kvm) (cp_ssh_cmd k ip c))"
  unfolding probe_ip_def probe_ok_def by (rule adds_intro | simp only: not_creating_cmds not_False_eq_True)+

lemma calm_cp_ready: "adds calm (plan_cp_ready env plan (build_connection env kvm) key)"
  unfolding plan_cp_ready_def by (rule adds_intro)+

lemma calm_join_token: "adds calm (plan_join_token plan (build_connection env kvm) ip key)"
  unfolding plan_join_token_def Let_def by (rule adds_intro | simp only: not_creating_cmds not_False_eq_True)+

lemma calm_verify: "adds calm (plan_verify host plan ip)"
  unfolding plan_verify_def by (rule adds_intro | simp)+

lemma calm_summary: "adds calm (plan_summary plan ip)"
  unfolding plan_summary_def by (rule adds_intro)+

lemma calm_checks: "adds calm (deploy_checks plan warns)"
  unfolding deploy_checks_def by (rule adds_intro)+

section \<open>The guard, the machine, Ready\<close>

lemma triple_or_bail: "triple P m Q (\<lambda>_. E) \<Longrightarrow> keeps P (or_bail msg m) Q E"
  unfolding or_bail_def
  by (rule triple_match_cases) (auto intro!: triple_intro)

lemma triple_exec_shell:
  "\<not> creating cmd \<Longrightarrow> triple (progress uri plan t0 S) (exec_shell (build_connection env kvm) cmd)
    (\<lambda>out. progress uri plan t0 (insert (\<lambda>c. c = (cmd, Some out)) S)) (\<lambda>_. progress uri plan t0 S)"
  unfolding exec_shell_def
  by (rule triple_conseq [OF keeps_conn_run]) (auto elim: progress_mono)

lemma triple_run_unit:
  assumes "creating cmd \<Longrightarrow> \<exists>n \<in> set (machines plan). creates uri plan n cmd \<and> (\<lambda>c. c = absent uri n) \<in> S"
  shows "triple (progress uri plan t0 S) (run_unit (build_connection env kvm) cmd)
    (\<lambda>_. progress uri plan t0 (insert (\<lambda>c. fst c = cmd \<and> snd c \<noteq> None) S)) (\<lambda>_. progress uri plan t0 S)"
  unfolding run_unit_def
proof (rule triple_bind)
  show "triple (progress uri plan t0 S) (conn_run (build_connection env kvm) cmd)
    (\<lambda>_. progress uri plan t0 (insert (\<lambda>c. fst c = cmd \<and> snd c \<noteq> None) S)) (\<lambda>_. progress uri plan t0 S)"
  proof (rule triple_conseq [OF keeps_conn_run [OF assms]])
    fix out and w :: "'a world"
    assume "progress uri plan t0 (insert (\<lambda>c. c = (cmd, Some out)) S) w"
    then show "progress uri plan t0 (insert (\<lambda>c. fst c = cmd \<and> snd c \<noteq> None) S) w"
      by (rule progress_weaken) simp
  qed (auto elim: progress_mono)
qed (auto intro!: triple_intro)

lemma triple_guard:
  "keeps (progress uri plan t0 S) (guard_absent (build_connection env kvm) n d p)
     (\<lambda>_. progress uri plan t0 (insert (\<lambda>c. c = absent uri n) S)) (progress uri plan t0 S)"
  if "uri = conn_uri (build_connection env kvm)"
  unfolding guard_absent_def
proof (rule triple_match_cases)
  let ?c = "build_connection env kvm" and ?P = "progress uri plan t0"
  show "triple (?P S) (dominfo ?c n) (\<lambda>_. ?P S)
      (\<lambda>e. case e of VirshFailed _ _ \<Rightarrow> ?P (insert (\<lambda>c. c = absent uri n) S) | _ \<Rightarrow> ?P S)"
    unfolding dominfo_def Let_def
  proof (rule triple_bind)
    show "triple (?P S) (conn_run ?c (cmd_dominfo (conn_uri ?c) n)) (\<lambda>_. ?P S)
        (\<lambda>e. case e of VirshFailed _ _ \<Rightarrow> ?P (insert (\<lambda>c. c = absent uri n) S) | _ \<Rightarrow> ?P S)"
      by (rule triple_conseq [OF keeps_conn_run])
        (auto simp: absent_def that split: virt_error.split elim: progress_mono)
    show "triple (?P S) (liftA (parse_dominfo out (cmd_dominfo (conn_uri ?c) n))) (\<lambda>_. ?P S)
        (\<lambda>e. case e of VirshFailed _ _ \<Rightarrow> ?P (insert (\<lambda>c. c = absent uri n) S) | _ \<Rightarrow> ?P S)" for out
      by (rule triple_lift) (auto split: virt_error.split dest: parse_dominfo_not_failed [THEN notE])
  qed
qed (auto intro!: triple_intro split: virt_error.split)

text \<open>Every step may stop with an error; what then holds is that everything created was guarded.\<close>

lemma calm_step: "adds calm m \<Longrightarrow> keeps (progress uri plan t0 S) m (\<lambda>_. progress uri plan t0 S) (progress uri plan t0 {})"
  by (rule triple_conseq [OF keeps_calm [where S = S]]) (auto elim: progress_mono)

lemma triple_retry:
  assumes "keeps P f (\<lambda>b w. if b then Q w else P w) E"
    and "keeps P (sleep env secs) (\<lambda>_. P) E"
  shows "keeps P (retry env n secs f) (\<lambda>b w. if b then Q w else P w) E"
proof (induction n)
  case 0
  show ?case unfolding retry.simps by (rule triple_ret) simp
next
  case (Suc n)
  show ?case
    unfolding retry.simps
  proof (rule triple_bind [OF assms(1)])
    fix ready
    show "keeps (\<lambda>w. if ready then Q w else P w)
        (if ready then retA True
         else bindA (whenA (0 < n \<and> 0 < secs) (sleep env secs)) (\<lambda>_. retry env n secs f))
        (\<lambda>b w. if b then Q w else P w) E"
    proof (cases ready)
      case True
      then show ?thesis by (auto intro!: triple_intro)
    next
      case False
      have "keeps P (whenA (0 < n \<and> 0 < secs) (sleep env secs)) (\<lambda>_. P) E"
        using assms(2) by (auto intro!: triple_intro)
      from triple_bind [OF this Suc.IH] False show ?thesis by simp
    qed
  qed
qed

lemma triple_for_seen:
  assumes "\<And>x S. x \<in> set xs \<Longrightarrow>
      keeps (progress uri plan t0 S) (f x) (\<lambda>_. progress uri plan t0 (insert (g x) S)) (progress uri plan t0 {})"
  shows "keeps (progress uri plan t0 S) (forA xs f) (\<lambda>_. progress uri plan t0 (S \<union> g ` set xs)) (progress uri plan t0 {})"
  using assms
proof (induction xs arbitrary: S)
  case Nil
  show ?case by (simp add: triple_def)
next
  case (Cons x xs)
  have "keeps (progress uri plan t0 (insert (g x) S)) (forA xs f)
      (\<lambda>_. progress uri plan t0 (insert (g x) S \<union> g ` set xs)) (progress uri plan t0 {})"
    by (rule Cons.IH) (simp add: Cons.prems)
  with Cons.prems [of x S] show ?case by (auto intro!: triple_bind)
qed

abbreviation deploy_uri :: "'w env \<Rightarrow> deploy_plan \<Rightarrow> qemu_ssh_uri" where
  "deploy_uri env plan \<equiv> conn_uri (build_connection env (dp_kvm_host plan))"

definition installed :: "qemu_ssh_uri \<Rightarrow> vm_spec \<Rightarrow> call \<Rightarrow> bool" where
  "installed uri spec = (\<lambda>c. fst c = cmd_virt_install uri spec \<and> snd c \<noteq> None)"

definition node_ready :: "string \<Rightarrow> string \<Rightarrow> string \<Rightarrow> call \<Rightarrow> bool" where
  "node_ready key ip n = (\<lambda>c. \<exists>out. c = (node_ready_cmd key ip n, Some out) \<and> contains ''yes'' (trim out))"

lemma triple_clone:
  assumes "n \<in> set (machines plan)" "(\<lambda>c. c = absent uri n) \<in> S"
  shows "keeps (progress uri plan t0 S) (or_bail msg (remote_cp_reflink (build_connection env kvm) t (disk_of plan n)))
     (\<lambda>_. progress uri plan t0 S) (progress uri plan t0 {})"
proof (rule triple_or_bail)
  have "\<exists>n' \<in> set (machines plan). creates uri plan n' (cmd_cp_reflink t (disk_of plan n)) \<and> (\<lambda>c. c = absent uri n') \<in> S"
    using assms by (auto simp: creates_def)
  from triple_run_unit [where S = S, OF this]
  show "triple (progress uri plan t0 S) (remote_cp_reflink (build_connection env kvm) t (disk_of plan n))
     (\<lambda>_. progress uri plan t0 S) (\<lambda>_. progress uri plan t0 {})"
    unfolding remote_cp_reflink_def by (rule triple_conseq) (auto elim: progress_mono)
qed

lemma triple_install:
  assumes "uri = conn_uri (build_connection env kvm)" "vm_name spec \<in> set (machines plan)"
    "vm_disk_path spec = disk_of plan (vm_name spec)" "(\<lambda>c. c = absent uri (vm_name spec)) \<in> S"
  shows "keeps (progress uri plan t0 S) (or_bail msg (virt_install_vm (build_connection env kvm) spec))
     (\<lambda>_. progress uri plan t0 (insert (installed uri spec) S)) (progress uri plan t0 {})"
proof (rule triple_or_bail)
  have "\<exists>n \<in> set (machines plan). creates uri plan n (cmd_virt_install uri spec) \<and> (\<lambda>c. c = absent uri n) \<in> S"
    using assms by (auto simp: creates_def)
  from triple_run_unit [where S = S, OF this]
  show "triple (progress uri plan t0 S) (virt_install_vm (build_connection env kvm) spec)
     (\<lambda>_. progress uri plan t0 (insert (installed uri spec) S)) (\<lambda>_. progress uri plan t0 {})"
    unfolding virt_install_vm_def installed_def assms(1) [symmetric]
    by (rule triple_conseq) (auto elim: progress_mono)
qed

lemma triple_wait_node:
  "keeps (progress uri plan t0 S) (wait_node env plan' (build_connection env kvm) ip key n)
     (\<lambda>_. progress uri plan t0 (insert (node_ready key ip n) S)) (progress uri plan t0 {})"
  unfolding wait_node_def
proof (rule triple_bind [OF calm_step [OF adds_deploy_log]], rule triple_bind)
  let ?P = "progress uri plan t0" and ?c = "build_connection env kvm"
  have "keeps (?P S) (probe_yes ?c (node_ready_cmd key ip n)) (\<lambda>b w. if b then ?P (insert (node_ready key ip n) S) w else ?P S w) (?P {})"
    unfolding probe_yes_def
  proof (rule triple_match_cases [OF triple_exec_shell])
    show "\<not> creating (node_ready_cmd key ip n)" by (simp add: node_ready_cmd_def)
    show "keeps (?P (insert (\<lambda>c. c = (node_ready_cmd key ip n, Some out)) S))
        (retA (case Ok out of Ok out \<Rightarrow> contains ''yes'' (trim out) | Err _ \<Rightarrow> False))
        (\<lambda>b w. if b then ?P (insert (node_ready key ip n) S) w else ?P S w) (?P {})" for out
      by (auto intro!: triple_ret simp: node_ready_def elim: progress_mono progress_weaken)
  qed (auto intro!: triple_ret)
  from triple_retry [OF this calm_step [OF adds_sleep]]
  show "keeps (?P S) (retry env (dp_cp_ready_retries plan') (dp_cp_ready_sleep_secs plan') (probe_yes ?c (node_ready_cmd key ip n)))
      (\<lambda>b w. if b then ?P (insert (node_ready key ip n) S) w else ?P S w) (?P {})" by simp
  show "keeps (\<lambda>w. if ready then ?P (insert (node_ready key ip n) S) w else ?P S w)
      (if \<not> ready then failA [''node '' @ quoted n @ '' never reached Ready''] else retA ())
      (\<lambda>_. ?P (insert (node_ready key ip n) S)) (?P {})" for ready
    by (cases ready) (auto intro!: triple_fail triple_ret elim: progress_mono)
qed

section \<open>The steps in order\<close>

lemma triple_spawn_worker:
  fixes env :: "'w env"
  assumes "\<not> dp_dry_run plan" "w \<in> set (dp_worker_names plan)"
  defines "uri \<equiv> deploy_uri env plan"
  shows "keeps (progress uri plan t0 S)
    (spawn_worker host plan (build_connection env (dp_kvm_host plan)) template join_cmd pubkey macs nets (i, w))
    (\<lambda>_. progress uri plan t0 (insert (installed uri (worker_spec plan macs nets i w)) S)) (progress uri plan t0 {})"
proof -
  let ?c = "build_connection env (dp_kvm_host plan)" and ?P = "progress uri plan t0" and ?A = "insert (\<lambda>c. c = absent uri w) S"
  have w: "w \<in> set (machines plan)" using assms(2) by (simp add: machines_def)
  have guard: "keeps (?P S) (guard_absent ?c w d p) (\<lambda>_. ?P ?A) (?P {})" for d p
    by (rule triple_conseq [OF triple_guard [where S = S]]) (auto simp: uri_def elim: progress_mono)
  have install: "keeps (?P ?A) (or_bail msg (virt_install_vm ?c (worker_spec plan macs nets i w)))
      (\<lambda>_. ?P (insert (installed uri (worker_spec plan macs nets i w)) S)) (?P {})" for msg
    by (rule triple_conseq [OF triple_install [where S = ?A and spec = "worker_spec plan macs nets i w" and uri = uri]])
      (auto simp: uri_def w worker_spec_def disk_of_def elim: progress_mono)
  note clone = triple_clone [where n = w and S = ?A, OF w insertI1, unfolded disk_of_def]
  show ?thesis
    unfolding spawn_worker_def prod.case Let_def
    by (intro triple_bind [OF guard] triple_bind [OF calm_step [OF adds_deploy_log]] triple_bind [OF clone]
        triple_bind [OF calm_step [OF calm_reserve]] triple_bind [OF calm_step [OF calm_net2_config]]
        triple_bind [OF calm_step [OF adds_or_bail [OF adds_conn(1)]]] install not_creating_cmds)
qed

lemma triple_cp_install:
  fixes env :: "'w env"
  assumes "\<not> dp_dry_run plan"
  defines "uri \<equiv> deploy_uri env plan"
  shows "keeps (progress uri plan t0 S)
    (plan_cp_virt_install plan (build_connection env (dp_kvm_host plan)) template seed macs net)
    (\<lambda>_. progress uri plan t0 (insert (installed uri (cp_spec plan seed macs net)) S)) (progress uri plan t0 {})"
proof -
  let ?n = "dp_cp_name plan"
  let ?c = "build_connection env (dp_kvm_host plan)" and ?P = "progress uri plan t0" and ?A = "insert (\<lambda>c. c = absent uri ?n) S"
  have n: "?n \<in> set (machines plan)" by (simp add: machines_def)
  have guard: "keeps (?P S) (guard_absent ?c ?n d p) (\<lambda>_. ?P ?A) (?P {})" for d p
    by (rule triple_conseq [OF triple_guard [where S = S]]) (auto simp: uri_def elim: progress_mono)
  have install: "keeps (?P ?A) (or_bail msg (virt_install_vm ?c (cp_spec plan seed macs net)))
      (\<lambda>_. ?P (insert (installed uri (cp_spec plan seed macs net)) S)) (?P {})" for msg
    by (rule triple_conseq [OF triple_install [where S = ?A and spec = "cp_spec plan seed macs net" and uri = uri]])
      (auto simp: uri_def n cp_spec_def disk_of_def elim: progress_mono)
  note clone = triple_clone [where n = ?n and S = ?A, OF n insertI1, unfolded disk_of_def]
  show ?thesis
    unfolding plan_cp_virt_install_def Let_def if_not_P [OF assms(1)]
    by (intro triple_bind [OF guard] triple_bind [OF calm_step [OF adds_deploy_log]] triple_bind [OF clone]
        triple_bind [OF calm_step [OF calm_reserve]] triple_bind [OF install] triple_ret)
qed

definition cp_seed_path :: "deploy_plan \<Rightarrow> string" where
  "cp_seed_path plan = dp_pool_dir plan @ ''/'' @ dp_cp_name plan @ ''-seed.iso''"

lemma bind_Ok_value: "(\<And>w b w'. f b w = (Ok a, w') \<Longrightarrow> V a) \<Longrightarrow> bindA m f w = (Ok a, w') \<Longrightarrow> V a"
  by (auto simp: bindA_def split: prod.splits result.splits)

lemma cp_seed_value:
  assumes "plan_cp_seed host plan conn pubkey net w = (Ok seed, w')"
  shows "seed = cp_seed_path plan"
proof (cases "dp_dry_run plan")
  case True
  from assms [unfolded plan_cp_seed_def Let_def if_P [OF True]] show ?thesis
    by (elim bind_Ok_value [rotated]) (auto simp: cp_seed_path_def)
next
  case False
  from assms [unfolded plan_cp_seed_def Let_def if_not_P [OF False]] show ?thesis
    by (elim bind_Ok_value [rotated]) (auto simp: cp_seed_path_def)
qed

text \<open>What has been seen when a deployment is complete.\<close>

definition deployed ::
  "qemu_ssh_uri \<Rightarrow> deploy_plan \<Rightarrow> primary_macs \<Rightarrow> (net2 \<times> net2 list) option \<Rightarrow> string \<Rightarrow> (call \<Rightarrow> bool) set" where
  "deployed uri plan macs extra ip =
     {installed uri (cp_spec plan (cp_seed_path plan) macs (map_option fst extra))}
     \<union> (\<lambda>(i, n). installed uri (worker_spec plan macs (map_option snd extra) i n)) ` set (enumerate 0 (dp_worker_names plan))
     \<union> node_ready (derive_privkey_path (dp_ssh_pubkey_file plan)) ip ` set (machines plan)"

lemma deployed_all:
  "(\<forall>p \<in> deployed uri plan macs extra ip. Q p) \<longleftrightarrow>
     Q (installed uri (cp_spec plan (cp_seed_path plan) macs (map_option fst extra)))
     \<and> (\<forall>(i, n) \<in> set (enumerate 0 (dp_worker_names plan)). Q (installed uri (worker_spec plan macs (map_option snd extra) i n)))
     \<and> (\<forall>n \<in> set (machines plan). Q (node_ready (derive_privkey_path (dp_ssh_pubkey_file plan)) ip n))"
  unfolding deployed_def ball_Un ball_simps(9) by auto

lemma triple_worker_spawn:
  fixes env :: "'w env"
  assumes "\<not> dp_dry_run plan"
  defines "uri \<equiv> deploy_uri env plan"
  shows "keeps (progress uri plan t0 S)
    (plan_worker_spawn host plan (build_connection env (dp_kvm_host plan)) template join_cmd pubkey macs nets)
    (\<lambda>_. progress uri plan t0 (S \<union> (\<lambda>(i, n). installed uri (worker_spec plan macs nets i n)) ` set (enumerate 0 (dp_worker_names plan))))
    (progress uri plan t0 {})"
proof (cases "dp_worker_names plan = []")
  case True
  with assms(1) show ?thesis by (simp add: plan_worker_spawn_def triple_def)
next
  case False
  have "keeps (progress uri plan t0 S) (spawn_worker host plan (build_connection env (dp_kvm_host plan)) template join_cmd pubkey macs nets x)
      (\<lambda>_. progress uri plan t0 (insert (case x of (i, n) \<Rightarrow> installed uri (worker_spec plan macs nets i n)) S)) (progress uri plan t0 {})"
    if "x \<in> set (enumerate 0 (dp_worker_names plan))" for x S
  proof (cases x)
    case (Pair i n)
    with that have "n \<in> set (dp_worker_names plan)" by (auto simp: in_set_enumerate_eq)
    from triple_spawn_worker [OF assms(1) this] show ?thesis by (simp add: Pair uri_def)
  qed
  from triple_for_seen [OF this] False assms(1) show ?thesis by (simp add: plan_worker_spawn_def)
qed

lemma triple_cluster_ready:
  assumes "\<not> dp_dry_run plan"
  shows "keeps (progress uri plan t0 S) (plan_cluster_ready env plan (build_connection env kvm) ip key)
    (\<lambda>_. progress uri plan t0 (S \<union> node_ready key ip ` set (machines plan))) (progress uri plan t0 {})"
  unfolding plan_cluster_ready_def Let_def if_not_P [OF assms] machines_def
  by (intro triple_bind [OF triple_for_seen [OF triple_wait_node]] calm_step adds_deploy_log)

lemma triple_deploy_rest:
  fixes env :: "'w env"
  assumes "\<not> dp_dry_run plan"
  defines "uri \<equiv> deploy_uri env plan"
  shows "keeps (progress uri plan t0 {}) (deploy_rest env host plan macs extra)
    (\<lambda>_ w. \<exists>ip. progress uri plan t0 (deployed uri plan macs extra ip) w) (progress uri plan t0 {})"
proof -
  let ?P = "progress uri plan t0" and ?c = "build_connection env (dp_kvm_host plan)"
    and ?key = "derive_privkey_path (dp_ssh_pubkey_file plan)"
    and ?cp = "installed uri (cp_spec plan (cp_seed_path plan) macs (map_option fst extra))"
    and ?ws = "(\<lambda>(i, n). installed uri (worker_spec plan macs (map_option snd extra) i n)) ` set (enumerate 0 (dp_worker_names plan))"
  have net: "keeps (?P {}) (case map_option fst extra of
               Some n \<Rightarrow> check_extra_network_on_host plan ?c (n2_network n) | None \<Rightarrow> retA ()) (\<lambda>_. ?P {}) (?P {})"
    by (rule calm_step) (rule adds_intro)+
  have key: "keeps (?P {}) (or_bail msg (exec_shell ?c (cat_pubkey plan))) (\<lambda>_. ?P {}) (?P {})" for msg
    by (rule calm_step) (rule adds_intro not_creating_cmds)+
  have seed: "keeps (?P {}) (plan_cp_seed host plan ?c pubkey (map_option fst extra)) (\<lambda>seed w. seed = cp_seed_path plan \<and> ?P {} w) (?P {})" for pubkey
    by (rule triple_value [OF calm_step [OF calm_cp_seed]]) (rule cp_seed_value)
  have install: "keeps (\<lambda>w. seed = cp_seed_path plan \<and> ?P {} w)
      (plan_cp_virt_install plan ?c template seed macs (map_option fst extra)) (\<lambda>_. ?P {?cp}) (?P {})" for seed template
    using triple_cp_install [OF assms(1), of env t0 "{}" template seed macs "map_option fst extra"]
    unfolding uri_def by (fastforce simp: triple_def split: prod.splits result.splits)
  have final: "keeps (?P ({?cp} \<union> ?ws \<union> node_ready ?key ip ` set (machines plan))) m
      (\<lambda>_ w. \<exists>ip. ?P (deployed uri plan macs extra ip) w) (?P {})" if "adds calm m" for m and ip
    by (rule triple_conseq [OF calm_step [OF that]]) (assumption | fold deployed_def, blast)+
  note workers = triple_worker_spawn [OF assms(1), of env t0 "{?cp}", folded uri_def]
  show ?thesis
    unfolding deploy_rest_def Let_def if_not_P [OF assms(1)]
    by (rule triple_bind [OF net] triple_bind [OF key] triple_bind [OF calm_step [OF calm_image_acquisition]] triple_case_prod
        triple_bind [OF calm_step [OF calm_build_qcow2]] triple_bind [OF seed] triple_bind [OF install]
        triple_bind [OF calm_step [OF calm_cp_ready]] triple_bind [OF calm_step [OF calm_join_token]]
        triple_bind [OF workers] triple_bind [OF triple_cluster_ready [OF assms(1)]]
        triple_bind [OF calm_step [OF calm_verify]] final [OF calm_summary])+
qed

section \<open>A dry run\<close>

lemma quiet_deploy_log [quiet_intro]: "quiet (deploy_log s)"
  by (simp add: deploy_log_def quiet_emit)

lemma quiet_checks: "quiet (deploy_checks plan warns)"
  unfolding deploy_checks_def by (rule quiet_intro)+

lemma quiet_dry_steps [quiet_intro]:
  assumes "dp_dry_run plan"
  shows "quiet (plan_image_acquisition host plan conn)" "quiet (plan_build_qcow2 host plan cp_ref worker_ref conn)"
    "quiet (plan_cp_seed host plan conn pubkey net)" "quiet (plan_cp_virt_install plan conn template seed macs net)"
    "quiet (plan_cp_ready env plan conn key)" "quiet (plan_join_token plan conn ip key)"
    "quiet (plan_worker_spawn host plan conn template join_cmd pubkey macs nets)"
    "quiet (plan_cluster_ready env plan conn ip key)" "quiet (plan_verify host plan ip)" "quiet (plan_summary plan ip)"
  unfolding plan_image_acquisition_def plan_build_qcow2_def plan_cp_seed_def plan_cp_virt_install_def plan_cp_ready_def
    plan_join_token_def plan_worker_spawn_def plan_cluster_ready_def plan_verify_def plan_summary_def Let_def
    dry_reserve_def dry_nic_def dry_worker_def if_P [OF assms]
  by (rule quiet_intro)+

lemma quiet_deploy_rest: "dp_dry_run plan \<Longrightarrow> quiet (deploy_rest env host plan macs extra)"
  unfolding deploy_rest_def Let_def by (simp only: if_True) (rule quiet_intro | assumption)+

lemma deploy_plan_facts:
  assumes "deploy_plan_from_args fs args cfg = Ok plan"
  shows "dp_dry_run plan = dga_dry_run args" "dp_kvm_host plan = dga_kvm_host args"
  using assms by (auto simp: deploy_plan_from_args_def)

lemma quiet_deploy_run:
  assumes "dga_dry_run args"
  shows "quiet (deploy_run env host fs args config)"
proof (cases config)
  case (Ok cfg)
  show ?thesis
  proof (cases "deploy_plan_from_args fs args cfg")
    case plan: (Ok plan)
    with assms have "dp_dry_run plan" by (simp add: deploy_plan_facts)
    then have "quiet (bindA (deploy_checks plan (warnings cfg)) (\<lambda>(macs, extra). deploy_rest env host plan macs extra))"
      by (intro quiet_bind quiet_checks quiet_case_prod quiet_deploy_rest)
    then show ?thesis by (simp add: deploy_run_def Ok plan)
  qed (simp only: deploy_run_def Ok action_simps(6,7) quiet_pure)
qed (simp only: deploy_run_def action_simps(7) quiet_pure)

section \<open>The command\<close>

lemma deploy_checks_value:
  assumes "deploy_checks plan warns w = (Ok (macs, extra), w')"
  shows "resolve_primary_macs (dp_cp_name plan) (dp_cp_mac plan) (dp_worker_names plan) (dp_worker_macs plan) = Ok macs
    \<and> validate_extra_network plan macs = Ok extra"
  using assms unfolding deploy_checks_def
  by (auto simp: bindA_def deploy_log_def emit_def liftA_def failA_def retA_def split: prod.splits result.splits if_splits)

lemma triple_deploy_run:
  fixes env :: "'w env"
  assumes "config = Ok cfg" "deploy_plan_from_args fs args cfg = Ok plan" "\<not> dga_dry_run args"
  defines "uri \<equiv> deploy_uri env plan"
  shows "keeps (progress uri plan t0 {}) (deploy_run env host fs args config)
    (\<lambda>_ w. \<exists>macs extra ip. resolve_primary_macs (dp_cp_name plan) (dp_cp_mac plan) (dp_worker_names plan) (dp_worker_macs plan) = Ok macs
        \<and> validate_extra_network plan macs = Ok extra \<and> progress uri plan t0 (deployed uri plan macs extra ip) w)
    (progress uri plan t0 {})"
proof -
  let ?P = "progress uri plan t0"
  let ?V = "\<lambda>(macs, extra). resolve_primary_macs (dp_cp_name plan) (dp_cp_mac plan) (dp_worker_names plan) (dp_worker_macs plan) = Ok macs
        \<and> validate_extra_network plan macs = Ok extra"
  have live: "\<not> dp_dry_run plan" using assms(3) deploy_plan_facts [OF assms(2)] by simp
  have "keeps (?P {}) (deploy_checks plan (warnings cfg)) (\<lambda>a w. ?V a \<and> ?P {} w) (?P {})"
    by (rule triple_value [OF calm_step [OF calm_checks]]) (use deploy_checks_value in fastforce)
  moreover have "keeps (\<lambda>w. ?V a \<and> ?P {} w) (case a of (macs, extra) \<Rightarrow> deploy_rest env host plan macs extra)
      (\<lambda>_ w. \<exists>macs extra ip. ?V (macs, extra) \<and> ?P (deployed uri plan macs extra ip) w) (?P {})" for a
  proof (cases a)
    case (Pair macs extra)
    show ?thesis
      using triple_deploy_rest [OF live, of env t0 host macs extra, folded uri_def]
      unfolding Pair triple_def prod.case by (fastforce split: prod.splits result.splits)
  qed
  ultimately have "keeps (?P {}) (bindA (deploy_checks plan (warnings cfg)) (\<lambda>(macs, extra). deploy_rest env host plan macs extra))
      (\<lambda>_ w. \<exists>macs extra ip. ?V (macs, extra) \<and> ?P (deployed uri plan macs extra ip) w) (?P {})"
    by (rule triple_bind)
  then show ?thesis by (simp add: deploy_run_def assms(1,2))
qed

text \<open>C9. A deployment never overwrites a machine: on every path and whatever the host answers, each
  command that creates a machine or clones a disk is for a machine of the plan, names that
  machine and its own disk, and comes after a \<open>dominfo\<close> of this run that found no such machine.
  This holds for the control plane and for every worker; in a dry run nothing is run at
  all, and the rest of the world stays as it is.\<close>

theorem deploy_never_overwrites:
  assumes "config = Ok cfg" "deploy_plan_from_args fs args cfg = Ok plan"
    and "deploy_run env host fs args config w = (r, w')"
  shows "\<exists>evs. w_trace w' = w_trace w @ evs \<and> guarded (deploy_uri env plan) plan (calls evs)
    \<and> (dga_dry_run args \<longrightarrow> calls evs = [] \<and> list_all printed evs \<and> w_ext w' = w_ext w)"
proof (cases "dga_dry_run args")
  case True
  from quiet_deploy_run [OF this, of env host fs config] assms(3)
  obtain evs where evs: "w_trace w' = w_trace w @ evs" "list_all printed evs" "w_ext w' = w_ext w"
    unfolding quiet_def by (metis addsD snd_conv)
  from evs(2) have "calls evs = []" by (induction evs) (auto elim: printed.elims)
  with evs show ?thesis by auto
next
  case False
  note T = triple_deploy_run [OF assms(1,2) False, where env = env and host = host]
  have "progress (deploy_uri env plan) plan (w_trace w) {} w'"
  proof (cases r)
    case (Ok u)
    with tripleD(1) [OF T progress_start, of w u w'] assms(3) show ?thesis
      using progress_mono [OF _ empty_subsetI] by blast
  next
    case (Err e)
    with tripleD(2) [OF T progress_start, of w e w'] assms(3) show ?thesis by simp
  qed
  with False show ?thesis by (auto simp: progress_def)
qed

theorem deploy_never_overwrites_witness:
  "\<exists>w' evs. deploy_run demo_kvm demo_host demo_fs (demo_deploy_args False) (Ok demo_deploy_config)
      \<lparr>w_ext = demo_script, w_trace = []\<rparr> = (Ok (), w') \<and> w_trace w' = evs
    \<and> guarded (deploy_uri demo_kvm demo_deploy) demo_deploy (calls evs)"
proof -
  obtain w' where run: "deploy_run demo_kvm demo_host demo_fs (demo_deploy_args False) (Ok demo_deploy_config)
      \<lparr>w_ext = demo_script, w_trace = []\<rparr> = (Ok (), w')"
    using demo_deploy_run by blast
  from deploy_never_overwrites [OF refl demo_plan run] run show ?thesis by auto
qed

text \<open>C8. A deployment that reports success is complete: the configuration passed the checks, the control
  plane and every worker, in the roles the plan gives them, were created by a \<open>virt-install\<close> that
  succeeded (with the MAC addresses that were checked), and afterwards the control plane reported
  every one of these nodes Ready.\<close>

theorem deploy_success_complete:
  assumes "config = Ok cfg" "deploy_plan_from_args fs args cfg = Ok plan" "\<not> dga_dry_run args"
    and "deploy_run env host fs args config w = (Ok (), w')"
  defines "uri \<equiv> deploy_uri env plan"
  shows "\<exists>evs macs extra ip. w_trace w' = w_trace w @ evs
    \<and> resolve_primary_macs (dp_cp_name plan) (dp_cp_mac plan) (dp_worker_names plan) (dp_worker_macs plan) = Ok macs
    \<and> validate_extra_network plan macs = Ok extra
    \<and> (\<exists>c \<in> set (calls evs). installed uri (cp_spec plan (cp_seed_path plan) macs (map_option fst extra)) c)
    \<and> (\<forall>(i, n) \<in> set (enumerate 0 (dp_worker_names plan)).
         \<exists>c \<in> set (calls evs). installed uri (worker_spec plan macs (map_option snd extra) i n) c)
    \<and> (\<forall>n \<in> set (machines plan).
         \<exists>c \<in> set (calls evs). node_ready (derive_privkey_path (dp_ssh_pubkey_file plan)) ip n c)"
proof -
  from tripleD(1) [OF triple_deploy_run [OF assms(1,2,3)] progress_start assms(4)]
  obtain macs extra ip where checks:
    "resolve_primary_macs (dp_cp_name plan) (dp_cp_mac plan) (dp_worker_names plan) (dp_worker_macs plan) = Ok macs"
    "validate_extra_network plan macs = Ok extra"
    and "progress uri plan (w_trace w) (deployed uri plan macs extra ip) w'"
    unfolding uri_def by blast
  then obtain evs where evs: "w_trace w' = w_trace w @ evs"
    and "\<forall>p \<in> deployed uri plan macs extra ip. \<exists>c \<in> set (calls evs). p c"
    unfolding progress_def by blast
  from this(2) [unfolded deployed_all] evs checks show ?thesis by blast
qed

theorem deploy_success_complete_witness:
  "\<exists>w' macs. deploy_run demo_kvm demo_host demo_fs (demo_deploy_args False) (Ok demo_deploy_config)
      \<lparr>w_ext = demo_script, w_trace = []\<rparr> = (Ok (), w')
    \<and> (\<exists>c \<in> set (calls (w_trace w')). installed (deploy_uri demo_kvm demo_deploy) (worker_spec demo_deploy macs None 0 ''w1'') c)"
proof -
  obtain w' where run: "deploy_run demo_kvm demo_host demo_fs (demo_deploy_args False) (Ok demo_deploy_config)
      \<lparr>w_ext = demo_script, w_trace = []\<rparr> = (Ok (), w')"
    using demo_deploy_run by blast
  have live: "\<not> dga_dry_run (demo_deploy_args False)" by (simp add: demo_deploy_args_def)
  have none: "validate_extra_network demo_deploy macs = Ok extra \<Longrightarrow> extra = None" for macs extra
    by (simp add: validate_extra_network_def filled_def is_set_def any_set_def demo_facts)
  from deploy_success_complete [OF refl demo_plan live run] none run show ?thesis
    by (fastforce simp: demo_facts)
qed

end
