(* ===== verification/Etcd_Text.thy ===== *)
theory Etcd_Text
  imports Ssh Sha256
begin

text \<open>
  The pure half of \<open>commands/etcd.rs\<close>: UTC timestamps from the seconds since 1970, labels and names of
  snapshots, reading the output of \<open>crictl\<close>, sizes, base64, and the line-wise edits of the
  \<open>EncryptionConfiguration\<close> that put a new key first and drop the old ones. \<open>i64\<close> values are integers
  (the largest is below 2 to the 48), the conversions to smaller types carry the default the code gives.
\<close>

section \<open>Timestamps\<close>

definition try_i64 :: "int \<Rightarrow> nat \<Rightarrow> int" where
  "try_i64 d n = (if n < 2 ^ 63 then int n else d)"

definition try_u32 :: "nat \<Rightarrow> int \<Rightarrow> nat" where
  "try_u32 d z = (if 0 \<le> z \<and> z < 2 ^ 32 then nat z else d)"

text \<open>The date part of \<open>civil_from_epoch\<close>. All dividends are non-negative, where \<open>div\<close> is the
  truncating division of the code.\<close>

definition civil_from_days :: "int \<Rightarrow> int \<times> nat \<times> nat" where
  "civil_from_days days =
     (let z = days + 719468;
          era = z div 146097;
          doe = z mod 146097;
          yoe = (doe - doe div 1460 + doe div 36524 - doe div 146096) div 365;
          doy = doe - (365 * yoe + yoe div 4 - yoe div 100);
          mp = (5 * doy + 2) div 153;
          d = try_u32 1 (doy - (153 * mp + 2) div 5 + 1);
          m = try_u32 1 (if mp < 10 then mp + 3 else mp - 9);
          y = yoe + era * 400 + (if m \<le> 2 then 1 else 0) in
      (y, m, d))"

definition civil_from_epoch :: "nat \<Rightarrow> int \<times> nat \<times> nat \<times> nat \<times> nat \<times> nat" where
  "civil_from_epoch epoch_secs =
     (let days = try_i64 0 (epoch_secs div 86400);
          rem = epoch_secs mod 86400;
          hh = try_u32 0 (int (rem div 3600));
          mm = try_u32 0 (int (rem mod 3600 div 60));
          ss = try_u32 0 (int (rem mod 60));
          (y, m, d) = civil_from_days days in
      (y, m, d, hh, mm, ss))"

text \<open>\<open>{n:02}\<close> and \<open>{n:04}\<close>.\<close>

definition padded :: "nat \<Rightarrow> nat \<Rightarrow> string" where
  "padded k n = pad_zeros k (show_nat n)"

definition format_utc_timestamp :: "nat \<Rightarrow> string" where
  "format_utc_timestamp epoch_secs =
     (let (y, m, d, hh, mm, ss) = civil_from_epoch epoch_secs in
      padded 4 (nat y) @ padded 2 m @ padded 2 d @ ''T'' @ padded 2 hh @ padded 2 mm @ padded 2 ss @ ''Z'')"

definition rotation_key_name :: "nat \<Rightarrow> string" where
  "rotation_key_name epoch_secs =
     (let (y, m, d, hh, mm, ss) = civil_from_epoch epoch_secs in
      ''key-'' @ padded 4 (nat y) @ padded 2 m @ padded 2 d @ padded 2 hh @ padded 2 mm @ padded 2 ss)"

section \<open>Labels and file names\<close>

definition is_label_char :: "char \<Rightarrow> bool" where
  "is_label_char c \<longleftrightarrow> is_ascii_alphanumeric c \<or> c = CHR ''.'' \<or> c = CHR ''_'' \<or> c = CHR ''-''"

definition trim_matches :: "char \<Rightarrow> string \<Rightarrow> string" where
  "trim_matches c s = trim_end_matches c (dropWhile (\<lambda>x. x = c) s)"

definition sanitize_label :: "string \<Rightarrow> string option" where
  "sanitize_label raw =
     (let mapped = map (\<lambda>c. if is_label_char c then c else CHR ''-'') raw;
          trimmed = trim_matches (CHR ''-'') mapped in
      if trimmed = [] then None else Some trimmed)"

definition snapshot_file_name :: "string \<Rightarrow> string option \<Rightarrow> string" where
  "snapshot_file_name timestamp label =
     (case label of
        Some l \<Rightarrow> ''etcd-snapshot-'' @ timestamp @ ''-'' @ l @ ''.db''
      | None \<Rightarrow> ''etcd-snapshot-'' @ timestamp @ ''.db'')"

section \<open>Reading \<open>crictl\<close>\<close>

definition parse_etcd_container_id :: "string \<Rightarrow> string option" where
  "parse_etcd_container_id stdout = find (\<lambda>l. l \<noteq> []) (map trim (lines stdout))"

definition validate_container_id :: "string \<Rightarrow> (anyhow, unit) result" where
  "validate_container_id cid =
     (if cid = [] \<or> \<not> list_all is_ascii_alphanumeric cid then
        bail (''refusing to use etcd container id '' @ debug_str cid @ '': expected an ''
          @ ''alphanumeric crictl id (the id is interpolated into a ''
          @ ''command evaluated by the CP'' @ [CHR 0x27] @ ''s /bin/sh)'')
      else Ok ())"

definition is_image_char :: "char \<Rightarrow> bool" where
  "is_image_char c \<longleftrightarrow> is_ascii_alphanumeric c \<or> c \<in> set ''._/:-@''"

definition validate_image_ref :: "string \<Rightarrow> (anyhow, unit) result" where
  "validate_image_ref image_ref =
     (if \<not> (image_ref \<noteq> [] \<and> list_all is_image_char image_ref) then
        bail (''refusing to use etcd image '' @ debug_str image_ref @ '': unexpected characters ''
          @ ''(the reference is interpolated into a command evaluated by ''
          @ ''the CP'' @ [CHR 0x27] @ ''s /bin/sh)'')
      else Ok ())"

fun pick_etcd_rows :: "string list \<Rightarrow> string option" where
  "pick_etcd_rows [] = None"
| "pick_etcd_rows (line # rest) =
     (if \<not> contains ''registry.k8s.io/etcd'' line then pick_etcd_rows rest
      else (case split_whitespace line of
              repo # tag # _ \<Rightarrow> Some (repo @ '':'' @ tag)
            | _ \<Rightarrow> pick_etcd_rows rest))"

definition pick_etcd_image :: "string \<Rightarrow> string option" where
  "pick_etcd_image images_stdout = pick_etcd_rows (lines images_stdout)"

section \<open>Sizes\<close>

definition size_units :: "string list" where
  "size_units = [[], ''K'', ''M'', ''G'', ''T'']"

function size_loop :: "nat \<Rightarrow> nat \<Rightarrow> nat \<Rightarrow> nat \<times> nat" where
  "size_loop bytes unit scale =
     (if unit + 1 < length size_units \<and> bytes \<ge> scale * 1024 then size_loop bytes (unit + 1) (scale * 1024)
      else (unit, scale))"
  by pat_completeness auto
termination
  by (relation "measure (\<lambda>(_, unit, _). length size_units - unit)") auto

declare size_loop.simps [simp del]

definition div_ceil :: "nat \<Rightarrow> nat \<Rightarrow> nat" where
  "div_ceil a b = (if a mod b > 0 then a div b + 1 else a div b)"

definition human_size :: "nat \<Rightarrow> string" where
  "human_size bytes =
     (let (unit, scale) = size_loop bytes 0 1 in
      if unit = 0 then show_nat bytes
      else
        (let t = div_ceil (bytes * 10) scale; tenths = (if t < 2 ^ 64 then t else 0) in
         if tenths < 100 then show_nat (tenths div 10) @ ''.'' @ show_nat (tenths mod 10) @ size_units ! unit
         else show_nat (div_ceil bytes scale) @ size_units ! unit))"

section \<open>Base64\<close>

definition ALPHABET :: string where
  "ALPHABET = ''ABCDEFGHIJKLMNOPQRSTUVWXYZabcdefghijklmnopqrstuvwxyz0123456789+/''"

definition b64_char :: "u32 \<Rightarrow> char" where
  "b64_char n = ALPHABET ! unat (n AND 0x3f)"

text \<open>One chunk of at most three bytes; \<open>k\<close> is its length.\<close>

definition b64_chunk :: "byte \<Rightarrow> byte \<Rightarrow> byte \<Rightarrow> nat \<Rightarrow> string" where
  "b64_chunk c0 c1 c2 k =
     (let b0 = ucast c0 :: u32; b1 = ucast c1 :: u32; b2 = ucast c2 :: u32;
          n = push_bit 16 b0 OR push_bit 8 b1 OR b2 in
      [b64_char (drop_bit 18 n), b64_char (drop_bit 12 n),
       if k > 1 then b64_char (drop_bit 6 n) else CHR ''='',
       if k > 2 then b64_char n else CHR ''=''])"

fun base64_encode :: "byte list \<Rightarrow> string" where
  "base64_encode [] = []"
| "base64_encode [b0] = b64_chunk b0 0 0 1"
| "base64_encode [b0, b1] = b64_chunk b0 b1 0 2"
| "base64_encode (b0 # b1 # b2 # rest) = b64_chunk b0 b1 b2 3 @ base64_encode rest"

section \<open>The list of keys\<close>

record keys_block =
  kb_keys_line :: nat
  kb_entry_indent :: nat
  kb_entries :: "nat list"
  kb_end :: nat

definition indent_of :: "string \<Rightarrow> nat" where
  "indent_of line = length line - length (trim_start line)"

definition is_aesgcm_line :: "string \<Rightarrow> bool" where
  "is_aesgcm_line l =
     (let t = trim_start l; t = unwrap_or (strip_prefix ''- '' t) t in starts_with ''aesgcm:'' t)"

fun position :: "('a \<Rightarrow> bool) \<Rightarrow> 'a list \<Rightarrow> nat option" where
  "position P [] = None"
| "position P (x # xs) = (if P x then Some 0 else map_option Suc (position P xs))"

text \<open>The loop that looks for \<open>keys:\<close> below the provider, from line \<open>i\<close> on.\<close>

fun scan_keys :: "nat \<Rightarrow> nat \<Rightarrow> string list \<Rightarrow> nat option" where
  "scan_keys aes_indent i [] = None"
| "scan_keys aes_indent i (line # rest) =
     (if trim line = [] then scan_keys aes_indent (Suc i) rest
      else if indent_of line \<le> aes_indent then None
      else if trim line = ''keys:'' then Some i
      else scan_keys aes_indent (Suc i) rest)"

definition is_entry :: "string \<Rightarrow> bool" where
  "is_entry line = starts_with ''- '' (trim_start line)"

text \<open>The loop that collects the entries, from line \<open>i\<close> on: the indentation of the entries, their
  lines and the line after the block.\<close>

fun scan_entries :: "nat \<Rightarrow> nat \<Rightarrow> string list \<Rightarrow> nat option \<Rightarrow> nat list \<Rightarrow> nat option \<times> nat list \<times> nat" where
  "scan_entries keys_indent i [] entry_indent entries = (entry_indent, entries, i)"
| "scan_entries keys_indent i (line # rest) entry_indent entries =
     (if trim line = [] then scan_entries keys_indent (Suc i) rest entry_indent entries
      else
        (let ind = indent_of line in
         if ind \<le> keys_indent then (entry_indent, entries, i)
         else
           (case entry_indent of
              None \<Rightarrow>
                if is_entry line then scan_entries keys_indent (Suc i) rest (Some ind) (entries @ [i])
                else scan_entries keys_indent (Suc i) rest None entries
            | Some e \<Rightarrow>
                if is_entry line \<and> ind = e then scan_entries keys_indent (Suc i) rest (Some e) (entries @ [i])
                else scan_entries keys_indent (Suc i) rest (Some e) entries)))"

definition NO_ENTRIES :: string where
  "NO_ENTRIES = ''aesgcm provider'' @ [CHR 0x27] @ ''s `keys:` list in encryption config is empty''"

definition find_aesgcm_keys_block :: "string list \<Rightarrow> (anyhow, keys_block) result" where
  "find_aesgcm_keys_block ls =
     bind_r (ok_or [''no aesgcm provider found in encryption config''] (position is_aesgcm_line ls)) (\<lambda>aes_idx.
     bind_r (ok_or [''aesgcm provider in encryption config has no `keys:` list'']
               (scan_keys (indent_of (ls ! aes_idx)) (aes_idx + 1) (drop (aes_idx + 1) ls))) (\<lambda>keys_line.
     case scan_entries (indent_of (ls ! keys_line)) (keys_line + 1) (drop (keys_line + 1) ls) None [] of
       (entry_indent, entries, fin) \<Rightarrow>
         bind_r (ok_or [NO_ENTRIES] entry_indent) (\<lambda>entry_indent.
         Ok \<lparr>kb_keys_line = keys_line, kb_entry_indent = entry_indent, kb_entries = entries, kb_end = fin\<rparr>)))"

definition joined :: "string list \<Rightarrow> string \<Rightarrow> string" where
  "joined ls original = (let s = join [NL] ls in if ends_with [NL] original then s @ [NL] else s)"

definition insert_primary_key :: "string \<Rightarrow> string \<Rightarrow> string \<Rightarrow> (anyhow, string) result" where
  "insert_primary_key config name secret =
     (let ls = lines config in
      bind_r (find_aesgcm_keys_block ls) (\<lambda>block.
      bind_r (ok_or [NO_ENTRIES] (case kb_entries block of [] \<Rightarrow> None | at # _ \<Rightarrow> Some at)) (\<lambda>at.
      let pad = replicate (kb_entry_indent block) (CHR '' '') in
      Ok (joined (take at ls @ [pad @ ''- name: '' @ name, pad @ ''  secret: '' @ secret] @ drop at ls) config))))"

definition drop_non_primary_keys :: "string \<Rightarrow> (anyhow, string) result" where
  "drop_non_primary_keys config =
     (let ls = lines config in
      bind_r (find_aesgcm_keys_block ls) (\<lambda>block.
      case kb_entries block of
        _ # second # _ \<Rightarrow> Ok (joined (take second ls @ drop (kb_end block) ls) config)
      | _ \<Rightarrow> Ok config))"

end
