(* ===== verification/Etcd_Calendar.thy ===== *)
theory Etcd_Calendar
  imports Etcd_Text
begin

text \<open>
  \<open>civil_from_epoch\<close> computes the date in closed form from the number of days. The reference is the
  Gregorian calendar itself: the date of day \<open>n\<close> is the \<open>n\<close>-th successor of 1 January 1970.
\<close>

section \<open>The calendar\<close>

type_synonym date = "int \<times> nat \<times> nat"

definition leap_year :: "int \<Rightarrow> bool" where
  "leap_year y \<longleftrightarrow> 4 dvd y \<and> (\<not> 100 dvd y \<or> 400 dvd y)"

definition days_in_month :: "int \<Rightarrow> nat \<Rightarrow> nat" where
  "days_in_month y m =
     (if m = 2 then (if leap_year y then 29 else 28) else if m \<in> {4, 6, 9, 11} then 30 else 31)"

fun next_date :: "date \<Rightarrow> date" where
  "next_date (y, m, d) =
     (if d < days_in_month y m then (y, m, d + 1)
      else if m < 12 then (y, m + 1, 1)
      else (y + 1, 1, 1))"

definition date_of_day :: "nat \<Rightarrow> date" where
  "date_of_day n = (next_date ^^ n) (1970, 1, 1)"

section \<open>Years of an era\<close>

text \<open>The code counts years from 1 March, in eras of 400 years. \<open>year_start\<close> is the first day of a year in its
  era, \<open>year_guess\<close> what the code divides by 365.\<close>

definition year_start :: "int \<Rightarrow> int" where
  "year_start y = 365 * y + y div 4 - y div 100 + y div 400"

definition year_guess :: "int \<Rightarrow> int" where
  "year_guess n = n - n div 1460 + n div 36524 - n div 146096"

lemma year_guess_Suc: "year_guess (int n) \<le> year_guess (int (Suc n))"
proof -
  have k: "Suc n div k = n div k + (if k dvd Suc n then 1 else 0)" for k
    by (simp add: div_Suc mod_eq_0_iff_dvd)
  have "36524 dvd Suc n" if "146096 dvd Suc n"
    using dvd_trans [OF _ that, of 36524] by (simp add: dvd_def)
  then have "int (Suc n) - int (Suc n div 1460) + int (Suc n div 36524) - int (Suc n div 146096)
      \<ge> int n - int (n div 1460) + int (n div 36524) - int (n div 146096)"
    by (simp only: k [of 1460] k [of 36524] k [of 146096]) simp
  moreover have "year_guess (int m) = int m - int (m div 1460) + int (m div 36524) - int (m div 146096)" for m
    by (simp add: year_guess_def zdiv_int)
  ultimately show ?thesis by (simp only:)
qed

lemma year_guess_mono:
  assumes "0 \<le> m" "m \<le> n"
  shows "year_guess m \<le> year_guess n"
proof -
  have "year_guess (int (nat m)) \<le> year_guess (int (nat n))"
    by (rule lift_Suc_mono_le [of "\<lambda>k. year_guess (int k)"]) (use year_guess_Suc assms in auto)
  with assms show ?thesis by simp
qed

lemma year_table:
  "list_all (\<lambda>y. 365 * y \<le> year_guess (year_start y) \<and> year_guess (year_start (y + 1) - 1) < 365 * (y + 1)
     \<and> year_start (y + 1) = year_start y + (if leap_year (y + 1) then 366 else 365) \<and> year_start (y + 1) \<le> 146097) [0..399]"
  by code_simp

lemma year_bounds:
  assumes "0 \<le> y" "y < 400"
  shows "365 * y \<le> year_guess (year_start y)"
    and "year_guess (year_start (y + 1) - 1) < 365 * (y + 1)"
    and "year_start (y + 1) = year_start y + (if leap_year (y + 1) then 366 else 365)"
    and "year_start (y + 1) \<le> 146097"
proof -
  have "y \<in> set [0..399]" using assms by simp
  with year_table show "365 * y \<le> year_guess (year_start y)"
    and "year_guess (year_start (y + 1) - 1) < 365 * (y + 1)"
    and "year_start (y + 1) = year_start y + (if leap_year (y + 1) then 366 else 365)"
    and "year_start (y + 1) \<le> 146097"
    unfolding list_all_iff by blast+
qed

lemma year_guess_year:
  assumes "0 \<le> y" "y < 400" "0 \<le> n" "year_start y \<le> n" "n < year_start (y + 1)"
  shows "year_guess n div 365 = y"
proof -
  have "0 \<le> year_start y" using assms(1) by (simp add: year_start_def)
  then have "365 * y \<le> year_guess n"
    using year_bounds(1) [OF assms(1,2)] year_guess_mono [OF _ assms(4)] by linarith
  moreover have "year_guess n < 365 * (y + 1)"
    using year_bounds(2) [OF assms(1,2)] year_guess_mono [of n "year_start (y + 1) - 1"] assms(3,5) by linarith
  ultimately show ?thesis by (intro int_div_pos_eq [of _ _ _ "year_guess n - 365 * y"]) simp_all
qed

lemma step_search: "s 0 = (0 :: int) \<Longrightarrow> 0 \<le> n \<Longrightarrow> n < s (int k) \<Longrightarrow> \<exists>y \<ge> 0. y < int k \<and> s y \<le> n \<and> n < s (y + 1)"
proof (induction k)
  case (Suc k)
  show ?case
  proof (cases "n < s (int k)")
    case True
    with Suc obtain y where "0 \<le> y" "y < int k" "s y \<le> n" "n < s (y + 1)" by auto
    then show ?thesis by (intro exI [of _ y]) auto
  next
    case False
    with Suc.prems show ?thesis by (intro exI [of _ "int k"]) (auto simp: add.commute)
  qed
qed simp

lemma year_exists:
  assumes "0 \<le> n" "n < 146097"
  obtains y where "0 \<le> y" "y < 400" "year_start y \<le> n" "n < year_start (y + 1)"
proof -
  have "year_start 0 = 0" "year_start (int 400) = 146097" by (simp_all add: year_start_def)
  with step_search [of year_start n 400] assms that show thesis by (simp only: of_nat_numeral) blast
qed

section \<open>Months of a year\<close>

definition march_month :: "int \<Rightarrow> int" where
  "march_month doy = (5 * doy + 2) div 153"

definition march_day :: "int \<Rightarrow> int" where
  "march_day doy = doy - (153 * march_month doy + 2) div 5 + 1"

definition march_length :: "int \<Rightarrow> int" where
  "march_length mp = (if mp \<in> {1, 3, 6, 8} then 30 else 31)"

text \<open>Stepping through the days of a year from 1 March on: a day is followed by the next day of its
  month or the first of the next month. The last month, February, has no end here.\<close>

lemma month_table:
  "list_all (\<lambda>n. 0 \<le> march_month n \<and> march_month n < 12 \<and> 1 \<le> march_day n \<and> march_day n \<le> 31
     \<and> (march_month n = 11 \<longleftrightarrow> 337 \<le> n)
     \<and> (march_month n = 11 \<longrightarrow> march_day n = n - 336)
     \<and> (march_month n \<noteq> 11 \<longrightarrow> march_day n \<le> march_length (march_month n))) [0..365]"
  by code_simp

lemma month_step_table:
  "list_all (\<lambda>n. march_month (n + 1) = (if march_month n = 11 \<or> march_day n < march_length (march_month n)
       then march_month n else march_month n + 1)
     \<and> march_day (n + 1) = (if march_month n = 11 \<or> march_day n < march_length (march_month n)
       then march_day n + 1 else 1)) [0..364]"
  by code_simp

lemma month_range:
  assumes "0 \<le> n" "n \<le> 365"
  shows "0 \<le> march_month n" "march_month n < 12" "1 \<le> march_day n" "march_day n \<le> 31"
    "march_month n = 11 \<longleftrightarrow> 337 \<le> n" "march_month n = 11 \<Longrightarrow> march_day n = n - 336"
    "march_month n \<noteq> 11 \<Longrightarrow> march_day n \<le> march_length (march_month n)"
  using month_table assms unfolding list_all_iff by auto

lemma month_step:
  assumes "0 \<le> n" "n < 365"
  shows "march_month (n + 1) = (if march_month n = 11 \<or> march_day n < march_length (march_month n)
       then march_month n else march_month n + 1)"
    and "march_day (n + 1) = (if march_month n = 11 \<or> march_day n < march_length (march_month n)
       then march_day n + 1 else 1)"
  using month_step_table assms unfolding list_all_iff by auto

section \<open>The code steps like the calendar\<close>

text \<open>The date of a day given by its era, its year in the era and its day in that year.\<close>

definition era_date :: "int \<Rightarrow> int \<Rightarrow> int \<Rightarrow> date" where
  "era_date era yoe doy =
     (let mp = march_month doy; m = nat (if mp < 10 then mp + 3 else mp - 9) in
      (yoe + era * 400 + (if m \<le> 2 then 1 else 0), m, nat (march_day doy)))"

definition year_days :: "int \<Rightarrow> int" where
  "year_days yoe = (if leap_year (yoe + 1) then 366 else 365)"

lemma civil_from_era:
  assumes "0 \<le> y" "y < 400" "0 \<le> doy" "doy < year_days y"
    and days: "days + 719468 = era * 146097 + year_start y + doy"
  shows "civil_from_days days = era_date era y doy"
proof -
  let ?n = "year_start y + doy"
  have next_y: "year_start (y + 1) = year_start y + year_days y"
    using year_bounds(3) [OF assms(1,2)] by (simp add: year_days_def)
  have s0: "0 \<le> year_start y" using assms(1) by (simp add: year_start_def)
  from year_bounds(4) [OF assms(1,2)] next_y s0 assms have n: "0 \<le> ?n" "?n < 146097" "?n < year_start (y + 1)" by auto
  have era: "(days + 719468) div 146097 = era" "(days + 719468) mod 146097 = ?n"
    unfolding days using n by (simp_all add: add.assoc)
  have yoe: "(?n - ?n div 1460 + ?n div 36524 - ?n div 146096) div 365 = y"
    using year_guess_year [OF assms(1,2) n(1) _ n(3)] assms(3) by (simp add: year_guess_def)
  have doy: "?n - (365 * y + y div 4 - y div 100) = doy"
    using assms(1,2) by (simp add: year_start_def)
  have "doy \<le> 365" using assms(4) by (simp add: year_days_def split: if_splits)
  note mr = month_range [OF assms(3) this]
  have d: "try_u32 1 (march_day doy) = nat (march_day doy)"
    using mr(3,4) by (simp add: try_u32_def)
  have m: "try_u32 1 (if march_month doy < 10 then march_month doy + 3 else march_month doy - 9)
      = nat (if march_month doy < 10 then march_month doy + 3 else march_month doy - 9)"
    using mr(1,2) by (simp add: try_u32_def)
  show ?thesis
    unfolding civil_from_days_def era_date_def Let_def era yoe doy
    using d m by (simp only: march_day_def march_month_def)
qed

lemma era_exists:
  obtains era y doy where "0 \<le> y" "y < 400" "0 \<le> doy" "doy < year_days y"
    "days + 719468 = era * 146097 + year_start y + doy"
proof -
  let ?n = "(days + 719468) mod 146097"
  obtain y where y: "0 \<le> y" "y < 400" "year_start y \<le> ?n" "?n < year_start (y + 1)"
    using year_exists [of ?n] by auto
  show thesis
  proof (rule that [of y "?n - year_start y" "(days + 719468) div 146097"])
    show "?n - year_start y < year_days y"
      using y year_bounds(3) [OF y(1,2)] by (simp add: year_days_def)
  qed (use y in auto)
qed

lemma leap_year_era: "leap_year (y + era * 400) = leap_year y"
proof -
  have "k dvd y + era * 400 \<longleftrightarrow> k dvd y" if "k dvd 400" for k
    using that by (simp add: dvd_add_left_iff)
  then show ?thesis by (simp add: leap_year_def)
qed

lemma days_in_march_month:
  assumes "0 \<le> mp" "mp < 11"
  shows "days_in_month y (nat (if mp < 10 then mp + 3 else mp - 9)) = nat (march_length mp)"
proof -
  have "mp \<in> set [0..10]" using assms by simp
  then have "mp \<in> {0, 1, 2, 3, 4, 5, 6, 7, 8, 9, 10}" by (simp add: upto.simps)
  then show ?thesis by (auto simp: days_in_month_def march_length_def)
qed

lemma era_date_within:
  assumes "0 \<le> y" "0 \<le> doy" "doy + 1 < year_days y"
  shows "next_date (era_date era y doy) = era_date era y (doy + 1)"
proof -
  have r: "doy < 365" using assms(3) by (auto simp: year_days_def split: if_splits)
  note mr = month_range [of doy] and ms = month_step [OF assms(2) r]
  show ?thesis
  proof (cases "march_month doy = 11")
    case True
    with mr assms r have d: "march_day doy = doy - 336" by simp
    have "leap_year (y + era * 400 + 1) = leap_year (y + 1)"
      using leap_year_era [of "y + 1" era] by (simp only: add.assoc add.commute add.left_commute)
    moreover have "0 \<le> doy - 336" using mr(5) True assms r by auto
    ultimately have "nat (march_day doy) < days_in_month (y + era * 400 + 1) 2"
      using assms(3) d by (auto simp: days_in_month_def year_days_def split: if_splits)
    moreover have "nat (march_day doy + 1) = nat (march_day doy) + 1" using d \<open>0 \<le> doy - 336\<close> by simp
    ultimately show ?thesis using True ms by (simp add: era_date_def Let_def)
  next
    case False
    then have m: "0 \<le> march_month doy" "march_month doy < 11" and l: "march_day doy \<le> march_length (march_month doy)"
      using mr assms r by auto
    note dm = days_in_march_month [OF m]
    have d: "0 < march_day doy" using mr(3) assms r by simp
    show ?thesis
    proof (cases "march_day doy < march_length (march_month doy)")
      case True
      then have "nat (march_day doy) < nat (march_length (march_month doy))" using d by simp
      moreover have "nat (march_day doy + 1) = nat (march_day doy) + 1" using d by simp
      ultimately show ?thesis using ms True by (simp add: era_date_def Let_def dm)
    next
      case last: False
      have nl: "\<not> nat (march_day doy) < nat (march_length (march_month doy))" using last by simp
      from m have "march_month doy < 9 \<or> march_month doy = 9 \<or> march_month doy = 10" by auto
      then show ?thesis using ms False last m nl dm
        by (elim disjE) (simp_all add: era_date_def Let_def nat_add_distrib del: nat_less_eq_zless)
    qed
  qed
qed

lemma era_date_last:
  assumes "0 \<le> y" "doy + 1 = year_days y"
  shows "next_date (era_date era y doy) = (y + 1 + era * 400, 3, 1)"
proof -
  have doy: "doy = (if leap_year (y + 1) then 365 else 364)" using assms(2) by (auto simp: year_days_def)
  have "march_month doy = 11" "march_day doy = doy - 336"
    using month_range(5,6) [of doy] doy by auto
  moreover have "leap_year (y + era * 400 + 1) = leap_year (y + 1)"
    using leap_year_era [of "y + 1" era] by (simp only: add.assoc add.commute add.left_commute)
  ultimately show ?thesis using doy by (auto simp: era_date_def Let_def days_in_month_def)
qed

lemma era_date_first: "era_date era y 0 = (y + era * 400, 3, 1)"
  by (simp add: era_date_def march_month_def march_day_def)

lemma civil_from_days_Suc: "civil_from_days (days + 1) = next_date (civil_from_days days)"
proof -
  obtain era y doy where y: "0 \<le> y" "y < 400" "0 \<le> doy" "doy < year_days y"
      and days: "days + 719468 = era * 146097 + year_start y + doy"
    by (rule era_exists [of days])
  note now = civil_from_era [OF y days]
  show ?thesis
  proof (cases "doy + 1 < year_days y")
    case True
    have "civil_from_days (days + 1) = era_date era y (doy + 1)"
      by (rule civil_from_era) (use y days True in auto)
    then show ?thesis using era_date_within [OF y(1,3) True] now by simp
  next
    case False
    with y have last: "doy + 1 = year_days y" by simp
    have s: "year_start (y + 1) = year_start y + year_days y"
      using year_bounds(3) [OF y(1,2)] by (simp add: year_days_def)
    have "civil_from_days (days + 1) = (y + 1 + era * 400, 3, 1)"
    proof (cases "y = 399")
      case True
      have "civil_from_days (days + 1) = era_date (era + 1) 0 0"
        by (rule civil_from_era) (use days last s True in \<open>auto simp: year_days_def year_start_def\<close>)
      with True show ?thesis by (simp add: era_date_first)
    next
      case False
      have "civil_from_days (days + 1) = era_date era (y + 1) 0"
        by (rule civil_from_era) (use y days last s False in \<open>auto simp: year_days_def\<close>)
      then show ?thesis by (simp add: era_date_first)
    qed
    then show ?thesis using era_date_last [OF y(1) last] now by simp
  qed
qed

lemma civil_from_days_date: "civil_from_days (int n) = date_of_day n"
proof (induction n)
  case 0
  have "civil_from_days 0 = (1970, 1, 1)" by code_simp
  then show ?case by (simp add: date_of_day_def)
next
  case (Suc n)
  then show ?case using civil_from_days_Suc [of "int n"] by (simp add: date_of_day_def add.commute)
qed

text \<open>C19. \<open>civil_from_epoch\<close> is the Gregorian calendar: for every number of seconds the code can be given, the
  date it computes in closed form is the one reached from 1 January 1970 by stepping day by day through
  months of the right length, leap years included, and the time of day splits the remaining seconds; no
  conversion falls back on its default.\<close>

theorem civil_from_epoch_calendar:
  assumes "epoch_secs < 2 ^ 64"
  shows "civil_from_epoch epoch_secs =
    (case date_of_day (epoch_secs div 86400) of (y, m, d) \<Rightarrow>
       (y, m, d, epoch_secs mod 86400 div 3600, epoch_secs mod 3600 div 60, epoch_secs mod 60))"
proof -
  have "epoch_secs div 86400 < 2 ^ 63" using assms by simp
  then have days: "try_i64 0 (epoch_secs div 86400) = int (epoch_secs div 86400)" by (simp add: try_i64_def)
  have u: "try_u32 0 (int k) = k" if "k < 86400" for k using that by (simp add: try_u32_def)
  have "epoch_secs mod 86400 mod 3600 = epoch_secs mod 3600" "epoch_secs mod 86400 mod 60 = epoch_secs mod 60"
    by (simp_all add: mod_mod_cancel)
  then show ?thesis
    unfolding civil_from_epoch_def Let_def days civil_from_days_date
    by (subst u | simp add: u less_mult_imp_div_less split: prod.split)+
qed

theorem civil_from_epoch_calendar_witness:
  "civil_from_epoch 951868800 = (2000, 3, 1, 0, 0, 0) \<and> date_of_day 11017 = (2000, 3, 1)"
proof -
  have "civil_from_days 11017 = (2000, 3, 1)" by code_simp
  then have "civil_from_epoch 951868800 = (2000, 3, 1, 0, 0, 0)"
    by (simp add: civil_from_epoch_def try_i64_def try_u32_def)
  with civil_from_epoch_calendar [of 951868800] show ?thesis by (simp split: prod.splits)
qed

end
