(* ===== verification/Etcd_Keys.thy ===== *)
theory Etcd_Keys
  imports Etcd_Text
begin

text \<open>
  The key material of \<open>hbird etcd rotate-key\<close>: the base64 text decodes to the bytes it was made from, and the
  two line-wise edits of the \<open>EncryptionConfiguration\<close> do to the list of keys what the rotation needs,
  touching nothing else in the document.
\<close>

section \<open>Base64\<close>

text \<open>The decoder of RFC 4648, section 4: groups of four characters, padding only in the last one.\<close>

definition b64_value :: "char \<Rightarrow> nat option" where
  "b64_value c = position (\<lambda>x. x = c) ALPHABET"

fun base64_decode :: "string \<Rightarrow> byte list option" where
  "base64_decode [] = Some []"
| "base64_decode (a # b # c # d # rest) =
     (case (b64_value a, b64_value b) of
        (Some x, Some y) \<Rightarrow>
          if c = CHR ''='' \<and> d = CHR ''='' \<and> rest = [] then Some [of_nat (x * 4 + y div 16)]
          else (case b64_value c of
                  None \<Rightarrow> None
                | Some z \<Rightarrow>
                    if d = CHR ''='' \<and> rest = []
                    then Some [of_nat (x * 4 + y div 16), of_nat (y mod 16 * 16 + z div 4)]
                    else (case b64_value d of
                            None \<Rightarrow> None
                          | Some u \<Rightarrow> map_option (\<lambda>r. of_nat (x * 4 + y div 16) # of_nat (y mod 16 * 16 + z div 4)
                              # of_nat (z mod 4 * 64 + u) # r) (base64_decode rest)))
      | _ \<Rightarrow> None)"
| "base64_decode _ = None"

lemma alphabet_table:
  "list_all (\<lambda>k. b64_value (ALPHABET ! k) = Some k \<and> ALPHABET ! k \<noteq> CHR ''='') [0..<64]"
  by code_simp

lemma b64_value_char:
  assumes "k < 64"
  shows "b64_value (ALPHABET ! k) = Some k" "ALPHABET ! k \<noteq> CHR ''=''"
  using alphabet_table assms unfolding list_all_iff by auto

lemma sextets:
  fixes p q r s :: nat
  assumes "p < 64" "q < 64" "r < 64" "s < 64" "n = ((p * 64 + q) * 64 + r) * 64 + s"
  shows "n div 262144 mod 64 = p" "n div 4096 mod 64 = q" "n div 64 mod 64 = r" "n mod 64 = s"
proof -
  have e: "n div 64 = (p * 64 + q) * 64 + r" using assms by simp
  have e2: "n div 4096 = p * 64 + q" using div_mult2_eq [of n 64 64] e assms by simp
  have e3: "n div 262144 = p" using div_mult2_eq [of n 4096 64] e2 assms by simp
  show "n div 262144 mod 64 = p" "n div 4096 mod 64 = q" using e2 e3 assms(1,2) by simp_all
  show "n div 64 mod 64 = r" unfolding e mod_mult_self3 using assms(3) by simp
  show "n mod 64 = s" unfolding assms(5) mod_mult_self3 using assms(4) by simp
qed

lemma b64_char_nat: "b64_char n = ALPHABET ! (unat n mod 64)"
proof -
  have "n AND 0x3f = take_bit 6 n" by (simp add: take_bit_eq_mask mask_eq_exp_minus_1)
  then have "unat (n AND 0x3f) = unat n mod 64"
    by (simp only: unsigned_take_bit_eq) (simp add: take_bit_eq_mod)
  then show ?thesis by (simp add: b64_char_def)
qed

lemma b64_char_drop: "b64_char (drop_bit k n) = ALPHABET ! (unat n div 2 ^ k mod 64)"
  unfolding b64_char_nat unat_drop_bit_eq by (simp add: drop_bit_eq_div)

text \<open>The four characters of a chunk.\<close>

lemma chunk_word:
  fixes c0 c1 c2 :: byte
  shows "unat (push_bit 16 (ucast c0 :: u32) OR push_bit 8 (ucast c1) OR ucast c2)
    = (unat c0 * 256 + unat c1) * 256 + unat c2"
proof -
  have b: "unat c < 256" for c :: byte using unsigned_less [of c, where 'a = nat] by simp
  have "push_bit 8 (ucast c1 :: u32) AND ucast c2 = 0"
    by (rule bit_word_eqI) (auto simp: bit_simps dest: bit_imp_le_length)
  moreover have "push_bit 16 (ucast c0 :: u32) AND (push_bit 8 (ucast c1) OR ucast c2) = 0"
    by (rule bit_word_eqI) (auto simp: bit_simps dest: bit_imp_le_length)
  ultimately have "push_bit 16 (ucast c0 :: u32) OR push_bit 8 (ucast c1) OR ucast c2
      = push_bit 16 (ucast c0) + (push_bit 8 (ucast c1) + ucast c2)"
    by (simp add: disjunctive_add_eq_or)
  then have "push_bit 16 (ucast c0 :: u32) OR push_bit 8 (ucast c1) OR ucast c2
      = of_nat ((unat c0 * 256 + unat c1) * 256 + unat c2)"
    by (simp add: push_bit_eq_mult algebra_simps)
  moreover have "(unat c0 * 256 + unat c1) * 256 + unat c2 < 2 ^ LENGTH(32)"
    using b [of c0] b [of c1] b [of c2] by simp
  ultimately show ?thesis by (simp only: unsigned_of_nat take_bit_nat_eq_self of_nat_id)
qed

lemma b64_chunk_chars:
  assumes "unat c0 = p * 4 + q" "unat c1 = r * 16 + s" "unat c2 = t * 64 + u"
    and "q < 4" "s < 16" "u < 64"
  shows "b64_chunk c0 c1 c2 k =
    [ALPHABET ! p, ALPHABET ! (q * 16 + r), if k > 1 then ALPHABET ! (s * 4 + t) else CHR ''='',
     if k > 2 then ALPHABET ! u else CHR ''='']"
    and "p < 64" "q * 16 + r < 64" "s * 4 + t < 64"
proof -
  have b: "unat c < 256" for c :: byte using unsigned_less [of c, where 'a = nat] by simp
  from b [of c0] b [of c1] b [of c2] assms have l: "p < 64" "r < 16" "t < 4" by auto
  then show lt: "p < 64" "q * 16 + r < 64" "s * 4 + t < 64" using assms by auto
  let ?n = "push_bit 16 (ucast c0 :: u32) OR push_bit 8 (ucast c1) OR ucast c2"
  have "unat ?n = ((p * 64 + (q * 16 + r)) * 64 + (s * 4 + t)) * 64 + u"
    unfolding chunk_word assms(1-3) by simp
  note sextets [OF lt assms(6) this]
  then show "b64_chunk c0 c1 c2 k =
    [ALPHABET ! p, ALPHABET ! (q * 16 + r), if k > 1 then ALPHABET ! (s * 4 + t) else CHR ''='',
     if k > 2 then ALPHABET ! u else CHR ''='']"
    unfolding b64_chunk_def Let_def b64_char_drop unfolding b64_char_nat by simp
qed

lemma byte_split:
  fixes c :: byte
  assumes "0 < k"
  obtains x y where "unat c = x * k + y" "y < k"
  using that [of "unat c div k" "unat c mod k"] assms by simp

lemma decode_chunk:
  fixes c0 c1 c2 :: byte
  shows "base64_decode (b64_chunk c0 0 0 1) = Some [c0]"
    and "base64_decode (b64_chunk c0 c1 0 2) = Some [c0, c1]"
    and "base64_decode (b64_chunk c0 c1 c2 3 @ rest) = map_option (\<lambda>r. c0 # c1 # c2 # r) (base64_decode rest)"
proof -
  obtain p q where 0: "unat c0 = p * 4 + q" "q < 4" by (rule byte_split [of 4 c0]) simp
  obtain r s where 1: "unat c1 = r * 16 + s" "s < 16" by (rule byte_split [of 16 c1]) simp
  obtain t u where 2: "unat c2 = t * 64 + u" "u < 64" by (rule byte_split [of 64 c2]) simp
  have w: "of_nat (p * 4 + q) = c0" "of_nat (r * 16 + s) = c1" "of_nat (t * 64 + u) = c2"
    unfolding 0(1) [symmetric] 1(1) [symmetric] 2(1) [symmetric] by simp_all
  have lt: "r < 16" "t < 4" using 1 2 unsigned_less [of c1, where 'a = nat] unsigned_less [of c2, where 'a = nat] by auto
  have d: "(q * 16 + r) div 16 = q" "(q * 16 + r) mod 16 = r" "(s * 4 + t) div 4 = s" "(s * 4 + t) mod 4 = t"
    using lt by simp_all
  have z: "unat (0 :: byte) = 0 * 16 + 0" "unat (0 :: byte) = 0 * 64 + 0" by simp_all
  note c1 = b64_chunk_chars [OF 0(1) z 0(2)] and c2 = b64_chunk_chars [OF 0(1) 1(1) z(2) 0(2) 1(2)]
    and c3 = b64_chunk_chars [OF 0(1) 1(1) 2(1) 0(2) 1(2) 2(2)]
  show "base64_decode (b64_chunk c0 0 0 1) = Some [c0]"
    using c1(2,3) 0(2) w by (simp add: c1(1) b64_value_char d)
  show "base64_decode (b64_chunk c0 c1 0 2) = Some [c0, c1]"
    using c2(2-4) w d by (simp add: c2(1) b64_value_char)
  show "base64_decode (b64_chunk c0 c1 c2 3 @ rest) = map_option (\<lambda>r. c0 # c1 # c2 # r) (base64_decode rest)"
    using c3(2-4) 2(2) w d by (simp add: c3(1) b64_value_char)
qed

lemma b64_char_alphabet: "b64_char n \<in> set ALPHABET"
  unfolding b64_char_nat by (rule nth_mem) (simp add: ALPHABET_def)

lemma b64_chunk_set: "set (b64_chunk c0 c1 c2 k) \<subseteq> insert (CHR ''='') (set ALPHABET)"
  using b64_char_alphabet by (auto simp: b64_chunk_def Let_def)

text \<open>Base64 round trip: decoding the text that \<open>base64_encode\<close> gives for any bytes yields those bytes;
  the text uses only the alphabet and \<open>=\<close>, so it is one line and one YAML plain scalar.\<close>

theorem base64_roundtrip:
  "base64_decode (base64_encode bytes) = Some bytes
   \<and> set (base64_encode bytes) \<subseteq> insert (CHR ''='') (set ALPHABET)"
proof (induction bytes rule: base64_encode.induct)
  case (2 b0)
  then show ?case by (simp only: base64_encode.simps decode_chunk b64_chunk_set simp_thms)
next
  case (3 b0 b1)
  then show ?case by (simp only: base64_encode.simps decode_chunk b64_chunk_set simp_thms)
next
  case (4 b0 b1 b2 rest)
  then show ?case
    by (simp only: base64_encode.simps decode_chunk b64_chunk_set set_append Un_subset_iff simp_thms option.map)
qed simp

section \<open>The block of keys\<close>

text \<open>A line inside a block below a key of the given indentation: blank, or indented further.\<close>

definition inside :: "nat \<Rightarrow> string \<Rightarrow> bool" where
  "inside k line \<longleftrightarrow> trim line = [] \<or> k < indent_of line"

lemma scan_entries_takeWhile:
  "scan_entries k i ls e es = scan_entries k i (takeWhile (inside k) ls) e es"
proof (induction k i ls e es rule: scan_entries.induct)
  case (2 k i line rest e es)
  then show ?case by (auto simp: inside_def Let_def not_less split: option.splits)
qed simp

lemma scan_entries_append:
  "list_all (inside k) seg \<Longrightarrow> scan_entries k i (seg @ rest) e es =
     (case scan_entries k i seg e es of (e', es', j) \<Rightarrow> scan_entries k j rest e' es')"
  by (induction seg arbitrary: i e es) (auto simp: inside_def Let_def split: option.split)

lemma scan_entries_end: "list_all (inside k) seg \<Longrightarrow> snd (snd (scan_entries k i seg e es)) = i + length seg"
  by (induction seg arbitrary: i e es) (auto simp: inside_def Let_def split: option.split)

lemma scan_entries_more:
  assumes "scan_entries k i seg (Some e) es = r"
  shows "\<exists>more j. r = (Some e, es @ more, j)"
  using assms
proof (induction seg arbitrary: i es)
  case (Cons line seg)
  then show ?case by (auto simp: Let_def split: if_splits) fastforce+
qed auto

lemma scan_entries_first:
  assumes "list_all (inside k) seg" "scan_entries k i seg None [] = (Some e, es, j)"
  shows "\<exists>a l b. seg = a @ l # b \<and> scan_entries k i a None [] = (None, [], i + length a)
    \<and> trim l \<noteq> [] \<and> is_entry l \<and> indent_of l = e \<and> (\<exists>more. es = (i + length a) # more)"
  using assms
proof (induction seg arbitrary: i)
  case (Cons line seg)
  show ?case
  proof (cases "trim line \<noteq> [] \<and> is_entry line")
    case True
    with Cons.prems have s: "scan_entries k (Suc i) seg (Some (indent_of line)) [i] = (Some e, es, j)"
      by (auto simp: inside_def Let_def split: if_splits)
    from scan_entries_more [OF s] have "indent_of line = e" "\<exists>more. es = i # more" by auto
    with True show ?thesis by (intro exI [of _ "[]"] exI [of _ line] exI [of _ seg]) simp
  next
    case False
    with Cons.prems have "scan_entries k (Suc i) seg None [] = (Some e, es, j)"
      by (auto simp: inside_def Let_def split: if_splits)
    with Cons obtain a l b more where
      "seg = a @ l # b" "scan_entries k (Suc i) a None [] = (None, [], Suc i + length a)"
      "trim l \<noteq> []" "is_entry l" "indent_of l = e" "es = (Suc i + length a) # more"
      by (metis list.pred_inject(2))
    with False Cons.prems(1) show ?thesis
      by (intro exI [of _ "line # a"] exI [of _ l] exI [of _ b]) (auto simp: inside_def Let_def)
  qed
qed simp

text \<open>The two lines of a key are an entry of the list.\<close>

definition key_lines :: "nat \<Rightarrow> string \<Rightarrow> string \<Rightarrow> string list" where
  "key_lines e name secret =
     [replicate e (CHR '' '') @ ''- name: '' @ name, replicate e (CHR '' '') @ ''  secret: '' @ secret]"

lemma trim_start_pad:
  "c \<noteq> CHR '' '' \<Longrightarrow> \<not> is_whitespace c \<Longrightarrow> trim_start (replicate n (CHR '' '') @ c # s) = c # s"
  by (induction n) (simp_all add: trim_start_def is_whitespace_def)

lemma trim_nonblank: "trim_start s = c # cs \<Longrightarrow> trim s \<noteq> []"
  using trim_start_hd [of s c cs] by (auto simp: trim_def trim_end_def dropWhile_eq_Nil_conv)

lemma key_line_shape:
  defines "pad \<equiv> \<lambda>e. replicate e (CHR '' '')"
  shows "trim (pad e @ ''- name: '' @ name) \<noteq> []" "indent_of (pad e @ ''- name: '' @ name) = e"
    "is_entry (pad e @ ''- name: '' @ name)"
    "trim (pad e @ ''  secret: '' @ secret) \<noteq> []" "indent_of (pad e @ ''  secret: '' @ secret) = e + 2"
    "\<not> is_entry (pad e @ ''  secret: '' @ secret)"
proof -
  have 1: "trim_start (pad e @ ''- name: '' @ name) = ''- name: '' @ name"
    unfolding pad_def by (simp add: trim_start_pad is_whitespace_def)
  have "pad e @ ''  secret: '' @ secret = pad (e + 2) @ ''secret: '' @ secret"
    by (simp add: pad_def replicate_app_Cons_same)
  moreover have "trim_start (pad (e + 2) @ ''secret: '' @ secret) = ''secret: '' @ secret"
    unfolding pad_def by (simp add: trim_start_pad is_whitespace_def del: replicate.simps)
  ultimately have 2: "trim_start (pad e @ ''  secret: '' @ secret) = ''secret: '' @ secret" by (simp only:)
  show "trim (pad e @ ''- name: '' @ name) \<noteq> []" "trim (pad e @ ''  secret: '' @ secret) \<noteq> []"
    using trim_nonblank [OF 1 [unfolded append.simps]] trim_nonblank [OF 2 [unfolded append.simps]] by simp_all
  show "indent_of (pad e @ ''- name: '' @ name) = e" "indent_of (pad e @ ''  secret: '' @ secret) = e + 2"
    unfolding indent_of_def 1 2 by (simp_all add: pad_def)
  show "is_entry (pad e @ ''- name: '' @ name)" "\<not> is_entry (pad e @ ''  secret: '' @ secret)"
    unfolding is_entry_def 1 2 by (simp_all add: starts_with_def)
qed

lemma key_lines_shape:
  "\<exists>nl sl. key_lines e name secret = [nl, sl] \<and> trim nl \<noteq> [] \<and> indent_of nl = e \<and> is_entry nl
     \<and> trim sl \<noteq> [] \<and> indent_of sl = e + 2 \<and> \<not> is_entry sl"
  by (intro exI conjI) (rule key_lines_def key_line_shape)+

text \<open>What finding the block depends on: the lines up to the first entry decide where it starts.\<close>

lemma position_take:
  "position P xs = Some a \<Longrightarrow> a < length xs \<and> (a < n \<longrightarrow> position P (take n xs @ ys) = Some a)"
proof (induction xs arbitrary: a n)
  case (Cons x xs)
  then show ?case by (cases n) (auto split: if_splits)
qed simp

lemma scan_keys_take:
  "scan_keys c i xs = Some q \<Longrightarrow> i \<le> q \<and> q < i + length xs \<and> trim (xs ! (q - i)) = ''keys:''
     \<and> scan_keys c i (take (Suc q - i) xs @ ys) = Some q"
proof (induction c i xs rule: scan_keys.induct)
  case (2 c i line rest)
  show ?case
  proof (cases "trim line \<noteq> [] \<and> trim line = ''keys:''")
    case True
    with 2 show ?thesis by (auto split: if_splits)
  next
    case False
    with "2.prems" have r: "scan_keys c (Suc i) rest = Some q" by (auto split: if_splits)
    with 2 False have "Suc i \<le> q \<and> q < Suc i + length rest \<and> trim (rest ! (q - Suc i)) = ''keys:''
        \<and> scan_keys c (Suc i) (take (Suc q - Suc i) rest @ ys) = Some q"
      by (auto split: if_splits)
    moreover from this have "(line # rest) ! (q - i) = rest ! (q - Suc i)" by (simp add: Suc_diff_Suc nth_Cons')
    moreover have "take (Suc q - i) (line # rest) = line # take (Suc q - Suc i) rest"
      using calculation(1) by (simp add: Suc_diff_le)
    ultimately show ?thesis using False "2.prems" by (auto split: if_splits)
  qed
qed simp

definition block_of :: "nat \<Rightarrow> nat option \<times> nat list \<times> nat \<Rightarrow> (anyhow, keys_block) result" where
  "block_of q r = (case r of (entry_indent, entries, fin) \<Rightarrow>
     bind_r (ok_or [NO_ENTRIES] entry_indent) (\<lambda>entry_indent.
     Ok \<lparr>kb_keys_line = q, kb_entry_indent = entry_indent, kb_entries = entries, kb_end = fin\<rparr>))"

lemma ok_or_Some: "ok_or e (Some a) = Ok a"
  by (simp add: ok_or_def)

lemma find_block_head:
  assumes "find_aesgcm_keys_block ls = Ok b"
  obtains q where "q < length ls" "kb_keys_line b = q" "trim (ls ! q) = ''keys:''"
    "block_of q (scan_entries (indent_of (ls ! q)) (Suc q) (drop (Suc q) ls) None []) = Ok b"
    "\<And>ys. find_aesgcm_keys_block (take (Suc q) ls @ ys)
       = block_of q (scan_entries (indent_of (ls ! q)) (Suc q) ys None [])"
proof -
  from assms obtain a q where a: "position is_aesgcm_line ls = Some a"
      and q: "scan_keys (indent_of (ls ! a)) (Suc a) (drop (Suc a) ls) = Some q"
      and blk: "block_of q (scan_entries (indent_of (ls ! q)) (Suc q) (drop (Suc q) ls) None []) = Ok b"
    unfolding find_aesgcm_keys_block_def block_of_def bind_r_Ok_iff ok_or_Ok add_Suc_right add_0_right One_nat_def
    by blast
  note sk = scan_keys_take [OF q]
  have al: "a < length ls" using position_take [OF a] by blast
  with sk [of "[]"] have ql: "q < length ls" "a < Suc q" by auto
  show thesis
  proof (rule that [OF ql(1) _ _ blk])
    have "Suc a + (q - Suc a) = q" using sk [of "[]"] by simp
    moreover have "drop (Suc a) ls ! (q - Suc a) = ls ! (Suc a + (q - Suc a))"
      by (rule nth_drop) (use al in simp)
    ultimately show "trim (ls ! q) = ''keys:''" using sk [of "[]"] by simp
    from blk show "kb_keys_line b = q" by (auto simp: block_of_def split: prod.splits)
    fix ys
    have p: "position is_aesgcm_line (take (Suc q) ls @ ys) = Some a"
      using position_take [OF a] ql(2) by blast
    have n: "(take (Suc q) ls @ ys) ! a = ls ! a" "(take (Suc q) ls @ ys) ! q = ls ! q"
      using ql al by (simp_all add: nth_append)
    have d: "drop (Suc a) (take (Suc q) ls @ ys) = take (Suc q - Suc a) (drop (Suc a) ls) @ ys"
      "drop (Suc q) (take (Suc q) ls @ ys) = ys"
      using ql al by (simp_all add: drop_take)
    show "find_aesgcm_keys_block (take (Suc q) ls @ ys)
       = block_of q (scan_entries (indent_of (ls ! q)) (Suc q) ys None [])"
      unfolding find_aesgcm_keys_block_def block_of_def
      by (simp only: p ok_or_Some bind_r.simps n add_Suc_right add_0_right One_nat_def d sk)
  qed
qed

lemma takeWhile_exact: "list_all P xs \<Longrightarrow> ys = [] \<or> \<not> P (hd ys) \<Longrightarrow> takeWhile P (xs @ ys) = xs"
  by (induction xs) (auto simp: takeWhile_eq_Nil_iff)

text \<open>A document in which the block is found, cut at the first entry and at the end of the block, and the
  block that is found when a key is put in front of that entry.\<close>

lemma find_block_split:
  assumes "find_aesgcm_keys_block ls = Ok b"
  obtains q k pre l old post more more' where "ls = pre @ l # old @ post"
    "q < length pre" "trim (pre ! q) = ''keys:''" "k = indent_of (pre ! q)"
    "kb_entries b = length pre # more" "kb_end b = length pre + Suc (length old)"
    "is_entry l" "list_all (inside k) (l # old)" "post = [] \<or> \<not> inside k (hd post)"
    "kb_entry_indent b = indent_of l"
    "find_aesgcm_keys_block (pre @ key_lines (indent_of l) name secret @ l # old @ post) =
       Ok \<lparr>kb_keys_line = kb_keys_line b, kb_entry_indent = indent_of l,
           kb_entries = length pre # (length pre + 2) # more', kb_end = kb_end b + 2\<rparr>"
proof -
  obtain q where q: "q < length ls" "kb_keys_line b = q" "trim (ls ! q) = ''keys:''"
      and blk: "block_of q (scan_entries (indent_of (ls ! q)) (Suc q) (drop (Suc q) ls) None []) = Ok b"
      and other: "\<And>ys. find_aesgcm_keys_block (take (Suc q) ls @ ys)
        = block_of q (scan_entries (indent_of (ls ! q)) (Suc q) ys None [])"
    using find_block_head [OF assms] by blast
  define k where "k = indent_of (ls ! q)"
  define seg where "seg = takeWhile (inside k) (drop (Suc q) ls)"
  define post where "post = dropWhile (inside k) (drop (Suc q) ls)"
  have split: "drop (Suc q) ls = seg @ post" by (simp add: seg_def post_def)
  have ins: "list_all (inside k) seg" by (auto simp: seg_def list_all_iff dest: set_takeWhileD)
  have out: "post = [] \<or> \<not> inside k (hd post)" unfolding post_def by (metis dropWhile_eq_Nil_conv hd_dropWhile)
  from blk have "block_of q (scan_entries k (Suc q) seg None []) = Ok b"
    by (simp add: k_def seg_def flip: scan_entries_takeWhile)
  then obtain e es where b: "scan_entries k (Suc q) seg None [] = (Some e, es, Suc q + length seg)"
      "kb_entries b = es" "kb_entry_indent b = e" "kb_end b = Suc q + length seg"
    using scan_entries_end [OF ins, of "Suc q" None "[]"]
    by (auto simp: block_of_def split: prod.splits)
  obtain a l old more where a: "seg = a @ l # old" "scan_entries k (Suc q) a None [] = (None, [], Suc q + length a)"
      "trim l \<noteq> []" "is_entry l" "indent_of l = e" "es = (Suc q + length a) # more"
    using scan_entries_first [OF ins b(1)] by blast
  define pre where "pre = take (Suc q) ls @ a"
  have len: "length pre = Suc q + length a" using q by (simp add: pre_def)
  have ke: "k < e" using ins a(1,3,5) by (simp add: inside_def)
  let ?X = "a @ key_lines e name secret @ l # old"
  obtain nl sl where kl: "key_lines e name secret = [nl, sl]" and shape: "trim nl \<noteq> []" "indent_of nl = e"
      "is_entry nl" "trim sl \<noteq> []" "indent_of sl = e + 2" "\<not> is_entry sl"
    using key_lines_shape [of e name secret] by blast
  have insX: "list_all (inside k) ?X"
    using ins ke by (simp add: a(1) kl inside_def shape)
  have "scan_entries k (Suc q) (?X @ post) None [] = scan_entries k (Suc q) ?X None []"
    using takeWhile_exact [OF insX out] by (subst scan_entries_takeWhile) (simp only:)
  also have "\<dots> = scan_entries k (length pre + 3) old (Some e) [length pre, length pre + 2]"
    using ins a ke
    by (simp add: scan_entries_append kl shape Let_def len eval_nat_numeral)
  finally have X: "scan_entries k (Suc q) (?X @ post) None []
      = scan_entries k (length pre + 3) old (Some e) [length pre, length pre + 2]" .
  obtain more' j where X': "scan_entries k (length pre + 3) old (Some e) [length pre, length pre + 2]
      = (Some e, [length pre, length pre + 2] @ more', j)"
    using scan_entries_more [OF refl] by blast
  moreover have "j = length pre + 3 + length old"
    using scan_entries_end [of k old "length pre + 3" "Some e" "[length pre, length pre + 2]"] ins a(1) X' by simp
  ultimately have fin: "find_aesgcm_keys_block (take (Suc q) ls @ ?X @ post) =
      Ok \<lparr>kb_keys_line = q, kb_entry_indent = e, kb_entries = length pre # (length pre + 2) # more',
          kb_end = length pre + 3 + length old\<rparr>"
    using X unfolding other by (simp add: k_def block_of_def)
  show thesis
  proof (rule that [of pre l old post q k more more'])
    show "q < length pre" using len by simp
    show "trim (pre ! q) = ''keys:''" "k = indent_of (pre ! q)"
      using q by (simp_all add: pre_def nth_append k_def)
    show "ls = pre @ l # old @ post"
      using append_take_drop_id [of "Suc q" ls] split by (simp add: pre_def a(1))
    show "kb_end b = length pre + Suc (length old)" using b a(1) len by simp
    show "find_aesgcm_keys_block (pre @ key_lines (indent_of l) name secret @ l # old @ post) =
       Ok \<lparr>kb_keys_line = kb_keys_line b, kb_entry_indent = indent_of l,
           kb_entries = length pre # (length pre + 2) # more', kb_end = kb_end b + 2\<rparr>"
      using fin b a q len by (simp add: pre_def)
  qed (use b a len out ins in auto)
qed

section \<open>The rotation\<close>

lemma lines_join:
  assumes "\<And>l. l \<in> set ls \<Longrightarrow> NL \<notin> set l \<and> CR \<notin> set l" "ls \<noteq> []" "last ls \<noteq> []"
  shows "lines (join [NL] ls) = ls"
  using assms
proof (induction "[NL]" ls rule: join.induct)
  case (2 x)
  then show ?case using lines_acc_step [of x "[]" "[]"] by (simp add: lines_def)
next
  case (3 x y zs)
  then show ?case by (simp add: lines_cons strip_cr_id) (metis last_in_set strip_cr_id)
qed simp

lemma lines_join_nl:
  assumes "\<And>l. l \<in> set ls \<Longrightarrow> NL \<notin> set l \<and> CR \<notin> set l"
  shows "lines (join [NL] ls @ [NL]) = (if ls = [] then [[]] else ls)"
  using assms
proof (induction "[NL]" ls rule: join.induct)
  case (2 x)
  then show ?case using lines_cons [of x "[]"] by (simp add: lines_def) (metis last_in_set strip_cr_id)
next
  case (3 x y zs)
  then show ?case by (simp add: lines_cons) (metis last_in_set strip_cr_id)
qed (simp add: lines_def strip_cr_def)

lemma lines_acc_set: "l \<in> set (lines_acc acc s) \<Longrightarrow> set l \<subseteq> set acc \<union> set s"
proof (induction acc s rule: lines_acc.induct)
  case (2 acc c cs)
  then show ?case using strip_cr_set [of "rev acc"] by (fastforce split: if_splits)
qed (auto split: if_splits)

lemma lines_acc_last: "s = [] \<or> last s \<noteq> NL \<Longrightarrow> lines_acc acc s \<noteq> [] \<Longrightarrow> last (lines_acc acc s) \<noteq> []"
proof (induction acc s rule: lines_acc.induct)
  case (2 acc c cs)
  have "lines_acc a cs \<noteq> []" if "cs \<noteq> [] \<or> a \<noteq> []" for a
    using that by (induction cs arbitrary: a) auto
  with 2 show ?case by (auto split: if_splits)
qed (auto split: if_splits)

lemma ends_with_NL: "ends_with [NL] s \<longleftrightarrow> s \<noteq> [] \<and> last s = NL"
  unfolding ends_with_iff by (metis append_butlast_last_id last_snoc snoc_eq_iff_butlast)

text \<open>Writing edited lines back keeps them, with the final line feed of the original.\<close>

lemma joined_lines:
  assumes "\<And>l. l \<in> set ls \<Longrightarrow> NL \<notin> set l \<and> CR \<notin> set l" "ls \<noteq> []"
    and "\<not> ends_with [NL] original \<Longrightarrow> last ls \<noteq> []"
  shows "lines (joined ls original) = ls" and "ends_with [NL] (joined ls original) = ends_with [NL] original"
proof -
  have "last (join [NL] ls) \<noteq> NL \<and> join [NL] ls \<noteq> []" if "last ls \<noteq> []"
    using assms(1,2) that
  proof (induction "[NL]" ls rule: join.induct)
    case (3 x y zs)
    then show ?case by (simp add: last_append)
  qed (auto dest: last_in_set)
  then show "ends_with [NL] (joined ls original) = ends_with [NL] original"
    using assms(3) by (auto simp: joined_def Let_def ends_with_NL)
  show "lines (joined ls original) = ls"
    using lines_join [OF assms(1,2)] lines_join_nl [OF assms(1)] assms(2,3) by (simp add: joined_def Let_def)
qed

text \<open>The two edits, one after the other.\<close>

lemma rotation_edits:
  assumes "insert_primary_key config name secret = Ok dual"
    and "CR \<notin> set config" "NL \<notin> set name" "CR \<notin> set name" "NL \<notin> set secret" "CR \<notin> set secret"
  shows "\<exists>q pre old post final. lines config = pre @ old @ post
    \<and> q < length pre \<and> trim (pre ! q) = ''keys:''
    \<and> old \<noteq> [] \<and> is_entry (hd old) \<and> list_all (inside (indent_of (pre ! q))) old
    \<and> (post = [] \<or> \<not> inside (indent_of (pre ! q)) (hd post))
    \<and> lines dual = pre @ key_lines (indent_of (hd old)) name secret @ old @ post
    \<and> drop_non_primary_keys dual = Ok final
    \<and> lines final = pre @ key_lines (indent_of (hd old)) name secret @ post"
proof -
  from assms(1) obtain b where b: "find_aesgcm_keys_block (lines config) = Ok b"
    by (auto simp: insert_primary_key_def Let_def)
  obtain q k pre l old post more more' where
    sp: "lines config = pre @ l # old @ post" "q < length pre" "trim (pre ! q) = ''keys:''" "k = indent_of (pre ! q)"
      "kb_entries b = length pre # more" "kb_end b = length pre + Suc (length old)"
      "is_entry l" "list_all (inside k) (l # old)" "post = [] \<or> \<not> inside k (hd post)" "kb_entry_indent b = indent_of l"
      "find_aesgcm_keys_block (pre @ key_lines (indent_of l) name secret @ l # old @ post) =
         Ok \<lparr>kb_keys_line = kb_keys_line b, kb_entry_indent = indent_of l,
             kb_entries = length pre # (length pre + 2) # more', kb_end = kb_end b + 2\<rparr>"
    by (rule find_block_split [OF b])
  let ?kl = "key_lines (indent_of l) name secret"
  have dual: "dual = joined (pre @ ?kl @ l # old @ post) config"
    using assms(1) by (simp add: insert_primary_key_def Let_def sp(1) b [unfolded sp(1)] sp(5,10) ok_or_def key_lines_def)
  have kl: "x \<in> set ?kl \<Longrightarrow> NL \<notin> set x \<and> CR \<notin> set x" for x
    using assms(3-6) by (auto simp: key_lines_def)
  have clean: "x \<in> set (lines config) \<Longrightarrow> NL \<notin> set x \<and> CR \<notin> set x" for x
    using lines_no_nl lines_acc_set [of x "[]" config] assms(2) by (auto simp: lines_def)
  have last: "last (lines config) \<noteq> []" if "\<not> ends_with [NL] config"
    using that lines_acc_last [of config "[]"] sp(1) by (auto simp: ends_with_NL lines_def)
  have ld: "lines dual = pre @ ?kl @ l # old @ post" "ends_with [NL] dual = ends_with [NL] config"
    unfolding dual using clean kl last sp(1) by (intro joined_lines; fastforce)+
  have len: "length ?kl = 2" by (simp add: key_lines_def)
  have cut: "take (length pre + 2) (pre @ ?kl @ l # old @ post) = pre @ ?kl"
    "drop (kb_end b + 2) (pre @ ?kl @ l # old @ post) = post"
    unfolding sp(6) using len by (simp_all only: take_append drop_append) simp_all
  have fin: "drop_non_primary_keys dual = Ok (joined (pre @ ?kl @ post) dual)"
    by (simp only: drop_non_primary_keys_def Let_def ld(1) sp(11) bind_r.simps keys_block.simps list.case cut
        append_assoc)
  have "lines (joined (pre @ ?kl @ post) dual) = pre @ ?kl @ post"
  proof (rule joined_lines)
    show "last (pre @ ?kl @ post) \<noteq> []" if "\<not> ends_with [NL] dual"
      using that last sp(1) by (cases "post = []") (auto simp: ld(2) key_lines_def)
  qed (use clean kl sp(1) in \<open>auto simp: key_lines_def\<close>)
  with sp fin ld(1) show ?thesis
    by (intro exI [of _ q] exI [of _ pre] exI [of _ "l # old"] exI [of _ post]
        exI [of _ "joined (pre @ ?kl @ post) dual"]) simp
qed


text \<open>The document that \<open>k8s-init.sh\<close> writes, and its rotation.\<close>

definition bootstrap_config :: string where
  "bootstrap_config = concat (map (\<lambda>l. l @ [NL])
     [''resources:'', ''  - resources: [secrets]'', ''    providers:'', ''      - aesgcm:'', ''          keys:'',
      ''            - name: bootstrap'', ''              secret: b2xk'', ''      - identity: {}''])"

lemma bootstrap_insert: "is_ok (insert_primary_key bootstrap_config ''key-1'' ''bmV3'')"
  by code_simp


end
