(* ===== verification/Event_Order.thy ===== *)
theory Event_Order
  imports Action
begin

text \<open>
  Protocols over the trace. A protocol says which events are allowed once a set of events has happened;
  \<open>ordered\<close> is the list of events in which each was allowed when it came. A command is followed through its
  steps with \<open>reached\<close>: the events since the start are ordered, and the set of them has some property. The rules
  below give the triples of the elementary steps; a property that \<open>grows\<close> survives every step that the protocol
  always allows.
\<close>

type_synonym protocol = "event set \<Rightarrow> event \<Rightarrow> bool"

definition ordered :: "protocol \<Rightarrow> event list \<Rightarrow> bool" where
  "ordered allowed evs \<longleftrightarrow> (\<forall>a e b. evs = a @ e # b \<longrightarrow> allowed (set a) e)"

definition reached :: "protocol \<Rightarrow> event list \<Rightarrow> (event set \<Rightarrow> bool) \<Rightarrow> 'w world \<Rightarrow> bool" where
  "reached allowed t0 C w \<longleftrightarrow> (\<exists>evs. w_trace w = t0 @ evs \<and> ordered allowed evs \<and> C (set evs))"

definition grows :: "(event set \<Rightarrow> bool) \<Rightarrow> bool" where
  "grows C \<longleftrightarrow> (\<forall>A B. C A \<longrightarrow> A \<subseteq> B \<longrightarrow> C B)"

lemma ordered_Nil [simp]: "ordered allowed []"
  by (simp add: ordered_def)

lemma ordered_snoc: "ordered allowed (evs @ [e]) \<longleftrightarrow> ordered allowed evs \<and> allowed (set evs) e"
proof
  assume o: "ordered allowed (evs @ [e])"
  have "allowed (set a) x" if "evs = a @ x # b" for a x b
  proof -
    have "evs @ [e] = a @ x # (b @ [e])" using that by simp
    with o show ?thesis unfolding ordered_def by blast
  qed
  with o show "ordered allowed evs \<and> allowed (set evs) e" unfolding ordered_def by blast
next
  assume o: "ordered allowed evs \<and> allowed (set evs) e"
  show "ordered allowed (evs @ [e])"
    unfolding ordered_def
  proof (intro allI impI)
    fix a x b assume eq: "evs @ [e] = a @ x # b"
    show "allowed (set a) x"
    proof (cases b rule: rev_cases)
      case (snoc ys y)
      with eq have "evs = a @ x # ys" by simp
      with o show ?thesis unfolding ordered_def by blast
    qed (use eq o in auto)
  qed
qed

lemma growsI: "(\<And>A B. C A \<Longrightarrow> A \<subseteq> B \<Longrightarrow> C B) \<Longrightarrow> grows C"
  by (simp add: grows_def)

lemma growsD: "grows C \<Longrightarrow> C A \<Longrightarrow> A \<subseteq> B \<Longrightarrow> C B"
  by (auto simp: grows_def)

lemma reached_start: "C {} \<Longrightarrow> reached allowed (w_trace w) C w"
  by (simp add: reached_def)

lemma reached_mono: "reached allowed t0 C w \<Longrightarrow> (\<And>A. C A \<Longrightarrow> D A) \<Longrightarrow> reached allowed t0 D w"
  by (auto simp: reached_def)

lemma reachedE:
  assumes "reached allowed t0 C w"
  obtains evs where "w_trace w = t0 @ evs" "ordered allowed evs" "C (set evs)"
  using assms by (auto simp: reached_def)

lemma reached_event:
  assumes "reached allowed t0 C w" "w_trace w' = w_trace w @ [e]"
    and "\<And>A. C A \<Longrightarrow> allowed A e" "\<And>A. C A \<Longrightarrow> D (insert e A)"
  shows "reached allowed t0 D w'"
proof -
  obtain evs where evs: "w_trace w = t0 @ evs" "ordered allowed evs" "C (set evs)" by (rule reachedE [OF assms(1)])
  with assms show ?thesis unfolding reached_def by (intro exI [of _ "evs @ [e]"]) (simp add: ordered_snoc)
qed

text \<open>A step whose events are always allowed, and leave what is known alone.\<close>

lemma free_step_closed:
  assumes "\<And>e A. free e \<Longrightarrow> C A \<Longrightarrow> C (insert e A)" "\<And>e A. free e \<Longrightarrow> allowed A e" "adds free m"
  shows "triple (reached allowed t0 C) m (\<lambda>_. reached allowed t0 C) (\<lambda>_. reached allowed t0 C)"
proof -
  have app: "ordered allowed (a @ b) \<and> C (set (a @ b))" if "ordered allowed a" "C (set a)" "list_all free b" for a b
    using that(3) by (induction b rule: rev_induct)
      (use that(1,2) assms(1,2) ordered_snoc in \<open>auto simp flip: append_assoc\<close>)
  have "reached allowed t0 C w'" if r: "reached allowed t0 C w" and m: "m w = (r, w')" for w r w'
  proof -
    obtain evs where evs: "w_trace w = t0 @ evs" "ordered allowed evs" "C (set evs)" by (rule reachedE [OF r])
    obtain new where "w_trace w' = w_trace w @ new" "list_all free new" using addsD [OF assms(3) m] by blast
    with evs app [of evs new] show ?thesis unfolding reached_def by (intro exI [of _ "evs @ new"]) simp
  qed
  then show ?thesis by (auto simp: triple_def split: prod.splits result.splits)
qed

lemma free_step:
  assumes "grows C" "\<And>e A. free e \<Longrightarrow> allowed A e" "adds free m"
  shows "triple (reached allowed t0 C) m (\<lambda>_. reached allowed t0 C) (\<lambda>_. reached allowed t0 C)"
  by (rule free_step_closed [OF growsD [OF assms(1)] assms(2,3)]) auto

text \<open>The elementary steps, with what is known after success and after failure.\<close>

lemma event_triple:
  assumes "\<And>w r w'. m w = (r, w') \<Longrightarrow> \<exists>ev. w_trace w' = w_trace w @ [ev] \<and> P r ev"
    and "\<And>A r ev. C A \<Longrightarrow> P r ev \<Longrightarrow> allowed A ev"
    and "\<And>A a ev. C A \<Longrightarrow> P (Ok a) ev \<Longrightarrow> Q a (insert ev A)" "\<And>A e ev. C A \<Longrightarrow> P (Err e) ev \<Longrightarrow> E e (insert ev A)"
  shows "triple (reached allowed t0 C) m (\<lambda>a. reached allowed t0 (Q a)) (\<lambda>e. reached allowed t0 (E e))"
proof (rule tripleI)
  show "reached allowed t0 (Q a) w'" if r: "reached allowed t0 C w" and m: "m w = (Ok a, w')" for w a w'
  proof -
    from assms(1) [OF m] obtain ev where "w_trace w' = w_trace w @ [ev]" "P (Ok a) ev" by blast
    then show ?thesis by (intro reached_event [OF r]) (use assms in auto)
  qed
  show "reached allowed t0 (E e) w'" if r: "reached allowed t0 C w" and m: "m w = (Err e, w')" for w e w'
  proof -
    from assms(1) [OF m] obtain ev where "w_trace w' = w_trace w @ [ev]" "P (Err e) ev" by blast
    then show ?thesis by (intro reached_event [OF r]) (use assms in auto)
  qed
qed

lemma step_triple:
  assumes "\<And>w r w'. m w = (r, w') \<Longrightarrow> w_trace w' = w_trace w @ [ev r]"
    and "\<And>A r. C A \<Longrightarrow> allowed A (ev r)"
    and "\<And>A a. C A \<Longrightarrow> Q a (insert (ev (Ok a)) A)" "\<And>A e. C A \<Longrightarrow> E e (insert (ev (Err e)) A)"
  shows "triple (reached allowed t0 C) m (\<lambda>a. reached allowed t0 (Q a)) (\<lambda>e. reached allowed t0 (E e))"
  by (rule event_triple [where P = "\<lambda>r e. e = ev r"]) (use assms in auto)

lemma ssh_step:
  assumes "\<And>A r. C A \<Longrightarrow> allowed A (SshRun opts c r)"
    and "\<And>A a. C A \<Longrightarrow> Q a (insert (SshRun opts c (Ok a)) A)" "\<And>A e. C A \<Longrightarrow> E e (insert (SshRun opts c (Err e)) A)"
  shows "triple (reached allowed t0 C) (ssh_run env opts c) (\<lambda>a. reached allowed t0 (Q a)) (\<lambda>e. reached allowed t0 (E e))"
  by (rule step_triple [where ev = "SshRun opts c"])
    (use assms in \<open>auto simp: ssh_run_def ssh_run_in_def split: prod.splits\<close>)

lemma ssh_in_step:
  assumes "\<And>A r. C A \<Longrightarrow> allowed A (SshIn opts c inp r)"
    and "\<And>A a. C A \<Longrightarrow> Q a (insert (SshIn opts c inp (Ok a)) A)" "\<And>A e. C A \<Longrightarrow> E e (insert (SshIn opts c inp (Err e)) A)"
  shows "triple (reached allowed t0 C) (ssh_run_in env opts c (Some inp))
    (\<lambda>a. reached allowed t0 (Q a)) (\<lambda>e. reached allowed t0 (E e))"
  by (rule step_triple [where ev = "SshIn opts c inp"]) (use assms in \<open>auto simp: ssh_run_in_def split: prod.splits\<close>)

lemma read_line_step:
  assumes "\<And>A r. C A \<Longrightarrow> allowed A (ReadLine r)"
    and "\<And>A a. C A \<Longrightarrow> Q a (insert (ReadLine (Ok a)) A)" "\<And>A e. C A \<Longrightarrow> E e (insert (ReadLine (Err e)) A)"
  shows "triple (reached allowed t0 C) (read_line con) (\<lambda>a. reached allowed t0 (Q a)) (\<lambda>e. reached allowed t0 (E e))"
  by (rule step_triple [where ev = ReadLine]) (use assms in \<open>auto simp: read_line_def split: prod.splits\<close>)

lemma write_step:
  assumes "\<And>A r. C A \<Longrightarrow> allowed A (FileWrite path bytes r)"
    and "\<And>A a. C A \<Longrightarrow> Q a (insert (FileWrite path bytes (Ok a)) A)"
    and "\<And>A e. C A \<Longrightarrow> E e (insert (FileWrite path bytes (Err e)) A)"
  shows "triple (reached allowed t0 C) (fs_write con path bytes)
    (\<lambda>a. reached allowed t0 (Q a)) (\<lambda>e. reached allowed t0 (E e))"
  by (rule step_triple [where ev = "FileWrite path bytes"]) (use assms in \<open>auto simp: fs_write_def split: prod.splits\<close>)

end
