(* ===== verification/Etcd.thy ===== *)
theory Etcd
  imports Etcd_Text Config Virt_Conn Cp_Kubectl
begin

text \<open>
  \<open>hbird etcd backup\<close>, \<open>restore\<close> and \<open>rotate-key\<close> (\<open>commands/etcd.rs\<close>). The terminal, the clock, \<open>/dev/urandom\<close> and
  the local files are the \<open>console\<close>; the parsed configuration file is an argument, \<open>None\<close> when no path was given.
  \<open>print!\<close> and \<open>println!\<close> are one event with their text, the line feed of \<open>println!\<close> left out. Of \<open>stdin\<close> being no
  terminal the model keeps a flag.
\<close>

section \<open>Arguments and constants\<close>

record etcd_common_args =
  ec_cp_name :: "string option"
  ec_cp_ip :: "string option"
  ec_kvm_host :: "string option"
  ec_dry_run :: bool

record backup_args =
  ba_common :: etcd_common_args
  ba_outdir :: "string option"
  ba_outdir_positional :: "string option"
  ba_label :: "string option"

record restore_args =
  ra_common :: etcd_common_args
  ra_snapshot :: string
  ra_yes :: bool

record rotate_key_args =
  rk_common :: etcd_common_args
  rk_yes :: bool

datatype etcd_subcommand = Backup backup_args | Restore restore_args | RotateKey rotate_key_args

text \<open>How a command ends when it does not fail: it returns, or leaves with an exit code of its own.\<close>

datatype run_end = Finished | ExitCode nat

definition ETCDCTL_TLS :: string where
  "ETCDCTL_TLS = ''--cacert=/etc/kubernetes/pki/etcd/ca.crt --cert=/etc/kubernetes/pki/etcd/server.crt ''
     @ ''--key=/etc/kubernetes/pki/etcd/server.key''"

definition REMOTE_SNAPSHOT_DIR :: string where "REMOTE_SNAPSHOT_DIR = ''/var/lib/etcd''"
definition REMOTE_RESTORE_SNAPSHOT :: string where "REMOTE_RESTORE_SNAPSHOT = ''/tmp/restore-snapshot.db''"
definition ETCD_IMAGE_FALLBACK :: string where "ETCD_IMAGE_FALLBACK = ''registry.k8s.io/etcd:3.5.15-0''"
definition ENCRYPTION_CONFIG :: string where "ENCRYPTION_CONFIG = ''/etc/kubernetes/encryption-config.yaml''"
definition APISERVER_WARMUP_SECS :: nat where "APISERVER_WARMUP_SECS = 30"
definition ROTATE_PREFIX :: string where "ROTATE_PREFIX = ''[rotate-etcd-key]''"
definition DRY_RUN_CP_IP :: string where "DRY_RUN_CP_IP = ''<cp-ip>''"

definition rotate_log :: "string \<Rightarrow> ('w world, 'e, unit) action" where
  "rotate_log line = eprintln (ROTATE_PREFIX @ '' '' @ line)"

definition now_epoch_secs :: "'w console \<Rightarrow> ('w, nat) act" where
  "now_epoch_secs con = peek (\<lambda>x. Ok (con_now con x))"

text \<open>A local call with a context on its error.\<close>

definition io_ctx :: "('w world, io_error, 'a) action \<Rightarrow> string \<Rightarrow> ('w, 'a) act" where
  "io_ctx m ctx = matchA m (\<lambda>r. liftA (with_context ctx (map_err (\<lambda>e. [io_error_display e]) r)))"

definition random_key_bytes :: "'w console \<Rightarrow> ('w, byte list) act" where
  "random_key_bytes con =
     bindA (io_ctx (peek (con_open con ''/dev/urandom'')) ''open /dev/urandom for a new etcd encryption key'') (\<lambda>_.
     bindA (io_ctx (read_exact con ''/dev/urandom'' 32)
       ''read 32 bytes from /dev/urandom for a new etcd encryption key'') (\<lambda>buf. retA (as_bytes buf)))"

section \<open>Confirmation\<close>

definition is_affirmative :: "string \<Rightarrow> bool" where
  "is_affirmative answer \<longleftrightarrow> trim answer = ''y'' \<or> trim answer = ''Y''"

definition confirm :: "'w console \<Rightarrow> string \<Rightarrow> bool \<Rightarrow> ('w, unit) act" where
  "confirm con prompt assume_yes =
     (if assume_yes then retA ()
      else if \<not> con_tty con then
        failA [prompt @ '' [y/N] '' @ EM_DASH @ '' stdin is not a TTY, refusing to guess. ''
          @ ''Re-run with --yes to confirm non-interactively, or with --dry-run to preview.'']
      else
        bindA (eprintln (prompt @ '' [y/N] '')) (\<lambda>_.
        bindA (io_ctx (read_line con) ''read confirmation from stdin'') (\<lambda>answer.
        if is_affirmative answer then retA () else failA [''aborted by operator''])))"

section \<open>The control plane\<close>

record etcd_plan =
  ep_target :: cp_target
  ep_dry_run :: bool

definition ep_ssh_target :: "etcd_plan \<Rightarrow> string" where
  "ep_ssh_target plan =
     (case ct_kvm_host (ep_target plan) of
        Some h \<Rightarrow> ''-J '' @ h @ '' root@'' @ ct_cp_ip (ep_target plan)
      | None \<Rightarrow> ''root@'' @ ct_cp_ip (ep_target plan))"

abbreviation ep_opts :: "etcd_plan \<Rightarrow> ssh_options" where
  "ep_opts plan \<equiv> ct_ssh_opts (ep_target plan)"

definition resolve_cp_ip_local :: "'w world connection \<Rightarrow> string \<Rightarrow> ('w, string) act" where
  "resolve_cp_ip_local conn name =
     matchA (domifaddr conn name) (\<lambda>r.
       case r of
         Ok (Some ip) \<Rightarrow> retA (ipv4_display ip)
       | Ok None \<Rightarrow> failA [''libvirt domain '' @ [SQ] @ name @ [SQ] @ '' has no IPv4 lease yet (queried via ''
            @ ''local virsh). Pin CP_IP= in cluster.local.conf, or set ''
            @ ''KVM_HOST=<ssh-alias> if libvirt runs on another host.'']
       | Err e \<Rightarrow> failA ((''resolve CP_IP via local `virsh -c qemu:///system domifaddr '' @ name
            @ ''` (set KVM_HOST=<ssh-alias> if libvirt runs on another host, or pin CP_IP=)'') # from_virt e))"

definition plan_from_common ::
  "'w env \<Rightarrow> etcd_common_args \<Rightarrow> (anyhow, cluster_config) result option \<Rightarrow> ('w, etcd_plan) act" where
  "plan_from_common env common cfg =
     bindA (case cfg of Some r \<Rightarrow> bindA (liftA r) (\<lambda>c. retA (Some c)) | None \<Rightarrow> retA None) (\<lambda>config.
     let kvm = filled (or_opt (ec_kvm_host common) (Option.bind config kvm_host));
         pinned = filled (or_opt (filled (ec_cp_ip common)) (Option.bind config cp_ip)) in
     bindA
       (case pinned of
          Some ip \<Rightarrow> retA ip
        | None \<Rightarrow>
            if ec_dry_run common then retA DRY_RUN_CP_IP
            else
              bindA (liftA (ok_or [''CP_NAME required to resolve the control-plane IP ''
                 @ ''(set in --config <cluster.local.conf>, or pass --cp-name / CP_NAME env, or pin --cp-ip / CP_IP)'']
                 (or_opt (ec_cp_name common) (map_option cp_name config)))) (\<lambda>name.
              case kvm of
                Some host \<Rightarrow>
                  ctxA (''resolve CP_IP via virsh-domifaddr on KVM_HOST='' @ host @ '' for CP_NAME='' @ name)
                    (resolve_cp_ip_via_ssh env (ssh_options_new host) host name)
              | None \<Rightarrow> resolve_cp_ip_local (build_connection env None) name)) (\<lambda>ip.
     retA \<lparr>ep_target = \<lparr>ct_cp_ip = ip, ct_kvm_host = kvm\<rparr>, ep_dry_run = ec_dry_run common\<rparr>))"

section \<open>Backup\<close>

definition backup_dry_run_lines :: "string \<Rightarrow> string \<Rightarrow> string \<Rightarrow> string list" where
  "backup_dry_run_lines t dst remote =
     [''DRY-RUN etcd backup'',
      ''DRY-RUN   control plane : '' @ t,
      ''DRY-RUN   snapshot file : '' @ dst,
      ''DRY-RUN ssh '' @ t @ '' crictl ps --name etcd -q'',
      ''DRY-RUN ssh '' @ t @ '' crictl exec <etcd-container-id> etcdctl '' @ ETCDCTL_TLS @ '' snapshot save '' @ remote,
      ''DRY-RUN ssh '' @ t @ '' crictl exec <etcd-container-id> etcdctl --write-out=table snapshot status '' @ remote,
      ''DRY-RUN ssh '' @ t @ '' cat '' @ remote @ '' > '' @ dst,
      ''DRY-RUN ssh '' @ t @ '' rm -f '' @ remote]"

definition snapshot_save_cmd :: "string \<Rightarrow> string \<Rightarrow> string" where
  "snapshot_save_cmd cid remote = ''crictl exec '' @ cid @ '' etcdctl '' @ ETCDCTL_TLS @ '' snapshot save '' @ remote"

definition snapshot_status_cmd :: "string \<Rightarrow> string \<Rightarrow> string" where
  "snapshot_status_cmd cid remote =
     ''crictl exec '' @ cid @ '' etcdctl --write-out=table snapshot status '' @ remote"

definition backup_with_exec :: "'w env \<Rightarrow> ssh_options \<Rightarrow> string \<Rightarrow> ('w, string) act" where
  "backup_with_exec env opts remote =
     bindA (ssh_ctx (ssh_run env opts ''crictl ps --name etcd -q'')
       ''etcd backup: `crictl ps --name etcd -q` failed on the CP'') (\<lambda>ps.
     bindA (liftA (ok_or [''no etcd container found''] (parse_etcd_container_id (ro_stdout ps)))) (\<lambda>cid.
     bindA (liftA (validate_container_id cid)) (\<lambda>_.
     bindA (ssh_ctx (ssh_run env opts (snapshot_save_cmd cid remote))
       ''etcd backup: `etcdctl snapshot save` failed inside the etcd container'') (\<lambda>_.
     bindA (matchA (ssh_run env opts (snapshot_status_cmd cid remote)) (\<lambda>r.
       case r of
         Ok out \<Rightarrow> whenA (trim (ro_stdout out) \<noteq> []) (eprintln (ro_stdout out))
       | Err e \<Rightarrow> failA [''etcd backup: `etcdctl snapshot status` failed: '' @ ssh_error_display e])) (\<lambda>_.
     bindA (ssh_ctx (ssh_run env opts (''cat '' @ remote))
       (''etcd backup: could not fetch '' @ remote @ '' from the CP'')) (\<lambda>fetched.
     if ro_stdout fetched = [] then
       failA [''etcd backup: '' @ remote @ '' came back empty from the CP ''
         @ ''(etcdctl reported success but wrote no bytes)'']
     else
       bindA (ssh_ctx (ssh_run env opts (''rm -f '' @ remote))
         (''etcd backup: could not remove '' @ remote @ '' on the CP'')) (\<lambda>_.
       retA (ro_stdout fetched))))))))"

definition run_backup ::
  "'w env \<Rightarrow> 'w console \<Rightarrow> backup_args \<Rightarrow> (anyhow, cluster_config) result option \<Rightarrow> ('w, run_end) act" where
  "run_backup env con args cfg =
     (let go = (\<lambda>label.
        (let outdir = unwrap_or (or_opt (ba_outdir args) (ba_outdir_positional args)) ''./backups'' in
         bindA (plan_from_common env (ba_common args) cfg) (\<lambda>plan.
         if ep_dry_run plan then
           (let dst = path_join outdir (snapshot_file_name ''<UTC-timestamp>'' label);
                remote = REMOTE_SNAPSHOT_DIR @ ''/hbird-snapshot-<UTC-timestamp>.db'' in
            bindA (forA (backup_dry_run_lines (ep_ssh_target plan) dst remote) println) (\<lambda>_. retA Finished))
         else
           bindA (now_epoch_secs con) (\<lambda>now.
           let ts = format_utc_timestamp now;
               dst = path_join outdir (snapshot_file_name ts label);
               remote = REMOTE_SNAPSHOT_DIR @ ''/hbird-snapshot-'' @ ts @ ''.db'' in
           bindA (io_ctx (create_dir_all con outdir) (''create snapshot output directory '' @ outdir)) (\<lambda>_.
           bindA (println (''Snapshotting etcd on '' @ ct_cp_ip (ep_target plan) @ '' -> '' @ dst)) (\<lambda>_.
           bindA (backup_with_exec env (ep_opts plan) remote) (\<lambda>bytes.
           bindA (io_ctx (fs_write con dst bytes) (''write etcd snapshot to '' @ dst)) (\<lambda>_.
           bindA (println (''Saved: '' @ dst @ ''  ('' @ human_size (length bytes) @ '')'')) (\<lambda>_.
           retA Finished))))))))) in
      case ba_label args of
        None \<Rightarrow> go None
      | Some raw \<Rightarrow>
          (case sanitize_label raw of
             Some clean \<Rightarrow> go (Some clean)
           | None \<Rightarrow> bindA (eprintln ''--label resolved to empty after sanitize'') (\<lambda>_. retA (ExitCode 2))))"

section \<open>Restore\<close>

definition restore_banner :: "string \<Rightarrow> string \<Rightarrow> string" where
  "restore_banner ip snapshot = unlines
     [''About to restore etcd on '' @ ip @ '' from '' @ snapshot @ ''.'',
      [],
      ''This will:'',
      ''  1. Move /etc/kubernetes/manifests aside so the apiserver+etcd static'',
      ''     pods stop.'',
      ''  2. Stop kubelet.'',
      ''  3. Rename /var/lib/etcd to /var/lib/etcd.before-restore.<ts>.'',
      ''  4. Run '' @ [SQ] @ ''etcdctl snapshot restore'' @ [SQ] @ '' into a fresh /var/lib/etcd.'',
      ''  5. Restore the manifests directory and start kubelet so the apiserver'',
      ''     comes back up against the restored etcd.'']"

definition restore_script :: "string \<Rightarrow> string \<Rightarrow> string" where
  "restore_script ts img = unlines
     [''set -euo pipefail'',
      ''mv /etc/kubernetes/manifests /etc/kubernetes/manifests.disabled'',
      ''sleep 10  # give kubelet time to notice and tear the static pods down'',
      ''systemctl stop kubelet || true'',
      ''mv /var/lib/etcd '' @ [CHR 0x22] @ ''/var/lib/etcd.before-restore.'' @ ts @ [CHR 0x22],
      ''podman run --rm --network host '' @ [CHR 0x5C],
      ''  -v /var/lib:/var/lib -v /tmp:/tmp '' @ [CHR 0x5C],
      ''  '' @ [CHR 0x22] @ img @ [CHR 0x22] @ '' '' @ [CHR 0x5C],
      ''  etcdctl snapshot restore '' @ REMOTE_RESTORE_SNAPSHOT @ '' '' @ [CHR 0x5C],
      ''    --data-dir=/var/lib/etcd'',
      ''mv /etc/kubernetes/manifests.disabled /etc/kubernetes/manifests'',
      ''systemctl start kubelet'',
      ''rm -f '' @ REMOTE_RESTORE_SNAPSHOT,
      ''echo '' @ [SQ] @ ''Restore complete. Apiserver will come back up in ~30s.'' @ [SQ]]"

definition RESTORE_ROLLBACK_SCRIPT :: string where
  "RESTORE_ROLLBACK_SCRIPT =
     ''if [ -d /etc/kubernetes/manifests.disabled ] && [ ! -e /etc/kubernetes/manifests ]; then ''
     @ ''mv /etc/kubernetes/manifests.disabled /etc/kubernetes/manifests; fi; systemctl start kubelet || true''"

definition PREFLIGHT_CMD :: string where
  "PREFLIGHT_CMD = ''test ! -e /etc/kubernetes/manifests.disabled''"

definition restore_preflight_with_exec :: "'w env \<Rightarrow> ssh_options \<Rightarrow> ('w, unit) act" where
  "restore_preflight_with_exec env opts =
     matchA (ssh_run env opts PREFLIGHT_CMD) (\<lambda>r.
       case r of
         Ok _ \<Rightarrow> retA ()
       | Err (NonZeroExit h status out err) \<Rightarrow>
           failA [''/etc/kubernetes/manifests.disabled already exists on the CP '' @ EM_DASH
             @ '' a previous restore was interrupted. Move the static-pod ''
             @ ''manifests back by hand (`mv /etc/kubernetes/manifests.disabled ''
             @ ''/etc/kubernetes/manifests`) and confirm the apiserver is up ''
             @ ''before retrying; restoring now would nest the live manifests ''
             @ ''directory inside the stale one.'']
       | Err e \<Rightarrow>
           failA (''etcd restore: could not check /etc/kubernetes/manifests.disabled on the CP'' # from_ssh e))"

definition push_cmd :: string where
  "push_cmd = ''cat > '' @ REMOTE_RESTORE_SNAPSHOT"

definition push_snapshot_with_exec :: "'w env \<Rightarrow> ssh_options \<Rightarrow> string \<Rightarrow> ('w, unit) act" where
  "push_snapshot_with_exec env opts bytes =
     bindA (ssh_ctx (ssh_run_in env opts push_cmd (Some bytes))
       (''etcd restore: could not upload the snapshot to '' @ REMOTE_RESTORE_SNAPSHOT)) (\<lambda>_. retA ())"

definition detect_etcd_image_with_exec :: "'w env \<Rightarrow> ssh_options \<Rightarrow> ('w, string) act" where
  "detect_etcd_image_with_exec env opts =
     matchA (ssh_run env opts ''crictl images'') (\<lambda>r.
       case r of
         Ok out \<Rightarrow> retA (unwrap_or (pick_etcd_image (ro_stdout out)) ETCD_IMAGE_FALLBACK)
       | Err (NonZeroExit h status out err) \<Rightarrow> retA (unwrap_or (pick_etcd_image out) ETCD_IMAGE_FALLBACK)
       | Err e \<Rightarrow> failA (''etcd restore: `crictl images` failed on the CP'' # from_ssh e))"

definition kept_dir :: "string \<Rightarrow> string" where
  "kept_dir ts = ''/var/lib/etcd.before-restore.'' @ ts"

definition restore_apply_with_exec :: "'w env \<Rightarrow> ssh_options \<Rightarrow> string \<Rightarrow> string \<Rightarrow> ('w, string) act" where
  "restore_apply_with_exec env opts ts img =
     bindA (liftA (validate_image_ref img)) (\<lambda>_.
     matchA (ssh_run_in env opts ''bash -s'' (Some (restore_script ts img))) (\<lambda>r.
       case r of
         Ok out \<Rightarrow> retA (ro_stdout out)
       | Err e \<Rightarrow>
           matchA (ssh_run_in env opts ''bash -s'' (Some RESTORE_ROLLBACK_SCRIPT)) (\<lambda>rollback.
           bindA (case rollback of
                    Ok _ \<Rightarrow> retA ''rollback attempted: static-pod manifests moved back and kubelet started''
                  | Err re \<Rightarrow>
                      bindA (eprintln (''etcd restore: rollback itself failed: '' @ ssh_error_display re)) (\<lambda>_.
                      retA (''rollback FAILED '' @ EM_DASH @ '' the CP may still have ''
                        @ ''/etc/kubernetes/manifests.disabled and a stopped kubelet; ''
                        @ ''fix by hand before retrying''))) (\<lambda>note_text.
           failA ((''etcd restore: remote restore failed ('' @ note_text @ ''). The previous ''
             @ ''data dir was kept at '' @ kept_dir ts) # from_ssh e)))))"

definition restore_dry_run_lines :: "string \<Rightarrow> string \<Rightarrow> string list" where
  "restore_dry_run_lines t snapshot =
     [''DRY-RUN etcd restore (DESTRUCTIVE '' @ EM_DASH @ '' no confirmation prompt in dry-run)'',
      ''DRY-RUN   control plane : '' @ t,
      ''DRY-RUN   snapshot file : '' @ snapshot,
      ''DRY-RUN ssh '' @ t @ '' test ! -e /etc/kubernetes/manifests.disabled'',
      ''DRY-RUN ssh '' @ t @ '' cat > '' @ REMOTE_RESTORE_SNAPSHOT @ ''  < '' @ snapshot,
      ''DRY-RUN ssh '' @ t @ '' crictl images   # pick the etcd image, else '' @ ETCD_IMAGE_FALLBACK,
      ''DRY-RUN ssh '' @ t @ '' bash -s   # mv manifests aside; stop kubelet; keep /var/lib/etcd as ''
        @ ''/var/lib/etcd.before-restore.<UTC-timestamp>; podman run <etcd-image> etcdctl snapshot restore; ''
        @ ''manifests back; start kubelet'',
      ''DRY-RUN ssh '' @ t @ '' kubectl --kubeconfig=/etc/kubernetes/admin.conf get nodes   # after a ''
        @ show_nat APISERVER_WARMUP_SECS @ ''s warm-up'']"

definition restore_live ::
  "'w env \<Rightarrow> 'w console \<Rightarrow> restore_args \<Rightarrow> etcd_plan \<Rightarrow> ('w, unit) act" where
  "restore_live env con args plan =
     (let snap = ra_snapshot args; opts = ep_opts plan in
      bindA (io_ctx (peek (con_read con snap)) (''read etcd snapshot '' @ snap)) (\<lambda>bytes.
      bindA (println (restore_banner (ct_cp_ip (ep_target plan)) snap)) (\<lambda>_.
      bindA (confirm con ''Proceed with the restore?'' (ra_yes args)) (\<lambda>_.
      bindA (restore_preflight_with_exec env opts) (\<lambda>_.
      bindA (push_snapshot_with_exec env opts bytes) (\<lambda>_.
      bindA (detect_etcd_image_with_exec env opts) (\<lambda>img.
      bindA (println (''Using etcd image: '' @ img)) (\<lambda>_.
      bindA (now_epoch_secs con) (\<lambda>now.
      bindA (restore_apply_with_exec env opts (format_utc_timestamp now) img) (\<lambda>out.
      bindA (println out) (\<lambda>_.
      bindA (println ''Verifying cluster (after a 30s warm-up)...'') (\<lambda>_.
      bindA (sleep env APISERVER_WARMUP_SECS) (\<lambda>_.
      bindA (ctxA ''etcd restore: post-restore `kubectl get nodes` failed''
        (cp_kubectl_raw env (ep_target plan) ''get nodes'')) (\<lambda>nodes.
      println (ro_stdout nodes)))))))))))))))"

definition run_restore ::
  "'w env \<Rightarrow> 'w console \<Rightarrow> restore_args \<Rightarrow> (anyhow, cluster_config) result option \<Rightarrow> ('w, run_end) act" where
  "run_restore env con args cfg =
     (let snap = ra_snapshot args in
      bindA (peek (\<lambda>x. Ok (con_is_file con snap x))) (\<lambda>is_file.
      if \<not> is_file then failA [''Snapshot not found: '' @ snap]
      else
        bindA (plan_from_common env (ra_common args) cfg) (\<lambda>plan.
        bindA (if ep_dry_run plan then forA (restore_dry_run_lines (ep_ssh_target plan) snap) println
               else restore_live env con args plan) (\<lambda>_. retA Finished))))"

section \<open>Rotation\<close>

definition fetch_config_cmd :: string where "fetch_config_cmd = ''cat '' @ ENCRYPTION_CONFIG"
definition upload_config_cmd :: string where "upload_config_cmd = ''umask 077; cat > '' @ ENCRYPTION_CONFIG @ ''.new''"
definition HEALTHZ_CMD :: string where
  "HEALTHZ_CMD = ''KUBECONFIG=/etc/kubernetes/admin.conf kubectl get --raw=/healthz''"

definition rotate_fetch_config_with_exec :: "'w env \<Rightarrow> ssh_options \<Rightarrow> ('w, string) act" where
  "rotate_fetch_config_with_exec env opts =
     bindA (ssh_ctx (ssh_run env opts fetch_config_cmd)
       (''rotate-etcd-key: could not read '' @ ENCRYPTION_CONFIG @ '' on the CP'')) (\<lambda>out.
     if trim (ro_stdout out) = [] then failA [''fetched encryption-config is empty''] else retA (ro_stdout out))"

definition install_script :: string where
  "install_script = unlines
     [''set -euo pipefail'',
      ''install -m 0600 -o root -g root '' @ [CHR 0x5C],
      ''  '' @ ENCRYPTION_CONFIG @ ''.new '' @ [CHR 0x5C],
      ''  '' @ ENCRYPTION_CONFIG,
      ''rm -f '' @ ENCRYPTION_CONFIG @ ''.new'',
      ''touch /etc/kubernetes/manifests/kube-apiserver.yaml'']"

definition rotate_install_config_with_exec :: "'w env \<Rightarrow> ssh_options \<Rightarrow> string \<Rightarrow> ('w, unit) act" where
  "rotate_install_config_with_exec env opts yaml =
     bindA (ssh_ctx (ssh_run_in env opts upload_config_cmd (Some yaml))
       (''rotate-etcd-key: could not upload the new config to '' @ ENCRYPTION_CONFIG @ ''.new'')) (\<lambda>_.
     bindA (ssh_ctx (ssh_run_in env opts ''bash -s'' (Some install_script))
       ''rotate-etcd-key: could not install the new encryption config on the CP'') (\<lambda>_. retA ()))"

definition rotate_healthz_with_exec :: "'w env \<Rightarrow> ssh_options \<Rightarrow> nat \<Rightarrow> ('w, unit) act" where
  "rotate_healthz_with_exec env opts stage =
     matchA (ssh_run env opts HEALTHZ_CMD) (\<lambda>r.
       case r of
         Ok _ \<Rightarrow> retA ()
       | Err e \<Rightarrow> failA [''apiserver healthz failed after Stage '' @ show_nat stage @ '' reload: '' @ ssh_error_display e])"

definition reencrypt_script :: string where
  "reencrypt_script = unlines
     [''set -euo pipefail'',
      ''export KUBECONFIG=/etc/kubernetes/admin.conf'',
      ''kubectl get secrets -A -o json | kubectl replace -f -'',
      ''kubectl get configmaps -A -o json | kubectl replace -f -'']"

definition rotate_reencrypt_with_exec :: "'w env \<Rightarrow> ssh_options \<Rightarrow> ('w, unit) act" where
  "rotate_reencrypt_with_exec env opts =
     bindA (ssh_ctx (ssh_run_in env opts ''bash -s'' (Some reencrypt_script))
       (''rotate-etcd-key: Stage 2 re-encrypt failed. The new key is already ''
         @ ''primary, so the old key MUST stay in the config '' @ EM_DASH @ '' do not run Stage 3 ''
         @ ''by hand until every Secret/ConfigMap has been rewritten.'')) (\<lambda>_. retA ())"

definition verify_key_cmd :: "string \<Rightarrow> string" where
  "verify_key_cmd key_name =
     ''EXPECTED_PREFIX='' @ shell_single_quote (''k8s:enc:aesgcm:v1:'' @ key_name @ '':'')
     @ '' /usr/libexec/verify-encryption.sh''"

definition rotate_verify_with_exec :: "'w env \<Rightarrow> ssh_options \<Rightarrow> string \<Rightarrow> ('w, unit) act" where
  "rotate_verify_with_exec env opts key_name =
     bindA (ssh_ctx (ssh_run env opts (verify_key_cmd key_name))
       (''rotate-etcd-key: Stage 4 verification failed '' @ EM_DASH
         @ '' /usr/libexec/verify-encryption.sh did not confirm the new key'')) (\<lambda>_. retA ())"

definition rotate_dry_run_lines :: "string \<Rightarrow> string list" where
  "rotate_dry_run_lines t =
     [''DRY-RUN etcd rotate-key (DESTRUCTIVE '' @ EM_DASH @ '' no confirmation prompts in dry-run)'',
      ''DRY-RUN   control plane : '' @ t,
      ''DRY-RUN   pre-flight    : take a labelled snapshot first (`hbird etcd backup --label pre-key-rotation`)'',
      ''DRY-RUN ssh '' @ t @ '' cat '' @ ENCRYPTION_CONFIG @ ''   # Stage 0'',
      ''DRY-RUN local  generate a 32-byte key from /dev/urandom, named key-<UTC-timestamp>'',
      ''DRY-RUN ssh '' @ t @ '' cat > '' @ ENCRYPTION_CONFIG @ ''.new   # Stage 1: new key primary, old key kept'',
      ''DRY-RUN ssh '' @ t @ '' bash -s   # Stage 1: install -m 0600 the config; touch ''
        @ ''/etc/kubernetes/manifests/kube-apiserver.yaml'',
      ''DRY-RUN ssh '' @ t @ '' kubectl get --raw=/healthz   # after a '' @ show_nat APISERVER_WARMUP_SECS @ ''s wait'',
      ''DRY-RUN ssh '' @ t @ '' bash -s   # Stage 2: kubectl get secrets/configmaps -A -o json | kubectl replace -f -'',
      ''DRY-RUN ssh '' @ t @ '' cat > '' @ ENCRYPTION_CONFIG @ ''.new   # Stage 3: old key dropped'',
      ''DRY-RUN ssh '' @ t @ '' bash -s   # Stage 3: install -m 0600 the config; touch ''
        @ ''/etc/kubernetes/manifests/kube-apiserver.yaml'',
      ''DRY-RUN ssh '' @ t @ '' kubectl get --raw=/healthz   # after a '' @ show_nat APISERVER_WARMUP_SECS @ ''s wait'',
      ''DRY-RUN ssh '' @ t @ '' EXPECTED_PREFIX='' @ [SQ] @ ''k8s:enc:aesgcm:v1:<new-key-name>:'' @ [SQ]
        @ '' /usr/libexec/verify-encryption.sh   # Stage 4'']"

text \<open>Installing a configuration, waiting for the apiserver and checking it.\<close>

definition install_and_wait :: "'w env \<Rightarrow> ssh_options \<Rightarrow> string \<Rightarrow> string \<Rightarrow> nat \<Rightarrow> ('w, unit) act" where
  "install_and_wait env opts yaml what stage =
     bindA (rotate_install_config_with_exec env opts yaml) (\<lambda>_.
     bindA (rotate_log (''waiting 30s for apiserver to come back with the '' @ what @ '' config'')) (\<lambda>_.
     bindA (sleep env APISERVER_WARMUP_SECS) (\<lambda>_.
     rotate_healthz_with_exec env opts stage)))"

text \<open>Stages 1 and 2 (install the configuration with both keys, write everything again), and stages 3 and 4 (drop
  the old key, verify).\<close>

definition rotate_stages_1_2 :: "'w env \<Rightarrow> 'w console \<Rightarrow> bool \<Rightarrow> ssh_options \<Rightarrow> string \<Rightarrow> ('w, unit) act" where
  "rotate_stages_1_2 env con yes opts dual =
     bindA (rotate_log ''Stage 1: install dual-key config (new=primary, old=secondary) + reload apiserver'') (\<lambda>_.
     bindA (confirm con ''Proceed with Stage 1?'' yes) (\<lambda>_.
     bindA (install_and_wait env opts dual ''new'' 1) (\<lambda>_.
     bindA (rotate_log ''Stage 2: re-encrypt every existing Secret and ConfigMap'') (\<lambda>_.
     bindA (rotate_log ''         (kubectl get -A -o json | kubectl replace -f -)'') (\<lambda>_.
     bindA (confirm con ''Proceed with Stage 2?'' yes) (\<lambda>_.
     rotate_reencrypt_with_exec env opts))))))"

definition rotate_stages_3_4 ::
  "'w env \<Rightarrow> 'w console \<Rightarrow> bool \<Rightarrow> ssh_options \<Rightarrow> string \<Rightarrow> string \<Rightarrow> ('w, unit) act" where
  "rotate_stages_3_4 env con yes opts key_name final_cfg =
     bindA (rotate_log ''Stage 3: drop old key from config + reload apiserver'') (\<lambda>_.
     bindA (confirm con ''Proceed with Stage 3?'' yes) (\<lambda>_.
     bindA (install_and_wait env opts final_cfg ''single-key'' 3) (\<lambda>_.
     bindA (rotate_log ''Stage 4: verify via /usr/libexec/verify-encryption.sh'') (\<lambda>_.
     rotate_verify_with_exec env opts key_name))))"

definition rotate_live :: "'w env \<Rightarrow> 'w console \<Rightarrow> bool \<Rightarrow> etcd_plan \<Rightarrow> ('w, unit) act" where
  "rotate_live env con yes plan =
     (let opts = ep_opts plan in
      bindA (rotate_log (''control plane: '' @ ct_cp_ip (ep_target plan))) (\<lambda>_.
      bindA (rotate_log (''pre-flight: did you '' @ [SQ] @ ''make backup-etcd LABEL=pre-key-rotation'' @ [SQ] @ '' already?'')) (\<lambda>_.
      bindA (rotate_log (''            (see docs/backup-restore.md '' @ [SQ] @ ''When to snapshot'' @ [SQ] @ '')'')) (\<lambda>_.
      bindA (confirm con ''Continue with rotation?'' yes) (\<lambda>_.
      bindA (rotate_log (''fetching current '' @ ENCRYPTION_CONFIG @ '' from CP'')) (\<lambda>_.
      bindA (rotate_fetch_config_with_exec env opts) (\<lambda>current.
      bindA (random_key_bytes con) (\<lambda>key_bytes.
      bindA (now_epoch_secs con) (\<lambda>now.
      bindA (rotate_log (''generated new key (base64, 32 bytes) named '' @ [SQ] @ rotation_key_name now @ [SQ])) (\<lambda>_.
      bindA (liftA (insert_primary_key current (rotation_key_name now) (base64_encode key_bytes))) (\<lambda>dual.
      bindA (rotate_stages_1_2 env con yes opts dual) (\<lambda>_.
      bindA (liftA (drop_non_primary_keys dual)) (\<lambda>final_cfg.
      bindA (rotate_stages_3_4 env con yes opts (rotation_key_name now) final_cfg) (\<lambda>_.
      bindA (rotate_log (''rotation complete; new key name on CP: '' @ rotation_key_name now)) (\<lambda>_.
      rotate_log (''post-flight: consider '' @ [SQ] @ ''make backup-etcd LABEL=post-key-rotation'' @ [SQ]))))))))))))))))"

definition run_rotate_key ::
  "'w env \<Rightarrow> 'w console \<Rightarrow> rotate_key_args \<Rightarrow> (anyhow, cluster_config) result option \<Rightarrow> ('w, run_end) act" where
  "run_rotate_key env con args cfg =
     bindA (plan_from_common env (rk_common args) cfg) (\<lambda>plan.
     bindA (if ep_dry_run plan then forA (rotate_dry_run_lines (ep_ssh_target plan)) println
            else rotate_live env con (rk_yes args) plan) (\<lambda>_. retA Finished))"

definition etcd_run ::
  "'w env \<Rightarrow> 'w console \<Rightarrow> etcd_subcommand \<Rightarrow> (anyhow, cluster_config) result option \<Rightarrow> ('w, run_end) act" where
  "etcd_run env con sub cfg =
     (case sub of
        Backup a \<Rightarrow> run_backup env con a cfg
      | Restore a \<Rightarrow> run_restore env con a cfg
      | RotateKey a \<Rightarrow> run_rotate_key env con a cfg)"

end
