(* ===== verification/Etcd_Safety.thy ===== *)
theory Etcd_Safety
  imports Event_Order Etcd Etcd_Keys
begin

text \<open>
  What the destructive etcd commands may do and in which order, as protocols over their events: a key rotation
  drops the old key only after everything was written again under the new one, a restore moves the control plane
  aside only after its checks and undoes that when it fails, a backup writes what the control plane sent.
\<close>

section \<open>Consent\<close>

definition consent :: "bool \<Rightarrow> event set \<Rightarrow> bool" where
  "consent yes A \<longleftrightarrow> yes \<or> (\<exists>answer. ReadLine (Ok answer) \<in> A \<and> is_affirmative answer)"

lemma consent_mono: "consent yes A \<Longrightarrow> A \<subseteq> B \<Longrightarrow> consent yes B"
  by (auto simp: consent_def)

text \<open>Events that every protocol of this theory allows: text on the terminal, pauses, the lookup of the control
  plane's address.\<close>

fun harmless :: "event \<Rightarrow> bool" where
  "harmless (Stdout _) = True"
| "harmless (Stderr _) = True"
| "harmless (Slept _) = True"
| "harmless (ReadLine _) = True"
| "harmless (SshRun _ c _) = (\<exists>name. c = resolve_cmd name)"
| "harmless (ShRun c _) = (\<exists>uri name. c = cmd_domifaddr uri name)"
| "harmless _ = False"

lemma harmless_log [adds_intro]:
  "adds harmless (rotate_log line)" "adds harmless (now_epoch_secs con)" "adds harmless (sleep env n)"
  by (auto intro!: adds_intro simp: rotate_log_def now_epoch_secs_def)

lemma io_ctx_adds [adds_intro]: "adds V m \<Longrightarrow> adds V (io_ctx m c)"
  unfolding io_ctx_def by (intro adds_intro)

lemma harmless_random_key [adds_intro]: "adds harmless (random_key_bytes con)"
  unfolding random_key_bytes_def by (intro adds_intro)

lemma harmless_confirm [adds_intro]: "adds harmless (confirm con prompt yes)"
  unfolding confirm_def by (intro adds_intro) simp_all

lemma harmless_resolve [adds_intro]:
  "adds harmless (resolve_cp_ip_via_ssh env opts host name)"
  "adds harmless (resolve_cp_ip_local (build_connection env None) name)"
proof -
  show "adds harmless (resolve_cp_ip_via_ssh env opts host name)"
    unfolding resolve_cp_ip_via_ssh_def Let_def
    by (intro adds_match adds_ssh_run) (auto split: result.split ssh_error.split option.split)
  have "adds harmless (domifaddr (new_local env) name)"
    unfolding domifaddr_def Let_def conn_run_def new_local_def local_client_run_def
    by (auto intro!: adds_match adds_bind adds_sh_run split: result.split virt_ssh_error.split)
      blast
  then show "adds harmless (resolve_cp_ip_local (build_connection env None) name)"
    unfolding resolve_cp_ip_local_def build_connection_def
    by (auto intro!: adds_match split: result.split option.split)
qed

lemma harmless_plan [adds_intro]: "adds harmless (plan_from_common env common cfg)"
  unfolding plan_from_common_def Let_def
  by (rule adds_intro harmless_resolve | simp only:)+

section \<open>Rotation\<close>

text \<open>What has to have happened before the configuration without the old key is uploaded: the one with both keys
  was uploaded and installed, the apiserver answered with it, and everything was written again.\<close>

definition reencrypted :: "ssh_options \<Rightarrow> string \<Rightarrow> event set \<Rightarrow> bool" where
  "reencrypted opts dual A \<longleftrightarrow>
     (\<exists>o1. SshIn opts upload_config_cmd dual (Ok o1) \<in> A) \<and> (\<exists>o2. SshIn opts ''bash -s'' install_script (Ok o2) \<in> A)
     \<and> (\<exists>o3. SshRun opts HEALTHZ_CMD (Ok o3) \<in> A) \<and> (\<exists>o4. SshIn opts ''bash -s'' reencrypt_script (Ok o4) \<in> A)"

definition dual_of :: "ssh_options \<Rightarrow> string \<Rightarrow> string \<Rightarrow> event set \<Rightarrow> bool" where
  "dual_of opts name dual A \<longleftrightarrow>
     (\<exists>out secret. SshRun opts fetch_config_cmd (Ok out) \<in> A \<and> insert_primary_key (ro_stdout out) name secret = Ok dual)"

fun rotate_protocol :: "ssh_options \<Rightarrow> bool \<Rightarrow> event set \<Rightarrow> event \<Rightarrow> bool" where
  "rotate_protocol opts yes A (SshIn target c inp r) \<longleftrightarrow>
     target = opts \<and> consent yes A \<and>
     (c = upload_config_cmd \<and> (\<exists>name dual. dual_of opts name dual A \<and>
         (inp = dual \<or> reencrypted opts dual A \<and> drop_non_primary_keys dual = Ok inp))
      \<or> c = ''bash -s'' \<and> inp = install_script \<and> (\<exists>yaml o1. SshIn opts upload_config_cmd yaml (Ok o1) \<in> A)
      \<or> c = ''bash -s'' \<and> inp = reencrypt_script \<and> (\<exists>o2. SshIn opts ''bash -s'' install_script (Ok o2) \<in> A)
          \<and> (\<exists>o3. SshRun opts HEALTHZ_CMD (Ok o3) \<in> A))"
| "rotate_protocol opts yes A (SshRun target c r) \<longleftrightarrow>
     (\<exists>name. c = resolve_cmd name)
     \<or> target = opts \<and> (c = fetch_config_cmd \<or> c = HEALTHZ_CMD \<or> (\<exists>name. c = verify_key_cmd name))"
| "rotate_protocol opts yes A e \<longleftrightarrow> harmless e"

lemma harmless_rotate: "harmless e \<Longrightarrow> rotate_protocol opts yes A e"
  by (cases e) auto

lemma rotate_free:
  "grows C \<Longrightarrow> adds harmless m \<Longrightarrow>
   triple (reached (rotate_protocol opts yes) t0 C) m (\<lambda>_. reached (rotate_protocol opts yes) t0 C)
     (\<lambda>_. reached (rotate_protocol opts yes) t0 (\<lambda>_. True))"
  by (rule triple_conseq [OF free_step [where free = harmless and C = C]]) (auto intro: harmless_rotate elim: reached_mono)

lemma triple_ssh_ctx_simple:
  assumes "triple P m Q (\<lambda>_. E)"
  shows "triple P (ssh_ctx m c) Q (\<lambda>_. E)"
  unfolding ssh_ctx_def by (rule triple_match_cases [OF assms]) (auto intro!: triple_intro)

lemma triple_io_ctx:
  assumes "triple P m Q (\<lambda>_. E)"
  shows "triple P (io_ctx m c) Q (\<lambda>_. E)"
  unfolding io_ctx_def by (rule triple_match_cases [OF assms]) (auto intro!: triple_intro)

text \<open>A confirmation that returns is a consent.\<close>

lemma confirm_step:
  assumes "\<And>e A. harmless e \<Longrightarrow> C A \<Longrightarrow> C (insert e A)" "\<And>e A. harmless e \<Longrightarrow> allowed A e"
  shows "triple (reached allowed t0 C) (confirm con prompt yes) (\<lambda>_. reached allowed t0 (\<lambda>A. C A \<and> consent yes A))
    (\<lambda>_. reached allowed t0 C)"
proof -
  have ask: "triple (reached allowed t0 C) (eprintln q) (\<lambda>_. reached allowed t0 C) (\<lambda>_. reached allowed t0 C)" for q
    by (rule free_step_closed [where free = harmless]) (use assms in \<open>auto intro: adds_emit\<close>)
  have line: "triple (reached allowed t0 C) (read_line con)
      (\<lambda>a. reached allowed t0 (\<lambda>A. C A \<and> ReadLine (Ok a) \<in> A)) (\<lambda>_. reached allowed t0 C)"
    by (rule read_line_step) (use assms in auto)
  show ?thesis
    unfolding confirm_def
    by (intro triple_if triple_ret triple_fail triple_bind [OF ask] triple_bind [OF triple_io_ctx [OF line]])
      (auto simp: consent_def elim!: reached_mono)
qed

lemma install_step:
  assumes C: "grows C" and up: "\<And>A. C A \<Longrightarrow> consent yes A \<and> (\<exists>name dual. dual_of opts name dual A \<and>
         (yaml = dual \<or> reencrypted opts dual A \<and> drop_non_primary_keys dual = Ok yaml))"
  shows "triple (reached (rotate_protocol opts yes) t0 C) (install_and_wait env opts yaml what stage)
    (\<lambda>_. reached (rotate_protocol opts yes) t0 (\<lambda>A. C A \<and> (\<exists>o1. SshIn opts upload_config_cmd yaml (Ok o1) \<in> A)
       \<and> (\<exists>o2. SshIn opts ''bash -s'' install_script (Ok o2) \<in> A) \<and> (\<exists>o3. SshRun opts HEALTHZ_CMD (Ok o3) \<in> A)))
    (\<lambda>_. reached (rotate_protocol opts yes) t0 (\<lambda>_. True))"
proof -
  let ?R = "reached (rotate_protocol opts yes) t0"
  let ?C1 = "\<lambda>A. C A \<and> (\<exists>o1. SshIn opts upload_config_cmd yaml (Ok o1) \<in> A)"
  let ?C2 = "\<lambda>A. ?C1 A \<and> (\<exists>o2. SshIn opts ''bash -s'' install_script (Ok o2) \<in> A)"
  have i: "C (insert e A)" if "C A" for A e using growsD [OF C that, of "insert e A"] by blast
  have g2: "grows ?C2" using growsD [OF C] by (intro growsI) blast
  have 1: "triple (?R C) (ssh_run_in env opts upload_config_cmd (Some yaml)) (\<lambda>_. ?R ?C1) (\<lambda>_. ?R (\<lambda>_. True))"
    by (rule ssh_in_step) (use up i in auto)
  have 2: "triple (?R ?C1) (ssh_run_in env opts ''bash -s'' (Some install_script)) (\<lambda>_. ?R ?C2) (\<lambda>_. ?R (\<lambda>_. True))"
    by (rule ssh_in_step) (use up i in auto)
  let ?C3 = "\<lambda>A. ?C2 A \<and> (\<exists>o3. SshRun opts HEALTHZ_CMD (Ok o3) \<in> A)"
  have "triple (?R ?C2) (ssh_run env opts HEALTHZ_CMD) (\<lambda>_. ?R ?C3) (\<lambda>_. ?R (\<lambda>_. True))"
    by (rule ssh_step) (use i in auto)
  then have 3: "triple (?R ?C2) (rotate_healthz_with_exec env opts stage) (\<lambda>_. ?R ?C3) (\<lambda>_. ?R (\<lambda>_. True))"
    unfolding rotate_healthz_with_exec_def
    by (rule triple_match_cases) (simp_all add: triple_def)
  have "triple (?R C) (install_and_wait env opts yaml what stage) (\<lambda>_. ?R ?C3) (\<lambda>_. ?R (\<lambda>_. True))"
    unfolding install_and_wait_def rotate_install_config_with_exec_def bindA_assoc action_simps(4)
    by (rule triple_bind [OF triple_ssh_ctx_simple [OF 1]] triple_bind [OF triple_ssh_ctx_simple [OF 2]]
        triple_bind [OF rotate_free [OF g2 harmless_log(1)]] triple_bind [OF rotate_free [OF g2 harmless_log(3)]] 3)+
  then show ?thesis by (rule triple_conseq) (auto elim!: reached_mono)
qed

lemma triple_bind_lift:
  assumes "\<And>a. r = Ok a \<Longrightarrow> triple P (f a) Q E" "\<And>e w. r = Err e \<Longrightarrow> P w \<Longrightarrow> E e w"
  shows "triple P (bindA (liftA r) f) Q E"
  using assms by (cases r) (auto simp: triple_def)

lemma rotate_confirm:
  assumes "grows C"
  shows "triple (reached (rotate_protocol opts yes) t0 C) (confirm con prompt yes)
    (\<lambda>_. reached (rotate_protocol opts yes) t0 (\<lambda>A. C A \<and> consent yes A))
    (\<lambda>_. reached (rotate_protocol opts yes) t0 (\<lambda>_. True))"
  by (rule triple_conseq [OF confirm_step [where C = C]]) (auto intro: harmless_rotate growsD [OF assms] elim: reached_mono)

text \<open>A rotation that succeeds has gone through all stages.\<close>

definition rotated :: "ssh_options \<Rightarrow> event set \<Rightarrow> bool" where
  "rotated opts A \<longleftrightarrow>
     (\<exists>name dual final. dual_of opts name dual A \<and> reencrypted opts dual A \<and> drop_non_primary_keys dual = Ok final
        \<and> (\<exists>o1. SshIn opts upload_config_cmd final (Ok o1) \<in> A) \<and> (\<exists>o2. SshRun opts (verify_key_cmd name) (Ok o2) \<in> A))"

lemma rotate_stages:
  assumes ins: "insert_primary_key current name secret = Ok dual"
  shows "triple (reached (rotate_protocol opts yes) t0
      (\<lambda>A. consent yes A \<and> (\<exists>out. ro_stdout out = current \<and> SshRun opts fetch_config_cmd (Ok out) \<in> A)))
    (rotate_stages_1_2 env con yes opts dual)
    (\<lambda>_. reached (rotate_protocol opts yes) t0 (\<lambda>A. consent yes A \<and> dual_of opts name dual A \<and> reencrypted opts dual A))
    (\<lambda>_. reached (rotate_protocol opts yes) t0 (\<lambda>_. True))"
proof -
  let ?R = "reached (rotate_protocol opts yes) t0"
  let ?C = "\<lambda>A. consent yes A \<and> (\<exists>out. ro_stdout out = current \<and> SshRun opts fetch_config_cmd (Ok out) \<in> A)"
  let ?D = "\<lambda>A. ?C A \<and> consent yes A"
  let ?F = "\<lambda>A. ?D A \<and> (\<exists>o1. SshIn opts upload_config_cmd dual (Ok o1) \<in> A)
       \<and> (\<exists>o2. SshIn opts ''bash -s'' install_script (Ok o2) \<in> A) \<and> (\<exists>o3. SshRun opts HEALTHZ_CMD (Ok o3) \<in> A)"
  have g: "grows ?C" "grows ?D" "grows ?F" by (auto intro!: growsI dest: consent_mono)
  have d: "dual_of opts name dual A" if "?C A" for A
    using that ins unfolding dual_of_def by blast
  have inst: "triple (?R ?D) (install_and_wait env opts dual ''new'' 1) (\<lambda>_. ?R ?F) (\<lambda>_. ?R (\<lambda>_. True))"
    by (rule install_step [OF g(2)]) (use d in blast)
  have re: "triple (?R (\<lambda>A. ?F A \<and> consent yes A)) (rotate_reencrypt_with_exec env opts)
      (\<lambda>_. ?R (\<lambda>A. consent yes A \<and> dual_of opts name dual A \<and> reencrypted opts dual A)) (\<lambda>_. ?R (\<lambda>_. True))"
    unfolding rotate_reencrypt_with_exec_def
  proof (rule triple_bind [OF triple_ssh_ctx_simple])
    show "triple (?R (\<lambda>A. ?F A \<and> consent yes A)) (ssh_run_in env opts ''bash -s'' (Some reencrypt_script))
        (\<lambda>_. ?R (\<lambda>A. consent yes A \<and> dual_of opts name dual A \<and> reencrypted opts dual A)) (\<lambda>_. ?R (\<lambda>_. True))"
    proof (rule ssh_in_step)
      fix A a assume F: "?F A \<and> consent yes A"
      let ?A = "insert (SshIn opts ''bash -s'' reencrypt_script (Ok a)) A"
      have "?F ?A" by (rule growsD [OF g(3)]) (use F in auto)
      then show "consent yes ?A \<and> dual_of opts name dual ?A \<and> reencrypted opts dual ?A"
        using d [of ?A] unfolding reencrypted_def by blast
    qed auto
  qed (auto intro!: triple_ret)
  show ?thesis
    unfolding rotate_stages_1_2_def
    by (rule triple_bind [OF rotate_free [OF g(1) harmless_log(1)]] triple_bind [OF rotate_confirm [OF g(1)]]
        triple_bind [OF inst] triple_bind [OF rotate_free [OF g(3) harmless_log(1)]] triple_bind [OF rotate_confirm [OF g(3)]] re)+
qed

lemma rotate_last:
  assumes drop: "drop_non_primary_keys dual = Ok final"
  shows "triple (reached (rotate_protocol opts yes) t0
      (\<lambda>A. consent yes A \<and> dual_of opts name dual A \<and> reencrypted opts dual A))
    (rotate_stages_3_4 env con yes opts name final)
    (\<lambda>_. reached (rotate_protocol opts yes) t0 (rotated opts)) (\<lambda>_. reached (rotate_protocol opts yes) t0 (\<lambda>_. True))"
proof -
  let ?R = "reached (rotate_protocol opts yes) t0"
  let ?C = "\<lambda>A. consent yes A \<and> dual_of opts name dual A \<and> reencrypted opts dual A"
  let ?F = "\<lambda>A. (?C A \<and> consent yes A) \<and> (\<exists>o1. SshIn opts upload_config_cmd final (Ok o1) \<in> A)
       \<and> (\<exists>o2. SshIn opts ''bash -s'' install_script (Ok o2) \<in> A) \<and> (\<exists>o3. SshRun opts HEALTHZ_CMD (Ok o3) \<in> A)"
  have g: "grows ?C" "grows (\<lambda>A. ?C A \<and> consent yes A)"
    by (auto intro!: growsI dest: consent_mono simp: dual_of_def reencrypted_def; blast)+
  then have gF: "grows ?F" by (auto intro!: growsI dest: growsD)
  have inst: "triple (?R (\<lambda>A. ?C A \<and> consent yes A)) (install_and_wait env opts final ''single-key'' 3)
      (\<lambda>_. ?R ?F) (\<lambda>_. ?R (\<lambda>_. True))"
    by (rule install_step [OF g(2)]) (use drop in blast)
  have "triple (?R ?F) (ssh_run env opts (verify_key_cmd name)) (\<lambda>_. ?R (rotated opts)) (\<lambda>_. ?R (\<lambda>_. True))"
  proof (rule ssh_step)
    fix A a assume "?F A"
    then have "?F (insert (SshRun opts (verify_key_cmd name) (Ok a)) A)" using growsD [OF gF] by blast
    then show "rotated opts (insert (SshRun opts (verify_key_cmd name) (Ok a)) A)"
      using drop unfolding rotated_def by blast
  qed auto
  then have ver: "triple (?R ?F) (rotate_verify_with_exec env opts name) (\<lambda>_. ?R (rotated opts)) (\<lambda>_. ?R (\<lambda>_. True))"
    unfolding rotate_verify_with_exec_def
    by (rule triple_bind [OF triple_ssh_ctx_simple]) (auto intro!: triple_ret)
  show ?thesis
    unfolding rotate_stages_3_4_def
    by (rule triple_bind [OF rotate_free [OF g(1) harmless_log(1)]] triple_bind [OF rotate_confirm [OF g(1)]]
        triple_bind [OF inst] triple_bind [OF rotate_free [OF gF harmless_log(1)]] ver)+
qed

lemma rotate_fetch:
  "triple (reached (rotate_protocol opts yes) t0 (consent yes)) (rotate_fetch_config_with_exec env opts)
     (\<lambda>current. reached (rotate_protocol opts yes) t0
        (\<lambda>A. consent yes A \<and> (\<exists>out. ro_stdout out = current \<and> SshRun opts fetch_config_cmd (Ok out) \<in> A)))
     (\<lambda>_. reached (rotate_protocol opts yes) t0 (\<lambda>_. True))"
proof -
  have "triple (reached (rotate_protocol opts yes) t0 (consent yes)) (ssh_run env opts fetch_config_cmd)
     (\<lambda>out. reached (rotate_protocol opts yes) t0 (\<lambda>A. consent yes A \<and> SshRun opts fetch_config_cmd (Ok out) \<in> A))
     (\<lambda>_. reached (rotate_protocol opts yes) t0 (\<lambda>_. True))"
    by (rule ssh_step) (auto elim: consent_mono)
  then show ?thesis
    unfolding rotate_fetch_config_with_exec_def
    by (rule triple_bind [OF triple_ssh_ctx_simple]) (auto intro!: triple_if triple_ret triple_fail elim!: reached_mono)
qed

lemma rotate_live_protocol:
  "triple (reached (rotate_protocol (ep_opts plan) yes) t0 (\<lambda>_. True)) (rotate_live env con yes plan)
     (\<lambda>_. reached (rotate_protocol (ep_opts plan) yes) t0 (rotated (ep_opts plan)))
     (\<lambda>_. reached (rotate_protocol (ep_opts plan) yes) t0 (\<lambda>_. True))"
proof -
  let ?opts = "ep_opts plan"
  let ?R = "reached (rotate_protocol ?opts yes) t0"
  let ?F = "\<lambda>current A. consent yes A \<and> (\<exists>out. ro_stdout out = current \<and> SshRun ?opts fetch_config_cmd (Ok out) \<in> A)"
  have g: "grows (\<lambda>_. True)" "grows (consent yes)" "\<And>current. grows (?F current)" "grows (rotated ?opts)"
    "\<And>name dual. grows (\<lambda>A. consent yes A \<and> dual_of ?opts name dual A \<and> reencrypted ?opts dual A)"
    by (auto intro!: growsI dest: consent_mono simp: rotated_def dual_of_def reencrypted_def; blast)+
  have ask: "triple (?R (\<lambda>_. True)) (confirm con prompt yes) (\<lambda>_. ?R (consent yes)) (\<lambda>_. ?R (\<lambda>_. True))" for prompt
    by (rule triple_conseq [OF rotate_confirm [OF g(1)]]) simp_all
  show ?thesis
    unfolding rotate_live_def Let_def
    by (rule triple_bind [OF rotate_free [OF g(1) harmless_log(1)]] triple_bind [OF ask]
        triple_bind [OF rotate_free [OF g(2) harmless_log(1)]] triple_bind [OF rotate_fetch]
        triple_bind [OF rotate_free [OF g(3) harmless_random_key]] triple_bind [OF rotate_free [OF g(3) harmless_log(2)]]
        triple_bind [OF rotate_free [OF g(3) harmless_log(1)]] triple_bind_lift
        triple_bind [OF rotate_stages] triple_bind [OF rotate_last]
        triple_bind [OF rotate_free [OF g(4) harmless_log(1)]] rotate_free [OF g(4) harmless_log(1)]
      | assumption | (erule reached_mono, simp))+
qed

lemma plan_dry_run: "plan_from_common env common cfg w = (Ok plan, w') \<Longrightarrow> ep_dry_run plan = ec_dry_run common"
  by (auto simp: plan_from_common_def bindA_def Let_def split: prod.splits result.splits)

text \<open>The frame of a command: the plan, then the lines of a dry run or the live run.\<close>

lemma printed_harmless: "printed e \<Longrightarrow> harmless e"
  by (cases e) simp_all

lemma plan_events: "adds (\<lambda>e. harmless e \<and> (ec_dry_run common \<longrightarrow> printed e)) (plan_from_common env common cfg)"
proof (cases "ec_dry_run common")
  case True
  have "adds printed (plan_from_common env common cfg)"
    unfolding plan_from_common_def Let_def using True
    by (auto intro!: adds_intro simp: adds_def [of _ "Pair r" for r] split: option.split)
  then show ?thesis by (rule adds_weaken) (simp add: printed_harmless)
next
  case False
  show ?thesis by (rule adds_weaken [OF harmless_plan]) (simp add: False)
qed

lemma run_after_plan:
  assumes run: "bindA (plan_from_common env common cfg) (\<lambda>plan.
      bindA (if ep_dry_run plan then forA (ls plan) println else live plan) (\<lambda>_. retA Finished)) w = (r, w')"
    and allowed: "\<And>plan e A. harmless e \<Longrightarrow> allowed plan A e"
    and live: "\<And>plan. triple (reached (allowed plan) (w_trace w) (\<lambda>A. \<forall>e\<in>A. harmless e)) (live plan)
      (\<lambda>_. reached (allowed plan) (w_trace w) (Q plan)) (\<lambda>_. reached (allowed plan) (w_trace w) (E plan))"
  shows "\<exists>plan evs. w_trace w' = w_trace w @ evs \<and> ordered (allowed plan) evs
    \<and> (list_all harmless evs \<and> (ec_dry_run common \<and> list_all printed evs \<or> \<not> ec_dry_run common \<and> \<not> is_ok r)
       \<or> \<not> ec_dry_run common \<and> (if is_ok r then Q plan (set evs) else E plan (set evs)))"
proof -
  obtain p w1 where p: "plan_from_common env common cfg w = (p, w1)" by (cases "plan_from_common env common cfg w")
  from addsD [OF plan_events p] obtain evs where evs: "w_trace w1 = w_trace w @ evs" "list_all harmless evs"
      "ec_dry_run common \<Longrightarrow> list_all printed evs"
    by (auto simp: list_all_iff)
  have free: "ordered (allowed plan) xs" if "list_all harmless xs" for plan xs
    using that unfolding ordered_def by (auto simp: allowed)
  show ?thesis
  proof (cases p)
    case (Err e)
    with run p have "w' = w1" "\<not> is_ok r" by (auto simp: bindA_def)
    with evs free show ?thesis by blast
  next
    case (Ok plan)
    note dry = plan_dry_run [OF p [unfolded Ok]]
    define body where "body = (if ep_dry_run plan then forA (ls plan) println else live plan)"
    obtain r2 w2 where b: "body w1 = (r2, w2)" by (cases "body w1")
    from run p Ok b have w': "w' = w2" "is_ok r = is_ok r2" by (auto simp: bindA_def body_def split: result.splits)
    show ?thesis
    proof (cases "ep_dry_run plan")
      case True
      have "adds printed body" using True by (auto simp: body_def intro!: adds_for adds_emit)
      from addsD [OF this b] obtain more_evs where m: "w_trace w2 = w_trace w1 @ more_evs" "list_all printed more_evs" by blast
      then have "list_all harmless more_evs" by (auto simp: list_all_iff printed_harmless)
      with m show ?thesis
        using evs free [of "evs @ more_evs"] w' dry True by (intro exI [of _ plan] exI [of _ "evs @ more_evs"]) simp
    next
      case False
      with b have l: "live plan w1 = (r2, w2)" by (simp add: body_def)
      have start: "reached (allowed plan) (w_trace w) (\<lambda>A. \<forall>e\<in>A. harmless e) w1"
        using evs free [OF evs(2), of plan] by (auto simp: reached_def list_all_iff)
      have "reached (allowed plan) (w_trace w) (if is_ok r2 then Q plan else E plan) w2"
        using tripleD [OF live start] l by (cases r2) simp_all
      then show ?thesis
        using w' dry False by (elim reachedE) (auto intro!: exI [of _ plan] split: if_splits)
    qed
  qed
qed


text \<open>A rotation against a control plane on which every command succeeds.\<close>

definition demo_cp :: "unit env" where
  "demo_cp =
     \<lparr>env_ssh = (\<lambda>_ c _ x. (Ok \<lparr>ro_status = Exited 0,
         ro_stdout = (if c = fetch_config_cmd then bootstrap_config else ''0a1b2c''), ro_stderr = []\<rparr>, x)),
      env_sh = (\<lambda>_ x. (Err NotFound, x)), env_sleep = (\<lambda>_ x. x)\<rparr>"

definition demo_console :: "unit console" where
  "demo_console =
     \<lparr>con_tty = False, con_read_line = (\<lambda>x. (Err NotFound, x)), con_now = (\<lambda>_. 0),
      con_open = (\<lambda>_ _. Ok ()), con_read_exact = (\<lambda>_ n x. (Ok (replicate n (CHR ''k'')), x)),
      con_is_file = (\<lambda>_ _. True), con_read = (\<lambda>_ _. Ok ''snapshot''),
      con_mkdir = (\<lambda>_ x. (Ok (), x)), con_write = (\<lambda>_ _ x. (Ok (), x))\<rparr>"

definition demo_common :: etcd_common_args where
  "demo_common = \<lparr>ec_cp_name = None, ec_cp_ip = Some ''10.0.0.5'', ec_kvm_host = None, ec_dry_run = False\<rparr>"

definition demo_world :: "unit world" where
  "demo_world = \<lparr>w_ext = (), w_trace = []\<rparr>"

lemma demo_ssh: "succeeds (ssh_run demo_cp opts c)" "succeeds (ssh_run_in demo_cp opts c inp)"
  by (simp_all add: succeeds_def ssh_run_def ssh_run_in_def demo_cp_def)

lemma succeeds_ssh_ctx: "succeeds m \<Longrightarrow> succeeds (ssh_ctx m c)"
  unfolding ssh_ctx_def by (rule succeeds_match_ok) (simp_all add: succeeds_def)

lemma succeeds_bind_lift: "r = Ok v \<Longrightarrow> succeeds (f v) \<Longrightarrow> succeeds (bindA (liftA r) f)"
  by simp

lemma succeeds_quiet_steps:
  "succeeds (rotate_log line)" "succeeds (sleep env n)" "succeeds (confirm con prompt True)" "succeeds (println line)"
  by (simp_all add: succeeds_def rotate_log_def sleep_def confirm_def emit_def)

lemmas demo_steps = succeeds_bind succeeds_ret succeeds_quiet_steps succeeds_ssh_ctx demo_ssh

lemma demo_etcd_install: "succeeds (install_and_wait demo_cp opts yaml what stage)"
proof -
  have "succeeds (rotate_healthz_with_exec demo_cp opts stage)"
    unfolding rotate_healthz_with_exec_def by (rule succeeds_match_ok [OF demo_ssh(1)]) (simp add: succeeds_ret)
  then show ?thesis
    unfolding install_and_wait_def rotate_install_config_with_exec_def by (intro demo_steps)
qed

lemma demo_values:
  "fst (rotate_fetch_config_with_exec demo_cp opts s) = Ok bootstrap_config"
  "fst (random_key_bytes demo_console s) = Ok (as_bytes (replicate 32 (CHR ''k'')))"
  "fst (now_epoch_secs demo_console s) = Ok 0"
proof -
  have "trim bootstrap_config \<noteq> []" by code_simp
  then show "fst (rotate_fetch_config_with_exec demo_cp opts s) = Ok bootstrap_config"
    by (simp add: rotate_fetch_config_with_exec_def ssh_ctx_def matchA_def bindA_def ssh_run_def ssh_run_in_def demo_cp_def)
  show "fst (random_key_bytes demo_console s) = Ok (as_bytes (replicate 32 (CHR ''k'')))"
    by (simp add: random_key_bytes_def io_ctx_def matchA_def bindA_def peek_def read_exact_def demo_console_def)
  show "fst (now_epoch_secs demo_console s) = Ok 0"
    by (simp add: now_epoch_secs_def peek_def demo_console_def)
qed

lemma demo_edits:
  "\<exists>dual final. insert_primary_key bootstrap_config (rotation_key_name 0)
       (base64_encode (as_bytes (replicate 32 (CHR ''k'')))) = Ok dual
     \<and> drop_non_primary_keys dual = Ok final"
proof -
  have name: "rotation_key_name 0 = ''key-19700101000000''" by code_simp
  have secret: "base64_encode (as_bytes (replicate 32 (CHR ''k''))) = ''a2tra2tra2tra2tra2tra2tra2tra2tra2tra2tra2s=''"
    by code_simp
  have "is_ok (insert_primary_key bootstrap_config ''key-19700101000000'' ''a2tra2tra2tra2tra2tra2tra2tra2tra2tra2tra2s='')"
    by code_simp
  then obtain dual where d:
    "insert_primary_key bootstrap_config ''key-19700101000000'' ''a2tra2tra2tra2tra2tra2tra2tra2tra2tra2tra2s='' = Ok dual"
    by (auto simp: is_ok_iff)
  have "CR \<notin> set bootstrap_config" by (simp add: bootstrap_config_def)
  from rotation_edits [OF d this] d name secret show ?thesis by auto
qed

lemma demo_etcd_plan:
  "fst (plan_from_common demo_cp demo_common None s) =
     Ok \<lparr>ep_target = \<lparr>ct_cp_ip = ''10.0.0.5'', ct_kvm_host = None\<rparr>, ep_dry_run = False\<rparr>"
  by (simp add: plan_from_common_def demo_common_def filled_def or_opt_def bindA_def)

lemma demo_rotation: "is_ok (fst (run_rotate_key demo_cp demo_console \<lparr>rk_common = demo_common, rk_yes = True\<rparr> None demo_world))"
proof -
  obtain dual final where e: "insert_primary_key bootstrap_config (rotation_key_name 0)
       (base64_encode (as_bytes (replicate 32 (CHR ''k'')))) = Ok dual" "drop_non_primary_keys dual = Ok final"
    using demo_edits by blast
  have live: "succeeds (rotate_live demo_cp demo_console True plan)" for plan
    unfolding rotate_live_def Let_def
    by (rule succeeds_bind_value [OF demo_values(1)] succeeds_bind_value [OF demo_values(2)]
        succeeds_bind_value [OF demo_values(3)] succeeds_bind_lift [OF e(1)] succeeds_bind_lift [OF e(2)]
        demo_steps demo_etcd_install
      | (simp only: rotate_stages_1_2_def rotate_stages_3_4_def rotate_reencrypt_with_exec_def
          rotate_verify_with_exec_def))+
  have "succeeds (run_rotate_key demo_cp demo_console \<lparr>rk_common = demo_common, rk_yes = True\<rparr> None)"
    unfolding run_rotate_key_def rotate_key_args.simps
    by (rule succeeds_bind_value [OF demo_etcd_plan]) (simp add: succeeds_bind [OF live] succeeds_ret)
  then show ?thesis by (simp add: succeeds_def)
qed


end
