(* ===== verification/Etcd_Restore.thy ===== *)
theory Etcd_Restore
  imports Etcd_Safety
begin

text \<open>
  The order of a restore and of a backup. A restore takes the control plane down only once its checks are done, and
  when its script fails the rollback is sent; a backup writes the bytes that the control plane sent and removes
  them there.
\<close>

section \<open>Restore\<close>

fun restore_protocol :: "ssh_options \<Rightarrow> bool \<Rightarrow> (string \<Rightarrow> bool) \<Rightarrow> event set \<Rightarrow> event \<Rightarrow> bool" where
  "restore_protocol opts yes snapshot A (SshIn target c inp r) \<longleftrightarrow>
     target = opts \<and> consent yes A \<and> (\<exists>out. SshRun opts PREFLIGHT_CMD (Ok out) \<in> A) \<and>
     (c = push_cmd \<and> snapshot inp
      \<or> c = ''bash -s'' \<and> (\<exists>bytes o1. snapshot bytes \<and> SshIn opts push_cmd bytes (Ok o1) \<in> A) \<and>
        ((\<exists>ts img. inp = restore_script ts img \<and> img \<noteq> [] \<and> list_all is_image_char img)
           \<and> (\<forall>old r'. SshIn opts ''bash -s'' old r' \<notin> A)
         \<or> inp = RESTORE_ROLLBACK_SCRIPT \<and> (\<exists>ts img e. SshIn opts ''bash -s'' (restore_script ts img) (Err e) \<in> A)))"
| "restore_protocol opts yes snapshot A (SshRun target c r) \<longleftrightarrow>
     (\<exists>name. c = resolve_cmd name)
     \<or> target = opts \<and> (c = PREFLIGHT_CMD \<or> c = ''crictl images'' \<or> c = kubectl_remote ''get nodes'')"
| "restore_protocol opts yes snapshot A e \<longleftrightarrow> harmless e"

text \<open>A restore that succeeded: the script went through, and after the pause the nodes were listed.\<close>

definition restored :: "ssh_options \<Rightarrow> event set \<Rightarrow> bool" where
  "restored opts A \<longleftrightarrow>
     (\<exists>ts img out. SshIn opts ''bash -s'' (restore_script ts img) (Ok out) \<in> A) \<and> Slept APISERVER_WARMUP_SECS \<in> A
     \<and> (\<exists>out. SshRun opts (kubectl_remote ''get nodes'') (Ok out) \<in> A)"

text \<open>A script that failed was followed by the rollback.\<close>

definition rolled_back :: "ssh_options \<Rightarrow> event set \<Rightarrow> bool" where
  "rolled_back opts A \<longleftrightarrow>
     (\<forall>ts img e. SshIn opts ''bash -s'' (restore_script ts img) (Err e) \<in> A
        \<longrightarrow> (\<exists>r. SshIn opts ''bash -s'' RESTORE_ROLLBACK_SCRIPT r \<in> A))"

text \<open>No script has been sent yet.\<close>

definition untouched :: "ssh_options \<Rightarrow> event set \<Rightarrow> bool" where
  "untouched opts A \<longleftrightarrow> (\<forall>old r. SshIn opts ''bash -s'' old r \<notin> A)"

fun no_script :: "event \<Rightarrow> bool" where
  "no_script (SshIn _ _ _ _) = False"
| "no_script _ = True"

lemma harmless_restore: "harmless e \<Longrightarrow> restore_protocol opts yes snapshot A e" "harmless e \<Longrightarrow> no_script e"
  by (cases e; simp; fail)+

lemma untouched_rolled_back: "untouched opts A \<Longrightarrow> rolled_back opts A"
  by (auto simp: untouched_def rolled_back_def)

lemma push_not_script: "push_cmd \<noteq> ''bash -s''"
  by (simp add: push_cmd_def)

lemma triple_given: "(V \<Longrightarrow> triple P m Q E) \<Longrightarrow> triple (\<lambda>w. V \<and> P w) m Q E"
  by (auto simp: triple_def)

lemma known_insert:
  "no_script e \<Longrightarrow> untouched opts (insert e A) = untouched opts A"
  "no_script e \<Longrightarrow> rolled_back opts A \<Longrightarrow> rolled_back opts (insert e A)"
  "consent yes A \<Longrightarrow> consent yes (insert e A)"
  by (auto simp: untouched_def rolled_back_def consent_def)

lemma restore_free:
  assumes "\<And>e A. harmless e \<Longrightarrow> C A \<Longrightarrow> C (insert e A)" "\<And>A. C A \<Longrightarrow> D A" "adds harmless m"
  shows "triple (reached (restore_protocol opts yes snapshot) t0 C) m (\<lambda>_. reached (restore_protocol opts yes snapshot) t0 C)
     (\<lambda>_. reached (restore_protocol opts yes snapshot) t0 D)"
  by (rule triple_conseq [OF free_step_closed [where free = harmless and C = C]])
    (use assms in \<open>auto intro: harmless_restore elim: reached_mono\<close>)

definition checked :: "ssh_options \<Rightarrow> bool \<Rightarrow> event set \<Rightarrow> bool" where
  "checked opts yes A \<longleftrightarrow> untouched opts A \<and> consent yes A \<and> (\<exists>out. SshRun opts PREFLIGHT_CMD (Ok out) \<in> A)"

definition pushed :: "ssh_options \<Rightarrow> bool \<Rightarrow> (string \<Rightarrow> bool) \<Rightarrow> event set \<Rightarrow> bool" where
  "pushed opts yes snapshot A \<longleftrightarrow>
     checked opts yes A \<and> (\<exists>bytes o1. snapshot bytes \<and> SshIn opts push_cmd bytes (Ok o1) \<in> A)"

lemma checked_insert: "no_script e \<Longrightarrow> checked opts yes A \<Longrightarrow> checked opts yes (insert e A)"
  "no_script e \<Longrightarrow> pushed opts yes snapshot A \<Longrightarrow> pushed opts yes snapshot (insert e A)"
  by (auto simp: checked_def pushed_def known_insert)

lemma checked_rolled_back: "checked opts yes A \<Longrightarrow> rolled_back opts A" "pushed opts yes snapshot A \<Longrightarrow> rolled_back opts A"
  by (auto simp: checked_def pushed_def untouched_rolled_back)

lemma restore_preflight_step:
  "triple (reached (restore_protocol opts yes snapshot) t0 (\<lambda>A. untouched opts A \<and> consent yes A))
     (restore_preflight_with_exec env opts) (\<lambda>_. reached (restore_protocol opts yes snapshot) t0 (checked opts yes))
     (\<lambda>_. reached (restore_protocol opts yes snapshot) t0 (rolled_back opts))"
  unfolding restore_preflight_with_exec_def
proof (rule triple_match_cases [OF ssh_step [where Q = "\<lambda>_. checked opts yes" and E = "\<lambda>_. rolled_back opts"]])
  fix e
  show "triple (reached (restore_protocol opts yes snapshot) t0 (rolled_back opts))
      (case Err e :: (ssh_error, run_output) result of
         Ok _ \<Rightarrow> retA ()
       | Err (NonZeroExit h status out err) \<Rightarrow> failA (msg h status out err)
       | Err e' \<Rightarrow> failA (other e'))
      (\<lambda>_. reached (restore_protocol opts yes snapshot) t0 (checked opts yes))
      (\<lambda>_. reached (restore_protocol opts yes snapshot) t0 (rolled_back opts))" for msg other
    by (cases e) (auto intro!: triple_fail)
qed (auto simp: checked_def known_insert untouched_rolled_back intro!: triple_ret)

lemma push_step:
  assumes "snapshot bytes"
  shows "triple (reached (restore_protocol opts yes snapshot) t0 (checked opts yes)) (push_snapshot_with_exec env opts bytes)
    (\<lambda>_. reached (restore_protocol opts yes snapshot) t0 (pushed opts yes snapshot))
    (\<lambda>_. reached (restore_protocol opts yes snapshot) t0 (rolled_back opts))"
proof -
  have "triple (reached (restore_protocol opts yes snapshot) t0 (checked opts yes)) (ssh_run_in env opts push_cmd (Some bytes))
    (\<lambda>_. reached (restore_protocol opts yes snapshot) t0 (pushed opts yes snapshot))
    (\<lambda>_. reached (restore_protocol opts yes snapshot) t0 (rolled_back opts))"
    by (rule ssh_in_step)
      (use assms push_not_script in \<open>auto simp: checked_def pushed_def untouched_def rolled_back_def consent_def\<close>)
  then show ?thesis
    unfolding push_snapshot_with_exec_def
    by (rule triple_bind [OF triple_ssh_ctx_simple]) (auto intro!: triple_ret)
qed

lemma detect_step:
  "triple (reached (restore_protocol opts yes snapshot) t0 (pushed opts yes snapshot)) (detect_etcd_image_with_exec env opts)
     (\<lambda>_. reached (restore_protocol opts yes snapshot) t0 (pushed opts yes snapshot))
     (\<lambda>_. reached (restore_protocol opts yes snapshot) t0 (rolled_back opts))"
  unfolding detect_etcd_image_with_exec_def
  by (rule triple_match_cases [OF ssh_step [where Q = "\<lambda>_. pushed opts yes snapshot" and E = "\<lambda>_. pushed opts yes snapshot"]])
    (auto simp: checked_insert split: ssh_error.split intro!: triple_ret triple_fail elim: reached_mono checked_rolled_back)

text \<open>The script: at most once, with a valid image, and the rollback after its failure.\<close>

lemma apply_step:
  "triple (reached (restore_protocol opts yes snapshot) t0 (pushed opts yes snapshot)) (restore_apply_with_exec env opts ts img)
     (\<lambda>_. reached (restore_protocol opts yes snapshot) t0
        (\<lambda>A. rolled_back opts A \<and> (\<exists>ts img out. SshIn opts ''bash -s'' (restore_script ts img) (Ok out) \<in> A)))
     (\<lambda>_. reached (restore_protocol opts yes snapshot) t0 (rolled_back opts))"
proof -
  let ?R = "reached (restore_protocol opts yes snapshot) t0"
  define failed where "failed = (\<lambda>A. consent yes A \<and> (\<exists>out. SshRun opts PREFLIGHT_CMD (Ok out) \<in> A)
     \<and> (\<exists>bytes o1. snapshot bytes \<and> SshIn opts push_cmd bytes (Ok o1) \<in> A)
     \<and> (\<exists>ts img e. SshIn opts ''bash -s'' (restore_script ts img) (Err e) \<in> A))"
  let ?done = "\<lambda>A. rolled_back opts A \<and> (\<exists>ts img out. SshIn opts ''bash -s'' (restore_script ts img) (Ok out) \<in> A)"
  have roll: "triple (?R failed) (ssh_run_in env opts ''bash -s'' (Some RESTORE_ROLLBACK_SCRIPT))
      (\<lambda>_. ?R (rolled_back opts)) (\<lambda>_. ?R (rolled_back opts))"
    by (rule ssh_in_step) (auto simp: rolled_back_def failed_def)
  have log: "triple (?R (rolled_back opts)) (eprintln q) (\<lambda>_. ?R (rolled_back opts)) (\<lambda>_. ?R (rolled_back opts))" for q
    by (rule restore_free) (auto simp: known_insert harmless_restore intro: adds_emit)
  have script: "triple (?R (pushed opts yes snapshot)) (ssh_run_in env opts ''bash -s'' (Some (restore_script ts img)))
      (\<lambda>_. ?R ?done) (\<lambda>_. ?R failed)" if "img \<noteq> []" "list_all is_image_char img"
  proof (rule ssh_in_step)
    fix A r assume "pushed opts yes snapshot A"
    then show "restore_protocol opts yes snapshot A (SshIn opts ''bash -s'' (restore_script ts img) r)"
      using that by (auto simp: pushed_def checked_def untouched_def)
  next
    fix A a assume "pushed opts yes snapshot A"
    then show "?done (insert (SshIn opts ''bash -s'' (restore_script ts img) (Ok a)) A)"
      by (auto simp: pushed_def checked_def untouched_def rolled_back_def)
  next
    fix A e assume "pushed opts yes snapshot A"
    then show "failed (insert (SshIn opts ''bash -s'' (restore_script ts img) (Err e)) A)"
      unfolding pushed_def checked_def failed_def using known_insert(3) by blast
  qed
  show ?thesis
    unfolding restore_apply_with_exec_def
  proof (rule triple_bind_lift)
    fix u assume "validate_image_ref img = Ok u"
    then have img: "img \<noteq> []" "list_all is_image_char img"
      by (auto simp: validate_image_ref_def split: if_splits)
    have undo: "triple (?R failed) (matchA (ssh_run_in env opts ''bash -s'' (Some RESTORE_ROLLBACK_SCRIPT)) (\<lambda>rollback.
        bindA (case rollback of Ok _ \<Rightarrow> retA t1 | Err re \<Rightarrow> bindA (eprintln (t2 re)) (\<lambda>_. retA t3)) (\<lambda>n. failA (t4 n))))
        (\<lambda>_. ?R ?done) (\<lambda>_. ?R (rolled_back opts))" for t1 t2 t3 t4
      by (rule triple_match_cases [OF roll])
        (simp_all only: result.case action_simps(4) bindA_assoc, (rule triple_fail triple_bind [OF log] | assumption)+)
    show "triple (?R (pushed opts yes snapshot))
       (matchA (ssh_run_in env opts ''bash -s'' (Some (restore_script ts img))) (\<lambda>r. case r of Ok out \<Rightarrow> retA (ro_stdout out)
          | Err e \<Rightarrow> matchA (ssh_run_in env opts ''bash -s'' (Some RESTORE_ROLLBACK_SCRIPT)) (\<lambda>rollback.
              bindA (case rollback of Ok _ \<Rightarrow> retA t1 | Err re \<Rightarrow> bindA (eprintln (t2 re)) (\<lambda>_. retA t3)) (\<lambda>n. failA (t4 n e)))))
       (\<lambda>_. ?R ?done) (\<lambda>_. ?R (rolled_back opts))" for t1 t2 t3 t4
      by (rule triple_match_cases [OF script [OF img]])
        (simp_all only: result.case undo, simp_all add: triple_def)
  qed (auto elim: reached_mono checked_rolled_back)
qed

definition scripted :: "ssh_options \<Rightarrow> event set \<Rightarrow> bool" where
  "scripted opts A \<longleftrightarrow> rolled_back opts A \<and> (\<exists>ts img out. SshIn opts ''bash -s'' (restore_script ts img) (Ok out) \<in> A)"

lemma scripted_insert: "no_script e \<Longrightarrow> scripted opts A \<Longrightarrow> scripted opts (insert e A)"
  by (auto simp: scripted_def known_insert)

lemma nodes_step:
  "triple (reached (restore_protocol (ct_ssh_opts target) yes snapshot) t0
       (\<lambda>A. scripted (ct_ssh_opts target) A \<and> Slept APISERVER_WARMUP_SECS \<in> A))
     (cp_kubectl_raw env target ''get nodes'')
     (\<lambda>_. reached (restore_protocol (ct_ssh_opts target) yes snapshot) t0
        (\<lambda>A. rolled_back (ct_ssh_opts target) A \<and> restored (ct_ssh_opts target) A))
     (\<lambda>_. reached (restore_protocol (ct_ssh_opts target) yes snapshot) t0 (rolled_back (ct_ssh_opts target)))"
proof -
  have "triple (reached (restore_protocol (ct_ssh_opts target) yes snapshot) t0
       (\<lambda>A. scripted (ct_ssh_opts target) A \<and> Slept APISERVER_WARMUP_SECS \<in> A))
     (ssh_run env (ct_ssh_opts target) (kubectl_remote ''get nodes''))
     (\<lambda>_. reached (restore_protocol (ct_ssh_opts target) yes snapshot) t0
        (\<lambda>A. rolled_back (ct_ssh_opts target) A \<and> restored (ct_ssh_opts target) A))
     (\<lambda>_. reached (restore_protocol (ct_ssh_opts target) yes snapshot) t0 (rolled_back (ct_ssh_opts target)))"
    by (rule ssh_step) (auto simp: scripted_def restored_def known_insert)
  then show ?thesis
    unfolding cp_kubectl_raw_def cp_kubectl_raw_with_exec_def
    by (intro triple_bind_lift triple_ssh_ctx_simple) (auto simp: scripted_def elim!: reached_mono)
qed

lemma restore_live_protocol:
  "triple (reached (restore_protocol (ep_opts plan) (ra_yes args) (\<lambda>b. \<exists>x. con_read con (ra_snapshot args) x = Ok b)) t0
       (untouched (ep_opts plan)))
     (restore_live env con args plan)
     (\<lambda>_. reached (restore_protocol (ep_opts plan) (ra_yes args) (\<lambda>b. \<exists>x. con_read con (ra_snapshot args) x = Ok b)) t0
        (\<lambda>A. rolled_back (ep_opts plan) A \<and> restored (ep_opts plan) A))
     (\<lambda>_. reached (restore_protocol (ep_opts plan) (ra_yes args) (\<lambda>b. \<exists>x. con_read con (ra_snapshot args) x = Ok b)) t0
        (rolled_back (ep_opts plan)))"
proof -
  let ?o = "ep_opts plan" and ?snap = "\<lambda>b. \<exists>x. con_read con (ra_snapshot args) x = Ok b"
  let ?R = "reached (restore_protocol ?o (ra_yes args) ?snap) t0"
  let ?slept = "\<lambda>A. scripted ?o A \<and> Slept APISERVER_WARMUP_SECS \<in> A"
  let ?fin = "\<lambda>A. rolled_back ?o A \<and> restored ?o A"
  have end_insert: "?fin (insert e A)" if "no_script e" "?fin A" for e A
    using that by (auto simp: known_insert restored_def)
  note free = restore_free [OF _ untouched_rolled_back] restore_free [OF _ checked_rolled_back(2)]
  have read: "triple (?R (untouched ?o)) (io_ctx (peek (con_read con (ra_snapshot args))) c)
      (\<lambda>bytes w. ?snap bytes \<and> ?R (untouched ?o) w) (\<lambda>_. ?R (rolled_back ?o))" for c
    by (auto simp: io_ctx_def peek_def matchA_def triple_def untouched_rolled_back elim!: reached_mono split: result.splits)
  have say1: "triple (?R (untouched ?o)) (println q) (\<lambda>_. ?R (untouched ?o)) (\<lambda>_. ?R (rolled_back ?o))" for q
    by (rule free(1)) (auto simp: known_insert harmless_restore intro: adds_emit)
  have ask: "triple (?R (untouched ?o)) (confirm con q (ra_yes args))
      (\<lambda>_. ?R (\<lambda>A. untouched ?o A \<and> consent (ra_yes args) A)) (\<lambda>_. ?R (rolled_back ?o))" for q
    by (rule triple_conseq [OF confirm_step [where C = "untouched ?o"]])
      (auto simp: known_insert harmless_restore untouched_rolled_back elim: reached_mono)
  have free2: "triple (?R (pushed ?o (ra_yes args) ?snap)) m (\<lambda>_. ?R (pushed ?o (ra_yes args) ?snap)) (\<lambda>_. ?R (rolled_back ?o))"
    if "adds harmless m" for m :: "('a, 'd) act"
    by (rule free(2) [OF _ _ that]) (auto simp: checked_insert harmless_restore)
  have free3: "triple (?R (scripted ?o)) (println q) (\<lambda>_. ?R (scripted ?o)) (\<lambda>_. ?R (rolled_back ?o))" for q
    by (rule restore_free) (auto simp: scripted_insert harmless_restore intro: adds_emit, simp add: scripted_def)
  have nap: "triple (?R (scripted ?o)) (sleep env APISERVER_WARMUP_SECS) (\<lambda>_. ?R ?slept) (\<lambda>_. ?R (rolled_back ?o))"
    by (rule step_triple [where ev = "\<lambda>_. Slept APISERVER_WARMUP_SECS"])
      (auto simp: scripted_insert sleep_def, simp add: scripted_def known_insert)
  have say4: "triple (?R ?fin) (println q) (\<lambda>_. ?R ?fin) (\<lambda>_. ?R (rolled_back ?o))" for q
    by (rule restore_free) (auto simp: end_insert harmless_restore intro: adds_emit)
  note script = apply_step [folded scripted_def]
  show ?thesis
    unfolding restore_live_def Let_def
    by (rule triple_bind [OF read] triple_given triple_bind [OF say1] triple_bind [OF ask]
        triple_bind [OF restore_preflight_step] triple_bind [OF push_step] triple_bind [OF detect_step]
        triple_bind [OF free2 [OF adds_emit]] triple_bind [OF free2 [OF harmless_log(2)]]
        triple_bind [OF script] triple_bind [OF free3] triple_bind [OF nap] triple_bind [OF triple_ctx [OF nodes_step]] say4
      | assumption | simp only: harmless.simps)+
qed

text \<open>C16. What a restore does to the control plane. Whatever the machines answer: the snapshot and the scripts are
  sent only after a consent and after the check for an interrupted restore passed; the bytes sent are those of the
  local file; the script that takes the control plane down is sent at most once, after the snapshot arrived, with an
  image of harmless characters; the rollback is sent only after that script failed, and whenever it failed.
  A restore that succeeds ran its script, waited, and listed the nodes; a dry run only prints.\<close>

theorem restore_order:
  assumes "run_restore env con args cfg w = (r, w')"
  shows "\<exists>opts evs. w_trace w' = w_trace w @ evs
    \<and> ordered (restore_protocol opts (ra_yes args) (\<lambda>b. \<exists>x. con_read con (ra_snapshot args) x = Ok b)) evs
    \<and> rolled_back opts (set evs)
    \<and> (if ec_dry_run (ra_common args) then list_all printed evs else is_ok r \<longrightarrow> restored opts (set evs))"
proof (cases "con_is_file con (ra_snapshot args) (w_ext w)")
  case False
  with assms show ?thesis by (auto simp: run_restore_def Let_def bindA_def peek_def rolled_back_def)
next
  case True
  let ?allowed = "\<lambda>plan. restore_protocol (ep_opts plan) (ra_yes args) (\<lambda>b. \<exists>x. con_read con (ra_snapshot args) x = Ok b)"
  from True assms have run: "bindA (plan_from_common env (ra_common args) cfg) (\<lambda>plan.
      bindA (if ep_dry_run plan then forA (restore_dry_run_lines (ep_ssh_target plan) (ra_snapshot args)) println
             else restore_live env con args plan) (\<lambda>_. retA Finished)) w = (r, w')"
    by (simp add: run_restore_def Let_def bindA_apply peek_def)
  have quiet_set: "rolled_back opts A" "untouched opts A" if "\<forall>e\<in>A. harmless e" for opts A
    using that by (auto simp: rolled_back_def untouched_def)
  have "triple (reached (?allowed plan) (w_trace w) (\<lambda>A. \<forall>e\<in>A. harmless e)) (restore_live env con args plan)
      (\<lambda>_. reached (?allowed plan) (w_trace w) (\<lambda>A. rolled_back (ep_opts plan) A \<and> restored (ep_opts plan) A))
      (\<lambda>_. reached (?allowed plan) (w_trace w) (rolled_back (ep_opts plan)))" for plan
    by (rule triple_conseq [OF restore_live_protocol]) (auto elim!: reached_mono intro: quiet_set(2))
  from run_after_plan [OF run harmless_restore(1) this] quiet_set(1) show ?thesis
    by (auto simp: list_all_iff split: if_splits)
qed

lemma demo_restore: "is_ok (fst (run_restore demo_cp demo_console
  \<lparr>ra_common = demo_common, ra_snapshot = ''snap.db'', ra_yes = True\<rparr> None demo_world))"
proof -
  let ?args = "\<lparr>ra_common = demo_common, ra_snapshot = ''snap.db'', ra_yes = True\<rparr> :: restore_args"
  have "fst (detect_etcd_image_with_exec demo_cp opts s) = Ok ETCD_IMAGE_FALLBACK" for opts s
  proof -
    have "pick_etcd_image ''0a1b2c'' = None" by code_simp
    then show ?thesis
      by (simp add: detect_etcd_image_with_exec_def matchA_def ssh_run_def ssh_run_in_def demo_cp_def fetch_config_cmd_def
          unwrap_or_def)
  qed
  note img = succeeds_bind_value [OF this]
  have valid: "validate_image_ref ETCD_IMAGE_FALLBACK = Ok ()" by code_simp
  have meta: "reject_shell_metachars ''cp_kubectl_raw'' ''get nodes'' = Ok ()" by code_simp
  have read: "fst (io_ctx (peek (con_read demo_console ''snap.db'')) c s) = Ok ''snapshot''" for c s
    by (simp add: io_ctx_def peek_def matchA_def demo_console_def)
  have pre: "succeeds (restore_preflight_with_exec demo_cp opts)" for opts
    unfolding restore_preflight_with_exec_def by (rule succeeds_match_ok [OF demo_ssh(1)]) (simp add: succeeds_ret)
  have script: "succeeds (restore_apply_with_exec demo_cp opts ts ETCD_IMAGE_FALLBACK)" for opts ts
    unfolding restore_apply_with_exec_def valid action_simps(6)
    by (rule succeeds_match_ok [OF demo_ssh(2)]) (simp add: succeeds_ret)
  have live: "succeeds (restore_live demo_cp demo_console ?args plan)" for plan
    unfolding restore_live_def Let_def restore_args.simps
    by (rule succeeds_bind_value [OF read] succeeds_bind_value [OF demo_values(3)] img succeeds_bind_lift [OF meta]
        demo_steps pre script succeeds_ctx
      | (simp only: push_snapshot_with_exec_def cp_kubectl_raw_def cp_kubectl_raw_with_exec_def))+
  have "succeeds (run_restore demo_cp demo_console ?args None)"
    unfolding run_restore_def Let_def
    by (rule succeeds_bind_value [where v = True], simp add: peek_def demo_console_def)
      (simp add: succeeds_bind_value [OF demo_etcd_plan] succeeds_bind [OF live] succeeds_ret)
  then show ?thesis by (simp add: succeeds_def)
qed

theorem restore_order_witness:
  "\<exists>opts evs. ordered (restore_protocol opts True (\<lambda>b. b = ''snapshot'')) evs \<and> rolled_back opts (set evs)
     \<and> restored opts (set evs)"
proof -
  let ?args = "\<lparr>ra_common = demo_common, ra_snapshot = ''snap.db'', ra_yes = True\<rparr> :: restore_args"
  obtain r w' where run: "run_restore demo_cp demo_console ?args None demo_world = (r, w')"
    by (cases "run_restore demo_cp demo_console ?args None demo_world")
  with demo_restore have "is_ok r" by simp
  moreover have "(\<lambda>b. \<exists>x. con_read demo_console (ra_snapshot ?args) x = Ok b) = (\<lambda>b. b = ''snapshot'')"
    by (auto simp: demo_console_def)
  ultimately show ?thesis using restore_order [OF run] by (auto simp: demo_common_def)
qed

section \<open>Backup\<close>

text \<open>What has to have happened before each step of a backup.\<close>

definition saved :: "ssh_options \<Rightarrow> string \<Rightarrow> event set \<Rightarrow> bool" where
  "saved opts remote A \<longleftrightarrow>
     (\<exists>cid o1 o2. list_all is_ascii_alphanumeric cid \<and> SshRun opts (snapshot_save_cmd cid remote) (Ok o1) \<in> A
        \<and> SshRun opts (snapshot_status_cmd cid remote) (Ok o2) \<in> A)"

definition fetched :: "ssh_options \<Rightarrow> string \<Rightarrow> string \<Rightarrow> event set \<Rightarrow> bool" where
  "fetched opts remote bytes A \<longleftrightarrow> saved opts remote A \<and> bytes \<noteq> []
     \<and> (\<exists>out. ro_stdout out = bytes \<and> SshRun opts (''cat '' @ remote) (Ok out) \<in> A)"

fun backup_protocol :: "ssh_options \<Rightarrow> string \<Rightarrow> string \<Rightarrow> event set \<Rightarrow> event \<Rightarrow> bool" where
  "backup_protocol opts remote dst A (SshRun target c r) \<longleftrightarrow>
     (\<exists>name. c = resolve_cmd name)
     \<or> target = opts \<and>
       (c = ''crictl ps --name etcd -q''
        \<or> (\<exists>cid. list_all is_ascii_alphanumeric cid \<and> (c = snapshot_save_cmd cid remote \<or> c = snapshot_status_cmd cid remote))
        \<or> c = ''cat '' @ remote \<and> saved opts remote A
        \<or> c = ''rm -f '' @ remote \<and> (\<exists>bytes. fetched opts remote bytes A))"
| "backup_protocol opts remote dst A (FileWrite path bytes r) \<longleftrightarrow>
     path = dst \<and> fetched opts remote bytes A \<and> (\<exists>out. SshRun opts (''rm -f '' @ remote) (Ok out) \<in> A)"
| "backup_protocol opts remote dst A (MakeDir dir r) \<longleftrightarrow> True"
| "backup_protocol opts remote dst A e \<longleftrightarrow> harmless e"

lemma harmless_backup: "harmless e \<Longrightarrow> backup_protocol opts remote dst A e"
  by (cases e) simp_all

lemma fetched_grows: "grows (saved opts remote)" "grows (fetched opts remote bytes)"
proof -
  show g: "grows (saved opts remote)" by (rule growsI) (unfold saved_def, blast)
  show "grows (fetched opts remote bytes)"
    by (rule growsI) (auto simp: fetched_def dest: growsD [OF g])
qed

lemma backup_free:
  "grows C \<Longrightarrow> adds harmless m \<Longrightarrow>
   triple (reached (backup_protocol opts remote dst) t0 C) m (\<lambda>_. reached (backup_protocol opts remote dst) t0 C)
     (\<lambda>_. reached (backup_protocol opts remote dst) t0 (\<lambda>_. True))"
  by (rule triple_conseq [OF free_step [where free = harmless and C = C]]) (auto intro: harmless_backup elim: reached_mono)

definition backed_up :: "ssh_options \<Rightarrow> string \<Rightarrow> string \<Rightarrow> event set \<Rightarrow> bool" where
  "backed_up opts remote bytes A \<longleftrightarrow> fetched opts remote bytes A \<and> (\<exists>out. SshRun opts (''rm -f '' @ remote) (Ok out) \<in> A)"

lemma valid_cid: "validate_container_id cid = Ok u \<Longrightarrow> list_all is_ascii_alphanumeric cid"
  by (auto simp: validate_container_id_def split: if_splits)

lemma backup_exec_step:
  "triple (reached (backup_protocol opts remote dst) t0 (\<lambda>_. True)) (backup_with_exec env opts remote)
     (\<lambda>bytes. reached (backup_protocol opts remote dst) t0 (backed_up opts remote bytes))
     (\<lambda>_. reached (backup_protocol opts remote dst) t0 (\<lambda>_. True))"
proof -
  let ?R = "reached (backup_protocol opts remote dst) t0"
  have ps: "triple (?R (\<lambda>_. True)) (ssh_ctx (ssh_run env opts ''crictl ps --name etcd -q'') c) (\<lambda>_. ?R (\<lambda>_. True))
      (\<lambda>_. ?R (\<lambda>_. True))" for c
    by (rule triple_ssh_ctx_simple, rule ssh_step) auto
  have save: "triple (?R (\<lambda>_. True)) (ssh_ctx (ssh_run env opts (snapshot_save_cmd cid remote)) c)
      (\<lambda>_. ?R (\<lambda>A. \<exists>o1. SshRun opts (snapshot_save_cmd cid remote) (Ok o1) \<in> A)) (\<lambda>_. ?R (\<lambda>_. True))"
    if "list_all is_ascii_alphanumeric cid" for cid c
    by (rule triple_ssh_ctx_simple, rule ssh_step) (use that in auto)
  have stat: "triple (?R (\<lambda>A. \<exists>o1. SshRun opts (snapshot_save_cmd cid remote) (Ok o1) \<in> A))
      (ssh_run env opts (snapshot_status_cmd cid remote)) (\<lambda>_. ?R (saved opts remote)) (\<lambda>_. ?R (\<lambda>_. True))"
    if "list_all is_ascii_alphanumeric cid" for cid
    by (rule ssh_step) (use that in \<open>auto simp: saved_def\<close>)
  have show_stat: "triple (?R (\<lambda>A. \<exists>o1. SshRun opts (snapshot_save_cmd cid remote) (Ok o1) \<in> A))
      (matchA (ssh_run env opts (snapshot_status_cmd cid remote)) (\<lambda>r. case r of
         Ok out \<Rightarrow> whenA (trim (ro_stdout out) \<noteq> []) (eprintln (ro_stdout out)) | Err e \<Rightarrow> failA (t e)))
      (\<lambda>_. ?R (saved opts remote)) (\<lambda>_. ?R (\<lambda>_. True))" if "list_all is_ascii_alphanumeric cid" for cid t
    by (rule triple_match_cases [OF stat [OF that]])
      (simp_all only: result.case,
       (rule backup_free [OF fetched_grows(1)] triple_fail adds_when adds_emit | simp only: harmless.simps | assumption)+)
  have cat: "triple (?R (saved opts remote)) (ssh_ctx (ssh_run env opts (''cat '' @ remote)) c)
      (\<lambda>out. ?R (\<lambda>A. saved opts remote A \<and> SshRun opts (''cat '' @ remote) (Ok out) \<in> A)) (\<lambda>_. ?R (\<lambda>_. True))" for c
    by (rule triple_ssh_ctx_simple, rule ssh_step) (auto intro: growsD [OF fetched_grows(1)])
  have rm: "triple (?R (\<lambda>A. saved opts remote A \<and> SshRun opts (''cat '' @ remote) (Ok out) \<in> A))
      (ssh_ctx (ssh_run env opts (''rm -f '' @ remote)) c)
      (\<lambda>_. ?R (backed_up opts remote (ro_stdout out))) (\<lambda>_. ?R (\<lambda>_. True))" if "ro_stdout out \<noteq> []" for out c
    by (rule triple_ssh_ctx_simple, rule ssh_step)
      (use that in \<open>auto simp: fetched_def backed_up_def intro: growsD [OF fetched_grows(1)]\<close>)
  show ?thesis
    unfolding backup_with_exec_def
    by (rule triple_bind [OF ps] triple_bind_lift triple_bind [OF save] triple_bind [OF show_stat] triple_bind [OF cat]
        triple_if triple_bind [OF rm] triple_fail triple_ret valid_cid
      | assumption | (erule reached_mono, rule TrueI))+
qed

definition remote_snapshot :: "string \<Rightarrow> string" where
  "remote_snapshot ts = REMOTE_SNAPSHOT_DIR @ ''/hbird-snapshot-'' @ ts @ ''.db''"

definition local_snapshot :: "backup_args \<Rightarrow> string option \<Rightarrow> string \<Rightarrow> string" where
  "local_snapshot args label ts =
     path_join (unwrap_or (or_opt (ba_outdir args) (ba_outdir_positional args)) ''./backups'') (snapshot_file_name ts label)"

text \<open>The live run of a backup with a label, up to its exit.\<close>

definition backup_live :: "'w env \<Rightarrow> 'w console \<Rightarrow> backup_args \<Rightarrow> string option \<Rightarrow> etcd_plan \<Rightarrow> ('w, unit) act" where
  "backup_live env con args label plan =
     bindA (now_epoch_secs con) (\<lambda>now.
     let ts = format_utc_timestamp now; dst = local_snapshot args label ts;
         outdir = unwrap_or (or_opt (ba_outdir args) (ba_outdir_positional args)) ''./backups'' in
     bindA (io_ctx (create_dir_all con outdir) (''create snapshot output directory '' @ outdir)) (\<lambda>_.
     bindA (println (''Snapshotting etcd on '' @ ct_cp_ip (ep_target plan) @ '' -> '' @ dst)) (\<lambda>_.
     bindA (backup_with_exec env (ep_opts plan) (remote_snapshot ts)) (\<lambda>bytes.
     bindA (io_ctx (fs_write con dst bytes) (''write etcd snapshot to '' @ dst)) (\<lambda>_.
     println (''Saved: '' @ dst @ ''  ('' @ human_size (length bytes) @ '')''))))))"

definition backup_label :: "backup_args \<Rightarrow> string option option" where
  "backup_label args = (case ba_label args of None \<Rightarrow> Some None | Some raw \<Rightarrow> map_option Some (sanitize_label raw))"

lemma bindA_if: "bindA (if b then m else l) f = (if b then bindA m f else bindA l f)"
  by simp

lemma run_backup_frame:
  "run_backup env con args cfg =
     (case backup_label args of
        None \<Rightarrow> bindA (eprintln ''--label resolved to empty after sanitize'') (\<lambda>_. retA (ExitCode 2))
      | Some label \<Rightarrow> bindA (plan_from_common env (ba_common args) cfg) (\<lambda>plan.
          bindA (if ep_dry_run plan
                 then forA (backup_dry_run_lines (ep_ssh_target plan) (local_snapshot args label ''<UTC-timestamp>'')
                        (remote_snapshot ''<UTC-timestamp>'')) println
                 else backup_live env con args label plan) (\<lambda>_. retA Finished)))"
  unfolding run_backup_def backup_live_def backup_label_def local_snapshot_def remote_snapshot_def Let_def
  by (cases "ba_label args") (simp_all add: bindA_assoc bindA_if cong: if_cong split: option.split)

lemma reached_weaken:
  assumes "reached allowed t0 C w" "\<And>A e. allowed A e \<Longrightarrow> allowed' A e"
  shows "reached allowed' t0 C w"
  using assms unfolding reached_def ordered_def by blast

lemma backup_live_protocol:
  "triple (reached (\<lambda>A e. \<exists>ts. backup_protocol (ep_opts plan) (remote_snapshot ts) (local_snapshot args label ts) A e) t0
       (\<lambda>A. \<forall>e\<in>A. harmless e))
     (backup_live env con args label plan)
     (\<lambda>_. reached (\<lambda>A e. \<exists>ts. backup_protocol (ep_opts plan) (remote_snapshot ts) (local_snapshot args label ts) A e) t0
       (\<lambda>A. \<exists>ts bytes. backed_up (ep_opts plan) (remote_snapshot ts) bytes A
          \<and> FileWrite (local_snapshot args label ts) bytes (Ok ()) \<in> A))
     (\<lambda>_. reached (\<lambda>A e. \<exists>ts. backup_protocol (ep_opts plan) (remote_snapshot ts) (local_snapshot args label ts) A e) t0
       (\<lambda>_. True))"
  (is "triple (reached ?all t0 ?H) _ (\<lambda>_. reached ?all t0 ?Q) _")
proof -
  have grow: "grows (backed_up opts remote bytes)" for opts remote bytes
    by (rule growsI) (auto simp: backed_up_def dest: growsD [OF fetched_grows(2)])
  have inner: "triple (reached ?all t0 ?H) m (\<lambda>_. reached ?all t0 ?Q) (\<lambda>_. reached ?all t0 (\<lambda>_. True))"
    if "triple (reached (backup_protocol (ep_opts plan) (remote_snapshot ts) (local_snapshot args label ts)) t0 (\<lambda>_. True)) m
      (\<lambda>_. reached (backup_protocol (ep_opts plan) (remote_snapshot ts) (local_snapshot args label ts)) t0
        (\<lambda>A. \<exists>bytes. backed_up (ep_opts plan) (remote_snapshot ts) bytes A \<and> FileWrite (local_snapshot args label ts) bytes (Ok ()) \<in> A))
      (\<lambda>_. reached (backup_protocol (ep_opts plan) (remote_snapshot ts) (local_snapshot args label ts)) t0 (\<lambda>_. True))"
    for m :: "('a, unit) act" and ts
  proof (rule triple_conseq [OF that])
    fix s assume "reached ?all t0 ?H s"
    then show "reached (backup_protocol (ep_opts plan) (remote_snapshot ts) (local_snapshot args label ts)) t0 (\<lambda>_. True) s"
      by (auto simp: reached_def ordered_def harmless_backup)
  qed (rule reached_mono, erule reached_weaken, blast+)+
  have now: "triple (reached ?all t0 ?H) (now_epoch_secs con) (\<lambda>_. reached ?all t0 ?H) (\<lambda>_. reached ?all t0 (\<lambda>_. True))"
    by (simp add: triple_def now_epoch_secs_def peek_def)
  show ?thesis
    unfolding backup_live_def Let_def
  proof (rule triple_bind [OF now], rule inner)
    fix n
    let ?ts = "format_utc_timestamp n"
    let ?dst = "local_snapshot args label ?ts"
    let ?R = "reached (backup_protocol (ep_opts plan) (remote_snapshot ?ts) ?dst) t0"
    have g: "grows (\<lambda>_. True)" by (simp add: grows_def)
    have mk: "triple (?R (\<lambda>_. True)) (io_ctx (create_dir_all con d) c) (\<lambda>_. ?R (\<lambda>_. True)) (\<lambda>_. ?R (\<lambda>_. True))" for d c
      by (rule triple_io_ctx, rule step_triple [where ev = "MakeDir d"]) (auto simp: create_dir_all_def split: prod.splits)
    let ?fin = "\<lambda>bytes A. backed_up (ep_opts plan) (remote_snapshot ?ts) bytes A \<and> FileWrite ?dst bytes (Ok ()) \<in> A"
    have wr: "triple (?R (backed_up (ep_opts plan) (remote_snapshot ?ts) bytes)) (io_ctx (fs_write con ?dst bytes) c)
        (\<lambda>_. ?R (?fin bytes)) (\<lambda>_. ?R (\<lambda>_. True))" for bytes c
      by (rule triple_io_ctx, rule write_step) (auto simp: backed_up_def intro: growsD [OF fetched_grows(2)])
    have gf: "grows (?fin bytes)" for bytes
      using grow by (auto simp: grows_def)
    show "triple (?R (\<lambda>_. True)) (bindA (io_ctx (create_dir_all con d) c) (\<lambda>_. bindA (println q) (\<lambda>_.
        bindA (backup_with_exec env (ep_opts plan) (remote_snapshot ?ts)) (\<lambda>bytes.
        bindA (io_ctx (fs_write con ?dst bytes) c') (\<lambda>_. println (q' bytes))))))
       (\<lambda>_. ?R (\<lambda>A. \<exists>bytes. ?fin bytes A)) (\<lambda>_. ?R (\<lambda>_. True))" for d c c' q q'
      by (rule triple_bind [OF mk] triple_bind [OF backup_free [OF g adds_emit]] triple_bind [OF backup_exec_step]
          triple_bind [OF wr] triple_conseq [OF backup_free [OF gf adds_emit]]
        | assumption | simp only: harmless.simps | (erule reached_mono, blast))+
  qed
qed

text \<open>C17. A backup keeps what it fetched. The commands sent are those of the protocol, with an alphanumeric
  container name; the copy on the control plane is read only after it was saved and checked, and removed only after
  a non-empty copy was received; the only file written is the snapshot of the same timestamp, with exactly the
  bytes received. A backup that finishes has written it. A label that is empty after cleaning ends with exit
  code 2 and no event but its message; a dry run only prints.\<close>

theorem backup_order:
  assumes "run_backup env con args cfg w = (r, w')"
  shows "case backup_label args of
      None \<Rightarrow> r = Ok (ExitCode 2) \<and> w_trace w' = w_trace w @ [Stderr ''--label resolved to empty after sanitize'']
    | Some label \<Rightarrow> \<exists>opts evs. w_trace w' = w_trace w @ evs
        \<and> ordered (\<lambda>A e. \<exists>ts. backup_protocol opts (remote_snapshot ts) (local_snapshot args label ts) A e) evs
        \<and> (if ec_dry_run (ba_common args) then list_all printed evs
            else is_ok r \<longrightarrow> (\<exists>ts bytes. backed_up opts (remote_snapshot ts) bytes (set evs)
              \<and> FileWrite (local_snapshot args label ts) bytes (Ok ()) \<in> set evs))"
proof (cases "backup_label args")
  case None
  with assms show ?thesis by (auto simp: run_backup_frame bindA_def emit_def)
next
  case (Some label)
  have h: "harmless e \<Longrightarrow> \<exists>ts. backup_protocol (ep_opts plan) (remote_snapshot ts) (local_snapshot args label ts) A e"
    for e A plan by (auto intro: harmless_backup)
  from assms Some have "bindA (plan_from_common env (ba_common args) cfg) (\<lambda>plan.
          bindA (if ep_dry_run plan
                 then forA (backup_dry_run_lines (ep_ssh_target plan) (local_snapshot args label ''<UTC-timestamp>'')
                        (remote_snapshot ''<UTC-timestamp>'')) println
                 else backup_live env con args label plan) (\<lambda>_. retA Finished)) w = (r, w')"
    by (simp add: run_backup_frame)
  from run_after_plan [OF this h backup_live_protocol] Some show ?thesis
    by (auto split: if_splits)
qed

lemma demo_backup:
  "is_ok (fst (run_backup demo_cp demo_console
     \<lparr>ba_common = demo_common, ba_outdir = None, ba_outdir_positional = None, ba_label = None\<rparr> None demo_world))"
proof -
  let ?args = "\<lparr>ba_common = demo_common, ba_outdir = None, ba_outdir_positional = None, ba_label = None\<rparr> :: backup_args"
  let ?out = "\<lparr>ro_status = Exited 0, ro_stdout = ''0a1b2c'', ro_stderr = []\<rparr> :: run_output"
  have answer: "fst (ssh_ctx (ssh_run demo_cp opts c) t s) = Ok ?out" if "c \<noteq> fetch_config_cmd" for opts c t s
    using that by (simp add: ssh_ctx_def matchA_def ssh_run_def ssh_run_in_def demo_cp_def)
  have cmds: "''crictl ps --name etcd -q'' \<noteq> fetch_config_cmd" "snapshot_save_cmd cid (remote_snapshot ts) \<noteq> fetch_config_cmd"
    "''cat '' @ remote_snapshot ts \<noteq> fetch_config_cmd" for ts cid
    by (simp_all add: fetch_config_cmd_def snapshot_save_cmd_def remote_snapshot_def REMOTE_SNAPSHOT_DIR_def ENCRYPTION_CONFIG_def)
  have cid: "ok_or e (parse_etcd_container_id (ro_stdout ?out)) = Ok ''0a1b2c''" for e :: anyhow
  proof -
    have "parse_etcd_container_id ''0a1b2c'' = Some ''0a1b2c''" by code_simp
    then show ?thesis by (simp add: ok_or_def)
  qed
  have valid: "validate_container_id ''0a1b2c'' = Ok ()" by code_simp
  have stat: "succeeds (matchA (ssh_run demo_cp opts c) (\<lambda>r. case r of
         Ok out \<Rightarrow> whenA (trim (ro_stdout out) \<noteq> []) (eprintln (ro_stdout out)) | Err e \<Rightarrow> failA (t e)))" for opts c t
    by (rule succeeds_match_ok [OF demo_ssh(1)]) (simp add: succeeds_when succeeds_emit)
  have "fst (fs_write demo_console d b s) = Ok ()" "fst (create_dir_all demo_console d s) = Ok ()" for d b s
    by (simp_all add: fs_write_def create_dir_all_def demo_console_def split: prod.split)
  then have files: "succeeds (io_ctx (fs_write demo_console d b) c)" "succeeds (io_ctx (create_dir_all demo_console d) c)" for d b c
    unfolding io_ctx_def by (intro succeeds_match_ok; simp add: succeeds_def)+
  have exec: "succeeds (backup_with_exec demo_cp opts (remote_snapshot ts))" for opts ts
    unfolding backup_with_exec_def
    by (rule succeeds_bind_value [OF answer [OF cmds(1)]] succeeds_bind_lift [OF cid] succeeds_bind_lift [OF valid]
        succeeds_bind_value [OF answer [OF cmds(2)]] succeeds_bind [OF stat] succeeds_bind_value [OF answer [OF cmds(3)]])+
      (simp add: succeeds_bind succeeds_ssh_ctx demo_ssh succeeds_ret)
  have "succeeds (backup_live demo_cp demo_console ?args None plan)" for plan
    unfolding backup_live_def Let_def by (rule succeeds_bind_value [OF demo_values(3)] demo_steps files exec)+
  then have "succeeds (run_backup demo_cp demo_console ?args None)"
    by (simp add: run_backup_frame backup_label_def succeeds_bind_value [OF demo_etcd_plan] succeeds_bind succeeds_ret)
  then show ?thesis by (simp add: succeeds_def)
qed

theorem backup_order_witness:
  "\<exists>opts args evs ts bytes. ordered (\<lambda>A e. \<exists>ts. backup_protocol opts (remote_snapshot ts) (local_snapshot args None ts) A e) evs
     \<and> backed_up opts (remote_snapshot ts) bytes (set evs) \<and> FileWrite (local_snapshot args None ts) bytes (Ok ()) \<in> set evs"
proof -
  let ?args = "\<lparr>ba_common = demo_common, ba_outdir = None, ba_outdir_positional = None, ba_label = None\<rparr> :: backup_args"
  obtain r w' where run: "run_backup demo_cp demo_console ?args None demo_world = (r, w')"
    by (cases "run_backup demo_cp demo_console ?args None demo_world")
  with demo_backup have "is_ok r" by simp
  moreover have "backup_label ?args = Some None" by (simp add: backup_label_def)
  ultimately show ?thesis using backup_order [OF run] by (simp add: demo_common_def) blast
qed

end
