(* ===== verification/Minijson.thy ===== *)
theory Minijson
  imports Prelude "HOL-Library.Word"
begin

text \<open>
  The JSON reader of \<open>commands/switch_to_ghcr.rs\<close> (\<open>mod minijson\<close>). The byte cursor is the input that is left. A
  byte above 127 is copied alone where the code copies a whole UTF-8 scalar: the input is a \<open>str\<close>, so the bytes that
  follow are above 127 too and are copied next. Characters pushed from \<open>\u\<close> escapes are their UTF-8 bytes.
\<close>

section \<open>Values\<close>

datatype json = JNull | JBool bool | JNumber string | JStr string | JArray "json list" | JObject "(string \<times> json) list"

definition MAX_DEPTH :: nat where "MAX_DEPTH = 64"

fun json_get :: "json \<Rightarrow> string \<Rightarrow> json option" where
  "json_get (JObject entries) key = map_option snd (find (\<lambda>(k, _). k = key) entries)"
| "json_get _ key = None"

fun as_str :: "json \<Rightarrow> string option" where
  "as_str (JStr s) = Some s"
| "as_str _ = None"

section \<open>The cursor\<close>

type_synonym 'a parser = "string \<Rightarrow> ('a \<times> string) option"

definition is_json_ws :: "char \<Rightarrow> bool" where
  "is_json_ws c \<longleftrightarrow> c \<in> {CHR '' '', CHR 0x09, CHR 0x0A, CHR 0x0D}"

definition skip_ws :: "string \<Rightarrow> string" where
  "skip_ws s = dropWhile is_json_ws s"

fun eat :: "char \<Rightarrow> string \<Rightarrow> string option" where
  "eat c [] = None"
| "eat c (x # r) = (if x = c then Some r else None)"

definition json_keyword :: "string \<Rightarrow> json \<Rightarrow> json parser" where
  "json_keyword word v s = map_option (\<lambda>r. (v, r)) (strip_prefix word s)"

section \<open>Numbers\<close>

text \<open>At least one digit, then the rest.\<close>

definition digits1 :: "string parser" where
  "digits1 s =
     (if takeWhile is_ascii_digit s = [] then None
      else Some (takeWhile is_ascii_digit s, dropWhile is_ascii_digit s))"

definition json_frac :: "string parser" where
  "json_frac s =
     (case eat (CHR ''.'') s of
        None \<Rightarrow> Some ([], s)
      | Some r \<Rightarrow> map_option (\<lambda>(ds, r'). (CHR ''.'' # ds, r')) (digits1 r))"

definition json_exp :: "string parser" where
  "json_exp s =
     (case s of
        [] \<Rightarrow> Some ([], s)
      | c # r \<Rightarrow>
          if c = CHR ''e'' \<or> c = CHR ''E'' then
            (case r of
               x # r' \<Rightarrow>
                 if x = CHR ''+'' \<or> x = CHR ''-'' then map_option (\<lambda>(ds, r''). (c # x # ds, r'')) (digits1 r')
                 else map_option (\<lambda>(ds, r''). (c # ds, r'')) (digits1 r)
             | [] \<Rightarrow> None)
          else Some ([], s))"

definition json_number :: "string parser" where
  "json_number s =
     (let (sign, s1) = (case eat (CHR ''-'') s of None \<Rightarrow> ([], s) | Some r \<Rightarrow> (''-'', r)) in
      Option.bind (digits1 s1) (\<lambda>(ds, s2).
      Option.bind (json_frac s2) (\<lambda>(frac, s3).
      Option.bind (json_exp s3) (\<lambda>(ex, s4).
      Some (sign @ ds @ frac @ ex, s4)))))"

section \<open>Strings\<close>

definition hex_val :: "char \<Rightarrow> nat" where
  "hex_val c =
     (let n = (of_char c :: nat) in if n \<le> 57 then n - 48 else if n \<le> 70 then n - 55 else n - 87)"

text \<open>\<open>u32::from_str_radix(text, 16)\<close>, which also takes a leading plus.\<close>

definition from_radix16 :: "string \<Rightarrow> nat option" where
  "from_radix16 text =
     (let ds = (case text of c # r \<Rightarrow> if c = CHR ''+'' then r else text | [] \<Rightarrow> text) in
      if ds = [] \<or> \<not> list_all is_ascii_hexdigit ds then None
      else Some (foldl (\<lambda>a c. 16 * a + hex_val c) 0 ds))"

definition hex4 :: "nat parser" where
  "hex4 s = (if length s < 4 then None else map_option (\<lambda>n. (n, drop 4 s)) (from_radix16 (take 4 s)))"

text \<open>\<open>char::from_u32\<close>, as the UTF-8 bytes of the character.\<close>

definition utf8 :: "nat \<Rightarrow> string" where
  "utf8 n = map char_of
     (if n < 0x80 then [n]
      else if n < 0x800 then [0xC0 + n div 64, 0x80 + n mod 64]
      else if n < 0x10000 then [0xE0 + n div 4096, 0x80 + n div 64 mod 64, 0x80 + n mod 64]
      else [0xF0 + n div 262144, 0x80 + n div 4096 mod 64, 0x80 + n div 64 mod 64, 0x80 + n mod 64])"

definition char_from_u32 :: "nat \<Rightarrow> string option" where
  "char_from_u32 n = (if 0x10FFFF < n \<or> 0xD800 \<le> n \<and> n \<le> 0xDFFF then None else Some (utf8 n))"

definition unicode_escape :: "string parser" where
  "unicode_escape s =
     Option.bind (hex4 s) (\<lambda>(first, s1).
     if 0xD800 \<le> first \<and> first \<le> 0xDBFF then
       Option.bind (eat (CHR 0x5C) s1) (\<lambda>s2.
       Option.bind (eat (CHR ''u'') s2) (\<lambda>s3.
       Option.bind (hex4 s3) (\<lambda>(second, s4).
       if \<not> (0xDC00 \<le> second \<and> second \<le> 0xDFFF) then None
       else map_option (\<lambda>b. (b, s4)) (char_from_u32 (0x10000 + (first - 0xD800) * 1024 + (second - 0xDC00))))))
     else map_option (\<lambda>b. (b, s1)) (char_from_u32 first))"

lemma eat_length: "eat c s = Some r \<Longrightarrow> length s = Suc (length r)"
  by (cases s) (auto split: if_splits)

lemma hex4_length: "hex4 s = Some (n, r) \<Longrightarrow> length r < length s"
  by (auto simp: hex4_def split: if_splits)

lemma unicode_escape_length: "unicode_escape s = Some (b, r) \<Longrightarrow> length r < length s"
  by (auto simp: unicode_escape_def Option.bind_eq_Some_conv split: if_splits dest!: eat_length hex4_length)

text \<open>The one-letter escapes.\<close>

definition plain_escape :: "char \<Rightarrow> char option" where
  "plain_escape c = map_of
     [(CHR 0x22, CHR 0x22), (CHR 0x5C, CHR 0x5C), (CHR ''/'', CHR ''/''), (CHR ''b'', CHR 0x08), (CHR ''f'', CHR 0x0C),
      (CHR ''n'', CHR 0x0A), (CHR ''r'', CHR 0x0D), (CHR ''t'', CHR 0x09)] c"

definition push :: "string \<Rightarrow> (string \<times> string) option \<Rightarrow> (string \<times> string) option" where
  "push b = map_option (\<lambda>(t, r). (b @ t, r))"

function string_body :: "string parser" where
  "string_body [] = None"
| "string_body (c # r) =
     (if c = CHR 0x22 then Some ([], r)
      else if c = CHR 0x5C then
        (case r of
           [] \<Rightarrow> None
         | x # r2 \<Rightarrow>
             if x = CHR ''u'' then
               (case unicode_escape r2 of None \<Rightarrow> None | Some (b, r3) \<Rightarrow> push b (string_body r3))
             else (case plain_escape x of None \<Rightarrow> None | Some y \<Rightarrow> push [y] (string_body r2)))
      else if (of_char c :: nat) < 0x20 then None
      else push [c] (string_body r))"
  by pat_completeness auto
termination
  by (relation "measure length") (auto dest: unicode_escape_length)

definition json_string :: "string parser" where
  "json_string s = Option.bind (eat (CHR 0x22) s) string_body"

section \<open>Values, arrays, objects\<close>

text \<open>The arms of \<open>value\<close> that do not recurse; the other two start with a bracket.\<close>

definition json_scalar :: "json parser" where
  "json_scalar s =
     (case s of
        [] \<Rightarrow> None
      | c # r \<Rightarrow>
          if c = CHR ''n'' then json_keyword ''null'' JNull s
          else if c = CHR ''t'' then json_keyword ''true'' (JBool True) s
          else if c = CHR ''f'' then json_keyword ''false'' (JBool False) s
          else if c = CHR 0x22 then map_option (\<lambda>(t, r'). (JStr t, r')) (json_string s)
          else if c = CHR ''-'' \<or> is_ascii_digit c then map_option (\<lambda>(t, r'). (JNumber t, r')) (json_number s)
          else None)"

function json_value :: "nat \<Rightarrow> json parser" and json_items :: "nat \<Rightarrow> json list parser"
  and json_entries :: "nat \<Rightarrow> (string \<times> json) list parser" where
  "json_value depth s =
     (if MAX_DEPTH < depth then None
      else case eat (CHR ''['') (skip_ws s) of
        Some r \<Rightarrow>
          (case eat (CHR '']'') (skip_ws r) of
             Some r' \<Rightarrow> Some (JArray [], r')
           | None \<Rightarrow> map_option (\<lambda>(xs, r'). (JArray xs, r')) (json_items depth (skip_ws r)))
      | None \<Rightarrow>
          (case eat (CHR ''{'') (skip_ws s) of
             Some r \<Rightarrow>
               (case eat (CHR ''}'') (skip_ws r) of
                  Some r' \<Rightarrow> Some (JObject [], r')
                | None \<Rightarrow> map_option (\<lambda>(es, r'). (JObject es, r')) (json_entries depth (skip_ws r)))
           | None \<Rightarrow> json_scalar (skip_ws s)))"
| "json_items depth s =
     (case json_value (depth + 1) s of
        None \<Rightarrow> None
      | Some (v, s1) \<Rightarrow>
          (case eat (CHR '','') (skip_ws s1) of
             Some s2 \<Rightarrow> map_option (\<lambda>(vs, r). (v # vs, r)) (json_items depth s2)
           | None \<Rightarrow> map_option (\<lambda>r. ([v], r)) (eat (CHR '']'') (skip_ws s1))))"
| "json_entries depth s =
     (case json_string (skip_ws s) of
        None \<Rightarrow> None
      | Some (k, s1) \<Rightarrow>
          (case eat (CHR '':'') (skip_ws s1) of
             None \<Rightarrow> None
           | Some s2 \<Rightarrow>
               (case json_value (depth + 1) s2 of
                  None \<Rightarrow> None
                | Some (v, s3) \<Rightarrow>
                    (case eat (CHR '','') (skip_ws s3) of
                       Some s4 \<Rightarrow> map_option (\<lambda>(es, r). ((k, v) # es, r)) (json_entries depth s4)
                     | None \<Rightarrow> map_option (\<lambda>r. ([(k, v)], r)) (eat (CHR ''}'') (skip_ws s3))))))"
  by pat_completeness auto

text \<open>Every value takes at least one byte; this is what makes the loops end.\<close>

lemma skip_ws_length: "length (skip_ws s) \<le> length s"
  by (simp add: skip_ws_def length_dropWhile_le)

lemma digits1_length: "digits1 s = Some (t, r) \<Longrightarrow> length r < length s"
  using length_dropWhile_le [of is_ascii_digit s]
  by (cases s) (auto simp: digits1_def length_dropWhile_le le_imp_less_Suc split: if_splits)

lemma json_frac_length: "json_frac s = Some (t, r) \<Longrightarrow> length r \<le> length s"
  by (auto simp: json_frac_def split: option.splits dest!: digits1_length eat_length)

lemma json_exp_length: "json_exp s = Some (t, r) \<Longrightarrow> length r \<le> length s"
  by (auto simp: json_exp_def split: list.splits if_splits dest!: digits1_length)

lemma json_number_length: "json_number s = Some (t, r) \<Longrightarrow> length r < length s"
  by (auto simp: json_number_def Option.bind_eq_Some_conv split: option.splits
      dest!: digits1_length json_frac_length json_exp_length eat_length)

lemma string_body_length: "string_body s = Some (t, r) \<Longrightarrow> length r < length s"
proof (induction "length s" arbitrary: s t r rule: less_induct)
  case less
  have IH: "length r < length s" if "string_body u = Some (t', r)" "length u < length s" for u t'
    using less.hyps [OF that(2,1)] that(2) by simp
  show ?case
  proof (cases s)
    case (Cons c r1)
    have "string_body (c # r1) = Some (t, r)" using less.prems Cons by simp
    then have "r = r1 \<or> (\<exists>u t'. string_body u = Some (t', r) \<and> length u \<le> length r1)"
      by (fastforce simp: push_def split: if_splits list.splits option.splits dest: unicode_escape_length)
    then show ?thesis using IH by (auto simp: Cons le_imp_less_Suc)
  qed (use less.prems in simp)
qed

lemma json_string_length: "json_string s = Some (t, r) \<Longrightarrow> length r < length s"
  by (auto simp: json_string_def Option.bind_eq_Some_conv dest!: eat_length string_body_length)

lemmas cursor_lengths = skip_ws_length digits1_length json_number_length json_string_length

lemma skip_ws_eat: "eat c (skip_ws s) = Some r \<Longrightarrow> length r < length s"
  using eat_length [of c "skip_ws s" r] skip_ws_length [of s] by simp

lemma skip_ws_string: "json_string (skip_ws s) = Some (k, r) \<Longrightarrow> length r < length s"
  using json_string_length [of "skip_ws s"] skip_ws_length [of s] by fastforce

lemma json_keyword_length: "json_keyword w v s = Some (x, r) \<Longrightarrow> w \<noteq> [] \<Longrightarrow> length r < length s"
  by (auto simp: json_keyword_def strip_prefix_Some)

lemma json_scalar_length: "json_scalar s = Some (v, r) \<Longrightarrow> length r < length s"
  by (cases s) (auto simp: json_scalar_def split: if_splits
      dest!: json_keyword_length json_string_length json_number_length)

lemma json_lengths_partial:
  "json_value_json_items_json_entries_dom (Inl (d, s)) \<Longrightarrow> json_value d s = Some (v, r) \<Longrightarrow> length r < length s"
  "json_value_json_items_json_entries_dom (Inr (Inl (d, s))) \<Longrightarrow> json_items d s = Some (vs, r) \<Longrightarrow> length r < length s"
  "json_value_json_items_json_entries_dom (Inr (Inr (d, s))) \<Longrightarrow> json_entries d s = Some (es, r) \<Longrightarrow> length r < length s"
proof (induction arbitrary: v r and vs r and es r rule: json_value_json_items_json_entries.pinduct)
  case (1 d s)
  have sk: "length (skip_ws u) < length s" if "eat c (skip_ws s) = Some u" for c u
    using skip_ws_eat [OF that] skip_ws_length [of u] by simp
  have one: "length r' < length s" if "eat c (skip_ws s) = Some u" "eat c' (skip_ws u) = Some r'" for c c' u r'
    using skip_ws_eat [OF that(1)] skip_ws_eat [OF that(2)] by simp
  note eq = json_value.psimps [OF 1(1)]
  have d: "\<not> MAX_DEPTH < d" using 1(4) by (auto simp: eq split: if_splits)
  have inner: "json_items d (skip_ws u) = Some (a, r') \<Longrightarrow> length r' < length s"
      if "eat (CHR ''['') (skip_ws s) = Some u" "eat (CHR '']'') (skip_ws u) = None" for u a r'
    using 1(2,3) d that sk [OF that(1)] by (meson less_trans)
  have inner2: "json_entries d (skip_ws u) = Some (a, r') \<Longrightarrow> length r' < length s"
      if "eat (CHR ''['') (skip_ws s) = None" "eat (CHR ''{'') (skip_ws s) = Some u" "eat (CHR ''}'') (skip_ws u) = None" for u a r'
    using 1(2,3) d that sk [OF that(2)] by (meson less_trans)
  from 1(4) d show ?case
    by (auto simp: eq split: option.splits dest: one inner inner2 json_scalar_length less_le_trans [OF _ skip_ws_length])
next
  case (2 depth s)
  note eq = json_items.psimps [OF 2(1)]
  from 2(4) obtain v s1 where v: "json_value (depth + 1) s = Some (v, s1)" by (auto simp: eq split: option.splits)
  note lt = 2(2) [OF v]
  have rest: "length r' < length s" if "eat (CHR '','') (skip_ws s1) = Some s2" "json_items depth s2 = Some (a, r')" for s2 a r'
    using 2(3) [OF v refl that] skip_ws_eat [OF that(1)] lt by simp
  from 2(4) v lt show ?case
    by (auto simp: eq split: option.splits dest: rest skip_ws_eat)
next
  case (3 depth s)
  note eq = json_entries.psimps [OF 3(1)]
  from 3(4) obtain k s1 s2 v s3 where v: "json_string (skip_ws s) = Some (k, s1)" "eat (CHR '':'') (skip_ws s1) = Some s2"
      "json_value (depth + 1) s2 = Some (v, s3)" by (auto simp: eq split: option.splits)
  have lt: "length s3 < length s"
    using 3(2) [OF v(1) refl v(2,3)] skip_ws_eat [OF v(2)] skip_ws_string [OF v(1)] by simp
  have rest: "length r' < length s" if "eat (CHR '','') (skip_ws s3) = Some s4" "json_entries depth s4 = Some (a, r')" for s4 a r'
    using 3(3) [OF v(1) refl v(2,3) refl that] skip_ws_eat [OF that(1)] lt by simp
  from 3(4) v lt show ?case
    by (auto simp: eq split: option.splits dest: rest skip_ws_eat)
qed

termination json_value
proof (relation "measure (case_sum (\<lambda>(d, s). 2 * length s) (case_sum (\<lambda>(d, s). 2 * length s + 1) (\<lambda>(d, s). 2 * length s + 1)))",
    goal_cases)
  case (2 d s u)
  then show ?case using skip_ws_length [of u] by (auto dest!: skip_ws_eat)
next
  case (3 d s u)
  then show ?case using skip_ws_length [of u] by (auto dest!: skip_ws_eat)
qed (auto dest!: json_lengths_partial skip_ws_eat skip_ws_string)

declare json_value.simps [simp del] json_items.simps [simp del] json_entries.simps [simp del] string_body.simps [simp del]

definition minijson_parse :: "string \<Rightarrow> json option" where
  "minijson_parse input = Option.bind (json_value 0 input) (\<lambda>(v, r). if skip_ws r = [] then Some v else None)"

definition parse_booted_image :: "string \<Rightarrow> string option" where
  "parse_booted_image raw =
     Option.bind (minijson_parse (trim raw)) (\<lambda>root.
     Option.bind (json_get root ''status'') (\<lambda>a.
     Option.bind (json_get a ''booted'') (\<lambda>b.
     Option.bind (json_get b ''image'') (\<lambda>c.
     Option.bind (json_get c ''image'') (\<lambda>d.
     Option.bind (json_get d ''image'') (\<lambda>e.
     Option.bind (as_str e) (\<lambda>image_ref.
     if image_ref = [] then None else Some image_ref)))))))"

section \<open>Printing\<close>

text \<open>A compact printer, the reference for what the reader accepts.\<close>

definition print_char :: "char \<Rightarrow> string" where
  "print_char c =
     (let n = (of_char c :: nat) in
      if c = CHR 0x22 \<or> c = CHR 0x5C then [CHR 0x5C, c]
      else if n < 32 then [CHR 0x5C, CHR ''u'', CHR ''0'', CHR ''0'', hex_char (n div 16), hex_char (n mod 16)]
      else [c])"

definition print_str :: "string \<Rightarrow> string" where
  "print_str t = CHR 0x22 # concat (map print_char t) @ [CHR 0x22]"

fun json_print :: "json \<Rightarrow> string" where
  "json_print JNull = ''null''"
| "json_print (JBool b) = (if b then ''true'' else ''false'')"
| "json_print (JNumber t) = t"
| "json_print (JStr t) = print_str t"
| "json_print (JArray vs) = ''['' @ join '','' (map json_print vs) @ '']''"
| "json_print (JObject es) = ''{'' @ join '','' (map (\<lambda>(k, v). print_str k @ '':'' @ json_print v) es) @ ''}''"

text \<open>A value at some depth: numbers are number texts, and nothing is deeper than the limit.\<close>

fun json_ok :: "nat \<Rightarrow> json \<Rightarrow> bool" where
  "json_ok d (JNumber t) \<longleftrightarrow> d \<le> MAX_DEPTH \<and> json_number t = Some (t, [])"
| "json_ok d (JArray vs) \<longleftrightarrow> d \<le> MAX_DEPTH \<and> list_all (json_ok (d + 1)) vs"
| "json_ok d (JObject es) \<longleftrightarrow> d \<le> MAX_DEPTH \<and> list_all (\<lambda>(k, v). json_ok (d + 1) v) es"
| "json_ok d _ \<longleftrightarrow> d \<le> MAX_DEPTH"

subsection \<open>Numbers\<close>

definition stop :: "string \<Rightarrow> bool" where
  "stop r \<longleftrightarrow> (case r of [] \<Rightarrow> True | c # _ \<Rightarrow> \<not> is_ascii_digit c \<and> c \<notin> {CHR ''.'', CHR ''e'', CHR ''E''})"

lemma span_app:
  "list_all P ds \<Longrightarrow> r = [] \<or> \<not> P (hd r) \<Longrightarrow> takeWhile P (ds @ r) = ds \<and> dropWhile P (ds @ r) = r"
  by (induction ds) (cases r; simp)+

lemma digits1_Some:
  "digits1 s = Some (ds, r) \<Longrightarrow> ds \<noteq> [] \<and> list_all is_ascii_digit ds \<and> s = ds @ r \<and> (r = [] \<or> \<not> is_ascii_digit (hd r))"
  by (auto simp: digits1_def list_all_iff split: if_splits dest: set_takeWhileD hd_dropWhile)

lemma digits1_app:
  assumes "ds \<noteq> []" "list_all is_ascii_digit ds" "r = [] \<or> \<not> is_ascii_digit (hd r)"
  shows "digits1 (ds @ r) = Some (ds, r)"
  using span_app [OF assms(2,3)] assms(1) by (simp add: digits1_def)

lemma not_digits: "\<not> is_ascii_digit (CHR ''.'')" "\<not> is_ascii_digit (CHR ''e'')" "\<not> is_ascii_digit (CHR ''E'')"
    "\<not> is_ascii_digit (CHR ''+'')" "\<not> is_ascii_digit (CHR ''-'')"
  by (simp_all add: is_ascii_digit_def)

lemma stop_hd: "stop r \<Longrightarrow> r = [] \<or> \<not> is_ascii_digit (hd r) \<and> hd r \<notin> {CHR ''.'', CHR ''e'', CHR ''E''}"
  by (cases r) (auto simp: stop_def)

lemma json_exp_app:
  assumes "json_exp s = Some (t, r)" "stop r'"
  shows "json_exp (t @ r') = Some (t, r')"
proof -
  have r': "r' = [] \<or> \<not> is_ascii_digit (hd r')" using stop_hd [OF assms(2)] by blast
  consider "t = []"
    | c x ds where "t = c # x # ds" "c \<in> {CHR ''e'', CHR ''E''}" "x \<in> {CHR ''+'', CHR ''-''}" "ds \<noteq> []" "list_all is_ascii_digit ds"
    | c ds where "t = c # ds" "c \<in> {CHR ''e'', CHR ''E''}" "ds \<noteq> []" "list_all is_ascii_digit ds"
    using assms(1) by (auto simp: json_exp_def split: list.splits if_splits dest!: digits1_Some)
  then show ?thesis
  proof cases
    case 1
    with stop_hd [OF assms(2)] show ?thesis by (cases r') (auto simp: json_exp_def)
  next
    case 2
    then show ?thesis using digits1_app [OF 2(4,5) r'] by (auto simp: json_exp_def)
  next
    case 3
    then obtain y ys where y: "ds = y # ys" "is_ascii_digit y" by (cases ds) auto
    then have "y \<noteq> CHR ''+''" "y \<noteq> CHR ''-''" using not_digits by auto
    with 3 y(1) show ?thesis using digits1_app [OF 3(3,4) r'] by (auto simp: json_exp_def)
  qed
qed

lemma json_exp_start: "json_exp s = Some (t, r) \<Longrightarrow> t = [] \<or> hd t \<in> {CHR ''e'', CHR ''E''}"
  by (auto simp: json_exp_def split: list.splits if_splits)

lemma json_frac_app:
  assumes "json_frac s = Some (t, r)" "r' = [] \<or> \<not> is_ascii_digit (hd r') \<and> hd r' \<noteq> CHR ''.''"
  shows "json_frac (t @ r') = Some (t, r')"
proof -
  consider "t = []" | ds where "t = CHR ''.'' # ds" "ds \<noteq> []" "list_all is_ascii_digit ds"
    using assms(1) by (auto simp: json_frac_def split: option.splits dest!: digits1_Some)
  then show ?thesis
  proof cases
    case 1
    with assms(2) show ?thesis by (cases r') (auto simp: json_frac_def)
  next
    case 2
    with assms(2) show ?thesis using digits1_app [OF 2(2,3), of r'] by (auto simp: json_frac_def)
  qed
qed

lemma json_frac_start: "json_frac s = Some (t, r) \<Longrightarrow> t = [] \<or> hd t = CHR ''.''"
  by (auto simp: json_frac_def split: option.splits)

lemma json_number_app:
  assumes "json_number s = Some (t, r)" "stop r'"
  shows "json_number (t @ r') = Some (t, r')"
proof -
  obtain sign ds s2 frac s3 ex s1 where n: "digits1 s1 = Some (ds, s2)" "json_frac s2 = Some (frac, s3)"
      "json_exp s3 = Some (ex, r)" "t = sign @ ds @ frac @ ex" "sign = [] \<or> sign = ''-''"
    using assms(1) by (auto simp: json_number_def Option.bind_eq_Some_conv split: option.splits)
  note ds = digits1_Some [OF n(1)]
  have e: "json_exp (ex @ r') = Some (ex, r')" by (rule json_exp_app [OF n(3) assms(2)])
  have er: "ex @ r' = [] \<or> \<not> is_ascii_digit (hd (ex @ r')) \<and> hd (ex @ r') \<noteq> CHR ''.''"
    using json_exp_start [OF n(3)] stop_hd [OF assms(2)] not_digits by (cases ex) auto
  have f: "json_frac (frac @ ex @ r') = Some (frac, ex @ r')" by (rule json_frac_app [OF n(2) er])
  have "frac @ ex @ r' = [] \<or> \<not> is_ascii_digit (hd (frac @ ex @ r'))"
    using json_frac_start [OF n(2)] er not_digits by (cases frac) auto
  then have d: "digits1 (ds @ frac @ ex @ r') = Some (ds, frac @ ex @ r')" using ds by (intro digits1_app) auto
  obtain y ys where y: "ds = y # ys" "is_ascii_digit y" using ds by (cases ds) auto
  then have "y \<noteq> CHR ''-''" using not_digits by auto
  with n(5) d f e y(1) show ?thesis unfolding n(4) by (auto simp: json_number_def)
qed

subsection \<open>Strings\<close>

lemma hex4_Cons: "hex4 (a # b # c # d # r) = map_option (\<lambda>n. (n, r)) (from_radix16 [a, b, c, d])"
  by (simp add: hex4_def)

lemma control_hex: "n < 32 \<Longrightarrow> from_radix16 [CHR ''0'', CHR ''0'', hex_char (n div 16), hex_char (n mod 16)] = Some n"
proof -
  have "list_all (\<lambda>n. from_radix16 [CHR ''0'', CHR ''0'', hex_char (n div 16), hex_char (n mod 16)] = Some n) [0..<32]"
    by code_simp
  then show "n < 32 \<Longrightarrow> ?thesis" by (simp add: list_all_iff)
qed

lemma escape_control:
  assumes "(of_char c :: nat) < 32"
  shows "unicode_escape (CHR ''0'' # CHR ''0'' # hex_char (of_char c div 16) # hex_char (of_char c mod 16) # r) = Some ([c], r)"
  using control_hex [OF assms] assms by (simp add: unicode_escape_def hex4_Cons char_from_u32_def utf8_def)

lemma string_body_print: "string_body (concat (map print_char t) @ CHR 0x22 # r) = Some (t, r)"
proof (induction t)
  case Nil
  show ?case by (simp add: string_body.simps)
next
  case (Cons c t)
  have plain: "plain_escape (CHR 0x22) = Some (CHR 0x22)" "plain_escape (CHR 0x5C) = Some (CHR 0x5C)"
    by (simp_all add: plain_escape_def)
  show ?case
    using Cons escape_control [of c]
    by (auto simp: print_char_def Let_def string_body.simps push_def plain)
qed

lemma json_string_print: "json_string (print_str t @ r) = Some (t, r)"
  by (simp add: json_string_def print_str_def string_body_print)

subsection \<open>Values\<close>

lemma skip_ws_Cons [simp]: "skip_ws (c # r) = (if is_json_ws c then skip_ws r else c # r)"
  by (simp add: skip_ws_def)

lemma skip_ws_Nil [simp]: "skip_ws [] = []"
  by (simp add: skip_ws_def)

lemma not_ws [simp]: "\<not> is_json_ws (CHR '','')" "\<not> is_json_ws (CHR '':'')" "\<not> is_json_ws (CHR ''['')"
    "\<not> is_json_ws (CHR '']'')" "\<not> is_json_ws (CHR ''{'')" "\<not> is_json_ws (CHR ''}'')" "\<not> is_json_ws (CHR 0x22)"
  by (simp_all add: is_json_ws_def)

lemma stop_sep [simp]: "stop (CHR '','' # r)" "stop (CHR '']'' # r)" "stop (CHR ''}'' # r)" "stop []"
  by (simp_all add: stop_def is_ascii_digit_def)

lemma number_start:
  assumes "json_number t = Some (t, [])"
  obtains c u where "t = c # u" "c = CHR ''-'' \<or> is_ascii_digit c"
proof -
  have "t \<noteq> []" using json_number_length [OF assms] by auto
  then obtain c u where t: "t = c # u" by (cases t) auto
  have "c = CHR ''-'' \<or> is_ascii_digit c"
    using assms unfolding t by (auto simp: json_number_def digits1_def split: if_splits option.splits)
  with t that show thesis by blast
qed

lemma digit_plain: "is_ascii_digit c \<Longrightarrow> \<not> is_json_ws c \<and> c \<notin> {CHR '']'', CHR ''}'', CHR ''['', CHR ''{'', CHR 0x22, CHR ''n'', CHR ''t'', CHR ''f''}"
  by (auto simp: is_json_ws_def is_ascii_digit_def)

lemma print_start:
  assumes "json_ok d v"
  obtains c u where "json_print v = c # u" "\<not> is_json_ws c" "c \<notin> {CHR '']'', CHR ''}''}"
proof (cases v)
  case (JNumber t)
  with assms obtain c u where "t = c # u" "c = CHR ''-'' \<or> is_ascii_digit c" by (auto elim: number_start)
  with JNumber that digit_plain show thesis by (auto simp: is_json_ws_def)
next
  case (JBool b)
  with that show thesis by (cases b) (auto simp: is_json_ws_def)
qed (use that in \<open>auto simp: is_json_ws_def print_str_def split: if_splits\<close>)

lemma json_scalar_print:
  assumes "json_ok d v" "stop r" "\<And>vs. v \<noteq> JArray vs" "\<And>es. v \<noteq> JObject es"
  shows "json_value d (json_print v @ r) = Some (v, r)"
proof -
  obtain c u where start: "json_print v = c # u" "\<not> is_json_ws c" by (rule print_start [OF assms(1)])
  have d: "\<not> MAX_DEPTH < d" using assms(1) by (cases v) auto
  have sc: "c \<noteq> CHR ''[''" "c \<noteq> CHR ''{''" "json_scalar (json_print v @ r) = Some (v, r)"
  proof (atomize (full), cases v)
    case (JNumber t)
    with assms(1) have t: "json_number t = Some (t, [])" by simp
    from t obtain x y where x: "t = x # y" "x = CHR ''-'' \<or> is_ascii_digit x" by (rule number_start)
    from json_number_app [OF t assms(2)] x JNumber start digit_plain [of x]
    show "c \<noteq> CHR ''['' \<and> c \<noteq> CHR ''{'' \<and> json_scalar (json_print v @ r) = Some (v, r)"
      by (auto simp: json_scalar_def)
  next
    case (JStr t)
    with start json_string_print [of t r]
    show "c \<noteq> CHR ''['' \<and> c \<noteq> CHR ''{'' \<and> json_scalar (json_print v @ r) = Some (v, r)"
      by (auto simp: json_scalar_def print_str_def)
  qed (use assms(3,4) start in \<open>auto simp: json_scalar_def json_keyword_def split: if_splits\<close>)
  with start d show ?thesis by (simp add: json_value.simps)
qed

lemma json_items_print:
  assumes "\<And>v d r. v \<in> set vs \<Longrightarrow> json_ok d v \<Longrightarrow> stop r \<Longrightarrow> json_value d (json_print v @ r) = Some (v, r)"
    and "list_all (json_ok (d + 1)) vs" "vs \<noteq> []"
  shows "json_items d (join '','' (map json_print vs) @ CHR '']'' # r) = Some (vs, r)"
  using assms
proof (induction vs)
  case (Cons v vs)
  show ?case
  proof (cases vs)
    case Nil
    with Cons show ?thesis by (simp add: json_items.simps)
  next
    case Cons2: (Cons v2 vs2)
    with Cons.prems Cons.IH show ?thesis by (simp add: json_items.simps [of d "json_print v @ x" for x])
  qed
qed simp

lemma json_entries_print:
  assumes "\<And>k v d r. (k, v) \<in> set es \<Longrightarrow> json_ok d v \<Longrightarrow> stop r \<Longrightarrow> json_value d (json_print v @ r) = Some (v, r)"
    and "list_all (\<lambda>(k, v). json_ok (d + 1) v) es" "es \<noteq> []"
  shows "json_entries d (join '','' (map (\<lambda>(k, v). print_str k @ '':'' @ json_print v) es) @ CHR ''}'' # r) = Some (es, r)"
  using assms
proof (induction es)
  case (Cons e es)
  obtain k v where e: "e = (k, v)" by (cases e)
  have key: "skip_ws (print_str k @ x) = print_str k @ x" "json_string (print_str k @ x) = Some (k, x)" for x
    by (simp_all add: print_str_def json_string_print [unfolded print_str_def, simplified])
  show ?case
  proof (cases es)
    case Nil
    with Cons.prems show ?thesis by (simp add: json_entries.simps e key)
  next
    case Cons2: (Cons e2 es2)
    have "json_entries d (join '','' (map (\<lambda>(k, v). print_str k @ '':'' @ json_print v) es) @ CHR ''}'' # r) = Some (es, r)"
      by (rule Cons.IH) (use Cons.prems Cons2 in \<open>auto intro: Cons.prems(1)\<close>)
    moreover have "json_value (d + 1) (json_print v @ CHR '','' # x) = Some (v, CHR '','' # x)" for x
      by (rule Cons.prems(1)) (use Cons.prems(2) e in auto)
    ultimately show ?thesis by (simp add: json_entries.simps [of d "print_str k @ x" for x] e key Cons2)
  qed
qed simp

lemma json_value_print:
  "json_ok d v \<Longrightarrow> stop r \<Longrightarrow> json_value d (json_print v @ r) = Some (v, r)"
proof (induction v arbitrary: d r)
  case (JArray vs)
  then have d: "\<not> MAX_DEPTH < d" by simp
  show ?case
  proof (cases vs)
    case Nil
    with d show ?thesis by (simp add: json_value.simps)
  next
    case (Cons v vs2)
    have "json_ok (d + 1) v" using JArray.prems Cons by simp
    then obtain c u where c: "json_print v = c # u" "\<not> is_json_ws c" "c \<notin> {CHR '']'', CHR ''}''}" by (rule print_start)
    have "\<exists>x. join '','' (map json_print vs) @ CHR '']'' # r = c # x"
      using c(1) Cons by (cases vs2) auto
    moreover have "json_items d (join '','' (map json_print vs) @ CHR '']'' # r) = Some (vs, r)"
      by (rule json_items_print) (use JArray Cons in auto)
    ultimately show ?thesis using d c by (auto simp: json_value.simps)
  qed
next
  case (JObject es)
  then have d: "\<not> MAX_DEPTH < d" by simp
  show ?case
  proof (cases es)
    case Nil
    with d show ?thesis by (simp add: json_value.simps)
  next
    case (Cons e es2)
    have "\<exists>x. join '','' (map (\<lambda>(k, v). print_str k @ '':'' @ json_print v) es) @ CHR ''}'' # r = CHR 0x22 # x"
      using Cons by (cases es2) (auto simp: print_str_def split: prod.splits)
    moreover have "json_entries d (join '','' (map (\<lambda>(k, v). print_str k @ '':'' @ json_print v) es) @ CHR ''}'' # r) = Some (es, r)"
      by (rule json_entries_print) (use JObject Cons in \<open>auto intro: snds.intros\<close>)
    ultimately show ?thesis using d by (auto simp: json_value.simps)
  qed
qed (auto intro: json_scalar_print simp del: json_print.simps)

text \<open>What is read is a value of the limited depth.\<close>

lemma json_scalar_ok: "json_scalar s = Some (v, r) \<Longrightarrow> d \<le> MAX_DEPTH \<Longrightarrow> json_ok d v"
  using json_number_app [where r' = "[]"]
  by (cases s) (auto simp: json_scalar_def json_keyword_def split: if_splits)

lemma json_value_ok:
  "json_value d s = Some (v, r) \<Longrightarrow> json_ok d v"
  "json_items d s = Some (vs, r) \<Longrightarrow> list_all (json_ok (d + 1)) vs"
  "json_entries d s = Some (es, r) \<Longrightarrow> list_all (\<lambda>(k, v). json_ok (d + 1) v) es"
proof (induction d s and d s and d s arbitrary: v r and vs r and es r rule: json_value_json_items_json_entries.induct)
  case (1 d s)
  then have d: "\<not> MAX_DEPTH < d" by (auto simp: json_value.simps split: if_splits)
  have "json_ok d (JArray xs)" if "eat (CHR ''['') (skip_ws s) = Some u" "eat (CHR '']'') (skip_ws u) = None"
      "json_items d (skip_ws u) = Some (xs, r')" for u xs r'
    using 1(2) [OF d that] d by simp
  moreover have "json_ok d (JObject xs)" if "eat (CHR ''['') (skip_ws s) = None" "eat (CHR ''{'') (skip_ws s) = Some u"
      "eat (CHR ''}'') (skip_ws u) = None" "json_entries d (skip_ws u) = Some (xs, r')" for u xs r'
    using 1(1) [OF d that] d by simp
  ultimately show ?case
    using 1(3) d json_scalar_ok [of "skip_ws s" v r d] by (auto simp: json_value.simps split: option.splits)
next
  case (2 d s)
  from 2(3) obtain v s1 where v: "json_value (d + 1) s = Some (v, s1)" by (auto simp: json_items.simps [of d s] split: option.splits)
  note IH = 2(1) [OF v] 2(2) [OF v refl]
  from 2(3) v IH show ?case by (auto simp: json_items.simps [of d s] split: option.splits)
next
  case (3 d s)
  from 3(3) obtain k s1 s2 v s3 where v: "json_string (skip_ws s) = Some (k, s1)" "eat (CHR '':'') (skip_ws s1) = Some s2"
      "json_value (d + 1) s2 = Some (v, s3)" by (auto simp: json_entries.simps [of d s] split: option.splits)
  note IH = 3(1) [OF v(1) refl v(2,3)] 3(2) [OF v(1) refl v(2,3) refl]
  from 3(3) v IH show ?case by (auto simp: json_entries.simps [of d s] split: option.splits)
qed


text \<open>The reader also takes texts that JSON does not: leading zeros, and a plus sign among the digits of an escape.\<close>

lemma minijson_lenient:
  "minijson_parse ''007'' = Some (JNumber ''007'')"
  "minijson_parse ([CHR 0x22, CHR 0x5C] @ ''u+041'' @ [CHR 0x22]) = Some (JStr ''A'')"
  by code_simp+

end
