(* ===== verification/Kvm_Events.thy ===== *)
theory Kvm_Events
  imports Event_Order Virt_Conn
begin

text \<open>
  The commands that a connection to the KVM host runs, as events: each is one event on the host that the command line
  names, and what the caller learns is what that event answered. Shared by the commands whose order of events is proved.
\<close>

fun answer_text :: "event \<Rightarrow> string option" where
  "answer_text (SshRun _ _ (Ok out)) = Some (ro_stdout out)"
| "answer_text (ShRun _ (Ok out)) = (if exit_success (ro_status out) then Some (ro_stdout out) else None)"
| "answer_text _ = None"

text \<open>The command ran and its exit status was not zero.\<close>

fun refused :: "event \<Rightarrow> bool" where
  "refused (SshRun _ _ (Err (NonZeroExit _ _ _ _))) = True"
| "refused (ShRun _ (Ok out)) = (\<not> exit_success (ro_status out))"
| "refused _ = False"

definition kvm_uri :: "string option \<Rightarrow> qemu_ssh_uri" where
  "kvm_uri kvm =
     (case filled kvm of
        Some host \<Rightarrow> \<lparr>uri_user = None, uri_host = host, uri_port = None, uri_instance = System, uri_query = None\<rparr>
      | None \<Rightarrow> ok_val (uri_parse ''qemu+ssh://localhost/system''))"

lemma kvm_uri: "conn_uri (build_connection env kvm) = kvm_uri kvm"
  by (auto simp: kvm_uri_def build_connection_def new_local_def filled_def split: option.split)

definition lease :: "string option \<Rightarrow> string \<Rightarrow> ipv4 \<Rightarrow> event set \<Rightarrow> bool" where
  "lease kvm name ip A \<longleftrightarrow>
     (\<exists>ev\<in>A. \<exists>out. ran_on kvm (cmd_domifaddr (kvm_uri kvm) name) ev \<and> answer_text ev = Some out
        \<and> parse_domifaddr out (cmd_domifaddr (kvm_uri kvm) name) = Ok (Some ip))"

lemma grows_lease [intro]: "grows (lease kvm name ip)"
  unfolding lease_def by (rule growsI) blast

lemma grows_insert: "grows C \<Longrightarrow> C A \<Longrightarrow> C (insert e A)"
  by (erule growsD) auto

lemma grows_conj: "grows C \<Longrightarrow> grows D \<Longrightarrow> grows (\<lambda>A. C A \<and> D A)"
  by (auto simp: grows_def)

lemma grows_mem: "grows (\<lambda>A. e \<in> A)" "grows (\<lambda>_. b)"
  by (auto simp: grows_def)

text \<open>One command of the connection is one event, and its text is the answer of that event.\<close>

lemma kvm_run_event:
  assumes "conn_run (build_connection env kvm) cmd w = (r, w')"
  shows "\<exists>ev. w_trace w' = w_trace w @ [ev] \<and> ran_on kvm cmd ev
    \<and> answer_text ev = (case r of Ok out \<Rightarrow> Some out | Err _ \<Rightarrow> None)
    \<and> (\<forall>c e. r = Err (VirshFailed c e) \<longrightarrow> refused ev)"
  using assms
  by (cases kvm; cases "kvm = Some []")
    (auto simp: conn_run_def build_connection_def new_local_def local_client_run_def bridge_run_def sh_run_def
      ssh_run_def ssh_run_in_def matchA_def split: prod.splits result.splits if_splits virt_ssh_error.splits ssh_error.splits)

lemma domifaddr_event:
  assumes "domifaddr (build_connection env kvm) name w = (r, w')"
  shows "\<exists>ev. w_trace w' = w_trace w @ [ev] \<and> ran_on kvm (cmd_domifaddr (kvm_uri kvm) name) ev
    \<and> (\<forall>ip. r = Ok (Some ip) \<longrightarrow> lease kvm name ip {ev})"
proof -
  let ?c = "cmd_domifaddr (kvm_uri kvm) name"
  obtain r1 w1 where run: "conn_run (build_connection env kvm) ?c w = (r1, w1)" by (cases "conn_run (build_connection env kvm) ?c w")
  from kvm_run_event [OF run] obtain ev where ev: "w_trace w1 = w_trace w @ [ev]" "ran_on kvm ?c ev"
      "answer_text ev = (case r1 of Ok out \<Rightarrow> Some out | Err _ \<Rightarrow> None)" by blast
  have "w' = w1" "r = Ok (Some ip) \<Longrightarrow> \<exists>out. r1 = Ok out \<and> parse_domifaddr out ?c = Ok (Some ip)" for ip
    using assms run by (auto simp: domifaddr_def Let_def kvm_uri bindA_def split: result.splits)
  with ev show ?thesis by (auto simp: lease_def)
qed

lemma running_event:
  assumes "running_domains (build_connection env kvm) w = (r, w')"
  shows "\<exists>ev. w_trace w' = w_trace w @ [ev] \<and> ran_on kvm (cmd_running_domains (kvm_uri kvm)) ev
    \<and> (case r of Ok ds \<Rightarrow> \<exists>out. answer_text ev = Some out \<and> ds = parse_domain_list out | Err _ \<Rightarrow> answer_text ev = None)"
proof -
  let ?c = "cmd_running_domains (kvm_uri kvm)"
  obtain r1 w1 where run: "conn_run (build_connection env kvm) ?c w = (r1, w1)" by (cases "conn_run (build_connection env kvm) ?c w")
  from kvm_run_event [OF run] show ?thesis
    using assms run by (auto simp: running_domains_def kvm_uri bindA_def split: result.splits)
qed

text \<open>The same as rules of triples.\<close>

definition answered :: "string option \<Rightarrow> string \<Rightarrow> string \<Rightarrow> event set \<Rightarrow> bool" where
  "answered kvm cmd out A \<longleftrightarrow> (\<exists>ev\<in>A. ran_on kvm cmd ev \<and> answer_text ev = Some out)"

definition tried_cmd :: "string option \<Rightarrow> string \<Rightarrow> event set \<Rightarrow> bool" where
  "tried_cmd kvm cmd A \<longleftrightarrow> (\<exists>ev\<in>A. ran_on kvm cmd ev)"

definition refused_cmd :: "string option \<Rightarrow> string \<Rightarrow> event set \<Rightarrow> bool" where
  "refused_cmd kvm cmd A \<longleftrightarrow> (\<exists>ev\<in>A. ran_on kvm cmd ev \<and> refused ev)"

lemma grows_calls [intro]: "grows (answered kvm cmd out)" "grows (tried_cmd kvm cmd)" "grows (refused_cmd kvm cmd)"
  unfolding answered_def tried_cmd_def refused_cmd_def by (rule growsI; blast)+

lemma ran_on_unique: "ran_on kvm c ev \<Longrightarrow> ran_on kvm c' ev \<Longrightarrow> c = c'"
  by (cases ev) auto

lemma conn_run_step:
  assumes "\<And>A ev. C A \<Longrightarrow> ran_on kvm cmd ev \<Longrightarrow> allowed A ev"
    and "\<And>A ev out. C A \<Longrightarrow> ran_on kvm cmd ev \<Longrightarrow> answer_text ev = Some out \<Longrightarrow> Q out (insert ev A)"
    and "\<And>A ev e. C A \<Longrightarrow> ran_on kvm cmd ev \<Longrightarrow> answer_text ev = None \<Longrightarrow>
      (\<forall>c m. e = VirshFailed c m \<longrightarrow> refused ev) \<Longrightarrow> E e (insert ev A)"
  shows "triple (reached allowed t0 C) (conn_run (build_connection env kvm) cmd)
    (\<lambda>a. reached allowed t0 (Q a)) (\<lambda>e. reached allowed t0 (E e))"
  by (rule event_triple [where P = "\<lambda>r ev. ran_on kvm cmd ev \<and> answer_text ev = (case r of Ok out \<Rightarrow> Some out | Err _ \<Rightarrow> None)
      \<and> (\<forall>c e. r = Err (VirshFailed c e) \<longrightarrow> refused ev)"])
    (use kvm_run_event assms in \<open>auto\<close>)

section \<open>Actions whose result does not depend on the state\<close>

lemma fst_bind: "(\<And>s. fst (m s) = Ok v) \<Longrightarrow> (\<And>s. fst (f v s) = Ok x) \<Longrightarrow> fst (bindA m f s) = Ok x"
  unfolding bindA_def by (metis (mono_tags, lifting) fst_conv prod.case_eq_if prod.collapse result.case(1))

lemma fst_match: "(\<And>s. fst (m s) = r) \<Longrightarrow> (\<And>s. fst (f r s) = x) \<Longrightarrow> fst (matchA m f s) = x"
  unfolding matchA_def by (metis prod.case_eq_if)

lemma succeeds_match_value: "(\<And>s. fst (m s) = r) \<Longrightarrow> succeeds (f r) \<Longrightarrow> succeeds (matchA m f)"
  unfolding succeeds_def matchA_def by (auto simp: split_beta)

end
