(* ===== verification/Switch_Ghcr.thy ===== *)
theory Switch_Ghcr
  imports Minijson Config Virt_Conn Cp_Kubectl
begin

text \<open>
  \<open>hbird switch-to-ghcr\<close> (\<open>commands/switch_to_ghcr.rs\<close>): pointing the machines at the published image. The arguments
  are those clap hands over; the configuration file is an argument, \<open>None\<close> when no path was given. The names of the
  two wait loops carry the number of attempts that are left.
\<close>

section \<open>Arguments and constants\<close>

record switch_args =
  sg_vm :: "string option"
  sg_ghcr_ref :: "string option"
  sg_kvm_host :: "string option"
  sg_ghcr_org :: "string option"
  sg_ghcr_tag :: "string option"
  sg_bootc_switch_to_ghcr :: bool
  sg_force_rebuild :: bool
  sg_force_switch :: bool
  sg_dry_run :: bool

definition switch_log :: "string \<Rightarrow> ('w world, 'e, unit) action" where
  "switch_log line = println (''[switch-to-ghcr] '' @ line)"

definition DEFAULT_GHCR_ORG :: string where "DEFAULT_GHCR_ORG = ''ghcr.io/aatchison''"
definition DEFAULT_GHCR_TAG :: string where "DEFAULT_GHCR_TAG = ''latest''"
definition HUMMINGBIRD_PREFIX :: string where "HUMMINGBIRD_PREFIX = ''hummingbird-''"
definition WAIT_TRIES :: nat where "WAIT_TRIES = 30"
definition WAIT_INTERVAL_SECS :: nat where "WAIT_INTERVAL_SECS = 2"
definition PROBE_CONNECT_TIMEOUT_SECS :: nat where "PROBE_CONNECT_TIMEOUT_SECS = 5"
definition SWITCH_CONNECT_TIMEOUT_SECS :: nat where "SWITCH_CONNECT_TIMEOUT_SECS = 10"
definition BOOTC_STATUS_CMD :: string where "BOOTC_STATUS_CMD = ''bootc status --json 2>/dev/null''"

section \<open>Flavours\<close>

definition flavor_for_vm :: "string \<Rightarrow> string option" where
  "flavor_for_vm name =
     (if name = ''hummingbird-k8s'' then Some ''hummingbird-k8s''
      else if starts_with ''hummingbird-k8s-worker-'' name then Some ''hummingbird-k8s-worker''
      else None)"

definition ghcr_ref_for :: "string \<Rightarrow> string \<Rightarrow> string \<Rightarrow> string" where
  "ghcr_ref_for org flavor tag = trim_end_matches (CHR ''/'') org @ ''/'' @ flavor @ '':'' @ tag"

section \<open>Waiting\<close>

fun wait_for_ip_with :: "'w env \<Rightarrow> 'w world connection \<Rightarrow> string \<Rightarrow> nat \<Rightarrow> ('w, ipv4 option) act" where
  "wait_for_ip_with env conn name 0 = retA None"
| "wait_for_ip_with env conn name (Suc n) =
     matchA (domifaddr conn name) (\<lambda>r.
       case r of
         Ok (Some ip) \<Rightarrow> retA (Some ip)
       | _ \<Rightarrow> bindA (whenA (0 < n) (sleep env WAIT_INTERVAL_SECS)) (\<lambda>_. wait_for_ip_with env conn name n))"

fun wait_for_ssh_with :: "'w env \<Rightarrow> ssh_options \<Rightarrow> nat \<Rightarrow> ('w, bool) act" where
  "wait_for_ssh_with env opts 0 = retA False"
| "wait_for_ssh_with env opts (Suc n) =
     matchA (ssh_run env opts ''true'') (\<lambda>r.
       if is_ok r then retA True
       else bindA (whenA (0 < n) (sleep env WAIT_INTERVAL_SECS)) (\<lambda>_. wait_for_ssh_with env opts n))"

section \<open>One machine\<close>

text \<open>The image that a reading of \<open>bootc status\<close> names.\<close>

fun status_image :: "(ssh_error, run_output) result \<Rightarrow> string option" where
  "status_image (Ok out) = parse_booted_image (ro_stdout out)"
| "status_image (Err (NonZeroExit h status out err)) = parse_booted_image out"
| "status_image (Err e) = None"

definition current_image_ref_with_exec :: "'w env \<Rightarrow> ssh_options \<Rightarrow> ('w, string option) act" where
  "current_image_ref_with_exec env opts = matchA (ssh_run env opts BOOTC_STATUS_CMD) (\<lambda>r. retA (status_image r))"

datatype switch_outcome = AlreadyTracking | Switched "string option" "string option"

definition or_unknown :: "string option \<Rightarrow> string" where
  "or_unknown v = unwrap_or v ''<unknown>''"

definition switch_cmd :: "string \<Rightarrow> string" where
  "switch_cmd ghcr_ref = ''bootc switch '' @ shell_single_quote ghcr_ref"

definition switch_one_with_exec :: "'w env \<Rightarrow> ssh_options \<Rightarrow> string \<Rightarrow> string \<Rightarrow> ('w, switch_outcome) act" where
  "switch_one_with_exec env opts name ghcr_ref =
     bindA (current_image_ref_with_exec env opts) (\<lambda>old.
     if old = Some ghcr_ref then
       bindA (switch_log (name @ '': already tracking '' @ ghcr_ref @ ''; nothing to do.'')) (\<lambda>_. retA AlreadyTracking)
     else
       bindA (switch_log (name @ '': switching from '' @ [SQ] @ or_unknown old @ [SQ] @ '' to '' @ [SQ] @ ghcr_ref
         @ [SQ] @ ''...'')) (\<lambda>_.
       matchA (ssh_run env opts (switch_cmd ghcr_ref)) (\<lambda>r.
         case r of
           Err e \<Rightarrow>
             bindA (switch_log (name @ '': bootc switch failed (image may not exist on GHCR yet). '' @ ssh_error_display e)) (\<lambda>_.
             failA [name @ '': bootc switch to '' @ ghcr_ref @ '' failed: '' @ ssh_error_display e])
         | Ok _ \<Rightarrow>
             bindA (current_image_ref_with_exec env opts) (\<lambda>new.
             bindA (switch_log (name @ '': now tracking '' @ [SQ] @ or_unknown new @ [SQ] @ '' (was '' @ [SQ]
               @ or_unknown old @ [SQ] @ '').'')) (\<lambda>_.
             retA (Switched old new))))))"

section \<open>The plan\<close>

record switch_plan =
  sp_ghcr_org :: string
  sp_ghcr_tag :: string
  sp_kvm_host :: "string option"
  sp_force_rebuild :: bool
  sp_force_switch :: bool
  sp_dry_run :: bool

definition switch_plan_from_args :: "switch_args \<Rightarrow> cluster_config option \<Rightarrow> switch_plan" where
  "switch_plan_from_args args config =
     \<lparr>sp_ghcr_org = unwrap_or (filled (sg_ghcr_org args)) DEFAULT_GHCR_ORG,
      sp_ghcr_tag = unwrap_or (or_opt (filled (sg_ghcr_tag args)) (map_option ghcr_tag config)) DEFAULT_GHCR_TAG,
      sp_kvm_host = or_opt (filled (sg_kvm_host args)) (Option.bind config kvm_host),
      sp_force_rebuild = sg_force_rebuild args, sp_force_switch = sg_force_switch args, sp_dry_run = sg_dry_run args\<rparr>"

definition vm_ssh_opts :: "switch_plan \<Rightarrow> string \<Rightarrow> nat \<Rightarrow> ssh_options" where
  "vm_ssh_opts plan ip connect_timeout_secs =
     (let opts = with_connect_timeout (from_secs connect_timeout_secs) (with_user ''root'' (ssh_options_new ip)) in
      case sp_kvm_host plan of Some jump \<Rightarrow> with_proxy_jump jump opts | None \<Rightarrow> opts)"

section \<open>The command\<close>

definition switch_vm :: "'w env \<Rightarrow> 'w world connection \<Rightarrow> switch_plan \<Rightarrow> string \<Rightarrow> string \<Rightarrow> ('w, switch_outcome) act" where
  "switch_vm env conn plan name ghcr_ref =
     (if sp_dry_run plan then
        bindA (switch_log (name @ '': DRY-RUN would resolve IP via virsh domifaddr, wait for sshd, then run: bootc switch ''
          @ shell_single_quote ghcr_ref)) (\<lambda>_. retA AlreadyTracking)
      else
        bindA (switch_log (name @ '': resolving IP...'')) (\<lambda>_.
        bindA (wait_for_ip_with env conn name WAIT_TRIES) (\<lambda>found.
        case found of
          None \<Rightarrow>
            bindA (switch_log (name @ '': no DHCP lease after '' @ show_nat (WAIT_TRIES * WAIT_INTERVAL_SECS) @ ''s; SKIP.'')) (\<lambda>_.
            failA [name @ '': no DHCP lease''])
        | Some addr \<Rightarrow>
            (let ip = ipv4_display addr in
             bindA (switch_log (name @ '': ip='' @ ip @ ''; waiting for sshd...'')) (\<lambda>_.
             bindA (wait_for_ssh_with env (vm_ssh_opts plan ip PROBE_CONNECT_TIMEOUT_SECS) WAIT_TRIES) (\<lambda>up.
             if \<not> up then
               bindA (switch_log (name @ '': sshd never came up after '' @ show_nat (WAIT_TRIES * WAIT_INTERVAL_SECS)
                 @ ''s; SKIP.'')) (\<lambda>_.
               failA [name @ '': sshd never came up''])
             else switch_one_with_exec env (vm_ssh_opts plan ip SWITCH_CONNECT_TIMEOUT_SECS) name ghcr_ref))))))"

definition run_single_vm ::
  "'w env \<Rightarrow> 'w world connection \<Rightarrow> switch_plan \<Rightarrow> string \<Rightarrow> string option \<Rightarrow> ('w, unit) act" where
  "run_single_vm env conn plan vm explicit_ref =
     (if sp_force_rebuild plan \<and> \<not> sp_force_switch plan then
        bindA (switch_log (''WARN: FORCE_REBUILD=1 '' @ EM_DASH @ '' skipping switch of '' @ [SQ] @ vm @ [SQ]
          @ '' to GHCR so it keeps tracking its freshly-built install-time image (#375).'')) (\<lambda>_.
        switch_log (''WARN: set FORCE_SWITCH=1 to switch anyway, or unset FORCE_REBUILD for normal GHCR-tracking behavior.''))
      else
        bindA
          (case filled explicit_ref of
             Some r \<Rightarrow> retA r
           | None \<Rightarrow>
               (case flavor_for_vm vm of
                  Some flavor \<Rightarrow> retA (ghcr_ref_for (sp_ghcr_org plan) flavor (sp_ghcr_tag plan))
                | None \<Rightarrow>
                    bindA (switch_log (''ERROR: cannot infer GHCR ref for VM '' @ [SQ] @ vm @ [SQ] @ '' (unknown flavor).'')) (\<lambda>_.
                    failA [''switch-to-ghcr: cannot infer GHCR ref for VM '' @ [SQ] @ vm @ [SQ] @ '' (unknown flavor)'']))) (\<lambda>ghcr_ref.
        matchA (switch_vm env conn plan vm ghcr_ref) (\<lambda>r.
          case r of
            Ok _ \<Rightarrow> retA ()
          | Err _ \<Rightarrow> switch_log (''WARN: switch failed for '' @ vm @ ''; VM still tracks its install-time image.''))))"

fun switch_walk :: "'w env \<Rightarrow> 'w world connection \<Rightarrow> switch_plan \<Rightarrow> string list \<Rightarrow> nat \<Rightarrow> ('w, nat) act" where
  "switch_walk env conn plan [] failed = retA failed"
| "switch_walk env conn plan (vm # vms) failed =
     (case flavor_for_vm vm of
        None \<Rightarrow> bindA (switch_log (vm @ '': unknown flavor; SKIP.'')) (\<lambda>_. switch_walk env conn plan vms failed)
      | Some flavor \<Rightarrow>
          matchA (switch_vm env conn plan vm (ghcr_ref_for (sp_ghcr_org plan) flavor (sp_ghcr_tag plan))) (\<lambda>r.
          switch_walk env conn plan vms (if is_ok r then failed else failed + 1)))"

definition run_all_vms :: "'w env \<Rightarrow> 'w world connection \<Rightarrow> switch_plan \<Rightarrow> ('w, unit) act" where
  "run_all_vms env conn plan =
     matchA (running_domains conn) (\<lambda>r.
       case r of
         Err e \<Rightarrow> failA ((''switch-to-ghcr: could not list running libvirt domains '' @ EM_DASH @ '' check --kvm-host ''
             @ ''reachability and libvirt-group membership before re-running'') # from_virt e)
       | Ok running \<Rightarrow>
           (let vms = filter (starts_with HUMMINGBIRD_PREFIX) (map dom_name running) in
            if vms = [] then switch_log ''no running hummingbird-* VMs found.''
            else
              bindA (switch_walk env conn plan vms 0) (\<lambda>failed.
              if 0 < failed then
                failA [''switch-to-ghcr: '' @ show_nat failed @ '' VM(s) failed to switch '' @ EM_DASH
                  @ '' see the SKIP/failure lines above'']
              else retA ())))"

definition switch_run ::
  "'w env \<Rightarrow> switch_args \<Rightarrow> (string \<times> (anyhow, cluster_config) result) option \<Rightarrow> ('w, unit) act" where
  "switch_run env args config =
     (if \<not> sg_bootc_switch_to_ghcr args then switch_log ''BOOTC_SWITCH_TO_GHCR=0; skipping.''
      else
        bindA (case config of
                 Some (path, r) \<Rightarrow>
                   bindA (liftA (with_context (''switch-to-ghcr: could not read config '' @ path) r)) (\<lambda>c. retA (Some c))
               | None \<Rightarrow> retA None) (\<lambda>cfg.
        let plan = switch_plan_from_args args cfg;
            conn = build_connection env (sp_kvm_host plan) in
        bindA (whenA (sp_dry_run plan) (switch_log ''DRY-RUN mode: no VM will be modified.'')) (\<lambda>_.
        bindA (case filled (sg_vm args) of
                 Some vm \<Rightarrow> run_single_vm env conn plan vm (sg_ghcr_ref args)
               | None \<Rightarrow> run_all_vms env conn plan) (\<lambda>_.
        whenA (sp_dry_run plan) (switch_log ''DRY-RUN done.'')))))"

end
