(* ===== verification/Switch_Safety.thy ===== *)
theory Switch_Safety
  imports Kvm_Events Switch_Ghcr Poll
begin

text \<open>
  What \<open>switch-to-ghcr\<close> runs and in which order, and what its exit code says. A machine is known by the lease that
  \<open>virsh domifaddr\<close> showed for its name in this run.
\<close>

section \<open>The events\<close>

abbreviation probe_opts :: "switch_plan \<Rightarrow> ipv4 \<Rightarrow> ssh_options" where
  "probe_opts plan ip \<equiv> vm_ssh_opts plan (ipv4_display ip) PROBE_CONNECT_TIMEOUT_SECS"

abbreviation vm_opts :: "switch_plan \<Rightarrow> ipv4 \<Rightarrow> ssh_options" where
  "vm_opts plan ip \<equiv> vm_ssh_opts plan (ipv4_display ip) SWITCH_CONNECT_TIMEOUT_SECS"

definition reachable :: "switch_plan \<Rightarrow> string \<Rightarrow> ipv4 \<Rightarrow> event set \<Rightarrow> bool" where
  "reachable plan name ip A \<longleftrightarrow>
     lease (sp_kvm_host plan) name ip A \<and> (\<exists>out. SshRun (probe_opts plan ip) ''true'' (Ok out) \<in> A)"

text \<open>The commands to machines: a probe of an address with a lease, then readings of the status, and the switch to
  the machine's reference after a reading that showed another one. \<open>refs\<close> says which reference is whose.\<close>

definition vm_call :: "switch_plan \<Rightarrow> (string \<Rightarrow> string \<Rightarrow> bool) \<Rightarrow> event set \<Rightarrow> ssh_options \<Rightarrow> string \<Rightarrow> bool" where
  "vm_call plan refs A target c \<longleftrightarrow> \<not> sp_dry_run plan \<and>
     (\<exists>name ip. lease (sp_kvm_host plan) name ip A \<and>
        (target = probe_opts plan ip \<and> c = ''true''
         \<or> target = vm_opts plan ip \<and> reachable plan name ip A \<and>
           (c = BOOTC_STATUS_CMD
            \<or> (\<exists>ref r. refs name ref \<and> c = switch_cmd ref \<and> SshRun target BOOTC_STATUS_CMD r \<in> A
                 \<and> status_image r \<noteq> Some ref))))"

definition kvm_call :: "switch_plan \<Rightarrow> event \<Rightarrow> bool" where
  "kvm_call plan e \<longleftrightarrow>
     ran_on (sp_kvm_host plan) (cmd_running_domains (kvm_uri (sp_kvm_host plan))) e
     \<or> \<not> sp_dry_run plan \<and> (\<exists>name. ran_on (sp_kvm_host plan) (cmd_domifaddr (kvm_uri (sp_kvm_host plan)) name) e)"

fun switch_protocol :: "switch_plan \<Rightarrow> (string \<Rightarrow> string \<Rightarrow> bool) \<Rightarrow> event set \<Rightarrow> event \<Rightarrow> bool" where
  "switch_protocol plan refs A (Stdout s) \<longleftrightarrow> True"
| "switch_protocol plan refs A (Slept n) \<longleftrightarrow> \<not> sp_dry_run plan \<and> n = WAIT_INTERVAL_SECS"
| "switch_protocol plan refs A (SshRun target c r) \<longleftrightarrow> kvm_call plan (SshRun target c r) \<or> vm_call plan refs A target c"
| "switch_protocol plan refs A e \<longleftrightarrow> kvm_call plan e"

text \<open>A machine on which the switch is done: it was seen to track the reference, or was switched to it.\<close>

definition settled :: "switch_plan \<Rightarrow> string \<Rightarrow> string \<Rightarrow> event set \<Rightarrow> bool" where
  "settled plan name ref A \<longleftrightarrow>
     (\<exists>ip. lease (sp_kvm_host plan) name ip A \<and>
        ((\<exists>r. SshRun (vm_opts plan ip) BOOTC_STATUS_CMD r \<in> A \<and> status_image r = Some ref)
         \<or> (\<exists>out. SshRun (vm_opts plan ip) (switch_cmd ref) (Ok out) \<in> A)))"

lemma switch_grows [intro]:
  "grows (lease kvm name ip)" "grows (reachable plan name ip)" "grows (settled plan name ref)"
proof -
  show l: "grows (lease kvm name ip)" for kvm name ip by (rule grows_lease)
  show "grows (reachable plan name ip)"
    by (rule growsI) (auto simp: reachable_def dest: growsD [OF l])
  show "grows (settled plan name ref)"
    by (rule growsI) (unfold settled_def, meson growsD [OF l] subsetD)
qed

section \<open>The steps\<close>

abbreviation sreached where
  "sreached plan refs t0 \<equiv> reached (switch_protocol plan refs) t0"

lemma switch_say:
  assumes "grows C"
  shows "triple (sreached plan refs t0 C) (switch_log s) (\<lambda>_. sreached plan refs t0 (\<lambda>A. C A \<and> Stdout (''[switch-to-ghcr] '' @ s) \<in> A)) E"
proof (rule tripleI)
  fix w a w' assume r: "sreached plan refs t0 C w" and m: "switch_log s w = (Ok a, w')"
  show "sreached plan refs t0 (\<lambda>A. C A \<and> Stdout (''[switch-to-ghcr] '' @ s) \<in> A) w'"
    by (rule reached_event [OF r, where e = "Stdout (''[switch-to-ghcr] '' @ s)"])
      (use m in \<open>auto simp: switch_log_def emit_def intro: growsD [OF assms]\<close>)
qed (simp add: switch_log_def emit_def)

lemma switch_say_only:
  assumes "grows C"
  shows "triple (sreached plan refs t0 C) (switch_log s) (\<lambda>_. sreached plan refs t0 C) E"
  by (rule triple_conseq [OF switch_say [OF assms]]) (auto elim: reached_mono)

lemma switch_nap:
  assumes "grows C" "\<not> sp_dry_run plan"
  shows "triple (sreached plan refs t0 C) (whenA b (sleep env WAIT_INTERVAL_SECS)) (\<lambda>_. sreached plan refs t0 C)
    (\<lambda>_. sreached plan refs t0 C)"
proof -
  have "triple (sreached plan refs t0 C) (sleep env WAIT_INTERVAL_SECS) (\<lambda>_. sreached plan refs t0 C) (\<lambda>_. sreached plan refs t0 C)"
    by (rule step_triple [where ev = "\<lambda>_. Slept WAIT_INTERVAL_SECS"])
      (use assms in \<open>auto simp: sleep_def intro: growsD\<close>)
  then show ?thesis by (cases b) (simp_all add: triple_def)
qed

lemma kvm_allowed: "kvm_call plan e \<Longrightarrow> switch_protocol plan refs A e"
  by (cases e) (auto simp: kvm_call_def)

lemma vm_allowed:
  assumes "\<not> sp_dry_run plan" "lease (sp_kvm_host plan) name ip A"
  shows "switch_protocol plan refs A (SshRun (probe_opts plan ip) ''true'' r)"
    "reachable plan name ip A \<Longrightarrow> switch_protocol plan refs A (SshRun (vm_opts plan ip) BOOTC_STATUS_CMD r)"
    "reachable plan name ip A \<Longrightarrow> refs name ref \<Longrightarrow> SshRun (vm_opts plan ip) BOOTC_STATUS_CMD r' \<in> A
       \<Longrightarrow> status_image r' \<noteq> Some ref \<Longrightarrow> switch_protocol plan refs A (SshRun (vm_opts plan ip) (switch_cmd ref) r)"
  using assms unfolding switch_protocol.simps vm_call_def by blast+

lemma wait_ip_step:
  assumes "grows C" "\<not> sp_dry_run plan"
  shows "triple (sreached plan refs t0 C) (wait_for_ip_with env (build_connection env (sp_kvm_host plan)) name n)
    (\<lambda>found. sreached plan refs t0 (\<lambda>A. C A \<and> (\<forall>ip. found = Some ip \<longrightarrow> lease (sp_kvm_host plan) name ip A)))
    (\<lambda>_. sreached plan refs t0 C)"
proof (induction n)
  case 0
  show ?case by (simp add: triple_def)
next
  case (Suc n)
  let ?K = "sp_kvm_host plan"
  have call: "triple (sreached plan refs t0 C) (domifaddr (build_connection env ?K) name)
      (\<lambda>found. sreached plan refs t0 (\<lambda>A. C A \<and> (\<forall>ip. found = Some ip \<longrightarrow> lease ?K name ip A))) (\<lambda>_. sreached plan refs t0 C)"
  proof (rule event_triple [OF domifaddr_event])
    fix A :: "event set" and r :: "(virt_error, ipv4 option) result" and ev
    assume "ran_on ?K (cmd_domifaddr (kvm_uri ?K) name) ev \<and> (\<forall>ip. r = Ok (Some ip) \<longrightarrow> lease ?K name ip {ev})"
    then show "switch_protocol plan refs A ev"
      using assms(2) by (intro kvm_allowed) (unfold kvm_call_def, blast)
  qed (auto intro: growsD [OF assms(1)] growsD [OF switch_grows(1)])
  note rest = triple_bind [OF switch_nap [OF assms] Suc.IH]
  show ?case
    unfolding wait_for_ip_with.simps
  proof (rule triple_match_cases [OF call])
    fix found
    have "triple (sreached plan refs t0 C) (bindA (whenA (0 < n) (sleep env WAIT_INTERVAL_SECS))
        (\<lambda>_. wait_for_ip_with env (build_connection env ?K) name n))
      (\<lambda>found. sreached plan refs t0 (\<lambda>A. C A \<and> (\<forall>ip. found = Some ip \<longrightarrow> lease ?K name ip A))) (\<lambda>_. sreached plan refs t0 C)"
      by (rule rest)
    then show "triple (sreached plan refs t0 (\<lambda>A. C A \<and> (\<forall>ip. found = Some ip \<longrightarrow> lease ?K name ip A)))
        (case Ok found :: (virt_error, ipv4 option) result of Ok (Some ip) \<Rightarrow> retA (Some ip)
         | _ \<Rightarrow> bindA (whenA (0 < n) (sleep env WAIT_INTERVAL_SECS)) (\<lambda>_. wait_for_ip_with env (build_connection env ?K) name n))
      (\<lambda>found. sreached plan refs t0 (\<lambda>A. C A \<and> (\<forall>ip. found = Some ip \<longrightarrow> lease ?K name ip A))) (\<lambda>_. sreached plan refs t0 C)"
      by (cases found) (auto intro!: triple_ret)
  qed (simp only: result.case rest)
qed

lemma wait_ssh_step:
  assumes "grows C" "\<not> sp_dry_run plan" "\<And>A. C A \<Longrightarrow> lease (sp_kvm_host plan) name ip A"
  shows "triple (sreached plan refs t0 C) (wait_for_ssh_with env (probe_opts plan ip) n)
    (\<lambda>up. sreached plan refs t0 (\<lambda>A. C A \<and> (up \<longrightarrow> reachable plan name ip A))) (\<lambda>_. sreached plan refs t0 C)"
proof (induction n)
  case 0
  show ?case by (simp add: triple_def)
next
  case (Suc n)
  have "triple (sreached plan refs t0 C) (ssh_run env (probe_opts plan ip) ''true'')
      (\<lambda>_. sreached plan refs t0 (\<lambda>A. C A \<and> reachable plan name ip A)) (\<lambda>_. sreached plan refs t0 C)"
  proof (rule ssh_step)
    fix A a assume A: "C A"
    let ?A = "insert (SshRun (probe_opts plan ip) ''true'' (Ok a)) A"
    have "C ?A" by (rule growsD [OF assms(1) A]) blast
    then show "C ?A \<and> reachable plan name ip ?A" using assms(3) unfolding reachable_def by blast
  qed (use vm_allowed(1) assms(2,3) growsD [OF assms(1)] in blast)+
  then show ?case
    unfolding wait_for_ssh_with.simps
    by (rule triple_match_cases) (simp_all add: triple_ret triple_bind [OF switch_nap [OF assms(1,2)] Suc.IH])
qed

lemma status_step:
  assumes "grows C" "\<not> sp_dry_run plan" "\<And>A. C A \<Longrightarrow> reachable plan name ip A"
  shows "triple (sreached plan refs t0 C) (current_image_ref_with_exec env (vm_opts plan ip))
    (\<lambda>found. sreached plan refs t0 (\<lambda>A. C A \<and> (\<exists>r. SshRun (vm_opts plan ip) BOOTC_STATUS_CMD r \<in> A \<and> status_image r = found)))
    (\<lambda>_. sreached plan refs t0 C)"
proof -
  have a: "switch_protocol plan refs A (SshRun (vm_opts plan ip) BOOTC_STATUS_CMD r)" if "C A" for A r
    using vm_allowed(2) assms(2,3) that unfolding reachable_def by blast
  have "triple (sreached plan refs t0 C) (ssh_run env (vm_opts plan ip) BOOTC_STATUS_CMD)
    (\<lambda>out. sreached plan refs t0 (\<lambda>A. C A \<and> SshRun (vm_opts plan ip) BOOTC_STATUS_CMD (Ok out) \<in> A))
    (\<lambda>e. sreached plan refs t0 (\<lambda>A. C A \<and> SshRun (vm_opts plan ip) BOOTC_STATUS_CMD (Err e) \<in> A))"
    by (rule ssh_step) (use a in \<open>auto intro: growsD [OF assms(1)]\<close>)
  then show ?thesis
    unfolding current_image_ref_with_exec_def
    by (rule triple_match_cases) (auto intro!: triple_ret elim!: reached_mono)
qed

lemma switch_one_step:
  assumes C: "grows C" and live: "\<not> sp_dry_run plan" and up: "\<And>A. C A \<Longrightarrow> reachable plan name ip A" and ref: "refs name ref"
  shows "triple (sreached plan refs t0 C) (switch_one_with_exec env (vm_opts plan ip) name ref)
    (\<lambda>_. sreached plan refs t0 (\<lambda>A. C A \<and> settled plan name ref A)) (\<lambda>_. sreached plan refs t0 C)"
proof -
  let ?o = "vm_opts plan ip"
  let ?read = "\<lambda>found A. C A \<and> (\<exists>r. SshRun ?o BOOTC_STATUS_CMD r \<in> A \<and> status_image r = found)"
  let ?done = "\<lambda>A. C A \<and> settled plan name ref A"
  have up_lease: "lease (sp_kvm_host plan) name ip A" if "C A" for A using up [OF that] by (simp add: reachable_def)
  have g: "grows (?read found)" "grows ?done" for found
    using growsD [OF C] growsD [OF switch_grows(3)] by (auto intro!: growsI; blast)+
  have sw: "triple (sreached plan refs t0 (?read old)) (ssh_run env ?o (switch_cmd ref))
      (\<lambda>_. sreached plan refs t0 ?done) (\<lambda>_. sreached plan refs t0 C)" if "old \<noteq> Some ref" for old
  proof (rule ssh_step)
    fix A r assume A: "?read old A"
    then show "switch_protocol plan refs A (SshRun ?o (switch_cmd ref) r)"
      using vm_allowed(3) [OF live] ref that up up_lease by blast
  next
    fix A a assume A: "?read old A"
    then have "C (insert (SshRun ?o (switch_cmd ref) (Ok a)) A)" using growsD [OF C] by blast
    then show "?done (insert (SshRun ?o (switch_cmd ref) (Ok a)) A)"
      using up_lease unfolding settled_def by blast
  next
    fix A e assume "?read old A"
    then show "C (insert (SshRun ?o (switch_cmd ref) (Err e)) A)" using growsD [OF C] by blast
  qed
  have after: "triple (sreached plan refs t0 ?done) (current_image_ref_with_exec env ?o) (\<lambda>_. sreached plan refs t0 ?done)
      (\<lambda>_. sreached plan refs t0 C)"
    by (rule triple_conseq [OF status_step [OF g(2) live]]) (auto elim: reached_mono intro: up)
  have same: "triple (sreached plan refs t0 (?read (Some ref))) (switch_log q) (\<lambda>_. sreached plan refs t0 ?done)
      (\<lambda>_. sreached plan refs t0 C)" for q
    by (rule triple_conseq [OF switch_say_only [OF g(1)]], assumption)
      (erule reached_mono, use up_lease in \<open>unfold settled_def, blast\<close>)
  show ?thesis
    unfolding switch_one_with_exec_def
  proof (rule triple_bind [OF status_step [OF C live up]])
    fix old
    have fail: "triple (sreached plan refs t0 C) (bindA (switch_log q) (\<lambda>_. failA e)) (\<lambda>_. sreached plan refs t0 ?done)
        (\<lambda>_. sreached plan refs t0 C)" for q e
      by (rule triple_bind [OF switch_say_only [OF C]]) (auto intro!: triple_fail)
    have ok: "triple (sreached plan refs t0 ?done) (bindA (current_image_ref_with_exec env ?o) (\<lambda>new.
        bindA (switch_log (q new)) (\<lambda>_. retA (v new)))) (\<lambda>_. sreached plan refs t0 ?done) (\<lambda>_. sreached plan refs t0 C)" for q v
      by (rule triple_bind [OF after] triple_bind [OF switch_say_only [OF g(2)]] triple_ret | assumption)+
    show "triple (sreached plan refs t0 (?read old))
        (if old = Some ref then bindA (switch_log q) (\<lambda>_. retA AlreadyTracking)
         else bindA (switch_log q2) (\<lambda>_. matchA (ssh_run env ?o (switch_cmd ref)) (\<lambda>r. case r of
           Err e \<Rightarrow> bindA (switch_log (q3 e)) (\<lambda>_. failA (msg e))
         | Ok _ \<Rightarrow> bindA (current_image_ref_with_exec env ?o) (\<lambda>new. bindA (switch_log (q4 new)) (\<lambda>_. retA (v new))))))
        (\<lambda>_. sreached plan refs t0 ?done) (\<lambda>_. sreached plan refs t0 C)" for q q2 q3 q4 msg v
    proof (cases "old = Some ref")
      case True
      then show ?thesis by (simp add: triple_bind [OF same] triple_ret)
    next
      case False
      show ?thesis
        unfolding if_not_P [OF False]
        by (rule triple_bind [OF switch_say_only [OF g(1)]], rule triple_match_cases [OF sw [OF False]])
          (simp_all only: result.case ok fail)
    qed
  qed
qed

definition tried :: "string \<Rightarrow> event set \<Rightarrow> bool" where
  "tried name A \<longleftrightarrow> Stdout (''[switch-to-ghcr] '' @ name @ '': resolving IP...'') \<in> A"

lemma switch_vm_step:
  assumes C: "grows C" and live: "\<not> sp_dry_run plan" and ref: "refs name ref"
  shows "triple (sreached plan refs t0 C) (switch_vm env (build_connection env (sp_kvm_host plan)) plan name ref)
    (\<lambda>_. sreached plan refs t0 (\<lambda>A. C A \<and> tried name A \<and> settled plan name ref A))
    (\<lambda>_. sreached plan refs t0 (\<lambda>A. C A \<and> tried name A))"
proof -
  define D where "D = (\<lambda>A. C A \<and> tried name A)"
  have D: "grows D" unfolding D_def tried_def by (rule grows_conj [OF C grows_mem(1)])
  let ?K = "sp_kvm_host plan"
  have fail: "triple (sreached plan refs t0 X) (bindA (switch_log q) (\<lambda>_. failA e)) Q (\<lambda>_. sreached plan refs t0 D)"
    if "grows X" "\<And>A. X A \<Longrightarrow> D A" for X q e and Q :: "switch_outcome \<Rightarrow> _"
    by (rule triple_bind [OF switch_say_only [OF that(1)]], rule triple_fail) (erule reached_mono, rule that(2))
  have found: "triple (sreached plan refs t0 (\<lambda>A. D A \<and> lease ?K name ip A))
      (bindA (switch_log q) (\<lambda>_. bindA (wait_for_ssh_with env (probe_opts plan ip) n) (\<lambda>up.
         if \<not> up then bindA (switch_log q2) (\<lambda>_. failA e) else switch_one_with_exec env (vm_opts plan ip) name ref)))
      (\<lambda>_. sreached plan refs t0 (\<lambda>A. D A \<and> settled plan name ref A)) (\<lambda>_. sreached plan refs t0 D)" for ip q q2 e n
  proof -
    let ?L = "\<lambda>A. D A \<and> lease ?K name ip A"
    let ?U = "\<lambda>A. D A \<and> reachable plan name ip A"
    have gL: "grows ?L" by (rule grows_conj [OF D switch_grows(1)])
    have gU: "grows ?U" by (rule grows_conj [OF D switch_grows(2)])
    have w: "triple (sreached plan refs t0 ?L) (wait_for_ssh_with env (probe_opts plan ip) n)
        (\<lambda>up. sreached plan refs t0 (if up then ?U else D)) (\<lambda>_. sreached plan refs t0 D)"
      by (rule triple_conseq [OF wait_ssh_step [OF gL live]]) (auto elim!: reached_mono)
    have one: "triple (sreached plan refs t0 ?U) (switch_one_with_exec env (vm_opts plan ip) name ref)
        (\<lambda>_. sreached plan refs t0 (\<lambda>A. D A \<and> settled plan name ref A)) (\<lambda>_. sreached plan refs t0 D)"
      by (rule triple_conseq [OF switch_one_step [where refs = refs and name = name and ref = ref, OF gU live _ ref]]) (auto elim!: reached_mono)
    show ?thesis
      by (rule triple_bind [OF switch_say_only [OF gL]], rule triple_bind [OF w])
        (use one fail [OF D] in \<open>auto split: if_splits\<close>)
  qed
  have wait: "triple (sreached plan refs t0 D) (wait_for_ip_with env (build_connection env ?K) name n)
      (\<lambda>f. sreached plan refs t0 (case f of None \<Rightarrow> D | Some ip \<Rightarrow> (\<lambda>A. D A \<and> lease ?K name ip A)))
      (\<lambda>_. sreached plan refs t0 D)" for n
    by (rule triple_conseq [OF wait_ip_step [OF D live]]) (auto elim!: reached_mono split: option.split)
  have say: "triple (sreached plan refs t0 C) (switch_log (name @ '': resolving IP...'')) (\<lambda>_. sreached plan refs t0 D) E" for E
    using switch_say [OF C, of plan refs t0 "name @ '': resolving IP...''"] unfolding D_def tried_def by simp
  have "triple (sreached plan refs t0 C) (switch_vm env (build_connection env ?K) plan name ref)
      (\<lambda>_. sreached plan refs t0 (\<lambda>A. D A \<and> settled plan name ref A)) (\<lambda>_. sreached plan refs t0 D)"
    unfolding switch_vm_def if_not_P [OF live] Let_def
  proof (rule triple_bind [OF say], rule triple_bind [OF wait])
    fix f
    show "triple (sreached plan refs t0 (case f of None \<Rightarrow> D | Some ip \<Rightarrow> (\<lambda>A. D A \<and> lease ?K name ip A)))
        (case f of None \<Rightarrow> bindA (switch_log q0) (\<lambda>_. failA e0)
         | Some ip \<Rightarrow> bindA (switch_log (q ip)) (\<lambda>_. bindA (wait_for_ssh_with env (probe_opts plan ip) WAIT_TRIES) (\<lambda>up.
             if \<not> up then bindA (switch_log q2) (\<lambda>_. failA e) else switch_one_with_exec env (vm_opts plan ip) name ref)))
        (\<lambda>_. sreached plan refs t0 (\<lambda>A. D A \<and> settled plan name ref A)) (\<lambda>_. sreached plan refs t0 D)" for q0 e0 q q2 e
      by (cases f) (simp_all only: option.case found fail [OF D])
  qed
  then show ?thesis by (rule triple_conseq) (auto simp: D_def elim!: reached_mono)
qed

text \<open>The walk over all machines: it never stops early, and a count of zero failures means all are settled.\<close>

definition flavoured :: "switch_plan \<Rightarrow> string \<Rightarrow> string \<Rightarrow> bool" where
  "flavoured plan name ref \<longleftrightarrow> (\<exists>fl. flavor_for_vm name = Some fl \<and> ref = ghcr_ref_for (sp_ghcr_org plan) fl (sp_ghcr_tag plan))"

definition walked_all :: "switch_plan \<Rightarrow> string list \<Rightarrow> bool \<Rightarrow> event set \<Rightarrow> bool" where
  "walked_all plan vms good A \<longleftrightarrow>
     (\<forall>vm\<in>set vms. \<forall>ref. flavoured plan vm ref \<longrightarrow> tried vm A \<and> (good \<longrightarrow> settled plan vm ref A))"

lemma walked_all_grows: "grows (walked_all plan vms good)"
  using growsD [OF switch_grows(3)] unfolding grows_def walked_all_def tried_def by blast

lemma switch_walk_step:
  assumes "grows C" "\<not> sp_dry_run plan" "\<And>vm ref. vm \<in> set vms \<Longrightarrow> flavoured plan vm ref \<Longrightarrow> refs vm ref"
  shows "triple (sreached plan refs t0 C) (switch_walk env (build_connection env (sp_kvm_host plan)) plan vms k)
    (\<lambda>k'. sreached plan refs t0 (\<lambda>A. C A \<and> k \<le> k' \<and> walked_all plan vms (k' = k) A)) (\<lambda>_ _. False)"
  using assms
proof (induction vms arbitrary: C k)
  case Nil
  then show ?case by (simp add: triple_def walked_all_def)
next
  case (Cons vm vms)
  let ?R = "sreached plan refs t0" and ?conn = "build_connection env (sp_kvm_host plan)"
  show ?case
  proof (cases "flavor_for_vm vm")
    case None
    have "walked_all plan (vm # vms) g = walked_all plan vms g" for g
      using None by (auto simp: walked_all_def flavoured_def fun_eq_iff)
    then show ?thesis
      using triple_bind [OF switch_say_only [OF Cons.prems(1)] Cons.IH [OF Cons.prems(1,2)]] Cons.prems(3) None by simp
  next
    case (Some fl)
    let ?ref = "ghcr_ref_for (sp_ghcr_org plan) fl (sp_ghcr_tag plan)"
    let ?T = "\<lambda>A. C A \<and> tried vm A" and ?S = "\<lambda>A. C A \<and> tried vm A \<and> settled plan vm ?ref A"
    have ref: "flavoured plan vm ref \<longleftrightarrow> ref = ?ref" for ref using Some by (simp add: flavoured_def)
    have w: "walked_all plan (vm # vms) g A \<longleftrightarrow> tried vm A \<and> (g \<longrightarrow> settled plan vm ?ref A) \<and> walked_all plan vms g A" for g A
      by (auto simp: walked_all_def ref)
    have gT: "grows ?T" unfolding tried_def by (rule grows_conj [OF Cons.prems(1) grows_mem(1)])
    have gS: "grows ?S" unfolding tried_def
      by (rule grows_conj [OF Cons.prems(1) grows_conj [OF grows_mem(1) switch_grows(3)]])
    note rest = Cons.IH [OF gT Cons.prems(2)] Cons.IH [OF gS Cons.prems(2)]
    have bad: "triple (?R ?T) (switch_walk env ?conn plan vms (k + 1))
        (\<lambda>k'. ?R (\<lambda>A. C A \<and> k \<le> k' \<and> walked_all plan (vm # vms) (k' = k) A)) (\<lambda>_ _. False)"
      by (rule triple_conseq [OF rest(1)]) (use Cons.prems(3) in \<open>auto elim!: reached_mono simp: w walked_all_def\<close>)
    have good: "triple (?R ?S) (switch_walk env ?conn plan vms k)
        (\<lambda>k'. ?R (\<lambda>A. C A \<and> k \<le> k' \<and> walked_all plan (vm # vms) (k' = k) A)) (\<lambda>_ _. False)"
      by (rule triple_conseq [OF rest(2)]) (use Cons.prems(3) in \<open>auto elim!: reached_mono simp: w\<close>)
    have "refs vm ?ref" using Cons.prems(3) ref by simp
    from triple_match_cases [OF switch_vm_step [OF Cons.prems(1,2), of refs, OF this],
        where f = "\<lambda>r. switch_walk env ?conn plan vms (if is_ok r then k else k + 1)"] good bad
    show ?thesis by (simp add: Some)
  qed
qed

section \<open>The command\<close>

definition listed :: "switch_plan \<Rightarrow> string list \<Rightarrow> event set \<Rightarrow> bool" where
  "listed plan vms A \<longleftrightarrow>
     (\<exists>ev\<in>A. \<exists>out. ran_on (sp_kvm_host plan) (cmd_running_domains (kvm_uri (sp_kvm_host plan))) ev \<and> answer_text ev = Some out
        \<and> vms = filter (starts_with HUMMINGBIRD_PREFIX) (map dom_name (parse_domain_list out)))"

definition unlisted :: "switch_plan \<Rightarrow> event set \<Rightarrow> bool" where
  "unlisted plan A \<longleftrightarrow>
     (\<exists>ev\<in>A. ran_on (sp_kvm_host plan) (cmd_running_domains (kvm_uri (sp_kvm_host plan))) ev \<and> answer_text ev = None)"

lemma listed_grows: "grows (listed plan vms)"
  unfolding grows_def listed_def by blast

definition target_ref :: "switch_args \<Rightarrow> switch_plan \<Rightarrow> string \<Rightarrow> string \<Rightarrow> bool" where
  "target_ref args plan name ref \<longleftrightarrow>
     (case filled (sg_vm args) of
        Some vm \<Rightarrow> name = vm \<and>
          (case filled (sg_ghcr_ref args) of Some given \<Rightarrow> ref = given | None \<Rightarrow> flavoured plan vm ref)
      | None \<Rightarrow> starts_with HUMMINGBIRD_PREFIX name \<and> flavoured plan name ref)"

definition plan_of :: "switch_args \<Rightarrow> (string \<times> (anyhow, cluster_config) result) option \<Rightarrow> switch_plan" where
  "plan_of args config = switch_plan_from_args args (case config of Some (_, Ok c) \<Rightarrow> Some c | _ \<Rightarrow> None)"

lemma dry_vm_step:
  assumes "sp_dry_run plan" "grows C"
  shows "triple (sreached plan refs t0 C) (switch_vm env conn plan name ref) (\<lambda>_. sreached plan refs t0 C) (\<lambda>_ _. False)"
  unfolding switch_vm_def using assms(1)
  by (simp add: triple_bind [OF switch_say_only [OF assms(2)]] triple_ret)

lemma dry_walk_step:
  assumes "sp_dry_run plan" "grows C"
  shows "triple (sreached plan refs t0 C) (switch_walk env conn plan vms k) (\<lambda>k'. sreached plan refs t0 (\<lambda>A. C A \<and> k' = k)) (\<lambda>_ _. False)"
proof (induction vms arbitrary: k)
  case Nil
  show ?case by (simp add: triple_def)
next
  case (Cons vm vms)
  have "triple (sreached plan refs t0 C) (matchA (switch_vm env conn plan vm ref) (\<lambda>r. switch_walk env conn plan vms (if is_ok r then k else k + 1)))
      (\<lambda>k'. sreached plan refs t0 (\<lambda>A. C A \<and> k' = k)) (\<lambda>_ _. False)" for ref
    by (rule triple_match_cases [OF dry_vm_step [OF assms]]) (simp_all add: Cons, simp add: triple_def)
  then show ?case
    by (auto intro: triple_bind [OF switch_say_only [OF assms(2)] Cons] split: option.split)
qed

definition walk_result :: "switch_plan \<Rightarrow> bool \<Rightarrow> event set \<Rightarrow> bool" where
  "walk_result plan good A \<longleftrightarrow> sp_dry_run plan \<or> (\<exists>vms. listed plan vms A \<and> walked_all plan vms good A)"

lemma walk_result_grows: "grows (walk_result plan good)"
  unfolding grows_def walk_result_def by (meson growsD [OF listed_grows] growsD [OF walked_all_grows])

lemma empty_result: "listed plan [] A \<Longrightarrow> walk_result plan good A"
  unfolding walk_result_def walked_all_def by (intro disjI2 exI [of _ "[]"]) simp

lemma run_all_step:
  assumes "\<And>vm ref. starts_with HUMMINGBIRD_PREFIX vm \<Longrightarrow> flavoured plan vm ref \<Longrightarrow> refs vm ref"
  shows "triple (sreached plan refs t0 (\<lambda>_. True)) (run_all_vms env (build_connection env (sp_kvm_host plan)) plan)
    (\<lambda>_. sreached plan refs t0 (walk_result plan True)) (\<lambda>_. sreached plan refs t0 (\<lambda>A. unlisted plan A \<or> walk_result plan False A))"
proof -
  let ?R = "sreached plan refs t0" and ?K = "sp_kvm_host plan"
  let ?vms = "\<lambda>ds. filter (starts_with HUMMINGBIRD_PREFIX) (map dom_name ds)"
  have call: "triple (?R (\<lambda>_. True)) (running_domains (build_connection env ?K)) (\<lambda>ds. ?R (listed plan (?vms ds)))
      (\<lambda>_. ?R (unlisted plan))"
  proof (rule event_triple [OF running_event])
    fix A :: "event set" and r :: "(virt_error, domain list) result" and ev
    assume "ran_on ?K (cmd_running_domains (kvm_uri ?K)) ev \<and> (case r of Ok ds \<Rightarrow> \<exists>out. answer_text ev = Some out \<and> ds = parse_domain_list out
      | Err _ \<Rightarrow> answer_text ev = None)"
    then show "switch_protocol plan refs A ev" by (intro kvm_allowed) (simp add: kvm_call_def)
  qed (auto simp: listed_def unlisted_def)
  have walk: "triple (?R (listed plan vms)) (switch_walk env (build_connection env ?K) plan vms 0)
      (\<lambda>k. ?R (walk_result plan (k = 0))) (\<lambda>_ _. False)" if "vms = ?vms ds" for vms ds
  proof (cases "sp_dry_run plan")
    case True
    then show ?thesis
      by (intro triple_conseq [OF dry_walk_step [OF True listed_grows]]) (auto simp: walk_result_def elim: reached_mono)
  next
    case False
    then show ?thesis
      by (intro triple_conseq [OF switch_walk_step [OF listed_grows False, where refs = refs]])
        (use that assms in \<open>auto simp: walk_result_def elim!: reached_mono\<close>)
  qed
  have fin: "triple (?R (listed plan (?vms ds))) (if ?vms ds = [] then switch_log q
       else bindA (switch_walk env (build_connection env ?K) plan (?vms ds) 0) (\<lambda>k. if 0 < k then failA (e k) else retA ()))
     (\<lambda>_. ?R (walk_result plan True)) (\<lambda>_. ?R (\<lambda>A. unlisted plan A \<or> walk_result plan False A))" for ds q e
  proof (rule triple_if)
    assume none: "?vms ds = []"
    show "triple (?R (listed plan (?vms ds))) (switch_log q) (\<lambda>_. ?R (walk_result plan True))
       (\<lambda>_. ?R (\<lambda>A. unlisted plan A \<or> walk_result plan False A))"
      by (rule triple_conseq [OF switch_say_only [OF listed_grows]])
        (auto simp: none intro: empty_result elim!: reached_mono)
  next
    show "triple (?R (listed plan (?vms ds))) (bindA (switch_walk env (build_connection env ?K) plan (?vms ds) 0)
         (\<lambda>k. if 0 < k then failA (e k) else retA ()))
       (\<lambda>_. ?R (walk_result plan True)) (\<lambda>_. ?R (\<lambda>A. unlisted plan A \<or> walk_result plan False A))"
    proof (rule triple_bind)
      show "triple (?R (listed plan (?vms ds))) (switch_walk env (build_connection env ?K) plan (?vms ds) 0)
          (\<lambda>k. ?R (walk_result plan (k = 0))) (\<lambda>_. ?R (\<lambda>A. unlisted plan A \<or> walk_result plan False A))"
        by (rule triple_conseq [OF walk [OF refl]]) simp_all
      show "triple (?R (walk_result plan (k = 0))) (if 0 < k then failA (e k) else retA ())
         (\<lambda>_. ?R (walk_result plan True)) (\<lambda>_. ?R (\<lambda>A. unlisted plan A \<or> walk_result plan False A))" for k :: nat
        by (auto simp: triple_def elim!: reached_mono)
    qed
  qed
  show ?thesis
    unfolding run_all_vms_def Let_def
    by (rule triple_match_cases [OF call], simp only: result.case fin, simp only: result.case)
      (rule triple_fail, erule reached_mono, blast)
qed

lemma run_single_step:
  assumes "\<And>ref. (case filled given of Some x \<Rightarrow> ref = x | None \<Rightarrow> flavoured plan vm ref) \<Longrightarrow> refs vm ref"
  shows "triple (sreached plan refs t0 (\<lambda>_. True)) (run_single_vm env (build_connection env (sp_kvm_host plan)) plan vm given)
    (\<lambda>_. sreached plan refs t0 (\<lambda>_. True)) (\<lambda>_. sreached plan refs t0 (\<lambda>_. True))"
proof -
  let ?R = "sreached plan refs t0 (\<lambda>_. True)" and ?conn = "build_connection env (sp_kvm_host plan)"
  note say = switch_say_only [OF grows_mem(2) [of True]]
  have vm: "triple ?R (switch_vm env ?conn plan vm ref) (\<lambda>_. ?R) (\<lambda>_. ?R)" if "refs vm ref" for ref
  proof (cases "sp_dry_run plan")
    case True
    from dry_vm_step [OF True grows_mem(2) [of True]] show ?thesis by (rule triple_conseq) auto
  next
    case False
    from switch_vm_step [OF grows_mem(2) [of True] False, of refs, OF that] show ?thesis
      by (rule triple_conseq) (auto elim: reached_mono)
  qed
  have last_step: "triple ?R (matchA (switch_vm env ?conn plan vm ref) (\<lambda>r. case r of Ok _ \<Rightarrow> retA () | Err _ \<Rightarrow> switch_log q))
      (\<lambda>_. ?R) (\<lambda>_. ?R)" if "refs vm ref" for ref q
    by (rule triple_match_cases [OF vm [OF that]]) (simp_all only: result.case say, simp add: triple_def)
  show ?thesis
    unfolding run_single_vm_def
    using assms
    by (cases "filled given"; cases "flavor_for_vm vm")
      (auto simp: bindA_assoc flavoured_def intro!: triple_if triple_bind [OF say] say last_step triple_fail)
qed

lemma argv_switch: "sh_words (switch_cmd ref) = Some [''bootc'', ''switch'', ref]"
  by (simp add: switch_cmd_def argv_simps del: sh_lex.simps(2))

lemma switch_run_protocol:
  assumes "switch_run env args config w = (r, w')"
  shows "\<exists>evs. w_trace w' = w_trace w @ evs
    \<and> ordered (switch_protocol (plan_of args config) (target_ref args (plan_of args config))) evs
    \<and> (sg_bootc_switch_to_ghcr args \<longrightarrow> filled (sg_vm args) = None \<longrightarrow>
         (if is_ok r then walk_result (plan_of args config) True (set evs)
          else evs = [] \<or> unlisted (plan_of args config) (set evs) \<or> walk_result (plan_of args config) False (set evs)))
    \<and> (\<not> sg_bootc_switch_to_ghcr args \<longrightarrow> is_ok r \<and> evs = [Stdout ''[switch-to-ghcr] BOOTC_SWITCH_TO_GHCR=0; skipping.''])"
proof (cases "sg_bootc_switch_to_ghcr args")
  case False
  let ?e = "Stdout ''[switch-to-ghcr] BOOTC_SWITCH_TO_GHCR=0; skipping.''"
  from assms False have "w_trace w' = w_trace w @ [?e]" "is_ok r"
    by (auto simp: switch_run_def switch_log_def emit_def)
  moreover have "ordered p [?e]" if "p {} ?e" for p :: protocol
    using ordered_snoc [of p "[]" ?e] that by simp
  ultimately show ?thesis using False by (intro exI [of _ "[?e]"]) simp
next
  case on: True
  let ?plan = "plan_of args config"
  let ?refs = "target_ref args ?plan"
  let ?R = "sreached ?plan ?refs (w_trace w)"
  define body where "body = bindA (whenA (sp_dry_run ?plan) (switch_log ''DRY-RUN mode: no VM will be modified.'')) (\<lambda>_.
        bindA (case filled (sg_vm args) of
                 Some vm \<Rightarrow> run_single_vm env (build_connection env (sp_kvm_host ?plan)) ?plan vm (sg_ghcr_ref args)
               | None \<Rightarrow> run_all_vms env (build_connection env (sp_kvm_host ?plan)) ?plan) (\<lambda>_.
        whenA (sp_dry_run ?plan) (switch_log ''DRY-RUN done.'')))"
  show ?thesis
  proof (cases "\<exists>path e. config = Some (path, Err e)")
    case True
    with assms on show ?thesis by (auto simp: switch_run_def)
  next
    case False
    have pure: "bindA (Pair (Ok x)) f = f x" for x :: "cluster_config option" and f :: "cluster_config option \<Rightarrow> ('a, unit) act"
      by (simp add: bindA_def fun_eq_iff)
    have run: "body w = (r, w')"
      using assms on False
      by (auto simp: switch_run_def body_def plan_of_def Let_def pure split: option.splits prod.splits result.splits)
    let ?Q = "\<lambda>A. filled (sg_vm args) = None \<longrightarrow> walk_result ?plan True A"
    let ?E = "\<lambda>A. filled (sg_vm args) = None \<longrightarrow> unlisted ?plan A \<or> walk_result ?plan False A"
    have say: "triple (?R C) (whenA b (switch_log s)) (\<lambda>_. ?R C) E" if "grows C" for C b s E
    proof (cases b)
      case True
      then show ?thesis using switch_say_only [OF that] by simp
    qed (simp add: triple_def)
    have gQ: "grows ?Q" using walk_result_grows unfolding grows_def by blast
    have main: "triple (?R (\<lambda>_. True)) (case filled (sg_vm args) of
                 Some vm \<Rightarrow> run_single_vm env (build_connection env (sp_kvm_host ?plan)) ?plan vm (sg_ghcr_ref args)
               | None \<Rightarrow> run_all_vms env (build_connection env (sp_kvm_host ?plan)) ?plan) (\<lambda>_. ?R ?Q) (\<lambda>_. ?R ?E)"
    proof (cases "filled (sg_vm args)")
      case None
      then show ?thesis using run_all_step [where plan = ?plan and refs = ?refs] by (simp add: target_ref_def)
    next
      case (Some vm)
      then show ?thesis using run_single_step [where given = "sg_ghcr_ref args" and plan = ?plan and vm = vm and refs = ?refs] by (simp add: target_ref_def)
    qed
    have "triple (?R (\<lambda>_. True)) body (\<lambda>_. ?R ?Q) (\<lambda>_. ?R ?E)"
      unfolding body_def by (rule triple_bind [OF say [OF grows_mem(2)]] triple_bind [OF main] say [OF gQ])+
    from tripleD [OF this reached_start] run have "?R (if is_ok r then ?Q else ?E) w'" by (cases r) auto
    then show ?thesis using on by (elim reachedE) (auto split: if_splits)
  qed
qed

text \<open>C20. What is run where. Whatever the hosts answer: besides the two listings on the KVM host, commands go only to
  an address that \<open>virsh domifaddr\<close> gave for a name in this run; there \<open>true\<close> first, the status only after it
  succeeded, and \<open>bootc switch\<close> only to the reference of that name and only after a reading of the status that did
  not show it. The shell of the machine reads that command as three words. A dry run only lists and prints, and
  \<open>BOOTC_SWITCH_TO_GHCR=0\<close> prints one line and succeeds.\<close>

theorem switch_order:
  assumes "switch_run env args config w = (r, w')"
  shows "(\<exists>evs. w_trace w' = w_trace w @ evs
      \<and> ordered (switch_protocol (plan_of args config) (target_ref args (plan_of args config))) evs
      \<and> (\<not> sg_bootc_switch_to_ghcr args \<longrightarrow> is_ok r \<and> evs = [Stdout ''[switch-to-ghcr] BOOTC_SWITCH_TO_GHCR=0; skipping.'']))
    \<and> (\<forall>ref. sh_words (switch_cmd ref) = Some [''bootc'', ''switch'', ref])"
  using switch_run_protocol [OF assms] argv_switch by blast

text \<open>C21. The walk over all machines. When the live command without a machine's name succeeds, every running
  \<open>hummingbird-*\<close> machine with a known flavour tracks its reference, as read from it, or was switched to it; when it
  fails although the machines could be listed, each of them was still tried.\<close>

theorem switch_all_complete:
  assumes "switch_run env args config w = (r, w')"
    and "sg_bootc_switch_to_ghcr args" "filled (sg_vm args) = None" "\<not> sg_dry_run args"
  shows "\<exists>evs. w_trace w' = w_trace w @ evs \<and>
    (if is_ok r then \<exists>vms. listed (plan_of args config) vms (set evs) \<and> walked_all (plan_of args config) vms True (set evs)
     else evs = [] \<or> unlisted (plan_of args config) (set evs)
       \<or> (\<exists>vms. listed (plan_of args config) vms (set evs) \<and> walked_all (plan_of args config) vms False (set evs)))"
proof -
  have "\<not> sp_dry_run (plan_of args config)" using assms(4) by (simp add: plan_of_def switch_plan_from_args_def)
  with switch_run_protocol [OF assms(1)] assms(2,3) show ?thesis by (auto simp: walk_result_def)
qed

text \<open>A host with one machine, which has a lease, answers, and can be switched.\<close>

definition demo_env :: "unit env" where
  "demo_env =
     \<lparr>env_ssh = (\<lambda>_ _ _ x. (Ok \<lparr>ro_status = Exited 0, ro_stdout = [], ro_stderr = []\<rparr>, x)),
      env_sh = (\<lambda>_ x. (Ok \<lparr>ro_status = Exited 0,
        ro_stdout = ''hummingbird-k8s'' @ [NL] @ ''vnet0 52:54:00:00:00:01 ipv4 10.0.0.5/24'', ro_stderr = []\<rparr>, x)),
      env_sleep = (\<lambda>_ x. x)\<rparr>"

definition demo_switch :: switch_args where
  "demo_switch = \<lparr>sg_vm = None, sg_ghcr_ref = None, sg_kvm_host = None, sg_ghcr_org = None, sg_ghcr_tag = None,
     sg_bootc_switch_to_ghcr = True, sg_force_rebuild = False, sg_force_switch = False, sg_dry_run = False\<rparr>"

lemma switch_log_ok: "succeeds (switch_log q)"
  by (simp add: succeeds_def switch_log_def emit_def)

lemma demo_conn:
  "fst (conn_run (build_connection demo_env None) c s) = Ok (''hummingbird-k8s'' @ [NL] @ ''vnet0 52:54:00:00:00:01 ipv4 10.0.0.5/24'')"
  by (simp add: conn_run_def build_connection_def new_local_def local_client_run_def sh_run_def matchA_def demo_env_def
      exit_success_def)

lemma demo_running: "fst (running_domains (build_connection demo_env None) s) =
  Ok (parse_domain_list (''hummingbird-k8s'' @ [NL] @ ''vnet0 52:54:00:00:00:01 ipv4 10.0.0.5/24''))"
  using demo_conn [of "cmd_running_domains (kvm_uri None)" s]
  by (auto simp: running_domains_def kvm_uri bindA_def split: prod.splits result.splits)

lemma demo_switch_lease: "fst (domifaddr (build_connection demo_env None) ''hummingbird-k8s'' s) = Ok (Some (10, 0, 0, 5))"
proof -
  have "parse_domifaddr (''hummingbird-k8s'' @ [NL] @ ''vnet0 52:54:00:00:00:01 ipv4 10.0.0.5/24'')
      (cmd_domifaddr (kvm_uri None) ''hummingbird-k8s'') = Ok (Some (10, 0, 0, 5))" by code_simp
  then show ?thesis
    using demo_conn [of "cmd_domifaddr (kvm_uri None) ''hummingbird-k8s''" s]
    by (auto simp: domifaddr_def Let_def kvm_uri bindA_def split: prod.splits result.splits)
qed

lemma demo_vm:
  assumes "\<not> sp_dry_run plan"
  shows "succeeds (switch_vm demo_env (build_connection demo_env None) plan ''hummingbird-k8s'' ref)"
proof -
  note say = switch_log_ok
  have ssh: "succeeds (ssh_run demo_env opts c)" for opts c by (simp add: succeeds_def ssh_run_def ssh_run_in_def demo_env_def)
  have read: "succeeds (current_image_ref_with_exec demo_env opts)" for opts
    unfolding current_image_ref_with_exec_def by (intro succeeds_match succeeds_ret)
  have tries: "WAIT_TRIES = Suc 29" by (simp add: WAIT_TRIES_def)
  have ip: "fst (wait_for_ip_with demo_env (build_connection demo_env None) ''hummingbird-k8s'' WAIT_TRIES s) = Ok (Some (10, 0, 0, 5))" for s
    unfolding tries wait_for_ip_with.simps matchA_def using demo_switch_lease [of s] by (auto split: prod.splits)
  have up: "fst (wait_for_ssh_with demo_env opts WAIT_TRIES s) = Ok True" for opts s
    unfolding tries wait_for_ssh_with.simps matchA_def using ssh [of opts "''true''"] by (auto simp: succeeds_def split: prod.splits) (metis fst_conv)
  have one: "succeeds (switch_one_with_exec demo_env opts name ref)" for opts name
    unfolding switch_one_with_exec_def
    by (rule succeeds_bind [OF read])
      (auto intro!: succeeds_bind say succeeds_ret succeeds_match_ok [OF ssh] read)
  show ?thesis
    unfolding switch_vm_def if_not_P [OF assms] Let_def
    by (rule succeeds_bind [OF say] succeeds_bind_value [OF ip])+
      (simp add: succeeds_bind [OF say] succeeds_bind_value [OF up] one)
qed

lemma demo_switch_ok: "is_ok (fst (switch_run demo_env demo_switch None \<lparr>w_ext = (), w_trace = []\<rparr>))"
proof -
  let ?plan = "switch_plan_from_args demo_switch None" and ?conn = "build_connection demo_env None"
  have plan: "\<not> sp_dry_run ?plan" "sp_kvm_host ?plan = None" "filled (sg_vm demo_switch) = None"
      "sg_bootc_switch_to_ghcr demo_switch"
    by (simp_all add: switch_plan_from_args_def demo_switch_def filled_def or_opt_def)
  have vms: "filter (starts_with HUMMINGBIRD_PREFIX) (map dom_name (parse_domain_list
      (''hummingbird-k8s'' @ [NL] @ ''vnet0 52:54:00:00:00:01 ipv4 10.0.0.5/24''))) = [''hummingbird-k8s'']" by code_simp
  have walk: "fst (switch_walk demo_env ?conn ?plan [''hummingbird-k8s''] 0 s) = Ok 0" for s
    using succeedsD [OF demo_vm [OF plan(1)], of "ghcr_ref_for (sp_ghcr_org ?plan) ''hummingbird-k8s'' (sp_ghcr_tag ?plan)" s]
    by (auto simp: flavor_for_vm_def matchA_def)
  have "succeeds (run_all_vms demo_env ?conn ?plan)"
    unfolding run_all_vms_def Let_def
  proof (rule succeeds_match_value [OF demo_running])
    show "succeeds (case Ok (parse_domain_list (''hummingbird-k8s'' @ [NL] @ ''vnet0 52:54:00:00:00:01 ipv4 10.0.0.5/24''))
        :: (virt_error, domain list) result of Err e \<Rightarrow> failA (m e)
      | Ok running \<Rightarrow> if filter (starts_with HUMMINGBIRD_PREFIX) (map dom_name running) = [] then switch_log q
          else bindA (switch_walk demo_env ?conn ?plan (filter (starts_with HUMMINGBIRD_PREFIX) (map dom_name running)) 0)
            (\<lambda>failed. if 0 < failed then failA (m2 failed) else retA ()))" for m m2 q
      unfolding result.case vms
      by (simp del: switch_walk.simps add: succeeds_bind_value [OF walk] succeeds_ret)
  qed
  then have "succeeds (switch_run demo_env demo_switch None)"
    unfolding switch_run_def using plan(4) by (simp add: plan(1-3) Let_def succeeds_bind succeeds_ret)
  then show ?thesis by (simp add: succeeds_def)
qed

theorem switch_order_witness:
  "\<exists>evs. evs \<noteq> [] \<and> ordered (switch_protocol (plan_of demo_switch None) (target_ref demo_switch (plan_of demo_switch None))) evs"
proof -
  let ?w = "\<lparr>w_ext = (), w_trace = []\<rparr> :: unit world"
  obtain r w' where run: "switch_run demo_env demo_switch None ?w = (r, w')" by (cases "switch_run demo_env demo_switch None ?w")
  from switch_order [OF run] obtain evs where evs: "w_trace w' = evs"
      "ordered (switch_protocol (plan_of demo_switch None) (target_ref demo_switch (plan_of demo_switch None))) evs" by auto
  have "sg_bootc_switch_to_ghcr demo_switch" "filled (sg_vm demo_switch) = None" "\<not> sg_dry_run demo_switch"
    by (simp_all add: demo_switch_def filled_def)
  from switch_run_protocol [OF run] this evs(1) demo_switch_ok run have "walk_result (plan_of demo_switch None) True (set evs)"
    by auto
  then have "evs \<noteq> []" by (auto simp: walk_result_def listed_def plan_of_def switch_plan_from_args_def demo_switch_def)
  with evs show ?thesis by blast
qed

theorem switch_all_complete_witness:
  "\<exists>vms evs. listed (plan_of demo_switch None) vms (set evs) \<and> walked_all (plan_of demo_switch None) vms True (set evs)"
proof -
  let ?w = "\<lparr>w_ext = (), w_trace = []\<rparr> :: unit world"
  obtain r w' where run: "switch_run demo_env demo_switch None ?w = (r, w')" by (cases "switch_run demo_env demo_switch None ?w")
  have "sg_bootc_switch_to_ghcr demo_switch" "filled (sg_vm demo_switch) = None" "\<not> sg_dry_run demo_switch"
    by (simp_all add: demo_switch_def filled_def)
  from switch_all_complete [OF run this] demo_switch_ok run show ?thesis by auto
qed

section \<open>Exit codes and waiting\<close>

text \<open>The exit of the command for one machine: it fails exactly when no reference was given, the flavour of the name is
  unknown, and \<open>FORCE_REBUILD\<close> does not make it skip; no answer of any host makes it fail. With \<open>FORCE_REBUILD\<close> and not
  \<open>FORCE_SWITCH\<close> it only prints.\<close>

theorem run_single_vm_exit:
  "(is_ok (fst (run_single_vm env conn plan vm given w)) \<longleftrightarrow>
      sp_force_rebuild plan \<and> \<not> sp_force_switch plan \<or> filled given \<noteq> None \<or> flavor_for_vm vm \<noteq> None)
   \<and> (sp_force_rebuild plan \<and> \<not> sp_force_switch plan \<longrightarrow> quiet (run_single_vm env conn plan vm given))"
proof -
  note say = switch_log_ok
  have last_step: "succeeds (matchA (switch_vm env conn plan vm ref) (\<lambda>r. case r of Ok _ \<Rightarrow> retA () | Err _ \<Rightarrow> switch_log q))" for ref q
    by (rule succeeds_match) (auto intro: say succeeds_ret split: result.split)
  have skip: "succeeds (bindA (switch_log q) (\<lambda>_. switch_log q2))"
      "quiet (bindA (switch_log q) (\<lambda>_. switch_log q2))" for q q2
    by (intro succeeds_bind say) (unfold switch_log_def, intro quiet_intro; simp)
  have bad: "\<not> is_ok (fst (bindA (bindA (switch_log q) (\<lambda>_. failA e)) f w))" for q e f w
    by (simp add: bindA_def switch_log_def emit_def)
  show ?thesis
  proof (cases "sp_force_rebuild plan \<and> \<not> sp_force_switch plan")
    case True
    have "succeeds (run_single_vm env conn plan vm given)" "quiet (run_single_vm env conn plan vm given)"
      unfolding run_single_vm_def if_P [OF True] by (rule skip)+
    with True show ?thesis by (simp add: succeeds_def)
  next
    case False
    note unfold = run_single_vm_def if_not_P [OF False]
    consider ref where "filled given = Some ref" | fl where "filled given = None" "flavor_for_vm vm = Some fl"
      | "filled given = None" "flavor_for_vm vm = None" by fastforce
    then show ?thesis
    proof cases
      case 1
      have "succeeds (run_single_vm env conn plan vm given)" unfolding unfold 1 option.case action_simps(4) by (rule last_step)
      with 1 False show ?thesis by (auto simp: succeeds_def)
    next
      case 2
      have "succeeds (run_single_vm env conn plan vm given)" unfolding unfold 2 option.case action_simps(4) by (rule last_step)
      with 2 False show ?thesis by (auto simp: succeeds_def)
    next
      case 3
      have "\<not> is_ok (fst (run_single_vm env conn plan vm given w))" unfolding unfold 3 option.case by (rule bad)
      with 3 False show ?thesis by auto
    qed
  qed
qed

theorem run_single_vm_exit_witness:
  fixes plan :: switch_plan
  defines "plan \<equiv> \<lparr>sp_ghcr_org = ''ghcr.io/o'', sp_ghcr_tag = ''latest'', sp_kvm_host = None,
    sp_force_rebuild = True, sp_force_switch = False, sp_dry_run = False\<rparr>"
  shows "quiet (run_single_vm demo_env (build_connection demo_env None) plan ''other'' None)
    \<and> \<not> is_ok (fst (run_single_vm demo_env (build_connection demo_env None) (plan\<lparr>sp_force_switch := True\<rparr>) ''other'' None
        \<lparr>w_ext = (), w_trace = []\<rparr>))"
proof
  show "quiet (run_single_vm demo_env (build_connection demo_env None) plan ''other'' None)"
    using run_single_vm_exit [where plan = plan and vm = "''other''" and given = None] by (auto simp: plan_def)
  have "flavor_for_vm ''other'' = None" by code_simp
  then show "\<not> is_ok (fst (run_single_vm demo_env (build_connection demo_env None) (plan\<lparr>sp_force_switch := True\<rparr>) ''other'' None
        \<lparr>w_ext = (), w_trace = []\<rparr>))"
    using run_single_vm_exit [where plan = "plan\<lparr>sp_force_switch := True\<rparr>" and vm = "''other''" and given = None]
    by (simp add: plan_def filled_def)
qed

lemma awake_steps:
  "adds awake (domifaddr (build_connection env kvm) name)" "adds awake (switch_log s)" "adds awake (ssh_run env opts c)"
proof -
  have quiet_run: "slept ev = 0" if "ran_on kvm c ev" for c ev using that by (cases ev) auto
  show "adds awake (domifaddr (build_connection env kvm) name)"
    unfolding adds_def
  proof
    fix w
    obtain r w' where run: "domifaddr (build_connection env kvm) name w = (r, w')" by (cases "domifaddr (build_connection env kvm) name w")
    from domifaddr_event [OF run] obtain ev where "w_trace w' = w_trace w @ [ev]" "ran_on kvm (cmd_domifaddr (kvm_uri kvm) name) ev" by blast
    with run quiet_run show "\<exists>evs. w_trace (snd (domifaddr (build_connection env kvm) name w)) = w_trace w @ evs \<and> list_all awake evs"
      by (intro exI [of _ "[ev]"]) simp
  qed
  show "adds awake (switch_log s)" unfolding switch_log_def by (rule adds_emit) simp
  show "adds awake (ssh_run env opts c)" by (rule adds_ssh_run) simp
qed

lemma nap_costs: "sleeps_at_most (if b then WAIT_INTERVAL_SECS else 0) (whenA b (sleep env WAIT_INTERVAL_SECS))"
  by (cases b) (simp_all add: sleeps_sleep)

lemma nap_then:
  assumes "sleeps_at_most (WAIT_INTERVAL_SECS * (n - 1)) m"
  shows "sleeps_at_most (WAIT_INTERVAL_SECS * n) (bindA (whenA (0 < n) (sleep env WAIT_INTERVAL_SECS)) (\<lambda>_. m))"
proof -
  have "(if 0 < n then WAIT_INTERVAL_SECS else 0) + WAIT_INTERVAL_SECS * (n - 1) = WAIT_INTERVAL_SECS * n" by (cases n) simp_all
  with costs_bind [OF nap_costs, where f = "\<lambda>_. m", OF assms] show ?thesis by metis
qed

lemma wait_costs:
  "sleeps_at_most (WAIT_INTERVAL_SECS * (n - 1)) (wait_for_ip_with env (build_connection env kvm) name n)"
  "sleeps_at_most (WAIT_INTERVAL_SECS * (n - 1)) (wait_for_ssh_with env opts n)"
proof (induction n)
  case (Suc n)
  note rest = nap_then [OF Suc(1)] nap_then [OF Suc(2)]
  {
    case 1
    have "sleeps_at_most (0 + WAIT_INTERVAL_SECS * n) (wait_for_ip_with env (build_connection env kvm) name (Suc n))"
      unfolding wait_for_ip_with.simps
      by (rule costs_match [OF sleeps_adds [OF awake_steps(1)]]) (simp add: rest split: result.split option.split)
    then show ?case by simp
  next
    case 2
    have "sleeps_at_most (0 + WAIT_INTERVAL_SECS * n) (wait_for_ssh_with env opts (Suc n))"
      unfolding wait_for_ssh_with.simps
      by (rule costs_match [OF sleeps_adds [OF awake_steps(3)]]) (simp add: rest)
    then show ?case by simp
  }
qed simp_all

lemma switch_vm_costs: "sleeps_at_most 116 (switch_vm env (build_connection env kvm) plan name ref)"
proof -
  have w: "WAIT_INTERVAL_SECS * (WAIT_TRIES - 1) = 58" by (simp add: WAIT_INTERVAL_SECS_def WAIT_TRIES_def)
  have "adds awake (switch_one_with_exec env opts name ref)" for opts
    unfolding switch_one_with_exec_def current_image_ref_with_exec_def by (intro adds_intro awake_steps)
  note one = sleeps_adds [OF this, of 0]
  have fail: "sleeps_at_most n (bindA (switch_log q) (\<lambda>_. failA e))" for n q e
    by (rule sleeps_adds) (intro adds_intro awake_steps)
  have up: "sleeps_at_most (0 + (58 + 0)) (bindA (switch_log q0) (\<lambda>_. bindA (wait_for_ssh_with env opts WAIT_TRIES) (\<lambda>up.
      if \<not> up then bindA (switch_log q) (\<lambda>_. failA e) else switch_one_with_exec env opts2 name ref)))" for opts opts2 q0 q e
    by (rule costs_bind [OF sleeps_adds [OF awake_steps(2)]], rule costs_bind [OF wait_costs(2) [of WAIT_TRIES, unfolded w]])
      (simp add: one fail)
  have "sleeps_at_most (0 + (58 + 58)) (switch_vm env (build_connection env kvm) plan name ref)" if "\<not> sp_dry_run plan"
    unfolding switch_vm_def if_not_P [OF that] Let_def
    by (rule costs_bind [OF sleeps_adds [OF awake_steps(2)]], rule costs_bind [OF wait_costs(1) [of WAIT_TRIES, unfolded w]])
      (use up fail in \<open>auto split: option.split\<close>)
  moreover have "sleeps_at_most 116 (switch_vm env (build_connection env kvm) plan name ref)" if "sp_dry_run plan"
    unfolding switch_vm_def if_P [OF that] by (rule sleeps_adds) (intro adds_intro awake_steps)
  ultimately show ?thesis by (cases "sp_dry_run plan") simp_all
qed

text \<open>Waiting is bounded: whatever the hosts answer, the two wait loops of one machine together sleep at most 116
  seconds, two seconds between two of the thirty attempts each.\<close>

theorem switch_vm_wait_bound:
  "\<exists>evs. w_trace (snd (switch_vm env (build_connection env (sp_kvm_host plan)) plan name ref w)) = w_trace w @ evs
     \<and> sum_list (map slept evs) \<le> 116"
  using switch_vm_costs unfolding costs_def by blast

end
