(* ===== verification/Spawn_Workers.thy ===== *)
theory Spawn_Workers
  imports Deploy_Cluster
begin

text \<open>
  \<open>hbird spawn-workers\<close> (\<open>commands/spawn_workers.rs\<close>): more workers for a running control plane. Each is a clone of the
  worker template with the join command written into its disk by \<open>guestfish\<close> or \<open>virt-customize\<close>. The steps are those of
  \<open>run\<close>, the dry run included; the configuration is what \<open>hbird_config::parse\<close> gave for the file.
\<close>

section \<open>Arguments and plan\<close>

record spawn_args =
  sa_config :: string
  sa_count :: nat
  sa_kvm_host :: "string option"
  sa_no_sudo :: bool
  sa_dry_run :: bool
  sa_cp_ssh_retries :: nat
  sa_cp_ssh_retry_sleep_secs :: nat
  sa_token_ttl :: string
  sa_force_rebuild :: bool
  sa_force_switch :: bool

record spawn_plan =
  wp_config_path :: string
  wp_cp_name :: string
  wp_pool_dir :: string
  wp_count :: nat
  wp_worker_memory :: nat
  wp_worker_vcpus :: nat
  wp_token_ttl :: string
  wp_kvm_host :: "string option"
  wp_no_sudo :: bool
  wp_dry_run :: bool
  wp_cp_ssh_retries :: nat
  wp_cp_ssh_retry_sleep_secs :: nat
  wp_force_rebuild :: bool
  wp_force_switch :: bool
  wp_ssh_pubkey_file :: string

definition spawn_log :: "string \<Rightarrow> ('w world, 'e, unit) action" where
  "spawn_log line = println (''[spawn-workers] '' @ line)"

definition spawn_plan_from_args :: "spawn_args \<Rightarrow> cluster_config \<Rightarrow> spawn_plan" where
  "spawn_plan_from_args args config =
     \<lparr>wp_config_path = sa_config args, wp_cp_name = cp_name config, wp_pool_dir = pool_dir config,
      wp_count = sa_count args, wp_worker_memory = worker_memory config, wp_worker_vcpus = worker_vcpus config,
      wp_token_ttl = sa_token_ttl args, wp_kvm_host = or_opt (sa_kvm_host args) (kvm_host config),
      wp_no_sudo = sa_no_sudo args, wp_dry_run = sa_dry_run args, wp_cp_ssh_retries = sa_cp_ssh_retries args,
      wp_cp_ssh_retry_sleep_secs = sa_cp_ssh_retry_sleep_secs args, wp_force_rebuild = sa_force_rebuild args,
      wp_force_switch = sa_force_switch args, wp_ssh_pubkey_file = ssh_pubkey_file config\<rparr>"

definition worker_name :: "nat \<Rightarrow> string" where
  "worker_name i = ''hummingbird-k8s-worker-'' @ show_nat i"

definition template_path :: "spawn_plan \<Rightarrow> string" where
  "template_path plan = wp_pool_dir plan @ ''/hummingbird-k8s-worker.qcow2''"

definition worker_qcow :: "spawn_plan \<Rightarrow> nat \<Rightarrow> string" where
  "worker_qcow plan i = wp_pool_dir plan @ ''/'' @ worker_name i @ ''.qcow2''"

datatype injector = Guestfish | VirtCustomize

section \<open>Command lines\<close>

definition guestfish_ls_stateroot_cmd :: "string \<Rightarrow> string" where
  "guestfish_ls_stateroot_cmd qcow =
     ''guestfish --ro -a '' @ sh_quote qcow @ '' run : mount /dev/sda4 / : ls /ostree/deploy 2>/dev/null | grep -v ''
     @ quoted ''^$'' @ '' | head -1''"

definition guestfish_ls_deploy_cmd :: "string \<Rightarrow> string \<Rightarrow> string" where
  "guestfish_ls_deploy_cmd qcow stateroot =
     ''guestfish --ro -a '' @ sh_quote qcow @ '' run : mount /dev/sda4 / : ls /ostree/deploy/'' @ sh_quote stateroot
     @ ''/deploy 2>/dev/null | grep -v '' @ quoted ([BSL] @ ''.origin$'') @ '' | grep -v '' @ quoted ''^$'' @ '' | head -1''"

definition guestfish_inject_cmd :: "string \<Rightarrow> string \<Rightarrow> string \<Rightarrow> string" where
  "guestfish_inject_cmd qcow etc_path tmpfile =
     ''guestfish --rw -a '' @ sh_quote qcow @ '' <<'' @ quoted ''GUESTFISH_HBIRD_EOF'' @ [NL]
     @ ''run'' @ [NL] @ ''mount /dev/sda4 /'' @ [NL] @ ''mkdir-p '' @ etc_path @ [NL]
     @ ''upload '' @ sh_quote tmpfile @ '' '' @ etc_path @ ''/worker-join.env'' @ [NL]
     @ ''chmod 0600 '' @ etc_path @ ''/worker-join.env'' @ [NL]
     @ ''chown 0 0 '' @ etc_path @ ''/worker-join.env'' @ [NL] @ ''GUESTFISH_HBIRD_EOF''"

definition virt_customize_inject_cmd :: "string \<Rightarrow> string \<Rightarrow> string" where
  "virt_customize_inject_cmd qcow tmpfile =
     ''virt-customize -a '' @ sh_quote qcow @ '' --mkdir /etc/hummingbird --upload ''
     @ quoted (tmpfile @ '':/etc/hummingbird/worker-join.env'')
     @ '' --run-command '' @ quoted ''chmod 0600 /etc/hummingbird/worker-join.env''
     @ '' --run-command '' @ quoted ''chown root:root /etc/hummingbird/worker-join.env''"

definition write_join_tmp_cmd :: "string \<Rightarrow> string \<Rightarrow> string" where
  "write_join_tmp_cmd join_cmd tmpfile =
     ''printf '' @ quoted (''%s'' @ [BSL] @ ''n'') @ '' '' @ sh_quote join_cmd @ '' > '' @ sh_quote tmpfile"

section \<open>The control plane and the injector\<close>

definition probe_domifaddr :: "'w world connection \<Rightarrow> string \<Rightarrow> ('w, ipv4 option) act" where
  "probe_domifaddr conn name =
     matchA (domifaddr conn name) (\<lambda>r. retA (case r of Ok ip \<Rightarrow> ip | Err _ \<Rightarrow> None))"

definition plan_cp_ip_resolve :: "'w env \<Rightarrow> spawn_plan \<Rightarrow> 'w world connection \<Rightarrow> ('w, string) act" where
  "plan_cp_ip_resolve env plan conn =
     (if wp_dry_run plan then
        bindA (spawn_log (''DRY-RUN would resolve CP IP via '' @ quoted (''virsh domifaddr '' @ wp_cp_name plan))) (\<lambda>_.
        retA ''<resolved-at-runtime>'')
      else
        bindA (spawn_log (''waiting for CP IP via virsh domifaddr '' @ wp_cp_name plan @ ''...'')) (\<lambda>_.
        bindA (retry_cell env (wp_cp_ssh_retries plan) (wp_cp_ssh_retry_sleep_secs plan)
          (probe_domifaddr conn (wp_cp_name plan))) (\<lambda>found.
        case found of
          None \<Rightarrow> failA [''could not resolve CP IP via virsh domifaddr after '' @ show_nat (wp_cp_ssh_retries plan) @ '' retries'']
        | Some ip \<Rightarrow> bindA (spawn_log (''CP IP: '' @ ipv4_display ip)) (\<lambda>_. retA (ipv4_display ip)))))"

definition PROBE_INJECTOR :: string where
  "PROBE_INJECTOR = ''command -v guestfish && echo guestfish || (command -v virt-customize && echo virt-customize) || echo none''"

definition INSTALL_INJECTOR :: string where
  "INSTALL_INJECTOR = ''command -v dnf >/dev/null 2>&1 && (dnf install -y libguestfs-tools-c >/dev/null 2>&1 || ''
     @ ''dnf install -y libguestfs-tools >/dev/null 2>&1) || true''"

text \<open>\<open>exec_shell(..).unwrap_or_default().trim()\<close>.\<close>

definition shell_text :: "'w world connection \<Rightarrow> string \<Rightarrow> ('w, string) act" where
  "shell_text conn cmd = matchA (exec_shell conn cmd) (\<lambda>r. retA (trim (case r of Ok out \<Rightarrow> out | Err _ \<Rightarrow> [])))"

definition injector_of :: "string \<Rightarrow> injector option" where
  "injector_of probe =
     (if contains ''guestfish'' probe then Some Guestfish
      else if contains ''virt-customize'' probe then Some VirtCustomize
      else None)"

definition plan_injector_detect :: "spawn_plan \<Rightarrow> 'w world connection \<Rightarrow> ('w, injector) act" where
  "plan_injector_detect plan conn =
     (if wp_dry_run plan then
        bindA (spawn_log (''DRY-RUN would probe for guestfish (preferred for bootc/ostree) or virt-customize (fallback) on the KVM host'')) (\<lambda>_.
        retA Guestfish)
      else
        bindA (shell_text conn PROBE_INJECTOR) (\<lambda>probe.
        case injector_of probe of
          Some tool \<Rightarrow> retA tool
        | None \<Rightarrow>
            bindA (spawn_log (''guestfish/virt-customize not found '' @ EM_DASH @ '' attempting dnf install...'')) (\<lambda>_.
            bindA (dropA (exec_shell conn INSTALL_INJECTOR)) (\<lambda>_.
            bindA (shell_text conn PROBE_INJECTOR) (\<lambda>probe2.
            case injector_of probe2 of
              Some tool \<Rightarrow> retA tool
            | None \<Rightarrow> failA [''guestfish/virt-customize unavailable and auto-install failed; ''
                @ ''install libguestfs-tools-c (or libguestfs-tools) on the KVM host''])))))"

section \<open>Writing the join command into a disk\<close>

text \<open>\<open>Path::file_stem\<close>: the last component that is not \<open>.\<close>, up to its last dot.\<close>

definition file_name :: "string \<Rightarrow> string option" where
  "file_name path =
     (case rev (filter (\<lambda>c. c \<noteq> [] \<and> c \<noteq> ''.'') (split_on (CHR ''/'') path)) of
        [] \<Rightarrow> None
      | c # _ \<Rightarrow> if c = ''..'' then None else Some c)"

definition file_stem :: "string \<Rightarrow> string option" where
  "file_stem path =
     (case file_name path of
        None \<Rightarrow> None
      | Some f \<Rightarrow>
          (case rsplit_once (CHR ''.'') f of
             Some (stem, _) \<Rightarrow> Some (if stem = [] then f else stem)
           | None \<Rightarrow> Some f))"

definition join_tmpfile :: "nat \<Rightarrow> string \<Rightarrow> string" where
  "join_tmpfile pid qcow = ''/tmp/hbird-join-'' @ show_nat pid @ ''-'' @ unwrap_or (file_stem qcow) ''worker'' @ ''.env''"

definition etc_path_of :: "string \<Rightarrow> string \<Rightarrow> string" where
  "etc_path_of stateroot deploy_hash =
     (if stateroot \<noteq> [] \<and> deploy_hash \<noteq> [] then ''/ostree/deploy/'' @ stateroot @ ''/deploy/'' @ deploy_hash @ ''/etc/hummingbird''
      else ''/etc/hummingbird'')"

definition inject_with :: "'w world connection \<Rightarrow> string \<Rightarrow> string \<Rightarrow> injector \<Rightarrow> ('w, string) act" where
  "inject_with conn qcow tmpfile tool =
     (case tool of
        Guestfish \<Rightarrow>
          bindA (shell_text conn (guestfish_ls_stateroot_cmd qcow)) (\<lambda>stateroot.
          bindA (if stateroot \<noteq> [] then shell_text conn (guestfish_ls_deploy_cmd qcow stateroot) else retA []) (\<lambda>deploy_hash.
          or_bail ''guestfish inject failed: ''
            (exec_shell conn (guestfish_inject_cmd qcow (etc_path_of stateroot deploy_hash) tmpfile))))
      | VirtCustomize \<Rightarrow>
          or_bail ''virt-customize inject failed: '' (exec_shell conn (virt_customize_inject_cmd qcow tmpfile)))"

definition inject_join_env :: "nat \<Rightarrow> 'w world connection \<Rightarrow> string \<Rightarrow> string \<Rightarrow> injector \<Rightarrow> ('w, unit) act" where
  "inject_join_env pid conn qcow join_cmd tool =
     (let tmpfile = join_tmpfile pid qcow in
      bindA (or_bail (''could not write join tmpfile '' @ tmpfile @ '': '')
        (exec_shell conn (write_join_tmp_cmd join_cmd tmpfile))) (\<lambda>_.
      matchA (inject_with conn qcow tmpfile tool) (\<lambda>result.
      bindA (dropA (exec_shell conn (''rm -f -- '' @ sh_quote tmpfile))) (\<lambda>_.
      case result of Ok _ \<Rightarrow> retA () | Err e \<Rightarrow> failA e))))"

section \<open>The workers\<close>

definition mint_cmd :: "spawn_plan \<Rightarrow> string \<Rightarrow> string \<Rightarrow> string" where
  "mint_cmd plan privkey_path ip =
     cp_ssh_cmd privkey_path ip (''kubeadm token create --ttl '' @ wp_token_ttl plan @ '' --print-join-command'')"

definition probe_join :: "'w world connection \<Rightarrow> string \<Rightarrow> ('w, string option) act" where
  "probe_join conn cmd =
     matchA (exec_shell conn cmd) (\<lambda>r. retA
       (case r of
          Ok out \<Rightarrow> if starts_with ''kubeadm join'' (trim out) then Some (trim out) else None
        | Err _ \<Rightarrow> None))"

definition worker_tag :: "spawn_plan \<Rightarrow> nat \<Rightarrow> string" where
  "worker_tag plan i = ''worker '' @ show_nat i @ ''/'' @ show_nat (wp_count plan) @ '': ''"

definition dry_spawn :: "spawn_plan \<Rightarrow> string \<Rightarrow> nat \<Rightarrow> ('w, unit) act" where
  "dry_spawn plan ip i =
     (let name = worker_name i; qcow = worker_qcow plan i; tag = ''DRY-RUN '' @ worker_tag plan i in
      bindA (spawn_log (tag @ ''would skip '' @ name @ '' if '' @ quoted (''virsh dominfo '' @ name)
        @ '' succeeds (re-uses existing VM via '' @ quoted ''virsh start'' @ '')'')) (\<lambda>_.
      bindA (spawn_log (tag @ ''would clone '' @ template_path plan @ '' -> '' @ qcow @ '' (reflink=auto), chmod 0644'')) (\<lambda>_.
      bindA (spawn_log (tag @ ''would mint '' @ wp_token_ttl plan @ ''-TTL kubeadm join token via ''
        @ quoted (''ssh root@'' @ ip @ '' kubeadm token create --print-join-command'') @ '' (with retry)'')) (\<lambda>_.
      bindA (spawn_log (tag @ ''would inject join command into '' @ qcow @ '' at /etc/hummingbird/worker-join.env via guestfish ''
        @ ''(bootc-aware: discovers /ostree/deploy/<stateroot>/deploy/<commit>.0)'')) (\<lambda>_.
      spawn_log (tag @ ''would virt-install '' @ name @ '' (memory='' @ show_nat (wp_worker_memory plan) @ '' vcpus=''
        @ show_nat (wp_worker_vcpus plan) @ '') attaching '' @ qcow))))))"

text \<open>What follows \<open>dominfo\<close> for a worker that is not defined.\<close>

definition create_worker ::
  "'w env \<Rightarrow> nat \<Rightarrow> spawn_plan \<Rightarrow> 'w world connection \<Rightarrow> string \<Rightarrow> string \<Rightarrow> injector \<Rightarrow> nat \<Rightarrow> ('w, unit) act" where
  "create_worker env pid plan conn ip privkey_path tool i =
     (let name = worker_name i; qcow = worker_qcow plan i; template = template_path plan; tag = worker_tag plan i in
      bindA (spawn_log (tag @ ''cloning '' @ template @ '' -> '' @ qcow)) (\<lambda>_.
      bindA (or_bail (''reflink clone '' @ template @ '' -> '' @ qcow @ '' failed: '') (remote_cp_reflink conn template qcow)) (\<lambda>_.
      bindA (spawn_log (tag @ ''minting '' @ wp_token_ttl plan @ ''-TTL kubeadm join token from CP'')) (\<lambda>_.
      bindA (retry_cell env (wp_cp_ssh_retries plan) (wp_cp_ssh_retry_sleep_secs plan)
        (probe_join conn (mint_cmd plan privkey_path ip))) (\<lambda>minted.
      case minted of
        None \<Rightarrow>
          bindA (dropA (remote_rm_f conn qcow)) (\<lambda>_.
          failA [''could not mint kubeadm join token from CP after '' @ show_nat (wp_cp_ssh_retries plan) @ '' retries''])
      | Some join_cmd \<Rightarrow>
          bindA (spawn_log (tag @ ''injecting join env into '' @ qcow)) (\<lambda>_.
          bindA (matchA (inject_join_env pid conn qcow join_cmd tool) (\<lambda>r.
            case r of
              Ok _ \<Rightarrow> retA ()
            | Err e \<Rightarrow> bindA (dropA (remote_rm_f conn qcow)) (\<lambda>_.
                failA [''inject_join_env for '' @ name @ '' failed: '' @ err_to_string e]))) (\<lambda>_.
          bindA (spawn_log (tag @ ''virt-install '' @ name @ '' (memory='' @ show_nat (wp_worker_memory plan) @ '' vcpus=''
            @ show_nat (wp_worker_vcpus plan) @ '')'')) (\<lambda>_.
          or_bail (''virt-install '' @ name @ '' failed: '')
            (virt_install conn name (wp_worker_memory plan) (wp_worker_vcpus plan) qcow None)))))))))"

definition spawn_one ::
  "'w env \<Rightarrow> nat \<Rightarrow> spawn_plan \<Rightarrow> 'w world connection \<Rightarrow> string \<Rightarrow> string \<Rightarrow> injector \<Rightarrow> nat \<Rightarrow> ('w, unit) act" where
  "spawn_one env pid plan conn ip privkey_path tool i =
     (if wp_dry_run plan then dry_spawn plan ip i
      else
        matchA (dominfo conn (worker_name i)) (\<lambda>r.
          case r of
            Ok _ \<Rightarrow>
              bindA (spawn_log (worker_tag plan i @ worker_name i @ '' already defined '' @ EM_DASH @ '' starting'')) (\<lambda>_.
              matchA (start_domain conn (worker_name i)) (\<lambda>s.
                case s of
                  Ok _ \<Rightarrow> retA ()
                | Err e \<Rightarrow> spawn_log (''WARN: virsh start '' @ worker_name i @ '' failed (may already be running): '' @ virt_error_display e)))
          | Err (VirshFailed c err) \<Rightarrow> create_worker env pid plan conn ip privkey_path tool i
          | Err e \<Rightarrow> failA [''dominfo probe for '' @ worker_name i @ '': '' @ virt_error_display e]))"

definition check_template :: "spawn_plan \<Rightarrow> 'w world connection \<Rightarrow> ('w, unit) act" where
  "check_template plan conn =
     (let template = template_path plan in
      if wp_dry_run plan then
        spawn_log (''DRY-RUN worker template qcow2: '' @ template @ '' (must exist; bash twin fails fast when missing)'')
      else
        matchA (remote_path_exists conn template) (\<lambda>r.
          case r of
            Ok True \<Rightarrow> spawn_log (''worker template qcow2: '' @ template)
          | Ok False \<Rightarrow> failA [''worker template qcow2 '' @ template @ '' does not exist. Build it first ''
              @ ''(`make image-worker` + bib, or `make spawn-workers` which builds it), ''
              @ ''or point POOL_DIR at the directory that holds it.'']
          | Err e \<Rightarrow> failA [''could not stat worker template qcow2 '' @ template @ '': '' @ virt_error_display e]))"

definition plan_worker_loop ::
  "'w env \<Rightarrow> nat \<Rightarrow> spawn_plan \<Rightarrow> 'w world connection \<Rightarrow> string \<Rightarrow> string \<Rightarrow> injector \<Rightarrow> ('w, unit) act" where
  "plan_worker_loop env pid plan conn ip privkey_path tool =
     bindA (check_template plan conn) (\<lambda>_.
     bindA (forA [1..<Suc (wp_count plan)] (spawn_one env pid plan conn ip privkey_path tool)) (\<lambda>_.
     if wp_dry_run plan then
       spawn_log (''DRY-RUN would virsh pool-refresh after spawning '' @ show_nat (wp_count plan) @ '' worker(s)'')
     else
       matchA (virsh_pool_refresh conn ''mass2'') (\<lambda>r.
         case r of
           Ok _ \<Rightarrow> retA ()
         | Err e \<Rightarrow> spawn_log (''WARN: virsh pool-refresh mass2 failed: '' @ virt_error_display e))))"

section \<open>Moving the workers to the published image\<close>

definition WORKER_REF :: string where "WORKER_REF = ''ghcr.io/aatchison/hummingbird-k8s-worker:latest''"

definition switch_worker :: "'w world connection \<Rightarrow> string \<Rightarrow> nat \<Rightarrow> ('w, unit) act" where
  "switch_worker conn privkey_path i =
     bindA (probe_domifaddr conn (worker_name i)) (\<lambda>found.
     case found of
       Some ip \<Rightarrow>
         matchA (exec_shell conn (cp_ssh_cmd privkey_path (ipv4_display ip) (''bootc switch '' @ WORKER_REF))) (\<lambda>r.
           case r of
             Ok _ \<Rightarrow> retA ()
           | Err e \<Rightarrow> spawn_log (''WARN: bootc switch failed for '' @ worker_name i @ '': '' @ virt_error_display e
               @ '' (VM still tracks localhost:latest)''))
     | None \<Rightarrow> spawn_log (''WARN: could not resolve IP for '' @ worker_name i @ ''; skipping bootc switch''))"

definition plan_bootc_switch :: "'w host \<Rightarrow> spawn_plan \<Rightarrow> 'w world connection \<Rightarrow> string \<Rightarrow> ('w, unit) act" where
  "plan_bootc_switch host plan conn privkey_path =
     (if host_var host ''BOOTC_SWITCH_TO_GHCR'' = Some ''0'' then spawn_log ''skipped (BOOTC_SWITCH_TO_GHCR=0)''
      else if wp_dry_run plan then
        forA [1..<Suc (wp_count plan)] (\<lambda>i. spawn_log (''DRY-RUN would run ''
          @ quoted (''scripts/switch-to-ghcr.sh '' @ worker_name i @ '' '' @ WORKER_REF) @ '' (best-effort per worker)''))
      else if wp_force_rebuild plan \<and> \<not> wp_force_switch plan then
        spawn_log (''WARN: FORCE_REBUILD=1 '' @ EM_DASH @ '' skipping post-spawn bootc switch (#375)'')
      else forA [1..<Suc (wp_count plan)] (switch_worker conn privkey_path))"

section \<open>The command\<close>

definition spawn_summary :: "spawn_plan \<Rightarrow> string \<Rightarrow> ('w, unit) act" where
  "spawn_summary plan ip =
     forA [[], RULE, ''DRY-RUN plan complete. No VMs were created.'',
       ''  CP:        '' @ wp_cp_name plan @ '' ('' @ ip @ '')'',
       ''  Count:     '' @ show_nat (wp_count plan) @ '' worker(s) to spawn'',
       ''  Worker:    memory='' @ show_nat (wp_worker_memory plan) @ '' vcpus='' @ show_nat (wp_worker_vcpus plan),
       RULE] spawn_log"

definition spawn_steps :: "'w env \<Rightarrow> 'w host \<Rightarrow> spawn_plan \<Rightarrow> ('w, unit) act" where
  "spawn_steps env host plan =
     (let conn = build_connection env (wp_kvm_host plan); privkey_path = derive_privkey_path (wp_ssh_pubkey_file plan) in
      bindA (plan_cp_ip_resolve env plan conn) (\<lambda>ip.
      bindA (plan_injector_detect plan conn) (\<lambda>tool.
      bindA (plan_worker_loop env (host_pid host) plan conn ip privkey_path tool) (\<lambda>_.
      bindA (plan_bootc_switch host plan conn privkey_path) (\<lambda>_.
      whenA (wp_dry_run plan) (spawn_summary plan ip))))))"

definition spawn_run :: "'w env \<Rightarrow> 'w host \<Rightarrow> spawn_args \<Rightarrow> (anyhow, cluster_config) result \<Rightarrow> ('w, unit) act" where
  "spawn_run env host args config =
     (if sa_count args = 0 then failA [''--count must be > 0 (got '' @ show_nat (sa_count args) @ ''); bash twin defaults to 2'']
      else
        bindA (liftA config) (\<lambda>cfg.
        let plan = spawn_plan_from_args args cfg in
        bindA (spawn_log (''config: '' @ wp_config_path plan)) (\<lambda>_.
        bindA (spawn_log (''config OK: CP='' @ wp_cp_name plan @ '', count='' @ show_nat (wp_count plan)
          @ '', pool_dir='' @ wp_pool_dir plan)) (\<lambda>_.
        spawn_steps env host plan))))"

end
