(* ===== verification/Spawn_Safety.thy ===== *)
theory Spawn_Safety
  imports Kvm_Events Spawn_Workers
begin

text \<open>
  What \<open>spawn-workers\<close> does to the KVM host and in which order. The protocol names every command line the run may send
  and what must have happened before it; the bookkeeping besides it is \<open>tidy\<close>: each disk cloned so far was
  removed again or handed to \<open>virt-install\<close>.
\<close>

section \<open>The commands\<close>

definition spawn_clone :: "spawn_plan \<Rightarrow> nat \<Rightarrow> string" where
  "spawn_clone plan i = cmd_cp_reflink (template_path plan) (worker_qcow plan i)"

definition spawn_install :: "spawn_plan \<Rightarrow> nat \<Rightarrow> string" where
  "spawn_install plan i = cmd_virt_install (kvm_uri (wp_kvm_host plan))
     \<lparr>vm_name = worker_name i, vm_memory_mib = wp_worker_memory plan, vm_vcpus = wp_worker_vcpus plan,
      vm_disk_path = worker_qcow plan i, vm_cdrom = None, vm_primary_mac = None, vm_extra_nic = None\<rparr>"

definition spawn_key :: "spawn_plan \<Rightarrow> string" where
  "spawn_key plan = derive_privkey_path (wp_ssh_pubkey_file plan)"

definition cloned :: "spawn_plan \<Rightarrow> nat \<Rightarrow> event set \<Rightarrow> bool" where
  "cloned plan i A \<longleftrightarrow> (\<exists>out. answered (wp_kvm_host plan) (spawn_clone plan i) out A)"

text \<open>A join command that the control plane printed, at an address that its lease showed.\<close>

definition joined :: "spawn_plan \<Rightarrow> string \<Rightarrow> event set \<Rightarrow> bool" where
  "joined plan j A \<longleftrightarrow> starts_with ''kubeadm join'' j \<and>
     (\<exists>ip out. lease (wp_kvm_host plan) (wp_cp_name plan) ip A
        \<and> answered (wp_kvm_host plan) (mint_cmd plan (spawn_key plan) (ipv4_display ip)) out A \<and> j = trim out)"

definition staged :: "nat \<Rightarrow> spawn_plan \<Rightarrow> nat \<Rightarrow> event set \<Rightarrow> bool" where
  "staged pid plan i A \<longleftrightarrow>
     (\<exists>j out. joined plan j A \<and> answered (wp_kvm_host plan) (write_join_tmp_cmd j (join_tmpfile pid (worker_qcow plan i))) out A)"

definition inject_cmd :: "nat \<Rightarrow> spawn_plan \<Rightarrow> nat \<Rightarrow> string \<Rightarrow> bool" where
  "inject_cmd pid plan i cmd \<longleftrightarrow>
     (\<exists>etc. cmd = guestfish_inject_cmd (worker_qcow plan i) etc (join_tmpfile pid (worker_qcow plan i)))
     \<or> cmd = virt_customize_inject_cmd (worker_qcow plan i) (join_tmpfile pid (worker_qcow plan i))"

definition injected :: "nat \<Rightarrow> spawn_plan \<Rightarrow> nat \<Rightarrow> event set \<Rightarrow> bool" where
  "injected pid plan i A \<longleftrightarrow> (\<exists>cmd out. inject_cmd pid plan i cmd \<and> answered (wp_kvm_host plan) cmd out A)"

text \<open>Commands that only look, or concern the temporary file.\<close>

definition spawn_look :: "nat \<Rightarrow> spawn_plan \<Rightarrow> nat \<Rightarrow> string \<Rightarrow> bool" where
  "spawn_look pid plan i cmd \<longleftrightarrow>
     cmd \<in> {cmd_dominfo (kvm_uri (wp_kvm_host plan)) (worker_name i), cmd_domifaddr (kvm_uri (wp_kvm_host plan)) (worker_name i),
       guestfish_ls_stateroot_cmd (worker_qcow plan i), ''rm -f -- '' @ sh_quote (join_tmpfile pid (worker_qcow plan i))}
     \<or> (\<exists>s. cmd = guestfish_ls_deploy_cmd (worker_qcow plan i) s)"

definition spawn_general :: "spawn_plan \<Rightarrow> string \<Rightarrow> bool" where
  "spawn_general plan cmd \<longleftrightarrow>
     cmd \<in> {cmd_domifaddr (kvm_uri (wp_kvm_host plan)) (wp_cp_name plan), PROBE_INJECTOR, INSTALL_INJECTOR,
       cmd_test_e (template_path plan), cmd_pool_refresh (kvm_uri (wp_kvm_host plan)) ''mass2''}"

text \<open>The commands for worker \<open>i\<close> that change something, with what must have happened.\<close>

definition spawn_change :: "nat \<Rightarrow> spawn_plan \<Rightarrow> event set \<Rightarrow> nat \<Rightarrow> string \<Rightarrow> bool" where
  "spawn_change pid plan A i cmd \<longleftrightarrow>
     cmd = spawn_clone plan i \<and> refused_cmd (wp_kvm_host plan) (cmd_dominfo (kvm_uri (wp_kvm_host plan)) (worker_name i)) A
       \<and> (\<exists>out. answered (wp_kvm_host plan) (cmd_test_e (template_path plan)) out A)
     \<or> (\<exists>j. cmd = write_join_tmp_cmd j (join_tmpfile pid (worker_qcow plan i)) \<and> joined plan j A \<and> cloned plan i A)
     \<or> inject_cmd pid plan i cmd \<and> cloned plan i A \<and> staged pid plan i A
     \<or> cmd = spawn_install plan i \<and> cloned plan i A \<and> injected pid plan i A
     \<or> cmd = cmd_rm_f (worker_qcow plan i) \<and> cloned plan i A
     \<or> cmd = cmd_start (kvm_uri (wp_kvm_host plan)) (worker_name i)
         \<and> (\<exists>out. answered (wp_kvm_host plan) (cmd_dominfo (kvm_uri (wp_kvm_host plan)) (worker_name i)) out A)
     \<or> (\<exists>ip. cmd = cp_ssh_cmd (spawn_key plan) (ipv4_display ip) (''bootc switch '' @ WORKER_REF)
         \<and> lease (wp_kvm_host plan) (worker_name i) ip A)"

definition spawn_cmd :: "nat \<Rightarrow> spawn_plan \<Rightarrow> event set \<Rightarrow> string \<Rightarrow> bool" where
  "spawn_cmd pid plan A cmd \<longleftrightarrow>
     spawn_general plan cmd
     \<or> (\<exists>i\<in>{1..wp_count plan}. spawn_look pid plan i cmd \<or> spawn_change pid plan A i cmd)
     \<or> (\<exists>ip. cmd = mint_cmd plan (spawn_key plan) (ipv4_display ip) \<and> lease (wp_kvm_host plan) (wp_cp_name plan) ip A)"

definition spawn_protocol :: "nat \<Rightarrow> spawn_plan \<Rightarrow> protocol" where
  "spawn_protocol pid plan A e \<longleftrightarrow>
     printed e \<or> e = Slept (wp_cp_ssh_retry_sleep_secs plan)
     \<or> (\<exists>cmd. ran_on (wp_kvm_host plan) cmd e \<and> spawn_cmd pid plan A cmd)"

section \<open>What is known\<close>

definition settled_disk :: "spawn_plan \<Rightarrow> nat \<Rightarrow> event set \<Rightarrow> bool" where
  "settled_disk plan i A \<longleftrightarrow>
     tried_cmd (wp_kvm_host plan) (cmd_rm_f (worker_qcow plan i)) A \<or> tried_cmd (wp_kvm_host plan) (spawn_install plan i) A"

definition tidy :: "spawn_plan \<Rightarrow> nat set \<Rightarrow> event set \<Rightarrow> bool" where
  "tidy plan X A \<longleftrightarrow> (\<forall>i. cloned plan i A \<longrightarrow> settled_disk plan i A \<or> i \<in> X)"

definition worker_up :: "spawn_plan \<Rightarrow> nat \<Rightarrow> event set \<Rightarrow> bool" where
  "worker_up plan i A \<longleftrightarrow>
     tried_cmd (wp_kvm_host plan) (cmd_start (kvm_uri (wp_kvm_host plan)) (worker_name i)) A
     \<or> (\<exists>out. answered (wp_kvm_host plan) (spawn_install plan i) out A)"

lemma spawn_grows [intro]:
  "grows (cloned plan i)" "grows (joined plan j)" "grows (staged pid plan i)" "grows (injected pid plan i)"
  "grows (worker_up plan i)" "grows (settled_disk plan i)"
proof -
  show j: "grows (joined plan j)" for j
    unfolding joined_def by (rule growsI) (use growsD [OF grows_lease] growsD [OF grows_calls(1)] in blast)
  show "grows (staged pid plan i)"
    by (rule growsI) (unfold staged_def, meson growsD [OF j] growsD [OF grows_calls(1)])
  show "grows (cloned plan i)" "grows (injected pid plan i)"
    by (rule growsI; unfold cloned_def injected_def, meson growsD [OF grows_calls(1)])+
  show "grows (worker_up plan i)" "grows (settled_disk plan i)"
    by (rule growsI; unfold worker_up_def settled_disk_def, meson growsD [OF grows_calls(1)] growsD [OF grows_calls(2)])+
qed

lemma answered_insert:
  "answered kvm c out (insert ev A) \<longleftrightarrow> answered kvm c out A \<or> ran_on kvm c ev \<and> answer_text ev = Some out"
  "tried_cmd kvm c (insert ev A) \<longleftrightarrow> tried_cmd kvm c A \<or> ran_on kvm c ev"
  "refused_cmd kvm c (insert ev A) \<longleftrightarrow> refused_cmd kvm c A \<or> ran_on kvm c ev \<and> refused ev"
  by (auto simp: answered_def tried_cmd_def refused_cmd_def)

lemma spawn_clone_inject: "spawn_clone plan i = spawn_clone plan j \<longleftrightarrow> i = j"
proof
  have "sh_words (cmd_cp_reflink x d) = Some [''cp'', ''--reflink=auto'', x, d]" for x d
    by (simp add: cmd_cp_reflink_def argv_simps del: sh_lex.simps(2))
  then have argv: "sh_words (spawn_clone plan k) = Some [''cp'', ''--reflink=auto'', template_path plan, worker_qcow plan k]" for k
    by (simp only: spawn_clone_def)
  assume "spawn_clone plan i = spawn_clone plan j"
  then have "sh_words (spawn_clone plan i) = sh_words (spawn_clone plan j)" by (rule arg_cong)
  then have "worker_qcow plan i = worker_qcow plan j" unfolding argv by (simp only: option.inject list.inject simp_thms)
  then have "show_nat i = show_nat j" by (simp add: worker_qcow_def worker_name_def del: show_nat.simps)
  then show "i = j" by (metis digits_val_show_nat)
qed simp

definition no_clone :: "string \<Rightarrow> bool" where
  "no_clone cmd \<longleftrightarrow> \<not> starts_with ''cp --reflink'' cmd"

lemma no_clone_cmds [simp]:
  "no_clone (cmd_virsh uri @ s)" "no_clone (spawn_install plan i)" "no_clone (cmd_rm_f p)" "no_clone (cmd_test_e p)"
  "no_clone (''rm -f -- '' @ s)" "no_clone (guestfish_ls_stateroot_cmd p)" "no_clone (guestfish_ls_deploy_cmd p s)"
  "no_clone (guestfish_inject_cmd p e t)" "no_clone (virt_customize_inject_cmd p t)" "no_clone (write_join_tmp_cmd j t)"
  "no_clone (mint_cmd plan k ip)" "no_clone (cp_ssh_cmd k ip c)" "no_clone PROBE_INJECTOR" "no_clone INSTALL_INJECTOR"
  "no_clone (cmd_dominfo uri n)" "no_clone (cmd_start uri n)" "no_clone (cmd_domifaddr uri n)" "no_clone (cmd_pool_refresh uri n)"
  by (simp_all add: no_clone_def starts_with_def cmd_virsh_def spawn_install_def cmd_virt_install_def cmd_rm_f_def
      cmd_test_e_def guestfish_ls_stateroot_cmd_def guestfish_ls_deploy_cmd_def guestfish_inject_cmd_def
      virt_customize_inject_cmd_def write_join_tmp_cmd_def mint_cmd_def cp_ssh_cmd_def PROBE_INJECTOR_def INSTALL_INJECTOR_def
      cmd_dominfo_def cmd_start_def cmd_domifaddr_def cmd_pool_refresh_def)

lemma tidy_insert:
  assumes "tidy plan X A" "no_clone cmd" "ran_on (wp_kvm_host plan) cmd ev"
  shows "tidy plan X (insert ev A)"
proof -
  have "spawn_clone plan i \<noteq> cmd" for i
    using assms(2) by (auto simp: no_clone_def spawn_clone_def cmd_cp_reflink_def starts_with_def)
  with assms(3) have "\<not> ran_on (wp_kvm_host plan) (spawn_clone plan i) ev" for i using ran_on_unique by blast
  then have "cloned plan i (insert ev A) \<longleftrightarrow> cloned plan i A" for i by (simp add: cloned_def answered_insert)
  with assms(1) show ?thesis
    unfolding tidy_def by (meson growsD [OF spawn_grows(6)] subset_insertI)
qed

section \<open>The elementary steps\<close>

abbreviation known :: "nat \<Rightarrow> spawn_plan \<Rightarrow> event list \<Rightarrow> nat set \<Rightarrow> (event set \<Rightarrow> bool) \<Rightarrow> 'w world \<Rightarrow> bool" where
  "known pid plan t0 X C \<equiv> reached (spawn_protocol pid plan) t0 (\<lambda>A. tidy plan X A \<and> C A)"

abbreviation kvm_conn :: "'w env \<Rightarrow> spawn_plan \<Rightarrow> 'w world connection" where
  "kvm_conn env plan \<equiv> build_connection env (wp_kvm_host plan)"

lemma known_mono: "known pid plan t0 X C w \<Longrightarrow> (\<And>A. C A \<Longrightarrow> D A) \<Longrightarrow> known pid plan t0 X D w"
  by (auto elim: reached_mono)

lemma known_settle:
  assumes "known pid plan t0 {i} C w" "\<And>A. C A \<Longrightarrow> settled_disk plan i A \<and> D A"
  shows "known pid plan t0 {} D w"
  by (rule reached_mono [OF assms(1)]) (use assms(2) in \<open>auto simp: tidy_def\<close>)

lemma or_bail_step: "triple P m Q (\<lambda>_. E) \<Longrightarrow> triple P (or_bail msg m) Q (\<lambda>_. E)"
  unfolding or_bail_def by (rule triple_match_cases) (auto intro!: triple_ret triple_fail)

lemma triple_dropA: "triple P m (\<lambda>_. Q) (\<lambda>_. Q) \<Longrightarrow> triple P (dropA m) (\<lambda>_. Q) E"
  unfolding dropA_def by (rule triple_match_cases) (auto intro!: triple_ret)

lemma triple_option:
  "(x = None \<Longrightarrow> triple P m Q E) \<Longrightarrow> (\<And>a. x = Some a \<Longrightarrow> triple P (f a) Q E) \<Longrightarrow>
   triple P (case x of None \<Rightarrow> m | Some a \<Rightarrow> f a) Q E"
  by (cases x) simp_all

lemma triple_cell: "(\<And>x. y = f x \<Longrightarrow> triple (P x) m Q E) \<Longrightarrow> triple (\<lambda>w. \<exists>x. y = f x \<and> P x w) m Q E"
  by (rule tripleI) (auto dest: tripleD)

lemma triple_retry_cell:
  assumes "triple I f (\<lambda>x. case x of Some a \<Rightarrow> Q a | None \<Rightarrow> I) E" "triple I (sleep env secs) (\<lambda>_. I) E"
  shows "triple I (retry_cell env n secs f) (\<lambda>x. case x of Some a \<Rightarrow> Q a | None \<Rightarrow> I) E"
proof (induction n)
  case (Suc n)
  have "triple I (bindA (whenA (n > 0 \<and> secs > 0) (sleep env secs)) (\<lambda>_. retry_cell env n secs f))
      (\<lambda>x. case x of Some a \<Rightarrow> Q a | None \<Rightarrow> I) E"
    by (rule triple_bind [OF triple_when Suc.IH]) (use assms(2) in auto)
  then show ?case
    unfolding retry_cell.simps
    by (intro triple_bind [OF assms(1)]) (auto intro!: triple_ret split: option.split)
qed (auto simp: triple_def)

lemma spawn_quiet_step:
  assumes "grows C" "adds (\<lambda>e. printed e \<or> e = Slept (wp_cp_ssh_retry_sleep_secs plan)) m"
  shows "triple (known pid plan t0 X C) m (\<lambda>_. known pid plan t0 X C) (\<lambda>_. known pid plan t0 X C)"
proof (rule free_step_closed [OF _ _ assms(2)])
  fix e A assume e: "printed e \<or> e = Slept (wp_cp_ssh_retry_sleep_secs plan)"
  then show "spawn_protocol pid plan A e" by (auto simp: spawn_protocol_def)
  assume A: "tidy plan X A \<and> C A"
  from e have "\<not> ran_on kvm c e" for kvm c by (cases e) auto
  with A growsD [OF assms(1), of A "insert e A"] show "tidy plan X (insert e A) \<and> C (insert e A)"
    by (auto simp: tidy_def cloned_def settled_disk_def answered_insert)
qed

lemma triple_succeeds: "triple P m Q E \<Longrightarrow> succeeds m \<Longrightarrow> triple P m Q E'"
  unfolding triple_def succeeds_def by (auto split: prod.splits result.splits) (metis fst_conv is_ok.simps(2))

lemma spawn_say:
  assumes "grows C"
  shows "triple (known pid plan t0 X C) (spawn_log s) (\<lambda>_. known pid plan t0 X C) E"
  by (rule triple_succeeds [OF spawn_quiet_step [OF assms]])
    (auto simp: spawn_log_def intro: adds_emit succeeds_emit)

lemma say_then:
  "grows C \<Longrightarrow> triple (known pid plan t0 X C) m Q E \<Longrightarrow> triple (known pid plan t0 X C) (bindA (spawn_log s) (\<lambda>_. m)) Q E"
  by (rule triple_bind [OF spawn_say])

lemma spawn_sleep:
  assumes "grows C"
  shows "triple (known pid plan t0 X C) (sleep env (wp_cp_ssh_retry_sleep_secs plan)) (\<lambda>_. known pid plan t0 X C) E"
  by (rule triple_succeeds [OF spawn_quiet_step [OF assms]])
    (auto simp: succeeds_def sleep_def intro: adds_sleep)

text \<open>A command that clones nothing and is allowed by what is known.\<close>

lemma spawn_conn_step:
  assumes "grows C" "\<And>A. C A \<Longrightarrow> spawn_cmd pid plan A cmd" "no_clone cmd"
  shows "triple (known pid plan t0 X C) (conn_run (kvm_conn env plan) cmd)
    (\<lambda>out. known pid plan t0 X (\<lambda>A. C A \<and> answered (wp_kvm_host plan) cmd out A))
    (\<lambda>e. known pid plan t0 X (\<lambda>A. C A \<and> tried_cmd (wp_kvm_host plan) cmd A
       \<and> ((\<exists>c m. e = VirshFailed c m) \<longrightarrow> refused_cmd (wp_kvm_host plan) cmd A)))"
  by (rule conn_run_step)
    (use assms grows_insert [OF assms(1)] tidy_insert [OF _ assms(3)] in \<open>auto simp: spawn_protocol_def answered_insert\<close>)

lemma answered_tried: "answered kvm cmd out A \<Longrightarrow> tried_cmd kvm cmd A"
  by (auto simp: answered_def tried_cmd_def)

text \<open>Its outcome does not matter.\<close>

lemma spawn_conn_tried:
  assumes "grows C" "\<And>A. C A \<Longrightarrow> spawn_cmd pid plan A cmd" "no_clone cmd"
  shows "triple (known pid plan t0 X C) (conn_run (kvm_conn env plan) cmd)
    (\<lambda>_. known pid plan t0 X (\<lambda>A. C A \<and> tried_cmd (wp_kvm_host plan) cmd A))
    (\<lambda>_. known pid plan t0 X (\<lambda>A. C A \<and> tried_cmd (wp_kvm_host plan) cmd A))"
  by (rule triple_conseq [OF spawn_conn_step [OF assms]]) (auto intro: answered_tried elim!: known_mono)

lemma spawn_run_unit:
  assumes "triple P (conn_run conn cmd) (\<lambda>_. Q) E"
  shows "triple P (run_unit conn cmd) (\<lambda>_. Q) E"
  unfolding run_unit_def by (rule triple_bind [OF assms]) (rule triple_ret)

lemma spawn_look_run:
  assumes "grows C" "\<And>A. C A \<Longrightarrow> spawn_cmd pid plan A cmd" "no_clone cmd"
  shows "triple (known pid plan t0 X C) (shell_text (kvm_conn env plan) cmd) (\<lambda>_. known pid plan t0 X C) E"
    "triple (known pid plan t0 X C) (dropA (exec_shell (kvm_conn env plan) cmd)) (\<lambda>_. known pid plan t0 X C) E"
proof -
  have run: "triple (known pid plan t0 X C) (exec_shell (kvm_conn env plan) cmd) (\<lambda>_. known pid plan t0 X C) (\<lambda>_. known pid plan t0 X C)"
    unfolding exec_shell_def
    by (rule triple_conseq [OF spawn_conn_tried [OF assms]]) (auto elim!: known_mono)
  then show "triple (known pid plan t0 X C) (dropA (exec_shell (kvm_conn env plan) cmd)) (\<lambda>_. known pid plan t0 X C) E"
    by (rule triple_dropA)
  show "triple (known pid plan t0 X C) (shell_text (kvm_conn env plan) cmd) (\<lambda>_. known pid plan t0 X C) E"
    unfolding shell_text_def by (rule triple_match_cases [OF run]) (auto intro!: triple_ret)
qed

lemma spawn_lease_step:
  assumes "grows C" "\<And>A. C A \<Longrightarrow> spawn_cmd pid plan A (cmd_domifaddr (kvm_uri (wp_kvm_host plan)) name)"
  shows "triple (known pid plan t0 X C) (probe_domifaddr (kvm_conn env plan) name)
    (\<lambda>x. case x of Some ip \<Rightarrow> known pid plan t0 X (\<lambda>A. C A \<and> lease (wp_kvm_host plan) name ip A) | None \<Rightarrow> known pid plan t0 X C) E"
proof -
  let ?c = "cmd_domifaddr (kvm_uri (wp_kvm_host plan)) name"
  have "triple (known pid plan t0 X C) (domifaddr (kvm_conn env plan) name)
    (\<lambda>x. case x of Some ip \<Rightarrow> known pid plan t0 X (\<lambda>A. C A \<and> lease (wp_kvm_host plan) name ip A) | None \<Rightarrow> known pid plan t0 X C)
    (\<lambda>_. known pid plan t0 X C)"
  proof (rule tripleI)
    fix w a w' assume k: "known pid plan t0 X C w" and m: "domifaddr (kvm_conn env plan) name w = (Ok a, w')"
    from domifaddr_event [OF m] obtain ev where ev: "w_trace w' = w_trace w @ [ev]" "ran_on (wp_kvm_host plan) ?c ev"
      "\<And>ip. a = Some ip \<Longrightarrow> lease (wp_kvm_host plan) name ip {ev}" by blast
    have "known pid plan t0 X (\<lambda>A. C A \<and> (\<forall>ip. a = Some ip \<longrightarrow> lease (wp_kvm_host plan) name ip A)) w'"
      by (rule reached_event [OF k ev(1)])
        (use assms ev grows_insert [OF assms(1)] tidy_insert [OF _ no_clone_cmds(17) ev(2)] growsD [OF grows_lease ev(3)]
          in \<open>auto simp: spawn_protocol_def\<close>)
    then show "(case a of Some ip \<Rightarrow> known pid plan t0 X (\<lambda>A. C A \<and> lease (wp_kvm_host plan) name ip A) | None \<Rightarrow> known pid plan t0 X C) w'"
      by (auto elim!: known_mono split: option.split)
  next
    fix w e w' assume k: "known pid plan t0 X C w" and m: "domifaddr (kvm_conn env plan) name w = (Err e, w')"
    from domifaddr_event [OF m] obtain ev where ev: "w_trace w' = w_trace w @ [ev]" "ran_on (wp_kvm_host plan) ?c ev" by blast
    show "known pid plan t0 X C w'"
      by (rule reached_event [OF k ev(1)])
        (use assms ev grows_insert [OF assms(1)] tidy_insert [OF _ no_clone_cmds(17) ev(2)] in \<open>auto simp: spawn_protocol_def\<close>)
  qed
  then show ?thesis unfolding probe_domifaddr_def by (rule triple_match_cases) (auto intro!: triple_ret split: option.split)
qed

section \<open>One worker\<close>

lemma spawn_cmdI:
  "spawn_general plan cmd \<Longrightarrow> spawn_cmd pid plan A cmd"
  "i \<in> {1..wp_count plan} \<Longrightarrow> spawn_look pid plan i cmd \<Longrightarrow> spawn_cmd pid plan A cmd"
  "i \<in> {1..wp_count plan} \<Longrightarrow> spawn_change pid plan A i cmd \<Longrightarrow> spawn_cmd pid plan A cmd"
  "lease (wp_kvm_host plan) (wp_cp_name plan) ip A \<Longrightarrow> spawn_cmd pid plan A (mint_cmd plan (spawn_key plan) (ipv4_display ip))"
  unfolding spawn_cmd_def by blast+

lemma joinedI:
  "starts_with ''kubeadm join'' (trim out) \<Longrightarrow> lease (wp_kvm_host plan) (wp_cp_name plan) ip A \<Longrightarrow>
   answered (wp_kvm_host plan) (mint_cmd plan (spawn_key plan) (ipv4_display ip)) out A \<Longrightarrow> joined plan (trim out) A"
  unfolding joined_def by blast

lemma spawn_clone_step:
  assumes "grows C" "\<And>A. C A \<Longrightarrow> spawn_cmd pid plan A (spawn_clone plan i)"
  shows "triple (known pid plan t0 {} C) (or_bail msg (remote_cp_reflink (kvm_conn env plan) (template_path plan) (worker_qcow plan i)))
    (\<lambda>_. known pid plan t0 {i} (\<lambda>A. C A \<and> cloned plan i A)) (\<lambda>_. known pid plan t0 {} C)"
proof -
  have other: "cloned plan j (insert ev A) \<Longrightarrow> ran_on (wp_kvm_host plan) (spawn_clone plan i) ev \<Longrightarrow> cloned plan j A \<or> j = i"
    "cloned plan j (insert ev A) \<Longrightarrow> answer_text ev = None \<Longrightarrow> cloned plan j A" for j ev A
    using ran_on_unique [of "wp_kvm_host plan" "spawn_clone plan j" ev "spawn_clone plan i"]
    by (auto simp: cloned_def answered_insert spawn_clone_inject)
  note settled = grows_insert [OF spawn_grows(6)]
  have "triple (known pid plan t0 {} C) (conn_run (kvm_conn env plan) (spawn_clone plan i))
    (\<lambda>_. known pid plan t0 {i} (\<lambda>A. C A \<and> cloned plan i A)) (\<lambda>_. known pid plan t0 {} C)"
  proof (rule conn_run_step)
    fix A ev assume A: "tidy plan {} A \<and> C A" and ev: "ran_on (wp_kvm_host plan) (spawn_clone plan i) ev"
    then show "spawn_protocol pid plan A ev" using assms(2) by (auto simp: spawn_protocol_def)
    show "tidy plan {i} (insert ev A) \<and> C (insert ev A) \<and> cloned plan i (insert ev A)" if "answer_text ev = Some out" for out
    proof (intro conjI)
      show "tidy plan {i} (insert ev A)" using A other(1) [OF _ ev] settled unfolding tidy_def by blast
      show "C (insert ev A)" using A grows_insert [OF assms(1)] by blast
      show "cloned plan i (insert ev A)" using that ev by (auto simp: cloned_def answered_insert)
    qed
    show "tidy plan {} (insert ev A) \<and> C (insert ev A)" if "answer_text ev = None"
      using A other(2) [OF _ that] settled grows_insert [OF assms(1)] unfolding tidy_def by blast
  qed
  then show ?thesis
    unfolding remote_cp_reflink_def spawn_clone_def [symmetric] by (intro or_bail_step spawn_run_unit)
qed

lemma spawn_remove_step:
  assumes "grows C" "i \<in> {1..wp_count plan}" "\<And>A. C A \<Longrightarrow> cloned plan i A \<and> D A"
  shows "triple (known pid plan t0 {i} C) (dropA (remote_rm_f (kvm_conn env plan) (worker_qcow plan i))) (\<lambda>_. known pid plan t0 {} D) E"
proof -
  have "triple (known pid plan t0 {i} C) (conn_run (kvm_conn env plan) (cmd_rm_f (worker_qcow plan i)))
      (\<lambda>_. known pid plan t0 {i} (\<lambda>A. C A \<and> tried_cmd (wp_kvm_host plan) (cmd_rm_f (worker_qcow plan i)) A))
      (\<lambda>_. known pid plan t0 {i} (\<lambda>A. C A \<and> tried_cmd (wp_kvm_host plan) (cmd_rm_f (worker_qcow plan i)) A))"
    by (rule spawn_conn_tried [OF assms(1)]) (use assms(2,3) in \<open>auto intro!: spawn_cmdI(3) simp: spawn_change_def\<close>)
  then have "triple (known pid plan t0 {i} C) (conn_run (kvm_conn env plan) (cmd_rm_f (worker_qcow plan i)))
      (\<lambda>_. known pid plan t0 {} D) (\<lambda>_. known pid plan t0 {} D)"
    by (rule triple_conseq) (use assms(3) in \<open>auto elim!: known_settle simp: settled_disk_def\<close>)
  then show ?thesis unfolding remote_rm_f_def by (intro triple_dropA spawn_run_unit)
qed

lemma spawn_mint_step:
  assumes "grows C" "\<And>A. C A \<Longrightarrow> lease (wp_kvm_host plan) (wp_cp_name plan) ip A"
  shows "triple (known pid plan t0 X C) (probe_join (kvm_conn env plan) (mint_cmd plan (spawn_key plan) (ipv4_display ip)))
    (\<lambda>x. case x of Some j \<Rightarrow> known pid plan t0 X (\<lambda>A. C A \<and> joined plan j A) | None \<Rightarrow> known pid plan t0 X C) E"
  unfolding probe_join_def exec_shell_def
  by (rule triple_match_cases [OF spawn_conn_step [OF assms(1)]])
    (use assms(2) in \<open>auto intro!: spawn_cmdI(4) triple_ret joinedI elim!: known_mono split: option.split if_splits\<close>)

text \<open>Writing the join command into the disk.\<close>

lemma spawn_inject_step:
  assumes "grows C" "i \<in> {1..wp_count plan}" "\<And>A. C A \<Longrightarrow> cloned plan i A \<and> joined plan j A"
  shows "triple (known pid plan t0 X C) (inject_join_env pid (kvm_conn env plan) (worker_qcow plan i) j tool)
    (\<lambda>_. known pid plan t0 X (\<lambda>A. C A \<and> injected pid plan i A)) (\<lambda>_. known pid plan t0 X C)"
proof -
  let ?tmp = "join_tmpfile pid (worker_qcow plan i)" and ?conn = "kvm_conn env plan"
  let ?C1 = "\<lambda>A. C A \<and> staged pid plan i A" and ?C2 = "\<lambda>A. C A \<and> injected pid plan i A"
  have g1: "grows ?C1" and g2: "grows ?C2" by (intro grows_conj assms(1) spawn_grows)+
  have look: "spawn_cmd pid plan A cmd" if "spawn_look pid plan i cmd" for A cmd using that assms(2) by (rule spawn_cmdI(2) [rotated])
  have "triple (known pid plan t0 X C) (exec_shell ?conn (write_join_tmp_cmd j ?tmp)) (\<lambda>_. known pid plan t0 X ?C1) (\<lambda>_. known pid plan t0 X C)"
    unfolding exec_shell_def
  proof (rule triple_conseq [OF spawn_conn_step [OF assms(1)]])
    show "spawn_cmd pid plan A (write_join_tmp_cmd j ?tmp)" if "C A" for A
      by (rule spawn_cmdI(3) [OF assms(2)]) (use assms(3) [OF that] in \<open>unfold spawn_change_def, blast\<close>)
  qed (use assms(3) in \<open>auto elim!: known_mono simp: staged_def\<close>)
  then have wrote: "triple (known pid plan t0 X C) (or_bail msg (exec_shell ?conn (write_join_tmp_cmd j ?tmp)))
      (\<lambda>_. known pid plan t0 X ?C1) (\<lambda>_. known pid plan t0 X C)" for msg by (rule or_bail_step)
  have inject: "triple (known pid plan t0 X ?C1) (or_bail msg (exec_shell ?conn cmd)) (\<lambda>_. known pid plan t0 X ?C2) (\<lambda>_. known pid plan t0 X C)"
    if cmd: "inject_cmd pid plan i cmd" for cmd msg
    unfolding exec_shell_def
  proof (rule or_bail_step, rule triple_conseq [OF spawn_conn_step [OF g1]])
    show "spawn_cmd pid plan A cmd" if "?C1 A" for A
      by (rule spawn_cmdI(3) [OF assms(2)]) (use assms(3) that cmd in \<open>unfold spawn_change_def, blast\<close>)
    show "no_clone cmd" using cmd by (auto simp: inject_cmd_def)
  qed (use cmd in \<open>auto elim!: known_mono simp: injected_def\<close>)
  have injectw: "triple (known pid plan t0 X ?C1) (inject_with ?conn (worker_qcow plan i) ?tmp tool) (\<lambda>_. known pid plan t0 X ?C2) (\<lambda>_. known pid plan t0 X C)"
  proof (cases tool)
    case Guestfish
    show ?thesis
      unfolding inject_with_def Guestfish injector.case
      by (rule triple_bind [OF spawn_look_run(1) [OF g1]] triple_bind [where R = "\<lambda>_. known pid plan t0 X ?C1"]
          triple_if spawn_look_run(1) [OF g1] triple_ret inject look
          | assumption | simp add: spawn_look_def inject_cmd_def | blast)+
  next
    case VirtCustomize
    then show ?thesis unfolding inject_with_def by (auto intro: inject simp: inject_cmd_def)
  qed
  have cleanup: "triple (known pid plan t0 X D) (dropA (exec_shell ?conn (''rm -f -- '' @ sh_quote ?tmp))) (\<lambda>_. known pid plan t0 X D) E"
    if "grows D" for D E
    by (rule spawn_look_run(2) [OF that]) (rule look no_clone_cmds(5) | simp add: spawn_look_def)+
  show ?thesis
    unfolding inject_join_env_def Let_def
    by (intro triple_bind [OF wrote] triple_match_cases [OF injectw] triple_bind [OF cleanup] g2 assms(1))
      (simp_all add: triple_def)
qed

text \<open>A worker from the clone of its disk to \<open>virt-install\<close>: on every way out the disk is settled.\<close>

lemma create_worker_step:
  fixes env :: "'w env"
  assumes "grows C" "i \<in> {1..wp_count plan}"
    and "\<And>A. C A \<Longrightarrow> lease (wp_kvm_host plan) (wp_cp_name plan) ip A"
    and "\<And>A. C A \<Longrightarrow> spawn_change pid plan A i (spawn_clone plan i)"
  shows "triple (known pid plan t0 {} C) (create_worker env pid plan (kvm_conn env plan) (ipv4_display ip) (spawn_key plan) tool i)
    (\<lambda>_. known pid plan t0 {} (\<lambda>A. C A \<and> worker_up plan i A)) (\<lambda>_. known pid plan t0 {} C)"
proof -
  let ?conn = "kvm_conn env plan"
  let ?C1 = "\<lambda>A. C A \<and> cloned plan i A"
  have g1: "grows ?C1" by (intro grows_conj assms(1) spawn_grows)
  note clone = spawn_clone_step [OF assms(1) spawn_cmdI(3) [OF assms(2) assms(4)]]
  have mint: "triple (known pid plan t0 {i} ?C1) (retry_cell env n (wp_cp_ssh_retry_sleep_secs plan)
      (probe_join ?conn (mint_cmd plan (spawn_key plan) (ipv4_display ip))))
      (\<lambda>x. case x of Some j \<Rightarrow> known pid plan t0 {i} (\<lambda>A. ?C1 A \<and> joined plan j A) | None \<Rightarrow> known pid plan t0 {i} ?C1) E" for n E
    by (intro triple_retry_cell spawn_mint_step spawn_sleep g1) (use assms(3) in blast)
  have remove: "triple (known pid plan t0 {i} D) (bindA (dropA (remote_rm_f ?conn (worker_qcow plan i))) (\<lambda>_. failA e)) (Q :: unit \<Rightarrow> _) (\<lambda>_. known pid plan t0 {} C)"
    if "grows D" "\<And>A. D A \<Longrightarrow> ?C1 A" for D e Q
    by (intro triple_bind [OF spawn_remove_step [OF that(1) assms(2)]] triple_fail) (use that(2) in auto)
  have install: "triple (known pid plan t0 {i} (\<lambda>A. (?C1 A \<and> joined plan j A) \<and> injected pid plan i A))
      (or_bail msg (virt_install ?conn (worker_name i) (wp_worker_memory plan) (wp_worker_vcpus plan) (worker_qcow plan i) None))
      (\<lambda>_. known pid plan t0 {} (\<lambda>A. C A \<and> worker_up plan i A)) (\<lambda>_. known pid plan t0 {} C)" for j msg
  proof -
    have g: "grows (\<lambda>A. (?C1 A \<and> joined plan j A) \<and> injected pid plan i A)" by (intro grows_conj g1 spawn_grows)
    have "triple (known pid plan t0 {i} (\<lambda>A. (?C1 A \<and> joined plan j A) \<and> injected pid plan i A)) (conn_run ?conn (spawn_install plan i))
        (\<lambda>_. known pid plan t0 {} (\<lambda>A. C A \<and> worker_up plan i A)) (\<lambda>_. known pid plan t0 {} C)"
      by (rule triple_conseq [OF spawn_conn_step [OF g]])
        (use assms(2) in \<open>auto intro!: spawn_cmdI(3) elim!: known_settle simp: spawn_change_def settled_disk_def worker_up_def dest: answered_tried\<close>)
    then show ?thesis
      unfolding virt_install_def virt_install_vm_def kvm_uri spawn_install_def [symmetric] by (intro or_bail_step spawn_run_unit)
  qed
  have injected: "triple (known pid plan t0 {i} (\<lambda>A. ?C1 A \<and> joined plan j A))
      (matchA (inject_join_env pid ?conn (worker_qcow plan i) j tool) (\<lambda>r.
         case r of Ok _ \<Rightarrow> retA () | Err e \<Rightarrow> bindA (dropA (remote_rm_f ?conn (worker_qcow plan i))) (\<lambda>_. failA (msg e))))
      (\<lambda>_. known pid plan t0 {i} (\<lambda>A. (?C1 A \<and> joined plan j A) \<and> injected pid plan i A)) (\<lambda>_. known pid plan t0 {} C)" for j msg
  proof -
    have g: "grows (\<lambda>A. ?C1 A \<and> joined plan j A)" by (intro grows_conj g1 spawn_grows)
    show ?thesis
      by (rule triple_match_cases [OF spawn_inject_step [OF g assms(2)]], blast)
        (unfold result.case, rule triple_ret, assumption, rule remove [OF g], blast)
  qed
  have rest: "triple (case x of Some j \<Rightarrow> known pid plan t0 {i} (\<lambda>A. ?C1 A \<and> joined plan j A) | None \<Rightarrow> known pid plan t0 {i} ?C1)
      (case x of None \<Rightarrow> bindA (dropA (remote_rm_f ?conn (worker_qcow plan i))) (\<lambda>_. failA e)
       | Some j \<Rightarrow> bindA (spawn_log (s j)) (\<lambda>_. bindA (matchA (inject_join_env pid ?conn (worker_qcow plan i) j tool) (\<lambda>r.
         case r of Ok _ \<Rightarrow> retA () | Err e \<Rightarrow> bindA (dropA (remote_rm_f ?conn (worker_qcow plan i))) (\<lambda>_. failA (msg e)))) (\<lambda>_.
           bindA (spawn_log (s' j)) (\<lambda>_. or_bail msg'
             (virt_install ?conn (worker_name i) (wp_worker_memory plan) (wp_worker_vcpus plan) (worker_qcow plan i) None)))))
      (\<lambda>_. known pid plan t0 {} (\<lambda>A. C A \<and> worker_up plan i A)) (\<lambda>_. known pid plan t0 {} C)" for x e s s' msg msg'
  proof (cases x)
    case None
    show ?thesis unfolding None option.case by (rule remove [OF g1])
  next
    case (Some j)
    show ?thesis unfolding Some option.case
      by (intro say_then grows_conj g1 spawn_grows assms(1), rule triple_bind [OF injected])
        (intro say_then grows_conj g1 spawn_grows assms(1) install)
  qed
  show ?thesis
    unfolding create_worker_def Let_def
    by (intro say_then [OF assms(1)] triple_bind [OF clone] say_then [OF g1] triple_bind [OF mint] rest)
qed

section \<open>The run\<close>

lemma parse_dominfo_error: "parse_dominfo out c = Err e \<Longrightarrow> \<exists>r. e = UnparseableOutput c r"
  by (auto simp: parse_dominfo_def Let_def bind_r_Err_iff ok_or_def split: option.splits)

lemma spawn_one_step:
  assumes "\<not> wp_dry_run plan" "grows C" "i \<in> {1..wp_count plan}"
    and "\<And>A. C A \<Longrightarrow> lease (wp_kvm_host plan) (wp_cp_name plan) ip A"
    and "\<And>A. C A \<Longrightarrow> \<exists>out. answered (wp_kvm_host plan) (cmd_test_e (template_path plan)) out A"
  shows "triple (known pid plan t0 {} C) (spawn_one env pid plan (kvm_conn env plan) (ipv4_display ip) (spawn_key plan) tool i)
    (\<lambda>_. known pid plan t0 {} (\<lambda>A. C A \<and> worker_up plan i A)) (\<lambda>_. known pid plan t0 {} C)"
proof -
  let ?conn = "kvm_conn env plan" and ?kvm = "wp_kvm_host plan"
  let ?info = "cmd_dominfo (kvm_uri ?kvm) (worker_name i)" and ?start = "cmd_start (kvm_uri ?kvm) (worker_name i)"
  let ?up = "\<lambda>_. known pid plan t0 {} (\<lambda>A. C A \<and> worker_up plan i A)" and ?E = "\<lambda>_. known pid plan t0 {} C"
  have look: "spawn_cmd pid plan A ?info" for A by (rule spawn_cmdI(2) [OF assms(3)]) (simp add: spawn_look_def)
  have info: "triple (known pid plan t0 {} C) (dominfo ?conn (worker_name i))
      (\<lambda>_. known pid plan t0 {} (\<lambda>A. C A \<and> (\<exists>out. answered ?kvm ?info out A)))
      (\<lambda>e. known pid plan t0 {} (\<lambda>A. C A \<and> ((\<exists>c m. e = VirshFailed c m) \<longrightarrow> refused_cmd ?kvm ?info A)))"
    unfolding dominfo_def Let_def kvm_uri
  proof (rule triple_bind)
    show "triple (known pid plan t0 {} C) (conn_run ?conn ?info) (\<lambda>out. known pid plan t0 {} (\<lambda>A. C A \<and> answered ?kvm ?info out A))
      (\<lambda>e. known pid plan t0 {} (\<lambda>A. C A \<and> ((\<exists>c m. e = VirshFailed c m) \<longrightarrow> refused_cmd ?kvm ?info A)))"
      by (rule triple_conseq [OF spawn_conn_step [OF assms(2) look]]) (auto elim!: known_mono)
  qed (auto intro!: triple_lift elim!: known_mono dest: parse_dominfo_error)
  have g1: "grows (\<lambda>A. C A \<and> (\<exists>out. answered ?kvm ?info out A))"
    by (intro growsI) (meson growsD [OF assms(2)] growsD [OF grows_calls(1)])
  have start: "triple (known pid plan t0 {} (\<lambda>A. C A \<and> (\<exists>out. answered ?kvm ?info out A))) (start_domain ?conn (worker_name i)) ?up ?up"
    unfolding start_domain_def kvm_uri
  proof (rule spawn_run_unit, rule triple_conseq [OF spawn_conn_tried [OF g1]])
    show "spawn_cmd pid plan A ?start" if "C A \<and> (\<exists>out. answered ?kvm ?info out A)" for A
      by (rule spawn_cmdI(3) [OF assms(3)]) (use that in \<open>unfold spawn_change_def, blast\<close>)
  qed (auto elim!: known_mono simp: worker_up_def)
  have g2: "grows (\<lambda>A. C A \<and> refused_cmd ?kvm ?info A)" by (intro grows_conj assms(2) grows_calls)
  have create: "triple (known pid plan t0 {} (\<lambda>A. C A \<and> refused_cmd ?kvm ?info A))
      (create_worker env pid plan ?conn (ipv4_display ip) (spawn_key plan) tool i) ?up ?E"
    by (rule triple_conseq [OF create_worker_step [OF g2 assms(3)]])
      (use assms(4,5) in \<open>auto elim!: known_mono simp: spawn_change_def\<close>)
  have gup: "grows (\<lambda>A. C A \<and> worker_up plan i A)" by (intro grows_conj assms(2) spawn_grows)
  have started: "triple (known pid plan t0 {} (\<lambda>A. C A \<and> (\<exists>out. answered ?kvm ?info out A)))
      (bindA (spawn_log s) (\<lambda>_. matchA (start_domain ?conn (worker_name i)) (\<lambda>r.
        case r of Ok _ \<Rightarrow> retA () | Err e \<Rightarrow> spawn_log (q e)))) ?up ?E" for s q
    by (rule say_then [OF g1], rule triple_match_cases [OF start])
      (unfold result.case, rule triple_ret, assumption, rule spawn_say [OF gup])
  have other: "triple (known pid plan t0 {} (\<lambda>A. C A \<and> ((\<exists>c m. e = VirshFailed c m) \<longrightarrow> refused_cmd ?kvm ?info A)))
      (case e of VSsh v \<Rightarrow> failA (m1 v) | VirshFailed c err \<Rightarrow> create_worker env pid plan ?conn (ipv4_display ip) (spawn_key plan) tool i
       | UnparseableOutput c r \<Rightarrow> failA (m2 c r)) ?up ?E" for e m1 m2
    by (cases e) (use create in \<open>auto intro!: triple_fail elim!: known_mono\<close>)
  show ?thesis
    unfolding spawn_one_def if_not_P [OF assms(1)]
    by (rule triple_match_cases [OF info]) (unfold result.case, rule started, rule other)
qed

lemma path_exists_step:
  assumes "triple P (conn_run conn (cmd_test_e path)) (\<lambda>_. Q) (\<lambda>_. E)" "\<And>w. Q w \<Longrightarrow> E w"
  shows "triple P (remote_path_exists conn path) (\<lambda>b. if b then Q else E) (\<lambda>_. E)"
proof -
  have "\<exists>r1. conn_run conn (cmd_test_e path) w = (r1, w') \<and> (r = Ok True \<longrightarrow> is_ok r1)"
    if "remote_path_exists conn path w = (r, w')" for w r w'
    using that by (auto simp: remote_path_exists_def conn_run_def matchA_def split: prod.splits result.splits virt_ssh_error.splits if_splits)
  moreover have "E w' \<and> (is_ok r1 \<longrightarrow> Q w')" if "P w" "conn_run conn (cmd_test_e path) w = (r1, w')" for w r1 w'
    using tripleD [OF assms(1) that(1)] that(2) assms(2) by (cases r1) auto
  ultimately show ?thesis by (intro tripleI) (metis (full_types), blast)
qed

lemma check_template_step:
  assumes "\<not> wp_dry_run plan" "grows C"
  shows "triple (known pid plan t0 {} C) (check_template plan (kvm_conn env plan))
    (\<lambda>_. known pid plan t0 {} (\<lambda>A. C A \<and> (\<exists>out. answered (wp_kvm_host plan) (cmd_test_e (template_path plan)) out A)))
    (\<lambda>_. known pid plan t0 {} C)"
proof -
  let ?C = "\<lambda>A. C A \<and> (\<exists>out. answered (wp_kvm_host plan) (cmd_test_e (template_path plan)) out A)"
  have g: "grows ?C" by (intro growsI) (meson growsD [OF assms(2)] growsD [OF grows_calls(1)])
  have "triple (known pid plan t0 {} C) (conn_run (kvm_conn env plan) (cmd_test_e (template_path plan)))
      (\<lambda>_. known pid plan t0 {} ?C) (\<lambda>_. known pid plan t0 {} C)"
    by (rule triple_conseq [OF spawn_conn_step [OF assms(2)]])
      (auto intro!: spawn_cmdI(1) elim!: known_mono simp: spawn_general_def)
  then have test: "triple (known pid plan t0 {} C) (remote_path_exists (kvm_conn env plan) (template_path plan))
      (\<lambda>b. if b then known pid plan t0 {} ?C else known pid plan t0 {} C) (\<lambda>_. known pid plan t0 {} C)"
    by (rule path_exists_step) (auto elim: known_mono)
  have found: "triple (if b then known pid plan t0 {} ?C else known pid plan t0 {} C) (case b of True \<Rightarrow> spawn_log s | False \<Rightarrow> failA e)
      (\<lambda>_. known pid plan t0 {} ?C) (\<lambda>_. known pid plan t0 {} C)" for b s e
    by (cases b) (auto intro!: spawn_say g triple_fail)
  show ?thesis
    unfolding check_template_def Let_def if_not_P [OF assms(1)]
    by (rule triple_match_cases [OF test]) (unfold result.case, rule found, rule triple_fail, assumption)
qed

lemma known_for:
  assumes "\<And>i C'. i \<in> set xs \<Longrightarrow> grows C' \<Longrightarrow> (\<And>A. C' A \<Longrightarrow> B A) \<Longrightarrow>
      triple (known pid plan t0 {} C') (f i) (\<lambda>_. known pid plan t0 {} (\<lambda>A. C' A \<and> D i A)) (\<lambda>_. known pid plan t0 {} C')"
    and "\<And>i. grows (D i)" "grows C" "\<And>A. C A \<Longrightarrow> B A"
  shows "triple (known pid plan t0 {} C) (forA xs f) (\<lambda>_. known pid plan t0 {} (\<lambda>A. C A \<and> (\<forall>i\<in>set xs. D i A)))
    (\<lambda>_. known pid plan t0 {} C)"
  using assms(1,3,4)
proof (induction xs arbitrary: C)
  case (Cons x xs)
  have g: "grows (\<lambda>A. C A \<and> D x A)" by (intro grows_conj Cons.prems(2) assms(2))
  have "triple (known pid plan t0 {} (\<lambda>A. C A \<and> D x A)) (forA xs f)
      (\<lambda>_. known pid plan t0 {} (\<lambda>A. (C A \<and> D x A) \<and> (\<forall>i\<in>set xs. D i A))) (\<lambda>_. known pid plan t0 {} (\<lambda>A. C A \<and> D x A))"
    by (rule Cons.IH [OF _ g]) (use Cons.prems in auto)
  then have "triple (known pid plan t0 {} (\<lambda>A. C A \<and> D x A)) (forA xs f)
      (\<lambda>_. known pid plan t0 {} (\<lambda>A. C A \<and> (\<forall>i\<in>set (x # xs). D i A))) (\<lambda>_. known pid plan t0 {} C)"
    by (rule triple_conseq) (auto elim!: known_mono)
  then show ?case unfolding forA.simps by (intro triple_bind [OF Cons.prems(1)]) (use Cons.prems(2,3) in auto)
qed (auto simp: triple_def)

lemma switch_worker_step:
  assumes "grows C" "i \<in> {1..wp_count plan}"
  shows "triple (known pid plan t0 {} C) (switch_worker (kvm_conn env plan) (spawn_key plan) i) (\<lambda>_. known pid plan t0 {} C) (\<lambda>_. known pid plan t0 {} C)"
proof -
  have look: "spawn_cmd pid plan A (cmd_domifaddr (kvm_uri (wp_kvm_host plan)) (worker_name i))" for A
    by (rule spawn_cmdI(2) [OF assms(2)]) (simp add: spawn_look_def)
  have switch: "triple (known pid plan t0 {} (\<lambda>A. C A \<and> lease (wp_kvm_host plan) (worker_name i) ip A))
      (conn_run (kvm_conn env plan) (cp_ssh_cmd (spawn_key plan) (ipv4_display ip) (''bootc switch '' @ WORKER_REF)))
      (\<lambda>_. known pid plan t0 {} C) (\<lambda>_. known pid plan t0 {} C)" for ip
  proof (rule triple_conseq [OF spawn_conn_tried])
    show "spawn_cmd pid plan A (cp_ssh_cmd (spawn_key plan) (ipv4_display ip) (''bootc switch '' @ WORKER_REF))"
      if "C A \<and> lease (wp_kvm_host plan) (worker_name i) ip A" for A
      by (rule spawn_cmdI(3) [OF assms(2)]) (use that in \<open>unfold spawn_change_def, blast\<close>)
  qed (auto elim!: known_mono intro: grows_conj assms(1))
  have rest: "triple (case x of Some ip \<Rightarrow> known pid plan t0 {} (\<lambda>A. C A \<and> lease (wp_kvm_host plan) (worker_name i) ip A) | None \<Rightarrow> known pid plan t0 {} C)
      (case x of Some ip \<Rightarrow> matchA (exec_shell (kvm_conn env plan) (cp_ssh_cmd (spawn_key plan) (ipv4_display ip) (''bootc switch '' @ WORKER_REF))) (\<lambda>r.
           case r of Ok _ \<Rightarrow> retA () | Err e \<Rightarrow> spawn_log (s e))
       | None \<Rightarrow> spawn_log s') (\<lambda>_. known pid plan t0 {} C) (\<lambda>_. known pid plan t0 {} C)" for x s s'
  proof (cases x)
    case (Some ip)
    show ?thesis
      unfolding Some option.case exec_shell_def
      by (rule triple_match_cases [OF switch]) (unfold result.case, rule triple_ret, assumption, rule spawn_say [OF assms(1)])
  qed (auto intro: spawn_say assms(1))
  show ?thesis
    unfolding switch_worker_def by (rule triple_bind [OF spawn_lease_step [OF assms(1) look] rest])
qed

lemma worker_loop_step:
  assumes "\<not> wp_dry_run plan" "grows C" "\<And>A. C A \<Longrightarrow> lease (wp_kvm_host plan) (wp_cp_name plan) ip A"
  shows "triple (known pid plan t0 {} C) (plan_worker_loop env pid plan (kvm_conn env plan) (ipv4_display ip) (spawn_key plan) tool)
    (\<lambda>_. known pid plan t0 {} (\<lambda>A. C A \<and> (\<forall>i\<in>{1..wp_count plan}. worker_up plan i A))) (\<lambda>_. known pid plan t0 {} C)"
proof -
  let ?B = "\<lambda>A. C A \<and> (\<exists>out. answered (wp_kvm_host plan) (cmd_test_e (template_path plan)) out A)"
  let ?D = "\<lambda>A. C A \<and> (\<forall>i\<in>{1..wp_count plan}. worker_up plan i A)"
  have gB: "grows ?B" by (intro growsI) (meson growsD [OF assms(2)] growsD [OF grows_calls(1)])
  have gD: "grows ?D" by (intro growsI) (meson growsD [OF assms(2)] growsD [OF spawn_grows(5)])
  have "triple (known pid plan t0 {} ?B) (forA [1..<Suc (wp_count plan)] (spawn_one env pid plan (kvm_conn env plan) (ipv4_display ip) (spawn_key plan) tool))
      (\<lambda>_. known pid plan t0 {} (\<lambda>A. ?B A \<and> (\<forall>i\<in>set [1..<Suc (wp_count plan)]. worker_up plan i A))) (\<lambda>_. known pid plan t0 {} ?B)"
    by (rule known_for [where B = ?B], rule spawn_one_step [OF assms(1)]) (use assms(3) gB in \<open>auto\<close>)
  then have loop: "triple (known pid plan t0 {} ?B) (forA [1..<Suc (wp_count plan)] (spawn_one env pid plan (kvm_conn env plan) (ipv4_display ip) (spawn_key plan) tool))
      (\<lambda>_. known pid plan t0 {} ?D) (\<lambda>_. known pid plan t0 {} C)"
    by (rule triple_conseq) (auto elim!: known_mono)
  have "triple (known pid plan t0 {} ?D) (virsh_pool_refresh (kvm_conn env plan) ''mass2'') (\<lambda>_. known pid plan t0 {} ?D) (\<lambda>_. known pid plan t0 {} ?D)"
    unfolding virsh_pool_refresh_def kvm_uri
    by (rule spawn_run_unit, rule triple_conseq [OF spawn_conn_tried [OF gD]])
      (auto intro!: spawn_cmdI(1) elim!: known_mono simp: spawn_general_def)
  then have refresh: "triple (known pid plan t0 {} ?D) (matchA (virsh_pool_refresh (kvm_conn env plan) ''mass2'') (\<lambda>r.
      case r of Ok _ \<Rightarrow> retA () | Err e \<Rightarrow> spawn_log (s e))) (\<lambda>_. known pid plan t0 {} ?D) (\<lambda>_. known pid plan t0 {} C)" for s
    by (rule triple_match_cases) (unfold result.case, rule triple_ret, assumption, rule spawn_say [OF gD])
  show ?thesis
    unfolding plan_worker_loop_def if_not_P [OF assms(1)]
    by (rule triple_bind [OF check_template_step [OF assms(1,2)]], rule triple_bind [OF loop], rule refresh)
qed

lemma spawn_steps_protocol:
  fixes host :: "'w host"
  assumes "\<not> wp_dry_run plan"
  defines "pid \<equiv> host_pid host"
  shows "triple (known pid plan t0 {} (\<lambda>_. True)) (spawn_steps env host plan)
    (\<lambda>_. known pid plan t0 {} (\<lambda>A. \<forall>i\<in>{1..wp_count plan}. worker_up plan i A)) (\<lambda>_. known pid plan t0 {} (\<lambda>_. True))"
proof -
  let ?conn = "kvm_conn env plan" and ?T = "\<lambda>_ :: event set. True" and ?up = "\<lambda>A. \<forall>i\<in>{1..wp_count plan}. worker_up plan i A"
  have gT: "grows ?T" by (simp add: grows_def)
  have gup: "grows ?up" by (intro growsI) (meson growsD [OF spawn_grows(5)])
  have general: "spawn_cmd pid plan A c" if "spawn_general plan c" for A c using that by (rule spawn_cmdI(1))
  let ?ip = "\<lambda>s w. \<exists>ip. s = ipv4_display ip \<and> known pid plan t0 {} (lease (wp_kvm_host plan) (wp_cp_name plan) ip) w"
  have found: "triple (known pid plan t0 {} ?T) (retry_cell env n (wp_cp_ssh_retry_sleep_secs plan) (probe_domifaddr ?conn (wp_cp_name plan)))
      (\<lambda>x. case x of Some ip \<Rightarrow> known pid plan t0 {} (\<lambda>A. True \<and> lease (wp_kvm_host plan) (wp_cp_name plan) ip A) | None \<Rightarrow> known pid plan t0 {} ?T) E" for n E
    by (intro triple_retry_cell spawn_lease_step spawn_sleep gT) (simp add: general spawn_general_def)
  have "triple (case x of Some ip \<Rightarrow> known pid plan t0 {} (\<lambda>A. True \<and> lease (wp_kvm_host plan) (wp_cp_name plan) ip A) | None \<Rightarrow> known pid plan t0 {} ?T)
      (case x of None \<Rightarrow> failA e | Some ip \<Rightarrow> bindA (spawn_log (s ip)) (\<lambda>_. retA (ipv4_display ip))) ?ip (\<lambda>_. known pid plan t0 {} ?T)" for x e s
  proof (cases x)
    case (Some ip)
    show ?thesis unfolding Some option.case simp_thms by (rule say_then, rule grows_lease, rule triple_ret, blast)
  qed (auto intro: triple_fail)
  then have resolve: "triple (known pid plan t0 {} ?T) (plan_cp_ip_resolve env plan ?conn) ?ip (\<lambda>_. known pid plan t0 {} ?T)"
    unfolding plan_cp_ip_resolve_def if_not_P [OF assms(1)] by (intro say_then gT triple_bind [OF found])
  have detect: "triple (known pid plan t0 {} C) (plan_injector_detect plan ?conn) (\<lambda>_. known pid plan t0 {} C) (\<lambda>_. known pid plan t0 {} C)"
    if g: "grows C" for C
    unfolding plan_injector_detect_def if_not_P [OF assms(1)]
    by (rule triple_bind [OF spawn_look_run(1) [OF g]] triple_bind [OF spawn_look_run(2) [OF g]] say_then [OF g] general
        triple_option triple_ret triple_fail no_clone_cmds | assumption | simp add: spawn_general_def)+
  have switch: "triple (known pid plan t0 {} ?up) (plan_bootc_switch host plan ?conn (spawn_key plan)) (\<lambda>_. known pid plan t0 {} ?up) (\<lambda>_. known pid plan t0 {} ?T)"
  proof -
    have "triple (known pid plan t0 {} ?up) (forA [1..<Suc (wp_count plan)] (switch_worker ?conn (spawn_key plan)))
        (\<lambda>_. known pid plan t0 {} ?up) (\<lambda>_. known pid plan t0 {} ?up)"
      by (rule triple_for, rule switch_worker_step [OF gup]) auto
    then have "triple (known pid plan t0 {} ?up) (forA [1..<Suc (wp_count plan)] (switch_worker ?conn (spawn_key plan)))
        (\<lambda>_. known pid plan t0 {} ?up) (\<lambda>_. known pid plan t0 {} ?T)"
      by (rule triple_conseq) (assumption | erule known_mono, rule TrueI)+
    then show ?thesis unfolding plan_bootc_switch_def if_not_P [OF assms(1)] by (intro triple_if spawn_say [OF gup])
  qed
  have rest: "triple (?ip s) (bindA (plan_injector_detect plan ?conn) (\<lambda>tool.
      bindA (plan_worker_loop env pid plan ?conn s (spawn_key plan) tool) (\<lambda>_.
      bindA (plan_bootc_switch host plan ?conn (spawn_key plan)) (\<lambda>_. whenA (wp_dry_run plan) m))))
      (\<lambda>_. known pid plan t0 {} ?up) (\<lambda>_. known pid plan t0 {} ?T)" for s m
  proof -
    have "triple (known pid plan t0 {} (lease (wp_kvm_host plan) (wp_cp_name plan) ip)) (bindA (plan_injector_detect plan ?conn) (\<lambda>tool.
      bindA (plan_worker_loop env pid plan ?conn (ipv4_display ip) (spawn_key plan) tool) (\<lambda>_.
      bindA (plan_bootc_switch host plan ?conn (spawn_key plan)) (\<lambda>_. whenA (wp_dry_run plan) m))))
      (\<lambda>_. known pid plan t0 {} ?up) (\<lambda>_. known pid plan t0 {} ?T)" for ip
    proof (rule triple_bind)
      show "triple (known pid plan t0 {} (lease (wp_kvm_host plan) (wp_cp_name plan) ip)) (plan_injector_detect plan ?conn)
          (\<lambda>_. known pid plan t0 {} (lease (wp_kvm_host plan) (wp_cp_name plan) ip)) (\<lambda>_. known pid plan t0 {} ?T)"
        by (rule triple_conseq [OF detect [OF grows_lease]]) (assumption | erule known_mono, rule TrueI)+
      fix tool
      show "triple (known pid plan t0 {} (lease (wp_kvm_host plan) (wp_cp_name plan) ip))
        (bindA (plan_worker_loop env pid plan ?conn (ipv4_display ip) (spawn_key plan) tool) (\<lambda>_.
          bindA (plan_bootc_switch host plan ?conn (spawn_key plan)) (\<lambda>_. whenA (wp_dry_run plan) m)))
        (\<lambda>_. known pid plan t0 {} ?up) (\<lambda>_. known pid plan t0 {} ?T)"
      proof -
        have "triple (known pid plan t0 {} (lease (wp_kvm_host plan) (wp_cp_name plan) ip))
            (plan_worker_loop env pid plan ?conn (ipv4_display ip) (spawn_key plan) tool) (\<lambda>_. known pid plan t0 {} ?up) (\<lambda>_. known pid plan t0 {} ?T)"
          by (rule triple_conseq [OF worker_loop_step [OF assms(1) grows_lease]]) (assumption | erule known_mono, blast)+
        then show ?thesis
          by (rule triple_bind, intro triple_bind [OF switch]) (use assms(1) in \<open>simp add: triple_def\<close>)
      qed
    qed
    then show ?thesis by (intro triple_cell) simp
  qed
  show ?thesis
    unfolding spawn_steps_def Let_def spawn_key_def [symmetric] pid_def [symmetric] by (rule triple_bind [OF resolve rest])
qed

lemma spawn_run_protocol:
  assumes "spawn_run env host args (Ok cfg) w = (r, w')" "\<not> sa_dry_run args"
  defines "plan \<equiv> spawn_plan_from_args args cfg"
  shows "\<exists>evs. w_trace w' = w_trace w @ evs \<and> ordered (spawn_protocol (host_pid host) plan) evs \<and> tidy plan {} (set evs)
    \<and> (is_ok r \<longrightarrow> 0 < sa_count args \<and> (\<forall>i\<in>{1..sa_count args}. worker_up plan i (set evs)))"
proof -
  let ?K = "known (host_pid host) plan (w_trace w) {}"
  have n: "wp_count plan = sa_count args" "\<not> wp_dry_run plan"
    using assms(2) by (simp_all add: plan_def spawn_plan_from_args_def)
  have start: "?K (\<lambda>_. True) w" by (rule reached_start) (simp add: tidy_def cloned_def answered_def)
  have gT: "grows (\<lambda>_. True)" by (simp add: grows_def)
  have "?K (\<lambda>_. True) w' \<and> (is_ok r \<longrightarrow> 0 < sa_count args \<and> ?K (\<lambda>A. \<forall>i\<in>{1..wp_count plan}. worker_up plan i A) w')"
  proof (cases "sa_count args = 0")
    case True
    with assms(1) start show ?thesis by (auto simp: spawn_run_def)
  next
    case False
    have "triple (?K (\<lambda>_. True)) (bindA (spawn_log s) (\<lambda>_. bindA (spawn_log s') (\<lambda>_. spawn_steps env host plan)))
        (\<lambda>_. ?K (\<lambda>A. \<forall>i\<in>{1..wp_count plan}. worker_up plan i A)) (\<lambda>_. ?K (\<lambda>_. True))" for s s'
      by (intro say_then gT spawn_steps_protocol n(2))
    note post = tripleD [OF this start]
    have "\<exists>s s'. bindA (spawn_log s) (\<lambda>_. bindA (spawn_log s') (\<lambda>_. spawn_steps env host plan)) w = (r, w')"
      using assms(1) unfolding spawn_run_def if_not_P [OF False] Let_def plan_def action_simps(6) by blast
    then obtain s s' where run: "bindA (spawn_log s) (\<lambda>_. bindA (spawn_log s') (\<lambda>_. spawn_steps env host plan)) w = (r, w')" by blast
    show ?thesis
    proof (cases r)
      case (Ok u)
      from post(1) [OF run [unfolded Ok]] False Ok show ?thesis by (auto elim: reached_mono)
    next
      case (Err e)
      from post(2) [OF run [unfolded Err]] Err show ?thesis by auto
    qed
  qed
  then show ?thesis unfolding n(1) reached_def by (cases "is_ok r") blast+
qed

text \<open>C23. Order of a live run. Every command sent to the KVM host is one of those \<open>spawn_cmd\<close> names, and comes after what
  it needs: a worker's disk is cloned only after virsh refused \<open>dominfo\<close> for that worker and the template was seen; the
  join command written into a disk is one that the control plane printed, at an address of its lease; a disk gets it only
  after this run cloned it; \<open>virt-install\<close> comes after a successful injection into that disk; a disk is removed only if
  this run cloned it; and a machine that is already defined is only started.\<close>

theorem spawn_order:
  assumes "spawn_run env host args (Ok cfg) w = (r, w')" "\<not> sa_dry_run args"
  shows "\<exists>evs. w_trace w' = w_trace w @ evs
    \<and> ordered (spawn_protocol (host_pid host) (spawn_plan_from_args args cfg)) evs"
  using spawn_run_protocol [OF assms] by blast


text \<open>A dry run only prints.\<close>

lemma spawn_dry_run_quiet:
  assumes "sa_dry_run args"
  shows "quiet (spawn_run env host args config)"
proof -
  have say: "quiet (spawn_log s)" for s unfolding spawn_log_def by (rule quiet_emit) simp
  have d: "wp_dry_run (spawn_plan_from_args args cfg)" for cfg using assms by (simp add: spawn_plan_from_args_def)
  have steps: "quiet (spawn_steps env host plan)" if d: "wp_dry_run plan" for plan
    unfolding spawn_steps_def Let_def plan_cp_ip_resolve_def plan_injector_detect_def plan_worker_loop_def check_template_def
      spawn_one_def dry_spawn_def plan_bootc_switch_def spawn_summary_def if_P [OF d]
    by (intro quiet_intro say)
  show ?thesis unfolding spawn_run_def Let_def by (intro quiet_intro say steps d)
qed

section \<open>A run\<close>

text \<open>A host on which the one worker is not defined and every other command succeeds.\<close>

definition spawn_demo_env :: "unit env" where
  "spawn_demo_env =
     \<lparr>env_ssh = (\<lambda>opts _ _ x. (Err (Wait (so_host opts) NotFound), x)),
      env_sh = (\<lambda>c x. (Ok (if c = cmd_dominfo (kvm_uri None) (worker_name 1) then \<lparr>ro_status = Exited 1, ro_stdout = [], ro_stderr = []\<rparr>
        else \<lparr>ro_status = Exited 0, ro_stdout = ''kubeadm join guestfish'' @ [NL] @ ''vnet0 52:54:00:00:00:01 ipv4 10.0.0.5/24'',
          ro_stderr = []\<rparr>), x)),
      env_sleep = (\<lambda>_ x. x)\<rparr>"

definition spawn_demo_args :: spawn_args where
  "spawn_demo_args = \<lparr>sa_config = ''c'', sa_count = 1, sa_kvm_host = None, sa_no_sudo = False, sa_dry_run = False,
     sa_cp_ssh_retries = 2, sa_cp_ssh_retry_sleep_secs = 1, sa_token_ttl = ''2h'', sa_force_rebuild = True, sa_force_switch = False\<rparr>"

definition spawn_demo_host :: "unit host" where
  "spawn_demo_host = \<lparr>host_proc = (\<lambda>_ _ x. (Err NotFound, x)), host_exists = (\<lambda>_ _. False), host_read = (\<lambda>_ _. None),
     host_var = (\<lambda>_. None), host_pid = 7\<rparr>"

abbreviation spawn_demo_cfg :: cluster_config where
  "spawn_demo_cfg \<equiv> default_config ''cp'' ''k.pub''"

abbreviation spawn_demo_plan :: spawn_plan where
  "spawn_demo_plan \<equiv> spawn_plan_from_args spawn_demo_args spawn_demo_cfg"

definition spawn_demo_text :: string where
  "spawn_demo_text = ''kubeadm join guestfish'' @ [NL] @ ''vnet0 52:54:00:00:00:01 ipv4 10.0.0.5/24''"

abbreviation spawn_demo_conn :: "unit world connection" where
  "spawn_demo_conn \<equiv> build_connection spawn_demo_env None"

abbreviation spawn_demo_info :: string where
  "spawn_demo_info \<equiv> cmd_dominfo (kvm_uri None) (worker_name 1)"

lemma demo_spawn_answers:
  "c \<noteq> spawn_demo_info \<Longrightarrow> fst (exec_shell spawn_demo_conn c s) = Ok spawn_demo_text"
  "cmd_test_e p \<noteq> spawn_demo_info \<Longrightarrow> fst (remote_path_exists spawn_demo_conn p s) = Ok True"
  "fst (dominfo spawn_demo_conn (worker_name 1) s) = Err (VirshFailed spawn_demo_info [])"
  by (auto simp: exec_shell_def conn_run_def build_connection_def new_local_def local_client_run_def sh_run_def matchA_def bindA_def
      spawn_demo_env_def spawn_demo_text_def remote_path_exists_def dominfo_def kvm_uri_def filled_def exit_success_def Let_def)

lemma demo_spawn_commands:
  "spawn_clone spawn_demo_plan 1 \<noteq> spawn_demo_info" "cmd_test_e (template_path spawn_demo_plan) \<noteq> spawn_demo_info"
  "write_join_tmp_cmd j tmp \<noteq> spawn_demo_info" "guestfish_inject_cmd qcow etc tmp \<noteq> spawn_demo_info"
  "spawn_install spawn_demo_plan 1 \<noteq> spawn_demo_info" "PROBE_INJECTOR \<noteq> spawn_demo_info" "mint_cmd plan key ip \<noteq> spawn_demo_info"
  "cmd_domifaddr (kvm_uri None) ''cp'' \<noteq> spawn_demo_info"
  by (simp_all add: spawn_clone_def cmd_cp_reflink_def cmd_test_e_def write_join_tmp_cmd_def guestfish_inject_cmd_def spawn_install_def
      cmd_virt_install_def PROBE_INJECTOR_def mint_cmd_def cp_ssh_cmd_def cmd_dominfo_def cmd_virsh_def cmd_domifaddr_def)

lemma demo_spawn_text:
  "injector_of (trim spawn_demo_text) = Some Guestfish" "starts_with ''kubeadm join'' (trim spawn_demo_text)"
  "parse_domifaddr spawn_demo_text c = Ok (Some (10, 0, 0, 5))"
  unfolding spawn_demo_text_def by code_simp+

lemma retry_cell_value: "(\<And>s. fst (f s) = Ok (Some v)) \<Longrightarrow> fst (retry_cell env (Suc n) secs f s) = Ok (Some v)"
  unfolding retry_cell.simps by (rule fst_bind) auto

lemma demo_spawn_ok:
  "is_ok (fst (spawn_run spawn_demo_env spawn_demo_host spawn_demo_args (Ok spawn_demo_cfg) \<lparr>w_ext = (), w_trace = []\<rparr>))"
proof -
  let ?conn = spawn_demo_conn and ?plan = spawn_demo_plan and ?ip = "(10, 0, 0, 5) :: ipv4"
  have say: "succeeds (spawn_log s)" for s unfolding spawn_log_def by (rule succeeds_emit)
  have ok: "succeeds (or_bail msg (exec_shell ?conn c))" if "c \<noteq> spawn_demo_info" for c msg
    unfolding or_bail_def by (rule succeeds_match_ok) (use demo_spawn_answers(1) [OF that] in \<open>simp_all add: succeeds_def\<close>)
  have unit_ok: "succeeds (or_bail msg (run_unit ?conn c))" if "c \<noteq> spawn_demo_info" for c msg
    unfolding or_bail_def run_unit_def exec_shell_def [symmetric]
    by (rule succeeds_match_ok, rule succeeds_bind) (use demo_spawn_answers(1) [OF that] in \<open>simp_all add: succeeds_def\<close>)
  have "fst (domifaddr ?conn ''cp'' s) = Ok (Some ?ip)" for s
    unfolding domifaddr_def Let_def kvm_uri exec_shell_def [symmetric]
    by (rule fst_bind [OF demo_spawn_answers(1) [OF demo_spawn_commands(8)]]) (simp add: demo_spawn_text(3))
  then have lease_ip: "fst (probe_domifaddr ?conn ''cp'' s) = Ok (Some ?ip)" for s
    unfolding probe_domifaddr_def by (rule fst_match) simp
  have fields: "wp_dry_run ?plan = False" "wp_count ?plan = 1" "wp_cp_name ?plan = ''cp''" "wp_kvm_host ?plan = None" "wp_cp_ssh_retries ?plan = Suc 1"
    "wp_cp_ssh_retry_sleep_secs ?plan = 1" "wp_force_rebuild ?plan = True" "wp_force_switch ?plan = False"
    by (simp_all add: spawn_plan_from_args_def spawn_demo_args_def default_config_def or_opt_def)
  have resolve: "fst (plan_cp_ip_resolve spawn_demo_env ?plan ?conn s) = Ok (ipv4_display ?ip)" for s
    unfolding plan_cp_ip_resolve_def fields if_False
    by (rule fst_bind [where v = "()"], simp add: spawn_log_def emit_def,
        rule fst_bind [OF retry_cell_value [OF lease_ip]], unfold option.case,
        rule fst_bind [where v = "()"], simp add: spawn_log_def emit_def, simp)
  have reads: "fst (shell_text ?conn c s) = Ok (trim spawn_demo_text)" if "c \<noteq> spawn_demo_info" for c s
    unfolding shell_text_def by (rule fst_match [OF demo_spawn_answers(1) [OF that]]) simp
  have detect: "fst (plan_injector_detect ?plan ?conn s) = Ok Guestfish" for s
    unfolding plan_injector_detect_def fields if_False
    by (rule fst_bind [OF reads [OF demo_spawn_commands(6)]]) (simp add: demo_spawn_text(1))
  have join_v: "fst (probe_join ?conn (mint_cmd ?plan key (ipv4_display ?ip)) s) = Ok (Some (trim spawn_demo_text))" for key s
    unfolding probe_join_def by (rule fst_match [OF demo_spawn_answers(1) [OF demo_spawn_commands(7)]]) (simp add: demo_spawn_text(2))
  have drop: "succeeds (dropA m)" for m :: "(unit world, virt_error, 'b) action"
    unfolding dropA_def by (rule succeeds_match) (rule succeeds_ret)
  have look: "succeeds (shell_text ?conn c)" for c unfolding shell_text_def by (rule succeeds_match) (rule succeeds_ret)
  have inject: "succeeds (inject_join_env pid ?conn qcow j Guestfish)" for pid qcow j
    unfolding inject_join_env_def Let_def inject_with_def injector.case
    by (intro succeeds_bind ok demo_spawn_commands succeeds_match_ok look drop) (auto intro: look succeeds_ret succeeds_bind drop)
  have install: "succeeds (or_bail msg (virt_install ?conn (worker_name 1) (wp_worker_memory ?plan) (wp_worker_vcpus ?plan) (worker_qcow ?plan 1) None))" for msg
    unfolding virt_install_def virt_install_vm_def kvm_uri
    by (rule unit_ok [OF demo_spawn_commands(5) [unfolded spawn_install_def fields]])
  have create: "succeeds (create_worker spawn_demo_env pid ?plan ?conn (ipv4_display ?ip) key Guestfish 1)" for pid key
    unfolding create_worker_def Let_def fields remote_cp_reflink_def spawn_clone_def [symmetric]
    by (rule succeeds_bind [OF say] succeeds_bind [OF unit_ok] demo_spawn_commands succeeds_bind_value [OF retry_cell_value [OF join_v]])+
      (unfold option.case, intro succeeds_bind say install succeeds_match_ok [OF inject], simp add: succeeds_ret)
  have one: "succeeds (spawn_one spawn_demo_env pid ?plan ?conn (ipv4_display ?ip) key Guestfish 1)" for pid key
  proof -
    have "fst (spawn_one spawn_demo_env pid ?plan ?conn (ipv4_display ?ip) key Guestfish 1 s) =
        fst (create_worker spawn_demo_env pid ?plan ?conn (ipv4_display ?ip) key Guestfish 1 (snd (dominfo ?conn (worker_name 1) s)))" for s
      using demo_spawn_answers(3) [of s] unfolding spawn_one_def fields if_False matchA_def by (simp add: split_beta)
    with create show ?thesis by (simp add: succeeds_def)
  qed
  have template: "succeeds (check_template ?plan ?conn)"
    unfolding check_template_def Let_def fields if_False
    by (rule succeeds_match_value [OF demo_spawn_answers(2) [OF demo_spawn_commands(2)]]) (simp add: say)
  have loop: "succeeds (plan_worker_loop spawn_demo_env pid ?plan ?conn (ipv4_display ?ip) key Guestfish)" for pid key
  proof -
    have upt: "[1..<Suc 1] = [1 :: nat]" by simp
    show ?thesis unfolding plan_worker_loop_def fields if_False upt forA.simps
      by (intro succeeds_bind template one succeeds_ret succeeds_match) (auto intro: say succeeds_ret split: result.split)
  qed
  have switch: "succeeds (plan_bootc_switch spawn_demo_host ?plan ?conn key)" for key
    unfolding plan_bootc_switch_def fields by (simp add: say spawn_demo_host_def)
  have count: "sa_count spawn_demo_args \<noteq> 0" by (simp add: spawn_demo_args_def)
  have "succeeds (spawn_steps spawn_demo_env spawn_demo_host ?plan)"
    unfolding spawn_steps_def Let_def fields
    by (rule succeeds_bind_value [OF resolve], rule succeeds_bind_value [OF detect])
      (intro succeeds_bind loop switch, simp add: succeeds_ret)
  then have "succeeds (spawn_run spawn_demo_env spawn_demo_host spawn_demo_args (Ok spawn_demo_cfg))"
    unfolding spawn_run_def if_not_P [OF count] Let_def action_simps(6) by (intro succeeds_bind say)
  then show ?thesis by (simp only: succeeds_def)
qed

theorem spawn_order_witness:
  "\<exists>w' evs. spawn_run spawn_demo_env spawn_demo_host spawn_demo_args (Ok spawn_demo_cfg) \<lparr>w_ext = (), w_trace = []\<rparr> = (Ok (), w')
    \<and> w_trace w' = evs \<and> ordered (spawn_protocol 7 spawn_demo_plan) evs"
proof -
  obtain r w' where run: "spawn_run spawn_demo_env spawn_demo_host spawn_demo_args (Ok spawn_demo_cfg) \<lparr>w_ext = (), w_trace = []\<rparr> = (r, w')"
    by fastforce
  with demo_spawn_ok have "r = Ok ()" by (cases r) auto
  moreover have "\<not> sa_dry_run spawn_demo_args" "host_pid spawn_demo_host = 7" by (simp_all add: spawn_demo_args_def spawn_demo_host_def)
  ultimately show ?thesis using run spawn_order [OF run] by auto
qed


end
