(* ===== verification/Kube_Events.thy ===== *)
theory Kube_Events
  imports Event_Order Cp_Kubectl
begin

text \<open>
  The calls of \<open>kubectl\<close> and of the shell on the control plane as events, with what the caller makes of their answers.
  Shared by the commands that check a cluster.
\<close>

section \<open>Answers\<close>

text \<open>What the lenient calls make of an answer.\<close>

fun folded :: "(ssh_error, run_output) result \<Rightarrow> cp_exec_output option" where
  "folded (Ok out) = Some \<lparr>ce_success = True, ce_stdout = ro_stdout out, ce_stderr = ro_stderr out\<rparr>"
| "folded (Err (NonZeroExit h status out err)) = Some \<lparr>ce_success = False, ce_stdout = out, ce_stderr = err\<rparr>"
| "folded (Err e) = None"

lemma folded_success: "folded r = Some out \<Longrightarrow> ce_success out \<Longrightarrow> \<exists>x. r = Ok x"
  by (cases r rule: folded.cases) auto

abbreviation anything :: protocol where "anything \<equiv> \<lambda>_ _. True"

lemma fold_exit_step:
  assumes "triple P m (\<lambda>a. R (Ok a)) (\<lambda>e. R (Err e))"
  shows "triple P (fold_exit m ctx) (\<lambda>out w. \<exists>r. R r w \<and> folded r = Some out) (\<lambda>_ w. \<exists>r. R r w \<and> folded r = None)"
  unfolding fold_exit_def
proof (rule triple_match [OF assms])
  fix r
  show "triple (R r) (case r of Ok out \<Rightarrow> retA \<lparr>ce_success = True, ce_stdout = ro_stdout out, ce_stderr = ro_stderr out\<rparr>
      | Err (NonZeroExit h status out err) \<Rightarrow> retA \<lparr>ce_success = False, ce_stdout = out, ce_stderr = err\<rparr>
      | Err e \<Rightarrow> failA (ctx # from_ssh e)) (\<lambda>out w. \<exists>r. R r w \<and> folded r = Some out) (\<lambda>_ w. \<exists>r. R r w \<and> folded r = None)"
    by (cases r rule: folded.cases) (fastforce intro!: triple_ret triple_fail)+
qed

lemma kubectl_in_step:
  assumes "\<And>A r. C A \<Longrightarrow> allowed A (SshIn (ct_ssh_opts target) (kubectl_remote c) inp r)"
    and "\<And>A r. C A \<Longrightarrow> D r (insert (SshIn (ct_ssh_opts target) (kubectl_remote c) inp r) A)"
    and "is_ok (reject_shell_metachars ''cp_kubectl_with_stdin_lenient'' c)"
  shows "triple (reached allowed t0 C) (cp_kubectl_with_stdin_lenient env target c inp)
    (\<lambda>out w. \<exists>r. reached allowed t0 (D r) w \<and> folded r = Some out) (\<lambda>_ w. \<exists>r. reached allowed t0 (D r) w \<and> folded r = None)"
proof -
  have "reject_shell_metachars ''cp_kubectl_with_stdin_lenient'' c = Ok ()"
    using assms(3) by (cases "reject_shell_metachars ''cp_kubectl_with_stdin_lenient'' c") auto
  then show ?thesis
    unfolding cp_kubectl_with_stdin_lenient_def
    by (simp only: action_simps) (rule fold_exit_step, rule ssh_in_step, use assms(1,2) in auto)
qed

lemma lenient_step:
  assumes "\<And>A r. C A \<Longrightarrow> allowed A (SshRun (ct_ssh_opts target) c r)"
    and "\<And>A r. C A \<Longrightarrow> D r (insert (SshRun (ct_ssh_opts target) c r) A)"
  shows "triple (reached allowed t0 C) (cp_ssh_lenient env target c)
    (\<lambda>out w. \<exists>r. reached allowed t0 (D r) w \<and> folded r = Some out) (\<lambda>_ w. \<exists>r. reached allowed t0 (D r) w \<and> folded r = None)"
  unfolding cp_ssh_lenient_def by (rule fold_exit_step, rule ssh_step) (use assms in auto)

text \<open>A kubectl call that is not filtered is one event; a filtered one is none.\<close>

lemma kubectl_raw_step:
  assumes "\<And>A r. C A \<Longrightarrow> allowed A (SshRun (ct_ssh_opts target) (kubectl_remote c) r)"
    and "\<And>A out. C A \<Longrightarrow> Q (insert (SshRun (ct_ssh_opts target) (kubectl_remote c) (Ok out)) A)"
    and "\<And>A e. C A \<Longrightarrow> E (insert (SshRun (ct_ssh_opts target) (kubectl_remote c) (Err e)) A)"
    and "is_ok (reject_shell_metachars ''cp_kubectl_raw'' c)"
  shows "triple (reached allowed t0 C) (cp_kubectl_raw env target c) (\<lambda>_. reached allowed t0 Q) (\<lambda>_. reached allowed t0 E)"
proof -
  have "reject_shell_metachars ''cp_kubectl_raw'' c = Ok ()"
    using assms(4) by (cases "reject_shell_metachars ''cp_kubectl_raw'' c") auto
  moreover have "triple (reached allowed t0 C) (ssh_ctx (ssh_run env (ct_ssh_opts target) (kubectl_remote c)) ctx)
      (\<lambda>_. reached allowed t0 Q) (\<lambda>_. reached allowed t0 E)" for ctx
    unfolding ssh_ctx_def
    by (rule triple_match_cases [OF ssh_step [where Q = "\<lambda>_. Q" and E = "\<lambda>_. E"]])
      (use assms(1-3) in \<open>auto intro!: triple_lift simp: with_context_def\<close>)
  ultimately show ?thesis unfolding cp_kubectl_raw_def cp_kubectl_raw_with_exec_def by simp
qed

lemma say_step:
  assumes "\<And>A. C A \<Longrightarrow> allowed A (Stderr s)" "\<And>A. C A \<Longrightarrow> C (insert (Stderr s) A)"
  shows "triple (reached allowed t0 C) (eprintln s) (\<lambda>_. reached allowed t0 C) E"
proof (rule tripleI)
  fix w a w' assume r: "reached allowed t0 C w" and m: "eprintln s w = (Ok a, w')"
  show "reached allowed t0 C w'"
    by (rule reached_event [OF r, where e = "Stderr s"]) (use m assms in \<open>auto simp: emit_def\<close>)
qed (simp add: emit_def)

lemma print_step:
  assumes "\<And>A. C A \<Longrightarrow> allowed A (Stdout s)" "\<And>A. C A \<Longrightarrow> C (insert (Stdout s) A)"
  shows "triple (reached allowed t0 C) (println s) (\<lambda>_. reached allowed t0 C) E"
proof (rule tripleI)
  fix w a w' assume r: "reached allowed t0 C w" and m: "println s w = (Ok a, w')"
  show "reached allowed t0 C w'"
    by (rule reached_event [OF r, where e = "Stdout s"]) (use m assms in \<open>auto simp: emit_def\<close>)
qed (simp add: emit_def)

end
