(* ===== verification/Verify.thy ===== *)
theory Verify
  imports Etcd Deploy_Cluster
begin

text \<open>
  \<open>hbird verify\<close> (\<open>commands/verify.rs\<close>): the checks of a running cluster. The plan with its detection of the KVM host,
  the encryption check that runs a script of the image, the four hardening checks, the smoke test with its
  namespace that is deleted on every way out, and the dispatch. The configuration is what \<open>hbird_config::parse\<close> gave for
  the path; it is read twice in the source and taken to be the same both times. \<open>eprint!\<close> of a text is one \<open>Stderr\<close>
  event.
\<close>

section \<open>On which machine\<close>

text \<open>The answer of \<open>hostname\<close>, when it succeeded and is not blank.\<close>

definition hostname_answer :: "(io_error, run_output) result \<Rightarrow> string option" where
  "hostname_answer r =
     (case r of
        Ok out \<Rightarrow> if exit_success (ro_status out) \<and> trim (ro_stdout out) \<noteq> [] then Some (trim (ro_stdout out)) else None
      | Err _ \<Rightarrow> None)"

definition current_short_hostname :: "'w host \<Rightarrow> ('w, string option) act" where
  "current_short_hostname host =
     matchA (proc_run host None [''hostname'', ''-s'']) (\<lambda>r.
       case hostname_answer r of
         Some s \<Rightarrow> retA (Some s)
       | None \<Rightarrow> matchA (proc_run host None [''hostname'']) (\<lambda>r2. retA (hostname_answer r2)))"

definition hostname_matches_kvm_host :: "string \<Rightarrow> string \<Rightarrow> bool" where
  "hostname_matches_kvm_host local_hostname kvm \<longleftrightarrow>
     kvm \<noteq> [] \<and> local_hostname \<noteq> [] \<and> local_hostname = hd (split_on (CHR ''.'') kvm)"

definition running_on_kvm_host_with :: "string \<Rightarrow> ('w, string option) act \<Rightarrow> ('w, bool) act" where
  "running_on_kvm_host_with kvm local_source =
     bindA local_source (\<lambda>found.
     retA (case found of None \<Rightarrow> False | Some this_host \<Rightarrow> hostname_matches_kvm_host this_host kvm))"

definition running_on_kvm_host :: "'w host \<Rightarrow> string \<Rightarrow> ('w, bool) act" where
  "running_on_kvm_host host kvm = running_on_kvm_host_with kvm (current_short_hostname host)"

section \<open>Arguments and plan\<close>

record verify_common_args =
  vc_config :: "string option"
  vc_cp_name :: "string option"
  vc_kvm_host :: "string option"
  vc_cp_ip :: "string option"
  vc_kubectl :: "string option"

datatype verify_subcommand =
    VEncryption verify_common_args
  | VHardening verify_common_args
  | VAppDeploy verify_common_args
  | VAll verify_common_args

definition verify_log :: "string \<Rightarrow> string \<Rightarrow> ('w world, 'e, unit) action" where
  "verify_log prefix line = eprintln (prefix @ '' '' @ line)"

record verify_plan =
  vp_target :: cp_target
  vp_cp_name :: string

definition RESOLVE_FAILED :: "string \<Rightarrow> string" where
  "RESOLVE_FAILED name =
     ''resolve_cp_ip: could not resolve IPv4 for domain '' @ quoted name @ ''. ''
     @ ''Set CP_IP=<ip> in your CONFIG, or export KVM_HOST=<ssh-alias> ''
     @ ''so we can query libvirt on the KVM host via SSH (workstation ''
     @ ''operators without local libvirt), or run from the KVM host ''
     @ ''with virsh installed.''"

text \<open>The copies of the quoting function and of the lease parser that this file has.\<close>

fun quote_loop :: "string \<Rightarrow> string \<Rightarrow> string" where
  "quote_loop out [] = out @ [SQ]"
| "quote_loop out (c # cs) = quote_loop (if c = SQ then out @ [SQ, BSL, SQ, SQ] else out @ [c]) cs"

definition verify_single_quote :: "string \<Rightarrow> string" where
  "verify_single_quote s = quote_loop [SQ] s"

fun lease_loop :: "string list \<Rightarrow> string option" where
  "lease_loop [] = None"
| "lease_loop (line # rest) =
     (if \<not> contains ''ipv4'' line then lease_loop rest
      else
        let cols = split_whitespace line in
        if 3 < length cols \<and> hd (split_on (CHR ''/'') (cols ! 3)) \<noteq> [] then Some (hd (split_on (CHR ''/'') (cols ! 3)))
        else lease_loop rest)"

definition resolve_cp_ip_via_kvm_host :: "'w env \<Rightarrow> string \<Rightarrow> string option \<Rightarrow> ('w, string) act" where
  "resolve_cp_ip_via_kvm_host env name kvm =
     (case kvm of
        None \<Rightarrow> failA [RESOLVE_FAILED name]
      | Some h \<Rightarrow>
          let cmd = ''virsh -c qemu:///system domifaddr '' @ verify_single_quote name;
              parsed = (\<lambda>raw. case lease_loop (lines raw) of Some ip \<Rightarrow> retA ip | None \<Rightarrow> failA [RESOLVE_FAILED name]) in
          matchA (ssh_run env (ssh_options_new h) cmd) (\<lambda>r.
            case r of
              Ok out \<Rightarrow> parsed (ro_stdout out)
            | Err (NonZeroExit hh status out err) \<Rightarrow> parsed out
            | Err e \<Rightarrow> failA [''resolve_cp_ip: ssh-to-KVM-host failed for `'' @ cmd @ ''` against '' @ h @ '': '' @ ssh_error_display e]))"

type_synonym parsed_config = "(anyhow, cluster_config) result option"

definition verify_kvm_host :: "verify_common_args \<Rightarrow> cluster_config option \<Rightarrow> string option" where
  "verify_kvm_host args config = filled (or_opt (vc_kvm_host args) (Option.bind config kvm_host))"

definition from_args_with ::
  "'w env \<Rightarrow> verify_common_args \<Rightarrow> parsed_config \<Rightarrow> ('w, string option) act \<Rightarrow> ('w, verify_plan) act" where
  "from_args_with env args parsed local_source =
     bindA (case parsed of
              None \<Rightarrow> retA None
            | Some r \<Rightarrow> bindA (liftA (with_context (''verify: failed to parse --config '' @ unwrap_or (vc_config args) []) r)) (\<lambda>c. retA (Some c))) (\<lambda>config.
     let name = unwrap_or (or_opt (vc_cp_name args) (map_option cp_name config)) ''hummingbird-k8s'';
         resolved = verify_kvm_host args config in
     bindA (case resolved of
              None \<Rightarrow> retA None
            | Some h \<Rightarrow>
                bindA (running_on_kvm_host_with h local_source) (\<lambda>here.
                if here then
                  bindA (eprintln (''[verify] already on KVM_HOST ('' @ h @ ''); dropping ProxyJump for direct CP SSH (#353/#362)'')) (\<lambda>_. retA None)
                else retA (Some h))) (\<lambda>kvm.
     bindA (case filled (vc_cp_ip args) of
              Some ip \<Rightarrow> retA ip
            | None \<Rightarrow>
                (case filled (Option.bind config cp_ip) of
                   Some ip \<Rightarrow> retA ip
                 | None \<Rightarrow> resolve_cp_ip_via_kvm_host env name kvm)) (\<lambda>ip.
     retA \<lparr>vp_target = \<lparr>ct_cp_ip = ip, ct_kvm_host = kvm\<rparr>, vp_cp_name = name\<rparr>)))"

definition verify_from_args :: "'w env \<Rightarrow> 'w host \<Rightarrow> verify_common_args \<Rightarrow> parsed_config \<Rightarrow> ('w, verify_plan) act" where
  "verify_from_args env host args parsed = from_args_with env args parsed (current_short_hostname host)"

section \<open>Encryption\<close>

definition encryption_cmd :: "string option \<Rightarrow> string" where
  "encryption_cmd expected_prefix =
     (case expected_prefix of
        Some p \<Rightarrow> ''EXPECTED_PREFIX='' @ verify_single_quote p @ '' /usr/libexec/verify-encryption.sh''
      | None \<Rightarrow> ''/usr/libexec/verify-encryption.sh'')"

definition run_verify_encryption :: "'w env \<Rightarrow> 'w host \<Rightarrow> verify_plan \<Rightarrow> ('w, unit) act" where
  "run_verify_encryption env host plan =
     (let prefix = ''[verify-encryption]''; target = vp_target plan in
      bindA (verify_log prefix (''remote mode: ssh root@'' @ ct_cp_ip target
        @ (case ct_kvm_host target of Some h \<Rightarrow> '' via '' @ h | None \<Rightarrow> []))) (\<lambda>_.
      bindA (ctxA (''verify-encryption: ssh to root@'' @ ct_cp_ip target @ '' failed'')
        (cp_ssh_lenient env target (encryption_cmd (host_var host ''EXPECTED_PREFIX'')))) (\<lambda>out.
      bindA (forA (lines (ce_stderr out)) eprintln) (\<lambda>_.
      bindA (forA (lines (ce_stdout out)) println) (\<lambda>_.
      if \<not> ce_success out then
        failA [''[verify-encryption] FAIL: remote /usr/libexec/verify-encryption.sh ''
          @ ''on '' @ ct_cp_ip target @ '' failed '' @ EM_DASH @ '' see [verify-encryption] FAIL: lines above for the ''
          @ ''specific class (etcd unreachable / could not read key / secret ''
          @ ''stored plaintext)'']
      else retA ())))))"

section \<open>Hardening\<close>

abbreviation HARDENING :: string where "HARDENING \<equiv> ''[verify-hardening]''"

definition PRIVILEGED_POD :: string where
  "PRIVILEGED_POD = unlines
     [''apiVersion: v1'', ''kind: Pod'', ''metadata:'', ''  name: verify-hardening-privileged-probe'', ''  namespace: default'',
      ''spec:'', ''  hostPID: true'', ''  containers:'', ''  - name: x'', ''    image: busybox'', ''    securityContext:'',
      ''      privileged: true'']"

definition DELETE_PROBE :: string where
  "DELETE_PROBE = ''-n default delete pod verify-hardening-privileged-probe --ignore-not-found=true --wait=false''"

definition combined :: "cp_exec_output \<Rightarrow> string" where
  "combined out = ce_stdout out @ [NL] @ ce_stderr out"

definition check_podsecurity_rejects_privileged :: "'w env \<Rightarrow> verify_plan \<Rightarrow> ('w, bool) act" where
  "check_podsecurity_rejects_privileged env plan =
     bindA (verify_log HARDENING ''check 1/3: PodSecurity restricted rejects a privileged pod'') (\<lambda>_.
     bindA (cp_kubectl_with_stdin_lenient env (vp_target plan) ''apply -f -'' PRIVILEGED_POD) (\<lambda>out.
     matchA (cp_kubectl_raw env (vp_target plan) DELETE_PROBE) (\<lambda>_.
     if \<not> ce_success out \<and> contains ''violates PodSecurity'' (combined out) then
       bindA (verify_log HARDENING ''  PASS: privileged pod rejected by PodSecurity'') (\<lambda>_. retA True)
     else if ce_success out then
       bindA (verify_log HARDENING (''  FAIL: privileged pod was NOT rejected (kubectl exit 0 '' @ EM_DASH @ '' PSA may be misconfigured)'')) (\<lambda>_.
       bindA (verify_log HARDENING (''  apiserver output: '' @ combined out)) (\<lambda>_. retA False))
     else
       bindA (verify_log HARDENING (''  FAIL: privileged pod was rejected but marker missing '' @ EM_DASH @ '' apiserver wording may have changed'')) (\<lambda>_.
       bindA (verify_log HARDENING (''  apiserver output: '' @ combined out)) (\<lambda>_. retA False)))))"

definition AUDIT_CMD :: string where
  "AUDIT_CMD = ''for p in /var/log/kubernetes/k8s-audit.log /var/log/k8s-audit.log; do ''
     @ ''if [ -s '' @ DQS @ ''$p'' @ DQS @ '' ]; then printf '' @ DQS @ ''OK %s'' @ [BSL] @ ''n'' @ DQS @ '' '' @ DQS @ ''$p'' @ DQS
     @ ''; exit 0; fi; done; exit 1''"

definition check_apiserver_audit_log_nonempty :: "'w env \<Rightarrow> verify_plan \<Rightarrow> ('w, bool) act" where
  "check_apiserver_audit_log_nonempty env plan =
     bindA (verify_log HARDENING ''check 2/3: apiserver audit log is non-empty on the CP host'') (\<lambda>_.
     bindA (cp_ssh_lenient env (vp_target plan) AUDIT_CMD) (\<lambda>out.
     if ce_success out \<and> lines (ce_stdout out) \<noteq> [] then
       let line = hd (lines (ce_stdout out)) in
       bindA (verify_log HARDENING (''  PASS: audit log present ('' @ unwrap_or (strip_prefix ''OK '' line) line @ '')'')) (\<lambda>_. retA True)
     else
       bindA (verify_log HARDENING ''  FAIL: audit log missing or empty'') (\<lambda>_.
       bindA (verify_log HARDENING ''  expected /var/log/kubernetes/k8s-audit.log (post-#50) or /var/log/k8s-audit.log'') (\<lambda>_. retA False))))"

definition ps_cmd :: "string \<Rightarrow> string" where
  "ps_cmd flag = ''ps -ef | grep -- '' @ quoted flag @ '' | grep -v grep | head -1''"

definition check_kubelet_flag :: "'w env \<Rightarrow> verify_plan \<Rightarrow> string \<Rightarrow> string \<Rightarrow> ('w, bool) act" where
  "check_kubelet_flag env plan title flag =
     bindA (verify_log HARDENING title) (\<lambda>_.
     bindA (cp_ssh_lenient env (vp_target plan) (ps_cmd flag)) (\<lambda>out.
     if ce_success out \<and> trim (ce_stdout out) \<noteq> [] then
       bindA (verify_log HARDENING (''  PASS: kubelet has '' @ flag)) (\<lambda>_. retA True)
     else
       bindA (verify_log HARDENING (''  FAIL: kubelet is not running with '' @ flag)) (\<lambda>_. retA False)))"

definition check_kubelet_protect_kernel_defaults :: "'w env \<Rightarrow> verify_plan \<Rightarrow> ('w, bool) act" where
  "check_kubelet_protect_kernel_defaults env plan =
     check_kubelet_flag env plan ''check 3/4: kubelet running with --protect-kernel-defaults=true'' ''--protect-kernel-defaults=true''"

definition check_kubelet_rotate_certificates :: "'w env \<Rightarrow> verify_plan \<Rightarrow> ('w, bool) act" where
  "check_kubelet_rotate_certificates env plan =
     check_kubelet_flag env plan ''check 4/4: kubelet running with --rotate-certificates=true (#121)'' ''--rotate-certificates=true''"

definition verdict :: "bool \<Rightarrow> string" where
  "verdict ok = (if ok then ''PASS'' else ''FAIL'')"

definition run_verify_hardening :: "'w env \<Rightarrow> verify_plan \<Rightarrow> ('w, unit) act" where
  "run_verify_hardening env plan =
     bindA (verify_log HARDENING (''CP_IP='' @ ct_cp_ip (vp_target plan))) (\<lambda>_.
     bindA (check_podsecurity_rejects_privileged env plan) (\<lambda>ps_ok.
     bindA (check_apiserver_audit_log_nonempty env plan) (\<lambda>audit_ok.
     bindA (check_kubelet_protect_kernel_defaults env plan) (\<lambda>kubelet_ok.
     bindA (check_kubelet_rotate_certificates env plan) (\<lambda>rotate_ok.
     bindA (forA [[], ''[verify-hardening] summary'',
         ''  PodSecurity restricted    : '' @ verdict ps_ok, ''  apiserver audit log       : '' @ verdict audit_ok,
         ''  kubelet protect-kernel    : '' @ verdict kubelet_ok, ''  kubelet rotate-certs      : '' @ verdict rotate_ok] println) (\<lambda>_.
     if ps_ok \<and> audit_ok \<and> kubelet_ok \<and> rotate_ok then println ''[verify-hardening] all checks PASSED''
     else
       bindA (println ''[verify-hardening] one or more checks FAILED'') (\<lambda>_.
       failA [''verify-hardening: one or more checks FAILED''])))))))"

section \<open>The smoke test\<close>

abbreviation APP_DEPLOY :: string where "APP_DEPLOY \<equiv> ''[verify-app-deploy]''"

definition NGINX_MANIFEST :: string where
  "NGINX_MANIFEST = unlines
     [''apiVersion: apps/v1'', ''kind: Deployment'', ''metadata:'', ''  name: nginx'', ''spec:'', ''  replicas: 1'', ''  selector:'',
      ''    matchLabels:'', ''      app: nginx'', ''  template:'', ''    metadata:'', ''      labels:'', ''        app: nginx'', ''    spec:'',
      ''      automountServiceAccountToken: false'', ''      containers:'', ''      - name: nginx'',
      ''        image: nginxinc/nginx-unprivileged:stable'', ''        ports:'', ''        - containerPort: 8080'',
      ''        securityContext:'', ''          runAsNonRoot: true'', ''          allowPrivilegeEscalation: false'',
      ''          capabilities:'', ''            drop: [ALL]'', ''          seccompProfile:'', ''            type: RuntimeDefault'',
      ''---'', ''apiVersion: v1'', ''kind: Service'', ''metadata:'', ''  name: nginx'', ''spec:'', ''  selector:'', ''    app: nginx'',
      ''  ports:'', ''  - port: 8080'', ''    targetPort: 8080'']"

text \<open>The quotation marks of the JSON text are written as \<open>`\<close> and replaced.\<close>

definition OVERRIDES :: string where
  "OVERRIDES = map (\<lambda>c. if c = CHR 0x60 then CHR 0x22 else c)
     (''{`spec`:{`automountServiceAccountToken`:false,`containers`:[{`name`:`probe`,`image`:`busybox:stable`,`stdin`:true,''
     @ ''`command`:[`sh`,`-c`,`wget -qO- http://nginx:8080`],`securityContext`:{`runAsNonRoot`:true,`runAsUser`:65534,''
     @ ''`allowPrivilegeEscalation`:false,`capabilities`:{`drop`:[`ALL`]},`seccompProfile`:{`type`:`RuntimeDefault`}}}]}}'')"

definition create_ns_cmd :: "string \<Rightarrow> string" where "create_ns_cmd ns = ''create ns '' @ ns"
definition apply_ns_cmd :: "string \<Rightarrow> string" where "apply_ns_cmd ns = ''apply -n '' @ ns @ '' -f -''"
definition delete_ns_cmd :: "string \<Rightarrow> string" where "delete_ns_cmd ns = ''delete ns '' @ ns @ '' --wait=false --ignore-not-found''"

definition wait_ns_cmd :: "string \<Rightarrow> string" where
  "wait_ns_cmd ns = ''-n '' @ ns @ '' wait --for=condition=available --timeout=2m deployment/nginx''"

definition events_ns_cmd :: "string \<Rightarrow> string" where
  "events_ns_cmd ns = ''-n '' @ ns @ '' get events --sort-by=.lastTimestamp''"

definition probe_ns_cmd :: "string \<Rightarrow> string" where
  "probe_ns_cmd ns = ''run probe -n '' @ ns @ '' --rm -i --restart=Never --image=busybox:stable --overrides='' @ verify_single_quote OVERRIDES"

text \<open>\<open>Drop for NamespaceCleanup\<close>, and the body that it surrounds.\<close>

definition drop_namespace :: "'w env \<Rightarrow> cp_target \<Rightarrow> string \<Rightarrow> ('w, unit) act" where
  "drop_namespace env target ns =
     bindA (eprintln (''[verify-app-deploy] cleanup: deleting namespace '' @ ns)) (\<lambda>_.
     matchA (cp_kubectl_raw env target (delete_ns_cmd ns)) (\<lambda>_. retA ()))"

definition app_deploy_wait :: "'w env \<Rightarrow> cp_target \<Rightarrow> string \<Rightarrow> ('w, unit) act" where
  "app_deploy_wait env target ns =
     bindA (verify_log APP_DEPLOY ''waiting up to 2m for deployment/nginx to become Available'') (\<lambda>_.
     matchA (cp_kubectl_raw env target (wait_ns_cmd ns)) (\<lambda>r.
       case r of
         Ok _ \<Rightarrow> retA ()
       | Err _ \<Rightarrow>
           bindA (verify_log APP_DEPLOY ''FAIL: deployment/nginx did not become Available'') (\<lambda>_.
           bindA (verify_log APP_DEPLOY ''  recent events:'') (\<lambda>_.
           bindA (matchA (cp_kubectl_raw env target (events_ns_cmd ns)) (\<lambda>ev.
             case ev of Ok out \<Rightarrow> eprintln (ro_stdout out) | Err _ \<Rightarrow> retA ())) (\<lambda>_.
           failA [''verify-app-deploy: deployment/nginx did not become Available''])))))"

definition app_deploy_probe :: "'w env \<Rightarrow> cp_target \<Rightarrow> string \<Rightarrow> ('w, unit) act" where
  "app_deploy_probe env target ns =
     bindA (verify_log APP_DEPLOY ''probing http://nginx:8080 from an in-cluster busybox pod'') (\<lambda>_.
     bindA (cp_kubectl_with_stdin_lenient env target (probe_ns_cmd ns) []) (\<lambda>out.
     if \<not> ce_success out then
       bindA (verify_log APP_DEPLOY ''FAIL: probe pod exited non-zero'') (\<lambda>_.
       bindA (eprintln (combined out)) (\<lambda>_.
       failA [''verify-app-deploy: probe pod exited non-zero'']))
     else if contains ''Welcome to nginx'' (combined out) then
       bindA (verify_log APP_DEPLOY ''PASS: nginx returned the welcome page over ClusterIP'') (\<lambda>_.
       verify_log APP_DEPLOY ''verify-app-deploy: PASS'')
     else
       bindA (verify_log APP_DEPLOY ''FAIL: probe did not see the nginx welcome page'') (\<lambda>_.
       bindA (verify_log APP_DEPLOY ''  probe output:'') (\<lambda>_.
       bindA (eprintln (combined out)) (\<lambda>_.
       failA [''verify-app-deploy: probe did not see the nginx welcome page''])))))"

definition app_deploy_body :: "'w env \<Rightarrow> cp_target \<Rightarrow> string \<Rightarrow> ('w, unit) act" where
  "app_deploy_body env target ns =
     bindA (verify_log APP_DEPLOY (''creating namespace '' @ ns)) (\<lambda>_.
     bindA (ctxA (''verify-app-deploy: failed to create namespace '' @ ns) (cp_kubectl_raw env target (create_ns_cmd ns))) (\<lambda>_.
     bindA (verify_log APP_DEPLOY (''applying nginx Deployment + Service in '' @ ns)) (\<lambda>_.
     bindA (cp_kubectl_with_stdin_lenient env target (apply_ns_cmd ns) NGINX_MANIFEST) (\<lambda>out.
     if \<not> ce_success out then
       failA [''verify-app-deploy: kubectl apply failed.'' @ [NL] @ ''--- stdout ---'' @ [NL] @ ce_stdout out @ [NL]
         @ ''--- stderr ---'' @ [NL] @ ce_stderr out]
     else
       bindA (app_deploy_wait env target ns) (\<lambda>_.
       app_deploy_probe env target ns)))))"

definition smoketest_ns :: "nat \<Rightarrow> string" where
  "smoketest_ns epoch = ''smoketest-'' @ show_nat epoch"

definition run_verify_app_deploy :: "'w env \<Rightarrow> 'w console \<Rightarrow> verify_plan \<Rightarrow> ('w, unit) act" where
  "run_verify_app_deploy env con plan =
     bindA (now_epoch_secs con) (\<lambda>epoch.
     matchA (app_deploy_body env (vp_target plan) (smoketest_ns epoch)) (\<lambda>r.
     matchA (drop_namespace env (vp_target plan) (smoketest_ns epoch)) (\<lambda>_. liftA r)))"

section \<open>Dispatch\<close>

definition resolved_kvm_host_for_onhost_skip :: "verify_common_args \<Rightarrow> parsed_config \<Rightarrow> string option" where
  "resolved_kvm_host_for_onhost_skip args parsed =
     (case filled (vc_kvm_host args) of
        Some h \<Rightarrow> Some h
      | None \<Rightarrow> (case parsed of Some (Ok c) \<Rightarrow> filled (kvm_host c) | _ \<Rightarrow> None))"

definition log_app_deploy_onhost_skip :: "string \<Rightarrow> ('w, unit) act" where
  "log_app_deploy_onhost_skip kvm =
     bindA (eprintln (''[verify-app-deploy] already on KVM_HOST ('' @ kvm
       @ ''); skipping in-place verify to avoid ssh-to-self loop (#353/#362)'')) (\<lambda>_.
     eprintln (''[verify-app-deploy]   hint: re-run from a workstation with: hbird verify app-deploy --config <conf> --kvm-host '' @ kvm))"

text \<open>The test of the two arms that may skip.\<close>

definition on_host_skip :: "'w host \<Rightarrow> verify_common_args \<Rightarrow> parsed_config \<Rightarrow> ('w, string option) act" where
  "on_host_skip host args parsed =
     (case resolved_kvm_host_for_onhost_skip args parsed of
        None \<Rightarrow> retA None
      | Some kvm \<Rightarrow> bindA (running_on_kvm_host host kvm) (\<lambda>here. retA (if here then Some kvm else None)))"

fun verify_run :: "'w env \<Rightarrow> 'w host \<Rightarrow> 'w console \<Rightarrow> verify_subcommand \<Rightarrow> parsed_config \<Rightarrow> ('w, unit) act" where
  "verify_run env host con (VEncryption c) parsed =
     bindA (verify_from_args env host c parsed) (run_verify_encryption env host)"
| "verify_run env host con (VHardening c) parsed =
     bindA (verify_from_args env host c parsed) (run_verify_hardening env)"
| "verify_run env host con (VAppDeploy c) parsed =
     bindA (on_host_skip host c parsed) (\<lambda>skip.
     case skip of
       Some kvm \<Rightarrow> log_app_deploy_onhost_skip kvm
     | None \<Rightarrow> bindA (verify_from_args env host c parsed) (run_verify_app_deploy env con))"
| "verify_run env host con (VAll c) parsed =
     bindA (verify_from_args env host c parsed) (\<lambda>plan.
     bindA (ctxA ''verify-all step 1/3: encryption'' (run_verify_encryption env host plan)) (\<lambda>_.
     bindA (ctxA ''verify-all step 2/3: hardening'' (run_verify_hardening env plan)) (\<lambda>_.
     bindA (on_host_skip host c parsed) (\<lambda>skip.
     case skip of
       Some kvm \<Rightarrow> log_app_deploy_onhost_skip kvm
     | None \<Rightarrow> ctxA ''verify-all step 3/3: app-deploy'' (run_verify_app_deploy env con plan)))))"

end
