(* ===== verification/Verify_Safety.thy ===== *)
theory Verify_Safety
  imports Kvm_Events Kube_Events Verify
begin

text \<open>
  What the verdicts of \<open>hbird verify\<close> rest on: a pass needs the answers that show it, and the smoke test deletes its
  namespace whatever happens.
\<close>

section \<open>The copies of shared helpers\<close>

lemma quote_loop_eq: "quote_loop out s = out @ sq_body s @ [SQ]"
  by (induction out s rule: quote_loop.induct) simp_all

lemma verify_single_quote_eq: "verify_single_quote s = shell_single_quote s"
  by (simp add: verify_single_quote_def quote_loop_eq shell_single_quote_def)

lemma lease_loop_eq: "lease_loop ls = first_ipv4_rows ls"
  by (induction ls) (auto simp: first_ipv4_of_row_def nth_field_def Let_def)

section \<open>The hardening verdict\<close>

text \<open>What shows each of the four facts: the API server refused the privileged pod and said why, the audit log was
  printed, and the process list has a line with each flag.\<close>

definition psa_shown :: "(ssh_error, run_output) result set \<Rightarrow> bool" where
  "psa_shown R \<longleftrightarrow> (\<exists>h status out err. Err (NonZeroExit h status out err) \<in> R \<and> contains ''violates PodSecurity'' (out @ [NL] @ err))"

definition text_shown :: "(string \<Rightarrow> bool) \<Rightarrow> (ssh_error, run_output) result set \<Rightarrow> bool" where
  "text_shown p R \<longleftrightarrow> (\<exists>out. Ok out \<in> R \<and> p (ro_stdout out))"

definition POD_CALL :: string where "POD_CALL = kubectl_remote ''apply -f -''"
definition PROTECT_CMD :: string where "PROTECT_CMD = ps_cmd ''--protect-kernel-defaults=true''"
definition ROTATE_CMD :: string where "ROTATE_CMD = ps_cmd ''--rotate-certificates=true''"

definition pod_answers :: "ssh_options \<Rightarrow> event set \<Rightarrow> (ssh_error, run_output) result set" where
  "pod_answers opts A = {r. SshIn opts POD_CALL PRIVILEGED_POD r \<in> A}"

definition answers :: "ssh_options \<Rightarrow> string \<Rightarrow> event set \<Rightarrow> (ssh_error, run_output) result set" where
  "answers opts c A = {r. SshRun opts c r \<in> A}"

definition hardening_shown :: "ssh_options \<Rightarrow> event set \<Rightarrow> bool" where
  "hardening_shown opts A \<longleftrightarrow>
     psa_shown (pod_answers opts A) \<and> text_shown (\<lambda>s. lines s \<noteq> []) (answers opts AUDIT_CMD A)
     \<and> text_shown (\<lambda>s. trim s \<noteq> []) (answers opts PROTECT_CMD A) \<and> text_shown (\<lambda>s. trim s \<noteq> []) (answers opts ROTATE_CMD A)"

lemma hardening_cmds_distinct:
  "AUDIT_CMD \<noteq> PROTECT_CMD" "AUDIT_CMD \<noteq> ROTATE_CMD" "PROTECT_CMD \<noteq> ROTATE_CMD"
  "kubectl_remote c \<noteq> AUDIT_CMD" "kubectl_remote c \<noteq> PROTECT_CMD" "kubectl_remote c \<noteq> ROTATE_CMD"
  by (simp_all add: AUDIT_CMD_def PROTECT_CMD_def ROTATE_CMD_def ps_cmd_def kubectl_remote_def quoted_def)

lemma answers_insert [simp]:
  "pod_answers opts (insert (SshRun o2 c r) A) = pod_answers opts A"
  "pod_answers opts (insert (SshIn opts POD_CALL PRIVILEGED_POD r) A) = insert r (pod_answers opts A)"
  "pod_answers opts (insert (Stderr s) A) = pod_answers opts A" "pod_answers opts (insert (Stdout s) A) = pod_answers opts A"
  "answers opts c (insert (SshIn o2 c2 i r) A) = answers opts c A"
  "answers opts c (insert (SshRun opts c r) A) = insert r (answers opts c A)"
  "c \<noteq> c2 \<Longrightarrow> answers opts c (insert (SshRun opts c2 r) A) = answers opts c A"
  "answers opts c (insert (Stderr s) A) = answers opts c A" "answers opts c (insert (Stdout s) A) = answers opts c A"
  by (auto simp: pod_answers_def answers_def)

lemma folded_shown:
  "psa_shown {r} \<longleftrightarrow> (\<exists>out. folded r = Some out \<and> \<not> ce_success out \<and> contains ''violates PodSecurity'' (combined out))"
  "text_shown p {r} \<longleftrightarrow> (\<exists>out. folded r = Some out \<and> ce_success out \<and> p (ce_stdout out))"
  "\<not> psa_shown {}" "\<not> text_shown p {}"
  by (cases r rule: folded.cases; auto simp: psa_shown_def text_shown_def combined_def)+

lemma triple_ex_and: "(\<And>x. R x \<Longrightarrow> triple (P x) m Q E) \<Longrightarrow> triple (\<lambda>w. \<exists>x. P x w \<and> R x) m Q E"
  by (rule tripleI) (auto dest: tripleD)

definition heard ::
  "ssh_options \<Rightarrow> (ssh_error, run_output) result set \<Rightarrow> (ssh_error, run_output) result set \<Rightarrow> (ssh_error, run_output) result set
     \<Rightarrow> (ssh_error, run_output) result set \<Rightarrow> event set \<Rightarrow> bool" where
  "heard opts R0 R1 R2 R3 A \<longleftrightarrow>
     pod_answers opts A = R0 \<and> answers opts AUDIT_CMD A = R1 \<and> answers opts PROTECT_CMD A = R2 \<and> answers opts ROTATE_CMD A = R3"

abbreviation hreached where
  "hreached t0 opts R0 R1 R2 R3 \<equiv> reached anything t0 (heard opts R0 R1 R2 R3)"

lemma hardening_say:
  "triple (hreached t0 opts R0 R1 R2 R3) (verify_log p s) (\<lambda>_. hreached t0 opts R0 R1 R2 R3) E"
  unfolding verify_log_def by (rule say_step) (simp_all add: heard_def)

lemma hardening_say_then:
  "triple (hreached t0 opts R0 R1 R2 R3) m Q E \<Longrightarrow> triple (hreached t0 opts R0 R1 R2 R3) (bindA (verify_log p s) (\<lambda>_. m)) Q E"
  by (rule triple_bind [OF hardening_say])

lemma psa_check_step:
  "triple (hreached t0 (ct_ssh_opts (vp_target plan)) {} {} {} {}) (check_podsecurity_rejects_privileged env plan)
     (\<lambda>b w. \<exists>r. hreached t0 (ct_ssh_opts (vp_target plan)) {r} {} {} {} w \<and> (b \<longleftrightarrow> psa_shown {r}))
     (\<lambda>_ w. \<exists>r. hreached t0 (ct_ssh_opts (vp_target plan)) {r} {} {} {} w \<and> \<not> psa_shown {r})"
proof -
  let ?opts = "ct_ssh_opts (vp_target plan)"
  let ?Q = "\<lambda>b w. \<exists>r. hreached t0 ?opts {r} {} {} {} w \<and> (b \<longleftrightarrow> psa_shown {r})"
  have ok: "is_ok (reject_shell_metachars ''cp_kubectl_with_stdin_lenient'' ''apply -f -'')" "is_ok (reject_shell_metachars ''cp_kubectl_raw'' DELETE_PROBE)"
    by code_simp+
  have apply_pod: "triple (hreached t0 ?opts {} {} {} {}) (cp_kubectl_with_stdin_lenient env (vp_target plan) ''apply -f -'' PRIVILEGED_POD)
      (\<lambda>out w. \<exists>r. hreached t0 ?opts {r} {} {} {} w \<and> folded r = Some out) (\<lambda>_ w. \<exists>r. hreached t0 ?opts {r} {} {} {} w \<and> folded r = None)"
    by (rule kubectl_in_step [OF _ _ ok(1)]) (simp_all add: heard_def POD_CALL_def [symmetric])
  have delete: "triple (hreached t0 ?opts {r} {} {} {}) (cp_kubectl_raw env (vp_target plan) DELETE_PROBE)
      (\<lambda>_. hreached t0 ?opts {r} {} {} {}) (\<lambda>_. hreached t0 ?opts {r} {} {} {})" for r
    by (rule kubectl_raw_step [OF _ _ _ ok(2)]) (simp_all add: heard_def hardening_cmds_distinct [symmetric])
  have fin: "triple (hreached t0 ?opts {r} {} {} {}) (retA b) ?Q E" if "b \<longleftrightarrow> psa_shown {r}" for r b E
    by (rule triple_ret) (use that in blast)
  have rest: "triple (hreached t0 ?opts {r} {} {} {}) (matchA (cp_kubectl_raw env (vp_target plan) DELETE_PROBE) (\<lambda>_.
      if \<not> ce_success out \<and> contains ''violates PodSecurity'' (combined out) then bindA (verify_log p s1) (\<lambda>_. retA True)
      else if ce_success out then bindA (verify_log p s2) (\<lambda>_. bindA (verify_log p s3) (\<lambda>_. retA False))
      else bindA (verify_log p s4) (\<lambda>_. bindA (verify_log p s5) (\<lambda>_. retA False)))) ?Q E" if "folded r = Some out" for r out p s1 s2 s3 s4 s5 E
    by (rule triple_match_cases [OF delete]; intro triple_if hardening_say_then fin) (use that in \<open>auto simp: folded_shown\<close>)
  show ?thesis
    unfolding check_podsecurity_rejects_privileged_def
    by (rule hardening_say_then, rule triple_bind [OF triple_conseq [OF apply_pod]], assumption, assumption)
      (force simp: folded_shown, rule triple_ex_and, rule rest)
qed

text \<open>The three checks that read the output of one command.\<close>

lemma read_check_step:
  assumes "\<And>A r. heard opts R0 R1 R2 R3 A \<Longrightarrow> S r (insert (SshRun opts c r) A)"
    and "\<And>r A. S r A \<longleftrightarrow> heard opts (T0 r) (T1 r) (T2 r) (T3 r) A" and "opts = ct_ssh_opts (vp_target plan)"
    and "\<And>out. good out = (ce_success out \<and> p (ce_stdout out))"
    and said: "\<And>r out E. triple (reached anything t0 (S r)) (f out) (\<lambda>_. reached anything t0 (S r)) (E :: anyhow \<Rightarrow> _)"
  shows "triple (hreached t0 opts R0 R1 R2 R3)
      (bindA (verify_log q s) (\<lambda>_. bindA (cp_ssh_lenient env (vp_target plan) c) (\<lambda>out.
         if good out then bindA (verify_log q (s1 out)) (\<lambda>_. retA True) else bindA (f out) (\<lambda>_. retA False))))
      (\<lambda>b w. \<exists>r. reached anything t0 (S r) w \<and> (b \<longleftrightarrow> text_shown p {r}))
      (\<lambda>_ w. \<exists>r. reached anything t0 (S r) w \<and> \<not> text_shown p {r})"
proof -
  let ?Q = "\<lambda>b w. \<exists>r. reached anything t0 (S r) w \<and> (b \<longleftrightarrow> text_shown p {r})"
  have S: "S r = heard opts (T0 r) (T1 r) (T2 r) (T3 r)" for r by (rule ext) (rule assms(2))
  have ask: "triple (hreached t0 opts R0 R1 R2 R3) (cp_ssh_lenient env (vp_target plan) c)
      (\<lambda>out w. \<exists>r. reached anything t0 (S r) w \<and> folded r = Some out) (\<lambda>_ w. \<exists>r. reached anything t0 (S r) w \<and> folded r = None)"
    by (rule lenient_step) (use assms(1,3) in auto)
  have fin: "triple (reached anything t0 (S r)) (retA b) ?Q E" if "b \<longleftrightarrow> text_shown p {r}" for r b E
    by (rule triple_ret) (use that in blast)
  have rest: "triple (reached anything t0 (S r)) (if good out then bindA (verify_log q (s1 out)) (\<lambda>_. retA True) else bindA (f out) (\<lambda>_. retA False)) ?Q E"
    if out: "folded r = Some out" for r out E
  proof (intro triple_if)
    show "triple (reached anything t0 (S r)) (bindA (verify_log q (s1 out)) (\<lambda>_. retA True)) ?Q E" if "good out"
      unfolding S by (rule hardening_say_then, unfold S [symmetric], rule fin) (use that out assms(4) in \<open>simp add: folded_shown\<close>)
    show "triple (reached anything t0 (S r)) (bindA (f out) (\<lambda>_. retA False)) ?Q E" if "\<not> good out"
      by (rule triple_bind, rule said, rule fin)
        (use that out assms(4) in \<open>simp add: folded_shown\<close>)
  qed
  show ?thesis
    by (rule hardening_say_then, rule triple_bind [OF triple_conseq [OF ask]], assumption, assumption)
      (force simp: folded_shown, rule triple_ex_and, rule rest)
qed

lemma audit_check_step:
  "triple (hreached t0 (ct_ssh_opts (vp_target plan)) {r0} {} {} {}) (check_apiserver_audit_log_nonempty env plan)
     (\<lambda>b w. \<exists>r. hreached t0 (ct_ssh_opts (vp_target plan)) {r0} {r} {} {} w \<and> (b \<longleftrightarrow> text_shown (\<lambda>s. lines s \<noteq> []) {r}))
     (\<lambda>_ w. \<exists>r. hreached t0 (ct_ssh_opts (vp_target plan)) {r0} {r} {} {} w \<and> \<not> text_shown (\<lambda>s. lines s \<noteq> []) {r})"
  unfolding check_apiserver_audit_log_nonempty_def Let_def bindA_assoc [of "verify_log HARDENING ''  FAIL: audit log missing or empty''", symmetric]
  by (rule read_check_step [where S = "\<lambda>r. heard (ct_ssh_opts (vp_target plan)) {r0} {r} {} {}"])
    (auto simp: heard_def hardening_cmds_distinct hardening_cmds_distinct [symmetric] intro!: hardening_say_then hardening_say)

lemma flag_check_steps:
  "triple (hreached t0 (ct_ssh_opts (vp_target plan)) {r0} {r1} {} {}) (check_kubelet_protect_kernel_defaults env plan)
     (\<lambda>b w. \<exists>r. hreached t0 (ct_ssh_opts (vp_target plan)) {r0} {r1} {r} {} w \<and> (b \<longleftrightarrow> text_shown (\<lambda>s. trim s \<noteq> []) {r}))
     (\<lambda>_ w. \<exists>r. hreached t0 (ct_ssh_opts (vp_target plan)) {r0} {r1} {r} {} w \<and> \<not> text_shown (\<lambda>s. trim s \<noteq> []) {r})"
  "triple (hreached t0 (ct_ssh_opts (vp_target plan)) {r0} {r1} {r2} {}) (check_kubelet_rotate_certificates env plan)
     (\<lambda>b w. \<exists>r. hreached t0 (ct_ssh_opts (vp_target plan)) {r0} {r1} {r2} {r} w \<and> (b \<longleftrightarrow> text_shown (\<lambda>s. trim s \<noteq> []) {r}))
     (\<lambda>_ w. \<exists>r. hreached t0 (ct_ssh_opts (vp_target plan)) {r0} {r1} {r2} {r} w \<and> \<not> text_shown (\<lambda>s. trim s \<noteq> []) {r})"
  unfolding check_kubelet_protect_kernel_defaults_def check_kubelet_rotate_certificates_def check_kubelet_flag_def
    PROTECT_CMD_def [symmetric] ROTATE_CMD_def [symmetric]
  by (rule read_check_step [where S = "\<lambda>r. heard (ct_ssh_opts (vp_target plan)) {r0} {r1} {r} {}"]
        read_check_step [where S = "\<lambda>r. heard (ct_ssh_opts (vp_target plan)) {r0} {r1} {r2} {r}"];
      auto simp: heard_def hardening_cmds_distinct hardening_cmds_distinct [symmetric] intro!: hardening_say)+

lemma shown_heard:
  "heard opts {r0} {r1} {r2} {r3} A \<Longrightarrow> hardening_shown opts A \<longleftrightarrow> psa_shown {r0} \<and> text_shown (\<lambda>s. lines s \<noteq> []) {r1}
     \<and> text_shown (\<lambda>s. trim s \<noteq> []) {r2} \<and> text_shown (\<lambda>s. trim s \<noteq> []) {r3}"
  "heard opts R0 R1 R2 R3 A \<Longrightarrow> \<not> psa_shown R0 \<or> \<not> text_shown (\<lambda>s. lines s \<noteq> []) R1
     \<or> \<not> text_shown (\<lambda>s. trim s \<noteq> []) R2 \<or> \<not> text_shown (\<lambda>s. trim s \<noteq> []) R3 \<Longrightarrow> \<not> hardening_shown opts A"
  by (auto simp: heard_def hardening_shown_def)

lemma hardening_steps:
  fixes plan :: verify_plan
  defines "opts \<equiv> ct_ssh_opts (vp_target plan)"
  shows "triple (hreached t0 opts {} {} {} {}) (run_verify_hardening env plan)
    (\<lambda>_. reached anything t0 (hardening_shown opts)) (\<lambda>_. reached anything t0 (\<lambda>A. \<not> hardening_shown opts A))"
proof -
  let ?E = "\<lambda>_. reached anything t0 (\<lambda>A. \<not> hardening_shown opts A)" and ?Q = "\<lambda>_. reached anything t0 (hardening_shown opts)"
  have no: "reached anything t0 (\<lambda>A. \<not> hardening_shown opts A) w"
    if "hreached t0 opts R0 R1 R2 R3 w" "\<not> psa_shown R0 \<or> \<not> text_shown (\<lambda>s. lines s \<noteq> []) R1
      \<or> \<not> text_shown (\<lambda>s. trim s \<noteq> []) R2 \<or> \<not> text_shown (\<lambda>s. trim s \<noteq> []) R3" for R0 R1 R2 R3 and w :: "'x world"
    by (rule reached_mono [OF that(1)]) (use shown_heard(2) that(2) in blast)
  have print: "triple (hreached t0 opts R0 R1 R2 R3) (println s) (\<lambda>_. hreached t0 opts R0 R1 R2 R3) E" for R0 R1 R2 R3 s E
    by (rule print_step) (simp_all add: heard_def)
  have summary: "triple (hreached t0 opts R0 R1 R2 R3) (forA ls println) (\<lambda>_. hreached t0 opts R0 R1 R2 R3) E" for R0 R1 R2 R3 ls E
    by (rule triple_conseq [OF triple_for [where E = "\<lambda>_ _. False"]]) (rule print, auto)
  have final: "triple (hreached t0 opts {r0} {r1} {r2} {r3}) (bindA (forA ls println) (\<lambda>_.
      if b0 \<and> b1 \<and> b2 \<and> b3 then println s else bindA (println s') (\<lambda>_. failA e))) ?Q ?E"
    if "b0 \<longleftrightarrow> psa_shown {r0}" "b1 \<longleftrightarrow> text_shown (\<lambda>s. lines s \<noteq> []) {r1}" "b2 \<longleftrightarrow> text_shown (\<lambda>s. trim s \<noteq> []) {r2}"
      "b3 \<longleftrightarrow> text_shown (\<lambda>s. trim s \<noteq> []) {r3}" for r0 r1 r2 r3 b0 b1 b2 b3 ls s s' e
  proof (rule triple_bind [OF summary], rule triple_if)
    assume "b0 \<and> b1 \<and> b2 \<and> b3"
    then show "triple (hreached t0 opts {r0} {r1} {r2} {r3}) (println s) ?Q ?E"
      by (intro triple_conseq [OF print]) (use that shown_heard(1) in \<open>auto elim!: reached_mono\<close>)
  next
    assume "\<not> (b0 \<and> b1 \<and> b2 \<and> b3)"
    then show "triple (hreached t0 opts {r0} {r1} {r2} {r3}) (bindA (println s') (\<lambda>_. failA e)) ?Q ?E"
      by (intro triple_bind [OF print] triple_fail) (use that no in blast)
  qed
  have psa: "triple (hreached t0 opts {} {} {} {}) (check_podsecurity_rejects_privileged env plan)
      (\<lambda>b w. \<exists>r. hreached t0 opts {r} {} {} {} w \<and> (b \<longleftrightarrow> psa_shown {r})) ?E"
    unfolding opts_def by (rule triple_conseq [OF psa_check_step]) (auto intro: no [unfolded opts_def])
  have audit: "triple (hreached t0 opts {r0} {} {} {}) (check_apiserver_audit_log_nonempty env plan)
      (\<lambda>b w. \<exists>r. hreached t0 opts {r0} {r} {} {} w \<and> (b \<longleftrightarrow> text_shown (\<lambda>s. lines s \<noteq> []) {r})) ?E" for r0
    unfolding opts_def by (rule triple_conseq [OF audit_check_step]) (auto intro: no [unfolded opts_def])
  have flag1: "triple (hreached t0 opts {r0} {r1} {} {}) (check_kubelet_protect_kernel_defaults env plan)
      (\<lambda>b w. \<exists>r. hreached t0 opts {r0} {r1} {r} {} w \<and> (b \<longleftrightarrow> text_shown (\<lambda>s. trim s \<noteq> []) {r})) ?E" for r0 r1
    unfolding opts_def by (rule triple_conseq [OF flag_check_steps(1)]) (auto intro: no [unfolded opts_def])
  have flag2: "triple (hreached t0 opts {r0} {r1} {r2} {}) (check_kubelet_rotate_certificates env plan)
      (\<lambda>b w. \<exists>r. hreached t0 opts {r0} {r1} {r2} {r} w \<and> (b \<longleftrightarrow> text_shown (\<lambda>s. trim s \<noteq> []) {r})) ?E" for r0 r1 r2
    unfolding opts_def by (rule triple_conseq [OF flag_check_steps(2)]) (auto intro: no [unfolded opts_def])
  show ?thesis
    unfolding run_verify_hardening_def
    by (rule hardening_say_then, rule triple_bind [OF psa], rule triple_ex_and, rule triple_bind [OF audit], rule triple_ex_and,
        rule triple_bind [OF flag1], rule triple_ex_and, rule triple_bind [OF flag2], rule triple_ex_and, rule final)
qed


section \<open>The smoke test\<close>

definition welcome_shown :: "ssh_options \<Rightarrow> string \<Rightarrow> event set \<Rightarrow> bool" where
  "welcome_shown opts ns A \<longleftrightarrow>
     (\<exists>out. SshIn opts (kubectl_remote (probe_ns_cmd ns)) [] (Ok out) \<in> A
        \<and> contains ''Welcome to nginx'' (ro_stdout out @ [NL] @ ro_stderr out))"

text \<open>The calls of the smoke test for one namespace, each after the success of the one before it.\<close>

definition app_protocol :: "ssh_options \<Rightarrow> string \<Rightarrow> protocol" where
  "app_protocol opts ns A e \<longleftrightarrow>
     printed e
     \<or> (\<exists>r. e = SshRun opts (kubectl_remote (create_ns_cmd ns)) r)
     \<or> (\<exists>r o1. e = SshIn opts (kubectl_remote (apply_ns_cmd ns)) NGINX_MANIFEST r \<and> SshRun opts (kubectl_remote (create_ns_cmd ns)) (Ok o1) \<in> A)
     \<or> (\<exists>r o1. e = SshRun opts (kubectl_remote (wait_ns_cmd ns)) r \<and> SshIn opts (kubectl_remote (apply_ns_cmd ns)) NGINX_MANIFEST (Ok o1) \<in> A)
     \<or> (\<exists>r e1. e = SshRun opts (kubectl_remote (events_ns_cmd ns)) r \<and> SshRun opts (kubectl_remote (wait_ns_cmd ns)) (Err e1) \<in> A)
     \<or> (\<exists>r o1. e = SshIn opts (kubectl_remote (probe_ns_cmd ns)) [] r \<and> SshRun opts (kubectl_remote (wait_ns_cmd ns)) (Ok o1) \<in> A)"

definition probe_answers :: "ssh_options \<Rightarrow> string \<Rightarrow> event set \<Rightarrow> (ssh_error, run_output) result set" where
  "probe_answers opts ns A = {r. SshIn opts (kubectl_remote (probe_ns_cmd ns)) [] r \<in> A}"

lemma smoketest_safe:
  "is_ok (reject_shell_metachars who (create_ns_cmd (smoketest_ns n)))" "is_ok (reject_shell_metachars who (apply_ns_cmd (smoketest_ns n)))"
  "is_ok (reject_shell_metachars who (wait_ns_cmd (smoketest_ns n)))" "is_ok (reject_shell_metachars who (events_ns_cmd (smoketest_ns n)))"
  "is_ok (reject_shell_metachars who (delete_ns_cmd (smoketest_ns n)))" "is_ok (reject_shell_metachars who (probe_ns_cmd (smoketest_ns n)))"
proof -
  have dollar: "\<not> contains ''$('' s" if "CHR ''$'' \<notin> set s" for s
    using that by (induction s) (auto simp: contains_def starts_with_def)
  have ok: "is_ok (reject_shell_metachars who c)" if "list_all (\<lambda>x. \<not> is_metachar x \<and> x \<noteq> CHR ''$'') c" for c
    using that dollar [of c] reject_shell_metachars_Ok [of who c "()"] by (auto simp: list_all_iff is_ok_iff)
  have digits: "list_all (\<lambda>x. \<not> is_metachar x \<and> x \<noteq> CHR ''$'') (show_nat n)"
    using show_nat_digits [of n] by (auto simp: list_all_iff is_ascii_digit_def is_metachar_def)
  have over: "list_all (\<lambda>x. \<not> is_metachar x \<and> x \<noteq> CHR ''$'') (verify_single_quote OVERRIDES)" by code_simp
  show "is_ok (reject_shell_metachars who (create_ns_cmd (smoketest_ns n)))" "is_ok (reject_shell_metachars who (apply_ns_cmd (smoketest_ns n)))"
    "is_ok (reject_shell_metachars who (wait_ns_cmd (smoketest_ns n)))" "is_ok (reject_shell_metachars who (events_ns_cmd (smoketest_ns n)))"
    "is_ok (reject_shell_metachars who (delete_ns_cmd (smoketest_ns n)))" "is_ok (reject_shell_metachars who (probe_ns_cmd (smoketest_ns n)))"
    using digits over by (auto intro!: ok simp: create_ns_cmd_def apply_ns_cmd_def wait_ns_cmd_def events_ns_cmd_def delete_ns_cmd_def
        probe_ns_cmd_def smoketest_ns_def is_metachar_def simp del: show_nat.simps)
qed

abbreviation areached where
  "areached opts ns t0 D \<equiv> reached (app_protocol opts ns) t0 (\<lambda>A. probe_answers opts ns A = {} \<and> D A)"

lemma probe_answers_insert [simp]:
  "probe_answers opts ns (insert (SshRun o2 c r) A) = probe_answers opts ns A" "probe_answers opts ns (insert (Stderr s) A) = probe_answers opts ns A"
  "c \<noteq> kubectl_remote (probe_ns_cmd ns) \<Longrightarrow> probe_answers opts ns (insert (SshIn o2 c i r) A) = probe_answers opts ns A"
  "probe_answers opts ns (insert (SshIn opts (kubectl_remote (probe_ns_cmd ns)) [] r) A) = insert r (probe_answers opts ns A)"
  by (auto simp: probe_answers_def)

lemma apply_not_probe: "kubectl_remote (apply_ns_cmd ns) \<noteq> kubectl_remote (probe_ns_cmd ns')"
  by (simp add: kubectl_remote_def apply_ns_cmd_def probe_ns_cmd_def)

lemma welcome_probe:
  "probe_answers opts ns A = {r} \<Longrightarrow> welcome_shown opts ns A \<longleftrightarrow>
     (\<exists>out. folded r = Some out \<and> ce_success out \<and> contains ''Welcome to nginx'' (combined out))"
  by (cases r rule: folded.cases) (auto simp: welcome_shown_def probe_answers_def combined_def set_eq_iff)

lemma app_say:
  assumes "grows D"
  shows "triple (areached opts ns t0 D) (verify_log q s) (\<lambda>_. areached opts ns t0 D) E"
    "triple (areached opts ns t0 D) (eprintln s) (\<lambda>_. areached opts ns t0 D) E"
  unfolding verify_log_def by (rule say_step; auto simp: app_protocol_def intro: grows_insert [OF assms])+

lemma app_body_steps:
  fixes target :: cp_target and n :: nat
  defines "opts \<equiv> ct_ssh_opts target" and "ns \<equiv> smoketest_ns n"
  shows "triple (areached opts ns t0 (\<lambda>_. True)) (app_deploy_body env target ns)
    (\<lambda>_. reached (app_protocol opts ns) t0 (welcome_shown opts ns)) (\<lambda>_. reached (app_protocol opts ns) t0 (\<lambda>A. \<not> welcome_shown opts ns A))"
proof -
  let ?E = "\<lambda>_. reached (app_protocol opts ns) t0 (\<lambda>A. \<not> welcome_shown opts ns A)"
  let ?Q = "\<lambda>_. reached (app_protocol opts ns) t0 (welcome_shown opts ns)"
  let ?create = "\<lambda>A. \<exists>o1. SshRun opts (kubectl_remote (create_ns_cmd ns)) (Ok o1) \<in> A"
  let ?apply = "\<lambda>A. \<exists>o1. SshIn opts (kubectl_remote (apply_ns_cmd ns)) NGINX_MANIFEST (Ok o1) \<in> A"
  let ?up = "\<lambda>A. \<exists>o1. SshRun opts (kubectl_remote (wait_ns_cmd ns)) (Ok o1) \<in> A"
  let ?down = "\<lambda>A. \<exists>e1. SshRun opts (kubectl_remote (wait_ns_cmd ns)) (Err e1) \<in> A"
  have g: "grows ?create" "grows ?apply" "grows ?up" "grows ?down" "grows (\<lambda>_. True)" by (rule growsI; blast)+
  have no: "reached (app_protocol opts ns) t0 (\<lambda>A. \<not> welcome_shown opts ns A) w" if "areached opts ns t0 D w" for D and w :: "'x world"
    by (rule reached_mono [OF that]) (auto simp: welcome_shown_def probe_answers_def)
  have say: "triple (areached opts ns t0 D) (bindA (verify_log q s) (\<lambda>_. m)) Q E" if "grows D" "triple (areached opts ns t0 D) m Q E" for D q s m Q E
    by (rule triple_bind [OF app_say(1) [OF that(1)] that(2)])
  note safe = smoketest_safe [where n = n, folded ns_def]
  have create: "triple (areached opts ns t0 (\<lambda>_. True)) (cp_kubectl_raw env target (create_ns_cmd ns)) (\<lambda>_. areached opts ns t0 ?create) (\<lambda>_. areached opts ns t0 (\<lambda>_. True))"
    by (rule kubectl_raw_step [OF _ _ _ safe(1)]) (auto simp: app_protocol_def opts_def)
  have apply_step: "triple (areached opts ns t0 ?create) (cp_kubectl_with_stdin_lenient env target (apply_ns_cmd ns) NGINX_MANIFEST)
      (\<lambda>out w. \<exists>r. areached opts ns t0 (\<lambda>A. SshIn opts (kubectl_remote (apply_ns_cmd ns)) NGINX_MANIFEST r \<in> A) w \<and> folded r = Some out)
      (\<lambda>_ w. \<exists>r. areached opts ns t0 (\<lambda>A. SshIn opts (kubectl_remote (apply_ns_cmd ns)) NGINX_MANIFEST r \<in> A) w \<and> folded r = None)"
    unfolding opts_def by (rule kubectl_in_step [OF _ _ safe(2)]) (auto simp: app_protocol_def apply_not_probe)
  have wait: "triple (areached opts ns t0 ?apply) (cp_kubectl_raw env target (wait_ns_cmd ns)) (\<lambda>_. areached opts ns t0 ?up) (\<lambda>_. areached opts ns t0 ?down)"
    by (rule kubectl_raw_step [OF _ _ _ safe(3)]) (auto simp: app_protocol_def opts_def)
  have events: "triple (areached opts ns t0 ?down) (cp_kubectl_raw env target (events_ns_cmd ns)) (\<lambda>_. areached opts ns t0 ?down) (\<lambda>_. areached opts ns t0 ?down)"
    by (rule kubectl_raw_step [OF _ _ _ safe(4)]) (auto simp: app_protocol_def opts_def)
  have show_events: "triple (areached opts ns t0 ?down) (matchA (cp_kubectl_raw env target (events_ns_cmd ns)) (\<lambda>ev.
      case ev of Ok out \<Rightarrow> eprintln (ro_stdout out) | Err _ \<Rightarrow> retA ())) (\<lambda>_. areached opts ns t0 ?down) E" for E
    by (rule triple_match_cases [OF events]; unfold result.case) (rule app_say(2) [OF g(4)], rule triple_ret, assumption)
  have waited: "triple (areached opts ns t0 ?apply) (app_deploy_wait env target ns) (\<lambda>_. areached opts ns t0 ?up) ?E"
    unfolding app_deploy_wait_def
    by (rule say [OF g(2)], rule triple_match_cases [OF wait]; unfold result.case)
      (rule triple_ret, assumption, rule say [OF g(4)], rule say [OF g(4)], rule triple_bind [OF show_events], rule triple_fail, rule no)
  let ?heard = "\<lambda>r. reached (app_protocol opts ns) t0 (\<lambda>A. probe_answers opts ns A = {r})"
  have print: "triple (?heard r) (verify_log q s) (\<lambda>_. ?heard r) E" "triple (?heard r) (eprintln s) (\<lambda>_. ?heard r) E" for r q s E
    unfolding verify_log_def by (rule say_step; simp add: app_protocol_def)+
  have ask: "triple (areached opts ns t0 ?up) (cp_kubectl_with_stdin_lenient env target (probe_ns_cmd ns) [])
      (\<lambda>out w. \<exists>r. ?heard r w \<and> folded r = Some out) (\<lambda>_ w. \<exists>r. ?heard r w \<and> folded r = None)"
    unfolding opts_def by (rule kubectl_in_step [OF _ _ safe(6)]) (auto simp: app_protocol_def)
  have judged: "triple (?heard r) (if \<not> ce_success out then bindA (verify_log q s1) (\<lambda>_. bindA (eprintln s2) (\<lambda>_. failA e1))
      else if contains ''Welcome to nginx'' (combined out) then bindA (verify_log q s3) (\<lambda>_. verify_log q s4)
      else bindA (verify_log q s5) (\<lambda>_. bindA (verify_log q s6) (\<lambda>_. bindA (eprintln s2) (\<lambda>_. failA e2)))) ?Q ?E"
    if out: "folded r = Some out" for r out q s1 s2 s3 s4 s5 s6 e1 e2
  proof (intro triple_if)
    have bad: "triple (?heard r) (failA e) ?Q ?E" if "\<not> (ce_success out \<and> contains ''Welcome to nginx'' (combined out))" for e
      by (rule triple_fail, erule reached_mono) (use that out in \<open>simp add: welcome_probe\<close>)
    show "triple (?heard r) (bindA (verify_log q s1) (\<lambda>_. bindA (eprintln s2) (\<lambda>_. failA e1))) ?Q ?E" if "\<not> ce_success out"
      by (intro triple_bind [OF print(1)] triple_bind [OF print(2)] bad) (use that in simp)
    show "triple (?heard r) (bindA (verify_log q s3) (\<lambda>_. verify_log q s4)) ?Q ?E"
      if "\<not> \<not> ce_success out" "contains ''Welcome to nginx'' (combined out)"
      by (intro triple_bind [OF print(1)] triple_conseq [OF print(1)], assumption, erule reached_mono)
        (use that out in \<open>auto simp: welcome_probe\<close>)
    show "triple (?heard r) (bindA (verify_log q s5) (\<lambda>_. bindA (verify_log q s6) (\<lambda>_. bindA (eprintln s2) (\<lambda>_. failA e2)))) ?Q ?E"
      if "\<not> contains ''Welcome to nginx'' (combined out)"
      by (intro triple_bind [OF print(1)] triple_bind [OF print(2)] bad) (use that in simp)
  qed
  have silent: "?E e w" if "\<exists>r. ?heard r w \<and> folded r = None" for e and w :: "'x world"
    using that by (auto elim!: reached_mono simp: welcome_probe)
  have probe: "triple (areached opts ns t0 ?up) (app_deploy_probe env target ns) ?Q ?E"
    unfolding app_deploy_probe_def
    by (rule say [OF g(3)], rule triple_bind [OF triple_conseq [OF ask]], assumption, assumption, rule silent, assumption,
        rule triple_ex_and, rule judged)
  have applied: "triple (areached opts ns t0 (\<lambda>A. SshIn opts (kubectl_remote (apply_ns_cmd ns)) NGINX_MANIFEST r \<in> A))
      (if \<not> ce_success out then failA e else bindA (app_deploy_wait env target ns) (\<lambda>_. app_deploy_probe env target ns)) ?Q ?E"
    if "folded r = Some out" for r out e
  proof (intro triple_if)
    show "triple (areached opts ns t0 (\<lambda>A. SshIn opts (kubectl_remote (apply_ns_cmd ns)) NGINX_MANIFEST r \<in> A)) (failA e) ?Q ?E"
      by (rule triple_fail, rule no)
    assume "\<not> \<not> ce_success out"
    with that obtain o1 where r: "r = Ok o1" by (cases r rule: folded.cases) auto
    show "triple (areached opts ns t0 (\<lambda>A. SshIn opts (kubectl_remote (apply_ns_cmd ns)) NGINX_MANIFEST r \<in> A))
        (bindA (app_deploy_wait env target ns) (\<lambda>_. app_deploy_probe env target ns)) ?Q ?E"
      by (rule triple_conseq [OF triple_bind [OF waited probe]]) (auto simp: r elim!: reached_mono)
  qed
  have create_ctx: "triple (areached opts ns t0 (\<lambda>_. True)) (ctxA c (cp_kubectl_raw env target (create_ns_cmd ns))) (\<lambda>_. areached opts ns t0 ?create) ?E" for c
    by (rule triple_ctx, rule triple_conseq [OF create], assumption, assumption, rule no)
  show ?thesis
    unfolding app_deploy_body_def
    by (rule say [OF g(5)], rule triple_bind [OF create_ctx], rule say [OF g(1)], rule triple_bind [OF triple_conseq [OF apply_step]],
        assumption, assumption, erule exE, erule conjE, erule no, rule triple_ex_and, rule applied)
qed

lemma drop_namespace_run:
  "\<exists>r. w_trace (snd (drop_namespace env target (smoketest_ns n) w)) = w_trace w @
     [Stderr (''[verify-app-deploy] cleanup: deleting namespace '' @ smoketest_ns n),
      SshRun (ct_ssh_opts target) (kubectl_remote (delete_ns_cmd (smoketest_ns n))) r]"
proof -
  have "reject_shell_metachars ''cp_kubectl_raw'' (delete_ns_cmd (smoketest_ns n)) = Ok ()"
    using smoketest_safe(5) [of "''cp_kubectl_raw''" n] by (simp add: is_ok_iff)
  then show ?thesis
    by (auto simp: drop_namespace_def cp_kubectl_raw_def cp_kubectl_raw_with_exec_def ssh_ctx_def ssh_run_def ssh_run_in_def
        matchA_def bindA_def emit_def split: prod.splits)
qed

text \<open>C26. The smoke test cleans up. Whatever the cluster answers, the last command of \<open>verify app-deploy\<close> deletes the namespace
  that the run named after its start time; before it come only the calls for that namespace, each after the success of
  the one before; and the verdict is a pass exactly when the probe pod exited zero and showed the welcome page.\<close>

theorem app_deploy_cleans_up:
  "\<exists>evs r. w_trace (snd (run_verify_app_deploy env con plan w)) = w_trace w @ evs @
       [Stderr (''[verify-app-deploy] cleanup: deleting namespace '' @ smoketest_ns (con_now con (w_ext w))),
        SshRun (ct_ssh_opts (vp_target plan)) (kubectl_remote (delete_ns_cmd (smoketest_ns (con_now con (w_ext w))))) r]
     \<and> ordered (app_protocol (ct_ssh_opts (vp_target plan)) (smoketest_ns (con_now con (w_ext w)))) evs
     \<and> (is_ok (fst (run_verify_app_deploy env con plan w)) \<longleftrightarrow>
          welcome_shown (ct_ssh_opts (vp_target plan)) (smoketest_ns (con_now con (w_ext w))) (set evs))"
proof -
  let ?opts = "ct_ssh_opts (vp_target plan)" and ?n = "con_now con (w_ext w)"
  obtain r w1 where body: "app_deploy_body env (vp_target plan) (smoketest_ns ?n) w = (r, w1)" by fastforce
  have "areached ?opts (smoketest_ns ?n) (w_trace w) (\<lambda>_. True) w" by (rule reached_start) (simp add: probe_answers_def)
  note post = tripleD [OF app_body_steps this]
  have "reached (app_protocol ?opts (smoketest_ns ?n)) (w_trace w) (\<lambda>A. is_ok r \<longleftrightarrow> welcome_shown ?opts (smoketest_ns ?n) A) w1"
    using post(1) [of env] post(2) [of env] body by (cases r) auto
  then obtain evs where evs: "w_trace w1 = w_trace w @ evs" "ordered (app_protocol ?opts (smoketest_ns ?n)) evs"
    "is_ok r \<longleftrightarrow> welcome_shown ?opts (smoketest_ns ?n) (set evs)" by (rule reachedE)
  have run: "run_verify_app_deploy env con plan w = (r, snd (drop_namespace env (vp_target plan) (smoketest_ns ?n) w1))"
    using body by (simp add: run_verify_app_deploy_def now_epoch_secs_def peek_def bindA_def matchA_def split: prod.split)
  from drop_namespace_run [of env "vp_target plan" ?n w1] evs show ?thesis unfolding run by auto
qed

section \<open>All verifiers\<close>

lemma grows_shown: "grows (hardening_shown opts)" "grows (welcome_shown opts ns)"
  by (rule growsI; unfold hardening_shown_def welcome_shown_def psa_shown_def text_shown_def pod_answers_def answers_def, blast)+

lemma bindA_OkE:
  assumes "bindA m f w = (Ok b, w')"
  obtains a w1 where "m w = (Ok a, w1)" "f a w1 = (Ok b, w')"
  using assms by (auto simp: bindA_def split: prod.splits result.splits)

lemma ctxA_OkD: "ctxA c m w = (Ok b, w') \<Longrightarrow> m w = (Ok b, w')"
  by (auto simp: ctxA_def with_context_def split: prod.splits)

lemma verify_says [adds_intro]: "adds (\<lambda>_. True) (verify_log p s)"
  unfolding verify_log_def by (intro adds_intro) simp

lemma from_args_adds: "adds (\<lambda>_. True) (verify_from_args env host args parsed)"
  unfolding verify_from_args_def from_args_with_def running_on_kvm_host_with_def current_short_hostname_def
    resolve_cp_ip_via_kvm_host_def Let_def
  by (intro adds_intro TrueI | simp split: option.split result.split ssh_error.split)+

text \<open>That a host is the KVM host was an answer of \<open>hostname\<close>.\<close>

definition named_here :: "string \<Rightarrow> event set \<Rightarrow> bool" where
  "named_here kvm A \<longleftrightarrow>
     (\<exists>argv r s. ProcRun argv r \<in> A \<and> argv \<in> {[''hostname'', ''-s''], [''hostname'']} \<and> hostname_answer r = Some s
        \<and> hostname_matches_kvm_host s kvm)"

lemma running_here:
  assumes "running_on_kvm_host host kvm w = (Ok here, w')"
  shows "\<exists>evs. w_trace w' = w_trace w @ evs \<and> (here \<longrightarrow> named_here kvm (set evs))"
proof -
  have "\<exists>evs. w_trace w1 = w_trace w @ evs \<and> (\<forall>s. found = Some s \<longrightarrow>
      (\<exists>argv r. ProcRun argv r \<in> set evs \<and> argv \<in> {[''hostname'', ''-s''], [''hostname'']} \<and> hostname_answer r = Some s))"
    if "current_short_hostname host w = (Ok found, w1)" for found w1
    using that
    by (auto simp: current_short_hostname_def proc_run_def matchA_def split: prod.splits option.splits) fastforce+
  with assms show ?thesis
    unfolding running_on_kvm_host_def running_on_kvm_host_with_def
    by (elim bindA_OkE) (fastforce simp: named_here_def split: option.splits)
qed

lemma encryption_shown:
  assumes "run_verify_encryption env host plan w = (Ok (), w')"
  shows "\<exists>evs out. w_trace w' = w_trace w @ evs
    \<and> SshRun (ct_ssh_opts (vp_target plan)) (encryption_cmd (host_var host ''EXPECTED_PREFIX'')) (Ok out) \<in> set evs"
proof -
  let ?opts = "ct_ssh_opts (vp_target plan)" and ?c = "encryption_cmd (host_var host ''EXPECTED_PREFIX'')"
  let ?ran = "\<lambda>A. \<exists>out. SshRun ?opts ?c (Ok out) \<in> A"
  have g: "grows ?ran" "grows (\<lambda>A. SshRun ?opts ?c r \<in> A)" for r by (rule growsI; blast)+
  have ask: "triple (reached anything t0 (\<lambda>_. True)) (cp_ssh_lenient env (vp_target plan) ?c)
      (\<lambda>out w. \<exists>r. reached anything t0 (\<lambda>A. SshRun ?opts ?c r \<in> A) w \<and> folded r = Some out) (\<lambda>_ _. True)" for t0
    by (rule triple_conseq [OF lenient_step [where D = "\<lambda>r A. SshRun ?opts ?c r \<in> A"]]) auto
  have lines: "triple (reached anything t0 C) (forA ls eprintln) (\<lambda>_. reached anything t0 C) (\<lambda>_ _. True)"
      "triple (reached anything t0 C) (forA ls println) (\<lambda>_. reached anything t0 C) (\<lambda>_ _. True)" if "grows C" for C ls t0
    by (rule triple_conseq [OF triple_for [where E = "\<lambda>_ _. True"]], rule say_step print_step; use grows_insert [OF that] in auto)+
  have "triple (reached anything (w_trace w) (\<lambda>_. True)) (run_verify_encryption env host plan) (\<lambda>_. reached anything (w_trace w) ?ran) (\<lambda>_ _. True)"
    unfolding run_verify_encryption_def Let_def verify_log_def
    by (rule triple_bind [OF say_step], simp, simp, rule triple_bind [OF triple_ctx [OF ask]], rule triple_ex_and,
        rule triple_bind [OF lines(1) [OF g(2)]], rule triple_bind [OF lines(2) [OF g(2)]], rule triple_if, rule triple_fail, simp,
        rule triple_ret, erule reached_mono, auto dest: folded_success)
  from tripleD(1) [OF this reached_start assms] show ?thesis by (auto elim!: reachedE)
qed

lemma app_deploy_shown:
  assumes "run_verify_app_deploy env con plan w = (Ok (), w')"
  shows "\<exists>evs n. w_trace w' = w_trace w @ evs \<and> welcome_shown (ct_ssh_opts (vp_target plan)) (smoketest_ns n) (set evs)"
proof -
  let ?opts = "ct_ssh_opts (vp_target plan)" and ?n = "con_now con (w_ext w)"
  obtain r w1 where body: "app_deploy_body env (vp_target plan) (smoketest_ns ?n) w = (r, w1)" by fastforce
  with assms have r: "r = Ok ()" and w': "w' = snd (drop_namespace env (vp_target plan) (smoketest_ns ?n) w1)"
    by (auto simp: run_verify_app_deploy_def now_epoch_secs_def peek_def bindA_def matchA_def split: prod.splits)
  have "areached ?opts (smoketest_ns ?n) (w_trace w) (\<lambda>_. True) w" by (rule reached_start) (simp add: probe_answers_def)
  from tripleD(1) [OF app_body_steps this] body r
  have "reached (app_protocol ?opts (smoketest_ns ?n)) (w_trace w) (welcome_shown ?opts (smoketest_ns ?n)) w1" by auto
  then obtain evs where "w_trace w1 = w_trace w @ evs" "welcome_shown ?opts (smoketest_ns ?n) (set evs)" by (rule reachedE)
  moreover obtain last where "w_trace w' = w_trace w1 @ last" using drop_namespace_run [of env "vp_target plan" ?n w1] w' by blast
  ultimately show ?thesis by (intro exI [of _ "evs @ last"] exI [of _ ?n]) (auto intro: growsD [OF grows_shown(2)])
qed

text \<open>A skipped smoke test was skipped on an answer of \<open>hostname\<close>.\<close>

lemma skip_shown:
  assumes "on_host_skip host c parsed w = (Ok skip, w')"
  shows "\<exists>evs. w_trace w' = w_trace w @ evs \<and> (\<forall>kvm. skip = Some kvm \<longrightarrow>
      resolved_kvm_host_for_onhost_skip c parsed = Some kvm \<and> named_here kvm (set evs))"
proof (cases "resolved_kvm_host_for_onhost_skip c parsed")
  case None
  with assms show ?thesis by (simp add: on_host_skip_def)
next
  case (Some k)
  with assms have "bindA (running_on_kvm_host host k) (\<lambda>here. retA (if here then Some k else None)) w = (Ok skip, w')"
    by (simp add: on_host_skip_def)
  then obtain here where "running_on_kvm_host host k w = (Ok here, w')" "skip = (if here then Some k else None)"
    by (rule bindA_OkE) simp
  with running_here [of host k w here w'] Some show ?thesis by (cases here) auto
qed

text \<open>C25. \<open>verify all\<close> passes only on evidence. When it succeeds, the encryption script of the image exited zero on the planned
  control plane, all four hardening facts were shown, and either the smoke test showed the welcome page or an answer of
  \<open>hostname\<close> said that this machine is the KVM host.\<close>

theorem verify_all_sound:
  assumes "verify_run env host con (VAll c) parsed w = (Ok (), w')"
  shows "\<exists>plan w1 evs. verify_from_args env host c parsed w = (Ok plan, w1) \<and> w_trace w' = w_trace w1 @ evs
    \<and> (\<exists>out. SshRun (ct_ssh_opts (vp_target plan)) (encryption_cmd (host_var host ''EXPECTED_PREFIX'')) (Ok out) \<in> set evs)
    \<and> hardening_shown (ct_ssh_opts (vp_target plan)) (set evs)
    \<and> ((\<exists>n. welcome_shown (ct_ssh_opts (vp_target plan)) (smoketest_ns n) (set evs))
       \<or> (\<exists>kvm. resolved_kvm_host_for_onhost_skip c parsed = Some kvm \<and> named_here kvm (set evs)))"
proof -
  from assms obtain plan w1 where plan: "verify_from_args env host c parsed w = (Ok plan, w1)"
    and rest: "bindA (ctxA ''verify-all step 1/3: encryption'' (run_verify_encryption env host plan)) (\<lambda>_.
      bindA (ctxA ''verify-all step 2/3: hardening'' (run_verify_hardening env plan)) (\<lambda>_.
      bindA (on_host_skip host c parsed) (\<lambda>skip.
      case skip of Some kvm \<Rightarrow> log_app_deploy_onhost_skip kvm
      | None \<Rightarrow> ctxA ''verify-all step 3/3: app-deploy'' (run_verify_app_deploy env con plan)))) w1 = (Ok (), w')"
    unfolding verify_run.simps by (rule bindA_OkE)
  let ?opts = "ct_ssh_opts (vp_target plan)"
  from rest obtain u2 w2 u3 w3 skip w4 where steps: "ctxA ''verify-all step 1/3: encryption'' (run_verify_encryption env host plan) w1 = (Ok u2, w2)"
    "ctxA ''verify-all step 2/3: hardening'' (run_verify_hardening env plan) w2 = (Ok u3, w3)" "on_host_skip host c parsed w3 = (Ok skip, w4)"
    "(case skip of Some kvm \<Rightarrow> log_app_deploy_onhost_skip kvm
      | None \<Rightarrow> ctxA ''verify-all step 3/3: app-deploy'' (run_verify_app_deploy env con plan)) w4 = (Ok (), w')"
    by (elim bindA_OkE) blast
  from encryption_shown [of env host plan w1 w2] steps(1) [THEN ctxA_OkD] obtain e1 out where
    e1: "w_trace w2 = w_trace w1 @ e1" "SshRun ?opts (encryption_cmd (host_var host ''EXPECTED_PREFIX'')) (Ok out) \<in> set e1" by auto
  have "hreached (w_trace w2) ?opts {} {} {} {} w2" by (rule reached_start) (simp add: heard_def pod_answers_def answers_def)
  from tripleD(1) [OF hardening_steps this] steps(2) [THEN ctxA_OkD] obtain e2 where
    e2: "w_trace w3 = w_trace w2 @ e2" "hardening_shown ?opts (set e2)" by (auto elim!: reachedE)
  have "\<exists>e3. w_trace w4 = w_trace w3 @ e3 \<and> (\<forall>kvm. skip = Some kvm \<longrightarrow>
      resolved_kvm_host_for_onhost_skip c parsed = Some kvm \<and> named_here kvm (set e3))" by (rule skip_shown [OF steps(3)])
  then obtain e3 where e3: "w_trace w4 = w_trace w3 @ e3"
    "\<And>kvm. skip = Some kvm \<Longrightarrow> resolved_kvm_host_for_onhost_skip c parsed = Some kvm \<and> named_here kvm (set e3)" by blast
  have "\<exists>e4. w_trace w' = w_trace w4 @ e4 \<and> (skip = None \<longrightarrow> (\<exists>n. welcome_shown ?opts (smoketest_ns n) (set e4)))"
  proof (cases skip)
    case None
    with steps(4) have "run_verify_app_deploy env con plan w4 = (Ok (), w')" by (auto dest: ctxA_OkD)
    from app_deploy_shown [OF this] show ?thesis by blast
  next
    case (Some kvm)
    with steps(4) show ?thesis by (auto simp: log_app_deploy_onhost_skip_def emit_def bindA_def)
  qed
  then obtain e4 where e4: "w_trace w' = w_trace w4 @ e4" "skip = None \<Longrightarrow> \<exists>n. welcome_shown ?opts (smoketest_ns n) (set e4)" by blast
  have here: "named_here kvm A \<Longrightarrow> A \<subseteq> B \<Longrightarrow> named_here kvm B" for kvm A B unfolding named_here_def by blast
  let ?evs = "e1 @ e2 @ e3 @ e4"
  have "hardening_shown ?opts (set ?evs)" by (rule growsD [OF grows_shown(1) e2(2)]) auto
  moreover have "(\<exists>n. welcome_shown ?opts (smoketest_ns n) (set ?evs)) \<or> (\<exists>kvm. resolved_kvm_host_for_onhost_skip c parsed = Some kvm \<and> named_here kvm (set ?evs))"
  proof (cases skip)
    case None
    with e4(2) obtain n where "welcome_shown ?opts (smoketest_ns n) (set e4)" by blast
    then have "welcome_shown ?opts (smoketest_ns n) (set ?evs)" by (rule growsD [OF grows_shown(2)]) auto
    then show ?thesis by blast
  next
    case (Some kvm)
    from e3(2) [OF this] have "named_here kvm (set ?evs)" by (auto intro: here [of kvm "set e3"])
    with e3(2) [OF Some] show ?thesis by blast
  qed
  moreover have "w_trace w' = w_trace w1 @ ?evs" using e1 e2 e3 e4 by simp
  moreover have "SshRun ?opts (encryption_cmd (host_var host ''EXPECTED_PREFIX'')) (Ok out) \<in> set ?evs" using e1(2) by simp
  ultimately show ?thesis using plan by blast
qed

section \<open>A run\<close>

definition verify_demo_env :: "unit env" where
  "verify_demo_env =
     \<lparr>env_ssh = (\<lambda>opts c inp x.
        ((if inp = Some PRIVILEGED_POD then Err (NonZeroExit (so_host opts) (Exited 1) [] ''pods x is forbidden: violates PodSecurity'')
          else Ok \<lparr>ro_status = Exited 0, ro_stdout = ''Welcome to nginx'', ro_stderr = []\<rparr>), x)),
      env_sh = (\<lambda>_ x. (Err NotFound, x)), env_sleep = (\<lambda>_ x. x)\<rparr>"

definition verify_demo_host :: "unit host" where
  "verify_demo_host = \<lparr>host_proc = (\<lambda>_ _ x. (Err NotFound, x)), host_exists = (\<lambda>_ _. False), host_read = (\<lambda>_ _. None),
     host_var = (\<lambda>_. None), host_pid = 7\<rparr>"

definition verify_demo_args :: verify_common_args where
  "verify_demo_args = \<lparr>vc_config = None, vc_cp_name = None, vc_kvm_host = None, vc_cp_ip = Some ''10.0.0.5'', vc_kubectl = None\<rparr>"

definition verify_demo_console :: "unit console" where
  "verify_demo_console =
     \<lparr>con_tty = False, con_read_line = (\<lambda>x. (Ok [], x)), con_now = (\<lambda>_. 0), con_open = (\<lambda>_ _. Ok ()),
      con_read_exact = (\<lambda>_ _ x. (Ok [], x)), con_is_file = (\<lambda>_ _. False), con_read = (\<lambda>_ _. Ok []),
      con_mkdir = (\<lambda>_ x. (Ok (), x)), con_write = (\<lambda>_ _ x. (Ok (), x))\<rparr>"

definition verify_demo_plan :: verify_plan where
  "verify_demo_plan = \<lparr>vp_target = \<lparr>ct_cp_ip = ''10.0.0.5'', ct_kvm_host = None\<rparr>, vp_cp_name = ''hummingbird-k8s''\<rparr>"

abbreviation demo_answer :: cp_exec_output where
  "demo_answer \<equiv> \<lparr>ce_success = True, ce_stdout = ''Welcome to nginx'', ce_stderr = []\<rparr>"

lemma verify_demo_calls:
  "fst (cp_ssh_lenient verify_demo_env target c s) = Ok demo_answer"
  "is_ok (reject_shell_metachars ''cp_kubectl_raw'' c) \<Longrightarrow>
     fst (cp_kubectl_raw verify_demo_env target c s) = Ok \<lparr>ro_status = Exited 0, ro_stdout = ''Welcome to nginx'', ro_stderr = []\<rparr>"
  "is_ok (reject_shell_metachars ''cp_kubectl_with_stdin_lenient'' c) \<Longrightarrow> inp \<noteq> PRIVILEGED_POD \<Longrightarrow>
     fst (cp_kubectl_with_stdin_lenient verify_demo_env target c inp s) = Ok demo_answer"
  "is_ok (reject_shell_metachars ''cp_kubectl_with_stdin_lenient'' c) \<Longrightarrow>
     fst (cp_kubectl_with_stdin_lenient verify_demo_env target c PRIVILEGED_POD s)
       = Ok \<lparr>ce_success = False, ce_stdout = [], ce_stderr = ''pods x is forbidden: violates PodSecurity''\<rparr>"
  by (auto simp: is_ok_iff cp_ssh_lenient_def cp_kubectl_raw_def cp_kubectl_raw_with_exec_def cp_kubectl_with_stdin_lenient_def
      fold_exit_def ssh_ctx_def matchA_def bindA_def ssh_run_def ssh_run_in_def verify_demo_env_def exit_success_def)

lemma verify_demo_says:
  "fst (verify_log p q s) = Ok ()" "fst (eprintln q s) = Ok ()" "fst (println q s) = Ok ()" "fst (forA ls println s) = Ok ()"
  "fst (forA ls eprintln s) = Ok ()"
proof -
  have all: "fst (forA ls f s) = Ok ()" if "\<And>l s. fst (f l s) = Ok ()" 
    for f :: "string \<Rightarrow> ('x world, 'y, unit) action" and ls s
    by (induction ls arbitrary: s) (auto intro: fst_bind that)
  show "fst (verify_log p q s) = Ok ()" "fst (eprintln q s) = Ok ()" "fst (println q s) = Ok ()"
    by (simp_all add: verify_log_def emit_def)
  show "fst (forA ls println s) = Ok ()" by (rule all) (simp add: emit_def)
  show "fst (forA ls eprintln s) = Ok ()" by (rule all) (simp add: emit_def)
qed

lemma verify_demo_texts:
  "contains ''Welcome to nginx'' (combined demo_answer)" "NGINX_MANIFEST \<noteq> PRIVILEGED_POD" "[] \<noteq> PRIVILEGED_POD"
  "contains ''violates PodSecurity'' (combined \<lparr>ce_success = False, ce_stdout = [], ce_stderr = ''pods x is forbidden: violates PodSecurity''\<rparr>)"
  "lines ''Welcome to nginx'' = [''Welcome to nginx'']" "trim ''Welcome to nginx'' = ''Welcome to nginx''"
  "is_ok (reject_shell_metachars ''cp_kubectl_with_stdin_lenient'' ''apply -f -'')"
  "is_ok (reject_shell_metachars ''cp_kubectl_raw'' DELETE_PROBE)"
  by code_simp+

lemma verify_demo_hardening:
  "fst (run_verify_encryption verify_demo_env verify_demo_host verify_demo_plan s) = Ok ()"
  "fst (run_verify_hardening verify_demo_env verify_demo_plan s) = Ok ()"
proof -
  show "fst (run_verify_encryption verify_demo_env verify_demo_host verify_demo_plan s) = Ok ()"
    unfolding run_verify_encryption_def Let_def
    by (rule fst_bind [OF verify_demo_says(1)], rule fst_bind [where v = demo_answer])
      (auto simp: ctxA_def with_context_def split_beta verify_demo_calls intro!: fst_bind verify_demo_says)
  have pod: "fst (check_podsecurity_rejects_privileged verify_demo_env verify_demo_plan s) = Ok True" for s
    unfolding check_podsecurity_rejects_privileged_def
    by (rule fst_bind [OF verify_demo_says(1)], rule fst_bind [OF verify_demo_calls(4)], rule verify_demo_texts,
        rule fst_match [OF verify_demo_calls(2)], rule verify_demo_texts)
      (use verify_demo_texts(4) in \<open>auto intro!: fst_bind verify_demo_says\<close>)
  have audit: "fst (check_apiserver_audit_log_nonempty verify_demo_env verify_demo_plan s) = Ok True" for s
    unfolding check_apiserver_audit_log_nonempty_def Let_def
    by (rule fst_bind [OF verify_demo_says(1)], rule fst_bind [OF verify_demo_calls(1)])
      (auto simp: verify_demo_texts intro!: fst_bind verify_demo_says)
  have flag: "fst (check_kubelet_flag verify_demo_env verify_demo_plan t f s) = Ok True" for t f s
    unfolding check_kubelet_flag_def
    by (rule fst_bind [OF verify_demo_says(1)], rule fst_bind [OF verify_demo_calls(1)])
      (auto simp: verify_demo_texts intro!: fst_bind verify_demo_says)
  show "fst (run_verify_hardening verify_demo_env verify_demo_plan s) = Ok ()"
    unfolding run_verify_hardening_def check_kubelet_protect_kernel_defaults_def check_kubelet_rotate_certificates_def
    by (rule fst_bind [OF verify_demo_says(1)], rule fst_bind [OF pod], rule fst_bind [OF audit], rule fst_bind [OF flag],
        rule fst_bind [OF flag], rule fst_bind [OF verify_demo_says(4)]) (simp add: verify_demo_says)
qed

lemma verify_demo_app_deploy:
  "fst (run_verify_app_deploy verify_demo_env verify_demo_console verify_demo_plan s) = Ok ()"
proof -
  have wait: "fst (app_deploy_wait verify_demo_env target (smoketest_ns 0) s) = Ok ()" for target s
    unfolding app_deploy_wait_def
    by (rule fst_bind [OF verify_demo_says(1)], rule fst_match [OF verify_demo_calls(2)], rule smoketest_safe) simp
  have probe: "fst (app_deploy_probe verify_demo_env target (smoketest_ns 0) s) = Ok ()" for target s
    unfolding app_deploy_probe_def
    by (rule fst_bind [OF verify_demo_says(1)], rule fst_bind [OF verify_demo_calls(3)], rule smoketest_safe, rule verify_demo_texts)
      (use verify_demo_texts(1) in \<open>auto intro!: fst_bind verify_demo_says\<close>)
  have create: "fst (ctxA ctx (cp_kubectl_raw verify_demo_env target (create_ns_cmd (smoketest_ns 0))) s)
      = Ok \<lparr>ro_status = Exited 0, ro_stdout = ''Welcome to nginx'', ro_stderr = []\<rparr>" for ctx target s
    by (simp add: ctxA_def with_context_def split_beta verify_demo_calls smoketest_safe)
  have body: "fst (app_deploy_body verify_demo_env target (smoketest_ns 0) s) = Ok ()" for target s
    unfolding app_deploy_body_def
    by (rule fst_bind [OF verify_demo_says(1)], rule fst_bind [OF create], rule fst_bind [OF verify_demo_says(1)],
        rule fst_bind [OF verify_demo_calls(3)], rule smoketest_safe, rule verify_demo_texts)
      (auto intro!: fst_bind wait probe)
  have gone: "fst (drop_namespace verify_demo_env target (smoketest_ns 0) s) = Ok ()" for target s
    unfolding drop_namespace_def
    by (rule fst_bind [OF verify_demo_says(2)], rule fst_match [OF verify_demo_calls(2)], rule smoketest_safe) simp
  have now: "fst (now_epoch_secs verify_demo_console s) = Ok 0" for s by (simp add: now_epoch_secs_def peek_def verify_demo_console_def)
  show ?thesis unfolding run_verify_app_deploy_def
    by (rule fst_bind [OF now], rule fst_match [OF body], rule fst_match [OF gone]) simp
qed

lemma verify_demo_ok:
  "fst (verify_run verify_demo_env verify_demo_host verify_demo_console (VAll verify_demo_args) None s) = Ok ()"
proof -
  have plan: "fst (verify_from_args verify_demo_env verify_demo_host verify_demo_args None s) = Ok verify_demo_plan" for s
    by (simp add: verify_from_args_def from_args_with_def verify_demo_args_def verify_kvm_host_def filled_def verify_demo_plan_def or_opt_def unwrap_or_def)
  have ctx: "fst (ctxA c m s) = Ok ()" if "\<And>s. fst (m s) = Ok ()" for c m s
    using that [of s] by (simp add: ctxA_def with_context_def split_beta)
  have skip: "fst (on_host_skip verify_demo_host verify_demo_args None s) = Ok None" for s
    by (simp add: on_host_skip_def resolved_kvm_host_for_onhost_skip_def verify_demo_args_def filled_def)
  show ?thesis unfolding verify_run.simps
    by (rule fst_bind [OF plan], rule fst_bind [OF ctx [OF verify_demo_hardening(1)]], rule fst_bind [OF ctx [OF verify_demo_hardening(2)]],
        rule fst_bind [OF skip]) (simp add: ctx [OF verify_demo_app_deploy])
qed

theorem verify_all_sound_witness:
  "\<exists>plan w1 w' evs. verify_run verify_demo_env verify_demo_host verify_demo_console (VAll verify_demo_args) None \<lparr>w_ext = (), w_trace = []\<rparr> = (Ok (), w')
    \<and> verify_from_args verify_demo_env verify_demo_host verify_demo_args None \<lparr>w_ext = (), w_trace = []\<rparr> = (Ok plan, w1)
    \<and> w_trace w' = w_trace w1 @ evs \<and> hardening_shown (ct_ssh_opts (vp_target plan)) (set evs)
    \<and> (\<exists>n. welcome_shown (ct_ssh_opts (vp_target plan)) (smoketest_ns n) (set evs))"
proof -
  let ?w = "\<lparr>w_ext = (), w_trace = []\<rparr>"
  obtain w' where run: "verify_run verify_demo_env verify_demo_host verify_demo_console (VAll verify_demo_args) None ?w = (Ok (), w')"
    using verify_demo_ok [of ?w] by (metis prod.collapse)
  have "resolved_kvm_host_for_onhost_skip verify_demo_args None = None"
    by (simp add: resolved_kvm_host_for_onhost_skip_def verify_demo_args_def filled_def)
  with verify_all_sound [OF run] run show ?thesis by auto
qed

end
