(* ===== verification/Event_Scripts.thy ===== *)
theory Event_Scripts
  imports Action
begin

text \<open>
  Exact scripts. \<open>yields m P\<close>: whatever the hosts answer, \<open>P\<close> relates the result of \<open>m\<close> to the list of the events it
  adds. The rules follow the combinators, so that the script of a command is put together from those of its steps.
\<close>

section \<open>Actions and the events they add\<close>

definition yields :: "('w world, 'e, 'a) action \<Rightarrow> (('e, 'a) result \<Rightarrow> event list \<Rightarrow> bool) \<Rightarrow> bool" where
  "yields m P \<longleftrightarrow> (\<forall>w. \<exists>evs. w_trace (snd (m w)) = w_trace w @ evs \<and> P (fst (m w)) evs)"

lemma yieldsD: "yields m P \<Longrightarrow> \<exists>evs. w_trace (snd (m w)) = w_trace w @ evs \<and> P (fst (m w)) evs"
  by (simp add: yields_def)

lemma yields_weaken: "yields m P \<Longrightarrow> (\<And>r evs. P r evs \<Longrightarrow> Q r evs) \<Longrightarrow> yields m Q"
  unfolding yields_def by meson

lemma yields_ret: "P (Ok a) [] \<Longrightarrow> yields (retA a) P"
  by (simp add: yields_def retA_def)

lemma yields_fail: "P (Err e) [] \<Longrightarrow> yields (failA e) P"
  by (simp add: yields_def failA_def)

lemma yields_lift: "P r [] \<Longrightarrow> yields (liftA r) P"
  by (simp add: yields_def liftA_def)

lemma yields_emit: "P (Ok ()) [ev] \<Longrightarrow> yields (emit ev) P"
  by (simp add: yields_def emit_def)

lemma yields_match:
  assumes "yields m P" "\<And>r e1. P r e1 \<Longrightarrow> yields (f r) (\<lambda>x e2. Q x (e1 @ e2))"
  shows "yields (matchA m f) Q"
  unfolding yields_def
proof
  fix w
  from yieldsD [OF assms(1), of w] obtain e1 where e1: "w_trace (snd (m w)) = w_trace w @ e1" "P (fst (m w)) e1" by blast
  from yieldsD [OF assms(2) [OF e1(2)], of "snd (m w)"] obtain e2 where
    "w_trace (snd (f (fst (m w)) (snd (m w)))) = w_trace (snd (m w)) @ e2" "Q (fst (f (fst (m w)) (snd (m w)))) (e1 @ e2)" by blast
  with e1 show "\<exists>evs. w_trace (snd (matchA m f w)) = w_trace w @ evs \<and> Q (fst (matchA m f w)) evs"
    by (intro exI [of _ "e1 @ e2"]) (simp add: matchA_def split_beta)
qed

lemma yields_bind:
  assumes "yields m P" "\<And>a e1. P (Ok a) e1 \<Longrightarrow> yields (f a) (\<lambda>x e2. Q x (e1 @ e2))"
    "\<And>e e1. P (Err e) e1 \<Longrightarrow> Q (Err e) e1"
  shows "yields (bindA m f) Q"
proof -
  have "bindA m f = matchA m (\<lambda>r. case r of Ok a \<Rightarrow> f a | Err e \<Rightarrow> failA e)"
    by (rule ext) (simp add: bindA_def matchA_def failA_def split_beta split: result.splits)
  moreover have "yields (case r of Ok a \<Rightarrow> f a | Err e \<Rightarrow> failA e) (\<lambda>x e2. Q x (e1 @ e2))" if "P r e1" for r e1
    using that assms(2,3) by (cases r) (auto intro: yields_fail)
  ultimately show ?thesis by (metis yields_match [OF assms(1)])
qed

lemma yields_then:
  assumes "yields m (\<lambda>r evs. \<exists>a. r = Ok a \<and> P evs)" "\<And>e1 a. P e1 \<Longrightarrow> yields (f a) (\<lambda>x e2. Q x (e1 @ e2))"
  shows "yields (bindA m f) Q"
  by (rule yields_bind [OF assms(1)]) (use assms(2) in auto)

lemma yields_say: "yields (f ()) (\<lambda>x evs. Q x (ev # evs)) \<Longrightarrow> yields (bindA (emit ev) f) Q"
  by (rule yields_bind [OF yields_emit [where P = "\<lambda>r evs. r = Ok () \<and> evs = [ev]"]]) auto

lemma yields_says:
  "yields (f ()) (\<lambda>x evs. Q x (map ev xs @ evs)) \<Longrightarrow> yields (bindA (forA xs (\<lambda>x. emit (ev x))) f) Q"
proof (induction xs arbitrary: Q)
  case Nil
  then show ?case by (simp add: bindA_def)
next
  case (Cons x xs)
  then show ?case by (simp add: bindA_assoc) (rule yields_say, simp)
qed

end
