(* ===== verification/Preflight.thy ===== *)
theory Preflight
  imports Action Deploy_Plan
begin

text \<open>
  \<open>hbird preflight cilium\<close> (\<open>commands/preflight.rs\<close>): do the committed pins of Cilium and Kubernetes go together. The
  embedded matrix, the comparison of versions, the two extractions of a pin, the resolution of the pins with its
  errors, the verdict, its text and its exit code, and the command. A return of the command is its exit code;
  \<open>process::exit\<close> with a code is that code.
\<close>

section \<open>The embedded matrix\<close>

definition EXIT_STRICT_MISMATCH :: nat where "EXIT_STRICT_MISMATCH = 1"
definition EXIT_INPUT_ERROR :: nat where "EXIT_INPUT_ERROR = 2"

record cilium_args =
  ci_cilium :: "string option"
  ci_k8s :: "string option"
  ci_strict :: bool
  ci_repo_root :: "string option"
  ci_dry_run :: bool

definition MATRIX_REVIEWED_AS_OF :: string where "MATRIX_REVIEWED_AS_OF = ''2026-05-27''"

record matrix_row =
  mr_cilium_minor :: string
  mr_k8s_minors :: "string list"
  mr_source_url :: string

definition COMPAT_MATRIX :: "matrix_row list" where
  "COMPAT_MATRIX =
     [\<lparr>mr_cilium_minor = ''1.14'',
        mr_k8s_minors = [''1.19'', ''1.20'', ''1.21'', ''1.22'', ''1.23'', ''1.24'', ''1.25'', ''1.26'', ''1.27''],
        mr_source_url = ''https://docs.cilium.io/en/v1.14/network/kubernetes/compatibility/''\<rparr>,
      \<lparr>mr_cilium_minor = ''1.15'',
        mr_k8s_minors = [''1.26'', ''1.27'', ''1.28'', ''1.29''],
        mr_source_url = ''https://docs.cilium.io/en/v1.15/network/kubernetes/compatibility/''\<rparr>,
      \<lparr>mr_cilium_minor = ''1.16'',
        mr_k8s_minors = [''1.27'', ''1.28'', ''1.29'', ''1.30''],
        mr_source_url = ''https://docs.cilium.io/en/v1.16/network/kubernetes/compatibility/''\<rparr>,
      \<lparr>mr_cilium_minor = ''1.17'',
        mr_k8s_minors = [''1.29'', ''1.30'', ''1.31'', ''1.32''],
        mr_source_url = ''https://docs.cilium.io/en/v1.17/network/kubernetes/compatibility/''\<rparr>,
      \<lparr>mr_cilium_minor = ''1.18'',
        mr_k8s_minors = [''1.30'', ''1.31'', ''1.32'', ''1.33''],
        mr_source_url = ''https://docs.cilium.io/en/v1.18/network/kubernetes/compatibility/''\<rparr>]"

definition lookup_row :: "string \<Rightarrow> matrix_row option" where
  "lookup_row minor = find (\<lambda>row. mr_cilium_minor row = minor) COMPAT_MATRIX"

section \<open>Versions\<close>

definition U64_MAX :: nat where "U64_MAX = 18446744073709551615"

definition drop_v :: "string \<Rightarrow> string" where
  "drop_v s = unwrap_or (strip_prefix ''v'' s) s"

definition parse_minor_pair :: "string \<Rightarrow> (nat \<times> nat) option" where
  "parse_minor_pair s =
     (case split_on (CHR ''.'') (drop_v s) of
        major # minor # _ \<Rightarrow>
          Option.bind (parse_uint U64_MAX major) (\<lambda>a. map_option (\<lambda>b. (a, b)) (parse_uint U64_MAX minor))
      | _ \<Rightarrow> None)"

text \<open>The comparison of \<open>min_by\<close>: the answer \<open>Greater\<close>. Of several least elements \<open>min_by\<close> keeps the first.\<close>

definition minor_greater :: "string \<Rightarrow> string \<Rightarrow> bool" where
  "minor_greater a b =
     (case (parse_minor_pair a, parse_minor_pair b) of
        (Some pa, Some pb) \<Rightarrow> pb < pa
      | (Some _, None) \<Rightarrow> False
      | (None, Some _) \<Rightarrow> True
      | (None, None) \<Rightarrow> b < a)"

definition lowest_supported_minor :: "string list \<Rightarrow> string option" where
  "lowest_supported_minor minors =
     (case minors of
        [] \<Rightarrow> None
      | m # ms \<Rightarrow> Some (foldl (\<lambda>least s. if minor_greater least s then s else least) m ms))"

definition is_below_window :: "string \<Rightarrow> string \<Rightarrow> bool" where
  "is_below_window k8s_minor lowest =
     (case (parse_minor_pair k8s_minor, parse_minor_pair lowest) of (Some k, Some lo) \<Rightarrow> k < lo | _ \<Rightarrow> False)"

section \<open>Pins\<close>

fun dotted_loop :: "string \<Rightarrow> string \<Rightarrow> bool \<Rightarrow> nat \<Rightarrow> string option" where
  "dotted_loop out rest dot 0 = Some out"
| "dotted_loop out rest dot (Suc n) =
     (case (if dot then strip_prefix ''.'' rest else Some rest) of
        None \<Rightarrow> None
      | Some r \<Rightarrow>
          let digits = takeWhile is_ascii_digit r in
          if digits = [] then None
          else dotted_loop (out @ (if dot then ''.'' else []) @ digits) (drop (length digits) r) True n)"

definition leading_dotted_number :: "string \<Rightarrow> nat \<Rightarrow> string option" where
  "leading_dotted_number s components = dotted_loop [] s False components"

definition trim_start_in :: "char list \<Rightarrow> string \<Rightarrow> string" where
  "trim_start_in cs s = dropWhile (\<lambda>c. c \<in> set cs) s"

definition cilium_line_pin :: "string \<Rightarrow> string option" where
  "cilium_line_pin line =
     (case strip_prefix ''--version'' (trim_start line) of
        None \<Rightarrow> None
      | Some rest \<Rightarrow>
          let trimmed = trim_start_in [CHR '' '', CHR 0x09, CHR ''=''] rest in
          if length trimmed = length rest then None else leading_dotted_number (drop_v trimmed) 3)"

definition k8s_line_pin :: "string \<Rightarrow> string option" where
  "k8s_line_pin line =
     (case strip_prefix ''ARG'' line of
        None \<Rightarrow> None
      | Some rest \<Rightarrow>
          let after_arg = trim_start_in [CHR '' '', CHR 0x09] rest in
          if length after_arg = length rest then None
          else
            (case strip_prefix ''K8S_VERSION'' after_arg of
               None \<Rightarrow> None
             | Some rest2 \<Rightarrow>
                 (case strip_prefix ''='' (trim_start_in [CHR '' '', CHR 0x09] rest2) of
                    None \<Rightarrow> None
                  | Some rest3 \<Rightarrow>
                      leading_dotted_number (drop_v (trim_start_in [CHR '' '', CHR 0x09] rest3)) 2)))"

fun first_pin :: "(string \<Rightarrow> string option) \<Rightarrow> string list \<Rightarrow> string option" where
  "first_pin pin [] = None"
| "first_pin pin (line # rest) = (case pin line of Some v \<Rightarrow> Some v | None \<Rightarrow> first_pin pin rest)"

definition extract_cilium_pin :: "string \<Rightarrow> string option" where
  "extract_cilium_pin content = first_pin cilium_line_pin (lines content)"

definition extract_k8s_pin :: "string \<Rightarrow> string option" where
  "extract_k8s_pin content = first_pin k8s_line_pin (lines content)"

definition normalize_k8s_minor :: "string \<Rightarrow> string" where
  "normalize_k8s_minor raw = unwrap_or (leading_dotted_number (drop_v raw) 2) raw"

definition cilium_minor_of :: "string \<Rightarrow> string" where
  "cilium_minor_of version = unwrap_or (leading_dotted_number version 2) version"

definition K8S_INIT_REL :: string where "K8S_INIT_REL = ''containers/k8s/k8s-init.sh''"
definition CONTAINERFILE_REL :: string where "CONTAINERFILE_REL = ''containers/k8s/Containerfile''"

definition preflight_root :: "(string \<Rightarrow> bool) \<Rightarrow> string \<Rightarrow> string option" where
  "preflight_root is_file start = repo_walk (\<lambda>dir. is_file (path_join dir CONTAINERFILE_REL)) start"

record pins =
  pn_cilium_version :: string
  pn_cilium_minor :: string
  pn_k8s_minor :: string
  pn_cilium_source :: string
  pn_k8s_source :: string

text \<open>\<open>PinError\<close> is its message. \<open>read_file\<close> gives the text of a readable file.\<close>

definition resolve_cilium :: "cilium_args \<Rightarrow> string \<Rightarrow> (string \<Rightarrow> string option) \<Rightarrow> (string, string \<times> string) result" where
  "resolve_cilium args k8s_init read =
     (case filled (ci_cilium args) of
        Some v \<Rightarrow> Ok (v, ''--cilium'')
      | None \<Rightarrow>
          (case read k8s_init of
             None \<Rightarrow> Err (''ERROR: cannot read '' @ k8s_init @ '' to extract Cilium pin'')
           | Some content \<Rightarrow>
               (case extract_cilium_pin content of
                  None \<Rightarrow> Err ''ERROR: could not extract Cilium --version from k8s-init.sh''
                | Some v \<Rightarrow> Ok (v, k8s_init))))"

definition resolve_k8s :: "cilium_args \<Rightarrow> string \<Rightarrow> (string \<Rightarrow> string option) \<Rightarrow> (string, string \<times> string) result" where
  "resolve_k8s args containerfile read =
     (case filled (ci_k8s args) of
        Some v \<Rightarrow> Ok (normalize_k8s_minor v, ''--k8s'')
      | None \<Rightarrow>
          (case read containerfile of
             None \<Rightarrow> Err (''ERROR: cannot read '' @ containerfile @ '' to extract K8S_VERSION pin'')
           | Some content \<Rightarrow>
               (case extract_k8s_pin content of
                  None \<Rightarrow> Err ''ERROR: could not extract K8S_VERSION from Containerfile''
                | Some v \<Rightarrow> Ok (v, containerfile))))"

definition resolve_pins :: "cilium_args \<Rightarrow> string \<Rightarrow> (string \<Rightarrow> string option) \<Rightarrow> (string, pins) result" where
  "resolve_pins args root read =
     (case resolve_cilium args (path_join root K8S_INIT_REL) read of
        Err e \<Rightarrow> Err e
      | Ok (version, version_source) \<Rightarrow>
          (case resolve_k8s args (path_join root CONTAINERFILE_REL) read of
             Err e \<Rightarrow> Err e
           | Ok (minor, minor_source) \<Rightarrow>
               Ok \<lparr>pn_cilium_version = version, pn_cilium_minor = cilium_minor_of version, pn_k8s_minor = minor,
                   pn_cilium_source = version_source, pn_k8s_source = minor_source\<rparr>))"

section \<open>Verdict\<close>

datatype compat_verdict =
    Supported string
  | MatrixStale
  | Mismatch string string bool string

definition classify_pins :: "pins \<Rightarrow> compat_verdict" where
  "classify_pins p =
     (case lookup_row (pn_cilium_minor p) of
        None \<Rightarrow> MatrixStale
      | Some row \<Rightarrow>
          let supported = join '' '' (mr_k8s_minors row) in
          if pn_k8s_minor p \<in> set (mr_k8s_minors row) then Supported supported
          else
            let lowest = unwrap_or (lowest_supported_minor (mr_k8s_minors row)) [] in
            Mismatch supported lowest (is_below_window (pn_k8s_minor p) lowest) (mr_source_url row))"

fun verdict_exit_code :: "compat_verdict \<Rightarrow> bool \<Rightarrow> nat" where
  "verdict_exit_code (Supported _) strict = 0"
| "verdict_exit_code _ strict = (if strict then EXIT_STRICT_MISMATCH else 0)"

fun render_verdict :: "pins \<Rightarrow> compat_verdict \<Rightarrow> string list \<times> string list" where
  "render_verdict p (Supported supported) =
     ([''OK: Cilium '' @ pn_cilium_version p @ '' supports K8s '' @ pn_k8s_minor p @ '' (supported: '' @ supported @ '').''], [])"
| "render_verdict p MatrixStale =
     ([],
      [''WARN: Cilium minor '' @ pn_cilium_minor p @ '' (pinned '' @ pn_cilium_version p @ '') is not in the embedded compat matrix.'',
       ''      Refresh the matrix in rust/crates/hbird-cli/src/commands/preflight.rs from:'',
       ''      https://docs.cilium.io/en/v'' @ pn_cilium_minor p @ ''/network/kubernetes/compatibility/'',
       ''      K8s pin: '' @ pn_k8s_minor p])"
| "render_verdict p (Mismatch supported lowest below_window source_url) =
     ([],
      [''WARN: Cilium '' @ pn_cilium_version p @ '' does NOT list K8s '' @ pn_k8s_minor p @ '' as a supported minor.'',
       ''      Cilium '' @ pn_cilium_minor p @ ''.x supported K8s minors: '' @ supported]
      @ (if below_window then
           [''      K8s '' @ pn_k8s_minor p @ '' is BELOW Cilium '' @ pn_cilium_minor p @ ''.x's window (lowest: '' @ lowest @ '').'',
            ''      Downgrade Cilium to a minor that supports K8s '' @ pn_k8s_minor p @ '', OR upgrade K8s into range.'']
         else
           [''      Bump Cilium first (see docs/cilium-migration.md) OR pick a K8s minor in range.''])
      @ [''      Upstream matrix: '' @ source_url,
         ''      See also: docs/k8s-version-upgrade.md '' @ [CHR 0x22] @ ''Pre-flight checklist'' @ [CHR 0x22] @ ''.''])"

definition show_bool :: "bool \<Rightarrow> string" where
  "show_bool b = (if b then ''true'' else ''false'')"

definition render_dry_run_plan :: "pins \<Rightarrow> compat_verdict \<Rightarrow> bool \<Rightarrow> string list" where
  "render_dry_run_plan p v strict =
     [''[preflight-cilium] DRY-RUN cilium pin: '' @ pn_cilium_version p @ '' (minor '' @ pn_cilium_minor p @ '') from '' @ pn_cilium_source p,
      ''[preflight-cilium] DRY-RUN k8s pin:    '' @ pn_k8s_minor p @ '' from '' @ pn_k8s_source p,
      ''[preflight-cilium] DRY-RUN strict: '' @ show_bool strict,
      ''[preflight-cilium] DRY-RUN matrix rows: '' @ join '' '' (map mr_cilium_minor COMPAT_MATRIX)
        @ '' (reviewed as of '' @ MATRIX_REVIEWED_AS_OF @ '')'',
      ''[preflight-cilium] DRY-RUN would emit: ''
        @ (case v of Supported _ \<Rightarrow> ''OK'' | MatrixStale \<Rightarrow> ''WARN (matrix stale)'' | Mismatch _ _ _ _ \<Rightarrow> ''WARN (mismatch)'')
        @ '' and exit '' @ show_nat (verdict_exit_code v strict)]"

section \<open>The command\<close>

text \<open>\<open>cwd\<close> is the answer of \<open>current_dir\<close>, an absolute path when there is one.\<close>

definition cilium_root :: "'w console \<Rightarrow> string option \<Rightarrow> cilium_args \<Rightarrow> 'w \<Rightarrow> string" where
  "cilium_root con cwd args x =
     (case ci_repo_root args of
        Some p \<Rightarrow> p
      | None \<Rightarrow> let here = unwrap_or cwd ''.'' in unwrap_or (preflight_root (\<lambda>p. con_is_file con p x) here) here)"

definition run_cilium :: "'w host \<Rightarrow> 'w console \<Rightarrow> string option \<Rightarrow> cilium_args \<Rightarrow> ('w, nat) act" where
  "run_cilium host con cwd args =
     bindA (peek (\<lambda>x. Ok (resolve_pins args (cilium_root con cwd args x) (\<lambda>path. host_read host path x)))) (\<lambda>resolved.
     case resolved of
       Err msg \<Rightarrow> bindA (eprintln msg) (\<lambda>_. retA EXIT_INPUT_ERROR)
     | Ok p \<Rightarrow>
         let v = classify_pins p in
         if ci_dry_run args then
           bindA (forA (render_dry_run_plan p v (ci_strict args)) println) (\<lambda>_. retA 0)
         else
           bindA (forA (fst (render_verdict p v)) println) (\<lambda>_.
           bindA (forA (snd (render_verdict p v)) eprintln) (\<lambda>_.
           retA (verdict_exit_code v (ci_strict args)))))"

end
