(* ===== verification/Preflight_Spec.thy ===== *)
theory Preflight_Spec
  imports Preflight
begin

text \<open>
  The contract of \<open>preflight cilium\<close>: the extractions find exactly the pins the two regular expressions of the doc
  describe, the hint names the floor of the window, and the exit codes are those of the table.
\<close>

section \<open>Dotted numbers\<close>

definition number_text :: "string \<Rightarrow> bool" where
  "number_text d \<longleftrightarrow> d \<noteq> [] \<and> list_all is_ascii_digit d"

definition starts_digit :: "string \<Rightarrow> bool" where
  "starts_digit s \<longleftrightarrow> (case s of [] \<Rightarrow> False | c # _ \<Rightarrow> is_ascii_digit c)"

definition tail_text :: "string list \<Rightarrow> string" where
  "tail_text ds = concat (map (\<lambda>d. ''.'' @ d) ds)"

text \<open>\<open>s\<close> begins with \<open>n\<close> numbers separated by dots, and they are \<open>v\<close>.\<close>

definition dotted_prefix :: "nat \<Rightarrow> string \<Rightarrow> string \<Rightarrow> bool" where
  "dotted_prefix n s v \<longleftrightarrow>
     (\<exists>ds r. length ds = n \<and> list_all number_text ds \<and> v = join ''.'' ds \<and> s = v @ r \<and> \<not> starts_digit r)"

lemma starts_digit_simps [simp]:
  "\<not> starts_digit []" "starts_digit (c # s) \<longleftrightarrow> is_ascii_digit c" "\<not> is_ascii_digit (CHR ''.'')"
  by (simp_all add: starts_digit_def is_ascii_digit_def)

lemma tail_text_simps [simp]: "tail_text [] = []" "tail_text (d # ds) = CHR ''.'' # d @ tail_text ds"
  by (simp_all add: tail_text_def)

lemma join_tail: "join ''.'' (d # ds) = d @ tail_text ds"
  by (induction ds arbitrary: d) simp_all

lemma digits_split: "list_all is_ascii_digit d \<Longrightarrow> \<not> starts_digit r \<Longrightarrow> takeWhile is_ascii_digit (d @ r) = d"
  by (induction d) (auto simp: starts_digit_def split: list.splits)

lemma digits_rest: "\<not> starts_digit (drop (length (takeWhile is_ascii_digit s)) s)"
  by (induction s) auto

lemma digits_all: "list_all is_ascii_digit (takeWhile is_ascii_digit s)"
  by (induction s) auto

lemma take_digits:
  "s = takeWhile is_ascii_digit s @ drop (length (takeWhile is_ascii_digit s)) s"
  by (metis dropWhile_eq_drop takeWhile_dropWhile_id)

lemma dotted_loop_iff:
  "\<not> starts_digit rest \<Longrightarrow> dotted_loop out rest True n = Some v \<longleftrightarrow>
     (\<exists>ds r. length ds = n \<and> list_all number_text ds \<and> v = out @ tail_text ds \<and> rest = tail_text ds @ r \<and> \<not> starts_digit r)"
proof (induction n arbitrary: out rest)
  case 0
  then show ?case by auto
next
  case (Suc n)
  show ?case
  proof (cases "strip_prefix ''.'' rest")
    case None
    then have "rest \<noteq> CHR ''.'' # r" for r by auto
    with None show ?thesis by (auto simp: length_Suc_conv)
  next
    case (Some r)
    then have rest: "rest = CHR ''.'' # r" by (simp add: strip_prefix_Some)
    let ?d = "takeWhile is_ascii_digit r" and ?t = "drop (length (takeWhile is_ascii_digit r)) r"
    note IH = Suc.IH [OF digits_rest [of r], of "out @ ''.'' @ ?d"]
    show ?thesis
    proof (cases "?d = []")
      case True
      have "\<not> (list_all number_text ds \<and> length ds = Suc n \<and> rest = tail_text ds @ x)" for ds x
        using True rest by (cases ds; cases "hd ds") (auto simp: number_text_def)
      with Some True show ?thesis by auto
    next
      case False
      show ?thesis
      proof
        assume "dotted_loop out rest True (Suc n) = Some v"
        with Some False IH obtain ds x where ds: "length ds = n" "list_all number_text ds" "v = (out @ ''.'' @ ?d) @ tail_text ds"
            "?t = tail_text ds @ x" "\<not> starts_digit x" by (auto simp: Let_def)
        have "rest = tail_text (?d # ds) @ x" using rest ds(4) take_digits [of r] by simp
        with ds False digits_all [of r] show "\<exists>ds r. length ds = Suc n \<and> list_all number_text ds \<and> v = out @ tail_text ds
            \<and> rest = tail_text ds @ r \<and> \<not> starts_digit r"
          by (intro exI [of _ "?d # ds"] exI [of _ x]) (simp add: number_text_def)
      next
        assume "\<exists>ds r. length ds = Suc n \<and> list_all number_text ds \<and> v = out @ tail_text ds
            \<and> rest = tail_text ds @ r \<and> \<not> starts_digit r"
        then obtain d ds x where ds: "length ds = n" "list_all number_text ds" "number_text d" "v = out @ CHR ''.'' # d @ tail_text ds"
            "rest = CHR ''.'' # d @ tail_text ds @ x" "\<not> starts_digit x" by (auto simp: length_Suc_conv)
        have "\<not> starts_digit (tail_text ds @ x)" using ds(6) by (cases ds) simp_all
        then have "?d = d" using digits_split [of d "tail_text ds @ x"] ds(3,5) rest by (simp add: number_text_def)
        moreover have "?t = tail_text ds @ x" using \<open>?d = d\<close> ds(5) rest by simp
        ultimately show "dotted_loop out rest True (Suc n) = Some v" using IH Some False ds by (auto simp: Let_def)
      qed
    qed
  qed
qed

lemma leading_dotted_number_iff: "0 < n \<Longrightarrow> leading_dotted_number s n = Some v \<longleftrightarrow> dotted_prefix n s v"
proof (cases n)
  case (Suc m)
  let ?d = "takeWhile is_ascii_digit s" and ?t = "drop (length (takeWhile is_ascii_digit s)) s"
  have "leading_dotted_number s n = Some v \<longleftrightarrow> ?d \<noteq> [] \<and> dotted_loop ?d ?t True m = Some v"
    by (simp add: leading_dotted_number_def Suc Let_def)
  also have "\<dots> \<longleftrightarrow> dotted_prefix n s v"
  proof
    assume a: "?d \<noteq> [] \<and> dotted_loop ?d ?t True m = Some v"
    then obtain ds x where ds: "length ds = m" "list_all number_text ds" "v = ?d @ tail_text ds" "?t = tail_text ds @ x" "\<not> starts_digit x"
      using dotted_loop_iff [OF digits_rest] by blast
    have "s = v @ x" using ds(3,4) take_digits [of s] by simp
    with ds a digits_all [of s] Suc show "dotted_prefix n s v"
      unfolding dotted_prefix_def by (intro exI [of _ "?d # ds"] exI [of _ x]) (simp add: number_text_def join_tail)
  next
    assume "dotted_prefix n s v"
    then obtain d ds x where ds: "length ds = m" "list_all number_text ds" "number_text d" "v = d @ tail_text ds" "s = v @ x" "\<not> starts_digit x"
      unfolding dotted_prefix_def Suc by (auto simp: length_Suc_conv join_tail)
    have "\<not> starts_digit (tail_text ds @ x)" using ds(6) by (cases ds) simp_all
    then have d: "?d = d" using digits_split [of d "tail_text ds @ x"] ds by (simp add: number_text_def)
    moreover have "?t = tail_text ds @ x" using d ds by simp
    ultimately show "?d \<noteq> [] \<and> dotted_loop ?d ?t True m = Some v"
      using ds dotted_loop_iff [OF digits_rest [of s], of ?d m v] by (auto simp: number_text_def)
  qed
  finally show ?thesis .
qed simp

section \<open>Lines that carry a pin\<close>

text \<open>The two regular expressions of the doc: \<open>^[[:space:]]*--version[[:space:]=]+v?N.N.N\<close> and
  \<open>^ARG[[:space:]]+K8S_VERSION[[:space:]]*=[[:space:]]*v?N.N\<close>, with the numbers captured.\<close>

definition blanks :: "char list \<Rightarrow> string \<Rightarrow> bool" where
  "blanks cs s \<longleftrightarrow> list_all (\<lambda>c. c \<in> set cs) s"

definition version_text :: "nat \<Rightarrow> string \<Rightarrow> string \<Rightarrow> bool" where
  "version_text n s v \<longleftrightarrow> (\<exists>body. dotted_prefix n body v \<and> (s = body \<or> s = CHR ''v'' # body))"

definition cilium_line :: "string \<Rightarrow> string \<Rightarrow> bool" where
  "cilium_line line v \<longleftrightarrow>
     (\<exists>ind sep t. line = ind @ ''--version'' @ sep @ t \<and> list_all is_whitespace ind
        \<and> sep \<noteq> [] \<and> blanks [CHR '' '', CHR 0x09, CHR ''=''] sep \<and> version_text 3 t v)"

definition k8s_line :: "string \<Rightarrow> string \<Rightarrow> bool" where
  "k8s_line line v \<longleftrightarrow>
     (\<exists>a b c t. line = ''ARG'' @ a @ ''K8S_VERSION'' @ b @ ''='' @ c @ t \<and> a \<noteq> []
        \<and> blanks [CHR '' '', CHR 0x09] a \<and> blanks [CHR '' '', CHR 0x09] b \<and> blanks [CHR '' '', CHR 0x09] c \<and> version_text 2 t v)"

definition first_match :: "(string \<Rightarrow> string \<Rightarrow> bool) \<Rightarrow> string \<Rightarrow> string \<Rightarrow> bool" where
  "first_match m content v \<longleftrightarrow>
     (\<exists>a l b. lines content = a @ l # b \<and> m l v \<and> (\<forall>l' v'. l' \<in> set a \<longrightarrow> \<not> m l' v'))"

lemma dropWhile_iff: "dropWhile P s = r \<longleftrightarrow> (\<exists>a. s = a @ r \<and> list_all P a \<and> (case r of [] \<Rightarrow> True | c # _ \<Rightarrow> \<not> P c))"
proof
  assume r: "dropWhile P s = r"
  have "\<not> P c" if "r = c # cs" for c cs using r that by (metis dropWhile_eq_Cons_conv)
  then have "case r of [] \<Rightarrow> True | c # _ \<Rightarrow> \<not> P c" by (cases r) auto
  moreover have "list_all P (takeWhile P s)" by (auto simp: list_all_iff dest: set_takeWhileD)
  ultimately show "\<exists>a. s = a @ r \<and> list_all P a \<and> (case r of [] \<Rightarrow> True | c # _ \<Rightarrow> \<not> P c)"
    using r by (metis takeWhile_dropWhile_id)
next
  assume "\<exists>a. s = a @ r \<and> list_all P a \<and> (case r of [] \<Rightarrow> True | c # _ \<Rightarrow> \<not> P c)"
  then show "dropWhile P s = r" by (auto simp: list_all_iff dropWhile_append2 split: list.splits)
qed

lemma dotted_digit: "0 < n \<Longrightarrow> dotted_prefix n s v \<Longrightarrow> starts_digit s"
  by (cases n) (auto simp: dotted_prefix_def length_Suc_conv join_tail number_text_def neq_Nil_conv)

lemma version_text_iff: "0 < n \<Longrightarrow> leading_dotted_number (drop_v t) n = Some v \<longleftrightarrow> version_text n t v"
proof -
  assume n: "0 < n"
  have v: "\<not> starts_digit (CHR ''v'' # b)" for b by (simp add: is_ascii_digit_def)
  show ?thesis
  proof (cases "strip_prefix ''v'' t")
    case None
    then have "t \<noteq> CHR ''v'' # b" for b by auto
    with None n show ?thesis by (auto simp: drop_v_def unwrap_or_def version_text_def leading_dotted_number_iff)
  next
    case (Some b)
    then have "t = CHR ''v'' # b" by (simp add: strip_prefix_Some)
    with Some n v [of b] show ?thesis
      by (auto simp: drop_v_def unwrap_or_def version_text_def leading_dotted_number_iff dest: dotted_digit [OF n])
  qed
qed

lemma version_text_hd:
  assumes "0 < n" "version_text n t v"
  obtains c u where "t = c # u" "c = CHR ''v'' \<or> is_ascii_digit c"
proof -
  from assms(2) obtain body where "dotted_prefix n body v" "t = body \<or> t = CHR ''v'' # body" unfolding version_text_def by blast
  moreover from dotted_digit [OF assms(1) this(1)] obtain d u where "body = d # u" "is_ascii_digit d" by (cases body) auto
  ultimately show ?thesis using that by blast
qed

lemma trim_in_iff:
  "trim_start_in cs s = r \<longleftrightarrow> (\<exists>a. s = a @ r \<and> blanks cs a \<and> (case r of [] \<Rightarrow> True | c # _ \<Rightarrow> c \<notin> set cs))"
  unfolding trim_start_in_def blanks_def by (rule dropWhile_iff)

lemma trim_in_length: "s = a @ trim_start_in cs s \<Longrightarrow> length (trim_start_in cs s) = length s \<longleftrightarrow> a = []"
  by (metis add_cancel_right_left length_0_conv length_append)

lemma trim_in_self: "blanks cs a \<Longrightarrow> r = c # u \<Longrightarrow> c \<notin> set cs \<Longrightarrow> trim_start_in cs (a @ r) = r"
  by (simp add: trim_in_iff)

lemma version_not_blank:
  assumes "0 < n" "version_text n t v" "blanks [CHR '' '', CHR 0x09, CHR ''=''] a"
  shows "trim_start_in [CHR '' '', CHR 0x09, CHR ''=''] (a @ t) = t"
    "blanks [CHR '' '', CHR 0x09] b \<Longrightarrow> trim_start_in [CHR '' '', CHR 0x09] (b @ t) = t"
  by (rule version_text_hd [OF assms(1,2)], rule trim_in_self; use assms(3) in \<open>auto simp: is_ascii_digit_def\<close>)+

lemma cilium_line_iff: "cilium_line_pin line = Some v \<longleftrightarrow> cilium_line line v"
proof
  let ?t = "trim_start_in [CHR '' '', CHR 0x09, CHR ''='']"
  assume "cilium_line_pin line = Some v"
  then obtain rest where rest: "trim_start line = ''--version'' @ rest" "length (?t rest) \<noteq> length rest"
      "version_text 3 (?t rest) v"
    by (auto simp: cilium_line_pin_def Let_def version_text_iff strip_prefix_Some split: option.splits if_splits)
  obtain ind where "line = ind @ ''--version'' @ rest" "list_all is_whitespace ind"
    using rest(1) [unfolded trim_start_def dropWhile_iff] by auto
  moreover obtain sep where "rest = sep @ ?t rest" "blanks [CHR '' '', CHR 0x09, CHR ''=''] sep" by (metis trim_in_iff)
  moreover from this rest(2) have "sep \<noteq> []" by auto
  ultimately show "cilium_line line v" using rest(3) unfolding cilium_line_def
    by (intro exI [of _ ind] exI [of _ sep] exI [of _ "?t rest"]) simp
next
  assume "cilium_line line v"
  then obtain ind sep t where l: "line = ind @ ''--version'' @ sep @ t" "list_all is_whitespace ind" "sep \<noteq> []"
      "blanks [CHR '' '', CHR 0x09, CHR ''=''] sep" "version_text 3 t v" unfolding cilium_line_def by blast
  have "trim_start line = ''--version'' @ sep @ t"
    unfolding trim_start_def dropWhile_iff using l(1,2) by (intro exI [of _ ind]) (simp add: is_whitespace_def)
  moreover have "strip_prefix ''--version'' (''--version'' @ sep @ t) = Some (sep @ t)" by (simp only: strip_prefix_Some)
  ultimately show "cilium_line_pin line = Some v"
    using l(3,5) version_not_blank(1) [OF _ l(5,4)] by (simp add: cilium_line_pin_def version_text_iff)
qed

lemma k8s_line_iff: "k8s_line_pin line = Some v \<longleftrightarrow> k8s_line line v"
proof
  let ?t = "trim_start_in [CHR '' '', CHR 0x09]"
  have blank: "\<exists>a. s = a @ ?t s \<and> blanks [CHR '' '', CHR 0x09] a" for s by (metis trim_in_iff)
  assume "k8s_line_pin line = Some v"
  then obtain r1 r2 r3 where r: "line = ''ARG'' @ r1" "length (?t r1) \<noteq> length r1" "?t r1 = ''K8S_VERSION'' @ r2"
      "?t r2 = ''='' @ r3" "version_text 2 (?t r3) v"
    by (auto simp: k8s_line_pin_def Let_def version_text_iff strip_prefix_Some split: option.splits if_splits)
  obtain a b c where "r1 = a @ ?t r1" "r2 = b @ ?t r2" "r3 = c @ ?t r3"
      "blanks [CHR '' '', CHR 0x09] a" "blanks [CHR '' '', CHR 0x09] b" "blanks [CHR '' '', CHR 0x09] c"
    using blank by meson
  moreover from this(1) r(2) have "a \<noteq> []" by auto
  ultimately show "k8s_line line v" using r unfolding k8s_line_def
    by (intro exI [of _ a] exI [of _ b] exI [of _ c] exI [of _ "?t r3"]) simp
next
  assume "k8s_line line v"
  then obtain a b c t where l: "line = ''ARG'' @ a @ ''K8S_VERSION'' @ b @ ''='' @ c @ t" "a \<noteq> []"
      "blanks [CHR '' '', CHR 0x09] a" "blanks [CHR '' '', CHR 0x09] b" "blanks [CHR '' '', CHR 0x09] c" "version_text 2 t v"
    unfolding k8s_line_def by blast
  have "strip_prefix ''ARG'' line = Some (a @ ''K8S_VERSION'' @ b @ ''='' @ c @ t)" unfolding l(1) by (simp only: strip_prefix_Some)
  moreover have "trim_start_in [CHR '' '', CHR 0x09] (a @ ''K8S_VERSION'' @ b @ ''='' @ c @ t) = ''K8S_VERSION'' @ b @ ''='' @ c @ t"
    by (rule trim_in_self [OF l(3)]) auto
  moreover have "strip_prefix ''K8S_VERSION'' (''K8S_VERSION'' @ b @ ''='' @ c @ t) = Some (b @ ''='' @ c @ t)"
    by (simp only: strip_prefix_Some)
  moreover have "trim_start_in [CHR '' '', CHR 0x09] (b @ ''='' @ c @ t) = ''='' @ c @ t" by (rule trim_in_self [OF l(4)]) auto
  moreover have "trim_start_in [CHR '' '', CHR 0x09] (c @ t) = t"
    by (rule version_not_blank(2) [OF _ l(6) _ l(5), of "[]"]) (simp_all add: blanks_def)
  ultimately show "k8s_line_pin line = Some v" using l(2,6) by (simp add: k8s_line_pin_def version_text_iff)
qed

lemma first_pin_iff:
  assumes "\<And>l v. pin l = Some v \<longleftrightarrow> m l v"
  shows "first_pin pin ls = Some v \<longleftrightarrow> (\<exists>a l b. ls = a @ l # b \<and> m l v \<and> (\<forall>l' v'. l' \<in> set a \<longrightarrow> \<not> m l' v'))"
proof (induction ls)
  case (Cons l ls)
  show ?case
  proof (cases "pin l")
    case None
    then have no: "\<not> m l v'" for v' using assms by (metis option.distinct(1))
    show ?thesis
    proof
      assume "first_pin pin (l # ls) = Some v"
      with None Cons.IH obtain a k b where "ls = a @ k # b" "m k v" "\<forall>l' v'. l' \<in> set a \<longrightarrow> \<not> m l' v'" by auto
      with no show "\<exists>a k b. l # ls = a @ k # b \<and> m k v \<and> (\<forall>l' v'. l' \<in> set a \<longrightarrow> \<not> m l' v')"
        by (intro exI [of _ "l # a"] exI [of _ k] exI [of _ b]) auto
    next
      assume "\<exists>a k b. l # ls = a @ k # b \<and> m k v \<and> (\<forall>l' v'. l' \<in> set a \<longrightarrow> \<not> m l' v')"
      then obtain a k b where k: "l # ls = a @ k # b" "m k v" "\<forall>l' v'. l' \<in> set a \<longrightarrow> \<not> m l' v'" by blast
      with no obtain a' where "a = l # a'" by (cases a) auto
      with k None Cons.IH show "first_pin pin (l # ls) = Some v" by auto
    qed
  next
    case (Some u)
    then have u: "m l u" and one: "m l v \<Longrightarrow> v = u" by (simp_all flip: assms)
    show ?thesis
    proof
      assume "first_pin pin (l # ls) = Some v"
      with Some u show "\<exists>a k b. l # ls = a @ k # b \<and> m k v \<and> (\<forall>l' v'. l' \<in> set a \<longrightarrow> \<not> m l' v')"
        by (intro exI [of _ "[]"] exI [of _ l] exI [of _ ls]) auto
    next
      assume "\<exists>a k b. l # ls = a @ k # b \<and> m k v \<and> (\<forall>l' v'. l' \<in> set a \<longrightarrow> \<not> m l' v')"
      then obtain a k b where k: "l # ls = a @ k # b" "m k v" "\<forall>l' v'. l' \<in> set a \<longrightarrow> \<not> m l' v'" by blast
      with u have "a = []" by (cases a) auto
      with k(1,2) one have "v = u" by simp
      with Some show "first_pin pin (l # ls) = Some v" by simp
    qed
  qed
qed simp


section \<open>The floor of a window\<close>

text \<open>The comparison is the linear order of the pairs, with the texts that are no version behind them.\<close>

definition minor_key :: "string \<Rightarrow> nat \<times> (nat \<times> nat) \<times> string" where
  "minor_key s = (case parse_minor_pair s of Some p \<Rightarrow> (0, p, []) | None \<Rightarrow> (1, (0, 0), s))"

lemma minor_greater_key: "minor_greater a b \<longleftrightarrow> minor_key b < minor_key a"
  by (auto simp: minor_greater_def minor_key_def less_prod_def' split: option.split)

lemma lowest_supported_minor_least:
  assumes "lowest_supported_minor ms = Some lo"
  shows "lo \<in> set ms" "\<forall>m \<in> set ms. minor_key lo \<le> minor_key m"
proof -
  have fold: "foldl (\<lambda>least s. if minor_greater least s then s else least) m ms \<in> set (m # ms)
      \<and> (\<forall>x \<in> set (m # ms). minor_key (foldl (\<lambda>least s. if minor_greater least s then s else least) m ms) \<le> minor_key x)" for m ms
  proof (induction ms arbitrary: m)
    case (Cons x ms)
    from Cons.IH [of x] Cons.IH [of m] show ?case
      by (cases "minor_greater m x") (auto simp: minor_greater_key intro: order_trans)
  qed simp
  obtain m rest where ms: "ms = m # rest" using assms by (cases ms) (auto simp: lowest_supported_minor_def)
  with assms have "lo = foldl (\<lambda>least s. if minor_greater least s then s else least) m rest" by (simp add: lowest_supported_minor_def)
  with fold [of m rest] ms show "lo \<in> set ms" "\<forall>m \<in> set ms. minor_key lo \<le> minor_key m" by auto
qed

section \<open>The contract\<close>

definition listed_pair :: "pins \<Rightarrow> bool" where
  "listed_pair p \<longleftrightarrow> (\<exists>row \<in> set COMPAT_MATRIX. mr_cilium_minor row = pn_cilium_minor p \<and> pn_k8s_minor p \<in> set (mr_k8s_minors row))"

fun is_text :: "event \<Rightarrow> bool" where
  "is_text (Stdout _) = True"
| "is_text (Stderr _) = True"
| "is_text _ = False"

lemma matrix_distinct: "distinct (map mr_cilium_minor COMPAT_MATRIX)"
  by code_simp

lemma find_distinct: "distinct (map f xs) \<Longrightarrow> x \<in> set xs \<Longrightarrow> find (\<lambda>y. f y = f x) xs = Some x"
  by (induction xs) (auto simp: image_iff)

lemma lookup_row_iff: "lookup_row minor = Some row \<longleftrightarrow> row \<in> set COMPAT_MATRIX \<and> mr_cilium_minor row = minor"
  using find_distinct [OF matrix_distinct, of row]
  by (auto simp: lookup_row_def find_Some_iff)

lemma classify_listed: "(\<exists>s. classify_pins p = Supported s) \<longleftrightarrow> listed_pair p"
proof (cases "lookup_row (pn_cilium_minor p)")
  case None
  then have "\<not> listed_pair p" unfolding listed_pair_def by (metis lookup_row_iff option.distinct(1))
  with None show ?thesis by (simp add: classify_pins_def)
next
  case (Some row)
  then have "listed_pair p \<longleftrightarrow> pn_k8s_minor p \<in> set (mr_k8s_minors row)"
    unfolding listed_pair_def by (metis lookup_row_iff option.inject)
  with Some show ?thesis by (auto simp: classify_pins_def Let_def)
qed

lemma print_all:
  "forA ls println w = (Ok (), w\<lparr>w_trace := w_trace w @ map Stdout ls\<rparr>)"
  "forA ls eprintln w = (Ok (), w\<lparr>w_trace := w_trace w @ map Stderr ls\<rparr>)"
  by (induction ls arbitrary: w) (simp_all add: retA_def bindA_def emit_def)

lemma verdict_listed:
  "listed_pair p \<Longrightarrow> \<exists>s. render_verdict p (classify_pins p) = ([''OK: '' @ s], []) \<and> verdict_exit_code (classify_pins p) strict = 0"
  using classify_listed [of p] by auto

lemma verdict_unlisted:
  assumes "\<not> listed_pair p"
  shows "\<exists>s more. render_verdict p (classify_pins p) = ([], (''WARN: '' @ s) # more)
    \<and> verdict_exit_code (classify_pins p) strict = (if strict then 1 else 0)"
  using assms classify_listed [of p] by (cases "classify_pins p") (auto simp: EXIT_STRICT_MISMATCH_def)


end
