(* ===== verification/Kube_Bench.thy ===== *)
theory Kube_Bench
  imports Etcd Deploy_Net
begin

text \<open>
  \<open>hbird kube-bench\<close> (\<open>commands/kube_bench.rs\<close>): the two benchmark jobs, their logs as a report, the summary, the
  clean-up and the dry run. The configuration is what \<open>hbird_config::parse\<close> gave, with the displayed error first in
  the chain of a failure; \<open>print!\<close> and \<open>eprint!\<close> of a text are one event.
\<close>

section \<open>Arguments and targets\<close>

definition EXIT_PRECONDITION :: nat where "EXIT_PRECONDITION = 2"

definition BASE_URL :: string where
  "BASE_URL = ''https://raw.githubusercontent.com/aquasecurity/kube-bench''"

record kube_bench_args =
  ka_config :: "string option"
  ka_cp_name :: "string option"
  ka_kvm_host :: "string option"
  ka_cp_ip :: "string option"
  ka_version :: string
  ka_timeout :: string
  ka_namespace :: string
  ka_targets :: string
  ka_dry_run :: bool

definition bench_log :: "string \<Rightarrow> ('w world, 'e, unit) action" where
  "bench_log line = eprintln (''[run-kube-bench] '' @ line)"

datatype bench_target = Master | Node

fun target_str :: "bench_target \<Rightarrow> string" where
  "target_str Master = ''master''"
| "target_str Node = ''node''"

definition job_name :: "bench_target \<Rightarrow> string" where
  "job_name t = ''kube-bench-'' @ target_str t"

definition job_url :: "bench_target \<Rightarrow> string \<Rightarrow> string" where
  "job_url t version = BASE_URL @ ''/'' @ version @ ''/job-'' @ target_str t @ ''.yaml''"

fun split_seps :: "char list \<Rightarrow> string \<Rightarrow> string \<Rightarrow> string list" where
  "split_seps cs acc [] = [rev acc]"
| "split_seps cs acc (c # s) = (if c \<in> set cs then rev acc # split_seps cs [] s else split_seps cs (c # acc) s)"

fun targets_loop :: "bench_target list \<Rightarrow> string list \<Rightarrow> (string, bench_target list) result" where
  "targets_loop out [] =
     (if out = [] then Err ''FAIL: no targets requested (expected master and/or node)'' else Ok out)"
| "targets_loop out (tok # toks) =
     (if tok = ''master'' then targets_loop (out @ [Master]) toks
      else if tok = ''node'' then targets_loop (out @ [Node]) toks
      else Err (''FAIL: unknown target '' @ quoted tok @ '' (expected master or node)''))"

definition parse_targets :: "string \<Rightarrow> (string, bench_target list) result" where
  "parse_targets raw =
     targets_loop [] (filter (\<lambda>s. s \<noteq> []) (split_seps [CHR '' '', CHR 0x09, NL, CHR '',''] [] raw))"

section \<open>Plan\<close>

record bench_plan =
  bp_target :: cp_target
  bp_cp_name :: string
  bp_version :: string
  bp_timeout :: string
  bp_namespace :: string
  bp_targets :: "bench_target list"
  bp_dry_run :: bool

definition bench_resolve_cp_ip :: "'w env \<Rightarrow> string \<Rightarrow> string option \<Rightarrow> ('w, string) act" where
  "bench_resolve_cp_ip env name kvm =
     (case kvm of
        Some h \<Rightarrow> resolve_cp_ip_via_ssh env (ssh_options_new h) h name
      | None \<Rightarrow>
          matchA (domifaddr (build_connection env None) name) (\<lambda>r.
            case r of
              Ok (Some ip) \<Rightarrow> retA (ipv4_display ip)
            | Ok None \<Rightarrow>
                failA [''kube-bench: libvirt domain '' @ quoted name @ '' has no IPv4 lease yet (queried on this host). ''
                  @ ''Set CP_IP=<ip> in your CONFIG, or export KVM_HOST=<ssh-alias> to query libvirt ''
                  @ ''on the KVM host over SSH.'']
            | Err e \<Rightarrow>
                failA [''kube-bench: could not resolve IPv4 for domain '' @ quoted name @ '' via local ''
                  @ ''`virsh domifaddr`: '' @ virt_error_display e @ ''. Set CP_IP=<ip> in your CONFIG, or export ''
                  @ ''KVM_HOST=<ssh-alias>.'']))"

definition bench_config :: "kube_bench_args \<Rightarrow> (anyhow, cluster_config) result option \<Rightarrow> (anyhow, cluster_config option) result" where
  "bench_config args parsed =
     (case parsed of
        None \<Rightarrow> Ok None
      | Some (Ok c) \<Rightarrow> Ok (Some c)
      | Some (Err chain) \<Rightarrow>
          Err [''kube-bench: failed to parse --config '' @ unwrap_or (ka_config args) [] @ '': ''
            @ (case chain of [] \<Rightarrow> [] | e # _ \<Rightarrow> e)])"

text \<open>\<open>BenchPlan::from_args\<close>; \<open>None\<close> is the exit for a bad list of targets.\<close>

definition bench_from_args ::
  "'w env \<Rightarrow> kube_bench_args \<Rightarrow> (anyhow, cluster_config) result option \<Rightarrow> ('w, bench_plan option) act" where
  "bench_from_args env args parsed =
     (case parse_targets (ka_targets args) of
        Err msg \<Rightarrow> bindA (bench_log msg) (\<lambda>_. retA None)
      | Ok targets \<Rightarrow>
          bindA (liftA (bench_config args parsed)) (\<lambda>config.
          let name = unwrap_or (or_opt (ka_cp_name args) (map_option cp_name config)) ''hummingbird-k8s'';
              kvm = filled (or_opt (ka_kvm_host args) (Option.bind config kvm_host));
              explicit_ip = filled (or_opt (filled (ka_cp_ip args)) (Option.bind config cp_ip)) in
          bindA (case explicit_ip of
                   Some ip \<Rightarrow> retA ip
                 | None \<Rightarrow> if ka_dry_run args then retA ''<resolved-at-runtime>'' else bench_resolve_cp_ip env name kvm) (\<lambda>ip.
          retA (Some \<lparr>bp_target = \<lparr>ct_cp_ip = ip, ct_kvm_host = kvm\<rparr>, bp_cp_name = name, bp_version = ka_version args,
            bp_timeout = ka_timeout args, bp_namespace = ka_namespace args, bp_targets = targets,
            bp_dry_run = ka_dry_run args\<rparr>))))"

definition ns_flag :: "bench_plan \<Rightarrow> string" where
  "ns_flag plan = ''-n '' @ bp_namespace plan"

section \<open>Report\<close>

record bench_summary =
  su_findings :: "string list"
  su_tallies :: "string list"

definition is_finding :: "string \<Rightarrow> bool" where
  "is_finding line \<longleftrightarrow> starts_with ''[FAIL]'' line \<or> starts_with ''[WARN]'' line"

definition is_tally :: "string \<Rightarrow> bool" where
  "is_tally line \<longleftrightarrow> contains ''checks PASS'' line \<or> contains ''checks FAIL'' line \<or> contains ''checks WARN'' line
     \<or> contains ''checks INFO'' line"

fun summarize_loop :: "bench_summary \<Rightarrow> string list \<Rightarrow> bench_summary" where
  "summarize_loop s [] = s"
| "summarize_loop s (line # rest) =
     (let s1 = (if is_finding line then s\<lparr>su_findings := su_findings s @ [line]\<rparr> else s);
          s2 = (if is_tally line then s1\<lparr>su_tallies := su_tallies s1 @ [line]\<rparr> else s1) in
      summarize_loop s2 rest)"

definition summarize :: "string \<Rightarrow> bench_summary" where
  "summarize all_logs = summarize_loop \<lparr>su_findings = [], su_tallies = []\<rparr> (lines all_logs)"

definition render_summary :: "bench_summary \<Rightarrow> string list" where
  "render_summary s = [[], ''=== kube-bench summary ===''] @ su_findings s @ [''---''] @ su_tallies s"

definition target_banner :: "bench_target \<Rightarrow> string" where
  "target_banner t =
     (let rule = replicate 60 (CHR 0x23) in
      rule @ [NL] @ ''# kube-bench target: '' @ target_str t @ [NL] @ rule)"

definition first_node_name :: "string \<Rightarrow> string option" where
  "first_node_name raw = find (\<lambda>l. l \<noteq> []) (map trim (lines raw))"

section \<open>Live steps\<close>

definition bench_kubectl :: "'w env \<Rightarrow> bench_plan \<Rightarrow> string \<Rightarrow> ('w, cp_exec_output) act" where
  "bench_kubectl env plan cmd =
     cp_kubectl_lenient_with_exec (ssh_run env (ct_ssh_opts (bp_target plan))) (ct_cp_ip (bp_target plan)) cmd"

definition VERSION_CMD :: string where "VERSION_CMD = ''version --request-timeout=10s''"
definition CP_NODES_CMD :: string where "CP_NODES_CMD = ''get nodes -l node-role.kubernetes.io/control-plane -o name''"

definition wipe_cmd :: "bench_plan \<Rightarrow> bench_target \<Rightarrow> string" where
  "wipe_cmd plan t = ns_flag plan @ '' delete job '' @ job_name t @ '' --ignore-not-found=true''"

definition apply_job_cmd :: "bench_plan \<Rightarrow> bench_target \<Rightarrow> string" where
  "apply_job_cmd plan t = ns_flag plan @ '' apply -f '' @ job_url t (bp_version plan)"

definition wait_job_cmd :: "bench_plan \<Rightarrow> bench_target \<Rightarrow> string" where
  "wait_job_cmd plan t =
     ns_flag plan @ '' wait --for=condition=complete --timeout='' @ bp_timeout plan @ '' job/'' @ job_name t"

definition pods_job_cmd :: "bench_plan \<Rightarrow> bench_target \<Rightarrow> string" where
  "pods_job_cmd plan t = ns_flag plan @ '' get pods -l job-name='' @ job_name t @ '' -o wide''"

definition tail_job_cmd :: "bench_plan \<Rightarrow> bench_target \<Rightarrow> string" where
  "tail_job_cmd plan t = ns_flag plan @ '' logs job/'' @ job_name t @ '' --tail=100''"

definition logs_job_cmd :: "bench_plan \<Rightarrow> bench_target \<Rightarrow> string" where
  "logs_job_cmd plan t = ns_flag plan @ '' logs job/'' @ job_name t"

definition clean_job_cmd :: "bench_plan \<Rightarrow> string \<Rightarrow> string" where
  "clean_job_cmd plan job = ns_flag plan @ '' delete job '' @ job @ '' --ignore-not-found=true --wait=false''"

definition cluster_reachable :: "'w env \<Rightarrow> bench_plan \<Rightarrow> ('w, bool) act" where
  "cluster_reachable env plan =
     matchA (bench_kubectl env plan VERSION_CMD) (\<lambda>r.
     retA (case r of Ok out \<Rightarrow> ce_success out | Err _ \<Rightarrow> False))"

definition log_control_plane_node :: "'w env \<Rightarrow> bench_plan \<Rightarrow> ('w, unit) act" where
  "log_control_plane_node env plan =
     matchA (bench_kubectl env plan CP_NODES_CMD) (\<lambda>r.
     let raw = (case r of Ok out \<Rightarrow> if ce_success out then ce_stdout out else [] | Err _ \<Rightarrow> []) in
     case first_node_name raw of
       Some node \<Rightarrow> bench_log (''control-plane node: '' @ node)
     | None \<Rightarrow> bench_log ''WARN: no node labeled node-role.kubernetes.io/control-plane found'')"

definition show_answer :: "'w env \<Rightarrow> bench_plan \<Rightarrow> string \<Rightarrow> ('w, unit) act" where
  "show_answer env plan cmd =
     matchA (bench_kubectl env plan cmd) (\<lambda>r. case r of Ok out \<Rightarrow> eprintln (ce_stdout out) | Err _ \<Rightarrow> retA ())"

definition not_complete :: "bench_plan \<Rightarrow> bench_target \<Rightarrow> string" where
  "not_complete plan t = ''['' @ target_str t @ ''] FAIL: Job did not complete within '' @ bp_timeout plan"

definition apply_target :: "'w env \<Rightarrow> bench_plan \<Rightarrow> bench_target \<Rightarrow> ('w, unit) act" where
  "apply_target env plan t =
     matchA (bench_kubectl env plan (wipe_cmd plan t)) (\<lambda>_.
     bindA (bench_log (''['' @ target_str t @ ''] applying '' @ job_url t (bp_version plan))) (\<lambda>_.
     bindA (bench_kubectl env plan (apply_job_cmd plan t)) (\<lambda>applied.
     bindA (whenA (ce_stdout applied \<noteq> []) (eprintln (ce_stdout applied))) (\<lambda>_.
     if \<not> ce_success applied then
       bindA (eprintln (ce_stderr applied)) (\<lambda>_.
       failA [''['' @ target_str t @ ''] FAIL: could not apply '' @ job_url t (bp_version plan)])
     else retA ()))))"

definition wait_target :: "'w env \<Rightarrow> bench_plan \<Rightarrow> bench_target \<Rightarrow> ('w, unit) act" where
  "wait_target env plan t =
     bindA (bench_log (''['' @ target_str t @ ''] waiting up to '' @ bp_timeout plan @ '' for Job/'' @ job_name t)) (\<lambda>_.
     bindA (bench_kubectl env plan (wait_job_cmd plan t)) (\<lambda>waited.
     if \<not> ce_success waited then
       bindA (bench_log (not_complete plan t)) (\<lambda>_.
       bindA (bench_log (''['' @ target_str t @ ''] --- pod status ---'')) (\<lambda>_.
       bindA (show_answer env plan (pods_job_cmd plan t)) (\<lambda>_.
       bindA (bench_log (''['' @ target_str t @ ''] --- last logs ---'')) (\<lambda>_.
       bindA (show_answer env plan (tail_job_cmd plan t)) (\<lambda>_.
       failA [not_complete plan t])))))
     else retA ()))"

definition no_logs :: "bench_target \<Rightarrow> string" where
  "no_logs t = ''['' @ target_str t @ ''] FAIL: kube-bench produced no log output''"

definition log_block :: "bench_target \<Rightarrow> string \<Rightarrow> string" where
  "log_block t log_text = target_banner t @ [NL] @ trim_end_matches NL log_text @ [NL, NL]"

definition fetch_target :: "'w env \<Rightarrow> bench_plan \<Rightarrow> bench_target \<Rightarrow> ('w, string) act" where
  "fetch_target env plan t =
     bindA (bench_log (''['' @ target_str t @ ''] fetching logs'')) (\<lambda>_.
     bindA (bench_kubectl env plan (logs_job_cmd plan t)) (\<lambda>out.
     if trim (ce_stdout out) = [] then
       bindA (bench_log (no_logs t)) (\<lambda>_. failA [no_logs t])
     else retA (log_block t (ce_stdout out))))"

definition run_target :: "'w env \<Rightarrow> bench_plan \<Rightarrow> bench_target \<Rightarrow> ('w, string) act" where
  "run_target env plan t =
     bindA (apply_target env plan t) (\<lambda>_.
     bindA (wait_target env plan t) (\<lambda>_.
     fetch_target env plan t))"

definition cleanup :: "'w env \<Rightarrow> bench_plan \<Rightarrow> string list \<Rightarrow> ('w, unit) act" where
  "cleanup env plan created =
     forA created (\<lambda>job.
       bindA (bench_log (''cleaning up Job/'' @ job @ '' in ns/'' @ bp_namespace plan)) (\<lambda>_.
       matchA (bench_kubectl env plan (clean_job_cmd plan job)) (\<lambda>_. retA ())))"

text \<open>The loop of \<open>run_all_with_exec\<close>: the jobs it tried to create, and the logs or the first error.\<close>

fun bench_loop ::
  "'w env \<Rightarrow> bench_plan \<Rightarrow> bench_target list \<Rightarrow> string list \<Rightarrow> string \<Rightarrow> ('w, string list \<times> (anyhow, string) result) act" where
  "bench_loop env plan [] created all_logs = retA (created, Ok all_logs)"
| "bench_loop env plan (t # ts) created all_logs =
     matchA (run_target env plan t) (\<lambda>r.
       case r of
         Ok block \<Rightarrow> bindA (println block) (\<lambda>_. bench_loop env plan ts (created @ [job_name t]) (all_logs @ block))
       | Err e \<Rightarrow> retA (created @ [job_name t], Err e))"

definition bench_run_all :: "'w env \<Rightarrow> bench_plan \<Rightarrow> ('w, string) act" where
  "bench_run_all env plan =
     bindA (bench_loop env plan (bp_targets plan) [] []) (\<lambda>outcome.
     bindA (cleanup env plan (fst outcome)) (\<lambda>_. liftA (snd outcome)))"

section \<open>Dry run and command\<close>

definition target_lines :: "bench_plan \<Rightarrow> bench_target \<Rightarrow> string list" where
  "target_lines plan t =
     map (\<lambda>cmd. ''DRY-RUN would run: kubectl '' @ cmd)
       [wipe_cmd plan t, apply_job_cmd plan t, wait_job_cmd plan t, logs_job_cmd plan t]"

definition bench_dry_run_plan :: "bench_plan \<Rightarrow> string list" where
  "bench_dry_run_plan plan =
     [''DRY-RUN kube-bench version: '' @ bp_version plan,
      ''DRY-RUN cp: '' @ ct_cp_ip (bp_target plan) @ '' ('' @ bp_cp_name plan @ '')''
        @ (case ct_kvm_host (bp_target plan) of Some h \<Rightarrow> '' via '' @ h | None \<Rightarrow> []),
      ''DRY-RUN namespace: '' @ bp_namespace plan,
      ''DRY-RUN timeout:   '' @ bp_timeout plan,
      ''DRY-RUN targets:   '' @ join '' '' (map target_str (bp_targets plan)),
      ''DRY-RUN would run: kubectl version --request-timeout=10s'',
      ''DRY-RUN would run: kubectl get nodes -l node-role.kubernetes.io/control-plane -o name'']
     @ concat (map (target_lines plan) (bp_targets plan))
     @ map (\<lambda>t. ''DRY-RUN cleanup:   kubectl '' @ clean_job_cmd plan (job_name t)) (bp_targets plan)"

definition bench_live :: "'w env \<Rightarrow> bench_plan \<Rightarrow> ('w, run_end) act" where
  "bench_live env plan =
     bindA (cluster_reachable env plan) (\<lambda>up.
     if \<not> up then
       bindA (bench_log (''FAIL: kubectl can't reach the cluster (cp_ip='' @ ct_cp_ip (bp_target plan) @ '')'')) (\<lambda>_.
       bindA (bench_log ''      try: hbird kube-bench --config <conf> --kvm-host <host>'') (\<lambda>_.
       retA (ExitCode EXIT_PRECONDITION)))
     else
       bindA (log_control_plane_node env plan) (\<lambda>_.
       bindA (bench_run_all env plan) (\<lambda>all_logs.
       bindA (forA (render_summary (summarize all_logs)) eprintln) (\<lambda>_.
       bindA (bench_log ''done'') (\<lambda>_. retA Finished)))))"

definition kube_bench_run ::
  "'w env \<Rightarrow> kube_bench_args \<Rightarrow> (anyhow, cluster_config) result option \<Rightarrow> ('w, run_end) act" where
  "kube_bench_run env args parsed =
     bindA (bench_from_args env args parsed) (\<lambda>planned.
     case planned of
       None \<Rightarrow> retA (ExitCode EXIT_PRECONDITION)
     | Some plan \<Rightarrow>
         bindA (bench_log (''kube-bench version: '' @ bp_version plan)) (\<lambda>_.
         bindA (bench_log (''kubectl:           ssh root@'' @ ct_cp_ip (bp_target plan) @ '' kubectl (via hbird cp_kubectl shim)'')) (\<lambda>_.
         bindA (bench_log (''namespace:         '' @ bp_namespace plan)) (\<lambda>_.
         bindA (bench_log (''targets:           '' @ join '' '' (map target_str (bp_targets plan)))) (\<lambda>_.
         if bp_dry_run plan then bindA (forA (bench_dry_run_plan plan) bench_log) (\<lambda>_. retA Finished)
         else bench_live env plan)))))"

end
