(* ===== verification/Bench_Safety.thy ===== *)
theory Bench_Safety
  imports Event_Scripts Kube_Events Kube_Bench
begin

text \<open>
  What a run of the benchmark does, as the exact script of its events: the jobs of the targets one after the other, the
  log blocks on stdout, and a delete for every job it started, however it ends.
\<close>

section \<open>Calls\<close>

abbreviation bench_event :: "bench_plan \<Rightarrow> string \<Rightarrow> (ssh_error, run_output) result \<Rightarrow> event" where
  "bench_event plan c \<equiv> SshRun (ct_ssh_opts (bp_target plan)) (kubectl_remote c)"

abbreviation bench_line :: "string \<Rightarrow> event" where
  "bench_line s \<equiv> Stderr (''[run-kube-bench] '' @ s)"

text \<open>The answers to a command: one, unless the metacharacter filter refuses the command.\<close>

definition asked :: "string \<Rightarrow> 'a list \<Rightarrow> bool" where
  "asked c answers \<longleftrightarrow> length answers = (if is_ok (reject_shell_metachars ''cp_kubectl_lenient'' c) then 1 else 0)"

definition bench_call ::
  "bench_plan \<Rightarrow> string \<Rightarrow> (anyhow, cp_exec_output) result \<Rightarrow> event list \<Rightarrow> bool" where
  "bench_call plan c r evs \<longleftrightarrow>
     (\<exists>answers. asked c answers \<and> evs = map (bench_event plan c) answers
        \<and> (case r of Ok out \<Rightarrow> \<exists>a. answers = [a] \<and> folded a = Some out | Err e \<Rightarrow> True))"

lemma bench_kubectl_call: "yields (bench_kubectl env plan c) (bench_call plan c)"
proof (cases "reject_shell_metachars ''cp_kubectl_lenient'' c")
  case (Err e)
  then show ?thesis
    unfolding bench_kubectl_def cp_kubectl_lenient_with_exec_def
    by (simp add: yields_fail bench_call_def asked_def)
next
  case (Ok u)
  have fold: "yields (fold_exit (ssh_run env opts k) ctx) (\<lambda>r evs. \<exists>a. evs = [SshRun opts k a]
      \<and> (case r of Ok out \<Rightarrow> folded a = Some out | Err e \<Rightarrow> True))" for opts k ctx
    unfolding fold_exit_def
  proof (rule yields_match [where P = "\<lambda>r evs. evs = [SshRun opts k r]"])
    show "yields (ssh_run env opts k) (\<lambda>r evs. evs = [SshRun opts k r])"
      by (simp add: yields_def ssh_run_def ssh_run_in_def split_beta)
  next
    fix r :: "(ssh_error, run_output) result" and e1 assume "e1 = [SshRun opts k r]"
    then show "yields (case r of Ok out \<Rightarrow> retA \<lparr>ce_success = True, ce_stdout = ro_stdout out, ce_stderr = ro_stderr out\<rparr>
        | Err (NonZeroExit h status out err) \<Rightarrow> retA \<lparr>ce_success = False, ce_stdout = out, ce_stderr = err\<rparr>
        | Err e \<Rightarrow> failA (ctx # from_ssh e))
        (\<lambda>x e2. \<exists>a. e1 @ e2 = [SshRun opts k a] \<and> (case x of Ok out \<Rightarrow> folded a = Some out | Err e \<Rightarrow> True))"
      by (cases r rule: folded.cases) (auto intro!: yields_ret yields_fail)
  qed
  from Ok show ?thesis
    unfolding bench_kubectl_def cp_kubectl_lenient_with_exec_def
    by (simp, intro yields_weaken [OF fold]) (auto simp: bench_call_def asked_def intro: exI [of _ "[x]" for x] split: result.splits)
qed

lemma yields_log: "yields (f ()) (\<lambda>x evs. Q x (bench_line s # evs)) \<Longrightarrow> yields (bindA (bench_log s) f) Q"
  unfolding bench_log_def by (rule yields_say)

section \<open>The script of a target\<close>

definition applied_script :: "bench_plan \<Rightarrow> bench_target \<Rightarrow> event list \<Rightarrow> bool" where
  "applied_script plan t evs \<longleftrightarrow>
     (\<exists>wiped out. asked (wipe_cmd plan t) wiped
        \<and> evs = map (bench_event plan (wipe_cmd plan t)) wiped
            @ [bench_line (''['' @ target_str t @ ''] applying '' @ job_url t (bp_version plan)),
               bench_event plan (apply_job_cmd plan t) (Ok out)]
            @ (if ro_stdout out = [] then [] else [Stderr (ro_stdout out)]))"

definition waited_script :: "bench_plan \<Rightarrow> bench_target \<Rightarrow> event list \<Rightarrow> bool" where
  "waited_script plan t evs \<longleftrightarrow>
     (\<exists>out. evs = [bench_line (''['' @ target_str t @ ''] waiting up to '' @ bp_timeout plan @ '' for Job/'' @ job_name t),
        bench_event plan (wait_job_cmd plan t) (Ok out)])"

definition fetched_script :: "bench_plan \<Rightarrow> bench_target \<Rightarrow> string \<Rightarrow> event list \<Rightarrow> bool" where
  "fetched_script plan t block evs \<longleftrightarrow>
     (\<exists>a out. evs = [bench_line (''['' @ target_str t @ ''] fetching logs''), bench_event plan (logs_job_cmd plan t) a]
        \<and> folded a = Some out \<and> trim (ce_stdout out) \<noteq> [] \<and> block = log_block t (ce_stdout out))"

text \<open>A target that went through: applied, complete, logs fetched, and the block printed.\<close>

definition target_script :: "bench_plan \<Rightarrow> bench_target \<Rightarrow> string \<times> event list \<Rightarrow> bool" where
  "target_script plan t = (\<lambda>(block, evs).
     \<exists>a b c. applied_script plan t a \<and> waited_script plan t b \<and> fetched_script plan t block c \<and> evs = a @ b @ c @ [Stdout block])"

text \<open>An event of a target that did not: a line on stderr, or one of its commands.\<close>

definition job_event :: "bench_plan \<Rightarrow> bench_target \<Rightarrow> event \<Rightarrow> bool" where
  "job_event plan t ev \<longleftrightarrow>
     (\<exists>s. ev = Stderr s)
     \<or> (\<exists>c a. ev = bench_event plan c a
          \<and> c \<in> {wipe_cmd plan t, apply_job_cmd plan t, wait_job_cmd plan t, pods_job_cmd plan t, tail_job_cmd plan t, logs_job_cmd plan t})"

fun cleans :: "bench_plan \<Rightarrow> string list \<Rightarrow> event list \<Rightarrow> bool" where
  "cleans plan [] evs \<longleftrightarrow> evs = []"
| "cleans plan (job # jobs) evs \<longleftrightarrow>
     (\<exists>answers rest. asked (clean_job_cmd plan job) answers \<and> cleans plan jobs rest
        \<and> evs = bench_line (''cleaning up Job/'' @ job @ '' in ns/'' @ bp_namespace plan)
                # map (bench_event plan (clean_job_cmd plan job)) answers @ rest)"

abbreviation jobs_only :: "bench_plan \<Rightarrow> bench_target \<Rightarrow> event list \<Rightarrow> bool" where
  "jobs_only plan t \<equiv> list_all (job_event plan t)"

lemma call_jobs:
  assumes "bench_call plan c r evs"
    "c \<in> {wipe_cmd plan t, apply_job_cmd plan t, wait_job_cmd plan t, pods_job_cmd plan t, tail_job_cmd plan t, logs_job_cmd plan t}"
  shows "jobs_only plan t evs"
proof -
  obtain answers where "evs = map (bench_event plan c) answers" using assms(1) by (auto simp: bench_call_def)
  moreover have "job_event plan t (bench_event plan c a)" for a
    unfolding job_event_def using assms(2) by blast
  ultimately show ?thesis by (simp add: list_all_iff)
qed

lemma call_success:
  assumes "bench_call plan c (Ok out) evs" "ce_success out"
  shows "\<exists>x. evs = [bench_event plan c (Ok x)] \<and> ce_stdout out = ro_stdout x"
proof -
  from assms(1) obtain a where a: "evs = [bench_event plan c a]" "folded a = Some out" by (auto simp: bench_call_def)
  with assms(2) show ?thesis by (cases a rule: folded.cases) auto
qed

lemma line_job [simp]: "job_event plan t (Stderr s)"
  by (simp add: job_event_def)

lemma apply_target_script:
  "yields (apply_target env plan t) (\<lambda>r evs. jobs_only plan t evs \<and> (case r of Ok _ \<Rightarrow> applied_script plan t evs | Err _ \<Rightarrow> True))"
  unfolding apply_target_def
proof (rule yields_match [OF bench_kubectl_call], rule yields_log, rule yields_bind [OF bench_kubectl_call])
  fix r e1 out e2
  assume wipe: "bench_call plan (wipe_cmd plan t) r e1" and app: "bench_call plan (apply_job_cmd plan t) (Ok out) e2"
  let ?say = "bench_line (''['' @ target_str t @ ''] applying '' @ job_url t (bp_version plan))"
  have jobs: "jobs_only plan t (e1 @ ?say # e2 @ map Stderr ss)" for ss
    using call_jobs [OF wipe, of t] call_jobs [OF app, of t] by (simp add: list.pred_map o_def list.pred_True)
  obtain wiped where wiped: "asked (wipe_cmd plan t) wiped" "e1 = map (bench_event plan (wipe_cmd plan t)) wiped"
    using wipe by (auto simp: bench_call_def)
  let ?shown = "if ce_stdout out \<noteq> [] then [ce_stdout out] else []"
  have app_ok: "applied_script plan t (e1 @ ?say # e2 @ map Stderr ?shown)" if "ce_success out"
    using call_success [OF app that] wiped unfolding applied_script_def by (auto intro!: exI [of _ wiped])
  show "yields (bindA (whenA (ce_stdout out \<noteq> []) (eprintln (ce_stdout out))) (\<lambda>_.
      if \<not> ce_success out then
        bindA (eprintln (ce_stderr out)) (\<lambda>_. failA [''['' @ target_str t @ ''] FAIL: could not apply '' @ job_url t (bp_version plan)])
      else retA ()))
    (\<lambda>x e3. jobs_only plan t (e1 @ ?say # e2 @ e3) \<and> (case x of Ok _ \<Rightarrow> applied_script plan t (e1 @ ?say # e2 @ e3) | Err _ \<Rightarrow> True))"
  proof (rule yields_then [where P = "\<lambda>evs. evs = map Stderr ?shown"])
    show "yields (whenA (ce_stdout out \<noteq> []) (eprintln (ce_stdout out))) (\<lambda>r evs. \<exists>a. r = Ok a \<and> evs = map Stderr ?shown)"
      by (simp add: whenA_def yields_emit yields_ret)
  next
    fix e3 :: "event list" and u assume e3: "e3 = map Stderr ?shown"
    show "yields (if \<not> ce_success out then
        bindA (eprintln (ce_stderr out)) (\<lambda>_. failA [''['' @ target_str t @ ''] FAIL: could not apply '' @ job_url t (bp_version plan)])
      else retA ())
      (\<lambda>x e4. jobs_only plan t (e1 @ ?say # e2 @ e3 @ e4) \<and> (case x of Ok _ \<Rightarrow> applied_script plan t (e1 @ ?say # e2 @ e3 @ e4) | Err _ \<Rightarrow> True))"
    proof (cases "ce_success out")
      case True
      with app_ok jobs [of ?shown] e3 show ?thesis by (auto intro!: yields_ret)
    next
      case False
      with jobs [of "?shown @ [ce_stderr out]"] e3 show ?thesis by (auto intro!: yields_say yields_fail)
    qed
  qed
qed (use call_jobs in \<open>simp\<close>)

lemma show_answer_yields:
  assumes "c \<in> {pods_job_cmd plan t, tail_job_cmd plan t}"
  shows "yields (show_answer env plan c) (\<lambda>r evs. \<exists>u. r = Ok u \<and> jobs_only plan t evs)"
  unfolding show_answer_def
proof (rule yields_match [OF bench_kubectl_call])
  fix r e1 assume "bench_call plan c r e1"
  from call_jobs [OF this, of t] assms have "jobs_only plan t e1" by auto
  then show "yields (case r of Ok out \<Rightarrow> eprintln (ce_stdout out) | Err x \<Rightarrow> retA ()) (\<lambda>x e2. \<exists>u. x = Ok u \<and> jobs_only plan t (e1 @ e2))"
    by (cases r) (auto intro!: yields_emit yields_ret)
qed

lemma wait_target_script:
  "yields (wait_target env plan t) (\<lambda>r evs. jobs_only plan t evs \<and> (case r of Ok _ \<Rightarrow> waited_script plan t evs | Err _ \<Rightarrow> True))"
  unfolding wait_target_def
proof (rule yields_log, rule yields_bind [OF bench_kubectl_call])
  fix out e1 assume call: "bench_call plan (wait_job_cmd plan t) (Ok out) e1"
  have jobs: "jobs_only plan t e1" by (rule call_jobs [OF call]) simp
  let ?say = "bench_line (''['' @ target_str t @ ''] waiting up to '' @ bp_timeout plan @ '' for Job/'' @ job_name t)"
  show "yields (if \<not> ce_success out then
       bindA (bench_log (not_complete plan t)) (\<lambda>_.
       bindA (bench_log (''['' @ target_str t @ ''] --- pod status ---'')) (\<lambda>_.
       bindA (show_answer env plan (pods_job_cmd plan t)) (\<lambda>_.
       bindA (bench_log (''['' @ target_str t @ ''] --- last logs ---'')) (\<lambda>_.
       bindA (show_answer env plan (tail_job_cmd plan t)) (\<lambda>_.
       failA [not_complete plan t])))))
     else retA ())
     (\<lambda>r e2. jobs_only plan t (?say # e1 @ e2) \<and> (case r of Ok _ \<Rightarrow> waited_script plan t (?say # e1 @ e2) | Err _ \<Rightarrow> True))"
  proof (cases "ce_success out")
    case True
    from call_success [OF call True] obtain x where "e1 = [bench_event plan (wait_job_cmd plan t) (Ok x)]" by blast
    with True jobs show ?thesis by (auto intro!: yields_ret simp: waited_script_def)
  next
    case False
    have "yields (bindA (bench_log (not_complete plan t)) (\<lambda>_.
       bindA (bench_log (''['' @ target_str t @ ''] --- pod status ---'')) (\<lambda>_.
       bindA (show_answer env plan (pods_job_cmd plan t)) (\<lambda>_.
       bindA (bench_log (''['' @ target_str t @ ''] --- last logs ---'')) (\<lambda>_.
       bindA (show_answer env plan (tail_job_cmd plan t)) (\<lambda>_.
       failA [not_complete plan t])))))) (\<lambda>r e2. jobs_only plan t e2 \<and> (\<exists>e. r = Err e))"
      by (rule yields_log, rule yields_log, rule yields_then [OF show_answer_yields [where t = t]], simp, rule yields_log,
          rule yields_then [OF show_answer_yields [where t = t]], simp, rule yields_fail) simp
    with False jobs show ?thesis by (auto elim!: yields_weaken)
  qed
qed (use call_jobs in \<open>simp\<close>)

lemma fetch_target_script:
  "yields (fetch_target env plan t)
     (\<lambda>r evs. jobs_only plan t evs \<and> (case r of Ok block \<Rightarrow> fetched_script plan t block evs | Err _ \<Rightarrow> True))"
  unfolding fetch_target_def
proof (rule yields_log, rule yields_bind [OF bench_kubectl_call])
  fix out e1 assume call: "bench_call plan (logs_job_cmd plan t) (Ok out) e1"
  have jobs: "jobs_only plan t e1" by (rule call_jobs [OF call]) simp
  obtain a where "e1 = [bench_event plan (logs_job_cmd plan t) a]" "folded a = Some out" using call by (auto simp: bench_call_def)
  with jobs show "yields (if trim (ce_stdout out) = [] then bindA (bench_log (no_logs t)) (\<lambda>_. failA [no_logs t])
      else retA (log_block t (ce_stdout out)))
     (\<lambda>r e2. jobs_only plan t (bench_line (''['' @ target_str t @ ''] fetching logs'') # e1 @ e2)
       \<and> (case r of Ok block \<Rightarrow> fetched_script plan t block (bench_line (''['' @ target_str t @ ''] fetching logs'') # e1 @ e2) | Err _ \<Rightarrow> True))"
    by (auto intro!: yields_ret yields_log yields_fail simp: fetched_script_def)
qed (use call_jobs in \<open>simp\<close>)

definition fetched_target :: "bench_plan \<Rightarrow> bench_target \<Rightarrow> string \<Rightarrow> event list \<Rightarrow> bool" where
  "fetched_target plan t block evs \<longleftrightarrow>
     (\<exists>a b c. applied_script plan t a \<and> waited_script plan t b \<and> fetched_script plan t block c \<and> evs = a @ b @ c)"

lemma run_target_script:
  "yields (run_target env plan t)
     (\<lambda>r evs. jobs_only plan t evs \<and> (case r of Ok block \<Rightarrow> fetched_target plan t block evs | Err _ \<Rightarrow> True))"
  unfolding run_target_def
proof (rule yields_bind [OF apply_target_script], rule yields_bind [OF wait_target_script])
  fix u a v b
  assume "jobs_only plan t a \<and> (case Ok u of Ok _ \<Rightarrow> applied_script plan t a | Err _ \<Rightarrow> True)"
    "jobs_only plan t b \<and> (case Ok v of Ok _ \<Rightarrow> waited_script plan t b | Err _ \<Rightarrow> True)"
  then show "yields (fetch_target env plan t) (\<lambda>r c. jobs_only plan t (a @ b @ c)
      \<and> (case r of Ok block \<Rightarrow> fetched_target plan t block (a @ b @ c) | Err _ \<Rightarrow> True))"
    by (intro yields_weaken [OF fetch_target_script]) (auto simp: fetched_target_def split: result.splits)
qed auto

lemma cleanup_script: "yields (cleanup env plan jobs) (\<lambda>r evs. r = Ok () \<and> cleans plan jobs evs)"
  unfolding cleanup_def
proof (induction jobs)
  case (Cons job jobs)
  have one: "yields (bindA (bench_log (''cleaning up Job/'' @ job @ '' in ns/'' @ bp_namespace plan)) (\<lambda>_.
       matchA (bench_kubectl env plan (clean_job_cmd plan job)) (\<lambda>_. retA ())))
      (\<lambda>r evs. \<exists>u. r = Ok u \<and> (\<exists>answers. asked (clean_job_cmd plan job) answers
         \<and> evs = bench_line (''cleaning up Job/'' @ job @ '' in ns/'' @ bp_namespace plan) # map (bench_event plan (clean_job_cmd plan job)) answers))"
    by (rule yields_log, rule yields_match [OF bench_kubectl_call], rule yields_ret) (auto simp: bench_call_def)
  show ?case unfolding forA.simps
    by (rule yields_then [OF one], rule yields_weaken [OF Cons.IH]) auto
next
  case Nil
  show ?case unfolding forA.simps by (rule yields_ret) simp
qed

section \<open>The whole run\<close>

definition bench_outcome ::
  "bench_plan \<Rightarrow> bench_target list \<Rightarrow> (anyhow, string) result \<Rightarrow> bench_target list \<Rightarrow> event list \<Rightarrow> bool" where
  "bench_outcome plan ts r started evs \<longleftrightarrow>
     (case r of
        Ok report \<Rightarrow>
          \<exists>parts. list_all2 (target_script plan) ts parts \<and> started = ts
            \<and> report = concat (map fst parts) \<and> evs = concat (map snd parts)
      | Err e \<Rightarrow>
          \<exists>good bad more parts last_part. ts = good @ bad # more \<and> started = good @ [bad] \<and> list_all2 (target_script plan) good parts
            \<and> jobs_only plan bad last_part \<and> evs = concat (map snd parts) @ last_part)"

fun map_ok :: "('a \<Rightarrow> 'b) \<Rightarrow> ('e, 'a) result \<Rightarrow> ('e, 'b) result" where
  "map_ok f (Ok a) = Ok (f a)"
| "map_ok f (Err e) = Err e"

lemma map_ok_comp: "map_ok ((@) (a @ b)) r = map_ok ((@) a) (map_ok ((@) b) r)"
  by (cases r) simp_all

lemma outcome_Cons:
  assumes "target_script plan t (block, seg)" "bench_outcome plan ts r started evs"
  shows "bench_outcome plan (t # ts) (map_ok ((@) block) r) (t # started) (seg @ evs)"
proof (cases r)
  case (Ok rep)
  with assms(2) obtain parts where "list_all2 (target_script plan) ts parts" "started = ts"
      "rep = concat (map fst parts)" "evs = concat (map snd parts)" by (auto simp: bench_outcome_def)
  with Ok assms(1) show ?thesis by (auto simp: bench_outcome_def intro!: exI [of _ "(block, seg) # parts"])
next
  case (Err e)
  with assms(2) obtain good bad more parts last_part where "ts = good @ bad # more" "started = good @ [bad]"
      "list_all2 (target_script plan) good parts" "jobs_only plan bad last_part" "evs = concat (map snd parts) @ last_part"
    by (auto simp: bench_outcome_def)
  with Err assms(1) show ?thesis unfolding bench_outcome_def
    by (simp, intro exI [of _ "t # good"] exI [of _ bad] conjI exI [of _ more] exI [of _ "(block, seg) # parts"]
        exI [of _ last_part]) auto
qed

lemma bench_loop_script:
  "yields (bench_loop env plan ts created report)
     (\<lambda>x evs. \<exists>r started. x = Ok (created @ map job_name started, map_ok ((@) report) r) \<and> bench_outcome plan ts r started evs)"
proof (induction ts arbitrary: created report)
  case Nil
  show ?case unfolding bench_loop.simps
    by (rule yields_ret) (auto simp: bench_outcome_def intro!: exI [of _ "Ok []"])
next
  case (Cons t ts)
  show ?case unfolding bench_loop.simps
  proof (rule yields_match [OF run_target_script])
    fix r1 :: "(anyhow, string) result" and e1
    assume r1: "jobs_only plan t e1 \<and> (case r1 of Ok block \<Rightarrow> fetched_target plan t block e1 | Err _ \<Rightarrow> True)"
    show "yields (case r1 of Ok block \<Rightarrow> bindA (println block) (\<lambda>_. bench_loop env plan ts (created @ [job_name t]) (report @ block))
        | Err e \<Rightarrow> retA (created @ [job_name t], Err e))
      (\<lambda>x e2. \<exists>r started. x = Ok (created @ map job_name started, map_ok ((@) report) r) \<and> bench_outcome plan (t # ts) r started (e1 @ e2))"
    proof (cases r1)
      case (Err e)
      have "bench_outcome plan (t # ts) (Err e) [t] (e1 @ [])"
        using r1 unfolding bench_outcome_def by (auto intro!: exI [of _ "[]"])
      with Err show ?thesis by (auto intro!: yields_ret exI [of _ "Err e"] exI [of _ "[t]"])
    next
      case (Ok block)
      from r1 Ok have "target_script plan t (block, e1 @ [Stdout block])"
        by (auto simp: fetched_target_def target_script_def)
      note more = outcome_Cons [OF this]
      show ?thesis unfolding Ok result.case
      proof (rule yields_say, rule yields_weaken [OF Cons.IH])
        fix x evs
        assume "\<exists>r started. x = Ok ((created @ [job_name t]) @ map job_name started, map_ok ((@) (report @ block)) r)
          \<and> bench_outcome plan ts r started evs"
        then obtain r started where "x = Ok ((created @ [job_name t]) @ map job_name started, map_ok ((@) (report @ block)) r)"
          "bench_outcome plan ts r started evs" by blast
        then show "\<exists>r started. x = Ok (created @ map job_name started, map_ok ((@) report) r)
            \<and> bench_outcome plan (t # ts) r started (e1 @ Stdout block # evs)"
          using more [of ts r started evs] by (intro exI [of _ "map_ok ((@) block) r"] exI [of _ "t # started"]) (simp add: map_ok_comp)
      qed
    qed
  qed
qed

text \<open>C30. A benchmark run is its script. The jobs are run one target after the other (wiped, applied, complete, logs fetched,
  block printed) up to the first that fails; then every job that was started is deleted, whatever the outcome. On success the
  report is the printed blocks of all targets in order, each the banner and the non-blank log of its job; a failure comes from
  the last target that was started.\<close>

theorem bench_run_script:
  "\<exists>started evs clean. w_trace (snd (bench_run_all env plan w)) = w_trace w @ evs @ clean
     \<and> bench_outcome plan (bp_targets plan) (fst (bench_run_all env plan w)) started evs
     \<and> cleans plan (map job_name started) clean"
proof -
  have "yields (bench_run_all env plan)
      (\<lambda>r all. \<exists>started evs clean. all = evs @ clean \<and> bench_outcome plan (bp_targets plan) r started evs
        \<and> cleans plan (map job_name started) clean)"
    unfolding bench_run_all_def
  proof (rule yields_bind [OF bench_loop_script])
    fix outcome e1
    assume "\<exists>r started. Ok outcome = Ok ([] @ map job_name started, map_ok ((@) []) r) \<and> bench_outcome plan (bp_targets plan) r started e1"
    moreover have "map_ok ((@) []) r = r" for r :: "(anyhow, string) result" by (cases r) simp_all
    ultimately obtain started where o: "fst outcome = map job_name started" "bench_outcome plan (bp_targets plan) (snd outcome) started e1"
      by auto
    show "yields (bindA (cleanup env plan (fst outcome)) (\<lambda>_. liftA (snd outcome)))
        (\<lambda>r e2. \<exists>started evs clean. e1 @ e2 = evs @ clean \<and> bench_outcome plan (bp_targets plan) r started evs
          \<and> cleans plan (map job_name started) clean)"
      unfolding o(1)
      by (rule yields_bind [OF cleanup_script], rule yields_lift)
        (use o(2) in \<open>simp_all, blast\<close>)
  qed auto
  from yieldsD [OF this, of w] show ?thesis by auto
qed

end
