(* ===== verification/Passthrough.thy ===== *)
theory Passthrough
  imports Etcd
begin

text \<open>
  \<open>hbird kubectl\<close> (\<open>commands/kubectl.rs\<close>) and \<open>hbird nodes\<close> (\<open>commands/nodes.rs\<close>): one \<open>kubectl\<close> command on the control
  plane, its output and its exit status handed on. The configuration is what \<open>hbird_config::parse\<close> gave; a write to
  the local streams does not fail.
\<close>

section \<open>The call and its status\<close>

text \<open>\<open>cp_kubectl_raw\<close> with the SSH error kept as a value, which \<open>downcast_ref\<close> finds in the chain.\<close>

definition kubectl_call :: "'w env \<Rightarrow> cp_target \<Rightarrow> string \<Rightarrow> ('w, (ssh_error, run_output) result) act" where
  "kubectl_call env target command =
     bindA (liftA (reject_shell_metachars ''cp_kubectl_raw'' command)) (\<lambda>_.
     matchA (ssh_run env (ct_ssh_opts target) (kubectl_remote command)) retA)"

definition kubectl_ctx :: "cp_target \<Rightarrow> string \<Rightarrow> string" where
  "kubectl_ctx target command =
     ''cp_kubectl_raw: ssh-run failed for `kubectl ... '' @ command @ ''` against '' @ ct_cp_ip target"

lemma cp_kubectl_raw_call:
  "cp_kubectl_raw env target command =
     bindA (kubectl_call env target command) (\<lambda>r. liftA (with_context (kubectl_ctx target command) (map_err from_ssh r)))"
  unfolding cp_kubectl_raw_def cp_kubectl_raw_with_exec_def kubectl_call_def ssh_ctx_def kubectl_ctx_def
  by (rule ext) (simp add: bindA_def matchA_def retA_def liftA_def split: prod.splits result.splits)

text \<open>\<open>propagate_kubectl_exit_or_bail\<close> after a failed call.\<close>

fun propagate_kubectl_exit_or_bail :: "string \<Rightarrow> ssh_error \<Rightarrow> ('w, run_end) act" where
  "propagate_kubectl_exit_or_bail ctx (NonZeroExit h status out err) =
     bindA (println out) (\<lambda>_.
     bindA (eprintln err) (\<lambda>_.
     retA (ExitCode (case exit_code status of Some n \<Rightarrow> n | None \<Rightarrow> 1))))"
| "propagate_kubectl_exit_or_bail ctx e = failA (ctx # from_ssh e)"

text \<open>What both commands do with the answer.\<close>

definition forward :: "'w env \<Rightarrow> cp_target \<Rightarrow> string \<Rightarrow> ('w, run_end) act" where
  "forward env target command =
     bindA (kubectl_call env target command) (\<lambda>r.
     case r of
       Ok out \<Rightarrow>
         bindA (println (ro_stdout out)) (\<lambda>_.
         bindA (eprintln (ro_stderr out)) (\<lambda>_. retA Finished))
     | Err e \<Rightarrow> propagate_kubectl_exit_or_bail (kubectl_ctx target command) e)"

section \<open>kubectl\<close>

record kubectl_args =
  kb_config :: "string option"
  kb_cp_name :: "string option"
  kb_cp_ip :: "string option"
  kb_kvm_host :: "string option"
  kb_args :: "string list"

definition CP_NAME_REQUIRED :: string where
  "CP_NAME_REQUIRED =
     ''CP_NAME required (set in --config <cluster.local.conf>, or pass --cp-name / CP_NAME env)''"

definition kubectl_resolve_target ::
  "'w env \<Rightarrow> kubectl_args \<Rightarrow> (anyhow, cluster_config) result option \<Rightarrow> ('w, cp_target) act" where
  "kubectl_resolve_target env args parsed =
     bindA (case parsed of None \<Rightarrow> retA None | Some r \<Rightarrow> bindA (liftA r) (\<lambda>c. retA (Some c))) (\<lambda>config.
     bindA (liftA (ok_or [CP_NAME_REQUIRED] (or_opt (kb_cp_name args) (map_option cp_name config)))) (\<lambda>name.
     let kvm = filled (or_opt (kb_kvm_host args) (Option.bind config kvm_host)) in
     bindA (case filled (kb_cp_ip args) of
              Some ip \<Rightarrow> retA ip
            | None \<Rightarrow>
                (case filled (Option.bind config cp_ip) of
                   Some ip \<Rightarrow> retA ip
                 | None \<Rightarrow>
                     (case kvm of
                        Some h \<Rightarrow>
                          ctxA (''resolve CP_IP via virsh-domifaddr on KVM_HOST='' @ h @ '' for CP_NAME='' @ name)
                            (resolve_cp_ip_via_ssh env (ssh_options_new h) h name)
                      | None \<Rightarrow>
                          failA [''CP_IP required (set in --config <cluster.local.conf>, ''
                            @ ''or pass --cp-ip / CP_IP env). For workstation operators ''
                            @ ''without local libvirt, set KVM_HOST=<ssh-alias> so we can ''
                            @ ''query libvirt on the KVM host via SSH (mirrors the deleted ''
                            @ ''scripts/kubectl-k8s.sh).'']))) (\<lambda>ip.
     retA \<lparr>ct_cp_ip = ip, ct_kvm_host = kvm\<rparr>)))"

definition kubectl_run :: "'w env \<Rightarrow> kubectl_args \<Rightarrow> (anyhow, cluster_config) result option \<Rightarrow> ('w, run_end) act" where
  "kubectl_run env args parsed =
     (if kb_args args = [] then
        failA [''hbird kubectl: no positional args supplied. ''
          @ ''Usage: `hbird kubectl get pods -A` (everything after ''
          @ ''`kubectl` is forwarded to the remote kubectl).'']
      else
        bindA (kubectl_resolve_target env args parsed) (\<lambda>target.
        forward env target (join '' '' (kb_args args))))"

section \<open>nodes\<close>

record nodes_args =
  na_config :: "string option"
  na_cp_name :: "string option"
  na_cp_ip :: "string option"
  na_kvm_host :: "string option"

definition nodes_resolve_target :: "nodes_args \<Rightarrow> (anyhow, cluster_config) result option \<Rightarrow> (anyhow, cp_target) result" where
  "nodes_resolve_target args parsed =
     bind_r (case parsed of None \<Rightarrow> Ok None | Some r \<Rightarrow> bind_r r (\<lambda>c. Ok (Some c))) (\<lambda>config.
     bind_r (ok_or [CP_NAME_REQUIRED] (or_opt (na_cp_name args) (map_option cp_name config))) (\<lambda>_.
     bind_r (ok_or [''CP_IP required (set in --config <cluster.local.conf>, ''
              @ ''or pass --cp-ip / CP_IP env). virsh-domifaddr resolution ''
              @ ''is not yet wired in the Rust path '' @ EM_DASH @ '' operator must pin ''
              @ ''CP_IP= for now.'']
              (or_opt (na_cp_ip args) (Option.bind config cp_ip))) (\<lambda>ip.
     Ok \<lparr>ct_cp_ip = ip, ct_kvm_host = filled (or_opt (na_kvm_host args) (Option.bind config kvm_host))\<rparr>)))"

definition nodes_run :: "'w env \<Rightarrow> nodes_args \<Rightarrow> (anyhow, cluster_config) result option \<Rightarrow> ('w, run_end) act" where
  "nodes_run env args parsed =
     bindA (liftA (nodes_resolve_target args parsed)) (\<lambda>target. forward env target ''get nodes'')"

section \<open>The call is handed on as it is\<close>

text \<open>What the operator sees of an answer: the two texts and the way the command ends.\<close>

fun seen :: "(ssh_error, run_output) result \<Rightarrow> ((string \<times> string) \<times> run_end) option" where
  "seen (Ok out) = Some ((ro_stdout out, ro_stderr out), Finished)"
| "seen (Err (NonZeroExit h status out err)) =
     Some ((out, err), ExitCode (case exit_code status of Some n \<Rightarrow> n | None \<Rightarrow> 1))"
| "seen (Err e) = None"

text \<open>A forwarded command is transparent. A command the filter refuses leaves the world alone; any other is sent to the
  control plane once, and when an answer came its two outputs are printed unchanged and the command ends with its exit
  status; only a failure of SSH itself is an error of the tool.\<close>

theorem forward_transparent:
  "(\<exists>e. forward env target command w = (Err e, w) \<and> reject_shell_metachars ''cp_kubectl_raw'' command = Err e)
   \<or> (\<exists>r evs. w_trace (snd (forward env target command w)) =
          w_trace w @ SshRun (ct_ssh_opts target) (kubectl_remote command) r # evs
        \<and> (case seen r of
             Some ((out, err), how) \<Rightarrow> fst (forward env target command w) = Ok how \<and> evs = [Stdout out, Stderr err]
           | None \<Rightarrow> \<exists>e. r = Err e \<and> fst (forward env target command w) = Err (kubectl_ctx target command # from_ssh e) \<and> evs = []))"
proof (cases "reject_shell_metachars ''cp_kubectl_raw'' command")
  case (Err e)
  then show ?thesis by (simp add: forward_def kubectl_call_def)
next
  case (Ok u)
  obtain r w1 where run: "ssh_run env (ct_ssh_opts target) (kubectl_remote command) w = (r, w1)" by fastforce
  then have t1: "w_trace w1 = w_trace w @ [SshRun (ct_ssh_opts target) (kubectl_remote command) r]"
    by (auto simp: ssh_run_def ssh_run_in_def split: prod.splits)
  from Ok run have "forward env target command w =
      (case r of Ok out \<Rightarrow> bindA (println (ro_stdout out)) (\<lambda>_. bindA (eprintln (ro_stderr out)) (\<lambda>_. retA Finished))
       | Err e \<Rightarrow> propagate_kubectl_exit_or_bail (kubectl_ctx target command) e) w1"
    by (simp add: forward_def kubectl_call_def bindA_def matchA_def)
  with t1 show ?thesis
    by (cases r rule: seen.cases) (auto simp: bindA_def emit_def intro!: exI [of _ r])
qed

end
