(* ===== verification/Export.thy ===== *)
theory Export
  imports Etcd Deploy_Net
begin

text \<open>
  \<open>hbird export-argocd\<close> (\<open>commands/export_argocd.rs\<close>) and \<open>hbird get-kubeconfig\<close> (\<open>commands/get_kubeconfig.rs\<close>): the
  options, the checks of the output path, the fetch, the rewrite of the server and the names line by line, and the
  write through a temporary file. The configuration is what \<open>hbird_config::parse\<close> gave; the local file system is the
  record \<open>filesys\<close>, and what changes a file is an event.
\<close>

section \<open>The local file system\<close>

datatype file_kind = SymLink | OtherFile

record 'w filesys =
  fs_lstat :: "string \<Rightarrow> 'w \<Rightarrow> (io_error, file_kind) result"
  fs_read_link :: "string \<Rightarrow> 'w \<Rightarrow> string option"
  fs_exists :: "string \<Rightarrow> 'w \<Rightarrow> bool"
  fs_metadata :: "string \<Rightarrow> 'w \<Rightarrow> (io_error, unit) result"
  fs_change :: "file_op \<Rightarrow> 'w \<Rightarrow> (io_error, unit) result \<times> 'w"
  fs_clock :: "'w \<Rightarrow> nat \<times> nat"
  fs_pid :: nat

definition change_file :: "'w filesys \<Rightarrow> file_op \<Rightarrow> ('w world, io_error, unit) action" where
  "change_file fs what w =
     (case fs_change fs what (w_ext w) of (r, x) \<Rightarrow> (r, w\<lparr>w_ext := x, w_trace := w_trace w @ [FileOp what r]\<rparr>))"

text \<open>\<open>?\<close> on an \<open>io::Error\<close> without a context.\<close>

definition io_bare :: "('w world, io_error, 'a) action \<Rightarrow> ('w, 'a) act" where
  "io_bare m = matchA m (\<lambda>r. liftA (map_err (\<lambda>e. [io_error_display e]) r))"

section \<open>Paths and UTF-8\<close>

text \<open>A reversed path without trailing separators and \<open>/.\<close>; the root stays.\<close>

fun tail_norm :: "string \<Rightarrow> string" where
  "tail_norm [] = []"
| "tail_norm [c] = [c]"
| "tail_norm (c # d # r) =
     (if c = CHR ''/'' \<or> (c = CHR ''.'' \<and> d = CHR ''/'') then tail_norm (d # r) else c # d # r)"

definition parent_dir :: "string \<Rightarrow> string option" where
  "parent_dir p =
     (let t = tail_norm (rev p) in
      if t = [] \<or> t = ''/'' then None else Some (rev (tail_norm (dropWhile (\<lambda>c. c \<noteq> CHR ''/'') t))))"

definition base_name :: "string \<Rightarrow> string option" where
  "base_name p =
     (let t = tail_norm (rev p); b = rev (takeWhile (\<lambda>c. c \<noteq> CHR ''/'') t) in
      if t = [] \<or> t = ''/'' \<or> b = ''.'' \<or> b = ''..'' then None else Some b)"

text \<open>\<open>str::from_utf8\<close>: the well-formed byte sequences of Unicode.\<close>

definition byte_in :: "nat \<Rightarrow> nat \<Rightarrow> char \<Rightarrow> bool" where
  "byte_in lo hi c \<longleftrightarrow> lo \<le> of_char c \<and> of_char c \<le> hi"

fun utf8_ok :: "string \<Rightarrow> bool" where
  "utf8_ok [] = True"
| "utf8_ok (c # s) =
     (if byte_in 0 0x7F c then utf8_ok s
      else case s of
        [] \<Rightarrow> False
      | c1 # s1 \<Rightarrow>
          if byte_in 0xC2 0xDF c then byte_in 0x80 0xBF c1 \<and> utf8_ok s1
          else case s1 of
            [] \<Rightarrow> False
          | c2 # s2 \<Rightarrow>
              if byte_in 0xE0 0xEF c then
                byte_in (if byte_in 0xE0 0xE0 c then 0xA0 else 0x80) (if byte_in 0xED 0xED c then 0x9F else 0xBF) c1
                \<and> byte_in 0x80 0xBF c2 \<and> utf8_ok s2
              else case s2 of
                [] \<Rightarrow> False
              | c3 # s3 \<Rightarrow>
                  byte_in 0xF0 0xF4 c
                  \<and> byte_in (if byte_in 0xF0 0xF0 c then 0x90 else 0x80) (if byte_in 0xF4 0xF4 c then 0x8F else 0xBF) c1
                  \<and> byte_in 0x80 0xBF c2 \<and> byte_in 0x80 0xBF c3 \<and> utf8_ok s3)"

definition UTF8_ERROR :: string where "UTF8_ERROR = ''invalid utf-8''"

section \<open>Options\<close>

record export_args =
  xa_config :: string
  xa_output :: string
  xa_server :: "string option"
  xa_context :: "string option"
  xa_proxy_jump :: "string option"
  xa_cp_ip :: "string option"
  xa_force :: bool

record export_options =
  xo_cp_name :: string
  xo_cp_ip :: string
  xo_kvm_host :: "string option"
  xo_output :: string
  xo_server :: string
  xo_context_name :: string
  xo_force :: bool

definition export_log :: "string \<Rightarrow> ('w world, 'e, unit) action" where
  "export_log msg = println (''[export-argocd] '' @ msg)"

definition is_context_char :: "char \<Rightarrow> bool" where
  "is_context_char c \<longleftrightarrow> is_ascii_alphanumeric c \<or> c = CHR ''.'' \<or> c = CHR ''_'' \<or> c = CHR ''-''"

definition validate_context_name :: "string \<Rightarrow> (anyhow, unit) result" where
  "validate_context_name s =
     (if s = [] then bail ''--context-name must not be empty''
      else if \<not> list_all is_context_char s then
        bail (''--context-name must match [A-Za-z0-9._-]+ (got: '' @ quoted s @ '')'')
      else Ok ())"

definition proxy_host :: "string option \<Rightarrow> cluster_config \<Rightarrow> string option" where
  "proxy_host flag config =
     (case flag of Some s \<Rightarrow> if s = [] then None else Some s | None \<Rightarrow> filled (kvm_host config))"

text \<open>What \<open>from_args\<close> and \<open>for_get_kubeconfig\<close> share; they differ in the hint and in the default name.\<close>

definition export_options_of ::
  "string \<Rightarrow> (string \<Rightarrow> string) \<Rightarrow> export_args \<Rightarrow> (anyhow, cluster_config) result \<Rightarrow> (anyhow, export_options) result" where
  "export_options_of hint default_name args parsed =
     bind_r parsed (\<lambda>config.
     let name = cp_name config in
     bind_r (ok_or [''could not resolve CP_IP for '' @ quoted name @ '' (set CP_IP=<ip> in '' @ xa_config args
               @ '', or pass --cp-ip / CP_IP env'' @ hint @ '')'']
             (or_opt (xa_cp_ip args) (cp_ip config))) (\<lambda>ip.
     if ip = [] then bail ''CP_IP resolved to empty string''
     else
       let server = unwrap_or (filled (xa_server args)) (''https://'' @ ip @ '':6443'');
           context_name = unwrap_or (filled (xa_context args)) (default_name name) in
       bind_r (validate_context_name context_name) (\<lambda>_.
       Ok \<lparr>xo_cp_name = name, xo_cp_ip = ip, xo_kvm_host = proxy_host (xa_proxy_jump args) config,
           xo_output = xa_output args, xo_server = server, xo_context_name = context_name, xo_force = xa_force args\<rparr>)))"

definition export_from_args :: "export_args \<Rightarrow> (anyhow, cluster_config) result \<Rightarrow> (anyhow, export_options) result" where
  "export_from_args = export_options_of ''; virsh-domifaddr resolution not yet wired in the Rust path'' (\<lambda>name. ''hummingbird-'' @ name)"

definition for_get_kubeconfig :: "export_args \<Rightarrow> (anyhow, cluster_config) result \<Rightarrow> (anyhow, export_options) result" where
  "for_get_kubeconfig = export_options_of [] (\<lambda>name. name)"

definition xo_target :: "export_options \<Rightarrow> cp_target" where
  "xo_target opts = \<lparr>ct_cp_ip = xo_cp_ip opts, ct_kvm_host = xo_kvm_host opts\<rparr>"

section \<open>Fetch and checks\<close>

definition pre_check_output :: "'w filesys \<Rightarrow> string \<Rightarrow> bool \<Rightarrow> ('w, unit) act" where
  "pre_check_output fs output force =
     bindA (peek (\<lambda>x. Ok (fs_lstat fs output x))) (\<lambda>meta.
     case meta of
       Err NotFound \<Rightarrow> retA ()
     | Err e \<Rightarrow> failA [''stat '' @ output, io_error_display e]
     | Ok SymLink \<Rightarrow>
         bindA (peek (\<lambda>x. Ok (unwrap_or (fs_read_link fs output x) []))) (\<lambda>target.
         failA [''OUTPUT is a symlink ('' @ output @ '' -> '' @ target @ ''); re-run with --output='' @ target
           @ '' or remove the symlink first''])
     | Ok OtherFile \<Rightarrow>
         if \<not> force then failA [''output file already exists: '' @ output @ '' (re-run with --force to overwrite)'']
         else retA ())"

definition ADMIN_CONF_CMD :: string where "ADMIN_CONF_CMD = ''sudo cat /etc/kubernetes/admin.conf''"

definition fetch_admin_conf :: "'w env \<Rightarrow> export_options \<Rightarrow> ('w, string) act" where
  "fetch_admin_conf env opts =
     bindA (ctxA (''ssh root@'' @ xo_cp_ip opts @ '' '' @ quoted ADMIN_CONF_CMD @ '' failed '' @ EM_DASH @ '' is the CP up and reachable?'')
       (cp_ssh_capture env (xo_target opts) ADMIN_CONF_CMD)) (\<lambda>out.
     if ro_stdout out = [] then failA [''fetched admin.conf is empty''] else retA (ro_stdout out))"

definition sanity_check_kubeconfig :: "string \<Rightarrow> (anyhow, unit) result" where
  "sanity_check_kubeconfig raw =
     (if \<not> utf8_ok raw then Err [''fetched admin.conf was not UTF-8 (kubeconfigs are YAML, must be UTF-8)'', UTF8_ERROR]
      else if \<not> list_ex (starts_with ''apiVersion:'') (lines raw) \<or> \<not> list_ex (starts_with ''kind: Config'') (lines raw) then
        bail (''fetched file does not look like a kubeconfig (no '' @ quoted ''kind: Config'' @ ''). Refusing to continue.'')
      else Ok ())"

section \<open>Rewrite\<close>

definition strip_prefix_with_indent :: "string \<Rightarrow> string \<Rightarrow> (string \<times> string) option" where
  "strip_prefix_with_indent line key =
     (case strip_prefix key (trim_start line) of
        None \<Rightarrow> None
      | Some after \<Rightarrow> Some (take (length line - length (trim_start line)) line, after))"

definition match_name_kv :: "string \<Rightarrow> string \<Rightarrow> string option" where
  "match_name_kv line target =
     (case (case strip_prefix ''- '' line of
              Some rest \<Rightarrow> Some (''- '', rest)
            | None \<Rightarrow>
                let trimmed = trim_start line; indent_len = length line - length trimmed in
                if \<not> starts_with ''name:'' trimmed \<or> indent_len = 0 then None else Some (take indent_len line, trimmed)) of
        None \<Rightarrow> None
      | Some (indent, rest) \<Rightarrow>
          (case strip_prefix ''name:'' rest of
             None \<Rightarrow> None
           | Some after \<Rightarrow>
               if after = [] \<or> \<not> is_ascii_whitespace (hd after) then None
               else if trim_start after \<noteq> target then None
               else Some (indent @ ''name:'' @ take (length after - length (trim_start after)) after)))"

text \<open>The substitutions of \<open>rewrite_line\<close> from the last to the first.\<close>

definition rewrite_cluster :: "string \<Rightarrow> string \<Rightarrow> string" where
  "rewrite_cluster line context_name =
     (case match_name_kv line ''kubernetes'' of
        Some prefix \<Rightarrow> prefix @ context_name
      | None \<Rightarrow>
          (case strip_prefix_with_indent line ''cluster:'' of
             Some (indent, after) \<Rightarrow> if after = '' kubernetes'' then indent @ ''cluster: '' @ context_name else line
           | None \<Rightarrow> line))"

definition rewrite_user :: "string \<Rightarrow> string \<Rightarrow> string" where
  "rewrite_user line context_name =
     (case match_name_kv line ''kubernetes-admin'' of
        Some prefix \<Rightarrow> prefix @ context_name
      | None \<Rightarrow>
          (case strip_prefix_with_indent line ''user:'' of
             Some (indent, after) \<Rightarrow>
               if after = '' kubernetes-admin'' then indent @ ''user: '' @ context_name else rewrite_cluster line context_name
           | None \<Rightarrow> rewrite_cluster line context_name))"

definition rewrite_line :: "string \<Rightarrow> string \<Rightarrow> string \<Rightarrow> string" where
  "rewrite_line line server_url context_name =
     (case strip_prefix_with_indent line ''server:'' of
        Some (indent, _) \<Rightarrow> indent @ ''server: '' @ server_url
      | None \<Rightarrow>
          (case match_name_kv line ''kubernetes-admin@kubernetes'' of
             Some prefix \<Rightarrow> prefix @ context_name
           | None \<Rightarrow>
               if strip_suffix ''kubernetes-admin@kubernetes'' line = Some ''current-context: '' then
                 ''current-context: '' @ context_name
               else rewrite_user line context_name))"

text \<open>\<open>split_inclusive\<close> at the line feed: each line with whether it ended with one.\<close>

fun split_inclusive :: "string \<Rightarrow> string \<Rightarrow> (string \<times> bool) list" where
  "split_inclusive acc [] = (if acc = [] then [] else [(rev acc, False)])"
| "split_inclusive acc (c # s) = (if c = NL then (rev acc, True) # split_inclusive [] s else split_inclusive (c # acc) s)"

definition rewrite_kubeconfig :: "string \<Rightarrow> string \<Rightarrow> string \<Rightarrow> (anyhow, string) result" where
  "rewrite_kubeconfig raw server_url context_name =
     (if \<not> utf8_ok raw then Err [''kubeconfig was not UTF-8 in rewrite step'', UTF8_ERROR]
      else Ok (concat (map (\<lambda>(body, ended). rewrite_line body server_url context_name @ (if ended then [NL] else []))
        (split_inclusive [] raw))))"

section \<open>Write\<close>

text \<open>\<open>epoch_to_utc_ymdhms\<close> for the seconds of \<open>as_secs\<close> that an \<open>i64\<close> holds.\<close>

definition epoch_to_utc_ymdhms :: "int \<Rightarrow> int \<times> nat \<times> nat \<times> nat \<times> nat \<times> nat" where
  "epoch_to_utc_ymdhms secs =
     (let days = secs div 86400;
          secs_of_day = nat (secs mod 86400);
          h = secs_of_day div 3600;
          mi = secs_of_day div 60 mod 60;
          s = secs_of_day mod 60;
          z = days + 719468;
          era = z div 146097;
          doe = nat (z - era * 146097);
          yoe = (doe - doe div 1460 + doe div 36524 - doe div 146096) div 365;
          y = int yoe + era * 400;
          doy = doe - (365 * yoe + yoe div 4 - yoe div 100);
          mp = (5 * doy + 2) div 153;
          d = doy - (153 * mp + 2) div 5 + 1;
          m = (if mp < 10 then mp + 3 else mp - 9) in
      (if m \<le> 2 then y + 1 else y, m, d, h, mi, s))"

definition backup_path :: "string \<Rightarrow> nat \<times> nat \<Rightarrow> string" where
  "backup_path path = (\<lambda>(secs, nsecs).
     let (y, mo, d, h, mi, s) = epoch_to_utc_ymdhms (int secs) in
     path @ ''.bak-'' @ padded 4 (nat y) @ padded 2 mo @ padded 2 d @ ''T'' @ padded 2 h @ padded 2 mi @ padded 2 s
       @ padded 9 nsecs @ ''UTC'')"

definition temp_path :: "nat \<Rightarrow> string \<Rightarrow> string" where
  "temp_path pid path =
     path_join (unwrap_or (parent_dir path) ''.'')
       (''.'' @ unwrap_or (base_name path) ''kubeconfig'' @ ''.tmp-'' @ show_nat pid)"

definition MODE_0600 :: nat where "MODE_0600 = 384"

definition backup_existing :: "'w filesys \<Rightarrow> string \<Rightarrow> ('w, unit) act" where
  "backup_existing fs path =
     bindA (peek (\<lambda>x. Ok (backup_path path (fs_clock fs x)))) (\<lambda>bak.
     bindA (peek (\<lambda>x. Ok (fs_exists fs bak x))) (\<lambda>there.
     if there then failA [''backup target already exists: '' @ bak @ '' (refusing to clobber)'']
     else
       bindA (io_ctx (change_file fs (CopyFile path bak)) (''backup: copy '' @ path @ '' to '' @ bak)) (\<lambda>_.
       bindA (io_bare (peek (fs_metadata fs bak))) (\<lambda>_.
       bindA (io_bare (change_file fs (SetMode bak MODE_0600))) (\<lambda>_.
       export_log (''backup: copied '' @ path @ '' to '' @ bak @ '' (will be overwritten next)''))))))"

definition write_atomic_0600 :: "'w filesys \<Rightarrow> string \<Rightarrow> string \<Rightarrow> bool \<Rightarrow> ('w, unit) act" where
  "write_atomic_0600 fs path contents force =
     bindA (peek (\<lambda>x. Ok (force \<and> fs_exists fs path x))) (\<lambda>overwrite.
     bindA (whenA overwrite (backup_existing fs path)) (\<lambda>_.
     let tmp = temp_path (fs_pid fs) path in
     bindA (io_ctx (change_file fs (OpenTemp tmp MODE_0600)) (''open temp file '' @ tmp)) (\<lambda>_.
     bindA (io_ctx (change_file fs (WriteAll tmp contents)) (''write temp file '' @ tmp)) (\<lambda>_.
     bindA (io_ctx (change_file fs (SyncAll tmp)) (''fsync temp file '' @ tmp)) (\<lambda>_.
     bindA (io_ctx (change_file fs (RenameFile tmp path)) (''rename '' @ tmp @ '' -> '' @ path @ '' (atomic install)'')) (\<lambda>_.
     retA ()))))))"

section \<open>The commands\<close>

definition export_kubeconfig :: "'w env \<Rightarrow> 'w filesys \<Rightarrow> export_options \<Rightarrow> ('w, unit) act" where
  "export_kubeconfig env fs opts =
     bindA (pre_check_output fs (xo_output opts) (xo_force opts)) (\<lambda>_.
     bindA (export_log (''fetching /etc/kubernetes/admin.conf from root@'' @ xo_cp_ip opts)) (\<lambda>_.
     bindA (ctxA ''fetch admin.conf via SSH'' (fetch_admin_conf env opts)) (\<lambda>raw.
     bindA (liftA (sanity_check_kubeconfig raw)) (\<lambda>_.
     bindA (liftA (rewrite_kubeconfig raw (xo_server opts) (xo_context_name opts))) (\<lambda>rewritten.
     bindA (write_atomic_0600 fs (xo_output opts) rewritten (xo_force opts)) (\<lambda>_.
     bindA (export_log (''kubeconfig written to '' @ xo_output opts)) (\<lambda>_.
     bindA (export_log (''register with:  argocd cluster add '' @ xo_context_name opts @ '' --kubeconfig '' @ xo_output opts)) (\<lambda>_.
     bindA (export_log (''sanity check:   KUBECONFIG='' @ xo_output opts @ '' kubectl get nodes'')) (\<lambda>_.
     if xo_kvm_host opts \<noteq> None then
       bindA (export_log (''note: ProxyJump used for fetch '' @ EM_DASH @ '' direct '' @ quoted ''kubectl get nodes'' @ '' from'')) (\<lambda>_.
       bindA (export_log ''      this workstation may fail (apiserver isn't reachable here);'') (\<lambda>_.
       export_log ''      that is expected and does not invalidate the kubeconfig.''))
     else retA ())))))))))"

definition export_run :: "'w env \<Rightarrow> 'w filesys \<Rightarrow> export_args \<Rightarrow> (anyhow, cluster_config) result \<Rightarrow> ('w, unit) act" where
  "export_run env fs args parsed = bindA (liftA (export_from_args args parsed)) (export_kubeconfig env fs)"

definition get_kubeconfig_run :: "'w env \<Rightarrow> 'w filesys \<Rightarrow> export_args \<Rightarrow> (anyhow, cluster_config) result \<Rightarrow> ('w, unit) act" where
  "get_kubeconfig_run env fs args parsed = bindA (liftA (for_get_kubeconfig args parsed)) (export_kubeconfig env fs)"

end
