(* ===== verification/Export_Safety.thy ===== *)
theory Export_Safety
  imports Event_Order Etcd_Calendar Export
begin

text \<open>
  What an export of the kubeconfig does to the local file system and in which order, and what the rewrite makes of the
  file that \<open>kubeadm\<close> writes.
\<close>

section \<open>The order of an export\<close>

definition fetched_text :: "export_options \<Rightarrow> string \<Rightarrow> event set \<Rightarrow> bool" where
  "fetched_text opts raw A \<longleftrightarrow>
     (\<exists>out. SshRun (ct_ssh_opts (xo_target opts)) ADMIN_CONF_CMD (Ok out) \<in> A \<and> ro_stdout out = raw)
     \<and> raw \<noteq> [] \<and> is_ok (sanity_check_kubeconfig raw)"

definition rewritten_text :: "export_options \<Rightarrow> string \<Rightarrow> event set \<Rightarrow> bool" where
  "rewritten_text opts bytes A \<longleftrightarrow>
     (\<exists>raw. fetched_text opts raw A \<and> rewrite_kubeconfig raw (xo_server opts) (xo_context_name opts) = Ok bytes)"

definition did :: "file_op \<Rightarrow> event set \<Rightarrow> bool" where
  "did what A \<longleftrightarrow> FileOp what (Ok ()) \<in> A"

text \<open>Every copy that was begun is complete and private.\<close>

definition copies_safe :: "event set \<Rightarrow> bool" where
  "copies_safe A \<longleftrightarrow> (\<forall>p b r. FileOp (CopyFile p b) r \<in> A \<longrightarrow> r = Ok () \<and> did (SetMode b MODE_0600) A)"

fun file_allowed :: "nat \<Rightarrow> export_options \<Rightarrow> event set \<Rightarrow> file_op \<Rightarrow> bool" where
  "file_allowed pid opts A (CopyFile p b) \<longleftrightarrow>
     xo_force opts \<and> p = xo_output opts \<and> (\<exists>t. b = backup_path (xo_output opts) t) \<and> (\<exists>raw. fetched_text opts raw A)"
| "file_allowed pid opts A (SetMode b m) \<longleftrightarrow> m = MODE_0600 \<and> did (CopyFile (xo_output opts) b) A"
| "file_allowed pid opts A (OpenTemp p m) \<longleftrightarrow>
     p = temp_path pid (xo_output opts) \<and> m = MODE_0600 \<and> copies_safe A \<and> (\<exists>bytes. rewritten_text opts bytes A)"
| "file_allowed pid opts A (WriteAll p bytes) \<longleftrightarrow>
     p = temp_path pid (xo_output opts) \<and> did (OpenTemp p MODE_0600) A \<and> rewritten_text opts bytes A"
| "file_allowed pid opts A (SyncAll p) \<longleftrightarrow>
     p = temp_path pid (xo_output opts) \<and> (\<exists>bytes. did (WriteAll p bytes) A)"
| "file_allowed pid opts A (RenameFile p q) \<longleftrightarrow>
     p = temp_path pid (xo_output opts) \<and> q = xo_output opts \<and> copies_safe A \<and> did (OpenTemp p MODE_0600) A
     \<and> (\<exists>bytes. rewritten_text opts bytes A \<and> did (WriteAll p bytes) A) \<and> did (SyncAll p) A"

fun export_protocol :: "nat \<Rightarrow> export_options \<Rightarrow> protocol" where
  "export_protocol pid opts A (Stdout s) \<longleftrightarrow> True"
| "export_protocol pid opts A (SshRun how c r) \<longleftrightarrow> how = ct_ssh_opts (xo_target opts) \<and> c = ADMIN_CONF_CMD \<and> A \<subseteq> range Stdout"
| "export_protocol pid opts A (FileOp what r) \<longleftrightarrow> file_allowed pid opts A what"
| "export_protocol pid opts A _ \<longleftrightarrow> False"

definition installed :: "nat \<Rightarrow> export_options \<Rightarrow> event set \<Rightarrow> bool" where
  "installed pid opts A \<longleftrightarrow> did (RenameFile (temp_path pid (xo_output opts)) (xo_output opts)) A"

abbreviation xreached :: "nat \<Rightarrow> export_options \<Rightarrow> event list \<Rightarrow> (event set \<Rightarrow> bool) \<Rightarrow> 'w world \<Rightarrow> bool" where
  "xreached pid opts t0 C \<equiv> reached (export_protocol pid opts) t0 C"

lemma did_insert [simp]:
  "did what (insert (Stdout s) A) \<longleftrightarrow> did what A" "did what (insert (SshRun how c r) A) \<longleftrightarrow> did what A"
  "did what (insert (FileOp q v) A) \<longleftrightarrow> (what = q \<and> v = Ok ()) \<or> did what A" "\<not> did what {}"
  by (auto simp: did_def)

lemma fetched_insert [simp]:
  "fetched_text opts raw (insert (Stdout s) A) \<longleftrightarrow> fetched_text opts raw A"
  "fetched_text opts raw (insert (FileOp q r) A) \<longleftrightarrow> fetched_text opts raw A"
  "rewritten_text opts bytes (insert (Stdout s) A) \<longleftrightarrow> rewritten_text opts bytes A"
  "rewritten_text opts bytes (insert (FileOp q r) A) \<longleftrightarrow> rewritten_text opts bytes A"
  by (simp_all add: fetched_text_def rewritten_text_def)

lemma copies_insert [simp]:
  "copies_safe {}" "copies_safe (insert (Stdout s) A) \<longleftrightarrow> copies_safe A"
  "copies_safe (insert (SshRun how c r) A) \<longleftrightarrow> copies_safe A"
  by (simp_all add: copies_safe_def)

lemma copies_other:
  "copies_safe A \<Longrightarrow> \<forall>p b. q \<noteq> CopyFile p b \<Longrightarrow> copies_safe (insert (FileOp q r) A)"
  by (cases q) (auto simp: copies_safe_def)

lemma installed_insert [simp]:
  "installed pid opts (insert (Stdout s) A) \<longleftrightarrow> installed pid opts A"
  "installed pid opts (insert (SshRun how c r) A) \<longleftrightarrow> installed pid opts A"
  "installed pid opts (insert (FileOp q v) A) \<longleftrightarrow>
     (q = RenameFile (temp_path pid (xo_output opts)) (xo_output opts) \<and> v = Ok ()) \<or> installed pid opts A"
  "\<not> installed pid opts {}"
  by (auto simp: installed_def)

lemma file_step:
  assumes "\<And>A. C A \<Longrightarrow> file_allowed pid opts A what"
    and "\<And>A. C A \<Longrightarrow> Q (insert (FileOp what (Ok ())) A)" "\<And>A e. C A \<Longrightarrow> E (insert (FileOp what (Err e)) A)"
  shows "triple (xreached pid opts t0 C) (change_file fs what) (\<lambda>_. xreached pid opts t0 Q) (\<lambda>_. xreached pid opts t0 E)"
  by (rule step_triple [where ev = "FileOp what"]) (use assms in \<open>auto simp: change_file_def split: prod.splits\<close>)

lemma file_ctx_step:
  assumes "\<And>A. C A \<Longrightarrow> file_allowed pid opts A what"
    and "\<And>A. C A \<Longrightarrow> Q (insert (FileOp what (Ok ())) A)" "\<And>A e. C A \<Longrightarrow> E (insert (FileOp what (Err e)) A)"
  shows "triple (xreached pid opts t0 C) (io_ctx (change_file fs what) ctx) (\<lambda>_. xreached pid opts t0 Q) (\<lambda>_. xreached pid opts t0 E)"
    "triple (xreached pid opts t0 C) (io_bare (change_file fs what)) (\<lambda>_. xreached pid opts t0 Q) (\<lambda>_. xreached pid opts t0 E)"
  unfolding io_ctx_def io_bare_def
  by (rule triple_match_cases [OF file_step [where Q = Q and E = E]]; use assms in \<open>auto intro!: triple_lift simp: with_context_def\<close>)+

lemma export_says:
  assumes "\<And>A. C A \<Longrightarrow> C (insert (Stdout (''[export-argocd] '' @ s)) A)"
  shows "triple (xreached pid opts t0 C) (export_log s) (\<lambda>_. xreached pid opts t0 C) E"
proof (rule tripleI)
  fix w a w' assume r: "xreached pid opts t0 C w" and m: "export_log s w = (Ok a, w')"
  show "xreached pid opts t0 C w'"
    by (rule reached_event [OF r, where e = "Stdout (''[export-argocd] '' @ s)"]) (use m assms in \<open>auto simp: export_log_def emit_def\<close>)
qed (simp add: export_log_def emit_def)

lemma triple_peek: "(\<And>x. triple P (f (g x)) Q E) \<Longrightarrow> triple P (bindA (peek (\<lambda>x. Ok (g x))) f) Q E"
  by (simp add: triple_def peek_def bindA_def)

text \<open>The phases of a run: nothing but lines; fetched; copied; ready to write.\<close>

definition fresh :: "export_options \<Rightarrow> string \<Rightarrow> event set \<Rightarrow> bool" where
  "fresh opts bytes A \<longleftrightarrow> rewritten_text opts bytes A \<and> (\<forall>q r. FileOp q r \<notin> A)"

definition copied :: "nat \<Rightarrow> export_options \<Rightarrow> string \<Rightarrow> string \<Rightarrow> event set \<Rightarrow> bool" where
  "copied pid opts bytes b A \<longleftrightarrow> rewritten_text opts bytes A \<and> \<not> installed pid opts A \<and> did (CopyFile (xo_output opts) b) A
     \<and> (\<forall>p b' r. FileOp (CopyFile p b') r \<in> A \<longrightarrow> r = Ok () \<and> b' = b)"

definition ready :: "nat \<Rightarrow> export_options \<Rightarrow> string \<Rightarrow> event set \<Rightarrow> bool" where
  "ready pid opts bytes A \<longleftrightarrow> rewritten_text opts bytes A \<and> \<not> installed pid opts A \<and> copies_safe A"

lemma rewritten_fetched: "rewritten_text opts bytes A \<Longrightarrow> \<exists>raw. fetched_text opts raw A"
  by (auto simp: rewritten_text_def)

lemma fresh_ready: "fresh opts bytes A \<Longrightarrow> ready pid opts bytes A"
  by (auto simp: fresh_def ready_def installed_def did_def copies_safe_def)

lemma backup_steps:
  assumes "xo_force opts"
  shows "triple (xreached pid opts t0 (fresh opts bytes)) (backup_existing fs (xo_output opts))
    (\<lambda>_. xreached pid opts t0 (ready pid opts bytes)) (\<lambda>_. xreached pid opts t0 (\<lambda>A. \<not> installed pid opts A))"
  unfolding backup_existing_def
proof (rule triple_peek, rule triple_peek, rule triple_if)
  fix x there
  let ?bak = "backup_path (xo_output opts) (fs_clock fs x)"
  let ?E = "\<lambda>_ :: anyhow. xreached pid opts t0 (\<lambda>A. \<not> installed pid opts A)"
  show "triple (xreached pid opts t0 (fresh opts bytes)) (failA e) Q ?E" for e Q
    by (rule triple_fail, erule reached_mono) (auto simp: fresh_def installed_def did_def)
  have copy: "triple (xreached pid opts t0 (fresh opts bytes)) (io_ctx (change_file fs (CopyFile (xo_output opts) ?bak)) c)
      (\<lambda>_. xreached pid opts t0 (copied pid opts bytes ?bak)) ?E" for c
    by (cases "fs_clock fs x", rule file_ctx_step)
      (use assms in \<open>auto simp: fresh_def copied_def installed_def did_def dest: rewritten_fetched\<close>)
  have meta: "triple (xreached pid opts t0 (copied pid opts bytes ?bak)) (io_bare (peek (fs_metadata fs ?bak)))
      (\<lambda>_. xreached pid opts t0 (copied pid opts bytes ?bak)) ?E"
    by (rule tripleI) (auto simp: io_bare_def peek_def matchA_def copied_def elim: reached_mono)
  have mode: "triple (xreached pid opts t0 (copied pid opts bytes ?bak)) (io_bare (change_file fs (SetMode ?bak MODE_0600)))
      (\<lambda>_. xreached pid opts t0 (ready pid opts bytes)) ?E"
    by (rule file_ctx_step(2)) (auto simp: copied_def ready_def copies_safe_def)
  show "triple (xreached pid opts t0 (fresh opts bytes))
     (bindA (io_ctx (change_file fs (CopyFile (xo_output opts) ?bak)) c) (\<lambda>_.
      bindA (io_bare (peek (fs_metadata fs ?bak))) (\<lambda>_.
      bindA (io_bare (change_file fs (SetMode ?bak MODE_0600))) (\<lambda>_. export_log l))))
     (\<lambda>_. xreached pid opts t0 (ready pid opts bytes)) ?E" for c l
    by (rule triple_bind [OF copy], rule triple_bind [OF meta], rule triple_bind [OF mode], rule export_says) (simp add: ready_def)
qed

definition opened :: "nat \<Rightarrow> export_options \<Rightarrow> string \<Rightarrow> event set \<Rightarrow> bool" where
  "opened pid opts bytes A \<longleftrightarrow> ready pid opts bytes A \<and> did (OpenTemp (temp_path pid (xo_output opts)) MODE_0600) A"

definition written :: "nat \<Rightarrow> export_options \<Rightarrow> string \<Rightarrow> event set \<Rightarrow> bool" where
  "written pid opts bytes A \<longleftrightarrow> opened pid opts bytes A \<and> did (WriteAll (temp_path pid (xo_output opts)) bytes) A"

definition synced :: "nat \<Rightarrow> export_options \<Rightarrow> string \<Rightarrow> event set \<Rightarrow> bool" where
  "synced pid opts bytes A \<longleftrightarrow> written pid opts bytes A \<and> did (SyncAll (temp_path pid (xo_output opts))) A"

lemma write_steps:
  "triple (xreached (fs_pid fs) opts t0 (fresh opts bytes)) (write_atomic_0600 fs (xo_output opts) bytes (xo_force opts))
    (\<lambda>_. xreached (fs_pid fs) opts t0 (installed (fs_pid fs) opts))
    (\<lambda>_. xreached (fs_pid fs) opts t0 (\<lambda>A. \<not> installed (fs_pid fs) opts A))"
  unfolding write_atomic_0600_def Let_def
proof (rule triple_peek)
  fix x
  let ?pid = "fs_pid fs" and ?tmp = "temp_path (fs_pid fs) (xo_output opts)"
  let ?R = "\<lambda>C. xreached ?pid opts t0 C" and ?E = "\<lambda>_ :: anyhow. xreached (fs_pid fs) opts t0 (\<lambda>A. \<not> installed (fs_pid fs) opts A)"
  have bak: "triple (?R (fresh opts bytes)) (whenA (xo_force opts \<and> fs_exists fs (xo_output opts) x) (backup_existing fs (xo_output opts)))
      (\<lambda>_. ?R (ready ?pid opts bytes)) ?E"
    by (rule triple_when) (auto intro: backup_steps elim: reached_mono fresh_ready)
  have opn: "triple (?R (ready ?pid opts bytes)) (io_ctx (change_file fs (OpenTemp ?tmp MODE_0600)) c) (\<lambda>_. ?R (opened ?pid opts bytes)) ?E" for c
    by (rule file_ctx_step) (auto simp: ready_def opened_def intro: copies_other)
  have wr: "triple (?R (opened ?pid opts bytes)) (io_ctx (change_file fs (WriteAll ?tmp bytes)) c) (\<lambda>_. ?R (written ?pid opts bytes)) ?E" for c
    by (rule file_ctx_step) (auto simp: ready_def opened_def written_def intro: copies_other)
  have sync: "triple (?R (written ?pid opts bytes)) (io_ctx (change_file fs (SyncAll ?tmp)) c) (\<lambda>_. ?R (synced ?pid opts bytes)) ?E" for c
    by (rule file_ctx_step) (auto simp: ready_def opened_def written_def synced_def intro: copies_other)
  have ren: "triple (?R (synced ?pid opts bytes)) (io_ctx (change_file fs (RenameFile ?tmp (xo_output opts))) c) (\<lambda>_. ?R (installed ?pid opts)) ?E" for c
    by (rule file_ctx_step) (auto simp: ready_def opened_def written_def synced_def)
  show "triple (?R (fresh opts bytes))
     (bindA (whenA (xo_force opts \<and> fs_exists fs (xo_output opts) x) (backup_existing fs (xo_output opts))) (\<lambda>_.
      bindA (io_ctx (change_file fs (OpenTemp ?tmp MODE_0600)) c1) (\<lambda>_.
      bindA (io_ctx (change_file fs (WriteAll ?tmp bytes)) c2) (\<lambda>_.
      bindA (io_ctx (change_file fs (SyncAll ?tmp)) c3) (\<lambda>_.
      bindA (io_ctx (change_file fs (RenameFile ?tmp (xo_output opts))) c4) (\<lambda>_. retA ()))))))
     (\<lambda>_. ?R (installed ?pid opts)) ?E" for c1 c2 c3 c4
    by (rule triple_bind [OF bak], rule triple_bind [OF opn], rule triple_bind [OF wr], rule triple_bind [OF sync],
        rule triple_bind [OF ren], rule triple_ret)
qed

lemma fetch_steps:
  "triple (xreached pid opts t0 (\<lambda>A. A \<subseteq> range Stdout)) (ctxA c (fetch_admin_conf env opts))
    (\<lambda>raw. xreached pid opts t0 (\<lambda>A. (\<exists>out. SshRun (ct_ssh_opts (xo_target opts)) ADMIN_CONF_CMD (Ok out) \<in> A \<and> ro_stdout out = raw)
       \<and> raw \<noteq> [] \<and> (\<forall>q r. FileOp q r \<notin> A)))
    (\<lambda>_. xreached pid opts t0 (\<lambda>A. \<not> installed pid opts A))"
  (is "triple ?P _ ?Q ?E")
proof (rule triple_ctx)
  have run: "triple ?P (ctxA c2 (cp_ssh_capture env (xo_target opts) ADMIN_CONF_CMD))
     (\<lambda>out. xreached pid opts t0 (\<lambda>A. SshRun (ct_ssh_opts (xo_target opts)) ADMIN_CONF_CMD (Ok out) \<in> A \<and> (\<forall>q r. FileOp q r \<notin> A))) ?E" for c2
    unfolding cp_ssh_capture_def ssh_ctx_def
    by (rule triple_ctx, rule triple_match_cases [OF ssh_step [where
          Q = "\<lambda>out A. SshRun (ct_ssh_opts (xo_target opts)) ADMIN_CONF_CMD (Ok out) \<in> A \<and> (\<forall>q r. FileOp q r \<notin> A)"
          and E = "\<lambda>_ A. \<not> installed pid opts A"]])
      (auto intro!: triple_lift simp: with_context_def installed_def did_def)
  show "triple ?P (fetch_admin_conf env opts) ?Q (\<lambda>e. ?E (c # e))"
    unfolding fetch_admin_conf_def
    by (rule triple_bind [OF run], rule triple_if, rule triple_fail, erule reached_mono, simp add: installed_def did_def,
        rule triple_ret, erule reached_mono) auto
qed

lemma says_installed:
  "triple (xreached pid opts t0 (installed pid opts)) (export_log s) (\<lambda>_. xreached pid opts t0 (installed pid opts)) E"
  by (rule export_says) simp

lemma export_steps:
  "triple (xreached (fs_pid fs) opts t0 (\<lambda>A. A = {})) (export_kubeconfig env fs opts)
    (\<lambda>_. xreached (fs_pid fs) opts t0 (installed (fs_pid fs) opts))
    (\<lambda>_. xreached (fs_pid fs) opts t0 (\<lambda>A. \<not> installed (fs_pid fs) opts A))"
proof -
  let ?R = "\<lambda>C. xreached (fs_pid fs) opts t0 C" and ?E = "\<lambda>_ :: anyhow. xreached (fs_pid fs) opts t0 (\<lambda>A. \<not> installed (fs_pid fs) opts A)"
  have fail: "triple (?R (\<lambda>A. A = {})) (failA e) Q ?E" for e Q
    by (rule triple_fail, erule reached_mono) simp
  have pre: "triple (?R (\<lambda>A. A = {})) (pre_check_output fs (xo_output opts) (xo_force opts)) (\<lambda>_. ?R (\<lambda>A. A \<subseteq> range Stdout)) ?E"
    unfolding pre_check_output_def
  proof (rule triple_peek)
    fix x
    have ret: "triple (?R (\<lambda>A. A = {})) (retA ()) (\<lambda>_. ?R (\<lambda>A. A \<subseteq> range Stdout)) ?E"
      by (rule triple_ret, erule reached_mono) simp
    show "triple (?R (\<lambda>A. A = {})) (case fs_lstat fs (xo_output opts) x of Err NotFound \<Rightarrow> retA () | Err e \<Rightarrow> failA (c1 e)
       | Ok SymLink \<Rightarrow> bindA (peek (\<lambda>x. Ok (g x))) (\<lambda>target. failA (c2 target))
       | Ok OtherFile \<Rightarrow> if \<not> xo_force opts then failA c3 else retA ()) (\<lambda>_. ?R (\<lambda>A. A \<subseteq> range Stdout)) ?E" for c1 c2 c3 and g :: "'a \<Rightarrow> string"
      by (auto split: result.split io_error.split file_kind.split intro!: fail ret triple_peek triple_if)
  qed
  have say1: "triple (?R (\<lambda>A. A \<subseteq> range Stdout)) (export_log s) (\<lambda>_. ?R (\<lambda>A. A \<subseteq> range Stdout)) ?E" for s
    by (rule export_says) auto
  let ?got = "\<lambda>raw A. (\<exists>out. SshRun (ct_ssh_opts (xo_target opts)) ADMIN_CONF_CMD (Ok out) \<in> A \<and> ro_stdout out = raw)
       \<and> raw \<noteq> [] \<and> (\<forall>q r. FileOp q r \<notin> A)"
  have not_yet: "\<forall>q r. FileOp q r \<notin> A \<Longrightarrow> \<not> installed (fs_pid fs) opts A" for A by (simp add: installed_def did_def)
  have sane: "triple (?R (?got raw)) (liftA (sanity_check_kubeconfig raw)) (\<lambda>_. ?R (\<lambda>A. fetched_text opts raw A \<and> (\<forall>q r. FileOp q r \<notin> A))) ?E" for raw
    by (rule triple_lift; erule reached_mono) (auto simp: fetched_text_def not_yet is_ok_iff)
  have rewr: "triple (?R (\<lambda>A. fetched_text opts raw A \<and> (\<forall>q r. FileOp q r \<notin> A))) (liftA (rewrite_kubeconfig raw (xo_server opts) (xo_context_name opts)))
      (\<lambda>bytes. ?R (fresh opts bytes)) ?E" for raw
    by (rule triple_lift; erule reached_mono) (auto simp: fresh_def rewritten_text_def not_yet)
  show ?thesis
    unfolding export_kubeconfig_def
    by (rule triple_bind [OF pre], rule triple_bind [OF say1], rule triple_bind [OF fetch_steps], rule triple_bind [OF sane],
        rule triple_bind [OF rewr], rule triple_bind [OF write_steps], rule triple_bind [OF says_installed],
        rule triple_bind [OF says_installed], rule triple_bind [OF says_installed], rule triple_if,
        rule triple_bind [OF says_installed], rule triple_bind [OF says_installed], rule says_installed, rule triple_ret)
qed

lemma pre_check_stops:
  assumes "pre_check_output fs (xo_output opts) (xo_force opts) w = (Err e, w)"
  shows "export_kubeconfig env fs opts w = (Err e, w)"
  using assms by (simp add: export_kubeconfig_def bindA_def)


section \<open>The rewrite of the file of kubeadm\<close>

definition admin_conf :: "string \<Rightarrow> string \<Rightarrow> string \<Rightarrow> string \<Rightarrow> string \<Rightarrow> string \<Rightarrow> string \<Rightarrow> string" where
  "admin_conf ca server cluster context_name user cert key = unlines
     [''apiVersion: v1'', ''clusters:'', ''- cluster:'', ''    certificate-authority-data: '' @ ca, ''    server: '' @ server,
      ''  name: '' @ cluster, ''contexts:'', ''- context:'', ''    cluster: '' @ cluster, ''    user: '' @ user,
      ''  name: '' @ context_name, ''current-context: '' @ context_name, ''kind: Config'', ''preferences: {}'', ''users:'',
      ''- name: '' @ user, ''  user:'', ''    client-certificate-data: '' @ cert, ''    client-key-data: '' @ key]"

definition plain_text :: "string \<Rightarrow> bool" where
  "plain_text s \<longleftrightarrow> list_all (\<lambda>c. byte_in 0 127 c \<and> c \<noteq> NL) s"

lemma utf8_ascii: "list_all (byte_in 0 127) s \<Longrightarrow> utf8_ok s"
  by (induction s) auto

lemma split_inclusive_line: "NL \<notin> set l \<Longrightarrow> split_inclusive acc (l @ NL # s) = (rev acc @ l, True) # split_inclusive [] s"
  by (induction l arbitrary: acc) auto

lemma split_inclusive_unlines: "\<forall>l \<in> set ls. NL \<notin> set l \<Longrightarrow> split_inclusive [] (unlines ls) = map (\<lambda>l. (l, True)) ls"
  by (induction ls) (auto simp: unlines_def split_inclusive_line)

lemma rewrite_unlines:
  assumes "\<forall>l \<in> set ls. plain_text l"
  shows "rewrite_kubeconfig (unlines ls) url name = Ok (unlines (map (\<lambda>l. rewrite_line l url name) ls))"
proof -
  have "list_all (byte_in 0 127) (unlines ls)" using assms by (induction ls) (auto simp: unlines_def plain_text_def list_all_iff byte_in_def)
  moreover have "\<forall>l \<in> set ls. NL \<notin> set l" using assms by (auto simp: plain_text_def list_all_iff)
  ultimately show ?thesis
    by (simp add: rewrite_kubeconfig_def utf8_ascii split_inclusive_unlines) (simp add: unlines_def o_def)
qed

lemma strip_suffix_Some: "strip_suffix p s = Some q \<longleftrightarrow> s = q @ p"
  by (auto simp: strip_suffix_def strip_prefix_Some) (metis rev_append rev_rev_ident)+

lemmas line_defs = rewrite_line_def rewrite_user_def rewrite_cluster_def strip_prefix_with_indent_def match_name_kv_def
  trim_start_def is_whitespace_def is_ascii_whitespace_def starts_with_def strip_suffix_Some Let_def

lemma rewrite_conf_lines:
  "rewrite_line ''apiVersion: v1'' url name = ''apiVersion: v1''" "rewrite_line ''clusters:'' url name = ''clusters:''"
  "rewrite_line ''- cluster:'' url name = ''- cluster:''" "rewrite_line ''contexts:'' url name = ''contexts:''"
  "rewrite_line ''- context:'' url name = ''- context:''" "rewrite_line ''kind: Config'' url name = ''kind: Config''"
  "rewrite_line ''preferences: {}'' url name = ''preferences: {}''" "rewrite_line ''users:'' url name = ''users:''"
  "rewrite_line ''  user:'' url name = ''  user:''"
  "rewrite_line (''    certificate-authority-data: '' @ ca) url name = ''    certificate-authority-data: '' @ ca"
  "rewrite_line (''    client-certificate-data: '' @ cert) url name = ''    client-certificate-data: '' @ cert"
  "rewrite_line (''    client-key-data: '' @ key) url name = ''    client-key-data: '' @ key"
  "rewrite_line (''    server: '' @ server) url name = ''    server: '' @ url"
  "rewrite_line (''  name: '' @ ''kubernetes'') url name = ''  name: '' @ name"
  "rewrite_line (''    cluster: '' @ ''kubernetes'') url name = ''    cluster: '' @ name"
  "rewrite_line (''    user: '' @ ''kubernetes-admin'') url name = ''    user: '' @ name"
  "rewrite_line (''  name: '' @ ''kubernetes-admin@kubernetes'') url name = ''  name: '' @ name"
  "rewrite_line (''current-context: '' @ ''kubernetes-admin@kubernetes'') url name = ''current-context: '' @ name"
  "rewrite_line (''- name: '' @ ''kubernetes-admin'') url name = ''- name: '' @ name"
  by (simp_all add: line_defs)

text \<open>C32. The rewrite renames the configuration of \<open>kubeadm\<close> completely. On the file it writes, for any certificates, keys and
  server, the result is the same file with the given server, and with the given name for the cluster, the user and the context
  in all the places where they are defined or referred to; no other line changes.\<close>

theorem rewrite_admin_conf:
  assumes "plain_text ca" "plain_text server" "plain_text cert" "plain_text key"
  shows "rewrite_kubeconfig (admin_conf ca server ''kubernetes'' ''kubernetes-admin@kubernetes'' ''kubernetes-admin'' cert key) url name
    = Ok (admin_conf ca url name name name cert key)"
  unfolding admin_conf_def
  by (subst rewrite_unlines) (use assms in \<open>simp_all add: rewrite_conf_lines plain_text_def byte_in_def del: append.simps\<close>)

theorem rewrite_admin_conf_witness:
  "rewrite_kubeconfig (admin_conf ''QUJD'' ''https://10.0.0.5:6443'' ''kubernetes'' ''kubernetes-admin@kubernetes'' ''kubernetes-admin'' ''REVG'' ''R0hJ'')
      ''https://cp:6443'' ''hummingbird-lab''
    = Ok (admin_conf ''QUJD'' ''https://cp:6443'' ''hummingbird-lab'' ''hummingbird-lab'' ''hummingbird-lab'' ''REVG'' ''R0hJ'')"
proof -
  have "plain_text ''QUJD'' \<and> plain_text ''https://10.0.0.5:6443'' \<and> plain_text ''REVG'' \<and> plain_text ''R0hJ''" by code_simp
  then show ?thesis using rewrite_admin_conf by blast
qed

section \<open>The time of the backup\<close>

text \<open>The date here is computed with truncated types; it is the date of \<open>civil_from_days\<close>, so the stamp is the calendar's.\<close>

lemma guess_nat: "int (n - n div 1460 + n div 36524 - n div 146096) = year_guess (int n)"
proof -
  have "n div 1460 \<le> n" "n div 146096 \<le> n div 36524" by (simp_all add: div_le_mono2)
  then show ?thesis by (simp add: year_guess_def of_nat_diff zdiv_int)
qed

lemma epoch_date:
  "epoch_to_utc_ymdhms secs =
     (case civil_from_days (secs div 86400) of (y, m, d) \<Rightarrow>
        (y, m, d, nat (secs mod 86400) div 3600, nat (secs mod 86400) div 60 mod 60, nat (secs mod 86400) mod 60))"
proof -
  let ?days = "secs div 86400"
  obtain era y doy where y: "0 \<le> y" "y < 400" "0 \<le> doy" "doy < year_days y"
      and days: "?days + 719468 = era * 146097 + year_start y + doy"
    by (rule era_exists [of ?days])
  let ?n = "year_start y + doy"
  have n: "0 \<le> ?n" "?n < year_start (y + 1)" "?n < 146097" "0 \<le> year_start y"
    using y year_bounds(3,4) [of y] by (auto simp: year_days_def year_start_def split: if_splits)
  have era: "(?days + 719468) div 146097 = era"
    unfolding days using n by (simp add: add.assoc)
  have doe: "?days + 719468 - era * 146097 = ?n" using days by simp
  let ?doe = "nat ?n"
  have yoe: "(?doe - ?doe div 1460 + ?doe div 36524 - ?doe div 146096) div 365 = nat y" (is "?g div 365 = _")
  proof -
    have "int ?g = year_guess ?n" using guess_nat [of ?doe] n(1) by (simp only: nat_0_le)
    then have "int (?g div 365) = year_guess ?n div 365" by (simp only: zdiv_int of_nat_numeral)
    also have "\<dots> = y" by (rule year_guess_year) (use y n in auto)
    finally show ?thesis by linarith
  qed
  have doy: "?doe - (365 * nat y + nat y div 4 - nat y div 100) = nat doy"
  proof -
    have "y div 400 = 0" using y by simp
    then have "year_start y = int (365 * nat y + nat y div 4 - nat y div 100)"
      using y(1) by (simp add: year_start_def of_nat_diff zdiv_int div_le_mono2 trans_le_add2)
    then have "?doe = (365 * nat y + nat y div 4 - nat y div 100) + nat doy" using y(3) by linarith
    then show ?thesis by (simp only: diff_add_inverse)
  qed
  have doy365: "doy \<le> 365" using y(4) by (auto simp: year_days_def split: if_splits)
  note mr = month_range [OF y(3) doy365]
  have mp: "(5 * nat doy + 2) div 153 = nat (march_month doy)"
    using y(3) by (simp add: march_month_def nat_div_distrib nat_add_distrib nat_mult_distrib)
  have d: "nat doy - (153 * nat (march_month doy) + 2) div 5 + 1 = nat (march_day doy)"
    using mr(1,3) y(3) unfolding march_day_def by (simp add: nat_add_distrib nat_diff_distrib nat_div_distrib nat_mult_distrib)
  have m: "(if nat (march_month doy) < 10 then nat (march_month doy) + 3 else nat (march_month doy) - 9)
      = nat (if march_month doy < 10 then march_month doy + 3 else march_month doy - 9)"
    using mr(1) by auto
  show ?thesis
    unfolding epoch_to_utc_ymdhms_def Let_def era doe yoe doy mp d m civil_from_era [OF y days] era_date_def
    using y by (simp add: Let_def)
qed

lemma epoch_ymdhms_eq:
  assumes "n < 2 ^ 63"
  shows "epoch_to_utc_ymdhms (int n) = civil_from_epoch n"
proof -
  have days: "try_i64 0 (n div 86400) = int n div 86400" using assms by (simp add: try_i64_def zdiv_int)
  have u: "try_u32 0 (int k) = k" if "k < 86400" for k using that by (simp add: try_u32_def)
  have "int n mod 86400 = int (n mod 86400)" by (simp add: zmod_int)
  then have r: "nat (int n mod 86400) = n mod 86400" by (simp only: nat_int)
  have minutes: "k div 60 mod 60 = k mod 3600 div 60" for k :: nat
    using mod_mult2_eq [of k 60 60] by simp
  obtain y m d where c: "civil_from_days (int n div 86400) = (y, m, d)" by (cases "civil_from_days (int n div 86400)")
  have "n mod 86400 < 86400" by simp
  then have small: "n mod 86400 div 3600 < 86400" "n mod 86400 mod 3600 div 60 < 86400" "n mod 86400 mod 60 < 86400" for k
    by (auto intro: le_less_trans [OF div_le_dividend] le_less_trans [OF mod_less_eq_dividend] le_less_trans [OF le_trans [OF div_le_dividend mod_less_eq_dividend]])
  show ?thesis
    unfolding epoch_date civil_from_epoch_def Let_def days r c
    by (simp only: prod.case u [OF small(1)] u [OF small(2)] u [OF small(3)] minutes)
qed

end
