(* ===== verification/Spec2Isabelle.thy ===== *)
theory Spec2Isabelle
  imports Prelude Config Virt_Uri Ssh Action Shell Virt_Conn Cp_Kubectl Poll Update_Plan Update_Gates
    Update_Cluster Update_Safety Update_Monitor Update_Results Update_Time Teardown Clean_Vms Destroy_Cluster
    Sha256 Cache Deploy_Plan Deploy_Net Deploy_Addresses Deploy_Render Deploy_Cluster Deploy_Demo Deploy_Safety
    Etcd_Text Etcd_Calendar Etcd_Keys Event_Order Etcd Etcd_Safety Etcd_Restore Minijson Kvm_Events Switch_Ghcr Switch_Safety
    Spawn_Workers Spawn_Safety Kube_Events Verify Verify_Safety Event_Scripts Preflight Preflight_Spec Kube_Bench Bench_Safety
    Passthrough Export Export_Safety
begin

text \<open>
  Verification of \<open>hbird\<close>, the command line tool of hummingbird-k8s (the Rust workspace under
  \<open>src/rust/crates\<close>).

  \<^bold>\<open>The program.\<close> The tool reads a cluster configuration, talks to a KVM host through libvirt's command
  line tools over SSH, and manages a kubeadm cluster of bootc machines. Its crates are a
  configuration reader (\<open>hbird-config\<close>), an SSH client (\<open>hbird-ssh\<close>), a libvirt client
  (\<open>hbird-virt\<close>) and the commands (\<open>hbird-cli\<close>). A command builds a plan from its arguments and the
  configuration, opens a \<open>Connection\<close> to the KVM host (every verb of which is one shell command line, run over
  SSH or locally) and an SSH client per node, and then works through its steps, each of which may fail; the
  errors are \<open>anyhow\<close> chains. The commands share no state at run time except the hosts.

  \<^bold>\<open>Theories and sources.\<close>

  \<^item> \<open>Prelude\<close>: \<open>Result\<close>, the methods of \<open>str\<close> the sources use (\<open>trim\<close>, \<open>lines\<close>, \<open>split_once\<close>,
    \<open>split_whitespace\<close>, \<open>{:?}\<close> ...), decimal numbers, with their lemmas. Strings are lists of bytes.
  \<^item> \<open>Config\<close>: \<open>hbird-config\<close>. \<open>tokenize\<close>, \<open>parse_scalar\<close>, \<open>parse_array\<close> (parser.rs), \<open>build_config\<close>
    and the \<open>take_*\<close> functions (lib.rs), errors and warnings (error.rs). The hash map of assignments is used
    through the locale \<open>string_map\<close>.
  \<^item> \<open>Virt_Uri\<close>: hbird-virt/uri.rs. \<open>Ssh\<close>: hbird-ssh (options.rs, lib.rs, error.rs), the operating system as
    an argument. \<open>Shell\<close>: a reader of POSIX command lines, the two quoting functions and the locale
    \<open>shell_quoter\<close>. \<open>Virt_Conn\<close>: hbird-virt/lib.rs, local.rs, poll.rs, ssh.rs and hbird-cli's virt_bridge.rs
    and cp_resolve.rs; the locale \<open>ssh_client\<close> is what a connection needs of a transport.
  \<^item> \<open>Action\<close>: effects. An action maps the world to a result and a world; the world is an opaque rest
    (\<open>w_ext\<close>) and the list of events so far (\<open>w_trace\<close>). The record \<open>env\<close> stands for the hosts behind SSH,
    the local shell and the clock, the record \<open>host\<close> for the machine \<open>hbird\<close> runs on; no theorem restricts
    them unless it says so. Hoare triples with a postcondition for errors, and \<open>adds\<close>/\<open>quiet\<close> for the events.
  \<^item> \<open>Cp_Kubectl\<close>: cp_kubectl.rs. \<open>Poll\<close>: the wait loop all gates share, with \<open>u32\<close> counters and a count
    of the seconds slept; the locale \<open>poll_body\<close> is the contract of a loop body.
  \<^item> \<open>Update_Plan\<close>, \<open>Update_Gates\<close>, \<open>Update_Cluster\<close>: commands/update_cluster.rs (arguments and plan; steps
    and wait loops; worker, control plane, batches, command). \<open>Update_Safety\<close>, \<open>Update_Monitor\<close>,
    \<open>Update_Results\<close>, \<open>Update_Time\<close> hold the theorems about them.
  \<^item> \<open>Teardown\<close>: the logic of exact scripts. \<open>Clean_Vms\<close>: commands/clean_vms.rs. \<open>Destroy_Cluster\<close>:
    commands/destroy_cluster.rs.
  \<^item> \<open>Sha256\<close>, \<open>Cache\<close> (cache.rs), \<open>Deploy_Plan\<close>, \<open>Deploy_Net\<close>, \<open>Deploy_Render\<close>, \<open>Deploy_Cluster\<close>:
    commands/deploy_cluster.rs (plan; MAC addresses, reservations, CIDR checks, second network; command lines
    and cloud-init; the steps and the command). \<open>Deploy_Addresses\<close> and \<open>Deploy_Safety\<close> hold the theorems,
    \<open>Deploy_Demo\<close> a complete scripted deployment that shows their hypotheses can hold.

  \<^item> \<open>Event_Order\<close>: order of events. \<open>ordered protocol\<close> says of every event of a list that the protocol allows it
    after the events before it; \<open>reached\<close> is the Hoare invariant that a run so far was ordered.
    \<open>Event_Scripts\<close>: \<open>yields m Q\<close>, where \<open>Q\<close> relates the result of \<open>m\<close> to exactly the events it adds.
    \<open>Kvm_Events\<close> and \<open>Kube_Events\<close> connect the answers of libvirt and of \<open>kubectl\<close> with the events of the calls.
  \<^item> \<open>Etcd_Text\<close>, \<open>Etcd\<close>: commands/etcd.rs (timestamps, labels, image references, sizes, Base64, the surgery of the
    encryption configuration; backup, restore and key rotation with their prompts, which the record \<open>console\<close> answers).
    \<open>Etcd_Calendar\<close> and \<open>Etcd_Keys\<close> are about the texts, \<open>Etcd_Safety\<close> and \<open>Etcd_Restore\<close> about the procedures.
  \<^item> \<open>Minijson\<close>, \<open>Switch_Ghcr\<close>: commands/switch_to_ghcr.rs (its JSON reader; the command). \<open>Switch_Safety\<close> has the
    theorems.
  \<^item> \<open>Spawn_Workers\<close>: commands/spawn_workers.rs, with \<open>Spawn_Safety\<close>. \<open>Verify\<close>: commands/verify.rs, with
    \<open>Verify_Safety\<close>. \<open>Kube_Bench\<close>: commands/kube_bench.rs, with \<open>Bench_Safety\<close>. \<open>Preflight\<close>: commands/preflight.rs,
    with \<open>Preflight_Spec\<close>.
  \<^item> \<open>Passthrough\<close>: commands/kubectl.rs and commands/nodes.rs. \<open>Export\<close>: commands/export_argocd.rs and
    commands/get_kubeconfig.rs over the record \<open>filesys\<close> of file operations that may fail, with \<open>Export_Safety\<close>.

  \<^bold>\<open>State and operations.\<close> Each function of the sources is one definition with the same name where the name
  is free, a loop or a block of a long function one of its own; \<open>?\<close> is \<open>bindA\<close>, a \<open>match\<close> on a result is \<open>matchA\<close>, \<open>with_context\<close> is \<open>ctxA\<close>, mutable locals with a
  destructor (\<open>InFlight\<close>, \<open>UpdateResults\<close>) are \<open>scoped\<close> blocks over records. Early returns, dry-run branches
  and every error message are in the model. \<open>u32\<close> values are 32-bit words where the code computes with them
  and bounded naturals where it only reads or prints them.

  \<^bold>\<open>What is shown.\<close> Configuration: printed assignments are read back, errors name their line, warnings are
  exact, the hash order does not matter. SSH and libvirt: argument vectors and command lines are read by
  \<open>ssh\<close> and by the shell as intended for any names and paths, the watchdog and the poll helper return, errors
  are classified, the \<open>rm -rf\<close> guard is exact on plain paths. Rolling update: no uncordon before the gates
  pass, no node left cordoned without a hint once drained, only the allowed commands reach the nodes, the
  sleeps are bounded, the summary is faithful (a refinement of the inductive record \<open>recorded\<close>), a dry run
  changes nothing and reaches the end. Teardown: \<open>clean-vms\<close> runs exactly its script, \<open>destroy-cluster\<close>
  touches only its own cluster and success means complete. Deployment: the digest is the standard one, the
  address checks are exact, interfaces are distinct, user data arrives unchanged, nothing existing is
  overwritten, and success means every node was created and seen Ready. etcd: the order of a rotation, a restore
  and a backup (nothing is destroyed before what replaces it was checked), the key list and the calendar.
  switch-to-ghcr and spawn-workers: what is sent follows the answers of the run, and success means complete; the JSON
  reader is exact. verify and kube-bench: a success rests on evidence of this run, and what was created is deleted.
  preflight: pins and exit codes are exact. Export: the output is replaced in one step, by a private file with the
  rewritten configuration.

  \<^bold>\<open>Bounds and fuel.\<close> Loops over lists are structural. The wait loops recurse on the number of rounds that
  are left before the saturating counter reaches its limit (\<open>Poll\<close>), retries on the attempts that are left, the JSON
  reader on the length of its input, the watchdog of \<open>Ssh\<close> is a \<open>partial_function\<close> shown to return, the padding loop
  of SHA-256 counts the zeros that are missing; none of them cuts a computation of the program short.

  \<^bold>\<open>Not modelled.\<close> The lock file and the signal handler of \<open>update-cluster\<close> (calls of the operating system; the
  lock is an argument of \<open>run_update\<close>), \<open>clap\<close> and tracing (libraries), the dispatch of the commands in main.rs,
  \<open>write_sidecar\<close> (no command calls it), reading the configuration file (its text, or the parsed record, is an
  argument), panics, the constants of \<open>hbird-common\<close> (nothing reads them), and everything that is not Rust.
\<close>

end
